(* ===== verification/Prelude.thy ===== *)
theory Prelude
  imports Main "HOL-Library.Word" "HOL-Library.Sublist" "HOL-Library.Monad_Syntax"
begin

unbundle bit_operations_syntax

text \<open>
  Shared vocabulary of the development: the types every component uses, the functions of the C
  library that the sources call on strings, and the generic lemmas that carry the component proofs.

  Conventions used by every theory.
  \<^item> A NUL terminated C string is the list of its characters without the NUL; a byte buffer with an
    explicit length is the list of exactly that many bytes. A pointer into a string is the index of
    the byte it points at.
  \<^item> A result of type \<open>'a option\<close> is \<open>None\<close> when the C program has no defined result: it
    reads or writes outside an object, or does not return. \<open>Some\<close> therefore states memory
    safety and termination at once. Error values of the C code itself (-1, a NULL result) are
    ordinary values and never \<open>None\<close> of this kind.
  \<^item> Allocation (malloc, strdup, calloc) succeeds; logging and sleeping have no effect on the state.
\<close>

type_synonym flag_t = "32 word"

abbreviation NUL :: char where "NUL \<equiv> CHR 0x00"
abbreviation CR :: char where "CR \<equiv> CHR 0x0D"
abbreviation LF :: char where "LF \<equiv> CHR 0x0A"
abbreviation SP :: char where "SP \<equiv> CHR 0x20"
abbreviation DQ :: char where "DQ \<equiv> CHR 0x22"
abbreviation BS :: char where "BS \<equiv> CHR 0x5C"

definition CRLF :: string where "CRLF = [CR, LF]"

named_theorems c_simps "evaluation rules of the modelled C library functions"

subsection \<open>Characters\<close>

definition ascii :: "char \<Rightarrow> nat" where
  "ascii c = of_char c"

definition c_isdigit :: "char \<Rightarrow> bool" where
  "c_isdigit c \<longleftrightarrow> 48 \<le> ascii c \<and> ascii c \<le> 57"

definition c_islower :: "char \<Rightarrow> bool" where
  "c_islower c \<longleftrightarrow> 97 \<le> ascii c \<and> ascii c \<le> 122"

definition c_isupper :: "char \<Rightarrow> bool" where
  "c_isupper c \<longleftrightarrow> 65 \<le> ascii c \<and> ascii c \<le> 90"

definition c_tolower :: "char \<Rightarrow> char" where
  "c_tolower c = (if c_isupper c then char_of (ascii c + 32) else c)"

definition c_toupper :: "char \<Rightarrow> char" where
  "c_toupper c = (if c_islower c then char_of (ascii c - 32) else c)"

definition c_succ :: "char \<Rightarrow> char" where
  "c_succ c = char_of (ascii c + 1)"

lemma ascii_less [simp]: "ascii c < 256"
  by (simp add: ascii_def)

lemma ascii_char_of [simp]: "ascii (char_of n) = n mod 256" for n :: nat
  by (simp add: ascii_def)

lemma char_of_ascii [simp]: "char_of (ascii c) = c"
  by (simp add: ascii_def)

lemma ascii_inject [simp]: "ascii c = ascii d \<longleftrightarrow> c = d"
  by (simp add: ascii_def)

lemma c_tolower_idem [simp]: "c_tolower (c_tolower c) = c_tolower c"
  by (auto simp: c_tolower_def c_isupper_def)

lemma c_isupper_tolower [simp]: "\<not> c_isupper (c_tolower c)"
  by (auto simp: c_tolower_def c_isupper_def)

lemma c_tolower_NUL [simp]: "c_tolower c = NUL \<longleftrightarrow> c = NUL"
proof
  assume h: "c_tolower c = NUL"
  show "c = NUL"
  proof (cases "c_isupper c")
    case True
    with h have "char_of (ascii c + 32) = NUL" by (simp add: c_tolower_def)
    then have "ascii (char_of (ascii c + 32)) = ascii NUL" by simp
    moreover have "ascii NUL = 0" by (simp add: ascii_def)
    ultimately show ?thesis using True by (simp add: c_isupper_def)
  next
    case False
    with h show ?thesis by (simp add: c_tolower_def)
  qed
next
  assume "c = NUL"
  then show "c_tolower c = NUL" by (simp add: c_tolower_def c_isupper_def ascii_def)
qed

lemma c_tolower_NUL_eq [simp]: "c_tolower NUL = NUL" "NUL = c_tolower c \<longleftrightarrow> c = NUL"
  by (metis c_tolower_NUL)+

subsection \<open>Functions of the C string library\<close>

text \<open>The C string held by a buffer: the bytes before the first NUL.\<close>

definition cstr :: "string \<Rightarrow> string" where
  "cstr xs = takeWhile (\<lambda>c. c \<noteq> NUL) xs"

definition no_nul :: "string \<Rightarrow> bool" where
  "no_nul xs \<longleftrightarrow> NUL \<notin> set xs"

lemma cstr_id [simp]: "no_nul xs \<Longrightarrow> cstr xs = xs"
  unfolding no_nul_def cstr_def by (auto intro!: takeWhile_eq_all_conv [THEN iffD2])

lemma no_nul_cstr [simp]: "no_nul (cstr xs)"
  by (auto simp: no_nul_def cstr_def dest: set_takeWhileD)

lemma length_cstr_le: "length (cstr xs) \<le> length xs"
  by (simp add: cstr_def length_takeWhile_le)

lemma no_nul_append [simp]: "no_nul (xs @ ys) \<longleftrightarrow> no_nul xs \<and> no_nul ys"
  by (auto simp: no_nul_def)

lemma no_nul_Cons [simp]: "no_nul (x # xs) \<longleftrightarrow> x \<noteq> NUL \<and> no_nul xs"
  by (auto simp: no_nul_def)

lemma no_nul_Nil [simp]: "no_nul []"
  by (simp add: no_nul_def)

lemma cstr_Nil [simp]: "cstr [] = []"
  by (simp add: cstr_def)

lemma cstr_append_no_nul: "no_nul xs \<Longrightarrow> cstr (xs @ ys) = xs @ cstr ys"
  by (induction xs) (auto simp: cstr_def)

text \<open>\<open>strstr\<close>: index of the first occurrence of the needle.\<close>

fun strstr :: "string \<Rightarrow> string \<Rightarrow> nat option" where
  "strstr h n =
     (if prefix n h then Some 0
      else case h of [] \<Rightarrow> None | _ # h' \<Rightarrow> map_option Suc (strstr h' n))"

declare strstr.simps [simp del]

text \<open>\<open>strchr\<close> and \<open>strrchr\<close>: index of the first and of the last occurrence of a character.\<close>

fun strchr :: "string \<Rightarrow> char \<Rightarrow> nat option" where
  "strchr [] c = None"
| "strchr (x # xs) c = (if x = c then Some 0 else map_option Suc (strchr xs c))"

fun strrchr :: "string \<Rightarrow> char \<Rightarrow> nat option" where
  "strrchr [] c = None"
| "strrchr (x # xs) c =
     (case strrchr xs c of
        Some i \<Rightarrow> Some (Suc i)
      | None \<Rightarrow> if x = c then Some 0 else None)"

text \<open>\<open>strcasecmp(a, b) == 0\<close> in the C locale.\<close>

definition strcaseeq :: "string \<Rightarrow> string \<Rightarrow> bool" where
  "strcaseeq a b \<longleftrightarrow> map c_tolower a = map c_tolower b"

text \<open>\<open>strncasecmp(a, b, n) == 0\<close>: bytes past the end of a list are its terminating NUL.\<close>

fun strncaseeq :: "string \<Rightarrow> string \<Rightarrow> nat \<Rightarrow> bool" where
  "strncaseeq a b 0 \<longleftrightarrow> True"
| "strncaseeq [] [] (Suc n) \<longleftrightarrow> True"
| "strncaseeq [] (y # ys) (Suc n) \<longleftrightarrow> y = NUL"
| "strncaseeq (x # xs) [] (Suc n) \<longleftrightarrow> x = NUL"
| "strncaseeq (x # xs) (y # ys) (Suc n) \<longleftrightarrow>
     c_tolower x = c_tolower y \<and> (x = NUL \<or> strncaseeq xs ys n)"

subsection \<open>Searching\<close>

lemma strstr_Some_prefix: "strstr h n = Some i \<Longrightarrow> i \<le> length h \<and> prefix n (drop i h)"
proof (induction h arbitrary: i)
  case Nil
  then show ?case by (auto simp: strstr.simps split: if_splits)
next
  case (Cons x h)
  then show ?case
    by (subst (asm) strstr.simps) (auto split: if_splits)
qed

lemma strstr_Some_least: "strstr h n = Some i \<Longrightarrow> j < i \<Longrightarrow> \<not> prefix n (drop j h)"
proof (induction h arbitrary: i j)
  case Nil
  then show ?case by (auto simp: strstr.simps split: if_splits)
next
  case (Cons x h)
  show ?case
  proof (cases j)
    case 0
    with Cons.prems show ?thesis
      by (subst (asm) strstr.simps) (auto split: if_splits)
  next
    case (Suc k)
    with Cons show ?thesis
      by (subst (asm) (2) strstr.simps) (auto split: if_splits)
  qed
qed

lemma strstr_None: "strstr h n = None \<Longrightarrow> \<not> prefix n (drop j h)"
proof (induction h arbitrary: j)
  case Nil
  then show ?case by (auto simp: strstr.simps split: if_splits)
next
  case (Cons x h)
  show ?case
  proof (cases j)
    case 0
    with Cons.prems show ?thesis
      by (subst (asm) strstr.simps) (auto split: if_splits)
  next
    case (Suc k)
    with Cons show ?thesis
      by (subst (asm) (2) strstr.simps) (auto split: if_splits)
  qed
qed

lemma strstr_infix: "strstr (u @ n @ v) n \<noteq> None"
  using strstr_None [of "u @ n @ v" n "length u"] by auto

lemma strstr_Some_length: "strstr h n = Some i \<Longrightarrow> i + length n \<le> length h"
  using strstr_Some_prefix [of h n i] prefix_length_le [of n "drop i h"] by auto

lemma strstr_eqI:
  assumes "prefix n (drop i h)" and "i \<le> length h" and "\<And>j. j < i \<Longrightarrow> \<not> prefix n (drop j h)"
  shows "strstr h n = Some i"
proof (cases "strstr h n")
  case None
  then have "\<not> prefix n (drop i h)" by (rule strstr_None)
  with assms(1) show ?thesis by simp
next
  case (Some k)
  have "k = i"
  proof (rule linorder_cases [of k i])
    assume "k < i"
    with assms(3) strstr_Some_prefix [OF Some] show ?thesis by blast
  next
    assume "i < k"
    with strstr_Some_least [OF Some] assms(1) show ?thesis by blast
  qed simp
  with Some show ?thesis by simp
qed

lemma strchr_Some: "strchr s c = Some i \<Longrightarrow> i < length s \<and> s ! i = c \<and> c \<notin> set (take i s)"
  by (induction s arbitrary: i) (auto split: if_splits)

lemma strchr_None [simp]: "strchr s c = None \<longleftrightarrow> c \<notin> set s"
  by (induction s) auto

lemma strchr_append_notin: "c \<notin> set xs \<Longrightarrow> strchr (xs @ c # ys) c = Some (length xs)"
  by (induction xs) auto

lemma strrchr_None [simp]: "strrchr s c = None \<longleftrightarrow> c \<notin> set s"
  by (induction s) (auto split: option.splits)

lemma strrchr_Some: "strrchr s c = Some i \<Longrightarrow> i < length s \<and> s ! i = c \<and> c \<notin> set (drop (Suc i) s)"
  by (induction s arbitrary: i) (auto split: option.splits if_splits)

lemma strrchr_append_notin: "c \<notin> set ys \<Longrightarrow> strrchr (xs @ c # ys) c = Some (length xs)"
proof (induction xs)
  case Nil
  then have "strrchr ys c = None" by (simp only: strrchr_None not_False_eq_True)
  then show ?case by (simp del: strrchr_None)
next
  case (Cons x xs)
  then show ?case by simp
qed

subsection \<open>Case insensitive comparison\<close>

lemma strcaseeq_refl [simp]: "strcaseeq a a"
  by (simp add: strcaseeq_def)

lemma strcaseeq_sym: "strcaseeq a b \<longleftrightarrow> strcaseeq b a"
  by (auto simp: strcaseeq_def)

lemma strcaseeq_length: "strcaseeq a b \<Longrightarrow> length a = length b"
  unfolding strcaseeq_def by (drule arg_cong [where f = length]) simp

lemma strncaseeq_refl [simp]: "strncaseeq a a n"
proof (induction a arbitrary: n)
  case Nil
  then show ?case by (cases n) auto
next
  case (Cons x xs)
  then show ?case by (cases n) auto
qed

lemma strncaseeq_sym: "strncaseeq a b n = strncaseeq b a n"
proof (induction a b n rule: strncaseeq.induct)
  case (5 x xs y ys n)
  then show ?case by (cases "x = NUL"; cases "y = NUL") auto
qed auto

lemma strncaseeq_no_nul:
  "length a = n \<Longrightarrow> length b = n \<Longrightarrow> no_nul b \<Longrightarrow> strncaseeq a b n = strcaseeq a b"
proof (induction a b n rule: strncaseeq.induct)
  case (5 x xs y ys n)
  then show ?case by (cases "x = NUL"; cases "y = NUL") (auto simp: strcaseeq_def)
qed (auto simp: strcaseeq_def)

subsection \<open>Lists\<close>

lemma take_drop_split: "i \<le> length h \<Longrightarrow> h = take i h @ drop i h"
  by simp

lemma prefix_drop_append_conv:
  "prefix n (drop i h) \<longleftrightarrow> (\<exists>r. drop i h = n @ r)"
  by (auto simp: prefix_def)

subsection \<open>Results of steps that may have none\<close>

text \<open>What holds of the result of a sequence of steps, if there is one.\<close>

lemma pred_bind: "(\<And>a. x = Some a \<Longrightarrow> pred_option P (f a)) \<Longrightarrow> pred_option P (Option.bind x f)"
  by (cases x) simp_all

lemma pred_bind_pair: "pred_option Q x \<Longrightarrow> (\<And>a b. Q (a, b) \<Longrightarrow> pred_option P (f (a, b))) \<Longrightarrow> pred_option P (Option.bind x f)"
  by (cases x) auto

end
