(* ===== verification/Str.thy ===== *)
theory Str
  imports Prelude
begin

text \<open>
  The string functions of \<^verbatim>\<open>perdition/str.c\<close>: reverse search, case conversion, removal and
  addition of an element of a delimited list, replacement, the rolling checksum and the word search.
  The lemmas show that the functions work on delimited lists as lists of words, say exactly where a
  function leaves the bounds of its buffer, and characterise the searches.
\<close>

subsection \<open>Reverse search\<close>

text \<open>The loop of \<open>strrstr\<close>: \<open>p\<close> runs from \<open>i\<close> down to the start of the haystack.\<close>

fun strrstr_loop :: "string \<Rightarrow> string \<Rightarrow> nat \<Rightarrow> nat option" where
  "strrstr_loop h n i =
     (if prefix n (drop i h) then Some i
      else case i of 0 \<Rightarrow> None | Suc j \<Rightarrow> strrstr_loop h n j)"

declare strrstr_loop.simps [simp del]

definition strrstr :: "string \<Rightarrow> string \<Rightarrow> nat option" where
  "strrstr haystack needle =
     (if haystack = [] then None
      else if needle = [] then Some 0
      else if length haystack < length needle then None
      else strrstr_loop haystack needle (length haystack - length needle))"

definition STRSTR_FORWARD :: int where "STRSTR_FORWARD = 1"
definition STRSTR_REVERSE :: int where "STRSTR_REVERSE = 2"

definition strstr_sw :: "string \<Rightarrow> string \<Rightarrow> int \<Rightarrow> nat option" where
  "strstr_sw haystack needle direction =
     (if direction = STRSTR_REVERSE then strrstr haystack needle else strstr haystack needle)"

text \<open>
  \<open>strn_to_str\<close> copies with \<open>strncpy\<close>, which stops at the first NUL; the result is read as a
  C string. \<open>n\<close> is at most the size of the source object in every defined call.
\<close>

definition strn_to_str :: "string \<Rightarrow> nat \<Rightarrow> string" where
  "strn_to_str s n = cstr (take n s)"

definition str_cat :: "string list \<Rightarrow> string option" where
  "str_cat strings = (if strings = [] then None else Some (concat strings))"

subsection \<open>Case conversion and base name\<close>

fun strn_tolower :: "string \<Rightarrow> nat \<Rightarrow> string" where
  "strn_tolower (c # cs) (Suc count) = c_tolower c # strn_tolower cs count"
| "strn_tolower s _ = s"

definition str_tolower :: "string \<Rightarrow> string" where
  "str_tolower s = strn_tolower s (length s)"

fun strn_toupper :: "string \<Rightarrow> nat \<Rightarrow> string" where
  "strn_toupper (c # cs) (Suc count) = c_toupper c # strn_toupper cs count"
| "strn_toupper s _ = s"

definition str_toupper :: "string \<Rightarrow> string" where
  "str_toupper s = strn_toupper s (length s)"

definition str_basename :: "string option \<Rightarrow> string option" where
  "str_basename filename =
     (case filename of
        None \<Rightarrow> None
      | Some f \<Rightarrow> (case strrchr f CHR ''/'' of None \<Rightarrow> Some f | Some i \<Rightarrow> Some (drop (Suc i) f)))"

definition STR_NULL :: string where "STR_NULL = ''(null)''"

definition str_null_safe :: "string option \<Rightarrow> string" where
  "str_null_safe s = (case s of None \<Rightarrow> STR_NULL | Some x \<Rightarrow> x)"

subsection \<open>Removing an element of a delimited list\<close>

text \<open>
  The loop of \<open>str_delete_substring\<close> over the copy \<open>h\<close> of the haystack, \<open>start\<close> being the
  index of the pointer of that name. The test \<^verbatim>\<open>start != '\0'\<close> compares the pointer with a null
  pointer and always holds, so the copy moves to \<open>start - delimiter_len\<close>; when that lies before
  the buffer the write is out of bounds and the result is \<open>None\<close>.
\<close>

partial_function (option) str_delete_loop :: "string \<Rightarrow> string \<Rightarrow> string \<Rightarrow> nat \<Rightarrow> string option" where
  "str_delete_loop h needle delimiter start =
     (case strstr (drop start h) needle of
        None \<Rightarrow> Some h
      | Some k \<Rightarrow>
          let s = start + k; e = s + length needle in
          if s \<noteq> 0 \<and> (s < length delimiter \<or> \<not> prefix delimiter (drop (s - length delimiter) h))
          then str_delete_loop h needle delimiter e
          else if e < length h \<and> \<not> prefix delimiter (drop e h)
          then str_delete_loop h needle delimiter e
          else if s < length delimiter then None
          else str_delete_loop (take (s - length delimiter) h @ drop e h) needle delimiter
                 (s - length delimiter))"

declare str_delete_loop.simps [code]

definition str_delete_substring :: "string \<Rightarrow> string \<Rightarrow> string \<Rightarrow> string option" where
  "str_delete_substring haystack needle delimiter = str_delete_loop haystack needle delimiter 0"

subsection \<open>Adding an element to a delimited list\<close>

text \<open>
  The search loop of \<open>str_append_substring_if_missing\<close>. \<open>new_haystack\<close> is still a null pointer
  when \<open>cursor\<close> is compared with it, so the bytes before \<open>cursor\<close> are always read; reading before
  the start of the haystack gives \<open>None\<close>.
\<close>

partial_function (option) str_append_search :: "string \<Rightarrow> string \<Rightarrow> string \<Rightarrow> nat \<Rightarrow> bool option" where
  "str_append_search haystack needle delimiter cursor =
     (case strstr (drop cursor haystack) needle of
        None \<Rightarrow> Some False
      | Some k \<Rightarrow>
          let s = cursor + k; e = s + length needle in
          if s < length delimiter then None
          else if \<not> prefix delimiter (drop (s - length delimiter) haystack)
          then str_append_search haystack needle delimiter e
          else if e < length haystack \<and> \<not> prefix delimiter (drop e haystack)
          then str_append_search haystack needle delimiter e
          else Some True)"

declare str_append_search.simps [code]

definition str_append_substring_if_missing :: "string \<Rightarrow> string \<Rightarrow> string \<Rightarrow> string option" where
  "str_append_substring_if_missing haystack needle delimiter =
     do { found \<leftarrow> str_append_search haystack needle delimiter 0;
          if found then Some haystack else str_cat [haystack, delimiter, needle] }"

subsection \<open>Checksum, replacement, word search\<close>

text \<open>
  \<open>len - 1\<close> is computed in \<open>size_t\<close>: for \<open>len = 0\<close> the loop runs over the whole address
  space and leaves the buffer.
\<close>

fun str_rolling32_loop :: "string \<Rightarrow> nat \<Rightarrow> 32 word \<Rightarrow> 32 word option" where
  "str_rolling32_loop _ 0 csum = Some csum"
| "str_rolling32_loop [] (Suc n) csum = None"
| "str_rolling32_loop (b # buf) (Suc n) csum =
     str_rolling32_loop buf n (csum + word_of_nat (ascii b))"

definition str_rolling32 :: "string \<Rightarrow> nat \<Rightarrow> 32 word option" where
  "str_rolling32 buf len = (if len = 0 then None else str_rolling32_loop buf (len - 1) 0)"

text \<open>
  \<open>str_replace\<close> with one match/substitute pair, for a substitute that is not longer than the
  match: \<open>p\<close> is the index at which the next search starts.
  For a longer substitute the string is reallocated to \<^verbatim>\<open>strlen(str) + subst_len - match_len\<close> bytes,
  which leaves no room for the NUL that the following \<open>memmove\<close> writes: out of bounds, \<open>None\<close>.
\<close>

partial_function (option) str_replace_loop :: "string \<Rightarrow> nat \<Rightarrow> string \<Rightarrow> string \<Rightarrow> string option" where
  "str_replace_loop s p match subst =
     (case strstr (drop p s) match of
        None \<Rightarrow> Some s
      | Some k \<Rightarrow>
          if length match < length subst then None
          else str_replace_loop (take (p + k) s @ subst @ drop (p + k + length match) s)
                 (p + k + length subst) match subst)"

declare str_replace_loop.simps [code]

fun str_replace_pairs :: "string \<Rightarrow> string list \<Rightarrow> string option" where
  "str_replace_pairs s (match # subst # rest) =
     do { s' \<leftarrow> str_replace_loop s 0 match subst; str_replace_pairs s' rest }"
| "str_replace_pairs s _ = Some s"

text \<open>The result of \<open>str_replace\<close> is NULL (inner \<open>None\<close>) for an odd or zero argument count.\<close>

definition str_replace :: "string \<Rightarrow> string list \<Rightarrow> string option option" where
  "str_replace s args =
     (if args = [] \<or> odd (length args) then Some None
      else map_option Some (str_replace_pairs s args))"

text \<open>
  The loop of \<open>strcasestr\<close>. The guard \<^verbatim>\<open>haystack_len - i >= needle_len\<close> is unsigned: once \<open>i\<close>
  passes the end of the haystack it wraps and the read is out of bounds.
\<close>

function strcasestr_loop :: "string \<Rightarrow> string \<Rightarrow> nat \<Rightarrow> nat option option" where
  "strcasestr_loop h n i =
     (if i > length h then None
      else if length h - i \<ge> length n
      then (if strcaseeq (drop i h) n then Some (Some i) else strcasestr_loop h n (Suc i))
      else Some None)"
  by pat_completeness auto
termination
  by (relation "measure (\<lambda>(h, n, i). Suc (length h) - i)") auto

declare strcasestr_loop.simps [simp del]

definition strcasestr :: "string \<Rightarrow> string \<Rightarrow> nat option option" where
  "strcasestr haystack needle = strcasestr_loop haystack needle 0"

text \<open>\<open>strchr(delim, c) != NULL\<close>: the terminating NUL counts as a character of \<open>delim\<close>.\<close>

definition in_delim :: "string \<Rightarrow> char \<Rightarrow> bool" where
  "in_delim delim c \<longleftrightarrow> c = NUL \<or> c \<in> set delim"

definition char_at :: "string \<Rightarrow> nat \<Rightarrow> char" where
  "char_at s i = (if i < length s then s ! i else NUL)"

definition strcasedelimword :: "string \<Rightarrow> string \<Rightarrow> string \<Rightarrow> nat option option" where
  "strcasedelimword haystack needle delim =
     do { r \<leftarrow> strcasestr haystack needle;
          Some (case r of
                  None \<Rightarrow> None
                | Some found \<Rightarrow>
                    if found \<noteq> 0 \<and> \<not> in_delim delim (char_at haystack (found - 1)) then None
                    else if char_at haystack found \<noteq> LF \<and> \<not> in_delim delim (char_at haystack found)
                    then None
                    else Some found) }"

definition strcaseword :: "string \<Rightarrow> string \<Rightarrow> nat option option" where
  "strcaseword haystack needle = strcasedelimword haystack needle '' ''"

subsection \<open>Delimited lists\<close>

fun join :: "char \<Rightarrow> string list \<Rightarrow> string" where
  "join c [] = []"
| "join c (w # ws) = w @ concat (map ((#) c) ws)"

text \<open>A list of words that the delimiter \<open>c\<close> separates.\<close>

definition words_free :: "char \<Rightarrow> string list \<Rightarrow> bool" where
  "words_free c ws \<longleftrightarrow> (\<forall>w \<in> set ws. c \<notin> set w)"

lemma prefix_drop_nth:
  "prefix n (drop s h) \<Longrightarrow> j < length n \<Longrightarrow> s + j < length h \<and> h ! (s + j) = n ! j"
proof -
  assume p: "prefix n (drop s h)" and j: "j < length n"
  then obtain r where r: "drop s h = n @ r" by (auto simp: prefix_def)
  then have "length (drop s h) = length n + length r" by simp
  with j have lt: "s + j < length h" by simp
  moreover from lt have "h ! (s + j) = drop s h ! j" by simp
  moreover from r j have "drop s h ! j = n ! j" by (simp add: nth_append)
  ultimately show "s + j < length h \<and> h ! (s + j) = n ! j" by simp
qed

lemma strstr_drop: "strstr (drop p h) n = Some k \<Longrightarrow> prefix n (drop (p + k) h)"
  using strstr_Some_prefix [of "drop p h" n k] by (simp add: add.commute)

lemma prefix_iff_take: "prefix n xs \<longleftrightarrow> take (length n) xs = n"
  by (auto simp: prefix_def) (metis append_take_drop_id)

lemma prefix_drop_appendI: "prefix n (drop s h) \<Longrightarrow> prefix n (drop s (h @ r))"
  by (cases "s \<le> length h") (auto simp: prefix_def)

lemma prefix_drop_append_inside:
  "s + length n \<le> length h \<Longrightarrow> prefix n (drop s (h @ r)) \<longleftrightarrow> prefix n (drop s h)"
  by (simp add: prefix_iff_take)

text \<open>An occurrence of a needle without the delimiter does not cross a delimiter.\<close>

lemma occurrence_no_cross:
  assumes "c \<notin> set n" and "prefix n (drop s (u @ c # r))"
  shows "s + length n \<le> length u \<or> length u < s"
proof (rule ccontr)
  assume "\<not> ?thesis"
  then have j: "length u - s < length n" "s + (length u - s) = length u" by auto
  with prefix_drop_nth [OF assms(2) j(1)] have "n ! (length u - s) = c" by (simp add: nth_append)
  with j(1) assms(1) show False using nth_mem by blast
qed

text \<open>No accepted match of the needle starts at or after \<open>p\<close> inside \<open>L\<close>.\<close>

definition settled :: "char \<Rightarrow> string \<Rightarrow> string \<Rightarrow> nat \<Rightarrow> bool" where
  "settled c n L p \<longleftrightarrow>
     (\<forall>s. p \<le> s \<longrightarrow> s + length n \<le> length L \<longrightarrow> prefix n (drop s L) \<longrightarrow>
        (1 \<le> s \<and> L ! (s - 1) \<noteq> c) \<or> (s + length n < length L \<and> L ! (s + length n) \<noteq> c))"

lemma settled_mono: "settled c n L p \<Longrightarrow> p \<le> p' \<Longrightarrow> settled c n L p'"
  by (auto simp: settled_def)

lemma settled_end: "n \<noteq> [] \<Longrightarrow> settled c n L (length L)"
  by (auto simp: settled_def)

lemma prefix_eqI: "prefix n w \<Longrightarrow> length w \<le> length n \<Longrightarrow> n = w"
  by (auto simp: prefix_def)

lemma settled_word: "c \<notin> set w \<Longrightarrow> w \<noteq> n \<Longrightarrow> n \<noteq> [] \<Longrightarrow> settled c n w 0"
proof (unfold settled_def, intro allI impI)
  fix s
  assume h: "c \<notin> set w" "w \<noteq> n" "n \<noteq> []" "s + length n \<le> length w" "prefix n (drop s w)"
  show "(1 \<le> s \<and> w ! (s - 1) \<noteq> c) \<or> (s + length n < length w \<and> w ! (s + length n) \<noteq> c)"
  proof (cases "s = 0")
    case True
    with h have "length n < length w" using prefix_eqI [of n w] by fastforce
    with True h show ?thesis using nth_mem by fastforce
  next
    case False
    with h have "s - 1 < length w" by (cases n) auto
    with False h(1) show ?thesis using nth_mem by fastforce
  qed
qed

lemma settled_extend:
  assumes "settled c n L p" and "c \<notin> set w" and "w \<noteq> n" and "n \<noteq> []" and "c \<notin> set n"
  shows "settled c n (L @ c # w) p"
proof (unfold settled_def, intro allI impI)
  fix s
  assume s: "p \<le> s" "s + length n \<le> length (L @ c # w)" "prefix n (drop s (L @ c # w))"
  let ?L = "L @ c # w"
  from occurrence_no_cross [OF assms(5) s(3)]
  consider "s + length n \<le> length L" | "length L < s" by blast
  then show "(1 \<le> s \<and> ?L ! (s - 1) \<noteq> c) \<or> (s + length n < length ?L \<and> ?L ! (s + length n) \<noteq> c)"
  proof cases
    case 1
    with s(3) have "prefix n (drop s L)" using prefix_drop_append_inside [of s n L "c # w"] by simp
    with assms(1) s(1) 1
    have "(1 \<le> s \<and> L ! (s - 1) \<noteq> c) \<or> (s + length n < length L \<and> L ! (s + length n) \<noteq> c)"
      by (auto simp: settled_def)
    with 1 show ?thesis using assms(4) by (cases n) (auto simp: nth_append)
  next
    case 2
    then obtain k where k: "s = Suc (length L) + k" using less_natE by (metis add.commute add_Suc_right)
    with s have w: "prefix n (drop k w)" "k + length n \<le> length w" by auto
    with settled_word [OF assms(2-4)]
    have "(1 \<le> k \<and> w ! (k - 1) \<noteq> c) \<or> (k + length n < length w \<and> w ! (k + length n) \<noteq> c)"
      by (auto simp: settled_def)
    with k show ?thesis by (auto simp: nth_append)
  qed
qed

lemma prefix_single_drop: "prefix [c] (drop i h) \<longleftrightarrow> i < length h \<and> h ! i = c"
  by (cases "i < length h") (auto simp: prefix_def Cons_nth_drop_Suc [symmetric])

lemma less_needle:
  "n \<noteq> [] \<Longrightarrow> p + k + length n \<le> l \<Longrightarrow> l - (p + k + length n) < l - p"
  by (cases n) auto

text \<open>A rejected match makes both loops step over the needle.\<close>

lemma rejected_iff:
  "(s \<noteq> 0 \<and> (s < length [c] \<or> \<not> prefix [c] (drop (s - length [c]) h))) \<longleftrightarrow>
     s \<noteq> 0 \<and> \<not> (s - 1 < length h \<and> h ! (s - 1) = c)"
  by (auto simp: prefix_single_drop)

lemma delete_skip:
  assumes "settled c n L p" and "n \<noteq> []" and "strstr (drop p (L @ r)) n = Some k"
    and "p \<le> length L" and "p + k + length n \<le> length L" and "r = [] \<or> hd r = c"
  shows "str_delete_loop (L @ r) n [c] p = str_delete_loop (L @ r) n [c] (p + k + length n)"
proof -
  let ?s = "p + k"
  from strstr_drop [OF assms(3)] have "prefix n (drop ?s (L @ r))" .
  with assms(5) have "prefix n (drop ?s L)" using prefix_drop_append_inside [of ?s n L r] by simp
  with assms(1,5)
  have "(1 \<le> ?s \<and> L ! (?s - 1) \<noteq> c) \<or> (?s + length n < length L \<and> L ! (?s + length n) \<noteq> c)"
    by (auto simp: settled_def)
  then have "(1 \<le> ?s \<and> (L @ r) ! (?s - 1) \<noteq> c) \<or>
      (?s + length n < length (L @ r) \<and> (L @ r) ! (?s + length n) \<noteq> c)"
    using assms(2,5) by (cases n) (auto simp: nth_append)
  moreover have "?s - 1 < length (L @ r)" using assms(2,5) by (cases n) auto
  ultimately show ?thesis
    by (subst str_delete_loop.simps) (auto simp: assms(3) Let_def prefix_single_drop simp del: drop_append)
qed

lemma delete_settled:
  assumes "settled c n L p" and "n \<noteq> []" and "p \<le> length L"
  shows "str_delete_loop L n [c] p = Some L"
  using assms
proof (induction "length L - p" arbitrary: p rule: less_induct)
  case less
  show ?case
  proof (cases "strstr (drop p L) n")
    case None
    then show ?thesis by (subst str_delete_loop.simps) simp
  next
    case (Some k)
    from strstr_Some_length [OF this] less.prems(3) have le: "p + k + length n \<le> length L" by simp
    from delete_skip [of c n L p "[]" k] less.prems Some le
    have "str_delete_loop L n [c] p = str_delete_loop L n [c] (p + k + length n)" by simp
    also have "\<dots> = Some L"
      using less.prems le by (intro less.hyps) (auto intro: settled_mono simp: diff_less_mono2 less_needle)
    finally show ?thesis .
  qed
qed

lemma delete_accept:
  assumes "settled c n L p" and "n \<noteq> []" and "c \<notin> set n" and "p \<le> length L" and "r = [] \<or> hd r = c"
  shows "str_delete_loop (L @ c # n @ r) n [c] p = str_delete_loop (L @ r) n [c] (length L)"
  using assms
proof (induction "length L - p" arbitrary: p rule: less_induct)
  case less
  let ?h = "L @ c # n @ r"
  let ?i = "Suc (length L)"
  have here: "prefix n (drop ?i ?h)" by simp
  then have "strstr (drop p ?h) n \<noteq> None"
    using strstr_None [of "drop p ?h" n "?i - p"] less.prems(4) by (auto simp: Suc_diff_le)
  then obtain k where k: "strstr (drop p ?h) n = Some k" by blast
  from strstr_drop [OF k] have pk: "prefix n (drop (p + k) ?h)" .
  have "p + k \<le> ?i"
  proof (rule ccontr)
    assume "\<not> ?thesis"
    then have "?i - p < k" using less.prems(4) by linarith
    from strstr_Some_least [OF k this] here less.prems(4) show False by (simp add: Suc_diff_le)
  qed
  moreover from occurrence_no_cross [OF less.prems(3) pk]
  have "p + k + length n \<le> length L \<or> length L < p + k" by simp
  ultimately consider "p + k + length n \<le> length L" | "p + k = ?i" by linarith
  then show ?case
  proof cases
    case 1
    from delete_skip [of c n L p "c # n @ r" k] less.prems k 1
    have "str_delete_loop ?h n [c] p = str_delete_loop ?h n [c] (p + k + length n)" by simp
    also have "\<dots> = str_delete_loop (L @ r) n [c] (length L)"
      using less.prems 1 by (intro less.hyps) (auto intro: settled_mono simp: diff_less_mono2 less_needle)
    finally show ?thesis .
  next
    case 2
    have "r \<noteq> [] \<longrightarrow> prefix [c] r"
      using less.prems(5) by (cases r) auto
    moreover have "drop (Suc (length L + length n)) ?h = r" by simp
    ultimately show ?thesis using 2
      by (subst str_delete_loop.simps) (auto simp: k Let_def prefix_single_drop nth_append simp del: drop_append)
  qed
qed

lemma hd_concat_Cons: "concat (map ((#) c) ws) = [] \<or> hd (concat (map ((#) c) ws)) = c"
  by (cases ws) auto

lemma delete_words:
  assumes "settled c n L p" and "n \<noteq> []" and "c \<notin> set n" and "p \<le> length L" and "words_free c ws"
  shows "str_delete_loop (L @ concat (map ((#) c) ws)) n [c] p =
         Some (L @ concat (map ((#) c) (filter (\<lambda>w. w \<noteq> n) ws)))"
  using assms
proof (induction ws arbitrary: L p)
  case Nil
  then show ?case by (simp add: delete_settled)
next
  case (Cons w ws)
  show ?case
  proof (cases "w = n")
    case True
    with delete_accept [of c n L p "concat (map ((#) c) ws)"] Cons.prems hd_concat_Cons [of c ws]
    have "str_delete_loop (L @ concat (map ((#) c) (w # ws))) n [c] p =
        str_delete_loop (L @ concat (map ((#) c) ws)) n [c] (length L)" by simp
    with Cons.prems True show ?thesis
      by (simp add: Cons.IH settled_end words_free_def)
  next
    case False
    with Cons.prems have "settled c n (L @ c # w) p"
      by (intro settled_extend) (auto simp: words_free_def)
    with Cons.IH [of "L @ c # w" p] Cons.prems False show ?thesis by (simp add: words_free_def)
  qed
qed

lemma str_delete_substring_words:
  assumes "n \<noteq> []" and "c \<notin> set n" and "words_free c (w # ws)"
  shows "str_delete_substring (join c (w # ws)) n [c] =
         (if w = n then None else Some (join c (w # filter (\<lambda>w. w \<noteq> n) ws)))"
proof (cases "w = n")
  case True
  have "strstr (n @ concat (map ((#) c) ws)) n = Some 0" by (subst strstr.simps) simp
  then show ?thesis
    using True unfolding str_delete_substring_def
    by (subst str_delete_loop.simps) (cases ws; simp add: Let_def)
next
  case False
  with assms show ?thesis
    unfolding str_delete_substring_def
    by (simp add: delete_words settled_word words_free_def)
qed


subsection \<open>Adding a word\<close>

lemma search_skip:
  assumes "settled c n L p" and "n \<noteq> []" and "strstr (drop p (L @ r)) n = Some k" and "p + k \<noteq> 0"
    and "p \<le> length L" and "p + k + length n \<le> length L" and "r = [] \<or> hd r = c"
  shows "str_append_search (L @ r) n [c] p = str_append_search (L @ r) n [c] (p + k + length n)"
proof -
  let ?s = "p + k"
  from strstr_drop [OF assms(3)] have "prefix n (drop ?s (L @ r))" .
  with assms(6) have "prefix n (drop ?s L)" using prefix_drop_append_inside [of ?s n L r] by simp
  with assms(1,6)
  have "(1 \<le> ?s \<and> L ! (?s - 1) \<noteq> c) \<or> (?s + length n < length L \<and> L ! (?s + length n) \<noteq> c)"
    by (auto simp: settled_def)
  then have "(1 \<le> ?s \<and> (L @ r) ! (?s - 1) \<noteq> c) \<or>
      (?s + length n < length (L @ r) \<and> (L @ r) ! (?s + length n) \<noteq> c)"
    using assms(2,6) by (cases n) (auto simp: nth_append)
  moreover have "?s - 1 < length (L @ r)" using assms(2,6) by (cases n) auto
  ultimately show ?thesis using assms(4)
    by (subst str_append_search.simps) (auto simp: assms(3) Let_def prefix_single_drop simp del: drop_append)
qed

lemma first_match_pos:
  assumes "0 < p \<or> \<not> prefix n h" and "strstr (drop p h) n = Some k"
  shows "p + k \<noteq> 0"
  using assms strstr_drop [OF assms(2)] by (cases "p + k = 0") auto

lemma search_settled:
  assumes "settled c n L p" and "n \<noteq> []" and "p \<le> length L" and "0 < p \<or> \<not> prefix n L"
  shows "str_append_search L n [c] p = Some False"
  using assms
proof (induction "length L - p" arbitrary: p rule: less_induct)
  case less
  show ?case
  proof (cases "strstr (drop p L) n")
    case None
    then show ?thesis by (subst str_append_search.simps) simp
  next
    case (Some k)
    from strstr_Some_length [OF this] less.prems(3) have le: "p + k + length n \<le> length L" by simp
    from search_skip [of c n L p "[]" k] less.prems Some le first_match_pos [OF less.prems(4) Some]
    have "str_append_search L n [c] p = str_append_search L n [c] (p + k + length n)" by simp
    also have "\<dots> = Some False"
      using less.prems le by (intro less.hyps) (auto intro: settled_mono simp: less_needle)
    finally show ?thesis .
  qed
qed

lemma search_accept:
  assumes "settled c n L p" and "n \<noteq> []" and "c \<notin> set n" and "p \<le> length L" and "r = [] \<or> hd r = c"
    and "0 < p \<or> \<not> prefix n (L @ c # n @ r)"
  shows "str_append_search (L @ c # n @ r) n [c] p = Some True"
  using assms
proof (induction "length L - p" arbitrary: p rule: less_induct)
  case less
  let ?h = "L @ c # n @ r"
  let ?i = "Suc (length L)"
  have here: "prefix n (drop ?i ?h)" by simp
  then have "strstr (drop p ?h) n \<noteq> None"
    using strstr_None [of "drop p ?h" n "?i - p"] less.prems(4) by (auto simp: Suc_diff_le)
  then obtain k where k: "strstr (drop p ?h) n = Some k" by blast
  from strstr_drop [OF k] have pk: "prefix n (drop (p + k) ?h)" .
  have "p + k \<le> ?i"
  proof (rule ccontr)
    assume "\<not> ?thesis"
    then have "?i - p < k" using less.prems(4) by linarith
    from strstr_Some_least [OF k this] here less.prems(4) show False by (simp add: Suc_diff_le)
  qed
  moreover from occurrence_no_cross [OF less.prems(3) pk]
  have "p + k + length n \<le> length L \<or> length L < p + k" by simp
  ultimately consider "p + k + length n \<le> length L" | "p + k = ?i" by linarith
  then show ?case
  proof cases
    case 1
    from search_skip [of c n L p "c # n @ r" k] less.prems k 1 first_match_pos [OF less.prems(6) k]
    have "str_append_search ?h n [c] p = str_append_search ?h n [c] (p + k + length n)" by simp
    also have "\<dots> = Some True"
      using less.prems 1 by (intro less.hyps) (auto intro: settled_mono simp: less_needle)
    finally show ?thesis .
  next
    case 2
    have "r \<noteq> [] \<longrightarrow> prefix [c] r"
      using less.prems(5) by (cases r) auto
    moreover have "drop (Suc (length L + length n)) ?h = r" by simp
    ultimately show ?thesis using 2
      by (subst str_append_search.simps) (auto simp: k Let_def prefix_single_drop nth_append simp del: drop_append)
  qed
qed

lemma search_words:
  assumes "settled c n L p" and "n \<noteq> []" and "c \<notin> set n" and "p \<le> length L" and "words_free c ws"
    and "0 < p \<or> \<not> prefix n (L @ concat (map ((#) c) ws))"
  shows "str_append_search (L @ concat (map ((#) c) ws)) n [c] p = Some (n \<in> set ws)"
  using assms
proof (induction ws arbitrary: L p)
  case Nil
  then show ?case by (simp add: search_settled)
next
  case (Cons w ws)
  show ?case
  proof (cases "w = n")
    case True
    with search_accept [of c n L p "concat (map ((#) c) ws)"] Cons.prems hd_concat_Cons [of c ws]
    show ?thesis by simp
  next
    case False
    with Cons.prems have "settled c n (L @ c # w) p"
      by (intro settled_extend) (auto simp: words_free_def)
    with Cons.IH [of "L @ c # w" p] Cons.prems False show ?thesis by (auto simp: words_free_def)
  qed
qed

lemma join_snoc: "join c (w # ws @ [n]) = join c (w # ws) @ c # n"
  by simp

lemma prefix_first_word:
  "c \<notin> set n \<Longrightarrow> prefix n (w @ concat (map ((#) c) ws)) \<longleftrightarrow> prefix n w"
proof (cases ws)
  case (Cons v vs)
  assume "c \<notin> set n"
  with Cons occurrence_no_cross [of c n 0 w "v @ concat (map ((#) c) vs)"] show ?thesis
    using prefix_drop_append_inside [of 0 n w "c # v @ concat (map ((#) c) vs)"]
    by (auto simp: prefix_prefix)
qed simp

lemma str_append_if_missing_words:
  assumes "n \<noteq> []" and "c \<notin> set n" and "words_free c (w # ws)"
  shows "str_append_substring_if_missing (join c (w # ws)) n [c] =
         (if prefix n w then None
          else Some (join c (w # ws @ (if n \<in> set ws then [] else [n]))))"
proof (cases "prefix n w")
  case True
  then have "strstr (w @ concat (map ((#) c) ws)) n = Some 0"
    by (subst strstr.simps) (simp add: prefix_prefix)
  then show ?thesis using True unfolding str_append_substring_if_missing_def
    by (subst str_append_search.simps) (simp add: Let_def)
next
  case False
  with assms have "str_append_search (join c (w # ws)) n [c] 0 = Some (n \<in> set ws)"
    using prefix_first_word [of c n w ws]
    by (simp add: search_words settled_word words_free_def)
  with False show ?thesis
    by (auto simp: str_append_substring_if_missing_def str_cat_def)
qed

subsection \<open>Reverse search\<close>

lemma strrstr_loop_Some:
  "strrstr_loop h n i = Some j \<longleftrightarrow>
     j \<le> i \<and> prefix n (drop j h) \<and> (\<forall>k. j < k \<and> k \<le> i \<longrightarrow> \<not> prefix n (drop k h))"
proof (induction i arbitrary: j)
  case 0
  then show ?case by (subst strrstr_loop.simps) auto
next
  case (Suc i)
  show ?case
  proof (cases "prefix n (drop (Suc i) h)")
    case True
    then have "strrstr_loop h n (Suc i) = Some j \<longleftrightarrow> j = Suc i"
      by (subst strrstr_loop.simps) auto
    with True show ?thesis by (auto simp: le_Suc_eq)
  next
    case False
    then have "strrstr_loop h n (Suc i) = strrstr_loop h n i"
      by (subst strrstr_loop.simps) simp
    with Suc False show ?thesis by (auto simp: le_Suc_eq)
  qed
qed

lemma prefix_drop_bound: "n \<noteq> [] \<Longrightarrow> prefix n (drop j h) \<Longrightarrow> j + length n \<le> length h"
  using prefix_length_le [of n "drop j h"] by (cases "j \<le> length h") auto

lemma strrstr_last_occurrence:
  assumes "n \<noteq> []"
  shows "strrstr h n = Some i \<longleftrightarrow>
     prefix n (drop i h) \<and> (\<forall>j>i. \<not> prefix n (drop j h))"
proof (cases "length h < length n")
  case True
  with assms have "\<not> prefix n (drop i h)" using prefix_drop_bound [of n i h] by auto
  with True assms show ?thesis by (auto simp: strrstr_def)
next
  case False
  with assms have "strrstr h n = strrstr_loop h n (length h - length n)"
    by (auto simp: strrstr_def)
  moreover have "j \<le> length h - length n" if "prefix n (drop j h)" for j
    using prefix_drop_bound [OF assms that] by simp
  ultimately show ?thesis by (auto simp: strrstr_loop_Some)
qed

lemma strrstr_None_iff: "n \<noteq> [] \<Longrightarrow> strrstr h n = None \<longleftrightarrow> (\<forall>i. \<not> prefix n (drop i h))"
proof
  assume n: "n \<noteq> []" and none: "strrstr h n = None"
  show "\<forall>i. \<not> prefix n (drop i h)"
  proof (rule ccontr)
    assume "\<not> ?thesis"
    then have ne: "{i. prefix n (drop i h)} \<noteq> {}" by auto
    have "{i. prefix n (drop i h)} \<subseteq> {..length h}"
      using prefix_drop_bound [OF n] by fastforce
    then have fin: "finite {i. prefix n (drop i h)}" by (rule finite_subset) simp
    let ?m = "Max {i. prefix n (drop i h)}"
    from Max_in [OF fin ne] have "prefix n (drop ?m h)" by simp
    moreover have "\<forall>j>?m. \<not> prefix n (drop j h)" using Max_ge [OF fin] by fastforce
    ultimately have "strrstr h n = Some ?m" using strrstr_last_occurrence [OF n] by blast
    with none show False by simp
  qed
next
  assume "n \<noteq> []" and "\<forall>i. \<not> prefix n (drop i h)"
  then show "strrstr h n = None"
    using strrstr_last_occurrence [of n h] by (cases "strrstr h n") auto
qed

subsection \<open>Word search\<close>

lemma strcasestr_loop_suffix:
  assumes "n \<noteq> []" and "i + length n \<le> Suc (length h)"
  shows "strcasestr_loop h n i =
     Some (if i + length n \<le> length h \<and> strcaseeq (drop (length h - length n) h) n
           then Some (length h - length n) else None)"
  using assms
proof (induction h n i rule: strcasestr_loop.induct)
  case (1 h n i)
  from "1.prems" have i: "i \<le> length h" by (cases n) auto
  consider "length h < i + length n" | "i + length n = length h" | "i + length n < length h"
    by linarith
  then show ?case
  proof cases
    case 1
    with i show ?thesis by (subst strcasestr_loop.simps) auto
  next
    case 2
    then have "length h - length n = i" "\<not> Suc i + length n \<le> length h" by auto
    with 2 "1.prems" "1.IH" i show ?thesis by (subst strcasestr_loop.simps) auto
  next
    case 3
    then have "\<not> strcaseeq (drop i h) n" using strcaseeq_length [of "drop i h" n] by auto
    with 3 "1.prems" "1.IH" i show ?thesis by (subst strcasestr_loop.simps) auto
  qed
qed

lemma strcasestr_only_suffix:
  assumes "needle \<noteq> []"
  shows "strcasestr haystack needle =
     Some (if length needle \<le> length haystack \<and>
              strcaseeq (drop (length haystack - length needle) haystack) needle
           then Some (length haystack - length needle) else None)"
  using assms strcasestr_loop_suffix [of needle 0 haystack]
  by (cases "length needle \<le> Suc (length haystack)")
    (auto simp: strcasestr_def, subst strcasestr_loop.simps, auto)

lemma strcaseword_never_finds:
  assumes "needle \<noteq> []" and "c_isupper (hd needle) \<or> c_islower (hd needle)"
  shows "strcaseword haystack needle = Some None"
proof (cases "strcasestr haystack needle")
  case None
  then show ?thesis using strcasestr_only_suffix [OF assms(1)] by simp
next
  case (Some r)
  show ?thesis
  proof (cases r)
    case None
    with Some show ?thesis by (simp add: strcaseword_def strcasedelimword_def)
  next
    case (Some i)
    let ?x = "char_at haystack i"
    from Some \<open>strcasestr haystack needle = Some r\<close> strcasestr_only_suffix [OF assms(1), of haystack]
    have i: "strcaseeq (drop i haystack) needle" "i < length haystack"
      using assms(1) by (cases needle; auto split: if_splits)+
    then have "c_tolower ?x = c_tolower (hd needle)"
      using assms(1) by (cases needle) (auto simp: strcaseeq_def char_at_def Cons_nth_drop_Suc [symmetric])
    with assms(2) have "c_islower (c_tolower ?x)"
      by (auto simp: c_tolower_def c_isupper_def c_islower_def)
    then have "?x \<noteq> LF" "?x \<noteq> SP" "?x \<noteq> NUL"
      by (auto simp: c_tolower_def c_islower_def c_isupper_def ascii_def)
    with Some \<open>strcasestr haystack needle = Some r\<close> show ?thesis
      by (simp add: strcaseword_def strcasedelimword_def in_delim_def)
  qed
qed

subsection \<open>Replacement of a two character sequence\<close>

fun rep2 :: "char \<Rightarrow> char \<Rightarrow> string \<Rightarrow> string" where
  "rep2 x y (a # b # r) = (if a = x \<and> b = y then y # rep2 x y r else a # rep2 x y (b # r))"
| "rep2 x y r = r"

lemma rep2_none: "strstr r [x, y] = None \<Longrightarrow> rep2 x y r = r"
proof (induction x y r rule: rep2.induct)
  case (1 x y a b r)
  from "1.prems" strstr_None [of "a # b # r" "[x, y]" 0] have ne: "\<not> (a = x \<and> b = y)" by auto
  moreover from "1.prems" have "strstr (b # r) [x, y] = None"
    by (subst (asm) strstr.simps) (auto split: if_splits)
  ultimately show ?case using "1.IH" by auto
qed auto

lemma rep2_some:
  "strstr r [x, y] = Some k \<Longrightarrow> rep2 x y r = take k r @ y # rep2 x y (drop (k + 2) r)"
proof (induction x y r arbitrary: k rule: rep2.induct)
  case (1 x y a b r)
  show ?case
  proof (cases "a = x \<and> b = y")
    case True
    with "1.prems" have "k = 0" by (subst (asm) strstr.simps) auto
    with True show ?thesis by simp
  next
    case False
    with "1.prems" obtain j where "strstr (b # r) [x, y] = Some j" "k = Suc j"
      by (subst (asm) strstr.simps) (auto split: if_splits)
    with False "1.IH" show ?thesis by auto
  qed
qed (auto dest: strstr_Some_length)

lemma str_replace_loop_rep2:
  "str_replace_loop (pre @ r) (length pre) [x, y] [y] = Some (pre @ rep2 x y r)"
proof (induction "length r" arbitrary: pre r rule: less_induct)
  case less
  show ?case
  proof (cases "strstr r [x, y]")
    case None
    then show ?thesis by (subst str_replace_loop.simps) (simp add: rep2_none)
  next
    case (Some k)
    from strstr_Some_length [OF this] have k: "k + 2 \<le> length r" by simp
    let ?pre = "pre @ take k r @ [y]"
    from k less.hyps [of "drop (k + 2) r" ?pre]
    have "str_replace_loop (?pre @ drop (k + 2) r) (length ?pre) [x, y] [y] =
        Some (?pre @ rep2 x y (drop (k + 2) r))" by auto
    moreover from Some k have "str_replace_loop (pre @ r) (length pre) [x, y] [y] =
        str_replace_loop (?pre @ drop (k + 2) r) (length ?pre) [x, y] [y]"
      by (subst str_replace_loop.simps) (simp add: min_absorb2 add.commute)
    ultimately show ?thesis using rep2_some [OF Some] by simp
  qed
qed

lemma str_replace_two:
  "str_replace s [[x, y], [y], [u, v], [v]] = Some (Some (rep2 u v (rep2 x y s)))"
  using str_replace_loop_rep2 [of "[]" s x y] str_replace_loop_rep2 [of "[]" "rep2 x y s" u v]
  by (simp add: str_replace_def)

text \<open>The quoting of an IMAP quoted string: a backslash before each double quote and backslash.\<close>

fun quote_chars :: "string \<Rightarrow> string" where
  "quote_chars [] = []"
| "quote_chars (c # s) = (if c = DQ \<or> c = BS then BS # c # quote_chars s else c # quote_chars s)"

fun double_bs :: "string \<Rightarrow> string" where
  "double_bs [] = []"
| "double_bs (c # s) = (if c = BS then BS # BS # double_bs s else c # double_bs s)"

lemma rep2_skip: "a \<noteq> x \<or> r = [] \<or> hd r \<noteq> y \<Longrightarrow> rep2 x y (a # r) = a # rep2 x y r"
  by (cases r) auto

lemma hd_quote_chars: "quote_chars s = [] \<or> hd (quote_chars s) \<noteq> DQ"
  by (cases s) auto

lemma rep2_quote_chars: "rep2 BS DQ (quote_chars s) = double_bs s"
proof (induction s)
  case (Cons c s)
  then show ?case using hd_quote_chars [of s] by (auto simp: rep2_skip)
qed simp

lemma rep2_double_bs: "rep2 BS BS (double_bs s) = s"
  by (induction s) (auto simp: rep2_skip)

lemma str_replace_unquotes:
  "str_replace (quote_chars s) [[BS, DQ], [DQ], [BS, BS], [BS]] = Some (Some s)"
  by (simp add: str_replace_two rep2_quote_chars rep2_double_bs)

subsection \<open>Case conversion and checksum\<close>

lemma str_tolower_map: "str_tolower s = map c_tolower s"
  unfolding str_tolower_def by (induction s) auto

lemma str_toupper_map: "str_toupper s = map c_toupper s"
  unfolding str_toupper_def by (induction s) auto

lemma rolling32_loop_sum:
  "n \<le> length buf \<Longrightarrow>
   str_rolling32_loop buf n c = Some (c + word_of_nat (sum_list (map ascii (take n buf))))"
  by (induction buf n c rule: str_rolling32_loop.induct) (auto simp: add.assoc)

lemma str_rolling32_skips_last:
  "str_rolling32 buf (length buf) =
     (if buf = [] then None else Some (word_of_nat (sum_list (map ascii (butlast buf)))))"
  by (simp add: str_rolling32_def rolling32_loop_sum butlast_conv_take)


end
