(* ===== verification/Io.thy ===== *)
theory Io
  imports Prelude
begin

text \<open>
  The I/O abstraction of \<^verbatim>\<open>perdition/io.c\<close>: an \<open>io_t\<close> over a pair of file descriptors or an
  SSL object, with its error status and idle timeout.

  The environment is explicit. \<open>io_rd\<close> is the list of events the select and read calls of this
  \<open>io_t\<close> will see, \<open>io_wr\<close> the results its write calls will return (all bytes are accepted once
  the list is used up) and \<open>io_out\<close> the bytes the peer has been sent. A read event list that is
  used up behaves as end of file. Theorems quantify over the event lists, so they cover every
  behaviour of the peer and of the kernel, in every division of the input into packets.
\<close>

datatype io_type = Io_type_fd | Io_type_ssl | Io_type_none

datatype io_err = Io_err_none | Io_err_other | Io_err_timeout

datatype rd_event =
    Sel_intr              \<comment> \<open>select fails with EINTR\<close>
  | Sel_err               \<comment> \<open>select fails otherwise\<close>
  | Sel_except            \<comment> \<open>an exceptional condition on the descriptor\<close>
  | Sel_timeout           \<comment> \<open>select times out\<close>
  | Rd_data string        \<comment> \<open>ready, and these bytes are there; none for end of file\<close>
  | Rd_intr               \<comment> \<open>ready, but read fails with EINTR\<close>
  | Rd_err                \<comment> \<open>ready, but read fails otherwise\<close>
  | Rd_want               \<comment> \<open>ready, but SSL_read wants to read or write\<close>

record io =
  io_type :: io_type
  io_rfd :: int
  io_wfd :: int
  io_name :: "string option"
  io_err :: io_err
  io_timeout :: int
  io_rd :: "rd_event list"
  io_wr :: "nat option list"
  io_out :: string

subsection \<open>Creation and access\<close>

definition io_create :: "io_type \<Rightarrow> int \<Rightarrow> int \<Rightarrow> string option \<Rightarrow> rd_event list \<Rightarrow> nat option list \<Rightarrow> io" where
  "io_create ty rfd wfd name rd wr =
     \<lparr>io_type = ty, io_rfd = rfd, io_wfd = wfd, io_name = name, io_err = Io_err_none,
      io_timeout = 0, io_rd = rd, io_wr = wr, io_out = []\<rparr>"

definition io_create_fd :: "int \<Rightarrow> int \<Rightarrow> string option \<Rightarrow> rd_event list \<Rightarrow> nat option list \<Rightarrow> io" where
  "io_create_fd rfd wfd name rd wr = io_create Io_type_fd rfd wfd name rd wr"

definition io_create_ssl :: "int \<Rightarrow> int \<Rightarrow> string option \<Rightarrow> rd_event list \<Rightarrow> nat option list \<Rightarrow> io" where
  "io_create_ssl rfd wfd name rd wr = io_create Io_type_ssl rfd wfd name rd wr"

definition io_set_timeout :: "io \<Rightarrow> int \<Rightarrow> io" where
  "io_set_timeout i t = i\<lparr>io_timeout := t\<rparr>"

definition io_get_rfd :: "io \<Rightarrow> int \<times> io" where
  "io_get_rfd i =
     (case io_type i of
        Io_type_fd \<Rightarrow> (io_rfd i, i)
      | Io_type_ssl \<Rightarrow> (io_rfd i, i)
      | Io_type_none \<Rightarrow> (-1, i\<lparr>io_err := Io_err_other\<rparr>))"

definition io_get_wfd :: "io \<Rightarrow> int \<times> io" where
  "io_get_wfd i =
     (case io_type i of
        Io_type_fd \<Rightarrow> (io_wfd i, i)
      | Io_type_ssl \<Rightarrow> (io_wfd i, i)
      | Io_type_none \<Rightarrow> (-1, i\<lparr>io_err := Io_err_other\<rparr>))"

text \<open>\<open>close1\<close> and \<open>close2\<close> are the results of the two calls of \<open>close\<close>.\<close>

definition io_close :: "int \<Rightarrow> int \<Rightarrow> io \<Rightarrow> int \<times> io" where
  "io_close close1 close2 i =
     (case io_type i of
        Io_type_fd \<Rightarrow>
          if close1 \<noteq> 0 then (-1, i\<lparr>io_err := Io_err_other\<rparr>)
          else if io_rfd i \<noteq> io_wfd i \<and> close2 \<noteq> 0 then (-1, i\<lparr>io_err := Io_err_other\<rparr>)
          else (0, i)
      | Io_type_ssl \<Rightarrow> (0, i)
      | Io_type_none \<Rightarrow> (-1, i\<lparr>io_err := Io_err_other\<rparr>))"

subsection \<open>Writing\<close>

definition io_write :: "io \<Rightarrow> string \<Rightarrow> int \<times> io" where
  "io_write i buf =
     (let res = (case io_wr i of [] \<Rightarrow> Some (length buf) | r # _ \<Rightarrow> map_option (min (length buf)) r);
          i' = i\<lparr>io_wr := drop 1 (io_wr i)\<rparr>
      in case io_type i of
           Io_type_none \<Rightarrow> (-1, i\<lparr>io_err := Io_err_other\<rparr>)
         | Io_type_fd \<Rightarrow>
             (case res of
                None \<Rightarrow> (-1, i'\<lparr>io_err := Io_err_other\<rparr>)
              | Some k \<Rightarrow> (int k, i'\<lparr>io_out := io_out i @ take k buf\<rparr>))
         | Io_type_ssl \<Rightarrow>
             (case res of
                None \<Rightarrow> (-1, i')
              | Some k \<Rightarrow> (int k, i'\<lparr>io_out := io_out i @ take k buf\<rparr>)))"

subsection \<open>Reading\<close>

text \<open>
  The loop of \<open>io_read\<close>: one event per round, EINTR is ignored. The result is \<open>None\<close> for -1 and
  \<open>Some\<close> of the bytes placed in the buffer otherwise, with the error status to record and the
  remaining events; bytes beyond \<open>count\<close> stay readable.
\<close>

fun io_read_loop :: "io_type \<Rightarrow> int \<Rightarrow> nat \<Rightarrow> rd_event list \<Rightarrow> string option \<times> io_err \<times> rd_event list" where
  "io_read_loop ty tmo count [] = (Some [], Io_err_none, [])"
| "io_read_loop ty tmo count (Sel_intr # es) = io_read_loop ty tmo count es"
| "io_read_loop ty tmo count (Sel_err # es) = (None, Io_err_other, es)"
| "io_read_loop ty tmo count (Sel_except # es) = (None, Io_err_other, es)"
| "io_read_loop ty tmo count (Sel_timeout # es) =
     (if tmo = 0 then io_read_loop ty tmo count es else (None, Io_err_timeout, es))"
| "io_read_loop ty tmo count (Rd_data s # es) =
     (Some (take count s), Io_err_none,
      if length s \<le> count then es else Rd_data (drop count s) # es)"
| "io_read_loop ty tmo count (Rd_intr # es) = io_read_loop ty tmo count es"
| "io_read_loop ty tmo count (Rd_err # es) = (None, Io_err_other, es)"
| "io_read_loop ty tmo count (Rd_want # es) =
     (if ty = Io_type_ssl then (Some [], Io_err_none, es) else (None, Io_err_other, es))"

definition io_read :: "io \<Rightarrow> nat \<Rightarrow> string option \<times> io" where
  "io_read i count =
     (if io_type i = Io_type_none then (None, i\<lparr>io_err := Io_err_other\<rparr>)
      else case io_read_loop (io_type i) (io_timeout i) count (io_rd i) of
             (r, e, es) \<Rightarrow> (r, i\<lparr>io_err := e, io_rd := es\<rparr>))"

subsection \<open>The byte stream and its size\<close>

text \<open>The bytes an \<open>io_t\<close> will deliver before it first fails or reports end of file.\<close>

fun rd_stream :: "io_type \<Rightarrow> int \<Rightarrow> rd_event list \<Rightarrow> string" where
  "rd_stream ty tmo [] = []"
| "rd_stream ty tmo (Sel_intr # es) = rd_stream ty tmo es"
| "rd_stream ty tmo (Rd_intr # es) = rd_stream ty tmo es"
| "rd_stream ty tmo (Sel_timeout # es) = (if tmo = 0 then rd_stream ty tmo es else [])"
| "rd_stream ty tmo (Rd_data s # es) = (if s = [] then [] else s @ rd_stream ty tmo es)"
| "rd_stream ty tmo (_ # es) = []"

definition io_stream :: "io \<Rightarrow> string" where
  "io_stream i =
     (if io_type i = Io_type_none then [] else rd_stream (io_type i) (io_timeout i) (io_rd i))"

text \<open>An upper bound of the bytes left to read: it decreases with every byte read.\<close>

fun rd_size :: "rd_event list \<Rightarrow> nat" where
  "rd_size [] = 0"
| "rd_size (Rd_data s # es) = length s + rd_size es"
| "rd_size (_ # es) = rd_size es"

lemma io_read_loop_stream:
  assumes "0 < count"
  shows "io_read_loop ty tmo count es = (r, e, es') \<Longrightarrow>
     rd_stream ty tmo es =
       (case r of None \<Rightarrow> [] | Some d \<Rightarrow> if d = [] then [] else d @ rd_stream ty tmo es')"
  using assms
  by (induction ty tmo count es arbitrary: r rule: io_read_loop.induct) (auto split: if_splits)

lemma io_read_loop_size:
  "io_read_loop ty tmo count es = (r, e, es') \<Longrightarrow>
     rd_size es' + (case r of None \<Rightarrow> 0 | Some d \<Rightarrow> length d) \<le> rd_size es"
proof (induction ty tmo count es arbitrary: r rule: io_read_loop.induct)
  case (6 ty tmo count s es)
  then show ?case by (cases "length s \<le> count") auto
qed (auto split: if_splits)

lemma io_read_loop_count:
  "io_read_loop ty tmo count es = (Some d, e, es') \<Longrightarrow> length d \<le> count"
  by (induction ty tmo count es rule: io_read_loop.induct) (auto split: if_splits)

lemma io_read_frame:
  "io_read i count = (r, i') \<Longrightarrow>
     io_type i' = io_type i \<and> io_timeout i' = io_timeout i \<and> io_out i' = io_out i \<and> io_wr i' = io_wr i"
  by (auto simp: io_read_def split: if_splits prod.splits)

lemma io_read_stream:
  "io_read i count = (r, i') \<Longrightarrow> 0 < count \<Longrightarrow>
     io_stream i = (case r of None \<Rightarrow> [] | Some d \<Rightarrow> if d = [] then [] else d @ io_stream i')"
  by (auto simp: io_read_def io_stream_def split: if_splits prod.splits option.splits
      dest: io_read_loop_stream)

lemma io_read_size:
  "io_read i count = (r, i') \<Longrightarrow>
     rd_size (io_rd i') + (case r of None \<Rightarrow> 0 | Some d \<Rightarrow> length d) \<le> rd_size (io_rd i)"
  by (auto simp: io_read_def split: if_splits prod.splits dest: io_read_loop_size)

lemma io_read_count: "io_read i count = (Some d, i') \<Longrightarrow> length d \<le> count"
  by (auto simp: io_read_def split: if_splits prod.splits dest: io_read_loop_count)

lemma io_write_frame:
  "io_write i buf = (r, i') \<Longrightarrow>
     io_type i' = io_type i \<and> io_timeout i' = io_timeout i \<and> io_rd i' = io_rd i"
  by (auto simp: io_write_def Let_def split: io_type.splits option.splits)

text \<open>A write that reports all bytes has sent exactly the buffer; a failed one sent a prefix.\<close>

lemma io_write_out:
  "io_write i buf = (r, i') \<Longrightarrow>
     \<exists>k \<le> length buf. io_out i' = io_out i @ take k buf \<and> (r = int (length buf) \<longrightarrow> k = length buf)"
  by (auto simp: io_write_def Let_def split: io_type.splits option.splits list.splits)
    (metis le_refl min.cobounded1 take_all_iff append.right_neutral take0 zero_le)+

end
