(* ===== verification/Token.thy ===== *)
theory Token
  imports Str Io
begin

text \<open>
  Tokens and the tokeniser of \<^verbatim>\<open>perdition/token.c\<close>. All connections share one static read buffer,
  so the state of the program, \<open>world\<close>, holds that buffer beside the two connections.
  The main result is that \<open>token_read\<close> depends on the byte stream of the connection only, never on
  how the peer or the kernel split it: it refines the scanner \<open>tscan\<close> on lists of characters.
\<close>

definition MAX_LINE_LENGTH :: nat where "MAX_LINE_LENGTH = 4096"

definition NULL_FLAG :: flag_t where "NULL_FLAG = 0"
definition TOKEN_NONE :: flag_t where "TOKEN_NONE = 0x00"
definition TOKEN_EOL :: flag_t where "TOKEN_EOL = 0x01"
definition TOKEN_DONT_CARE :: flag_t where "TOKEN_DONT_CARE = 0x03"
definition TOKEN_POP3 :: flag_t where "TOKEN_POP3 = 0x02"
definition TOKEN_ACAP_ATOM :: flag_t where "TOKEN_ACAP_ATOM = TOKEN_POP3"
definition TOKEN_IMAP4 :: flag_t where "TOKEN_IMAP4 = 0x04"
definition TOKEN_MANAGESIEVE :: flag_t where "TOKEN_MANAGESIEVE = TOKEN_IMAP4"
definition TOKEN_IMAP4_LITERAL :: flag_t where "TOKEN_IMAP4_LITERAL = 0x08"
definition TOKEN_ACAP_LITERAL :: flag_t where "TOKEN_ACAP_LITERAL = TOKEN_IMAP4_LITERAL"
definition TOKEN_NO_STRIP :: char where "TOKEN_NO_STRIP = NUL"

lemmas token_flag_defs = NULL_FLAG_def TOKEN_NONE_def TOKEN_EOL_def TOKEN_DONT_CARE_def TOKEN_POP3_def
  TOKEN_ACAP_ATOM_def TOKEN_IMAP4_def TOKEN_MANAGESIEVE_def TOKEN_IMAP4_LITERAL_def
  TOKEN_ACAP_LITERAL_def TOKEN_NO_STRIP_def

subsection \<open>Tokens\<close>

text \<open>\<open>buf\<close> is NULL (\<open>None\<close>) or the \<open>n\<close> bytes of the token.\<close>

record token =
  tok_n :: nat
  tok_buf :: "string option"
  tok_flag :: flag_t

text \<open>The flag of a fresh token is indeterminate in the C code; the model has 0 there.\<close>

definition token_create :: token where
  "token_create = \<lparr>tok_n = 0, tok_buf = None, tok_flag = 0\<rparr>"

definition token_assign :: "token \<Rightarrow> string option \<Rightarrow> nat \<Rightarrow> flag_t \<Rightarrow> token" where
  "token_assign t buf n flag =
     t\<lparr>tok_n := n, tok_flag := flag, tok_buf := (if n = 0 then None else buf)\<rparr>"

definition token_unassign :: "token \<Rightarrow> token" where
  "token_unassign t = token_assign t None 0 0"

definition token_is_eol :: "token \<Rightarrow> bool" where
  "token_is_eol t \<longleftrightarrow> tok_flag t AND TOKEN_EOL \<noteq> 0"

definition token_is_null :: "token \<Rightarrow> bool" where
  "token_is_null t \<longleftrightarrow> tok_n t = 0"

definition token_str :: "token \<Rightarrow> string" where
  "token_str t = (case tok_buf t of None \<Rightarrow> [] | Some b \<Rightarrow> b)"

text \<open>The representation invariant: the length field is the size of the buffer.\<close>

definition wf_token :: "token \<Rightarrow> bool" where
  "wf_token t \<longleftrightarrow> tok_n t = length (token_str t) \<and> (tok_n t = 0 \<longleftrightarrow> tok_buf t = None)"

definition mk_token :: "string \<Rightarrow> flag_t \<Rightarrow> token" where
  "mk_token s flag = token_assign token_create (Some s) (length s) flag"

lemma mk_token_sel [simp]:
  "tok_n (mk_token s f) = length s" "tok_flag (mk_token s f) = f" "token_str (mk_token s f) = s"
  "tok_buf (mk_token s f) = (if s = [] then None else Some s)"
  by (auto simp: mk_token_def token_assign_def token_str_def)

lemma wf_mk_token [simp]: "wf_token (mk_token s f)"
  by (auto simp: wf_token_def)

lemma wf_token_assign: "length b = n \<Longrightarrow> wf_token (token_assign t (Some b) n f)"
  by (auto simp: wf_token_def token_assign_def token_str_def)

lemma wf_token_create [simp]: "wf_token token_create"
  by (auto simp: wf_token_def token_create_def token_str_def)

lemma wf_token_unassign [simp]: "wf_token (token_unassign t)"
  by (auto simp: wf_token_def token_unassign_def token_assign_def token_str_def)

subsection \<open>Comparison and conversion to strings\<close>

definition token_cmp :: "token \<Rightarrow> token \<Rightarrow> bool" where
  "token_cmp a b =
     (if tok_n a \<noteq> tok_n b \<or>
         (tok_flag a \<noteq> tok_flag b \<and> tok_flag a \<noteq> TOKEN_DONT_CARE \<and> tok_flag b \<noteq> TOKEN_DONT_CARE)
      then False
      else strncaseeq (token_str a) (token_str b) (tok_n a))"

definition token_casecmp_string :: "token \<Rightarrow> string \<Rightarrow> bool" where
  "token_casecmp_string t str \<longleftrightarrow>
     tok_n t = length str \<and> strncaseeq (token_str t) str (tok_n t)"

text \<open>
  Stripping subtracts 2 from the \<open>size_t\<close> length. For a buffer of one byte, which is its own first
  and last byte, the length wraps and \<open>strn_to_str\<close> runs over the end of the buffer: \<open>None\<close>.
\<close>

definition token_to_string :: "token \<Rightarrow> char \<Rightarrow> string option" where
  "token_to_string t strip =
     (case tok_buf t of
        None \<Rightarrow> Some []
      | Some buf \<Rightarrow>
          if strip \<noteq> TOKEN_NO_STRIP \<and> hd buf = strip \<and> last buf = strip
          then (if tok_n t < 2 then None else Some (strn_to_str (drop 1 buf) (tok_n t - 2)))
          else Some (strn_to_str buf (tok_n t)))"

subsection \<open>The read buffer\<close>

datatype ioid = EU | RS  \<comment> \<open>the end user and the real server\<close>

text \<open>
  \<open>tbuf\<close>, \<open>toff\<close> and \<open>tbytes\<close> are \<open>token_read_buffer\<close>, \<open>token_read_offset\<close> and
  \<open>token_read_bytes\<close>. Of the buffer only the bytes of the last fill are kept: those behind
  \<open>tbytes\<close> are never read.
\<close>

record world =
  tbuf :: string
  toff :: nat
  tbytes :: nat
  ios :: "ioid \<Rightarrow> io"

definition token_flush :: "world \<Rightarrow> world" where
  "token_flush w = w\<lparr>toff := 0, tbytes := 0, tbuf := []\<rparr>"

definition upd_io :: "ioid \<Rightarrow> io \<Rightarrow> world \<Rightarrow> world" where
  "upd_io i x w = w\<lparr>ios := (ios w)(i := x)\<rparr>"

text \<open>For evaluation: both connections as values.\<close>

fun two_ios :: "io \<Rightarrow> io \<Rightarrow> ioid \<Rightarrow> io" where
  "two_ios x y EU = x"
| "two_ios x y RS = y"

lemma upd_io_code [code]:
  "upd_io EU x w = w\<lparr>ios := two_ios x (ios w RS)\<rparr>"
  "upd_io RS x w = w\<lparr>ios := two_ios (ios w EU) x\<rparr>"
proof -
  have "two_ios x (ios w RS) j = ((ios w)(EU := x)) j" "two_ios (ios w EU) x j = ((ios w)(RS := x)) j" for j
    by (cases j; simp)+
  then show "upd_io EU x w = w\<lparr>ios := two_ios x (ios w RS)\<rparr>" "upd_io RS x w = w\<lparr>ios := two_ios (ios w EU) x\<rparr>"
    by (simp_all add: upd_io_def fun_eq_iff)
qed

definition token_fill_buffer_new :: "ioid \<Rightarrow> world \<Rightarrow> int \<times> world" where
  "token_fill_buffer_new i w =
     (case io_read (ios w i) (MAX_LINE_LENGTH - 1) of
        (None, x) \<Rightarrow> (-1, upd_io i x w)
      | (Some d, x) \<Rightarrow>
          (int (length d), (upd_io i x w)\<lparr>tbuf := d, toff := 0, tbytes := length d\<rparr>))"

definition token_fill_buffer :: "ioid \<Rightarrow> world \<Rightarrow> int \<times> world" where
  "token_fill_buffer i w =
     (if tbytes w > toff w then (int (tbytes w), w) else token_fill_buffer_new i w)"

text \<open>The buffer invariant, and the bytes left for a reader of connection \<open>i\<close>.\<close>

definition wf_buffer :: "world \<Rightarrow> bool" where
  "wf_buffer w \<longleftrightarrow> tbytes w = length (tbuf w)"

definition pending :: "ioid \<Rightarrow> world \<Rightarrow> nat" where
  "pending i w = (tbytes w - toff w) + rd_size (io_rd (ios w i))"

definition avail :: "ioid \<Rightarrow> world \<Rightarrow> string" where
  "avail i w = drop (toff w) (tbuf w) @ io_stream (ios w i)"

lemma MAX_LINE_pos: "0 < MAX_LINE_LENGTH" "0 < MAX_LINE_LENGTH - 1"
  by (simp_all add: MAX_LINE_LENGTH_def)

lemma upd_io_sel [simp]:
  "tbuf (upd_io i x w) = tbuf w" "toff (upd_io i x w) = toff w" "tbytes (upd_io i x w) = tbytes w"
  "ios (upd_io i x w) = (ios w)(i := x)"
  by (simp_all add: upd_io_def)

lemma fill_pending:
  "token_fill_buffer i w = (rc, w') \<Longrightarrow>
     pending i w' \<le> pending i w \<and> (0 < rc \<longrightarrow> toff w' < tbytes w')"
  by (auto simp: token_fill_buffer_def token_fill_buffer_new_def pending_def
      split: if_splits prod.splits option.splits dest!: io_read_size)

lemma fill_wf: "token_fill_buffer i w = (rc, w') \<Longrightarrow> wf_buffer w \<Longrightarrow> wf_buffer w'"
  by (auto simp: token_fill_buffer_def token_fill_buffer_new_def wf_buffer_def
      split: if_splits prod.splits option.splits)

lemma fill_frame:
  "token_fill_buffer i w = (rc, w') \<Longrightarrow>
     io_type (ios w' j) = io_type (ios w j) \<and> io_out (ios w' j) = io_out (ios w j) \<and>
     io_wr (ios w' j) = io_wr (ios w j) \<and> io_timeout (ios w' j) = io_timeout (ios w j) \<and>
     (j \<noteq> i \<longrightarrow> ios w' j = ios w j)"
  by (auto simp: token_fill_buffer_def token_fill_buffer_new_def
      split: if_splits prod.splits option.splits dest!: io_read_frame)

lemma fill_avail:
  assumes "token_fill_buffer i w = (rc, w')" and "wf_buffer w"
  shows "if rc \<le> 0 then avail i w = [] else avail i w' = avail i w \<and> avail i w \<noteq> []"
proof (cases "tbytes w > toff w")
  case True
  with assms show ?thesis by (auto simp: token_fill_buffer_def avail_def wf_buffer_def)
next
  case False
  with assms(2) have e: "drop (toff w) (tbuf w) = []" by (simp add: wf_buffer_def)
  obtain r x where r: "io_read (ios w i) (MAX_LINE_LENGTH - 1) = (r, x)" by fastforce
  from io_read_stream [OF r MAX_LINE_pos(2)] assms(1) False e r show ?thesis
    by (cases r) (auto simp: token_fill_buffer_def token_fill_buffer_new_def avail_def)
qed

lemma pending_advance:
  "toff w < tbytes w \<Longrightarrow> pending i (w\<lparr>toff := Suc (toff w)\<rparr>) < pending i w"
  by (simp add: pending_def)

subsection \<open>Reading a token\<close>

text \<open>
  The loop of \<open>token_read\<close>. \<open>lim\<close> is the size of \<open>literal_buf\<close>, if one is filled; \<open>buf\<close> and
  \<open>lit\<close> are the bytes placed in \<open>buffer\<close> and in \<open>literal_buf\<close> so far.
\<close>

definition loop_done :: "nat option \<Rightarrow> string \<Rightarrow> string \<Rightarrow> bool" where
  "loop_done lim buf lit \<longleftrightarrow>
     (case lim of Some n \<Rightarrow> length lit \<ge> n | None \<Rightarrow> False) \<or> length buf \<ge> MAX_LINE_LENGTH"

definition lit_add :: "nat option \<Rightarrow> string \<Rightarrow> char \<Rightarrow> string" where
  "lit_add lim lit c = (case lim of None \<Rightarrow> lit | Some _ \<Rightarrow> lit @ [c])"

datatype scan_step =
    Scan_stop string flag_t   \<comment> \<open>leave the loop with this buffer and \<open>save_flag\<close>\<close>
  | Scan_more string bool     \<comment> \<open>continue with this buffer and \<open>quoted\<close>\<close>

text \<open>What the body of the loop does with one character.\<close>

definition scan_char :: "flag_t \<Rightarrow> nat \<Rightarrow> string \<Rightarrow> bool \<Rightarrow> char \<Rightarrow> scan_step" where
  "scan_char flag m buf quoted c =
     (if flag AND TOKEN_IMAP4_LITERAL \<noteq> 0
      then (if length buf + 1 \<ge> m then Scan_stop (buf @ [c]) TOKEN_NONE else Scan_more (buf @ [c]) quoted)
      else if c = LF then Scan_stop buf TOKEN_EOL
      else if c = CR then Scan_more buf quoted
      else if c = DQ
      then Scan_more (buf @ [c]) (if flag AND TOKEN_IMAP4 \<noteq> 0 then \<not> quoted else quoted)
      else if c = SP \<and> flag AND TOKEN_EOL = 0 \<and> \<not> quoted then Scan_stop buf TOKEN_NONE
      else Scan_more (buf @ [c]) quoted)"

function token_read_loop ::
    "ioid \<Rightarrow> nat option \<Rightarrow> flag_t \<Rightarrow> nat \<Rightarrow> string \<Rightarrow> string \<Rightarrow> bool \<Rightarrow> world
      \<Rightarrow> (string \<times> flag_t \<times> string) option \<times> world" where
  "token_read_loop i lim flag m buf lit quoted w =
     (if loop_done lim buf lit then (Some (buf, TOKEN_NONE, lit), w)
      else case token_fill_buffer i w of
             (rc, w1) \<Rightarrow>
               if rc \<le> 0 then (None, w1)
               else let c = tbuf w1 ! toff w1;
                        w2 = w1\<lparr>toff := toff w1 + 1\<rparr>;
                        lit' = lit_add lim lit c
                    in case scan_char flag m buf quoted c of
                         Scan_stop buf' save_flag \<Rightarrow> (Some (buf', save_flag, lit'), w2)
                       | Scan_more buf' quoted' \<Rightarrow>
                           token_read_loop i lim flag m buf' lit' quoted' w2)"
  by pat_completeness auto
termination
  by (relation "measure (\<lambda>(i, lim, flag, m, buf, lit, quoted, w). pending i w)")
    (auto intro: order.strict_trans2 [OF pending_advance] dest!: sym [THEN fill_pending])

declare token_read_loop.simps [simp del]

text \<open>
  \<open>lim = None\<close> stands for a missing or empty literal buffer. The result is the token, or \<open>None\<close>
  for NULL, and the bytes placed in the literal buffer, whose number is the value returned in \<open>*n\<close>.
\<close>

definition token_read :: "ioid \<Rightarrow> nat option \<Rightarrow> flag_t \<Rightarrow> nat \<Rightarrow> world \<Rightarrow> (token \<times> string) option \<times> world" where
  "token_read i lim flag m w =
     (case token_read_loop i lim flag m [] [] False w of
        (None, w') \<Rightarrow> (None, w')
      | (Some (buf, save_flag, lit), w') \<Rightarrow>
          (Some (token_assign token_create (Some buf) (length buf) save_flag, lit), w'))"

definition token_write :: "ioid \<Rightarrow> token \<Rightarrow> world \<Rightarrow> int \<times> world" where
  "token_write i t w =
     (case io_write (ios w i) (token_str t) of
        (rc, x) \<Rightarrow> (if rc \<noteq> 0 then -1 else 0, upd_io i x w))"

subsection \<open>The scanner on byte streams\<close>

fun tscan ::
    "nat option \<Rightarrow> flag_t \<Rightarrow> nat \<Rightarrow> string \<Rightarrow> string \<Rightarrow> bool \<Rightarrow> string
      \<Rightarrow> ((string \<times> flag_t \<times> string) \<times> string) option" where
  "tscan lim flag m buf lit quoted s =
     (if loop_done lim buf lit then Some ((buf, TOKEN_NONE, lit), s)
      else case s of
             [] \<Rightarrow> None
           | c # s' \<Rightarrow>
               (case scan_char flag m buf quoted c of
                  Scan_stop buf' save_flag \<Rightarrow> Some ((buf', save_flag, lit_add lim lit c), s')
                | Scan_more buf' quoted' \<Rightarrow>
                    tscan lim flag m buf' (lit_add lim lit c) quoted' s'))"

declare tscan.simps [simp del]

lemma avail_advance:
  assumes "wf_buffer w" and "toff w < tbytes w"
  shows "avail i w = (tbuf w ! toff w) # avail i (w\<lparr>toff := toff w + 1\<rparr>)"
  using assms by (auto simp: avail_def wf_buffer_def Cons_nth_drop_Suc [symmetric])

lemma token_read_loop_tscan:
  assumes "wf_buffer w" and "token_read_loop i lim flag m buf lit quoted w = (r, w')"
  shows "wf_buffer w' \<and>
     (case tscan lim flag m buf lit quoted (avail i w) of
        None \<Rightarrow> r = None
      | Some (x, rest) \<Rightarrow> r = Some x \<and> avail i w' = rest)"
  using assms
proof (induction i lim flag m buf lit quoted w arbitrary: r w' rule: token_read_loop.induct)
  case (1 i lim flag m buf lit quoted w)
  obtain rc w1 where f: "token_fill_buffer i w = (rc, w1)" by fastforce
  note unf = "1.prems"(2) [unfolded token_read_loop.simps [of i lim flag m buf lit quoted w]]
  show ?case
  proof (cases "loop_done lim buf lit")
    case True
    with unf "1.prems"(1) show ?thesis by (auto simp: tscan.simps [of lim flag m buf])
  next
    case nd: False
    note av = fill_avail [OF f "1.prems"(1)] and wf1 = fill_wf [OF f "1.prems"(1)]
    show ?thesis
    proof (cases "rc \<le> 0")
      case True
      with nd unf f av wf1 show ?thesis by (auto simp: tscan.simps [of lim flag m buf])
    next
      case False
      let ?c = "tbuf w1 ! toff w1" and ?w2 = "w1\<lparr>toff := toff w1 + 1\<rparr>"
      from False fill_pending [OF f] have off: "toff w1 < tbytes w1" by simp
      from False av avail_advance [OF wf1 off, of i]
      have av2: "avail i w = ?c # avail i ?w2" by simp
      have wf2: "wf_buffer ?w2" using wf1 by (simp add: wf_buffer_def)
      show ?thesis
      proof (cases "scan_char flag m buf quoted ?c")
        case (Scan_stop b f')
        with nd False unf f av2 wf2 show ?thesis
          by (auto simp: tscan.simps [of lim flag m buf] Let_def)
      next
        case (Scan_more b q)
        with nd False unf f
        have "token_read_loop i lim flag m b (lit_add lim lit ?c) q ?w2 = (r, w')"
          by (simp add: Let_def)
        from "1.IH" [OF nd f [symmetric] False refl refl refl Scan_more wf2 this] nd Scan_more av2
        show ?thesis by (simp add: tscan.simps [of lim flag m buf])
      qed
    qed
  qed
qed


subsection \<open>Progress, frame and bounds\<close>

text \<open>A rule for facts about the loop: one proof per way out of an iteration.\<close>

lemma token_read_loop_cases:
  assumes "token_read_loop i lim flag m buf lit quoted w = (r, w')"
  obtains (done_) "loop_done lim buf lit" "r = Some (buf, TOKEN_NONE, lit)" "w' = w"
  | (fail) rc where "\<not> loop_done lim buf lit" "token_fill_buffer i w = (rc, w')" "rc \<le> 0" "r = None"
  | (stop) rc w1 b f where "\<not> loop_done lim buf lit" "token_fill_buffer i w = (rc, w1)" "0 < rc"
      "scan_char flag m buf quoted (tbuf w1 ! toff w1) = Scan_stop b f"
      "r = Some (b, f, lit_add lim lit (tbuf w1 ! toff w1))" "w' = w1\<lparr>toff := toff w1 + 1\<rparr>"
  | (more) rc w1 b q where "\<not> loop_done lim buf lit" "token_fill_buffer i w = (rc, w1)" "0 < rc"
      "scan_char flag m buf quoted (tbuf w1 ! toff w1) = Scan_more b q"
      "token_read_loop i lim flag m b (lit_add lim lit (tbuf w1 ! toff w1)) q
         (w1\<lparr>toff := toff w1 + 1\<rparr>) = (r, w')"
proof -
  obtain rc w1 where f: "token_fill_buffer i w = (rc, w1)" by fastforce
  note unf = assms [unfolded token_read_loop.simps [of i lim flag m buf lit quoted w]]
  show thesis
  proof (cases "loop_done lim buf lit")
    case True
    with unf done_ show thesis by simp
  next
    case nd: False
    show thesis
    proof (cases "rc \<le> 0")
      case True
      with nd unf f fail show thesis by simp
    next
      case False
      then show thesis
        using nd unf f stop more
        by (cases "scan_char flag m buf quoted (tbuf w1 ! toff w1)") (auto simp: Let_def)
    qed
  qed
qed

lemma token_read_loop_rel:
  assumes loop: "token_read_loop i lim flag m buf lit quoted w = (r, w')"
    and refl: "\<And>w. R w w" and trans: "\<And>a b c. R a b \<Longrightarrow> R b c \<Longrightarrow> R a c"
    and fill: "\<And>w rc w1. token_fill_buffer i w = (rc, w1) \<Longrightarrow> R w w1"
    and adv: "\<And>w. toff w < tbytes w \<Longrightarrow> R w (w\<lparr>toff := toff w + 1\<rparr>)"
  shows "R w w'"
  using loop
proof (induction "pending i w" arbitrary: buf lit quoted w rule: less_induct)
  case less
  from less.prems show ?case
  proof (cases rule: token_read_loop_cases)
    case done_
    then show ?thesis by (simp add: refl)
  next
    case (fail rc)
    then show ?thesis by (blast intro: fill)
  next
    case (stop rc w1 b f)
    then show ?thesis using fill_pending [OF stop(2)] by (blast intro: fill adv trans)
  next
    case (more rc w1 b q)
    with fill_pending [OF more(2)] pending_advance [of w1 i]
    have "pending i (w1\<lparr>toff := toff w1 + 1\<rparr>) < pending i w" by simp
    from less.hyps [OF this more(5)] more fill_pending [OF more(2)] show ?thesis
      by (blast intro: fill adv trans)
  qed
qed

lemma token_read_loop_pending:
  assumes "token_read_loop i lim flag m buf lit quoted w = (r, w')"
  shows "pending i w' \<le> pending i w"
  using assms
  by (rule token_read_loop_rel [where R = "\<lambda>a b. pending i b \<le> pending i a"])
    (auto dest: fill_pending intro: less_imp_le [OF pending_advance])

lemma token_read_loop_progress:
  assumes "token_read_loop i lim flag m buf lit quoted w = (Some x, w')" and "\<not> loop_done lim buf lit"
  shows "pending i w' < pending i w"
  using assms(1)
proof (cases rule: token_read_loop_cases)
  case done_
  with assms(2) show ?thesis by simp
next
  case (stop rc w1 b f)
  with fill_pending [OF stop(2)] pending_advance [of w1 i] show ?thesis by simp
next
  case (more rc w1 b q)
  with fill_pending [OF more(2)] pending_advance [of w1 i] token_read_loop_pending [OF more(5)]
  show ?thesis by simp
qed simp

text \<open>What reading from one connection leaves alone: its type, its output, and the other connection.\<close>

definition same_io :: "ioid \<Rightarrow> world \<Rightarrow> world \<Rightarrow> bool" where
  "same_io i w w' \<longleftrightarrow>
     (\<forall>j. io_type (ios w' j) = io_type (ios w j) \<and> io_out (ios w' j) = io_out (ios w j) \<and>
          io_wr (ios w' j) = io_wr (ios w j) \<and> io_timeout (ios w' j) = io_timeout (ios w j) \<and>
          (j \<noteq> i \<longrightarrow> ios w' j = ios w j))"

lemma same_io_refl [simp]: "same_io i w w"
  by (simp add: same_io_def)

lemma same_io_trans: "same_io i a b \<Longrightarrow> same_io i b c \<Longrightarrow> same_io i a c"
  by (simp add: same_io_def)

lemma token_read_loop_frame:
  assumes "token_read_loop i lim flag m buf lit quoted w = (r, w')"
  shows "same_io i w w'"
  using assms
  by (rule token_read_loop_rel [where R = "same_io i"])
    (auto simp: same_io_def dest: fill_frame)

lemma token_read_frame: "token_read i lim flag m w = (r, w') \<Longrightarrow> same_io i w w'"
  by (auto simp: token_read_def split: prod.splits option.splits dest: token_read_loop_frame)

lemma loop_done_init: "lim \<noteq> Some 0 \<Longrightarrow> \<not> loop_done lim [] []"
  by (auto simp: loop_done_def MAX_LINE_LENGTH_def split: option.splits)

lemma token_read_progress:
  "token_read i lim flag m w = (Some x, w') \<Longrightarrow> lim \<noteq> Some 0 \<Longrightarrow> pending i w' < pending i w"
  by (auto simp: token_read_def split: prod.splits option.splits
      dest!: token_read_loop_progress loop_done_init)

lemma token_read_pending: "token_read i lim flag m w = (r, w') \<Longrightarrow> pending i w' \<le> pending i w"
  by (auto simp: token_read_def split: prod.splits option.splits dest: token_read_loop_pending)

lemma scan_char_length:
  "scan_char flag m buf quoted c = Scan_stop b f \<Longrightarrow> length b \<le> Suc (length buf)"
  "scan_char flag m buf quoted c = Scan_more b q \<Longrightarrow> length b \<le> Suc (length buf)"
  by (auto simp: scan_char_def split: if_splits)

lemma tscan_bounds:
  assumes "tscan lim flag m buf lit quoted s = Some ((b, f, l), rest)"
    and "length buf \<le> MAX_LINE_LENGTH" and "case lim of None \<Rightarrow> lit = [] | Some n \<Rightarrow> length lit \<le> n"
  shows "length b \<le> MAX_LINE_LENGTH \<and> (case lim of None \<Rightarrow> l = [] | Some n \<Rightarrow> length l \<le> n)"
  using assms
proof (induction lim flag m buf lit quoted s rule: tscan.induct)
  case (1 lim flag m buf lit quoted s)
  note unf = "1.prems"(1) [unfolded tscan.simps [of lim flag m buf lit quoted s]]
  show ?case
  proof (cases "loop_done lim buf lit")
    case True
    with unf "1.prems"(2,3) show ?thesis by auto
  next
    case nd: False
    with unf obtain c s' where s: "s = c # s'" by (cases s) auto
    have lb: "length buf < MAX_LINE_LENGTH" using nd by (simp add: loop_done_def)
    have ll: "case lim of None \<Rightarrow> lit_add lim lit c = [] | Some n \<Rightarrow> length (lit_add lim lit c) \<le> n"
      using nd "1.prems"(3) by (auto simp: loop_done_def lit_add_def split: option.splits)
    show ?thesis
    proof (cases "scan_char flag m buf quoted c")
      case (Scan_stop b' f')
      with unf nd s lb ll scan_char_length(1) [OF Scan_stop] show ?thesis by auto
    next
      case (Scan_more b' q')
      with unf nd s have "tscan lim flag m b' (lit_add lim lit c) q' s' = Some ((b, f, l), rest)" by simp
      from "1.IH" [OF nd s Scan_more this _ ll] lb scan_char_length(2) [OF Scan_more]
      show ?thesis by simp
    qed
  qed
qed

text \<open>\<open>token_read\<close> as a function of the byte stream.\<close>

definition tread :: "nat option \<Rightarrow> flag_t \<Rightarrow> nat \<Rightarrow> string \<Rightarrow> ((token \<times> string) \<times> string) option" where
  "tread lim flag m s =
     map_option (\<lambda>((buf, save_flag, lit), rest). ((mk_token buf save_flag, lit), rest))
       (tscan lim flag m [] [] False s)"

lemma token_read_tread:
  assumes "wf_buffer w" and "token_read i lim flag m w = (r, w')"
  shows "wf_buffer w' \<and>
     (case tread lim flag m (avail i w) of
        None \<Rightarrow> r = None
      | Some (x, rest) \<Rightarrow> r = Some x \<and> avail i w' = rest)"
proof -
  obtain r' w1 where l: "token_read_loop i lim flag m [] [] False w = (r', w1)" by fastforce
  from token_read_loop_tscan [OF assms(1) l] assms(2) l show ?thesis
    by (auto simp: token_read_def tread_def mk_token_def split: option.splits prod.splits)
qed

lemma token_read_wf_token: "token_read i lim flag m w = (Some (t, l), w') \<Longrightarrow> wf_token t"
  by (auto simp: token_read_def wf_token_assign split: prod.splits option.splits)

lemma token_read_bounds:
  assumes "wf_buffer w" and "token_read i lim flag m w = (Some (t, l), w')"
  shows "tok_n t \<le> MAX_LINE_LENGTH \<and> (case lim of None \<Rightarrow> l = [] | Some n \<Rightarrow> length l \<le> n)"
proof -
  from token_read_tread [OF assms] obtain b f rest
    where "tscan lim flag m [] [] False (avail i w) = Some ((b, f, l), rest)" "t = mk_token b f"
    by (auto simp: tread_def split: option.splits)
  then show ?thesis
    using tscan_bounds [of lim flag m "[]" "[]" False "avail i w" b f l rest]
    by (auto split: option.splits)
qed

lemma token_flush_avail [simp]: "avail i (token_flush w) = io_stream (ios w i)"
  by (simp add: avail_def token_flush_def)

lemma wf_token_flush [simp]: "wf_buffer (token_flush w)"
  by (simp add: wf_buffer_def token_flush_def)

end
