(* ===== verification/Queue_Func.thy ===== *)
theory Queue_Func
  imports Token
begin

text \<open>
  Queues of tokens: the interface to the queue type of libvanessa_adt, which is not part of the
  sources, and the two functions of \<^verbatim>\<open>perdition/queue_func.c\<close> that read a line into a queue and
  join a queue to a string.

  The queue library is a parameter: a record of its operations, passed to every definition that
  uses it. What the sources rely on, that it is a first-in first-out queue, is the locale
  \<open>token_queue\<close>; it is interpreted on the queue of lists \<open>list_queue\<close>.
\<close>

record 'q queue_ops =
  qcreate :: 'q
  qpush :: "'q \<Rightarrow> token \<Rightarrow> 'q"
  qpop :: "'q \<Rightarrow> ('q \<times> token) option"
  qlength :: "'q \<Rightarrow> nat"

subsection \<open>Reading a line\<close>

text \<open>
  The loop of \<open>read_line\<close>. \<open>lim\<close> is the size of the caller's buffer, if one is filled, and
  \<open>acc\<close> the bytes stored there so far. The result is the queue, or \<open>None\<close> for NULL, and the
  contents of the buffer.
\<close>

function read_line_loop ::
    "'q queue_ops \<Rightarrow> ioid \<Rightarrow> nat option \<Rightarrow> flag_t \<Rightarrow> nat \<Rightarrow> 'q \<Rightarrow> string \<Rightarrow> world
      \<Rightarrow> ('q \<times> string) option \<times> world" where
  "read_line_loop Q i lim flag m q acc w =
     (case token_read i (map_option (\<lambda>n. n - length acc) lim) flag m w of
        (None, w1) \<Rightarrow> (None, w1)
      | (Some (t, lit), w1) \<Rightarrow>
          let acc' = acc @ lit; q' = qpush Q q t in
          if flag AND TOKEN_IMAP4_LITERAL = 0 \<and> \<not> token_is_eol t \<and>
             \<not> (case lim of None \<Rightarrow> False | Some n \<Rightarrow> length acc' \<ge> n)
          then read_line_loop Q i lim flag m q' acc' w1
          else (Some (q', acc'), w1))"
  by pat_completeness auto
termination
proof (relation "measure (\<lambda>(Q, i, lim, flag, m, q, acc, w). pending i w)", goal_cases)
  case 1
  show ?case by simp
next
  case prems: (2 Q i lim flag m q acc w r w1 x t lit acc' q')
  then have r: "token_read i (map_option (\<lambda>n. n - length acc) lim) flag m w = (Some (t, lit), w1)" by auto
  from prems have "map_option (\<lambda>n. n - length acc) lim \<noteq> Some 0" by (auto split: option.splits)
  from token_read_progress [OF r this] show ?case by simp
qed

declare read_line_loop.simps [simp del]

definition read_line ::
    "'q queue_ops \<Rightarrow> ioid \<Rightarrow> nat option \<Rightarrow> flag_t \<Rightarrow> nat \<Rightarrow> world \<Rightarrow> ('q \<times> string) option \<times> world" where
  "read_line Q i lim flag m w =
     read_line_loop Q i (if lim = Some 0 then None else lim) flag m (qcreate Q) [] w"


subsection \<open>Joining a queue\<close>

text \<open>\<open>strncpy\<close> of \<open>n\<close> bytes: the C string of the source, padded with NUL to \<open>n\<close> bytes.\<close>

definition strncpy_bytes :: "string \<Rightarrow> nat \<Rightarrow> string" where
  "strncpy_bytes s n = (let c = cstr (take n s) in c @ replicate (n - length c) NUL)"

text \<open>The first loop of \<open>queue_to_string\<close> empties \<open>q\<close> into \<open>stack\<close> and sums up the length.\<close>

partial_function (option) queue_drain ::
    "'q queue_ops \<Rightarrow> 'q \<Rightarrow> 'q \<Rightarrow> nat \<Rightarrow> ('q \<times> nat) option" where
  "queue_drain Q q stack len =
     (case qpop Q q of
        None \<Rightarrow> Some (stack, len)
      | Some (q', t) \<Rightarrow> queue_drain Q q' (qpush Q stack t) (len + 1 + tok_n t))"

declare queue_drain.simps [code]

definition queue_field :: "token \<Rightarrow> string" where
  "queue_field t =
     (if tok_n t > 0 \<and> tok_buf t \<noteq> None then strncpy_bytes (token_str t) (tok_n t) else [])"

text \<open>The second loop writes the tokens, a space behind each; \<open>str\<close> is what has been written.\<close>

partial_function (option) queue_fill :: "'q queue_ops \<Rightarrow> 'q \<Rightarrow> string \<Rightarrow> string option" where
  "queue_fill Q stack str =
     (case qpop Q stack of
        None \<Rightarrow> Some str
      | Some (stack', t) \<Rightarrow>
          queue_fill Q stack' (str @ queue_field t @ [SP]))"

declare queue_fill.simps [code]

text \<open>
  The last space is overwritten with the terminating NUL; for an empty queue that write is one
  byte before the allocation. A write past the \<open>length\<close> bytes allocated is out of bounds.
\<close>

definition queue_to_string :: "'q queue_ops \<Rightarrow> 'q \<Rightarrow> string option" where
  "queue_to_string Q q =
     do { (stack, len) \<leftarrow> queue_drain Q q (qcreate Q) 0;
          str \<leftarrow> queue_fill Q stack [];
          if str = [] \<or> length str > len then None else Some (cstr (butlast str)) }"

subsection \<open>Scanning a line of words\<close>

text \<open>The quote state behind \<open>w\<close>, if \<open>w\<close> holds nothing that ends a token.\<close>

fun quote_state :: "flag_t \<Rightarrow> bool \<Rightarrow> string \<Rightarrow> bool option" where
  "quote_state flag q [] = Some q"
| "quote_state flag q (c # cs) =
     (if c = LF \<or> c = CR then None
      else if c = DQ then quote_state flag (if flag AND TOKEN_IMAP4 \<noteq> 0 then \<not> q else q) cs
      else if c = SP \<and> flag AND TOKEN_EOL = 0 \<and> \<not> q then None
      else quote_state flag q cs)"

definition is_word :: "flag_t \<Rightarrow> string \<Rightarrow> bool" where
  "is_word flag w \<longleftrightarrow> quote_state flag False w = Some False \<and> length w < MAX_LINE_LENGTH"

definition line_flag :: "flag_t \<Rightarrow> bool" where
  "line_flag flag \<longleftrightarrow> flag AND TOKEN_IMAP4_LITERAL = 0 \<and> flag AND TOKEN_EOL = 0"

lemma line_flag_simps [simp]:
  "line_flag TOKEN_POP3" "line_flag TOKEN_IMAP4" "line_flag TOKEN_MANAGESIEVE" "line_flag TOKEN_ACAP_ATOM"
  by (simp_all add: line_flag_def token_flag_defs)

definition line_tokens :: "string list \<Rightarrow> token list" where
  "line_tokens ws = map (\<lambda>w. mk_token w TOKEN_NONE) (butlast ws) @ [mk_token (last ws) TOKEN_EOL]"

lemma line_tokens_Cons:
  "line_tokens (x # xs) = (if xs = [] then [mk_token x TOKEN_EOL] else mk_token x TOKEN_NONE # line_tokens xs)"
  by (simp add: line_tokens_def)

lemma mk_token_eol [simp]: "token_is_eol (mk_token s TOKEN_EOL)" "\<not> token_is_eol (mk_token s TOKEN_NONE)"
  by (simp_all add: token_is_eol_def token_flag_defs)

lemma tscan_word:
  assumes "quote_state flag q w = Some q'" and "length buf + length w < MAX_LINE_LENGTH"
    and "flag AND TOKEN_IMAP4_LITERAL = 0"
  shows "tscan None flag m buf [] q (w @ s) = tscan None flag m (buf @ w) [] q' s"
  using assms
proof (induction w arbitrary: buf q)
  case (Cons c w)
  then show ?case
    by (subst tscan.simps) (auto simp: loop_done_def scan_char_def lit_add_def split: if_splits)
qed simp

lemma tscan_stop:
  assumes "length w < MAX_LINE_LENGTH" and "line_flag flag"
  shows "tscan None flag m w [] False (SP # s) = Some ((w, TOKEN_NONE, []), s)"
    and "tscan None flag m w [] False (LF # s) = Some ((w, TOKEN_EOL, []), s)"
    and "tscan None flag m w [] False (CR # LF # s) = Some ((w, TOKEN_EOL, []), s)"
  using assms
  by (simp_all add: line_flag_def tscan.simps loop_done_def scan_char_def lit_add_def)

lemma tread_word:
  assumes "is_word flag w" and "line_flag flag"
  shows "tread None flag m (w @ SP # s) = Some ((mk_token w TOKEN_NONE, []), s)"
    and "tread None flag m (w @ LF # s) = Some ((mk_token w TOKEN_EOL, []), s)"
    and "tread None flag m (w @ CR # LF # s) = Some ((mk_token w TOKEN_EOL, []), s)"
proof -
  have "tscan None flag m [] [] False (w @ x) = tscan None flag m w [] False x" for x
    using assms tscan_word [of flag False w False "[]" m x] by (simp add: is_word_def line_flag_def)
  moreover have "length w < MAX_LINE_LENGTH" using assms(1) by (simp add: is_word_def)
  ultimately show "tread None flag m (w @ SP # s) = Some ((mk_token w TOKEN_NONE, []), s)"
    and "tread None flag m (w @ LF # s) = Some ((mk_token w TOKEN_EOL, []), s)"
    and "tread None flag m (w @ CR # LF # s) = Some ((mk_token w TOKEN_EOL, []), s)"
    using assms(2) by (simp_all add: tread_def tscan_stop)
qed

subsection \<open>The queue interface\<close>

text \<open>
  First-in first-out queues of tokens, by an abstraction \<open>\<alpha>\<close> to lists, as documented for
  \<^verbatim>\<open>vanessa_queue_t\<close>: push adds at one end, pop takes from the other and fails on an empty queue.
\<close>

locale token_queue =
  fixes Q :: "'q queue_ops" and \<alpha> :: "'q \<Rightarrow> token list"
  assumes create: "\<alpha> (qcreate Q) = []"
    and push: "\<alpha> (qpush Q q t) = \<alpha> q @ [t]"
    and pop_None: "qpop Q q = None \<longleftrightarrow> \<alpha> q = []"
    and pop_Some: "qpop Q q = Some (q', t) \<Longrightarrow> \<alpha> q = t # \<alpha> q'"
    and qlength: "qlength Q q = length (\<alpha> q)"
begin

lemma pop_Cons: "\<alpha> q = t # ts \<Longrightarrow> \<exists>q'. qpop Q q = Some (q', t) \<and> \<alpha> q' = ts"
  using pop_None [of q] pop_Some [of q] by (cases "qpop Q q") auto

lemma drain:
  "\<exists>st. queue_drain Q q stack len =
      Some (st, len + (\<Sum>t\<leftarrow>\<alpha> q. 1 + tok_n t)) \<and> \<alpha> st = \<alpha> stack @ \<alpha> q"
proof (induction "\<alpha> q" arbitrary: q stack len)
  case Nil
  then have "qpop Q q = None" by (simp add: pop_None)
  with Nil show ?case by (subst queue_drain.simps) simp
next
  case (Cons t ts)
  then obtain q' where q': "qpop Q q = Some (q', t)" "\<alpha> q' = ts" using pop_Cons by metis
  with Cons.hyps(1) [of q' "qpush Q stack t" "len + 1 + tok_n t"] Cons.hyps(2) [symmetric] show ?case
    by (subst queue_drain.simps) (auto simp: push add.assoc)
qed

lemma fill: "queue_fill Q q str = Some (str @ concat (map (\<lambda>t. queue_field t @ [SP]) (\<alpha> q)))"
proof (induction "\<alpha> q" arbitrary: q str)
  case Nil
  then have "qpop Q q = None" by (simp add: pop_None)
  with Nil show ?case by (subst queue_fill.simps) simp
next
  case (Cons t ts)
  then obtain q' where q': "qpop Q q = Some (q', t)" "\<alpha> q' = ts" using pop_Cons by metis
  with Cons.hyps(1) [of q'] Cons.hyps(2) [symmetric] show ?case
    by (subst queue_fill.simps) simp
qed

lemma queue_field_plain: "wf_token t \<Longrightarrow> no_nul (token_str t) \<Longrightarrow> queue_field t = token_str t"
  by (auto simp: queue_field_def wf_token_def strncpy_bytes_def Let_def token_str_def split: option.splits)

lemma join_butlast:
  "ws \<noteq> [] \<Longrightarrow> butlast (concat (map (\<lambda>w. w @ [c]) ws)) = join c ws"
proof (induction ws rule: list_nonempty_induct)
  case (cons w ws)
  then show ?case by (cases ws) (auto simp: butlast_append)
qed simp

lemma queue_to_string_join:
  assumes "\<alpha> q \<noteq> []" and "\<forall>t \<in> set (\<alpha> q). wf_token t \<and> no_nul (token_str t)"
  shows "queue_to_string Q q = Some (join SP (map token_str (\<alpha> q)))"
proof -
  obtain st where st: "queue_drain Q q (qcreate Q) 0 = Some (st, \<Sum>t\<leftarrow>\<alpha> q. 1 + tok_n t)" "\<alpha> st = \<alpha> q"
    using drain [of q "qcreate Q" 0] by (auto simp: create)
  have f: "map (\<lambda>t. queue_field t @ [SP]) (\<alpha> q) = map (\<lambda>w. w @ [SP]) (map token_str (\<alpha> q))"
    using assms(2) by (auto simp: queue_field_plain)
  have len: "length (concat (map (\<lambda>t. queue_field t @ [SP]) (\<alpha> q))) = (\<Sum>t\<leftarrow>\<alpha> q. 1 + tok_n t)"
    using assms(2) unfolding f by (simp add: length_concat o_def wf_token_def cong: map_cong)
  have ne: "concat (map (\<lambda>t. queue_field t @ [SP]) (\<alpha> q)) \<noteq> []" using assms(1) by (cases "\<alpha> q") auto
  have nn: "no_nul (join SP (map token_str (\<alpha> q)))"
    using assms by (cases "\<alpha> q") (auto simp: no_nul_def)
  show ?thesis
    using st len ne nn fill [of st "[]"] join_butlast [of "map token_str (\<alpha> q)" SP] assms(1) f
    by (simp add: queue_to_string_def)
qed

lemma read_line_loop_words:
  assumes "wf_buffer w" and "line_flag flag" and "ws \<noteq> []" and "\<forall>x \<in> set ws. is_word flag x"
    and "avail i w = join SP ws @ e @ rest" and "e = [LF] \<or> e = CRLF"
  shows "\<exists>q' w'. read_line_loop Q i None flag m q acc w = (Some (q', acc), w') \<and>
     \<alpha> q' = \<alpha> q @ line_tokens ws \<and> avail i w' = rest \<and> wf_buffer w'"
  using assms(3,1,2,4,5,6)
proof (induction ws arbitrary: q w rule: list_nonempty_induct)
  case (single x)
  obtain r w1 where r: "token_read i None flag m w = (r, w1)" by fastforce
  from token_read_tread [OF single.prems(1) r] single.prems tread_word(2,3) [of flag x m rest]
  have "r = Some (mk_token x TOKEN_EOL, []) \<and> avail i w1 = rest \<and> wf_buffer w1"
    by (auto simp: CRLF_def)
  moreover have "token_is_eol (mk_token x TOKEN_EOL)" by (simp add: token_is_eol_def token_flag_defs)
  ultimately show ?case using r
    by (subst read_line_loop.simps) (simp add: Let_def push line_tokens_def)
next
  case (cons x ws)
  obtain r w1 where r: "token_read i None flag m w = (r, w1)" by fastforce
  from cons.hyps have j: "join SP (x # ws) = x @ SP # join SP ws" by (cases ws) auto
  have a: "avail i w = x @ SP # (join SP ws @ e @ rest)" using cons.prems j by (simp del: join.simps)
  have x: "is_word flag x" using cons.prems by simp
  have t: "r = Some (mk_token x TOKEN_NONE, []) \<and> avail i w1 = join SP ws @ e @ rest \<and> wf_buffer w1"
    using token_read_tread [OF cons.prems(1) r, unfolded a tread_word(1) [OF x cons.prems(2)]] by simp
  with cons obtain q' w' where "read_line_loop Q i None flag m (qpush Q q (mk_token x TOKEN_NONE)) acc w1
      = (Some (q', acc), w')"
    "\<alpha> q' = \<alpha> (qpush Q q (mk_token x TOKEN_NONE)) @ line_tokens ws" "avail i w' = rest" "wf_buffer w'"
    by (metis list.set_intros(2))
  moreover have "\<not> token_is_eol (mk_token x TOKEN_NONE)" by (simp add: token_is_eol_def token_flag_defs)
  ultimately show ?case using r t cons.prems(2) cons.hyps
    by (subst read_line_loop.simps) (auto simp: Let_def push line_tokens_def line_flag_def)
qed

lemma read_line_words:
  assumes "wf_buffer w" and "line_flag flag" and "ws \<noteq> []" and "\<forall>x \<in> set ws. is_word flag x"
    and "avail i w = join SP ws @ e @ rest" and "e = [LF] \<or> e = CRLF"
  shows "\<exists>q w'. read_line Q i None flag m w = (Some (q, []), w') \<and>
     \<alpha> q = line_tokens ws \<and> avail i w' = rest \<and> wf_buffer w'"
  using read_line_loop_words [OF assms, of m "qcreate Q" "[]"] by (simp add: read_line_def create)

end

subsection \<open>Keeping the bytes read\<close>

lemma tscan_word_lim:
  assumes "quote_state flag q w = Some q'" and "length buf + length w < MAX_LINE_LENGTH"
    and "flag AND TOKEN_IMAP4_LITERAL = 0" and "length lit + length w \<le> n"
  shows "tscan (Some n) flag m buf lit q (w @ s) = tscan (Some n) flag m (buf @ w) (lit @ w) q' s"
  using assms
proof (induction w arbitrary: buf q lit)
  case (Cons c w)
  then show ?case
    by (subst tscan.simps) (auto simp: loop_done_def scan_char_def lit_add_def split: if_splits)
qed simp

lemma tread_word_lim:
  assumes "is_word flag w" and "line_flag flag"
  shows "length w < n \<Longrightarrow> tread (Some n) flag m (w @ SP # s) = Some ((mk_token w TOKEN_NONE, w @ [SP]), s)"
    and "length w < n \<Longrightarrow> tread (Some n) flag m (w @ LF # s) = Some ((mk_token w TOKEN_EOL, w @ [LF]), s)"
    and "Suc (length w) < n \<Longrightarrow> tread (Some n) flag m (w @ CR # LF # s) = Some ((mk_token w TOKEN_EOL, w @ CRLF), s)"
proof -
  have "length w < n \<Longrightarrow> tscan (Some n) flag m [] [] False (w @ x) = tscan (Some n) flag m w w False x" for x
    using assms tscan_word_lim [of flag False w False "[]" "[]" n m x] by (simp add: is_word_def line_flag_def)
  moreover have "length w < MAX_LINE_LENGTH" using assms(1) by (simp add: is_word_def)
  ultimately show "length w < n \<Longrightarrow> tread (Some n) flag m (w @ SP # s) = Some ((mk_token w TOKEN_NONE, w @ [SP]), s)"
    and "length w < n \<Longrightarrow> tread (Some n) flag m (w @ LF # s) = Some ((mk_token w TOKEN_EOL, w @ [LF]), s)"
    and "Suc (length w) < n \<Longrightarrow> tread (Some n) flag m (w @ CR # LF # s) = Some ((mk_token w TOKEN_EOL, w @ CRLF), s)"
    using assms(2)
    by (simp_all add: tread_def tscan.simps loop_done_def scan_char_def lit_add_def line_flag_def CRLF_def)
qed

lemma read_line_loop_words_lim:
  assumes "token_queue Q \<alpha>"
  assumes "ws \<noteq> []" and "wf_buffer w" and "line_flag flag" and "\<forall>x \<in> set ws. is_word flag x"
    and "avail i w = join SP ws @ CRLF @ rest" and "length acc + length (join SP ws @ CRLF) \<le> n"
  shows "\<exists>q' w'. read_line_loop Q i (Some n) flag m q acc w = (Some (q', acc @ join SP ws @ CRLF), w') \<and>
     \<alpha> q' = \<alpha> q @ line_tokens ws \<and> avail i w' = rest \<and> wf_buffer w'"
  using assms(2-)
proof (induction ws arbitrary: q w acc rule: list_nonempty_induct)
  case (single x)
  obtain r w1 where r: "token_read i (Some (n - length acc)) flag m w = (r, w1)" by fastforce
  from token_read_tread [OF single.prems(1) r] single.prems tread_word_lim(3) [of flag x "n - length acc" m rest]
  have "r = Some (mk_token x TOKEN_EOL, x @ CRLF) \<and> avail i w1 = rest \<and> wf_buffer w1"
    by (auto simp: CRLF_def)
  then show ?case using r
    by (subst read_line_loop.simps) (simp add: Let_def token_queue.push [OF assms(1)] line_tokens_def)
next
  case (cons x ws)
  obtain r w1 where r: "token_read i (Some (n - length acc)) flag m w = (r, w1)" by fastforce
  from cons.hyps have j: "join SP (x # ws) = x @ SP # join SP ws" by (cases ws) auto
  have a: "avail i w = x @ SP # (join SP ws @ CRLF @ rest)" using cons.prems j by (simp del: join.simps)
  have x: "is_word flag x" using cons.prems by simp
  have len: "length acc + length x + 1 + length (join SP ws @ CRLF) \<le> n"
    using cons.prems(5) unfolding j by simp
  then have lx: "length x < n - length acc" by (simp add: CRLF_def)
  have t: "r = Some (mk_token x TOKEN_NONE, x @ [SP]) \<and> avail i w1 = join SP ws @ CRLF @ rest \<and> wf_buffer w1"
    using token_read_tread [OF cons.prems(1) r, unfolded a tread_word_lim(1) [OF x cons.prems(2) lx]] by simp
  have "\<forall>x \<in> set ws. is_word flag x" using cons.prems by simp
  moreover have "length (acc @ x @ [SP]) + length (join SP ws @ CRLF) \<le> n" using len by simp
  ultimately obtain q' w' where "read_line_loop Q i (Some n) flag m (qpush Q q (mk_token x TOKEN_NONE)) (acc @ x @ [SP]) w1
      = (Some (q', (acc @ x @ [SP]) @ join SP ws @ CRLF), w')"
    "\<alpha> q' = \<alpha> (qpush Q q (mk_token x TOKEN_NONE)) @ line_tokens ws" "avail i w' = rest" "wf_buffer w'"
    using cons.IH [of w1 "acc @ x @ [SP]"] t cons.prems(2) by blast
  moreover have "length acc + length x + 1 < n" using len by (simp add: CRLF_def)
  ultimately show ?case using r t cons.prems(2) cons.hyps j
    by (subst read_line_loop.simps)
      (auto simp: Let_def token_queue.push [OF assms(1)] line_tokens_Cons line_flag_def)
qed

lemma read_line_words_lim:
  assumes "token_queue Q \<alpha>" and "ws \<noteq> []" and "wf_buffer w" and "line_flag flag" and "\<forall>x \<in> set ws. is_word flag x"
    and "avail i w = join SP ws @ CRLF @ rest" and "length (join SP ws @ CRLF) \<le> n"
  shows "\<exists>q w'. read_line Q i (Some n) flag m w = (Some (q, join SP ws @ CRLF), w') \<and>
     \<alpha> q = line_tokens ws \<and> avail i w' = rest \<and> wf_buffer w'"
proof -
  have "n \<noteq> 0" using assms(7) by (simp add: CRLF_def)
  then show ?thesis
    using read_line_loop_words_lim [OF assms(1-6), of "[]" n m "qcreate Q"] assms(7)
    by (simp add: read_line_def token_queue.create [OF assms(1)])
qed

text \<open>Both together: with or without a buffer for the bytes.\<close>

definition line_fits :: "nat option \<Rightarrow> string list \<Rightarrow> bool" where
  "line_fits lim ws \<longleftrightarrow> (case lim of None \<Rightarrow> True | Some n \<Rightarrow> length (join SP ws @ CRLF) < n)"

definition line_bytes :: "nat option \<Rightarrow> string list \<Rightarrow> string" where
  "line_bytes lim ws = (case lim of None \<Rightarrow> [] | Some _ \<Rightarrow> join SP ws @ CRLF)"

lemma read_line_words_any:
  assumes "token_queue Q \<alpha>" and "ws \<noteq> []" and "wf_buffer w" and "line_flag flag" and "\<forall>x \<in> set ws. is_word flag x"
    and "avail i w = join SP ws @ CRLF @ rest" and "line_fits lim ws"
  shows "\<exists>q w'. read_line Q i lim flag m w = (Some (q, line_bytes lim ws), w') \<and>
     \<alpha> q = line_tokens ws \<and> avail i w' = rest \<and> wf_buffer w'"
proof (cases lim)
  case None
  then show ?thesis using token_queue.read_line_words [OF assms(1,3,4,2,5,6), where m = m]
    by (auto simp: line_bytes_def)
next
  case (Some n)
  then show ?thesis using read_line_words_lim [OF assms(1-6), of n m] assms(7)
    by (auto simp: line_bytes_def line_fits_def)
qed

subsection \<open>Progress and frame\<close>

lemma read_line_loop_frame:
  "read_line_loop Q i lim flag m q acc w = (r, w') \<Longrightarrow> same_io i w w' \<and> pending i w' \<le> pending i w"
proof (induction Q i lim flag m q acc w arbitrary: r w' rule: read_line_loop.induct)
  case (1 Q i lim flag m q acc w)
  obtain r1 w1 where r: "token_read i (map_option (\<lambda>n. n - length acc) lim) flag m w = (r1, w1)" by fastforce
  note fr = token_read_frame [OF r] token_read_pending [OF r]
  show ?case
  proof (cases r1)
    case None
    with "1.prems" r fr show ?thesis by (subst (asm) read_line_loop.simps) auto
  next
    case (Some tl)
    obtain t lit where tl: "tl = (t, lit)" by fastforce
    show ?thesis
      using "1.prems" r fr Some tl "1.IH" [OF r [symmetric] Some tl [symmetric] refl refl]
      by (subst (asm) read_line_loop.simps)
        (auto simp: Let_def split: if_splits intro: same_io_trans order_trans)
  qed
qed

lemma read_line_frame: "read_line Q i lim flag m w = (r, w') \<Longrightarrow> same_io i w w'"
  by (auto simp: read_line_def dest: read_line_loop_frame)

lemma read_line_loop_progress:
  assumes "read_line_loop Q i lim flag m q [] w = (Some x, w')" and "lim \<noteq> Some 0"
  shows "pending i w' < pending i w"
proof -
  note unf = assms(1) [unfolded read_line_loop.simps [of Q i lim flag m q "[]" w]]
  obtain r1 w1 where r: "token_read i (map_option (\<lambda>n. n - length []) lim) flag m w = (r1, w1)"
    by fastforce
  with unf obtain t lit where s: "r1 = Some (t, lit)" by (cases r1) auto
  have "pending i w1 < pending i w" using r s assms(2) by (auto dest!: token_read_progress)
  moreover have "pending i w' \<le> pending i w1"
    using unf r s by (auto simp: Let_def split: if_splits dest: read_line_loop_frame)
  ultimately show ?thesis by simp
qed

lemma read_line_progress: "read_line Q i lim flag m w = (Some x, w') \<Longrightarrow> pending i w' < pending i w"
  by (auto simp: read_line_def dest!: read_line_loop_progress split: if_splits)

subsection \<open>Quoted words\<close>

definition quoted :: "string \<Rightarrow> string" where
  "quoted s = DQ # quote_chars s @ [DQ]"

lemma quote_chars_not_DQ: "DQ \<notin> set s \<Longrightarrow> set (quote_chars s) \<subseteq> set s"
  by (induction s) auto

lemma quote_chars_eq_Nil [simp]: "quote_chars s = [] \<longleftrightarrow> s = []"
  by (cases s) auto

lemma no_nul_quote_chars: "no_nul s \<Longrightarrow> no_nul (quote_chars s)"
  by (induction s) (auto simp: no_nul_def)

lemma quote_state_quoted_part:
  assumes "DQ \<notin> set v" "CR \<notin> set v" "LF \<notin> set v" "flag AND TOKEN_IMAP4 \<noteq> 0"
  shows "quote_state flag True (v @ x) = quote_state flag True x"
  using assms by (induction v) auto

definition login_arg :: "string \<Rightarrow> bool" where
  "login_arg s \<longleftrightarrow> no_nul s \<and> DQ \<notin> set s \<and> CR \<notin> set s \<and> LF \<notin> set s \<and> length (quoted s) < MAX_LINE_LENGTH"

lemma is_word_quoted:
  assumes "login_arg s" shows "is_word TOKEN_IMAP4 (quoted s)"
proof -
  have "DQ \<notin> set (quote_chars s)" "CR \<notin> set (quote_chars s)" "LF \<notin> set (quote_chars s)"
    using assms quote_chars_not_DQ [of s] by (auto simp: login_arg_def)
  then have "quote_state TOKEN_IMAP4 True (quote_chars s @ [DQ]) = Some False"
    by (subst quote_state_quoted_part) (simp_all add: token_flag_defs)
  then show ?thesis using assms
    by (simp add: is_word_def quoted_def login_arg_def) (simp add: token_flag_defs)
qed

subsection \<open>Literals\<close>

lemma tscan_literal:
  assumes "s \<noteq> []" and "length buf + length s \<le> MAX_LINE_LENGTH"
    and "length buf + length s = m \<or> length buf + length s = MAX_LINE_LENGTH \<and> MAX_LINE_LENGTH \<le> m"
  shows "tscan None TOKEN_IMAP4_LITERAL m buf [] qd (s @ rest) = Some ((buf @ s, TOKEN_NONE, []), rest)"
  using assms
proof (induction s arbitrary: buf)
  case (Cons c s)
  have f: "TOKEN_IMAP4_LITERAL AND TOKEN_IMAP4_LITERAL \<noteq> 0" by (simp add: token_flag_defs)
  show ?case
  proof (cases "s = []")
    case True
    then show ?thesis using Cons.prems f
      by (cases "Suc (length buf) = m")
        (simp_all add: tscan.simps loop_done_def scan_char_def lit_add_def)
  next
    case False
    with Cons f show ?thesis
      by (subst tscan.simps) (simp add: loop_done_def scan_char_def lit_add_def neq_Nil_conv; fastforce)
  qed
qed simp

lemma token_read_literal:
  assumes "wf_buffer w" and "s \<noteq> []" and "length s = min m MAX_LINE_LENGTH" and "avail i w = s @ rest"
  obtains w' where "token_read i None TOKEN_IMAP4_LITERAL m w = (Some (mk_token s TOKEN_NONE, []), w')"
    and "avail i w' = rest" and "wf_buffer w'"
proof -
  obtain r w' where r: "token_read i None TOKEN_IMAP4_LITERAL m w = (r, w')" by fastforce
  have "tread None TOKEN_IMAP4_LITERAL m (s @ rest) = Some ((mk_token s TOKEN_NONE, []), rest)"
    using tscan_literal [of s "[]" m False rest] assms by (auto simp: tread_def min_def split: if_splits)
  then show ?thesis using that token_read_tread [OF assms(1) r] r assms(4) by simp
qed

lemma quote_state_plain:
  "SP \<notin> set s \<Longrightarrow> CR \<notin> set s \<Longrightarrow> LF \<notin> set s \<Longrightarrow> DQ \<notin> set s \<Longrightarrow> quote_state flag q s = Some q"
  by (induction s) auto

subsection \<open>The queue of lists\<close>

definition list_queue :: "token list queue_ops" where
  "list_queue =
     \<lparr>qcreate = [], qpush = (\<lambda>q t. q @ [t]),
      qpop = (\<lambda>q. case q of [] \<Rightarrow> None | t # ts \<Rightarrow> Some (ts, t)), qlength = length\<rparr>"

interpretation list_queue: token_queue list_queue "\<lambda>q. q"
  by unfold_locales (auto simp: list_queue_def split: list.splits)

subsection \<open>Types\<close>

text \<open>What the scanner takes from the input, and which bytes it puts into a token.\<close>

lemma tscan_used:
  assumes "tscan lim flag m buf lit qd s = Some ((b, f, l), rest)"
  shows "\<exists>used. s = used @ rest \<and> l = (if lim = None then lit else lit @ used) \<and> (\<not> loop_done lim buf lit \<longrightarrow> used \<noteq> [])"
  using assms
proof (induction lim flag m buf lit qd s rule: tscan.induct)
  case (1 lim flag m buf lit qd s)
  note unf = "1.prems" [unfolded tscan.simps [of lim flag m buf lit qd s]]
  show ?case
  proof (cases "loop_done lim buf lit")
    case nd: False
    with unf obtain c s' where s: "s = c # s'" by (cases s) auto
    show ?thesis
    proof (cases "scan_char flag m buf qd c")
      case (Scan_stop b' f')
      with unf nd s have "s' = rest" "l = lit_add lim lit c" by auto
      then show ?thesis using s by (intro exI [of _ "[c]"]) (auto simp: lit_add_def)
    next
      case (Scan_more b' q')
      with unf nd s have "tscan lim flag m b' (lit_add lim lit c) q' s' = Some ((b, f, l), rest)" by simp
      from "1.IH" [OF nd s Scan_more this] obtain used
        where "s' = used @ rest" "l = (if lim = None then lit_add lim lit c else lit_add lim lit c @ used)" by blast
      then show ?thesis using s by (intro exI [of _ "c # used"]) (auto simp: lit_add_def)
    qed
  qed (use unf in auto)
qed

lemma tscan_chars:
  assumes "tscan lim flag m buf lit qd s = Some ((b, f, l), rest)" and "flag AND TOKEN_IMAP4_LITERAL = 0"
    and "CR \<notin> set buf" and "LF \<notin> set buf"
  shows "CR \<notin> set b \<and> LF \<notin> set b"
  using assms
proof (induction lim flag m buf lit qd s rule: tscan.induct)
  case (1 lim flag m buf lit qd s)
  note unf = "1.prems"(1) [unfolded tscan.simps [of lim flag m buf lit qd s]]
  show ?case
  proof (cases "loop_done lim buf lit")
    case nd: False
    with unf obtain c s' where s: "s = c # s'" by (cases s) auto
    show ?thesis
    proof (cases "scan_char flag m buf qd c")
      case (Scan_stop b' f')
      with unf nd s "1.prems"(2-4) show ?thesis by (auto simp: scan_char_def split: if_splits)
    next
      case (Scan_more b' q')
      with unf nd s have t: "tscan lim flag m b' (lit_add lim lit c) q' s' = Some ((b, f, l), rest)" by simp
      have "CR \<notin> set b'" "LF \<notin> set b'" using Scan_more "1.prems"(2-4) by (auto simp: scan_char_def split: if_splits)
      from "1.IH" [OF nd s Scan_more t "1.prems"(2) this] show ?thesis .
    qed
  qed (use unf "1.prems" in auto)
qed

text \<open>The tokens that can be read.\<close>

definition read_token :: "flag_t \<Rightarrow> token \<Rightarrow> bool" where
  "read_token flag t \<longleftrightarrow> wf_token t \<and> tok_n t \<le> MAX_LINE_LENGTH \<and>
     (flag AND TOKEN_IMAP4_LITERAL = 0 \<longrightarrow> CR \<notin> set (token_str t) \<and> LF \<notin> set (token_str t))"

lemma token_read_types:
  assumes "wf_buffer w" and "token_read i lim flag m w = (Some (t, l), w')" and "lim \<noteq> Some 0"
  shows "wf_buffer w' \<and> read_token flag t \<and>
    (\<exists>used. used \<noteq> [] \<and> avail i w = used @ avail i w' \<and> l = (if lim = None then [] else used))"
proof -
  obtain b f rest where s: "tscan lim flag m [] [] False (avail i w) = Some ((b, f, l), rest)" and t: "t = mk_token b f"
    and w': "avail i w' = rest" "wf_buffer w'"
    using token_read_tread [OF assms(1,2)] by (auto simp: tread_def split: option.splits)
  have "read_token flag t"
    using token_read_bounds [OF assms(1,2)] tscan_chars [OF s] unfolding t by (simp add: read_token_def)
  then show ?thesis using tscan_used [OF s] loop_done_init [OF assms(3)] w' by auto
qed

context token_queue
begin

lemma read_line_loop_types:
  assumes "read_line_loop Q i lim flag m q acc w = (Some (q', str), w')" and "wf_buffer w"
    and "case lim of None \<Rightarrow> acc = [] | Some n \<Rightarrow> length acc < n"
  shows "wf_buffer w' \<and> (\<exists>ts used. \<alpha> q' = \<alpha> q @ ts \<and> ts \<noteq> [] \<and> (\<forall>t \<in> set ts. read_token flag t) \<and>
     (\<forall>t \<in> set (butlast ts). \<not> token_is_eol t) \<and>
     (token_is_eol (last ts) \<or> flag AND TOKEN_IMAP4_LITERAL \<noteq> 0 \<or> lim = Some (length str)) \<and>
     used \<noteq> [] \<and> avail i w = used @ avail i w' \<and> str = (if lim = None then [] else acc @ used) \<and>
     (case lim of None \<Rightarrow> True | Some n \<Rightarrow> length str \<le> n))"
  using assms
proof (induction "pending i w" arbitrary: q acc w rule: less_induct)
  case less
  define l where "l = map_option (\<lambda>n. n - length acc) lim"
  obtain t lit w1 where r: "token_read i l flag m w = (Some (t, lit), w1)"
    and rest: "(if flag AND TOKEN_IMAP4_LITERAL = 0 \<and> \<not> token_is_eol t \<and>
             \<not> (case lim of None \<Rightarrow> False | Some n \<Rightarrow> length (acc @ lit) \<ge> n)
          then read_line_loop Q i lim flag m (qpush Q q t) (acc @ lit) w1
          else (Some (qpush Q q t, acc @ lit), w1)) = (Some (q', str), w')"
    using less.prems(1) by (subst (asm) read_line_loop.simps) (auto simp: Let_def l_def split: prod.splits option.splits)
  have l0: "l \<noteq> Some 0" using less.prems(3) by (auto simp: l_def split: option.splits)
  obtain used where t: "wf_buffer w1" "read_token flag t" "used \<noteq> []" "avail i w = used @ avail i w1"
    "lit = (if lim = None then [] else used)"
    using token_read_types [OF less.prems(2) r l0] by (auto simp: l_def)
  have len: "case lim of None \<Rightarrow> lit = [] | Some n \<Rightarrow> length (acc @ lit) \<le> n"
    using token_read_bounds [OF less.prems(2) r] less.prems(3) by (auto simp: l_def split: option.splits)
  show ?case
  proof (cases "flag AND TOKEN_IMAP4_LITERAL = 0 \<and> \<not> token_is_eol t \<and>
             \<not> (case lim of None \<Rightarrow> False | Some n \<Rightarrow> length (acc @ lit) \<ge> n)")
    case True
    then have go: "read_line_loop Q i lim flag m (qpush Q q t) (acc @ lit) w1 = (Some (q', str), w')" using rest by simp
    have "case lim of None \<Rightarrow> acc @ lit = [] | Some n \<Rightarrow> length (acc @ lit) < n"
      using True len less.prems(3) by (auto split: option.splits)
    from less.hyps [OF token_read_progress [OF r l0] go t(1) this] obtain ts used' where
      IH: "wf_buffer w'" "\<alpha> q' = \<alpha> q @ t # ts" "ts \<noteq> []" "\<forall>t \<in> set ts. read_token flag t"
      "\<forall>t \<in> set (butlast ts). \<not> token_is_eol t"
      "token_is_eol (last ts) \<or> flag AND TOKEN_IMAP4_LITERAL \<noteq> 0 \<or> lim = Some (length str)"
      "avail i w1 = used' @ avail i w'" "str = (if lim = None then [] else (acc @ lit) @ used')"
      "case lim of None \<Rightarrow> True | Some n \<Rightarrow> length str \<le> n"
      by (auto simp: push)
    have "\<alpha> q' = \<alpha> q @ (t # ts)" "t # ts \<noteq> []" "\<forall>t \<in> set (t # ts). read_token flag t"
      "\<forall>t \<in> set (butlast (t # ts)). \<not> token_is_eol t"
      "token_is_eol (last (t # ts)) \<or> flag AND TOKEN_IMAP4_LITERAL \<noteq> 0 \<or> lim = Some (length str)"
      "used @ used' \<noteq> []" "avail i w = (used @ used') @ avail i w'" "str = (if lim = None then [] else acc @ (used @ used'))"
      using IH t True by auto
    with IH(1,9) show ?thesis by blast
  next
    case False
    then have e: "q' = qpush Q q t" "str = acc @ lit" "w' = w1" using rest by auto
    have "token_is_eol t \<or> flag AND TOKEN_IMAP4_LITERAL \<noteq> 0 \<or> lim = Some (length str)"
      using False len e(2) by (auto split: option.splits)
    moreover have "str = (if lim = None then [] else acc @ used)" "case lim of None \<Rightarrow> True | Some n \<Rightarrow> length str \<le> n"
      using t(5) e(2) len less.prems(3) by (auto split: option.splits)
    ultimately show ?thesis
      using t e by (intro conjI exI [of _ "[t]"] exI [of _ used]) (auto simp: push)
  qed
qed

end


definition two_packets :: world where
  "two_packets = \<lparr>tbuf = [], toff = 0, tbytes = 0,
     ios = two_ios (io_create_fd 0 1 None [Rd_data ''US'', Rd_data (''ER bob'' @ CRLF @ ''PASS'')] []) (io_create_fd 2 3 None [] [])\<rparr>"

lemma two_packets_read:
  "(case read_line list_queue EU (Some 20) TOKEN_POP3 0 two_packets of
      (None, w) \<Rightarrow> None
    | (Some (q, str), w) \<Rightarrow> Some (map token_str q, str, tbuf w, toff w)) =
   Some ([''USER'', ''bob''], ''USER bob'' @ CRLF, ''ER bob'' @ CRLF @ ''PASS'', 8)"
  by code_simp


end
