(* ===== verification/Imap4_Tag.thy ===== *)
theory Imap4_Tag
  imports Token
begin

text \<open>
  The tags perdition puts in front of its own IMAP commands, \<^verbatim>\<open>perdition/imap4_tag.c\<close>: a counter
  of six digits to the base 62, incremented in place.
\<close>

definition IMAP_TAG_START :: string where "IMAP_TAG_START = ''flim07''"

definition imap4_tag_create :: token where
  "imap4_tag_create = token_assign token_create (Some IMAP_TAG_START) (length IMAP_TAG_START) TOKEN_NONE"

text \<open>The new character at a position, and whether the loop stops there (\<open>last\<close>).\<close>

definition tag_char_inc :: "char \<Rightarrow> char \<times> bool" where
  "tag_char_inc c =
     (if c_isdigit c then (if c = CHR ''9'' then CHR ''a'' else c_succ c, True)
      else if c_islower c then (if c = CHR ''z'' then CHR ''A'' else c_succ c, True)
      else if c_isupper c \<and> c \<noteq> CHR ''Z'' then (c_succ c, True)
      else (CHR ''0'', False))"

text \<open>The loop, from the position below \<open>len\<close> downwards.\<close>

fun tag_inc_loop :: "string \<Rightarrow> nat \<Rightarrow> string" where
  "tag_inc_loop buf 0 = buf"
| "tag_inc_loop buf (Suc len) =
     (case tag_char_inc (buf ! len) of
        (c, stop) \<Rightarrow> if stop then buf[len := c] else tag_inc_loop (buf[len := c]) len)"

definition imap4_tag_inc :: "token \<Rightarrow> token" where
  "imap4_tag_inc tag =
     tag\<lparr>tok_buf := map_option (\<lambda>buf. tag_inc_loop buf (tok_n tag)) (tok_buf tag)\<rparr>"

subsection \<open>The counter\<close>

text \<open>Digits in the order 0-9, a-z, A-Z; the most significant digit comes first.\<close>

definition tag_digit :: "char \<Rightarrow> nat" where
  "tag_digit c =
     (if c_isdigit c then ascii c - 48 else if c_islower c then ascii c - 97 + 10
      else ascii c - 65 + 36)"

definition tag_alpha :: "char \<Rightarrow> bool" where
  "tag_alpha c \<longleftrightarrow> c_isdigit c \<or> c_islower c \<or> c_isupper c"

definition tag_value :: "string \<Rightarrow> nat" where
  "tag_value s = foldl (\<lambda>n c. 62 * n + tag_digit c) 0 s"

definition wf_tag :: "string \<Rightarrow> bool" where
  "wf_tag s \<longleftrightarrow> (\<forall>c \<in> set s. tag_alpha c)"

lemma tag_value_simps [simp]:
  "tag_value [] = 0" "tag_value (s @ [c]) = 62 * tag_value s + tag_digit c"
  by (simp_all add: tag_value_def)

lemma tag_value_append: "tag_value (s @ t) = tag_value s * 62 ^ length t + tag_value t"
  by (induction t rule: rev_induct) (simp_all add: algebra_simps flip: append_assoc)

lemma ascii_eq_iff: "c = CHR ''9'' \<longleftrightarrow> ascii c = 57" "c = CHR ''z'' \<longleftrightarrow> ascii c = 122"
  "c = CHR ''Z'' \<longleftrightarrow> ascii c = 90" "c = CHR ''0'' \<longleftrightarrow> ascii c = 48"
  by (simp_all add: ascii_def flip: ascii_inject)

lemma ascii_digits [simp]: "ascii CHR ''0'' = 48" "ascii CHR ''a'' = 97" "ascii CHR ''A'' = 65"
  by (simp_all add: ascii_def)

lemma tag_digit_less: "tag_alpha c \<Longrightarrow> tag_digit c < 62"
  by (auto simp: tag_alpha_def tag_digit_def c_isdigit_def c_islower_def c_isupper_def)

lemma tag_char_inc:
  assumes "tag_alpha c" and "tag_char_inc c = (d, stop)"
  shows "tag_alpha d"
    and "if stop then tag_digit d = Suc (tag_digit c) else tag_digit c = 61 \<and> tag_digit d = 0"
  using assms
  by (auto simp: tag_alpha_def tag_digit_def tag_char_inc_def c_isdigit_def c_islower_def
      c_isupper_def c_succ_def ascii_eq_iff split: if_splits)

lemma tag_value_bound: "wf_tag s \<Longrightarrow> tag_value s < 62 ^ length s"
proof (induction s rule: rev_induct)
  case (snoc x s)
  then have "tag_value s < 62 ^ length s" "tag_digit x < 62"
    by (auto simp: wf_tag_def tag_digit_less)
  then have "62 * tag_value s + tag_digit x < 62 * (tag_value s + 1)"
    and "62 * (tag_value s + 1) \<le> 62 * 62 ^ length s" by (auto simp: Suc_le_eq)
  then show ?case by simp
qed simp

lemma tag_inc_loop_append: "length s = n \<Longrightarrow> tag_inc_loop (s @ t) n = tag_inc_loop s n @ t"
proof (induction n arbitrary: s t)
  case (Suc n)
  then obtain s' c where s: "s = s' @ [c]" "length s' = n" by (metis length_Suc_conv_rev)
  obtain d l where d: "tag_char_inc c = (d, l)" by fastforce
  from s d Suc.IH [of s' "d # t"] Suc.IH [of s' "[d]"] show ?case
    by (auto simp: nth_append list_update_append)
qed simp

lemma tag_inc_loop_spec:
  assumes "wf_tag s"
  shows "wf_tag (tag_inc_loop s (length s)) \<and> length (tag_inc_loop s (length s)) = length s \<and>
    tag_value (tag_inc_loop s (length s)) = (tag_value s + 1) mod 62 ^ length s"
  using assms
proof (induction s rule: rev_induct)
  case (snoc c s)
  obtain d l where d: "tag_char_inc c = (d, l)" by fastforce
  have c: "tag_alpha c" "wf_tag s" using snoc.prems by (auto simp: wf_tag_def)
  have d': "tag_alpha d" "if l then tag_digit d = Suc (tag_digit c) else tag_digit c = 61 \<and> tag_digit d = 0"
    using tag_char_inc [OF c(1) d] .
  have b: "tag_value s < 62 ^ length s" using c(2) by (rule tag_value_bound)
  have e: "tag_inc_loop (s @ [c]) (length (s @ [c])) =
      (if l then s @ [d] else tag_inc_loop s (length s) @ [d])"
    using d tag_inc_loop_append [of s "length s" "[d]"] by auto
  show ?case
  proof (cases l)
    case True
    with d' tag_digit_less [of d] b have "62 * tag_value s + tag_digit d < 62 * 62 ^ length s" by simp
    with True d' e c show ?thesis by (auto simp: wf_tag_def)
  next
    case False
    have "62 * ((tag_value s + 1) mod 62 ^ length s) = (62 * (tag_value s + 1)) mod (62 * 62 ^ length s)"
      by (simp add: mult_mod_right)
    with False d' e snoc.IH [OF c(2)] show ?thesis by (auto simp: wf_tag_def)
  qed
qed (simp add: wf_tag_def)

lemma tag_inc_step:
  assumes "wf_token t" and "wf_tag (token_str t)"
  shows "wf_token (imap4_tag_inc t)" "wf_tag (token_str (imap4_tag_inc t))"
    "tok_n (imap4_tag_inc t) = tok_n t"
    "tag_value (token_str (imap4_tag_inc t)) = (tag_value (token_str t) + 1) mod 62 ^ tok_n t"
  using assms tag_inc_loop_spec [of "token_str t"]
  by (auto simp: imap4_tag_inc_def wf_token_def token_str_def split: option.splits)

text \<open>After \<open>n\<close> increments.\<close>

lemma tag_inc_funpow:
  assumes "wf_token t" and "wf_tag (token_str t)"
  shows "wf_token ((imap4_tag_inc ^^ n) t) \<and> wf_tag (token_str ((imap4_tag_inc ^^ n) t)) \<and>
    tok_n ((imap4_tag_inc ^^ n) t) = tok_n t \<and>
    tag_value (token_str ((imap4_tag_inc ^^ n) t)) = (tag_value (token_str t) + n) mod 62 ^ tok_n t"
proof (induction n)
  case 0
  with assms tag_value_bound [of "token_str t"] show ?case by (auto simp: wf_token_def)
next
  case (Suc n)
  with tag_inc_step [of "(imap4_tag_inc ^^ n) t"] show ?case by (simp add: mod_simps)
qed

lemma wf_tag_create: "wf_token imap4_tag_create" "wf_tag (token_str imap4_tag_create)"
  "tok_n imap4_tag_create = 6" "token_str imap4_tag_create = ''flim07''"
  by (simp_all add: imap4_tag_create_def token_assign_def token_create_def token_str_def wf_token_def
      IMAP_TAG_START_def wf_tag_def tag_alpha_def c_isdigit_def c_islower_def ascii_def)

lemma tag_bytes: "wf_tag s \<Longrightarrow> c \<in> set s \<Longrightarrow> c \<noteq> SP \<and> c \<noteq> CR \<and> c \<noteq> LF \<and> c \<noteq> NUL \<and> c \<noteq> DQ"
  by (auto simp: wf_tag_def tag_alpha_def c_isdigit_def c_islower_def c_isupper_def ascii_def)

subsection \<open>Tags do not repeat\<close>

text \<open>
  C12. The tags of two commands of a connection differ, as long as fewer than 62^6 commands lie between
  them; every tag keeps the six alphanumeric characters of the first one, so it never contains a
  separator of the protocol.
\<close>

theorem imap4_tags_distinct:
  fixes n m :: nat
  assumes "n < m" and "m - n < 62 ^ 6"
  shows "token_str ((imap4_tag_inc ^^ n) imap4_tag_create) \<noteq> token_str ((imap4_tag_inc ^^ m) imap4_tag_create) \<and>
    length (token_str ((imap4_tag_inc ^^ n) imap4_tag_create)) = 6 \<and>
    (\<forall>c \<in> set (token_str ((imap4_tag_inc ^^ n) imap4_tag_create)). c_isdigit c \<or> c_islower c \<or> c_isupper c)"
proof -
  note f = tag_inc_funpow [OF wf_tag_create(1,2)]
  let ?v = "tag_value (token_str imap4_tag_create)"
  have "(?v + n) mod 62 ^ 6 \<noteq> (?v + m) mod 62 ^ 6"
  proof
    assume "(?v + n) mod 62 ^ 6 = (?v + m) mod 62 ^ 6"
    then have "62 ^ 6 dvd (?v + m) - (?v + n)" using assms(1) by (metis add_le_cancel_left less_imp_le mod_eq_dvd_iff_nat)
    then have "62 ^ 6 dvd m - n" by simp
    with assms show False by (auto dest: dvd_imp_le)
  qed
  with f [of n] f [of m] show ?thesis
    by (auto simp: wf_tag_create wf_token_def wf_tag_def tag_alpha_def)
qed

lemma imap4_tags_distinct_witness:
  "(0::nat) < 1 \<and> 1 - 0 < (62::nat) ^ 6 \<and>
   token_str imap4_tag_create \<noteq> token_str (imap4_tag_inc imap4_tag_create)"
  using imap4_tags_distinct [of 0 1] by simp

end
