(* ===== verification/Server_Port.thy ===== *)
theory Server_Port
  imports Str
begin

text \<open>
  The result of a server lookup, \<^verbatim>\<open>perdition/server_port.c\<close>: user, server and port, parsed from
  \<open>[user delimiter] server [: port]\<close>, where the server may be an IPv6 literal in brackets.
  The domain delimiter, which the C code reads from the global \<open>opt\<close>, is the argument \<open>dd\<close>.
\<close>

abbreviation SERVER_PORT_DELIMITER :: char where "SERVER_PORT_DELIMITER \<equiv> CHR '':''"
abbreviation IPV6_LITERAL_RIGHT_DELIMITER :: char where "IPV6_LITERAL_RIGHT_DELIMITER \<equiv> CHR '']''"
abbreviation IPV6_LITERAL_LEFT_DELIMITER :: char where "IPV6_LITERAL_LEFT_DELIMITER \<equiv> CHR ''[''"

record user_server_port =
  usp_user :: "string option"
  usp_server :: "string option"
  usp_port :: "string option"

definition user_server_port_create :: user_server_port where
  "user_server_port_create = \<lparr>usp_user = None, usp_server = None, usp_port = None\<rparr>"

definition user_server_port_assign ::
    "user_server_port option \<Rightarrow> string option \<Rightarrow> string option \<Rightarrow> string option \<Rightarrow> user_server_port" where
  "user_server_port_assign usp user server port =
     (case usp of None \<Rightarrow> user_server_port_create | Some u \<Rightarrow> u)
       \<lparr>usp_user := user, usp_server := server, usp_port := port\<rparr>"

definition user_server_port_unassign :: "user_server_port \<Rightarrow> user_server_port" where
  "user_server_port_unassign usp = user_server_port_create"

subsection \<open>Parsing\<close>

text \<open>
  The macro \<open>FIX_IPV6_LITERAL\<close> strips the brackets of a server. The C code writes through the
  result of \<open>strchr\<close> without a check: \<open>None\<close> if there is no right bracket.
\<close>

definition fix_ipv6_literal :: "string \<Rightarrow> string option" where
  "fix_ipv6_literal s =
     (if char_at s 0 \<noteq> IPV6_LITERAL_LEFT_DELIMITER then Some s
      else map_option (\<lambda>l. take (l - 1) (drop 1 s)) (strchr s IPV6_LITERAL_RIGHT_DELIMITER))"

text \<open>
  The search for the port: the index of its delimiter, and whether the string holds an IPv6
  literal. At least \<open>[::]\<close>, so the brackets are more than two apart.
\<close>

definition usp_find_port :: "string \<Rightarrow> nat option \<times> bool" where
  "usp_find_port s =
     (case (strrchr s IPV6_LITERAL_RIGHT_DELIMITER, strchr s IPV6_LITERAL_LEFT_DELIMITER) of
        (Some r, Some l) \<Rightarrow>
          if int r - int l > 2
          then (if char_at s (r + 1) \<noteq> SERVER_PORT_DELIMITER then None else Some (r + 1), True)
          else (strrchr s SERVER_PORT_DELIMITER, False)
      | _ \<Rightarrow> (strrchr s SERVER_PORT_DELIMITER, False))"

definition user_server_port_strn_assign ::
    "string \<Rightarrow> user_server_port option \<Rightarrow> string \<Rightarrow> nat \<Rightarrow> user_server_port option" where
  "user_server_port_strn_assign dd usp str str_len =
     (let usp0 = (case usp of None \<Rightarrow> user_server_port_create | Some u \<Rightarrow> user_server_port_unassign u);
          s = cstr (take str_len str);
          (p, ipv6_literal) = usp_find_port s;
          port = map_option (\<lambda>i. drop (i + 1) s) p;
          s' = (case p of None \<Rightarrow> s | Some i \<Rightarrow> take i s);
          fix6 = (\<lambda>v. if ipv6_literal then fix_ipv6_literal v else Some v)
      in case strrstr s' dd of
           Some i \<Rightarrow>
             do { server \<leftarrow> fix6 (drop (i + length dd) s');
                  Some (usp0\<lparr>usp_user := Some (take i s'), usp_server := Some server, usp_port := port\<rparr>) }
         | None \<Rightarrow>
             do { server \<leftarrow> fix6 s';
                  Some (usp0\<lparr>usp_user := None, usp_server := Some server, usp_port := port\<rparr>) })"

definition user_server_port_str_assign ::
    "string \<Rightarrow> user_server_port option \<Rightarrow> string \<Rightarrow> user_server_port option" where
  "user_server_port_str_assign dd usp str = user_server_port_strn_assign dd usp str (length str)"

subsection \<open>Access, rendering and copying\<close>

definition user_server_port_get_port :: "user_server_port \<Rightarrow> string option" where
  "user_server_port_get_port usp = usp_port usp"

definition user_server_port_get_server :: "user_server_port \<Rightarrow> string option" where
  "user_server_port_get_server usp = usp_server usp"

definition user_server_port_get_user :: "user_server_port \<Rightarrow> string option" where
  "user_server_port_get_user usp = usp_user usp"

text \<open>Rendering; appending a server of NULL is undefined.\<close>

definition user_server_port_display :: "string \<Rightarrow> user_server_port \<Rightarrow> string option" where
  "user_server_port_display dd usp =
     do { server \<leftarrow> usp_server usp;
          Some ((case usp_user usp of None \<Rightarrow> [] | Some u \<Rightarrow> u @ dd) @ server @
                (case usp_port usp of None \<Rightarrow> [] | Some p \<Rightarrow> SERVER_PORT_DELIMITER # p)) }"

definition user_server_port_length :: "string \<Rightarrow> user_server_port option \<Rightarrow> nat" where
  "user_server_port_length dd src =
     (case src of
        None \<Rightarrow> 0
      | Some u \<Rightarrow>
          (case usp_user u of None \<Rightarrow> 0 | Some s \<Rightarrow> length s + length dd) +
          (case usp_server u of None \<Rightarrow> 0 | Some s \<Rightarrow> length s) +
          (case usp_port u of None \<Rightarrow> 0 | Some s \<Rightarrow> length s + 1))"

definition user_server_port_dup :: "user_server_port option \<Rightarrow> user_server_port option" where
  "user_server_port_dup src =
     (case src of
        None \<Rightarrow> None
      | Some u \<Rightarrow>
          Some (user_server_port_create
            \<lparr>usp_user := usp_user u, usp_server := usp_server u, usp_port := usp_port u\<rparr>))"

lemma user_server_port_display_length:
  "user_server_port_display dd usp = Some s \<Longrightarrow> length s = user_server_port_length dd (Some usp)"
  by (auto simp: user_server_port_display_def user_server_port_length_def bind_eq_Some_conv
      split: option.splits)

lemma user_server_port_dup_id: "user_server_port_dup (Some u) = Some u"
  by (simp add: user_server_port_dup_def user_server_port_create_def)

subsection \<open>What the parser recognises\<close>

text \<open>A host that no occurrence of the delimiter overlaps.\<close>

definition delim_free :: "string \<Rightarrow> string \<Rightarrow> bool" where
  "delim_free dd s \<longleftrightarrow> (\<forall>i. 0 < i \<longrightarrow> \<not> prefix dd (drop i (dd @ s)))"

text \<open>\<open>[user delimiter]\<close> in front of a server.\<close>

definition user_part :: "string \<Rightarrow> string option \<Rightarrow> string" where
  "user_part dd u = (case u of None \<Rightarrow> [] | Some v \<Rightarrow> v @ dd)"

lemma strrstr_user_part:
  assumes "dd \<noteq> []" and "delim_free dd s"
  shows "strrstr (user_part dd u @ s) dd = map_option length u"
proof (cases u)
  case None
  have "\<not> prefix dd (drop i s)" for i
    using assms by (auto simp: delim_free_def dest: spec [of _ "i + length dd"])
  with None assms(1) show ?thesis by (simp add: user_part_def strrstr_None_iff)
next
  case (Some v)
  have "\<not> prefix dd (drop j (v @ dd @ s))" if "j > length v" for j
    using assms(2) that by (auto simp: delim_free_def dest!: spec [of _ "j - length v"])
  with Some assms(1) show ?thesis by (simp add: user_part_def strrstr_last_occurrence)
qed

lemma delim_free_char: "d \<notin> set s \<Longrightarrow> delim_free [d] s"
  by (auto simp: delim_free_def prefix_single_drop nth_Cons split: nat.splits)

lemma strn_assign_parts:
  assumes "no_nul t" and "usp_find_port t = (p, v6)"
    and "(case p of None \<Rightarrow> t | Some i \<Rightarrow> take i t) = user_part dd u @ h"
    and "dd \<noteq> []" and "delim_free dd h" and "(if v6 then fix_ipv6_literal h else Some h) = Some s"
  shows "user_server_port_str_assign dd usp t =
     Some \<lparr>usp_user = u, usp_server = Some s, usp_port = map_option (\<lambda>i. drop (i + 1) t) p\<rparr>"
  using assms strrstr_user_part [OF assms(4,5), of u]
  by (cases u; cases usp; cases v6)
    (simp_all add: Let_def user_server_port_str_assign_def user_server_port_strn_assign_def
      user_server_port_create_def user_server_port_unassign_def user_part_def)

lemma usp_find_port_plain:
  "CHR '']'' \<notin> set t \<Longrightarrow> usp_find_port t = (strrchr t SERVER_PORT_DELIMITER, False)"
  by (simp add: usp_find_port_def strrchr_None [THEN iffD2])

text \<open>Without a right bracket, the port is what follows the last colon.\<close>

lemma strn_assign_plain:
  assumes "dd \<noteq> []" and "delim_free dd s"
    and "no_nul (user_part dd u @ s)" and "\<forall>p. port = Some p \<longrightarrow> no_nul p \<and> CHR '':'' \<notin> set p \<and> CHR '']'' \<notin> set p"
    and "CHR '']'' \<notin> set (user_part dd u @ s)"
    and "port = None \<longrightarrow> CHR '':'' \<notin> set (user_part dd u @ s)"
  shows "user_server_port_str_assign dd usp
       (user_part dd u @ s @ (case port of None \<Rightarrow> [] | Some p \<Rightarrow> CHR '':'' # p)) =
     Some \<lparr>usp_user = u, usp_server = Some s, usp_port = port\<rparr>"
proof -
  let ?t = "user_part dd u @ s @ (case port of None \<Rightarrow> [] | Some p \<Rightarrow> CHR '':'' # p)"
  have nn: "no_nul ?t" using assms(3,4) by (auto split: option.splits)
  have "CHR '']'' \<notin> set ?t" using assms(4,5) by (auto split: option.splits)
  note fp = usp_find_port_plain [OF this]
  have c: "strrchr ?t CHR '':'' = map_option (\<lambda>_. length (user_part dd u @ s)) port"
  proof (cases port)
    case None
    with assms(6) show ?thesis by auto
  next
    case (Some p)
    with assms(4) strrchr_append_notin [of "CHR '':''" p "user_part dd u @ s"] show ?thesis by simp
  qed
  have s': "(case strrchr ?t CHR '':'' of None \<Rightarrow> ?t | Some i \<Rightarrow> take i ?t) = user_part dd u @ s"
    unfolding c by (cases port) simp_all
  have d: "map_option (\<lambda>i. drop (i + 1) ?t) (strrchr ?t CHR '':'') = port"
    unfolding c by (cases port) simp_all
  from strn_assign_parts [OF nn fp s' assms(1,2), of s usp] d show ?thesis by simp
qed

text \<open>An IPv6 literal in brackets; the part before it holds no bracket.\<close>

lemma strn_assign_ipv6:
  assumes "dd \<noteq> []" and "delim_free dd (CHR ''['' # s @ '']'')"
    and "no_nul (user_part dd u @ s)" and "\<forall>p. port = Some p \<longrightarrow> no_nul p \<and> CHR '']'' \<notin> set p"
    and "CHR '']'' \<notin> set s" and "length s \<ge> 2"
    and "CHR ''['' \<notin> set (user_part dd u)"
  shows "user_server_port_str_assign dd usp
       (user_part dd u @ ''['' @ s @ '']'' @ (case port of None \<Rightarrow> [] | Some p \<Rightarrow> CHR '':'' # p)) =
     Some \<lparr>usp_user = u, usp_server = Some s, usp_port = port\<rparr>"
proof -
  let ?h = "CHR ''['' # s @ '']''" and ?p = "case port of None \<Rightarrow> [] | Some p \<Rightarrow> CHR '':'' # p"
  let ?t = "user_part dd u @ ?h @ ?p"
  let ?r = "length (user_part dd u @ CHR ''['' # s)"
  have nn: "no_nul ?t" using assms(3,4) by (auto split: option.splits)
  have "CHR '']'' \<notin> set ?p" using assms(4) by (auto split: option.splits)
  then have r: "strrchr ?t CHR '']'' = Some ?r"
    using strrchr_append_notin [of "CHR '']''" ?p "user_part dd u @ CHR ''['' # s"] by simp
  have l: "strchr ?t CHR ''['' = Some (length (user_part dd u))"
    using strchr_append_notin [OF assms(7), of "s @ '']'' @ ?p"] by simp
  have at: "char_at ?t (?r + 1) = (case port of None \<Rightarrow> NUL | Some _ \<Rightarrow> CHR '':'')"
    by (auto simp: char_at_def nth_append split: option.splits)
  have fp: "usp_find_port ?t = (map_option (\<lambda>_. ?r + 1) port, True)"
    using r l at assms(6) unfolding usp_find_port_def by (auto split: option.splits)
  have f6: "fix_ipv6_literal ?h = Some s"
    using strchr_append_notin [of "CHR '']''" "CHR ''['' # s" "[]"] assms(5)
    by (simp add: fix_ipv6_literal_def char_at_def)
  have s': "(case map_option (\<lambda>_. ?r + 1) port of None \<Rightarrow> ?t | Some i \<Rightarrow> take i ?t) = user_part dd u @ ?h"
    by (simp split: option.splits)
  have d: "map_option (\<lambda>i. drop (i + 1) ?t) (map_option (\<lambda>_. ?r + 1) port) = port"
    by (cases port) (simp_all add: eval_nat_numeral)
  show ?thesis
    using strn_assign_parts [OF nn fp s' assms(1,2), of s] f6 d by simp
qed

subsection \<open>Round trip\<close>

text \<open>A lookup result that can be told apart from its parts: no bracket, no colon but the separator.\<close>

definition usp_plain :: "string \<Rightarrow> user_server_port \<Rightarrow> bool" where
  "usp_plain dd v \<longleftrightarrow>
     dd \<noteq> [] \<and> no_nul dd \<and> CHR '']'' \<notin> set dd \<and>
     (\<exists>s. usp_server v = Some s \<and> delim_free dd s \<and> no_nul s \<and> CHR '']'' \<notin> set s \<and>
        (usp_port v = None \<longrightarrow> CHR '':'' \<notin> set s)) \<and>
     (\<forall>u. usp_user v = Some u \<longrightarrow> no_nul u \<and> CHR '']'' \<notin> set u \<and>
        (usp_port v = None \<longrightarrow> CHR '':'' \<notin> set u \<union> set dd)) \<and>
     (\<forall>p. usp_port v = Some p \<longrightarrow> no_nul p \<and> CHR '':'' \<notin> set p \<and> CHR '']'' \<notin> set p)"

text \<open>
  C11. A lookup result whose parts hold no bracket, no colon in the wrong place and no further domain
  delimiter is rendered to a string that is parsed back to the same user, server and port, and the
  length computed for the buffer is the length of that string.
\<close>

theorem user_server_port_roundtrip:
  assumes "usp_plain dd v"
  shows "\<exists>str. user_server_port_display dd v = Some str \<and>
    length str = user_server_port_length dd (Some v) \<and>
    user_server_port_str_assign dd usp str = user_server_port_dup (Some v)"
proof -
  obtain u s p where v: "v = \<lparr>usp_user = u, usp_server = Some s, usp_port = p\<rparr>"
    using assms by (cases v) (auto simp: usp_plain_def)
  have "user_server_port_str_assign dd usp
       (user_part dd u @ s @ (case p of None \<Rightarrow> [] | Some q \<Rightarrow> CHR '':'' # q)) = Some v"
    unfolding v by (rule strn_assign_plain)
      (use assms v in \<open>auto simp: usp_plain_def user_part_def split: option.splits\<close>)
  moreover have "user_server_port_display dd v =
      Some (user_part dd u @ s @ (case p of None \<Rightarrow> [] | Some q \<Rightarrow> CHR '':'' # q))"
    by (simp add: v user_server_port_display_def user_part_def split: option.splits)
  ultimately show ?thesis
    using user_server_port_display_length by (fastforce simp: user_server_port_dup_id)
qed

lemma user_server_port_roundtrip_witness:
  "user_server_port_str_assign ''@'' None ''joe@mail.example:143'' =
     Some \<lparr>usp_user = Some ''joe'', usp_server = Some ''mail.example'', usp_port = Some ''143''\<rparr>"
proof -
  let ?v = "\<lparr>usp_user = Some ''joe'', usp_server = Some ''mail.example'', usp_port = Some ''143''\<rparr>"
  have "usp_plain ''@'' ?v"
    by (simp add: usp_plain_def delim_free_char no_nul_def)
  from user_server_port_roundtrip [OF this, of None] show ?thesis
    by (simp add: user_server_port_display_def user_server_port_dup_def user_server_port_create_def)
qed

text \<open>
  A server given as an IPv6 literal in brackets, with or without a user before and a port behind
  it, is stored without the brackets, and its colons are not taken for the one before the port.
\<close>

lemma user_server_port_ipv6_literal:
  assumes "d \<notin> set (CHR ''['' # addr @ '']'')" and "length addr \<ge> 2"
    and "no_nul (d # addr @ port)" and "CHR '']'' \<notin> set (addr @ port)"
    and "\<forall>v. user = Some v \<longrightarrow> no_nul v \<and> CHR ''['' \<notin> set v"
  shows "user_server_port_str_assign [d] usp (user_part [d] user @ ''['' @ addr @ '']'' @ '':'' @ port) =
      Some \<lparr>usp_user = user, usp_server = Some addr, usp_port = Some port\<rparr> \<and>
    user_server_port_str_assign [d] usp (user_part [d] user @ ''['' @ addr @ '']'') =
      Some \<lparr>usp_user = user, usp_server = Some addr, usp_port = None\<rparr>"
  using strn_assign_ipv6 [of "[d]" addr user "Some port" usp]
    strn_assign_ipv6 [of "[d]" addr user None usp] delim_free_char [OF assms(1)] assms
  by (cases user) (auto simp: user_part_def)

lemma user_server_port_ipv6_literal_witness:
  "user_server_port_str_assign ''@'' None ''joe@[2001:db8::1]:143'' =
     Some \<lparr>usp_user = Some ''joe'', usp_server = Some ''2001:db8::1'', usp_port = Some ''143''\<rparr>"
  using user_server_port_ipv6_literal [of "CHR ''@''" "''2001:db8::1''" "''143''" "Some ''joe''" None]
  by (simp add: user_part_def no_nul_def)

end
