(* ===== verification/Protocol.thy ===== *)
theory Protocol
  imports Str
begin

text \<open>
  The table of protocols and the editing of capability strings, \<^verbatim>\<open>perdition/protocol.c\<close>, for a
  build with SSL support; and \<open>atoi\<close>, which the tables and the options use.
\<close>

subsection \<open>Conversion of numbers\<close>

definition c_isspace :: "char \<Rightarrow> bool" where
  "c_isspace c \<longleftrightarrow> c = SP \<or> (9 \<le> ascii c \<and> ascii c \<le> 13)"

fun digits_value :: "int \<Rightarrow> string \<Rightarrow> int" where
  "digits_value n [] = n"
| "digits_value n (c # cs) = (if c_isdigit c then digits_value (10 * n + int (ascii c) - 48) cs else n)"

text \<open>\<open>atoi\<close> has no defined result if the number does not fit an \<open>int\<close>.\<close>

definition c_atoi :: "string \<Rightarrow> int option" where
  "c_atoi s =
     (let t = dropWhile c_isspace s;
          v = (if char_at t 0 = CHR ''-'' then - digits_value 0 (drop 1 t)
               else if char_at t 0 = CHR ''+'' then digits_value 0 (drop 1 t)
               else digits_value 0 t)
      in if - (2 ^ 31) \<le> v \<and> v < 2 ^ 31 then Some v else None)"

subsection \<open>Protocols\<close>

definition PROTOCOL_POP3 :: int where "PROTOCOL_POP3 = 1"
definition PROTOCOL_IMAP4 :: int where "PROTOCOL_IMAP4 = 2"
definition PROTOCOL_POP3S :: int where "PROTOCOL_POP3S = 3"
definition PROTOCOL_IMAP4S :: int where "PROTOCOL_IMAP4S = 4"
definition PROTOCOL_MANAGESIEVE :: int where "PROTOCOL_MANAGESIEVE = 5"
definition PROTOCOL_DEFAULT :: int where "PROTOCOL_DEFAULT = PROTOCOL_POP3"
definition PROTOCOL_ALL :: int where "PROTOCOL_ALL = 0"

lemmas protocol_ids = PROTOCOL_POP3_def PROTOCOL_IMAP4_def PROTOCOL_POP3S_def PROTOCOL_IMAP4S_def
  PROTOCOL_MANAGESIEVE_def PROTOCOL_DEFAULT_def PROTOCOL_ALL_def

definition PROTOCOL_S_OK :: int where "PROTOCOL_S_OK = 1"
definition PROTOCOL_S_STARTTLS :: int where "PROTOCOL_S_STARTTLS = 2"
definition PROTOCOL_S_LOGINDISABLED :: int where "PROTOCOL_S_LOGINDISABLED = 4"
definition PROTOCOL_S_SASL_PLAIN :: int where "PROTOCOL_S_SASL_PLAIN = 8"
definition PROTOCOL_S_SASL_MASK :: int where "PROTOCOL_S_SASL_MASK = PROTOCOL_S_SASL_PLAIN"

lemmas protocol_status_defs = PROTOCOL_S_OK_def PROTOCOL_S_STARTTLS_def PROTOCOL_S_LOGINDISABLED_def
  PROTOCOL_S_SASL_PLAIN_def PROTOCOL_S_SASL_MASK_def

definition PROTOCOL_C_ADD :: flag_t where "PROTOCOL_C_ADD = 1"
definition PROTOCOL_C_DEL :: flag_t where "PROTOCOL_C_DEL = 2"

text \<open>Element 0 is the number of protocols, in ASCII.\<close>

definition protocol_known :: "string list" where
  "protocol_known = [''5'', ''POP3'', ''IMAP4'', ''POP3S'', ''IMAP4S'', ''MANAGESIEVE'']"

fun protocol_index_loop :: "string \<Rightarrow> nat \<Rightarrow> int" where
  "protocol_index_loop s 0 = -1"
| "protocol_index_loop s (Suc i) =
     (if strcaseeq s (protocol_known ! Suc i) then int (Suc i) else protocol_index_loop s i)"

definition protocol_index :: "string \<Rightarrow> int option" where
  "protocol_index s = map_option (\<lambda>n. protocol_index_loop s (nat n)) (c_atoi (protocol_known ! 0))"

text \<open>
  The loop of \<open>protocol_list\<close>: \<open>str\<close> has been written and \<open>len\<close> bytes of the buffer are left.
  \<open>snprintf\<close> returns the full length of its output; a longer output than the space left would
  make \<open>len\<close> wrap (\<open>None\<close>).
\<close>

definition snprintf_s :: "string \<Rightarrow> nat \<Rightarrow> string \<Rightarrow> (string \<times> nat) option" where
  "snprintf_s str len s = (if length s \<le> len then Some (str @ take (len - 1) s, len - length s) else None)"

function protocol_list_loop :: "string \<Rightarrow> nat \<Rightarrow> nat \<Rightarrow> string \<Rightarrow> nat \<Rightarrow> string option" where
  "protocol_list_loop delim noknown i str len =
     (if i \<le> noknown \<and> len > 0
      then do { (str1, len1) \<leftarrow> snprintf_s str len (protocol_known ! i);
                (str2, len2) \<leftarrow> (if i < noknown \<and> len1 > 0 then snprintf_s str1 len1 delim
                               else Some (str1, len1));
                protocol_list_loop delim noknown (i + 1) str2 len2 }
      else Some str)"
  by pat_completeness auto
termination by (relation "measure (\<lambda>(d, n, i, s, l). Suc n - i)") auto

definition protocol_list :: "string \<Rightarrow> int \<Rightarrow> string option option" where
  "protocol_list delimiter request =
     do { noknown \<leftarrow> c_atoi (protocol_known ! 0);
          if (request < 1 \<or> request > noknown) \<and> request \<noteq> PROTOCOL_ALL then Some None
          else if request \<noteq> PROTOCOL_ALL then Some (Some (protocol_known ! nat request))
          else let len = 1 + length delimiter * (nat noknown - 1) +
                         sum_list (map (\<lambda>i. length (protocol_known ! i)) (rev [1..<nat noknown + 1]))
               in map_option Some (protocol_list_loop delimiter (nat noknown) 1 [] len) }"

definition protocol_capability :: "flag_t \<Rightarrow> string \<Rightarrow> string \<Rightarrow> string \<Rightarrow> string option" where
  "protocol_capability mode existing_capability add_capability capability_delimiter =
     (if mode AND PROTOCOL_C_ADD \<noteq> 0
      then str_append_substring_if_missing existing_capability add_capability capability_delimiter
      else str_delete_substring existing_capability add_capability capability_delimiter)"

subsection \<open>Properties\<close>

lemma atoi_5 [simp]: "c_atoi ''5'' = Some 5"
  by (simp add: c_atoi_def Let_def char_at_def c_isspace_def c_isdigit_def ascii_def)

lemma protocol_known_simps [simp]:
  "protocol_known ! 0 = ''5''" "protocol_known ! Suc 0 = ''POP3''" "protocol_known ! 2 = ''IMAP4''"
  "protocol_known ! 3 = ''POP3S''" "protocol_known ! 4 = ''IMAP4S''"
  "protocol_known ! 5 = ''MANAGESIEVE''"
  by (simp_all add: protocol_known_def)

lemma protocol_index_eq:
  "protocol_index s = Some
     (if strcaseeq s ''MANAGESIEVE'' then 5 else if strcaseeq s ''IMAP4S'' then 4
      else if strcaseeq s ''POP3S'' then 3 else if strcaseeq s ''IMAP4'' then 2
      else if strcaseeq s ''POP3'' then 1 else -1)"
  by (simp add: protocol_index_def eval_nat_numeral)
    (simp add: protocol_known_def)

lemma protocol_list_one:
  "1 \<le> r \<Longrightarrow> r \<le> 5 \<Longrightarrow> protocol_list d r = Some (Some (protocol_known ! nat r))"
  by (simp add: protocol_list_def protocol_ids)

lemma protocol_list_none:
  "r < 0 \<or> 5 < r \<Longrightarrow> protocol_list d r = Some None"
  by (auto simp: protocol_list_def protocol_ids)

lemma protocol_list_all:
  "protocol_list d PROTOCOL_ALL =
     Some (Some (''POP3'' @ d @ ''IMAP4'' @ d @ ''POP3S'' @ d @ ''IMAP4S'' @ d @ ''MANAGESIEVE''))"
  by (simp add: protocol_list_def protocol_ids Let_def eval_nat_numeral upt_rec
      protocol_list_loop.simps snprintf_s_def min_def) (simp add: protocol_known_def)

lemma strcaseeq_trans: "strcaseeq a b \<Longrightarrow> strcaseeq a c \<longleftrightarrow> strcaseeq b c"
  by (auto simp: strcaseeq_def)

lemma c_tolower_toupper [simp]: "c_tolower (c_toupper c) = c_tolower c"
  by (auto simp: c_tolower_def c_toupper_def c_isupper_def c_islower_def)

lemma protocol_index_case [simp]:
  "protocol_index (str_tolower s) = protocol_index s" "protocol_index (str_toupper s) = protocol_index s"
  by (simp_all add: protocol_index_eq strcaseeq_def str_tolower_map str_toupper_map o_def)

lemma protocol_index_known:
  "protocol_index ''POP3'' = Some 1" "protocol_index ''IMAP4'' = Some 2"
  "protocol_index ''POP3S'' = Some 3" "protocol_index ''IMAP4S'' = Some 4"
  "protocol_index ''MANAGESIEVE'' = Some 5"
proof -
  have "c_tolower CHR ''P'' \<noteq> c_tolower CHR ''I''"
    by (simp add: c_tolower_def c_isupper_def ascii_def char_of_def)
  then show "protocol_index ''POP3'' = Some 1" "protocol_index ''IMAP4'' = Some 2"
    "protocol_index ''POP3S'' = Some 3" "protocol_index ''IMAP4S'' = Some 4"
    "protocol_index ''MANAGESIEVE'' = Some 5"
    by (simp_all add: protocol_index_eq strcaseeq_def)
qed

text \<open>
  Every known protocol has one name: the name listed for its number is looked up, in any mixture of
  case, to that number; other numbers have no name and an unknown name gives -1.
\<close>

lemma protocol_names:
  "(if 1 \<le> r \<and> r \<le> 5
    then \<exists>n. protocol_list d r = Some (Some n) \<and> protocol_index (str_tolower n) = Some r \<and>
           protocol_index (str_toupper n) = Some r
    else r = PROTOCOL_ALL \<or> protocol_list d r = Some None) \<and>
   (protocol_index s = Some (-1) \<or>
    (\<exists>i. 1 \<le> i \<and> i \<le> 5 \<and> protocol_index s = Some i \<and> str_tolower s = str_tolower (protocol_known ! nat i)))"
proof -
  have r: "r = 1 \<or> r = 2 \<or> r = 3 \<or> r = 4 \<or> r = 5" if "1 \<le> r" "r \<le> 5" using that by presburger
  have k: "\<exists>i. 1 \<le> i \<and> i \<le> 5 \<and> Some j = Some i \<and> str_tolower s = str_tolower (protocol_known ! nat i)"
    if "strcaseeq s (protocol_known ! nat j)" "1 \<le> j" "j \<le> 5" for j
    using that by (auto simp: strcaseeq_def str_tolower_map)
  have "protocol_index s = Some (-1) \<or>
    (\<exists>i. 1 \<le> i \<and> i \<le> 5 \<and> protocol_index s = Some i \<and> str_tolower s = str_tolower (protocol_known ! nat i))"
    unfolding protocol_index_eq using k [of 5] k [of 4] k [of 3] k [of 2] k [of 1]
    by (simp split: if_splits)
  moreover have "\<exists>n. protocol_list d r = Some (Some n) \<and> protocol_index (str_tolower n) = Some r \<and>
           protocol_index (str_toupper n) = Some r" if "1 \<le> r" "r \<le> 5"
    using r [OF that]
    by (auto simp: protocol_list_one protocol_index_known)
  moreover have "r = PROTOCOL_ALL \<or> protocol_list d r = Some None" if "\<not> (1 \<le> r \<and> r \<le> 5)"
    using protocol_list_none [of r d] that unfolding protocol_ids by linarith
  ultimately show ?thesis by simp
qed

text \<open>
  Editing a capability string as a list of words: adding a capability appends it as a word unless
  it is a word already, and deleting it removes all its occurrences and no other word, whenever the
  first word does not start with it.
\<close>

lemma protocol_capability_words:
  assumes "n \<noteq> []" and "c \<notin> set n" and "words_free c (w # ws)" and "\<not> prefix n w"
  shows "protocol_capability PROTOCOL_C_ADD (join c (w # ws)) n [c] =
      Some (join c (w # ws @ (if n \<in> set ws then [] else [n]))) \<and>
    protocol_capability PROTOCOL_C_DEL (join c (w # ws)) n [c] =
      Some (join c (w # filter (\<lambda>v. v \<noteq> n) ws))"
  using str_append_if_missing_words [OF assms(1-3)] str_delete_substring_words [OF assms(1-3)] assms(4)
  by (auto simp: protocol_capability_def PROTOCOL_C_ADD_def PROTOCOL_C_DEL_def)

lemma protocol_capability_words_witness:
  "protocol_capability PROTOCOL_C_ADD ''IMAP4 IMAP4REV1'' ''STARTTLS'' '' '' =
     Some ''IMAP4 IMAP4REV1 STARTTLS'' \<and>
   protocol_capability PROTOCOL_C_DEL ''IMAP4 STARTTLS IMAP4REV1'' ''STARTTLS'' '' '' =
     Some ''IMAP4 IMAP4REV1''"
  using protocol_capability_words [of "''STARTTLS''" SP "''IMAP4''" "[''IMAP4REV1'']"]
    protocol_capability_words [of "''STARTTLS''" SP "''IMAP4''" "[''STARTTLS'', ''IMAP4REV1'']"]
  by (simp add: words_free_def)

text \<open>
  When the first word of the capability string is the capability itself, both operations leave the
  string: adding compares bytes before its start, deleting moves the rest to before its start.
\<close>

lemma protocol_capability_first_word:
  assumes "n \<noteq> []" and "c \<notin> set n" and "words_free c ws"
  shows "protocol_capability PROTOCOL_C_ADD (join c (n # ws)) n [c] = None \<and>
    protocol_capability PROTOCOL_C_DEL (join c (n # ws)) n [c] = None"
  using str_append_if_missing_words [OF assms(1,2), of n ws] str_delete_substring_words [OF assms(1,2), of n ws]
    assms
  by (auto simp: protocol_capability_def PROTOCOL_C_ADD_def PROTOCOL_C_DEL_def words_free_def)

lemma protocol_capability_first_word_witness:
  "protocol_capability PROTOCOL_C_DEL ''STARTTLS IMAP4'' ''STARTTLS'' '' '' = None"
  using protocol_capability_first_word [of "''STARTTLS''" SP "[''IMAP4'']"]
  by (simp add: words_free_def)

end
