(* ===== verification/Options.thy ===== *)
theory Options
  imports Token Server_Port Protocol
begin

text \<open>
  The options of \<^verbatim>\<open>perdition/options.h\<close>: the constants and the structure \<open>options_t\<close>, the type of
  the global \<open>opt\<close>, for a build with SSL and PAM support. A \<open>char *\<close> is an optional string, a
  dynamic array an optional list. The parser is in \<open>Options_Parse\<close>.
\<close>

subsection \<open>Constants\<close>

definition STATE_NONE :: int where "STATE_NONE = 0x0"
definition STATE_GET_SERVER :: int where "STATE_GET_SERVER = 0x1"
definition STATE_LOCAL_AUTH :: int where "STATE_LOCAL_AUTH = 0x2"
definition STATE_REMOTE_LOGIN :: int where "STATE_REMOTE_LOGIN = 0x4"
definition STATE_ALL :: int where "STATE_ALL = STATE_GET_SERVER OR STATE_LOCAL_AUTH OR STATE_REMOTE_LOGIN"

lemmas state_defs = STATE_NONE_def STATE_GET_SERVER_def STATE_LOCAL_AUTH_def
  STATE_REMOTE_LOGIN_def STATE_ALL_def

definition SSL_MODE_EMPTY :: int where "SSL_MODE_EMPTY = 0x00"
definition SSL_MODE_NONE :: int where "SSL_MODE_NONE = 0x40"
definition SSL_MODE_SSL_LISTEN :: int where "SSL_MODE_SSL_LISTEN = 0x01"
definition SSL_MODE_SSL_OUTGOING :: int where "SSL_MODE_SSL_OUTGOING = 0x02"
definition SSL_MODE_SSL_ALL :: int where "SSL_MODE_SSL_ALL = 0x03"
definition SSL_MODE_TLS_LISTEN :: int where "SSL_MODE_TLS_LISTEN = 0x04"
definition SSL_MODE_TLS_OUTGOING :: int where "SSL_MODE_TLS_OUTGOING = 0x08"
definition SSL_MODE_TLS_ALL :: int where "SSL_MODE_TLS_ALL = 0x0c"
definition SSL_MODE_TLS_ALL_FORCE :: int where "SSL_MODE_TLS_ALL_FORCE = 0x30"
definition SSL_MODE_TLS_LISTEN_FORCE :: int where "SSL_MODE_TLS_LISTEN_FORCE = 0x10"
definition SSL_MODE_TLS_OUTGOING_FORCE :: int where "SSL_MODE_TLS_OUTGOING_FORCE = 0x20"
definition SSL_LISTEN_MASK :: int where "SSL_LISTEN_MASK = 0x05"
definition SSL_OUTGOING_MASK :: int where "SSL_OUTGOING_MASK = 0x0a"

lemmas ssl_mode_defs = SSL_MODE_EMPTY_def SSL_MODE_NONE_def SSL_MODE_SSL_LISTEN_def
  SSL_MODE_SSL_OUTGOING_def SSL_MODE_SSL_ALL_def SSL_MODE_TLS_LISTEN_def SSL_MODE_TLS_OUTGOING_def
  SSL_MODE_TLS_ALL_def SSL_MODE_TLS_ALL_FORCE_def SSL_MODE_TLS_LISTEN_FORCE_def
  SSL_MODE_TLS_OUTGOING_FORCE_def SSL_LISTEN_MASK_def SSL_OUTGOING_MASK_def

definition LOG_PASSWD_NEVER :: int where "LOG_PASSWD_NEVER = 0x00"
definition LOG_PASSWD_FAIL :: int where "LOG_PASSWD_FAIL = 0x01"
definition LOG_PASSWD_OK :: int where "LOG_PASSWD_OK = 0x02"
definition LOG_PASSWD_ALWAYS :: int where "LOG_PASSWD_ALWAYS = LOG_PASSWD_FAIL OR LOG_PASSWD_OK"

lemmas log_passwd_defs = LOG_PASSWD_NEVER_def LOG_PASSWD_FAIL_def LOG_PASSWD_OK_def
  LOG_PASSWD_ALWAYS_def

definition OPT_ERR :: flag_t where "OPT_ERR = 0x1"
definition OPT_CLEAR_MASK :: flag_t where "OPT_CLEAR_MASK = 0x2"
definition OPT_SET_MASK :: flag_t where "OPT_SET_MASK = 0x4"
definition OPT_USE_MASK :: flag_t where "OPT_USE_MASK = 0x8"
definition OPT_SET_DEFAULT :: flag_t where "OPT_SET_DEFAULT = 0x10"
definition OPT_FILE :: flag_t where "OPT_FILE = 0x20"
definition OPT_NOT_SET :: flag_t where "OPT_NOT_SET = 0x40"
definition OPT_LIT :: flag_t where "OPT_LIT = 0x80"
definition OPT_FIRST_CALL :: flag_t where
  "OPT_FIRST_CALL = OPT_ERR OR OPT_CLEAR_MASK OR OPT_SET_MASK OR OPT_SET_DEFAULT"

lemmas opt_flag_defs = OPT_ERR_def OPT_CLEAR_MASK_def OPT_SET_MASK_def OPT_USE_MASK_def
  OPT_SET_DEFAULT_def OPT_FILE_def OPT_NOT_SET_def OPT_LIT_def OPT_FIRST_CALL_def

definition MASK_ADD_DOMAIN :: flag_t where "MASK_ADD_DOMAIN = 0x00000001"
definition MASK_AUTHENTICATE_IN :: flag_t where "MASK_AUTHENTICATE_IN = 0x00000002"
definition MASK_BIND_ADDRESS :: flag_t where "MASK_BIND_ADDRESS = 0x00000004"
definition MASK_CONNECTION_LIMIT :: flag_t where "MASK_CONNECTION_LIMIT = 0x00000010"
definition MASK_CONNECTION_LOGGING :: flag_t where "MASK_CONNECTION_LOGGING = 0x00000020"
definition MASK_CONNECT_RELOG :: flag_t where "MASK_CONNECT_RELOG = 0x00000040"
definition MASK_DEBUG :: flag_t where "MASK_DEBUG = 0x00000080"
definition MASK_DOMAIN_DELIMITER :: flag_t where "MASK_DOMAIN_DELIMITER = 0x00000100"
definition MASK_CLIENT_SERVER_SPECIFICATION :: flag_t where "MASK_CLIENT_SERVER_SPECIFICATION = 0x00000200"
definition MASK_CONFIG_FILE :: flag_t where "MASK_CONFIG_FILE = 0x00000400"
definition MASK_GROUP :: flag_t where "MASK_GROUP = 0x00000800"
definition MASK_INETD_MODE :: flag_t where "MASK_INETD_MODE = 0x00001000"
definition MASK_LOG_FACILITY :: flag_t where "MASK_LOG_FACILITY = 0x00002000"
definition MASK_LOGIN_DISABLED :: flag_t where "MASK_LOGIN_DISABLED = 0x00004000"
definition MASK_LISTEN_PORT :: flag_t where "MASK_LISTEN_PORT = 0x00008000"
definition MASK_LOWER_CASE :: flag_t where "MASK_LOWER_CASE = 0x00010000"
definition MASK_MAP_LIB :: flag_t where "MASK_MAP_LIB = 0x00020000"
definition MASK_MAP_LIB_OPT :: flag_t where "MASK_MAP_LIB_OPT = 0x00040000"
definition MASK_NO_BIND_BANNER :: flag_t where "MASK_NO_BIND_BANNER = 0x00080000"
definition MASK_NO_DAEMON :: flag_t where "MASK_NO_DAEMON = 0x00100000"
definition MASK_NO_LOOKUP :: flag_t where "MASK_NO_LOOKUP = 0x00200000"
definition MASK_OUTGOING_PORT :: flag_t where "MASK_OUTGOING_PORT = 0x00400000"
definition MASK_OUTGOING_SERVER :: flag_t where "MASK_OUTGOING_SERVER = 0x00800000"
definition MASK_PROTOCOL :: flag_t where "MASK_PROTOCOL = 0x01000000"
definition MASK_SERVER_RESP_LINE :: flag_t where "MASK_SERVER_RESP_LINE = 0x02000000"
definition MASK_STRIP_DOMAIN :: flag_t where "MASK_STRIP_DOMAIN = 0x04000000"
definition MASK_TIMEOUT :: flag_t where "MASK_TIMEOUT = 0x08000000"
definition MASK_USERNAME :: flag_t where "MASK_USERNAME = 0x10000000"
definition MASK_USERNAME_FROM_DATABASE :: flag_t where "MASK_USERNAME_FROM_DATABASE = 0x20000000"
definition MASK_QUERY_KEY :: flag_t where "MASK_QUERY_KEY = 0x40000000"
definition MASK_QUIET :: flag_t where "MASK_QUIET = 0x80000000"
definition MASK_SSL_CA_CHAIN_FILE :: flag_t where "MASK_SSL_CA_CHAIN_FILE = 0x00000001"
definition MASK_SSL_CA_FILE :: flag_t where "MASK_SSL_CA_FILE = 0x00000002"
definition MASK_SSL_CA_PATH :: flag_t where "MASK_SSL_CA_PATH = 0x00000004"
definition MASK_SSL_CA_ACCEPT_SELF_SIGNED :: flag_t where "MASK_SSL_CA_ACCEPT_SELF_SIGNED = 0x00000008"
definition MASK_SSL_CERT_FILE :: flag_t where "MASK_SSL_CERT_FILE = 0x00000010"
definition MASK_SSL_CERT_ACCEPT_EXPIRED :: flag_t where "MASK_SSL_CERT_ACCEPT_EXPIRED = 0x00000020"
definition MASK_SSL_CERT_ACCEPT_NOT_YET_VALID :: flag_t where "MASK_SSL_CERT_ACCEPT_NOT_YET_VALID = 0x00000040"
definition MASK_SSL_CERT_ACCEPT_SELF_SIGNED :: flag_t where "MASK_SSL_CERT_ACCEPT_SELF_SIGNED = 0x00000080"
definition MASK_SSL_CERT_VERIFY_DEPTH :: flag_t where "MASK_SSL_CERT_VERIFY_DEPTH = 0x00000100"
definition MASK_SSL_KEY_FILE :: flag_t where "MASK_SSL_KEY_FILE = 0x00000200"
definition MASK_SSL_MODE :: flag_t where "MASK_SSL_MODE = 0x00000400"
definition MASK_SSL_LISTEN_CIPHERS :: flag_t where "MASK_SSL_LISTEN_CIPHERS = 0x00000800"
definition MASK_SSL_OUTGOING_CIPHERS :: flag_t where "MASK_SSL_OUTGOING_CIPHERS = 0x00000800"
definition MASK_SSL_NO_CERT_VERIFY :: flag_t where "MASK_SSL_NO_CERT_VERIFY = 0x00001000"
definition MASK_SSL_NO_CLIENT_CERT_VERIFY :: flag_t where "MASK_SSL_NO_CLIENT_CERT_VERIFY = 0x00003000"
definition MASK_SSL_NO_CN_VERIFY :: flag_t where "MASK_SSL_NO_CN_VERIFY = 0x00004000"
definition MASK_SSL_PASSPHRASE_FD :: flag_t where "MASK_SSL_PASSPHRASE_FD = 0x00008000"
definition MASK_SSL_PASSPHRASE_FILE :: flag_t where "MASK_SSL_PASSPHRASE_FILE = 0x00010000"
definition MASK_SSL_DH_PARAMS_FILE :: flag_t where "MASK_SSL_DH_PARAMS_FILE = 0x00020000"
definition MASK_SSL_LISTEN_MIN_PROTO_VERSION :: flag_t where "MASK_SSL_LISTEN_MIN_PROTO_VERSION = 0x00040000"
definition MASK_SSL_OUTGOING_MIN_PROTO_VERSION :: flag_t where "MASK_SSL_OUTGOING_MIN_PROTO_VERSION = 0x00080000"
definition MASK_SSL_LISTEN_MAX_PROTO_VERSION :: flag_t where "MASK_SSL_LISTEN_MAX_PROTO_VERSION = 0x00100000"
definition MASK_SSL_OUTGOING_MAX_PROTO_VERSION :: flag_t where "MASK_SSL_OUTGOING_MAX_PROTO_VERSION = 0x00200000"
definition MASK_SSL_LISTEN_COMPRESSION :: flag_t where "MASK_SSL_LISTEN_COMPRESSION = 0x00400000"
definition MASK_SSL_OUTGOING_COMPRESSION :: flag_t where "MASK_SSL_OUTGOING_COMPRESSION = 0x00800000"
definition MASK_SSL_NO_CIPHER_SERVER_PREFERENCE :: flag_t where "MASK_SSL_NO_CIPHER_SERVER_PREFERENCE = 0x01000000"

definition MASK2_OK_LINE :: flag_t where "MASK2_OK_LINE = 0x00000001"
definition MASK2_PID_FILE :: flag_t where "MASK2_PID_FILE = 0x00000002"
definition MASK2_EXPLICIT_DOMAIN :: flag_t where "MASK2_EXPLICIT_DOMAIN = 0x00000004"
definition MASK2_LOG_PASSWD :: flag_t where "MASK2_LOG_PASSWD = 0x00000008"
definition MASK2_AUTHENTICATE_TIMEOUT :: flag_t where "MASK2_AUTHENTICATE_TIMEOUT = 0x00000010"
definition MASK2_IMAP_CAPABILITY :: flag_t where "MASK2_IMAP_CAPABILITY = 0x00000020"
definition MASK2_MANAGESIEVE_CAPABILITY :: flag_t where "MASK2_MANAGESIEVE_CAPABILITY = 0x00000040"
definition MASK2_POP_CAPABILITY :: flag_t where "MASK2_POP_CAPABILITY = 0x00000080"
definition MASK2_TCP_KEEPALIVE :: flag_t where "MASK2_TCP_KEEPALIVE = 0x00000100"

lemmas mask_defs = MASK_ADD_DOMAIN_def MASK_AUTHENTICATE_IN_def MASK_BIND_ADDRESS_def
  MASK_CONNECTION_LIMIT_def MASK_CONNECTION_LOGGING_def MASK_CONNECT_RELOG_def MASK_DEBUG_def
  MASK_DOMAIN_DELIMITER_def MASK_CLIENT_SERVER_SPECIFICATION_def MASK_CONFIG_FILE_def
  MASK_GROUP_def MASK_INETD_MODE_def MASK_LOG_FACILITY_def MASK_LOGIN_DISABLED_def
  MASK_LISTEN_PORT_def MASK_LOWER_CASE_def MASK_MAP_LIB_def MASK_MAP_LIB_OPT_def
  MASK_NO_BIND_BANNER_def MASK_NO_DAEMON_def MASK_NO_LOOKUP_def MASK_OUTGOING_PORT_def
  MASK_OUTGOING_SERVER_def MASK_PROTOCOL_def MASK_SERVER_RESP_LINE_def MASK_STRIP_DOMAIN_def
  MASK_TIMEOUT_def MASK_USERNAME_def MASK_USERNAME_FROM_DATABASE_def MASK_QUERY_KEY_def
  MASK_QUIET_def MASK_SSL_CA_CHAIN_FILE_def MASK_SSL_CA_FILE_def MASK_SSL_CA_PATH_def
  MASK_SSL_CA_ACCEPT_SELF_SIGNED_def MASK_SSL_CERT_FILE_def MASK_SSL_CERT_ACCEPT_EXPIRED_def
  MASK_SSL_CERT_ACCEPT_NOT_YET_VALID_def MASK_SSL_CERT_ACCEPT_SELF_SIGNED_def
  MASK_SSL_CERT_VERIFY_DEPTH_def MASK_SSL_KEY_FILE_def MASK_SSL_MODE_def
  MASK_SSL_LISTEN_CIPHERS_def MASK_SSL_OUTGOING_CIPHERS_def MASK_SSL_NO_CERT_VERIFY_def
  MASK_SSL_NO_CLIENT_CERT_VERIFY_def MASK_SSL_NO_CN_VERIFY_def MASK_SSL_PASSPHRASE_FD_def
  MASK_SSL_PASSPHRASE_FILE_def MASK_SSL_DH_PARAMS_FILE_def MASK_SSL_LISTEN_MIN_PROTO_VERSION_def
  MASK_SSL_OUTGOING_MIN_PROTO_VERSION_def MASK_SSL_LISTEN_MAX_PROTO_VERSION_def
  MASK_SSL_OUTGOING_MAX_PROTO_VERSION_def MASK_SSL_LISTEN_COMPRESSION_def
  MASK_SSL_OUTGOING_COMPRESSION_def MASK_SSL_NO_CIPHER_SERVER_PREFERENCE_def MASK2_OK_LINE_def
  MASK2_PID_FILE_def MASK2_EXPLICIT_DOMAIN_def MASK2_LOG_PASSWD_def MASK2_AUTHENTICATE_TIMEOUT_def
  MASK2_IMAP_CAPABILITY_def MASK2_MANAGESIEVE_CAPABILITY_def MASK2_POP_CAPABILITY_def
  MASK2_TCP_KEEPALIVE_def

definition TAG_CONNECT_RELOG :: int where "TAG_CONNECT_RELOG = 128"
definition TAG_LOGIN_DISABLED :: int where "TAG_LOGIN_DISABLED = 129"
definition TAG_LOWER_CASE :: int where "TAG_LOWER_CASE = 130"
definition TAG_NO_DAEMON :: int where "TAG_NO_DAEMON = 131"
definition TAG_QUERY_KEY :: int where "TAG_QUERY_KEY = 132"
definition TAG_PID_FILE :: int where "TAG_PID_FILE = 133"
definition TAG_LOG_PASSWD :: int where "TAG_LOG_PASSWD = 134"
definition TAG_SSL_CA_CHAIN_FILE :: int where "TAG_SSL_CA_CHAIN_FILE = 135"
definition TAG_SSL_CA_FILE :: int where "TAG_SSL_CA_FILE = 136"
definition TAG_SSL_CA_PATH :: int where "TAG_SSL_CA_PATH = 137"
definition TAG_SSL_CA_ACCEPT_SELF_SIGNED :: int where "TAG_SSL_CA_ACCEPT_SELF_SIGNED = 138"
definition TAG_SSL_CERT_FILE :: int where "TAG_SSL_CERT_FILE = 139"
definition TAG_SSL_CERT_ACCEPT_EXPIRED :: int where "TAG_SSL_CERT_ACCEPT_EXPIRED = 140"
definition TAG_SSL_CERT_ACCEPT_SELF_SIGNED :: int where "TAG_SSL_CERT_ACCEPT_SELF_SIGNED = 141"
definition TAG_SSL_CERT_ACCEPT_NOT_YET_VALID :: int where "TAG_SSL_CERT_ACCEPT_NOT_YET_VALID = 142"
definition TAG_SSL_CERT_VERIFY_DEPTH :: int where "TAG_SSL_CERT_VERIFY_DEPTH = 143"
definition TAG_SSL_KEY_FILE :: int where "TAG_SSL_KEY_FILE = 144"
definition TAG_SSL_MODE :: int where "TAG_SSL_MODE = 145"
definition TAG_SSL_LISTEN_CIPHERS :: int where "TAG_SSL_LISTEN_CIPHERS = 146"
definition TAG_SSL_OUTGOING_CIPHERS :: int where "TAG_SSL_OUTGOING_CIPHERS = 147"
definition TAG_SSL_NO_CERT_VERIFY :: int where "TAG_SSL_NO_CERT_VERIFY = 148"
definition TAG_SSL_NO_CLIENT_CERT_VERIFY :: int where "TAG_SSL_NO_CLIENT_CERT_VERIFY = 149"
definition TAG_SSL_NO_CN_VERIFY :: int where "TAG_SSL_NO_CN_VERIFY = 150"
definition TAG_AUTHENTICATE_TIMEOUT :: int where "TAG_AUTHENTICATE_TIMEOUT = 151"
definition TAG_SSL_PASSPHRASE_FD :: int where "TAG_SSL_PASSPHRASE_FD = 152"
definition TAG_SSL_PASSPHRASE_FILE :: int where "TAG_SSL_PASSPHRASE_FILE = 153"
definition TAG_IMAP_CAPABILITY :: int where "TAG_IMAP_CAPABILITY = 154"
definition TAG_MANAGESIEVE_CAPABILITY :: int where "TAG_MANAGESIEVE_CAPABILITY = 155"
definition TAG_POP_CAPABILITY :: int where "TAG_POP_CAPABILITY = 156"
definition TAG_TCP_KEEPALIVE :: int where "TAG_TCP_KEEPALIVE = 157"
definition TAG_SSL_DH_PARAMS_FILE :: int where "TAG_SSL_DH_PARAMS_FILE = 158"
definition TAG_SSL_LISTEN_MIN_PROTO_VERSION :: int where "TAG_SSL_LISTEN_MIN_PROTO_VERSION = 159"
definition TAG_SSL_OUTGOING_MIN_PROTO_VERSION :: int where "TAG_SSL_OUTGOING_MIN_PROTO_VERSION = 160"
definition TAG_SSL_LISTEN_MAX_PROTO_VERSION :: int where "TAG_SSL_LISTEN_MAX_PROTO_VERSION = 161"
definition TAG_SSL_OUTGOING_MAX_PROTO_VERSION :: int where "TAG_SSL_OUTGOING_MAX_PROTO_VERSION = 162"
definition TAG_SSL_LISTEN_COMPRESSION :: int where "TAG_SSL_LISTEN_COMPRESSION = 163"
definition TAG_SSL_OUTGOING_COMPRESSION :: int where "TAG_SSL_OUTGOING_COMPRESSION = 164"
definition TAG_SSL_NO_CIPHER_SERVER_PREFERENCE :: int where "TAG_SSL_NO_CIPHER_SERVER_PREFERENCE = 165"

lemmas tag_defs = TAG_CONNECT_RELOG_def TAG_LOGIN_DISABLED_def TAG_LOWER_CASE_def
  TAG_NO_DAEMON_def TAG_QUERY_KEY_def TAG_PID_FILE_def TAG_LOG_PASSWD_def
  TAG_SSL_CA_CHAIN_FILE_def TAG_SSL_CA_FILE_def TAG_SSL_CA_PATH_def
  TAG_SSL_CA_ACCEPT_SELF_SIGNED_def TAG_SSL_CERT_FILE_def TAG_SSL_CERT_ACCEPT_EXPIRED_def
  TAG_SSL_CERT_ACCEPT_SELF_SIGNED_def TAG_SSL_CERT_ACCEPT_NOT_YET_VALID_def
  TAG_SSL_CERT_VERIFY_DEPTH_def TAG_SSL_KEY_FILE_def TAG_SSL_MODE_def TAG_SSL_LISTEN_CIPHERS_def
  TAG_SSL_OUTGOING_CIPHERS_def TAG_SSL_NO_CERT_VERIFY_def TAG_SSL_NO_CLIENT_CERT_VERIFY_def
  TAG_SSL_NO_CN_VERIFY_def TAG_AUTHENTICATE_TIMEOUT_def TAG_SSL_PASSPHRASE_FD_def
  TAG_SSL_PASSPHRASE_FILE_def TAG_IMAP_CAPABILITY_def TAG_MANAGESIEVE_CAPABILITY_def
  TAG_POP_CAPABILITY_def TAG_TCP_KEEPALIVE_def TAG_SSL_DH_PARAMS_FILE_def
  TAG_SSL_LISTEN_MIN_PROTO_VERSION_def TAG_SSL_OUTGOING_MIN_PROTO_VERSION_def
  TAG_SSL_LISTEN_MAX_PROTO_VERSION_def TAG_SSL_OUTGOING_MAX_PROTO_VERSION_def
  TAG_SSL_LISTEN_COMPRESSION_def TAG_SSL_OUTGOING_COMPRESSION_def
  TAG_SSL_NO_CIPHER_SERVER_PREFERENCE_def

subsection \<open>The options structure\<close>

record options =
  opt_add_domain :: int
  opt_add_domain_strip_depth :: nat
  opt_authenticate_in :: int
  opt_authenticate_timeout :: int
  opt_bind_address :: "user_server_port list option"
  opt_pop_capability :: "string option"
  opt_managesieve_capability :: "string option"
  opt_imap_capability :: "string option"
  opt_client_server_specification :: int
  opt_config_file :: "string option"
  opt_connection_limit :: int
  opt_connection_logging :: int
  opt_connect_relog :: int
  opt_debug :: int
  opt_domain_delimiter :: "string option"
  opt_domain_delimiter_length :: int
  opt_explicit_domain :: "string option"
  opt_group :: "string option"
  opt_inetd_mode :: int
  opt_listen_port :: "string option"
  opt_log_facility :: "string option"
  opt_log_passwd :: int
  opt_login_disabled :: int
  opt_lower_case :: int
  opt_map_library :: "string option"
  opt_map_library_opt :: "string option"
  opt_no_bind_banner :: int
  opt_no_daemon :: int
  opt_no_lookup :: int
  opt_tcp_keepalive :: int
  opt_outgoing_port :: "string option"
  opt_outgoing_server :: "user_server_port list option"
  opt_ok_line :: "string option"
  opt_pid_file :: "string option"
  opt_protocol :: int
  opt_quiet :: int
  opt_server_resp_line :: int
  opt_strip_domain :: int
  opt_timeout :: int
  opt_username :: "string option"
  opt_username_from_database :: int
  opt_query_key :: "string list option"
  opt_mask :: flag_t
  opt_mask2 :: flag_t
  opt_ssl_ca_chain_file :: "string option"
  opt_ssl_ca_file :: "string option"
  opt_ssl_ca_path :: "string option"
  opt_ssl_ca_accept_self_signed :: int
  opt_ssl_cert_file :: "string option"
  opt_ssl_dh_params_file :: "string option"
  opt_ssl_cert_accept_self_signed :: int
  opt_ssl_cert_accept_expired :: int
  opt_ssl_cert_accept_not_yet_valid :: int
  opt_ssl_cert_verify_depth :: int
  opt_ssl_key_file :: "string option"
  opt_ssl_mode :: int
  opt_ssl_listen_ciphers :: "string option"
  opt_ssl_outgoing_ciphers :: "string option"
  opt_ssl_no_cert_verify :: int
  opt_ssl_no_client_cert_verify :: int
  opt_ssl_no_cn_verify :: int
  opt_ssl_passphrase_fd :: int
  opt_ssl_passphrase_file :: "string option"
  opt_ssl_listen_min_proto_version :: "string option"
  opt_ssl_outgoing_min_proto_version :: "string option"
  opt_ssl_listen_max_proto_version :: "string option"
  opt_ssl_outgoing_max_proto_version :: "string option"
  opt_ssl_listen_compression :: int
  opt_ssl_outgoing_compression :: int
  opt_ssl_no_cipher_server_preference :: int
  opt_ssl_mask :: flag_t

text \<open>
  The domain delimiter. Its default is not NULL and the parser only stores arguments that are not NULL.
\<close>

definition opt_dd :: "options \<Rightarrow> string" where
  "opt_dd opt = (case opt_domain_delimiter opt of None \<Rightarrow> [] | Some d \<Rightarrow> d)"

text \<open>The global variable \<open>opt\<close> before \<open>options\<close> runs: static storage, all zero.\<close>

definition options_zero :: options where
  "options_zero =
   \<lparr>opt_add_domain = 0, opt_add_domain_strip_depth = 0, opt_authenticate_in = 0,
     opt_authenticate_timeout = 0, opt_bind_address = None, opt_pop_capability = None,
     opt_managesieve_capability = None, opt_imap_capability = None,
     opt_client_server_specification = 0, opt_config_file = None, opt_connection_limit = 0,
     opt_connection_logging = 0, opt_connect_relog = 0, opt_debug = 0, opt_domain_delimiter = None,
     opt_domain_delimiter_length = 0, opt_explicit_domain = None, opt_group = None, opt_inetd_mode = 0,
     opt_listen_port = None, opt_log_facility = None, opt_log_passwd = 0, opt_login_disabled = 0,
     opt_lower_case = 0, opt_map_library = None, opt_map_library_opt = None, opt_no_bind_banner = 0,
     opt_no_daemon = 0, opt_no_lookup = 0, opt_tcp_keepalive = 0, opt_outgoing_port = None,
     opt_outgoing_server = None, opt_ok_line = None, opt_pid_file = None, opt_protocol = 0,
     opt_quiet = 0, opt_server_resp_line = 0, opt_strip_domain = 0, opt_timeout = 0,
     opt_username = None, opt_username_from_database = 0, opt_query_key = None, opt_mask = 0,
     opt_mask2 = 0, opt_ssl_ca_chain_file = None, opt_ssl_ca_file = None, opt_ssl_ca_path = None,
     opt_ssl_ca_accept_self_signed = 0, opt_ssl_cert_file = None, opt_ssl_dh_params_file = None,
     opt_ssl_cert_accept_self_signed = 0, opt_ssl_cert_accept_expired = 0,
     opt_ssl_cert_accept_not_yet_valid = 0, opt_ssl_cert_verify_depth = 0, opt_ssl_key_file = None,
     opt_ssl_mode = 0, opt_ssl_listen_ciphers = None, opt_ssl_outgoing_ciphers = None,
     opt_ssl_no_cert_verify = 0, opt_ssl_no_client_cert_verify = 0, opt_ssl_no_cn_verify = 0,
     opt_ssl_passphrase_fd = 0, opt_ssl_passphrase_file = None,
     opt_ssl_listen_min_proto_version = None, opt_ssl_outgoing_min_proto_version = None,
     opt_ssl_listen_max_proto_version = None, opt_ssl_outgoing_max_proto_version = None,
     opt_ssl_listen_compression = 0, opt_ssl_outgoing_compression = 0,
     opt_ssl_no_cipher_server_preference = 0, opt_ssl_mask = 0\<rparr>"

end
