(* ===== verification/Username.thy ===== *)
theory Username
  imports Options
begin

text \<open>
  Editing of user names per state of a session, \<^verbatim>\<open>perdition/username.c\<close>. The host name of the
  address connected to is the argument \<open>sock\<close>: \<open>None\<close> if \<open>sockname\<close> is NULL, \<open>Some None\<close> if
  \<open>getnameinfo\<close> fails. \<open>None\<close> as a result is NULL.
\<close>

text \<open>The loop that strips \<open>strip_depth\<close> labels; \<open>None\<close> if there is no dot left.\<close>

fun domain_strip :: "nat \<Rightarrow> string \<Rightarrow> string option" where
  "domain_strip 0 domainpart = Some domainpart"
| "domain_strip (Suc n) domainpart =
     (if domainpart = [] then Some []
      else case strchr domainpart CHR ''.'' of
             None \<Rightarrow> None
           | Some i \<Rightarrow> domain_strip n (drop (i + 1) domainpart))"

definition username_add_domain ::
    "options \<Rightarrow> string option option \<Rightarrow> string \<Rightarrow> int \<Rightarrow> nat \<Rightarrow> string option" where
  "username_add_domain opt sock username state strip_depth =
     (if opt_add_domain opt AND state = 0 then Some username
      else if strstr username (opt_dd opt) \<noteq> None then Some username
      else case opt_explicit_domain opt of
             Some domainpart \<Rightarrow> Some (username @ opt_dd opt @ domainpart)
           | None \<Rightarrow>
               (case sock of
                  None \<Rightarrow> Some username
                | Some None \<Rightarrow> None
                | Some (Some host) \<Rightarrow>
                    (case domain_strip strip_depth host of
                       None \<Rightarrow> Some username
                     | Some domainpart \<Rightarrow>
                         if domainpart = [] then Some username
                         else Some (username @ opt_dd opt @ domainpart))))"

definition username_strip :: "options \<Rightarrow> string \<Rightarrow> int \<Rightarrow> string option" where
  "username_strip opt username state =
     (if opt_strip_domain opt AND state = 0 then Some username
      else if state = STATE_GET_SERVER \<and> opt_client_server_specification opt \<noteq> 0 then Some username
      else case strrstr username (opt_dd opt) of
             None \<Rightarrow> Some username
           | Some i \<Rightarrow> Some (take i username))"

definition username_lower_case :: "options \<Rightarrow> string \<Rightarrow> int \<Rightarrow> string option" where
  "username_lower_case opt username state =
     (if opt_lower_case opt AND state = 0 then Some username else Some (str_tolower username))"

definition username_mangle :: "options \<Rightarrow> string option option \<Rightarrow> string \<Rightarrow> int \<Rightarrow> string option" where
  "username_mangle opt sock username state =
     do { result \<leftarrow> username_strip opt username state;
          result \<leftarrow> username_add_domain opt sock result state (opt_add_domain_strip_depth opt);
          username_lower_case opt result state }"

subsection \<open>Labels of a host name\<close>

lemma domain_strip_labels:
  assumes "words_free CHR ''.'' ls" and "[] \<notin> set ls" and "ls \<noteq> []"
  shows "domain_strip n (join CHR ''.'' ls) =
     (if n < length ls then Some (join CHR ''.'' (drop n ls)) else None)"
  using assms
proof (induction n arbitrary: ls)
  case (Suc n)
  then obtain l ls' where ls: "ls = l # ls'" "CHR ''.'' \<notin> set l" "l \<noteq> []"
    by (cases ls) (auto simp: words_free_def)
  show ?case
  proof (cases ls')
    case Nil
    with ls show ?thesis by (simp add: strchr_None [THEN iffD2])
  next
    case (Cons m ms)
    have j: "join CHR ''.'' ls = l @ CHR ''.'' # join CHR ''.'' ls'" by (simp add: ls Cons)
    have "words_free CHR ''.'' ls'" "[] \<notin> set ls'" using Suc.prems ls by (auto simp: words_free_def)
    with Suc.IH [of ls'] Cons j ls strchr_append_notin [OF ls(2)] show ?thesis
      by (simp del: join.simps)
  qed
qed simp

subsection \<open>Properties\<close>

lemma strrstr_no_strstr:
  assumes "n \<noteq> []" and "strstr h n = None"
  shows "strrstr h n = None"
  using assms strstr_None [OF assms(2)] by (simp add: strrstr_None_iff)

text \<open>
  C10. Mangling a user name \<open>u\<close> that may carry a domain: the domain is removed where the options ask for
  it, except while looking up the server if users may name their server; then the configured domain
  is added if asked for and no domain is left; then the result is folded to lower case if asked for.
  That users may name their server does not keep the domain from being added for the lookup, although the
  manual page (perdition.8, option add_domain) says so: only the removal looks at that option.
\<close>

theorem username_mangle_spec:
  assumes "opt_dd opt \<noteq> []" and "strstr u (opt_dd opt) = None"
    and "\<forall>d. domain = Some d \<longrightarrow> delim_free (opt_dd opt) d"
    and "opt_explicit_domain opt = Some e"
  shows "username_mangle opt sock (case domain of None \<Rightarrow> u | Some d \<Rightarrow> u @ opt_dd opt @ d) state =
    (let strip = opt_strip_domain opt AND state \<noteq> 0 \<and>
           \<not> (state = STATE_GET_SERVER \<and> opt_client_server_specification opt \<noteq> 0);
         left = (if strip then None else domain);
         full = (case left of Some d \<Rightarrow> u @ opt_dd opt @ d
                 | None \<Rightarrow> if opt_add_domain opt AND state \<noteq> 0 then u @ opt_dd opt @ e else u)
     in Some (if opt_lower_case opt AND state \<noteq> 0 then str_tolower full else full))"
proof -
  have 1: "strrstr u (opt_dd opt) = None" using assms strrstr_no_strstr by blast
  have 2: "strrstr (u @ opt_dd opt @ d) (opt_dd opt) = Some (length u)" if "domain = Some d" for d
    using strrstr_user_part [of "opt_dd opt" d "Some u"] assms that by (simp add: user_part_def)
  have 3: "strstr (u @ opt_dd opt @ d) (opt_dd opt) \<noteq> None" for d by (rule strstr_infix)
  show ?thesis
    using assms 1 2 3
    by (cases domain) (auto simp: username_mangle_def username_strip_def username_add_domain_def
        username_lower_case_def Let_def)
qed

lemma username_mangle_spec_witness:
  "\<forall>opt. username_mangle (opt\<lparr>opt_domain_delimiter := Some ''@'', opt_explicit_domain := Some ''x.org'',
       opt_strip_domain := 7, opt_add_domain := 7, opt_lower_case := 4,
       opt_client_server_specification := 0\<rparr>) None ''Joe@Host'' 4 = Some ''joe@x.org''"
proof
  fix opt :: options
  let ?o = "opt\<lparr>opt_domain_delimiter := Some ''@'', opt_explicit_domain := Some ''x.org'',
       opt_strip_domain := 7, opt_add_domain := 7, opt_lower_case := 4,
       opt_client_server_specification := 0\<rparr>"
  from username_mangle_spec [of ?o "''Joe''" "Some ''Host''" "''x.org''" None 4]
  show "username_mangle ?o None ''Joe@Host'' 4 = Some ''joe@x.org''"
    by (simp add: opt_dd_def strstr.simps delim_free_char str_tolower_map c_tolower_def c_isupper_def
        ascii_def char_of_def bit_0)
qed

text \<open>
  Without a configured domain, the domain added is the host name of the local address less its first
  \<open>add_domain_strip_depth\<close> labels; nothing is added when no label is left.
\<close>

lemma username_add_domain_host:
  assumes "strstr u (opt_dd opt) = None" and "opt_add_domain opt AND state \<noteq> 0"
    and "opt_explicit_domain opt = None"
    and "words_free CHR ''.'' ls" and "[] \<notin> set ls" and "ls \<noteq> []"
  shows "username_add_domain opt (Some (Some (join CHR ''.'' ls))) u state n =
    Some (if n < length ls then u @ opt_dd opt @ join CHR ''.'' (drop n ls) else u)"
proof -
  have "join CHR ''.'' (drop n ls) \<noteq> []" if "n < length ls"
  proof -
    from that have "drop n ls \<noteq> []" by simp
    then obtain m ms where "drop n ls = m # ms" unfolding neq_Nil_conv by blast
    moreover from this have "m \<in> set ls" by (metis in_set_dropD list.set_intros(1))
    ultimately show ?thesis using assms(5) by auto
  qed
  with assms domain_strip_labels [OF assms(4-6), of n] show ?thesis
    by (simp add: username_add_domain_def)
qed

lemma username_add_domain_host_witness:
  "\<forall>opt. username_add_domain (opt\<lparr>opt_domain_delimiter := Some ''@'', opt_explicit_domain := None,
       opt_add_domain := 1\<rparr>) (Some (Some ''mail.x.org'')) ''joe'' 1 1 = Some ''joe@x.org''"
proof
  fix opt :: options
  let ?o = "opt\<lparr>opt_domain_delimiter := Some ''@'', opt_explicit_domain := None, opt_add_domain := 1\<rparr>"
  from username_add_domain_host [of "''joe''" ?o 1 "[''mail'', ''x'', ''org'']" 1]
  show "username_add_domain ?o (Some (Some ''mail.x.org'')) ''joe'' 1 1 = Some ''joe@x.org''"
    by (simp add: opt_dd_def strstr.simps words_free_def)
qed

end
