(* ===== verification/Getserver.thy ===== *)
theory Getserver
  imports Options
begin

text \<open>
  The lookup of the real server, \<^verbatim>\<open>perdition/getserver.c\<close>: the keys built from the formats of
  \<open>query_key\<close>, the calls of the lookup library, and the order in which keys are tried.

  The library is loaded with \<open>dlopen\<close>; its functions are parameters, as functions from the key and
  the configured option string to their results.
\<close>

type_synonym dbserver_get = "string \<Rightarrow> string option \<Rightarrow> int \<times> string option \<times> nat"
type_synonym dbserver_get2 =
  "string \<Rightarrow> string option \<Rightarrow> int \<times> string option \<times> string option \<times> string option"

subsection \<open>Keys\<close>

text \<open>
  What a key is made of: the user name, and the addresses and ports of the connection. The split of
  the user name at the delimiter is \<open>(user, domain)\<close>; the domain pointer is advanced by one
  character, whatever the length of the delimiter.
\<close>

record key_args =
  k_user :: string
  k_from :: string
  k_to :: string
  k_from_port :: string
  k_to_port :: string

definition gsk_split_user :: "options \<Rightarrow> string \<Rightarrow> string \<times> string option" where
  "gsk_split_user opt full_user_str =
     (case strrstr full_user_str (opt_dd opt) of
        None \<Rightarrow> (full_user_str, None)
      | Some i \<Rightarrow> (take i full_user_str, Some (drop (i + 1) full_user_str)))"

definition key_escape :: "options \<Rightarrow> key_args \<Rightarrow> char \<Rightarrow> string option" where
  "key_escape opt k c =
     (if c = CHR ''U'' then Some (k_user k)
      else if c = CHR ''u'' then Some (fst (gsk_split_user opt (k_user k)))
      else if c = CHR ''D'' then Some (opt_dd opt)
      else if c = CHR ''d'' then
        (case snd (gsk_split_user opt (k_user k)) of None \<Rightarrow> Some [] | Some d \<Rightarrow> Some d)
      else if c = CHR ''i'' then Some (k_from k)
      else if c = CHR ''I'' then Some (k_to k)
      else if c = CHR ''p'' then Some (k_from_port k)
      else if c = CHR ''P'' then Some (k_to_port k)
      else if c = BS then Some [BS]
      else None)"

fun key_str_loop :: "options \<Rightarrow> key_args \<Rightarrow> string \<Rightarrow> bool \<Rightarrow> string \<Rightarrow> string option" where
  "key_str_loop opt k [] have_escape key = Some key"
| "key_str_loop opt k (c # cs) have_escape key =
     (if c = BS \<and> \<not> have_escape then key_str_loop opt k cs True key
      else if \<not> have_escape then key_str_loop opt k cs False (key @ [c])
      else case key_escape opt k c of
             None \<Rightarrow> None
           | Some s \<Rightarrow> key_str_loop opt k cs False (key @ s))"

definition getserver_key_str :: "options \<Rightarrow> string \<Rightarrow> key_args \<Rightarrow> string option" where
  "getserver_key_str opt query_fmt k = key_str_loop opt k query_fmt False []"

subsection \<open>One lookup\<close>

definition str_empty :: "string option \<Rightarrow> bool" where
  "str_empty s \<longleftrightarrow> s = None \<or> s = Some []"

text \<open>The result is the status and \<open>usp_ret\<close>.\<close>

definition do_getserver ::
    "options \<Rightarrow> string \<Rightarrow> dbserver_get option \<Rightarrow> dbserver_get2 option
      \<Rightarrow> (int \<times> user_server_port option) option" where
  "do_getserver opt key_str dbserver_get dbserver_get2 =
     (case (dbserver_get, dbserver_get2) of
        (Some get, _) \<Rightarrow>
          (case get key_str (opt_map_library_opt opt) of
             (status, server_str, server_len) \<Rightarrow>
               if status < 0 then Some (status, None)
               else case server_str of
                      None \<Rightarrow> Some (status, None)
                    | Some s \<Rightarrow>
                        if s = [] then Some (status, None)
                        else do { usp \<leftarrow> user_server_port_strn_assign (opt_dd opt) None s server_len;
                                  Some (status, Some usp) })
      | (None, Some get2) \<Rightarrow>
          (case get2 key_str (opt_map_library_opt opt) of
             (status, user_str, server_str, port_str) \<Rightarrow>
               if status < 0 then Some (status, None)
               else if str_empty user_str \<and> str_empty server_str \<and> str_empty port_str
               then Some (status, None)
               else Some (status, Some (user_server_port_assign None user_str server_str port_str)))
      | (None, None) \<Rightarrow> Some (0, None))"

subsection \<open>The lookup of a user\<close>

text \<open>The loop over the query keys goes on as long as a key is not found (status -2).\<close>

fun getserver_keys ::
    "options \<Rightarrow> key_args \<Rightarrow> dbserver_get option \<Rightarrow> dbserver_get2 option \<Rightarrow> string list \<Rightarrow> int
      \<Rightarrow> user_server_port option \<Rightarrow> (int \<times> user_server_port option) option option" where
  "getserver_keys opt k get get2 [] status usp = Some (Some (status, usp))"
| "getserver_keys opt k get get2 (query_fmt # fs) status usp =
     (case getserver_key_str opt query_fmt k of
        None \<Rightarrow> Some None
      | Some key_str \<Rightarrow>
          do { (status', usp') \<leftarrow> do_getserver opt key_str get get2;
               if status' \<noteq> -2 then Some (Some (status', usp'))
               else getserver_keys opt k get get2 fs status' usp' })"

text \<open>
  The result is the lookup result, or \<open>None\<close> for NULL, and the user string: a user string that
  names the server is cut at the delimiter, in place.
\<close>

definition getserver ::
    "options \<Rightarrow> key_args \<Rightarrow> dbserver_get option \<Rightarrow> dbserver_get2 option
      \<Rightarrow> (user_server_port option \<times> string) option" where
  "getserver opt k get get2 =
     (if get = None \<and> get2 = None \<and> opt_client_server_specification opt = 0
      then Some (None, k_user k)
      else case (if opt_client_server_specification opt \<noteq> 0
                 then strrstr (k_user k) (opt_dd opt) else None) of
             Some i \<Rightarrow>
               do { usp \<leftarrow> user_server_port_str_assign (opt_dd opt) None
                             (drop (i + nat (opt_domain_delimiter_length opt)) (k_user k));
                    Some (Some usp, take i (k_user k)) }
           | None \<Rightarrow>
               do { r \<leftarrow> (case opt_query_key opt of
                            None \<Rightarrow> map_option Some (do_getserver opt (k_user k) get get2)
                          | Some keys \<Rightarrow> getserver_keys opt k get get2 keys (-1) None);
                    case r of
                      None \<Rightarrow> Some (None, k_user k)
                    | Some (status, usp) \<Rightarrow>
                        Some (if status < 0 then None else usp, k_user k) })"

subsection \<open>Opening and closing the library\<close>

text \<open>A shared object, as the symbols it defines; \<open>dl_init\<close> and \<open>dl_fini\<close> give true on failure.\<close>

record dlib =
  dl_get :: "dbserver_get option"
  dl_get2 :: "dbserver_get2 option"
  dl_init :: "(string option \<Rightarrow> bool) option"
  dl_fini :: "bool option"

definition getserver_openlib ::
    "(string \<Rightarrow> dlib option) \<Rightarrow> string option \<Rightarrow> string option
      \<Rightarrow> int \<times> dlib option \<times> dbserver_get option \<times> dbserver_get2 option" where
  "getserver_openlib dlopen libname options_str =
     (if str_empty libname then (0, None, None, None)
      else case dlopen (the libname) of
             None \<Rightarrow> (-1, None, None, None)
           | Some h \<Rightarrow>
               let get = dl_get h; get2 = (if get = None then dl_get2 h else None) in
               if get = None \<and> get2 = None then (-1, Some h, None, None)
               else case dl_init h of
                      None \<Rightarrow> (0, Some h, get, get2)
                    | Some init \<Rightarrow> (if init options_str then -1 else 0, Some h, get, get2))"

definition getserver_closelib :: "dlib option \<Rightarrow> int" where
  "getserver_closelib handle =
     (case handle of
        None \<Rightarrow> 0
      | Some h \<Rightarrow> (case dl_fini h of None \<Rightarrow> 0 | Some failed \<Rightarrow> if failed then -1 else 0))"

subsection \<open>Properties\<close>

text \<open>Key formats as lists of literal characters and escapes, and their text.\<close>

datatype key_item = Key_lit char | Key_esc char

definition render_key :: "key_item list \<Rightarrow> string" where
  "render_key = concat \<circ> map (\<lambda>i. case i of
     Key_lit c \<Rightarrow> if c = BS then [BS, BS] else [c] | Key_esc c \<Rightarrow> [BS, c])"

fun expand_item :: "options \<Rightarrow> key_args \<Rightarrow> key_item \<Rightarrow> string option" where
  "expand_item opt k (Key_lit c) = Some [c]"
| "expand_item opt k (Key_esc c) = key_escape opt k c"

fun expand_key :: "options \<Rightarrow> key_args \<Rightarrow> key_item list \<Rightarrow> string option" where
  "expand_key opt k [] = Some []"
| "expand_key opt k (i # is) = do { a \<leftarrow> expand_item opt k i; b \<leftarrow> expand_key opt k is; Some (a @ b) }"

lemma key_str_loop_render:
  "key_str_loop opt k (render_key is) False key = map_option ((@) key) (expand_key opt k is)"
proof (induction "is" arbitrary: key)
  case (Cons i "is")
  have r: "render_key (i # is) = render_key [i] @ render_key is" by (simp add: render_key_def)
  show ?case
  proof (cases i)
    case (Key_lit c)
    then show ?thesis using Cons.IH unfolding r
      by (cases "c = BS")
        (auto simp: render_key_def key_escape_def option.map_comp o_def
          intro: option.map_cong split: bind_splits)
  next
    case (Key_esc c)
    then show ?thesis using Cons.IH unfolding r
      by (cases "key_escape opt k c") (auto simp: render_key_def split: bind_splits)
  qed
qed (simp add: render_key_def)

lemma gsk_split_user:
  assumes "delim_free [d] v" and "opt_domain_delimiter opt = Some [d]"
  shows "gsk_split_user opt (u @ d # v) = (u, Some v)"
  using strrstr_user_part [of "[d]" v "Some u"] assms
  by (simp add: gsk_split_user_def opt_dd_def user_part_def)

text \<open>Keys are tried in order: those before the first that does not give -2 have no influence.\<close>

lemma getserver_keys_skip:
  assumes "\<forall>f \<in> set fs. \<exists>key usp. getserver_key_str opt f k = Some key \<and>
     do_getserver opt key get get2 = Some (-2, usp)"
  shows "fs \<noteq> [] \<Longrightarrow> \<exists>usp'. getserver_keys opt k get get2 (fs @ gs) status usp =
     getserver_keys opt k get get2 gs (-2) usp'"
  using assms
proof (induction fs arbitrary: status usp)
  case (Cons f fs)
  then obtain key u where f: "getserver_key_str opt f k = Some key" "do_getserver opt key get get2 = Some (-2, u)"
    by auto
  with Cons show ?case by (cases fs) auto
qed simp

text \<open>
  C22. Key formats: a format written as a list of literal characters and escapes expands item by item,
  fails exactly when one of its escapes is unknown, and no text put in for an escape is scanned again.
\<close>

theorem getserver_key_expand:
  "getserver_key_str opt (render_key is) k = expand_key opt k is"
  by (cases "expand_key opt k is") (simp_all add: getserver_key_str_def key_str_loop_render)

text \<open>
  The escapes for the user, the delimiter and the domain take a user name apart, but the domain
  starts one character behind the start of the delimiter: with a longer delimiter its rest is
  repeated, so \<open>\\u\\D\\d\<close> gives the user name back for delimiters of one character only.
\<close>

lemma getserver_key_split:
  assumes "opt_domain_delimiter opt = Some dd" and "dd \<noteq> []" and "delim_free dd v"
    and "k_user k = u @ dd @ v"
  shows "getserver_key_str opt [BS, CHR ''u'', BS, CHR ''D'', BS, CHR ''d''] k =
      Some (u @ dd @ drop 1 dd @ v) \<and>
    (getserver_key_str opt [BS, CHR ''u'', BS, CHR ''D'', BS, CHR ''d''] k = Some (k_user k) \<longleftrightarrow>
      length dd = 1)"
proof -
  have sp: "gsk_split_user opt (k_user k) = (u, Some (drop 1 dd @ v))"
    using strrstr_user_part [of dd v "Some u"] assms
    by (cases dd) (simp_all add: gsk_split_user_def opt_dd_def user_part_def)
  then have g: "getserver_key_str opt [BS, CHR ''u'', BS, CHR ''D'', BS, CHR ''d''] k =
      Some (u @ dd @ drop 1 dd @ v)"
    by (simp add: getserver_key_str_def key_escape_def opt_dd_def assms(1))
  show ?thesis unfolding g using assms(2,4) by (cases dd) auto
qed

lemma getserver_key_split_witness:
  "\<forall>opt k. getserver_key_str (opt\<lparr>opt_domain_delimiter := Some ''@''\<rparr>)
      [BS, CHR ''u'', BS, CHR ''D'', BS, CHR ''d''] (k\<lparr>k_user := ''joe@x.org''\<rparr>) = Some ''joe@x.org''"
  using getserver_key_split [of "opt\<lparr>opt_domain_delimiter := Some ''@''\<rparr>" "''@''" "''x.org''"
      "k\<lparr>k_user := ''joe@x.org''\<rparr>" "''joe''" for opt :: options and k :: key_args]
  by (simp add: delim_free_char)

text \<open>
  C9. The query keys are tried in order. The first one the library does not answer with \<open>not found\<close>
  decides: its server is the result, or none if the library failed; the later keys are not looked up.
\<close>

theorem getserver_first_answer:
  assumes "opt_query_key opt = Some (fs @ f # gs)" and "opt_client_server_specification opt = 0"
    and "get \<noteq> None \<or> get2 \<noteq> None"
    and "\<forall>g \<in> set fs. \<exists>key usp. getserver_key_str opt g k = Some key \<and>
       do_getserver opt key get get2 = Some (-2, usp)"
    and "getserver_key_str opt f k = Some key" and "do_getserver opt key get get2 = Some (st, usp)"
    and "st \<noteq> -2"
  shows "getserver opt k get get2 = Some (if st < 0 then None else usp, k_user k)"
proof -
  have "getserver_keys opt k get get2 (f # gs) s u = Some (Some (st, usp))" for s u
    using assms(5-7) by simp
  then have "getserver_keys opt k get get2 (fs @ f # gs) (-1) None = Some (Some (st, usp))"
    using getserver_keys_skip [OF assms(4), of "f # gs" "-1" None] by (cases "fs = []") auto
  with assms(1-3) show ?thesis by (auto simp: getserver_def)
qed

lemma getserver_first_answer_witness:
  "\<forall>opt k. getserver (opt\<lparr>opt_query_key := Some [''a'', ''b'', ''c''], opt_client_server_specification := 0,
       opt_domain_delimiter := Some ''@''\<rparr>) k
      (Some (\<lambda>key _. if key = ''a'' then (-2, None, 0) else (0, Some ''mail:143'', 8))) None =
    Some (Some \<lparr>usp_user = None, usp_server = Some ''mail'', usp_port = Some ''143''\<rparr>, k_user k)"
proof (intro allI)
  fix opt :: options and k :: key_args
  let ?o = "opt\<lparr>opt_query_key := Some [''a'', ''b'', ''c''], opt_client_server_specification := 0,
       opt_domain_delimiter := Some ''@''\<rparr>"
  let ?g = "Some (\<lambda>key _. if key = ''a'' then (-2, None, 0) else (0, Some ''mail:143'', 8)) :: dbserver_get option"
  have a: "getserver_key_str ?o ''a'' k = Some ''a''" "getserver_key_str ?o ''b'' k = Some ''b''"
    by (simp_all add: getserver_key_str_def)
  have u: "user_server_port_strn_assign ''@'' None ''mail:143'' 8 =
      Some \<lparr>usp_user = None, usp_server = Some ''mail'', usp_port = Some ''143''\<rparr>"
    using strn_assign_plain [of "''@''" "''mail''" None "Some ''143''" None]
    by (simp add: user_part_def delim_free_char no_nul_def user_server_port_str_assign_def eval_nat_numeral)
  have d: "do_getserver ?o ''a'' ?g None = Some (-2, None)"
    "do_getserver ?o ''b'' ?g None = Some (0, Some \<lparr>usp_user = None, usp_server = Some ''mail'', usp_port = Some ''143''\<rparr>)"
    using u by (simp_all add: do_getserver_def opt_dd_def)
  show "getserver ?o k ?g None =
      Some (Some \<lparr>usp_user = None, usp_server = Some ''mail'', usp_port = Some ''143''\<rparr>, k_user k)"
    using getserver_first_answer [of ?o "[''a'']" "''b''" "[''c'']" ?g None k "''b''" 0] a d by simp
qed

text \<open>
  A user who may name the server does: the name behind the last delimiter is the server, with its
  port, the user name is cut before the delimiter, and the lookup library is not asked.
\<close>

lemma getserver_client_server:
  assumes "opt_client_server_specification opt \<noteq> 0"
    and "opt_domain_delimiter opt = Some [d]" and "opt_domain_delimiter_length opt = 1"
    and "k_user k = u @ d # server @ CHR '':'' # port"
    and "no_nul (d # server @ port)" and "d \<notin> set (server @ CHR '':'' # port)"
    and "CHR '']'' \<notin> set (server @ port)" and "CHR '':'' \<notin> set port"
  shows "getserver opt k get get2 =
    Some (Some \<lparr>usp_user = None, usp_server = Some server, usp_port = Some port\<rparr>, u)"
proof -
  have "strrstr (user_part [d] (Some u) @ server @ CHR '':'' # port) [d] = Some (length u)"
    using strrstr_user_part [of "[d]" "server @ CHR '':'' # port" "Some u"] delim_free_char [OF assms(6)]
    by simp
  moreover have "user_server_port_str_assign [d] None (server @ CHR '':'' # port) =
      Some \<lparr>usp_user = None, usp_server = Some server, usp_port = Some port\<rparr>"
    using strn_assign_plain [of "[d]" server None "Some port" None] assms delim_free_char [of d server]
    by (simp add: user_part_def)
  ultimately show ?thesis using assms(1-4)
    by (simp add: getserver_def opt_dd_def user_part_def)
qed

lemma getserver_client_server_witness:
  "\<forall>opt k. getserver (opt\<lparr>opt_client_server_specification := 1, opt_domain_delimiter := Some ''@'',
       opt_domain_delimiter_length := 1\<rparr>) (k\<lparr>k_user := ''joe@mail:143''\<rparr>) None None =
    Some (Some \<lparr>usp_user = None, usp_server = Some ''mail'', usp_port = Some ''143''\<rparr>, ''joe'')"
  using getserver_client_server [of "opt\<lparr>opt_client_server_specification := 1, opt_domain_delimiter := Some ''@'',
       opt_domain_delimiter_length := 1\<rparr>" "CHR ''@''" "k\<lparr>k_user := ''joe@mail:143''\<rparr>"
       "''joe''" "''mail''" "''143''" None None for opt :: options and k :: key_args]
  by (simp add: no_nul_def)

end
