(* ===== verification/Cmd_Write.thy ===== *)
theory Cmd_Write
  imports Queue_Func
begin

text \<open>
  Formatted output: \<open>str_vwrite\<close> of \<^verbatim>\<open>perdition/str.c\<close>, \<^verbatim>\<open>perdition/imap4_write.c\<close> and
  \<^verbatim>\<open>perdition/pop3_write.c\<close>. IMAP responses are made by putting the tag of the client in front of
  a format string, so what a tag may contain decides whether the output is right.

  The static buffers have 4096 bytes. \<open>None\<close> means that memory outside of them, or bytes left in
  them by an earlier call, would be written or sent.
\<close>

definition WRITE_STR_NO_CLLF :: flag_t where "WRITE_STR_NO_CLLF = 1"
definition STR_WRITE_BUF_LEN :: nat where "STR_WRITE_BUF_LEN = MAX_LINE_LENGTH"

subsection \<open>Formats\<close>

datatype printf_arg = Arg_s string | Arg_d nat

fun dec_string :: "nat \<Rightarrow> string" where
  "dec_string n = (if n < 10 then [char_of (48 + n)] else dec_string (n div 10) @ [char_of (48 + n mod 10)])"

declare dec_string.simps [simp del]

text \<open>\<open>%d\<close> of a number that may be negative.\<close>

definition int_str :: "int \<Rightarrow> string" where
  "int_str n = (if n < 0 then CHR ''-'' # dec_string (nat (- n)) else dec_string (nat n))"

text \<open>The conversions that the sources use. Others, and missing arguments, have no defined result.\<close>

fun c_printf :: "string \<Rightarrow> printf_arg list \<Rightarrow> string option" where
  "c_printf [] args = Some []"
| "c_printf (c # cs) args =
     (if c \<noteq> CHR ''%'' then map_option ((#) c) (c_printf cs args)
      else case cs of
             [] \<Rightarrow> None
           | d # ds \<Rightarrow>
               if d = CHR ''%'' then map_option ((#) d) (c_printf ds args)
               else case args of
                      Arg_s s # as \<Rightarrow> if d = CHR ''s'' then map_option ((@) s) (c_printf ds as) else None
                    | Arg_d n # as \<Rightarrow>
                        if d = CHR ''d'' then map_option ((@) (dec_string n)) (c_printf ds as) else None
                    | [] \<Rightarrow> None)"

text \<open>The count of the conversions in \<open>__str_vwrite\<close>.\<close>

fun count_fmt_args :: "string \<Rightarrow> nat" where
  "count_fmt_args [] = 0"
| "count_fmt_args (c # cs) =
     (if c = CHR ''%'' then
        (case cs of
           [] \<Rightarrow> 1
         | d # ds \<Rightarrow> if d = CHR ''%'' then count_fmt_args ds else 1 + count_fmt_args cs)
      else count_fmt_args cs)"

text \<open>The result is the bytes to send, or an inner \<open>None\<close> for NULL.\<close>

definition str_vformat :: "flag_t \<Rightarrow> nat \<Rightarrow> string \<Rightarrow> printf_arg list \<Rightarrow> string option option" where
  "str_vformat flag nargs fmt ap =
     (if nargs = 0 \<and> flag AND WRITE_STR_NO_CLLF \<noteq> 0 then Some (Some fmt)
      else if count_fmt_args fmt \<noteq> nargs then Some None
      else do { s \<leftarrow> c_printf fmt ap;
                if length s \<ge> STR_WRITE_BUF_LEN - 2 then None
                else if flag AND WRITE_STR_NO_CLLF = 0 then Some (Some (s @ CRLF)) else Some (Some s) })"

text \<open>One write call; writing less than all bytes is an error.\<close>

definition put :: "ioid \<Rightarrow> string \<Rightarrow> world \<Rightarrow> world" where
  "put i s w = upd_io i (snd (io_write (ios w i) s)) w"

definition accepts :: "ioid \<Rightarrow> string \<Rightarrow> world \<Rightarrow> bool" where
  "accepts i s w \<longleftrightarrow> fst (io_write (ios w i) s) = int (length s)"

definition str_vwrite ::
    "ioid \<Rightarrow> flag_t \<Rightarrow> nat \<Rightarrow> string \<Rightarrow> printf_arg list \<Rightarrow> world \<Rightarrow> (int \<times> world) option" where
  "str_vwrite i flag nargs fmt ap w =
     do { r \<leftarrow> str_vformat flag nargs fmt ap;
          Some (case r of
                  None \<Rightarrow> (-1, w)
                | Some str \<Rightarrow> (if accepts i str w then 0 else -1, put i str w)) }"

definition str_write ::
    "ioid \<Rightarrow> flag_t \<Rightarrow> nat \<Rightarrow> string \<Rightarrow> printf_arg list \<Rightarrow> world \<Rightarrow> (int \<times> world) option" where
  "str_write i flag nargs fmt ap w = str_vwrite i flag nargs fmt ap w"

subsection \<open>IMAP\<close>

definition IMAP4_UNTAGGED :: string where "IMAP4_UNTAGGED = ''*''"
definition IMAP4_CONT_TAG :: string where "IMAP4_CONT_TAG = ''+''"
definition IMAP4_OK :: string where "IMAP4_OK = ''OK''"
definition IMAP4_BAD :: string where "IMAP4_BAD = ''BAD''"
definition IMAP4_NO :: string where "IMAP4_NO = ''NO''"
definition IMAP4_BYE :: string where "IMAP4_BYE = ''BYE''"

lemmas imap4_word_defs = IMAP4_UNTAGGED_def IMAP4_CONT_TAG_def IMAP4_OK_def IMAP4_BAD_def
  IMAP4_NO_def IMAP4_BYE_def

text \<open>The new format, as the C string in the static buffer, and the flag.\<close>

definition imap4_write_fmt ::
    "flag_t \<Rightarrow> token option \<Rightarrow> string option \<Rightarrow> string option \<Rightarrow> (string option \<times> flag_t) option" where
  "imap4_write_fmt flag tag command fmt =
     (if command = None \<and> tag = None then Some (fmt, flag)
      else let tag_str = (case tag of None \<Rightarrow> IMAP4_UNTAGGED | Some t \<Rightarrow> token_str t);
               cmd = (case command of None \<Rightarrow> [] | Some c \<Rightarrow> SP # c);
               rest = (case fmt of None \<Rightarrow> [] | Some f \<Rightarrow> if f = [] then [] else SP # f);
               crlf = (if flag AND WRITE_STR_NO_CLLF = 0 then CRLF else []);
               buf = tag_str @ cmd @ rest @ crlf
           in if length buf \<ge> MAX_LINE_LENGTH then None
              else Some (Some (cstr buf), flag OR WRITE_STR_NO_CLLF))"

definition imap4_write ::
    "ioid \<Rightarrow> flag_t \<Rightarrow> token option \<Rightarrow> string option \<Rightarrow> nat \<Rightarrow> string option \<Rightarrow> printf_arg list
      \<Rightarrow> world \<Rightarrow> (int \<times> world) option" where
  "imap4_write i flag tag command nargs fmt ap w =
     do { (new_fmt, flag') \<leftarrow> imap4_write_fmt flag tag command fmt;
          f \<leftarrow> new_fmt;
          str_vwrite i flag' nargs f ap w }"

definition imap4_write_str ::
    "ioid \<Rightarrow> flag_t \<Rightarrow> token option \<Rightarrow> string option \<Rightarrow> string option \<Rightarrow> world
      \<Rightarrow> (int \<times> world) option" where
  "imap4_write_str i flag tag command str w =
     (case str of
        Some s \<Rightarrow> imap4_write i flag tag command 1 (Some ''%s'') [Arg_s s] w
      | None \<Rightarrow> imap4_write i flag tag command 0 None [] w)"

subsection \<open>POP3\<close>

definition POP3_OK :: string where "POP3_OK = ''+OK''"
definition POP3_ERR :: string where "POP3_ERR = ''-ERR''"

definition pop3_write_fmt :: "flag_t \<Rightarrow> string option \<Rightarrow> string option \<Rightarrow> (string option \<times> flag_t) option" where
  "pop3_write_fmt flag command fmt =
     (case command of
        None \<Rightarrow> Some (fmt, flag)
      | Some cmd \<Rightarrow>
          let rest = (case fmt of None \<Rightarrow> [] | Some f \<Rightarrow> if f = [] then [] else SP # f);
              crlf = (if flag AND WRITE_STR_NO_CLLF = 0 then CRLF else []);
              buf = cmd @ rest @ crlf
          in if length buf \<ge> MAX_LINE_LENGTH then None
             else Some (Some (cstr buf), flag OR WRITE_STR_NO_CLLF))"

definition pop3_vwrite ::
    "ioid \<Rightarrow> flag_t \<Rightarrow> string option \<Rightarrow> nat \<Rightarrow> string option \<Rightarrow> printf_arg list
      \<Rightarrow> world \<Rightarrow> (int \<times> world) option" where
  "pop3_vwrite i flag command nargs fmt ap w =
     do { (new_fmt, flag') \<leftarrow> pop3_write_fmt flag command fmt;
          f \<leftarrow> new_fmt;
          str_vwrite i flag' nargs f ap w }"

definition pop3_write ::
    "ioid \<Rightarrow> flag_t \<Rightarrow> string option \<Rightarrow> nat \<Rightarrow> string option \<Rightarrow> printf_arg list
      \<Rightarrow> world \<Rightarrow> (int \<times> world) option" where
  "pop3_write i flag command nargs fmt ap w = pop3_vwrite i flag command nargs fmt ap w"

definition pop3_write_str ::
    "ioid \<Rightarrow> flag_t \<Rightarrow> token option \<Rightarrow> string option \<Rightarrow> string option \<Rightarrow> world
      \<Rightarrow> (int \<times> world) option" where
  "pop3_write_str i flag tag command str w =
     (case str of
        Some s \<Rightarrow> pop3_write i flag command 1 (Some ''%s'') [Arg_s s] w
      | None \<Rightarrow> pop3_write i flag command 0 None [] w)"

subsection \<open>Formats without conversions\<close>

lemma c_printf_plain: "CHR ''%'' \<notin> set s \<Longrightarrow> c_printf (s @ f) args = map_option ((@) s) (c_printf f args)"
  by (induction s; cases "c_printf f args"; auto)

lemma count_plain: "CHR ''%'' \<notin> set s \<Longrightarrow> count_fmt_args (s @ f) = count_fmt_args f"
  by (induction s) auto

lemma c_printf_plain0: "CHR ''%'' \<notin> set s \<Longrightarrow> c_printf s args = Some s"
  using c_printf_plain [of s "[]"] by simp

lemma count_plain0: "CHR ''%'' \<notin> set s \<Longrightarrow> count_fmt_args s = 0"
  using count_plain [of s "[]"] by simp

lemma no_cllf_nonzero [simp]: "WRITE_STR_NO_CLLF \<noteq> 0"
  by (simp add: WRITE_STR_NO_CLLF_def)

lemma no_cllf_set [simp]: "(flag OR WRITE_STR_NO_CLLF) AND WRITE_STR_NO_CLLF = WRITE_STR_NO_CLLF" for flag :: flag_t
  by (rule bit_word_eqI) (auto simp: bit_and_iff bit_or_iff)

subsection \<open>What the writers send\<close>

definition line_of :: "flag_t \<Rightarrow> string \<Rightarrow> string" where
  "line_of flag s = s @ (if flag AND WRITE_STR_NO_CLLF = 0 then CRLF else [])"

definition opt_word :: "string option \<Rightarrow> string" where
  "opt_word s = (case s of None \<Rightarrow> [] | Some x \<Rightarrow> SP # x)"

definition plain_text :: "string \<Rightarrow> bool" where
  "plain_text s \<longleftrightarrow> CHR ''%'' \<notin> set s \<and> no_nul s"

definition send_line :: "ioid \<Rightarrow> string \<Rightarrow> world \<Rightarrow> (int \<times> world) option" where
  "send_line i s w =
     (if length s < STR_WRITE_BUF_LEN - 2 then Some (if accepts i s w then 0 else -1, put i s w) else None)"

lemma plain_CRLF [simp]: "plain_text CRLF" "no_nul CRLF" "CHR ''%'' \<notin> set CRLF"
  by (simp_all add: plain_text_def CRLF_def)

lemma fmt_one:
  assumes "plain_text a" and "plain_text b"
  shows "count_fmt_args (a @ ''%s'' @ b) = 1" "c_printf (a @ ''%s'' @ b) [Arg_s s] = Some (a @ s @ b)"
    "cstr (a @ ''%s'' @ b) = a @ ''%s'' @ b"
  using assms
  by (simp_all add: plain_text_def count_plain count_plain0 c_printf_plain c_printf_plain0)

text \<open>A tagged response: the tag, the command and the text, each sent as it is.\<close>

lemma imap4_write_str_line:
  assumes "plain_text (case tag of None \<Rightarrow> IMAP4_UNTAGGED | Some t \<Rightarrow> token_str t)"
    and "plain_text command"
    and "length (case tag of None \<Rightarrow> IMAP4_UNTAGGED | Some t \<Rightarrow> token_str t) + length command < MAX_LINE_LENGTH - 6"
  shows "imap4_write_str i flag tag (Some command) (Some s) w =
    send_line i (line_of flag ((case tag of None \<Rightarrow> IMAP4_UNTAGGED | Some t \<Rightarrow> token_str t) @ SP # command @ SP # s)) w"
proof -
  let ?t = "case tag of None \<Rightarrow> IMAP4_UNTAGGED | Some t \<Rightarrow> token_str t"
  let ?a = "?t @ SP # command @ [SP]" and ?b = "if flag AND WRITE_STR_NO_CLLF = 0 then CRLF else []"
  have p: "plain_text ?a" "plain_text ?b" using assms by (auto simp: plain_text_def)
  note f = fmt_one [OF p]
  have buf: "?t @ (SP # command) @ (SP # ''%s'') @ ?b = ?a @ ''%s'' @ ?b" by simp
  have len: "length (?a @ ''%s'' @ ?b) < MAX_LINE_LENGTH"
    using assms(3) by (auto simp: CRLF_def MAX_LINE_LENGTH_def)
  have "imap4_write_fmt flag tag (Some command) (Some ''%s'') =
      Some (Some (?a @ ''%s'' @ ?b), flag OR WRITE_STR_NO_CLLF)"
    using len f(3) unfolding imap4_write_fmt_def Let_def by (simp only: buf option.case) simp
  then show ?thesis
    using f(1) f(2) [of s]
    by (simp add: imap4_write_str_def imap4_write_def str_vwrite_def str_vformat_def send_line_def line_of_def)
qed

lemma imap4_write_str_cmd:
  assumes "no_nul (case tag of None \<Rightarrow> IMAP4_UNTAGGED | Some t \<Rightarrow> token_str t)"
    and "no_nul command"
    and "length (case tag of None \<Rightarrow> IMAP4_UNTAGGED | Some t \<Rightarrow> token_str t) + length command < MAX_LINE_LENGTH - 6"
  shows "imap4_write_str i flag tag (Some command) None w =
    (let s = line_of flag ((case tag of None \<Rightarrow> IMAP4_UNTAGGED | Some t \<Rightarrow> token_str t) @ SP # command)
     in Some (if accepts i s w then 0 else -1, put i s w))"
proof -
  let ?t = "case tag of None \<Rightarrow> IMAP4_UNTAGGED | Some t \<Rightarrow> token_str t"
  have "cstr (?t @ SP # command) = ?t @ SP # command" "cstr (?t @ SP # command @ CRLF) = ?t @ SP # command @ CRLF"
    using assms by simp_all
  with assms(3) show ?thesis
    by (auto simp: imap4_write_str_def imap4_write_def imap4_write_fmt_def str_vwrite_def str_vformat_def
      Let_def line_of_def CRLF_def MAX_LINE_LENGTH_def simp del: cstr_id)
qed

lemma pop3_write_str_line:
  assumes "plain_text command" and "length command < MAX_LINE_LENGTH - 6"
  shows "pop3_write_str i flag tag (Some command) (Some s) w = send_line i (line_of flag (command @ SP # s)) w"
proof -
  let ?a = "command @ [SP]" and ?b = "if flag AND WRITE_STR_NO_CLLF = 0 then CRLF else []"
  have p: "plain_text ?a" "plain_text ?b" using assms by (auto simp: plain_text_def)
  note f = fmt_one [OF p]
  have buf: "command @ (SP # ''%s'') @ ?b = ?a @ ''%s'' @ ?b" by simp
  have len: "length (?a @ ''%s'' @ ?b) < MAX_LINE_LENGTH" using assms(2) by (auto simp: CRLF_def MAX_LINE_LENGTH_def)
  have "pop3_write_fmt flag (Some command) (Some ''%s'') =
      Some (Some (?a @ ''%s'' @ ?b), flag OR WRITE_STR_NO_CLLF)"
    using len f(3) unfolding pop3_write_fmt_def Let_def by (simp only: buf option.case) simp
  then show ?thesis
    using f(1) f(2) [of s]
    by (simp add: pop3_write_str_def pop3_write_def pop3_vwrite_def str_vwrite_def str_vformat_def
        send_line_def line_of_def)
qed

lemma pop3_write_str_cmd:
  assumes "no_nul command" and "length command < MAX_LINE_LENGTH - 6"
  shows "pop3_write_str i flag tag (Some command) None w =
    (let s = line_of flag command in Some (if accepts i s w then 0 else -1, put i s w))"
  using assms
  by (auto simp: pop3_write_str_def pop3_write_def pop3_vwrite_def pop3_write_fmt_def str_vwrite_def
      str_vformat_def Let_def line_of_def CRLF_def MAX_LINE_LENGTH_def)

subsection \<open>Frame\<close>

lemma put_frame [simp]:
  "tbuf (put i s w) = tbuf w" "toff (put i s w) = toff w" "tbytes (put i s w) = tbytes w"
  "j \<noteq> i \<Longrightarrow> ios (put i s w) j = ios w j"
  by (simp_all add: put_def)

lemma put_io [simp]:
  "io_type (ios (put i s w) j) = io_type (ios w j)" "io_rd (ios (put i s w) j) = io_rd (ios w j)"
  "io_timeout (ios (put i s w) j) = io_timeout (ios w j)"
  using io_write_frame [of "ios w i" s "fst (io_write (ios w i) s)" "snd (io_write (ios w i) s)"]
  by (auto simp: put_def)

lemma pending_put [simp]: "pending j (put i s w) = pending j w"
  by (simp add: pending_def)

lemma avail_put [simp]: "avail j (put i s w) = avail j w"
  by (simp add: avail_def io_stream_def)

lemma wf_buffer_put [simp]: "wf_buffer (put i s w) = wf_buffer w"
  by (simp add: wf_buffer_def)

lemma str_vwrite_frame:
  "str_vwrite i flag nargs fmt ap w = Some (rc, w') \<Longrightarrow> w' = w \<or> (\<exists>s. w' = put i s w)"
  by (auto simp: str_vwrite_def bind_eq_Some_conv split: option.splits if_splits)

lemma imap4_write_frame:
  "imap4_write i flag tag cmd nargs fmt ap w = Some (rc, w') \<Longrightarrow> w' = w \<or> (\<exists>s. w' = put i s w)"
  by (auto simp: imap4_write_def bind_eq_Some_conv dest: str_vwrite_frame)

lemma imap4_write_str_frame:
  "imap4_write_str i flag tag cmd s w = Some (rc, w') \<Longrightarrow> w' = w \<or> (\<exists>s. w' = put i s w)"
  by (auto simp: imap4_write_str_def dest: imap4_write_frame split: option.splits)

lemma pop3_write_frame:
  "pop3_write i flag cmd nargs fmt ap w = Some (rc, w') \<Longrightarrow> w' = w \<or> (\<exists>s. w' = put i s w)"
  by (auto simp: pop3_write_def pop3_vwrite_def bind_eq_Some_conv dest: str_vwrite_frame)

lemma pop3_write_str_frame:
  "pop3_write_str i flag tag cmd s w = Some (rc, w') \<Longrightarrow> w' = w \<or> (\<exists>s. w' = put i s w)"
  by (auto simp: pop3_write_str_def dest: pop3_write_frame split: option.splits)

end
