(* ===== verification/Greeting.thy ===== *)
theory Greeting
  imports Cmd_Write Options
begin

text \<open>
  The greeting string of \<^verbatim>\<open>perdition/greeting.c\<close> with its checksum over the options. What comes from
  the system is the record \<open>net_env\<close>: whether \<open>sockname\<close> is set, the results of the two calls of
  \<open>getnameinfo\<close> (return code and host), the node name, and the option strings that
  \<open>log_options_str\<close> builds.
\<close>

record net_env =
  net_sock :: bool
  net_lookup :: "int \<times> string"
  net_numeric :: "int \<times> string"
  net_nodename :: string
  net_opts :: "string list"

definition EAI_AGAIN :: int where "EAI_AGAIN = -3"
definition GREETING_ADD_NODENAME :: flag_t where "GREETING_ADD_NODENAME = 1"

fun greeting_checksum :: "32 word \<Rightarrow> string list \<Rightarrow> 32 word option" where
  "greeting_checksum csum [] = Some csum"
| "greeting_checksum csum (p # ps) =
     do { r \<leftarrow> str_rolling32 p (length p); greeting_checksum (csum + r) ps }"

definition getnameinfo_try_lookup :: "options \<Rightarrow> net_env \<Rightarrow> int \<times> string" where
  "getnameinfo_try_lookup opt net =
     (let (rc, host) = (if opt_no_lookup opt = 0 then net_lookup net else (EAI_AGAIN, []))
      in if rc = EAI_AGAIN then net_numeric net else (rc, host))"

definition hex_digit :: "nat \<Rightarrow> char" where
  "hex_digit n = (if n < 10 then char_of (48 + n) else char_of (87 + n))"

definition hex8 :: "32 word \<Rightarrow> string" where
  "hex8 w = map (\<lambda>i. hex_digit (unat (drop_bit (4 * i) w) mod 16)) [7, 6, 5, 4, 3, 2, 1, 0]"

text \<open>The outer \<open>None\<close> is for an empty option string, whose checksum leaves the string.\<close>

definition greeting_str :: "options \<Rightarrow> net_env \<Rightarrow> string \<Rightarrow> flag_t \<Rightarrow> string option option" where
  "greeting_str opt net base flag =
     do { csum \<leftarrow> greeting_checksum 0 (net_opts net);
          if flag AND GREETING_ADD_NODENAME \<noteq> 0
          then (if opt_no_bind_banner opt = 0 \<and> net_sock net
                then (case getnameinfo_try_lookup opt net of
                        (rc, host) \<Rightarrow>
                          if rc \<noteq> 0 then Some None
                          else Some (str_cat [base, '' '', host, '' '', hex8 csum]))
                else Some (str_cat [base, '' '', net_nodename net, '' '', hex8 csum]))
          else Some (Some base) }"

lemma length_hex8 [simp]: "length (hex8 w) = 8"
  by (simp add: hex8_def)

end
