(* ===== verification/Protocol_Params.thy ===== *)
theory Protocol_Params
  imports Greeting
begin

text \<open>
  The static part of the protocols, from \<^verbatim>\<open>perdition/imap4.c\<close>, \<^verbatim>\<open>imap4s.c\<close>, \<^verbatim>\<open>pop3.c\<close>, \<^verbatim>\<open>pop3s.c\<close>,
  \<^verbatim>\<open>managesieve.c\<close> and the capability functions of \<^verbatim>\<open>pop3_in.c\<close>: response words, ports, encryption
  flags, capability strings and greetings. The flags of type \<open>flag_t\<close> passed to the capability
  functions are option values; they are integers here, as the options are.
\<close>

subsection \<open>Ports and encryption\<close>

definition PERDITION_PROTOCOL_DEPENDANT :: string where
  "PERDITION_PROTOCOL_DEPENDANT = ''protocol dependent''"

definition protocol_port :: "options \<Rightarrow> string \<Rightarrow> string \<Rightarrow> string \<Rightarrow> string" where
  "protocol_port opt number name port =
     (if port \<noteq> PERDITION_PROTOCOL_DEPENDANT then port
      else if opt_no_lookup opt \<noteq> 0 then number else name)"

definition imap4_port :: "options \<Rightarrow> string \<Rightarrow> string" where
  "imap4_port opt port = protocol_port opt ''143'' ''imap'' port"
definition imap4s_port :: "options \<Rightarrow> string \<Rightarrow> string" where
  "imap4s_port opt port = protocol_port opt ''993'' ''imaps'' port"
definition pop3_port :: "options \<Rightarrow> string \<Rightarrow> string" where
  "pop3_port opt port = protocol_port opt ''110'' ''pop3'' port"
definition pop3s_port :: "options \<Rightarrow> string \<Rightarrow> string" where
  "pop3s_port opt port = protocol_port opt ''995'' ''pop3s'' port"
definition managesieve_port :: "options \<Rightarrow> string \<Rightarrow> string" where
  "managesieve_port opt port = protocol_port opt ''4190'' ''sieve'' port"

definition imap4_encryption :: "int \<Rightarrow> int" where "imap4_encryption ssl_flags = ssl_flags"
definition pop3_encryption :: "int \<Rightarrow> int" where "pop3_encryption ssl_flags = ssl_flags"
definition managesieve_encryption :: "int \<Rightarrow> int" where "managesieve_encryption ssl_flags = ssl_flags"
definition imap4s_encryption :: "int \<Rightarrow> int" where
  "imap4s_encryption ssl_flags = (if ssl_flags \<noteq> SSL_MODE_EMPTY then ssl_flags else SSL_MODE_SSL_ALL)"
definition pop3s_encryption :: "int \<Rightarrow> int" where
  "pop3s_encryption ssl_flags = (if ssl_flags \<noteq> SSL_MODE_EMPTY then ssl_flags else SSL_MODE_SSL_ALL)"

text \<open>What the main program relies on when it settles the ports and the encryption once.\<close>

locale protocol_settings =
  fixes port :: "options \<Rightarrow> string \<Rightarrow> string" and encryption :: "int \<Rightarrow> int"
    and number :: string and name :: string
  assumes port_given: "p \<noteq> PERDITION_PROTOCOL_DEPENDANT \<Longrightarrow> port opt p = p"
    and port_default: "port opt PERDITION_PROTOCOL_DEPENDANT = (if opt_no_lookup opt \<noteq> 0 then number else name)"
    and fixed: "number \<noteq> PERDITION_PROTOCOL_DEPENDANT" "name \<noteq> PERDITION_PROTOCOL_DEPENDANT"
    and encryption_given: "f \<noteq> SSL_MODE_EMPTY \<Longrightarrow> encryption f = f"
    and encryption_default: "encryption SSL_MODE_EMPTY \<in> {SSL_MODE_EMPTY, SSL_MODE_SSL_ALL}"
begin

lemma port_settled: "port opt (port opt' p) = port opt' p"
  using port_given port_default fixed by metis

lemma port_known: "port opt p \<noteq> PERDITION_PROTOCOL_DEPENDANT"
  using port_given port_default fixed by metis

lemma encryption_settled: "encryption (encryption f) = encryption f"
proof (cases "f = SSL_MODE_EMPTY")
  case True
  have "SSL_MODE_SSL_ALL \<noteq> SSL_MODE_EMPTY" by (simp add: ssl_mode_defs)
  with True show ?thesis using encryption_default encryption_given by auto
qed (simp add: encryption_given)

lemma encryption_no_tls: "f AND SSL_MODE_TLS_ALL = 0 \<Longrightarrow> encryption f AND SSL_MODE_TLS_ALL = 0"
  using encryption_given [of f] encryption_default
  by (cases "f = SSL_MODE_EMPTY") (auto simp: ssl_mode_defs)

end

lemmas port_defs = protocol_port_def imap4_port_def imap4s_port_def pop3_port_def pop3s_port_def
  managesieve_port_def PERDITION_PROTOCOL_DEPENDANT_def
lemmas encryption_defs = imap4_encryption_def imap4s_encryption_def pop3_encryption_def
  pop3s_encryption_def managesieve_encryption_def ssl_mode_defs

interpretation imap4: protocol_settings imap4_port imap4_encryption "''143''" "''imap''"
  by unfold_locales (auto simp: port_defs encryption_defs)
interpretation imap4s: protocol_settings imap4s_port imap4s_encryption "''993''" "''imaps''"
  by unfold_locales (auto simp: port_defs encryption_defs)
interpretation pop3: protocol_settings pop3_port pop3_encryption "''110''" "''pop3''"
  by unfold_locales (auto simp: port_defs encryption_defs)
interpretation pop3s: protocol_settings pop3s_port pop3s_encryption "''995''" "''pop3s''"
  by unfold_locales (auto simp: port_defs encryption_defs)
interpretation managesieve: protocol_settings managesieve_port managesieve_encryption "''4190''" "''sieve''"
  by unfold_locales (auto simp: port_defs encryption_defs)

subsection \<open>Capabilities\<close>

definition IMAP4_CMD_STARTTLS :: string where "IMAP4_CMD_STARTTLS = ''STARTTLS''"
definition IMAP4_CMD_LOGINDISABLED :: string where "IMAP4_CMD_LOGINDISABLED = ''LOGINDISABLED''"
definition IMAP4_CMD_CAPABILITY :: string where "IMAP4_CMD_CAPABILITY = ''CAPABILITY''"
definition IMAP4_CAPABILITY_DELIMITER :: string where "IMAP4_CAPABILITY_DELIMITER = '' ''"

definition starttls_mode :: "int \<Rightarrow> int \<Rightarrow> flag_t" where
  "starttls_mode tls_flags tls_state =
     (if tls_flags AND SSL_MODE_TLS_LISTEN \<noteq> 0 \<and> tls_state AND SSL_MODE_TLS_LISTEN = 0
      then PROTOCOL_C_ADD else PROTOCOL_C_DEL)"

definition imap4_capability :: "options \<Rightarrow> int \<Rightarrow> int \<Rightarrow> string option" where
  "imap4_capability opt tls_flags tls_state =
     do { configured \<leftarrow> opt_imap_capability opt;
          capability \<leftarrow> protocol_capability (starttls_mode tls_flags tls_state) configured
                          IMAP4_CMD_STARTTLS IMAP4_CAPABILITY_DELIMITER;
          if opt_login_disabled opt = 0 \<and>
             (tls_flags AND SSL_MODE_TLS_LISTEN = 0 \<or> tls_flags AND SSL_MODE_TLS_LISTEN_FORCE = 0)
          then Some capability
          else protocol_capability
                 (if tls_state AND SSL_MODE_TLS_LISTEN = 0 then PROTOCOL_C_ADD else PROTOCOL_C_DEL)
                 capability IMAP4_CMD_LOGINDISABLED IMAP4_CAPABILITY_DELIMITER }"

text \<open>
  The common loop of \<open>pop3_in_mangle_capability\<close> and \<open>managesieve_mangle_capability\<close>: each
  delimiter becomes a line end.
\<close>

function mangle_loop :: "string \<Rightarrow> string \<Rightarrow> string" where
  "mangle_loop old_delimiter start =
     (case strstr start old_delimiter of
        None \<Rightarrow> start
      | Some i \<Rightarrow>
          if old_delimiter = [] then start
          else take i start @ CRLF @ mangle_loop old_delimiter (drop (i + length old_delimiter) start))"
  by pat_completeness auto
termination
  by (relation "measure (\<lambda>(d, s). length s)") (auto dest!: strstr_Some_length simp flip: length_greater_0_conv)

declare mangle_loop.simps [simp del]

definition pop3_in_mangle_capability :: "string \<Rightarrow> string \<Rightarrow> string" where
  "pop3_in_mangle_capability capability old_delimiter =
     mangle_loop old_delimiter capability @ CRLF @ ''.'' @ CRLF"

definition POP3_CMD_STLS :: string where "POP3_CMD_STLS = ''STLS''"
definition POP3_CAPABILITY_DELIMITER :: string where "POP3_CAPABILITY_DELIMITER = ''.''"
definition POP3_OLD_CAPABILITY_DELIMITER :: string where "POP3_OLD_CAPABILITY_DELIMITER = ''  ''"

definition pop3_in_capability :: "options \<Rightarrow> int \<Rightarrow> int \<Rightarrow> string option" where
  "pop3_in_capability opt tls_flags tls_state =
     do { capability \<leftarrow> opt_pop_capability opt;
          let delimiter = (if strstr capability POP3_CAPABILITY_DELIMITER \<noteq> None
                           then POP3_CAPABILITY_DELIMITER else POP3_OLD_CAPABILITY_DELIMITER);
          c \<leftarrow> protocol_capability (starttls_mode tls_flags tls_state) capability POP3_CMD_STLS delimiter;
          Some (pop3_in_mangle_capability c delimiter) }"

definition MANAGESIEVE_CAPA_STARTTLS :: string where
  "MANAGESIEVE_CAPA_STARTTLS = DQ # ''STARTTLS'' @ [DQ]"
definition MANAGESIEVE_CAPA_DELIMITER :: string where "MANAGESIEVE_CAPA_DELIMITER = ''  ''"

definition managesieve_mangle_capability :: "string \<Rightarrow> string" where
  "managesieve_mangle_capability capability = mangle_loop MANAGESIEVE_CAPA_DELIMITER capability"

definition managesieve_capability :: "options \<Rightarrow> int \<Rightarrow> int \<Rightarrow> string option" where
  "managesieve_capability opt tls_flags tls_state =
     do { configured \<leftarrow> opt_managesieve_capability opt;
          c \<leftarrow> protocol_capability (starttls_mode tls_flags tls_state) configured
                 MANAGESIEVE_CAPA_STARTTLS MANAGESIEVE_CAPA_DELIMITER;
          Some (managesieve_mangle_capability c) }"

subsection \<open>Greetings\<close>

definition IMAP4_GREETING :: string where "IMAP4_GREETING = ''perdition ready on''"
definition POP3_GREETING :: string where "POP3_GREETING = ''POP3 perditon ready on''"
definition MANAGESIEVE_GREETING :: string where "MANAGESIEVE_GREETING = ''perdition ready on''"
definition MANAGESIEVE_OK :: string where "MANAGESIEVE_OK = ''OK''"

definition imap4_greeting_str :: "options \<Rightarrow> net_env \<Rightarrow> flag_t \<Rightarrow> string option option" where
  "imap4_greeting_str opt net flag =
     do { capability \<leftarrow> imap4_capability opt (opt_ssl_mode opt) SSL_MODE_EMPTY;
          greeting_str opt net
            (''['' @ IMAP4_CMD_CAPABILITY @ '' '' @ capability @ ''] '' @ IMAP4_GREETING) flag }"

definition imap4_greeting :: "options \<Rightarrow> net_env \<Rightarrow> ioid \<Rightarrow> flag_t \<Rightarrow> world \<Rightarrow> (int \<times> world) option" where
  "imap4_greeting opt net i flag w =
     do { m \<leftarrow> imap4_greeting_str opt net flag;
          case m of
            None \<Rightarrow> Some (-1, w)
          | Some message \<Rightarrow>
              do { (rc, w') \<leftarrow> imap4_write_str i NULL_FLAG None (Some IMAP4_OK) (Some message) w;
                   Some (if rc < 0 then -1 else 0, w') } }"

definition pop3_greeting :: "options \<Rightarrow> net_env \<Rightarrow> ioid \<Rightarrow> flag_t \<Rightarrow> world \<Rightarrow> (int \<times> world) option" where
  "pop3_greeting opt net i flag w =
     do { m \<leftarrow> greeting_str opt net POP3_GREETING flag;
          case m of
            None \<Rightarrow> Some (-1, w)
          | Some message \<Rightarrow>
              do { (rc, w') \<leftarrow> pop3_write_str i NULL_FLAG None (Some POP3_OK) (Some message) w;
                   Some (if rc < 0 then -1 else 0, w') } }"

definition managesieve_capability_msg :: "options \<Rightarrow> int \<Rightarrow> int \<Rightarrow> string \<Rightarrow> string option" where
  "managesieve_capability_msg opt tls_flags tls_state tail =
     do { capability \<leftarrow> managesieve_capability opt tls_flags tls_state;
          Some (capability @ CRLF @ MANAGESIEVE_OK @ [SP, DQ] @ tail @ [DQ]) }"

definition managesieve_greeting_str :: "options \<Rightarrow> net_env \<Rightarrow> flag_t \<Rightarrow> string option option" where
  "managesieve_greeting_str opt net flag =
     do { t \<leftarrow> greeting_str opt net MANAGESIEVE_GREETING flag;
          case t of
            None \<Rightarrow> Some None
          | Some tail \<Rightarrow>
              map_option Some (managesieve_capability_msg opt (opt_ssl_mode opt) SSL_MODE_EMPTY tail) }"

definition managesieve_write_raw :: "ioid \<Rightarrow> string \<Rightarrow> world \<Rightarrow> (int \<times> world) option" where
  "managesieve_write_raw i message w = str_write i 0 1 ''%s'' [Arg_s message] w"

definition managesieve_greeting :: "options \<Rightarrow> net_env \<Rightarrow> ioid \<Rightarrow> flag_t \<Rightarrow> world \<Rightarrow> (int \<times> world) option" where
  "managesieve_greeting opt net i flag w =
     do { m \<leftarrow> managesieve_greeting_str opt net flag;
          case m of
            None \<Rightarrow> Some (-1, w)
          | Some message \<Rightarrow> managesieve_write_raw i message w }"

subsection \<open>Lemmas on capabilities\<close>

definition add_word :: "string \<Rightarrow> string list \<Rightarrow> string list" where
  "add_word n ws = ws @ (if n \<in> set ws then [] else [n])"

definition del_word :: "string \<Rightarrow> string list \<Rightarrow> string list" where
  "del_word n ws = filter (\<lambda>w. w \<noteq> n) ws"

lemma words_free_simps [simp]:
  "words_free c (w # ws) \<longleftrightarrow> c \<notin> set w \<and> words_free c ws"
  "words_free c ws \<Longrightarrow> c \<notin> set n \<Longrightarrow> words_free c (add_word n ws)"
  "words_free c ws \<Longrightarrow> words_free c (del_word n ws)"
  by (auto simp: words_free_def add_word_def del_word_def)

lemma capability_edit:
  assumes "n \<noteq> []" and "c \<notin> set n" and "words_free c (w # ws)" and "\<not> prefix n w"
  shows "protocol_capability PROTOCOL_C_ADD (join c (w # ws)) n [c] = Some (join c (w # add_word n ws))"
    and "protocol_capability PROTOCOL_C_DEL (join c (w # ws)) n [c] = Some (join c (w # del_word n ws))"
  using str_append_if_missing_words [OF assms(1-3)] str_delete_substring_words [OF assms(1-3)] assms(4)
  by (auto simp: protocol_capability_def PROTOCOL_C_ADD_def PROTOCOL_C_DEL_def add_word_def del_word_def
      simp del: join.simps)

lemma mangle_words:
  assumes "words_free c (w # ws)"
  shows "mangle_loop [c] (join c (w # ws)) = w @ concat (map ((@) CRLF) ws)"
  using assms
proof (induction ws arbitrary: w)
  case Nil
  then have "strstr w [c] = None"
    using strstr_Some_prefix [of w "[c]"] by (cases "strstr w [c]") (auto simp: prefix_single_drop words_free_def)
  then show ?case by (simp add: mangle_loop.simps)
next
  case (Cons v ws)
  have j: "join c (w # v # ws) = w @ c # join c (v # ws)" by simp
  have "strstr (w @ c # join c (v # ws)) [c] = Some (length w)"
    by (rule strstr_eqI, unfold prefix_single_drop)
      (use Cons.prems in \<open>auto simp: nth_append words_free_def dest: nth_mem\<close>)
  with Cons.IH [of v] Cons.prems show ?case
    unfolding j by (subst mangle_loop.simps) (simp del: join.simps)
qed

subsection \<open>What is advertised\<close>

text \<open>
  The capabilities offered to an IMAP client are the configured words, with STARTTLS among them
  exactly while TLS is available and not yet active, and, if logins may be refused (by
  \<open>login_disabled\<close> or because TLS is forced), with LOGINDISABLED exactly as long as TLS is not active.
\<close>

lemma imap4_capability_words:
  assumes "opt_imap_capability opt = Some (join SP (w # ws))" and "words_free SP (w # ws)"
    and "\<not> prefix ''STARTTLS'' w" and "\<not> prefix ''LOGINDISABLED'' w"
  shows "imap4_capability opt tls_flags tls_state =
    (let active = tls_state AND SSL_MODE_TLS_LISTEN \<noteq> 0;
         offer = tls_flags AND SSL_MODE_TLS_LISTEN \<noteq> 0 \<and> \<not> active;
         refuse = opt_login_disabled opt \<noteq> 0 \<or>
           (tls_flags AND SSL_MODE_TLS_LISTEN \<noteq> 0 \<and> tls_flags AND SSL_MODE_TLS_LISTEN_FORCE \<noteq> 0);
         ws1 = (if offer then add_word ''STARTTLS'' ws else del_word ''STARTTLS'' ws);
         ws2 = (if \<not> refuse then ws1 else if active then del_word ''LOGINDISABLED'' ws1
                else add_word ''LOGINDISABLED'' ws1)
     in Some (join SP (w # ws2)))"
proof -
  let ?ws1 = "if tls_flags AND SSL_MODE_TLS_LISTEN \<noteq> 0 \<and> tls_state AND SSL_MODE_TLS_LISTEN = 0
    then add_word ''STARTTLS'' ws else del_word ''STARTTLS'' ws"
  have 1: "protocol_capability (starttls_mode tls_flags tls_state) (join SP (w # ws)) ''STARTTLS'' [SP] =
      Some (join SP (w # ?ws1))"
    using capability_edit [of "''STARTTLS''" SP w ws] assms by (simp add: starttls_mode_def del: join.simps)
  have f: "words_free SP (w # ?ws1)" using assms(2) by simp
  note 2 = capability_edit [of "''LOGINDISABLED''" SP w ?ws1, OF _ _ f assms(4)]
  show ?thesis
    using assms(1) 1 2
    by (auto simp: imap4_capability_def IMAP4_CMD_STARTTLS_def IMAP4_CMD_LOGINDISABLED_def
        IMAP4_CAPABILITY_DELIMITER_def Let_def simp del: join.simps)
qed

lemma imap4_capability_words_witness:
  "\<forall>opt. imap4_capability (opt\<lparr>opt_imap_capability := Some ''IMAP4 IMAP4REV1'', opt_login_disabled := 0\<rparr>)
      (SSL_MODE_TLS_LISTEN OR SSL_MODE_TLS_LISTEN_FORCE) SSL_MODE_EMPTY =
    Some ''IMAP4 IMAP4REV1 STARTTLS LOGINDISABLED''"
  using imap4_capability_words [of "opt\<lparr>opt_imap_capability := Some ''IMAP4 IMAP4REV1'', opt_login_disabled := 0\<rparr>"
      "''IMAP4''" "[''IMAP4REV1'']" "SSL_MODE_TLS_LISTEN OR SSL_MODE_TLS_LISTEN_FORCE" SSL_MODE_EMPTY for opt :: options]
  by (simp add: words_free_def ssl_mode_defs add_word_def)

text \<open>
  The reply to CAPA lists the configured capabilities one per line, with STLS among them exactly
  while TLS is available and not yet active, and ends with a line of a single dot.
\<close>

lemma pop3_capability_lines:
  assumes "opt_pop_capability opt = Some (join CHR ''.'' (w # ws))" and "words_free CHR ''.'' (w # ws)"
    and "ws \<noteq> []" and "\<not> prefix ''STLS'' w"
  shows "pop3_in_capability opt tls_flags tls_state =
    (let offer = tls_flags AND SSL_MODE_TLS_LISTEN \<noteq> 0 \<and> tls_state AND SSL_MODE_TLS_LISTEN = 0;
         ws1 = (if offer then add_word ''STLS'' ws else del_word ''STLS'' ws)
     in Some (w @ concat (map ((@) CRLF) ws1) @ CRLF @ ''.'' @ CRLF))"
proof -
  let ?ws1 = "if tls_flags AND SSL_MODE_TLS_LISTEN \<noteq> 0 \<and> tls_state AND SSL_MODE_TLS_LISTEN = 0
    then add_word ''STLS'' ws else del_word ''STLS'' ws"
  obtain v vs where "ws = v # vs" using assms(3) by (cases ws) auto
  then have "strstr (join CHR ''.'' (w # ws)) ''.'' \<noteq> None"
    using strstr_infix [of w "''.''" "join CHR ''.'' ws"] by simp
  moreover have "protocol_capability (starttls_mode tls_flags tls_state) (join CHR ''.'' (w # ws)) ''STLS'' ''.'' =
      Some (join CHR ''.'' (w # ?ws1))"
    using capability_edit [of "''STLS''" "CHR ''.''" w ws] assms by (simp add: starttls_mode_def del: join.simps)
  moreover have "words_free CHR ''.'' (w # ?ws1)" using assms(2) by simp
  note mangle_words [OF this]
  ultimately show ?thesis
    using assms(1)
    by (simp add: pop3_in_capability_def pop3_in_mangle_capability_def POP3_CMD_STLS_def Let_def
        POP3_CAPABILITY_DELIMITER_def del: join.simps)
qed

lemma pop3_capability_lines_witness:
  "\<forall>opt. pop3_in_capability (opt\<lparr>opt_pop_capability := Some ''UIDL.USER''\<rparr>) SSL_MODE_TLS_LISTEN SSL_MODE_EMPTY =
    Some (''UIDL'' @ CRLF @ ''USER'' @ CRLF @ ''STLS'' @ CRLF @ ''.'' @ CRLF)"
  using pop3_capability_lines [of "opt\<lparr>opt_pop_capability := Some ''UIDL.USER''\<rparr>" "''UIDL''" "[''USER'']"
      SSL_MODE_TLS_LISTEN SSL_MODE_EMPTY for opt :: options]
  by (simp add: words_free_def ssl_mode_defs add_word_def)

end
