(* ===== verification/Auth.thy ===== *)
theory Auth
  imports Cmd_Write Protocol
begin

text \<open>
  Credentials, \<^verbatim>\<open>perdition/auth.h\<close>, and what the functions that read them from a client have in
  common: the outcome of one round of a command loop and the parameters that stand for PAM and for
  \<open>vanessa_socket_str_is_digit\<close>.
\<close>

datatype auth_type = auth_t_none | auth_t_passwd | auth_t_sasl_plain

record auth =
  authorisation_id :: "string option"
  authentication_id :: "string option"
  passwd :: "string option"
  auth_type :: auth_type

definition auth_zero :: auth where
  "auth_zero = \<lparr>authorisation_id = None, authentication_id = None, passwd = None, auth_type = auth_t_none\<rparr>"

definition auth_set_authorisation_id :: "auth \<Rightarrow> string option \<Rightarrow> auth" where
  "auth_set_authorisation_id a user =
     (if authorisation_id a \<noteq> None then a\<lparr>authorisation_id := user\<rparr> else a\<lparr>authentication_id := user\<rparr>)"

definition auth_get_authorisation_id :: "auth \<Rightarrow> string option" where
  "auth_get_authorisation_id a =
     (if authorisation_id a \<noteq> None then authorisation_id a else authentication_id a)"

definition auth_set_pwd :: "string option \<Rightarrow> string option \<Rightarrow> auth" where
  "auth_set_pwd name pw =
     \<lparr>authorisation_id = None, authentication_id = name, passwd = pw, auth_type = auth_t_passwd\<rparr>"

definition auth_set_sasl_plain :: "string option \<Rightarrow> string option \<Rightarrow> string option \<Rightarrow> auth" where
  "auth_set_sasl_plain authz authn pw =
     \<lparr>authorisation_id = authz, authentication_id = authn, passwd = pw, auth_type = auth_t_sasl_plain\<rparr>"

lemma auth_set_get:
  "auth_get_authorisation_id (auth_set_authorisation_id a (Some x)) = Some x"
  by (simp add: auth_get_authorisation_id_def auth_set_authorisation_id_def)

subsection \<open>Reading credentials\<close>

text \<open>
  The outcome of one round of a loop that reads commands: another round, or the return value with
  the credentials and the tag handed to the caller.
\<close>

datatype in_outcome = In_loop | In_done int "auth option" "token option"

text \<open>
  PAM: whether \<open>pam_start\<close> succeeds for a name, and whether \<open>do_pam_authentication\<close> accepts a name
  and a password.
\<close>

record pam_env =
  pam_start :: "string option \<Rightarrow> bool"
  pam_check :: "string option \<Rightarrow> string option \<Rightarrow> bool"

definition ULONG_MAX :: nat where "ULONG_MAX = 2 ^ 64 - 1"

text \<open>\<open>strtoul\<close> to the base 10.\<close>

definition c_strtoul :: "string \<Rightarrow> nat" where
  "c_strtoul s =
     (let t = dropWhile c_isspace s;
          neg = (char_at t 0 = CHR ''-'');
          u = (if neg \<or> char_at t 0 = CHR ''+'' then drop 1 t else t);
          v = nat (digits_value 0 u)
      in if v > ULONG_MAX then ULONG_MAX else if neg \<and> v \<noteq> 0 then 2 ^ 64 - v else v)"

definition all_digits :: "string \<Rightarrow> bool" where
  "all_digits s \<longleftrightarrow> (\<forall>c \<in> set s. c_isdigit c)"

definition token_is_word :: "token \<Rightarrow> string \<Rightarrow> bool" where
  "token_is_word t cmd \<longleftrightarrow> tok_n t = length cmd \<and> strncaseeq (token_str t) cmd (tok_n t)"

subsection \<open>Numbers in decimal\<close>

lemma digits_value_append:
  "\<forall>c \<in> set a. c_isdigit c \<Longrightarrow> digits_value k (a @ b) = digits_value (digits_value k a) b"
  by (induction a arbitrary: k) auto

lemma digit_char:
  assumes "d < 10"
  shows "c_isdigit (char_of (48 + d))" "ascii (char_of (48 + d)) = 48 + d"
proof -
  show a: "ascii (char_of (48 + d)) = 48 + d" using assms by (simp add: ascii_def)
  show "c_isdigit (char_of (48 + d))" using assms a by (simp add: c_isdigit_def)
qed

lemma dec_string_digits: "dec_string n \<noteq> [] \<and> all_digits (dec_string n) \<and> length (dec_string n) \<le> Suc (n div 10)"
proof (induction n rule: dec_string.induct)
  case (1 n)
  show ?case
  proof (cases "n < 10")
    case True
    then show ?thesis by (simp add: dec_string.simps [of n] all_digits_def digit_char)
  next
    case False
    have "Suc (n div 10 div 10) \<le> n div 10" using False by (simp add: Suc_le_eq div_less_dividend)
    then show ?thesis using 1 False by (auto simp: dec_string.simps [of n] all_digits_def digit_char)
  qed
qed

lemma digits_value_dec_string: "digits_value 0 (dec_string n) = int n"
proof (induction n rule: dec_string.induct)
  case (1 n)
  show ?case
  proof (cases "n < 10")
    case True
    then show ?thesis by (simp add: dec_string.simps [of n] digit_char)
  next
    case False
    have "int (n div 10) * 10 + int (n mod 10) = int n" by (metis div_mult_mod_eq of_nat_add of_nat_mult of_nat_numeral)
    then show ?thesis using 1 False dec_string_digits [of "n div 10"]
      by (simp add: dec_string.simps [of n] digits_value_append digit_char all_digits_def)
  qed
qed

lemma not_digits:
  "\<not> c_isdigit (CHR ''-'')" "\<not> c_isdigit (CHR ''+'')" "\<not> c_isdigit SP" "\<not> c_isdigit CR" "\<not> c_isdigit LF"
  "\<not> c_isdigit DQ" "\<not> c_isdigit NUL" "\<not> c_isdigit (CHR ''{'')" "\<not> c_isdigit (CHR ''}'')"
  "\<not> c_isdigit (CHR ''%'')"
  by code_simp+

lemma digit_not:
  assumes "c_isdigit c"
  shows "\<not> c_isspace c"
    "c \<notin> {CHR ''-'', CHR ''+'', SP, CR, LF, DQ, NUL, CHR ''{'', CHR ''}'', CHR ''%''}"
proof -
  show "\<not> c_isspace c" using assms not_digits(3) by (auto simp: c_isspace_def c_isdigit_def)
  show "c \<notin> {CHR ''-'', CHR ''+'', SP, CR, LF, DQ, NUL, CHR ''{'', CHR ''}'', CHR ''%''}"
    using assms not_digits by blast
qed

lemma c_strtoul_dec:
  assumes "n \<le> ULONG_MAX"
  shows "c_strtoul (dec_string n) = n"
proof -
  obtain c cs where d: "dec_string n = c # cs" using dec_string_digits [of n] by (cases "dec_string n") auto
  have c: "c_isdigit c" using dec_string_digits [of n] d by (simp add: all_digits_def)
  note c' = digit_not [OF c]
  have "dropWhile c_isspace (dec_string n) = c # cs" using d c' by simp
  moreover have "char_at (c # cs) 0 \<noteq> CHR ''-''" "char_at (c # cs) 0 \<noteq> CHR ''+''"
    using c' by (auto simp: char_at_def)
  ultimately have "c_strtoul (dec_string n) = (if n > ULONG_MAX then ULONG_MAX else n)"
    using digits_value_dec_string [of n] d by (simp only: c_strtoul_def Let_def) simp
  then show ?thesis using assms by simp
qed

lemma dec_string_no:
  assumes "c \<in> {SP, CR, LF, DQ, NUL, CHR ''{'', CHR ''}'', CHR ''+'', CHR ''%''}"
  shows "c \<notin> set (dec_string n)"
proof
  assume "c \<in> set (dec_string n)"
  then have "c_isdigit c" using dec_string_digits [of n] unfolding all_digits_def by blast
  from digit_not(2) [OF this] assms show False by blast
qed

subsection \<open>What talking to one connection leaves alone\<close>

text \<open>
  \<open>only_io i w w'\<close>: from \<open>w\<close> to \<open>w'\<close>, input of connection \<open>i\<close> may have been used up and output
  written to it; the other connection, and the types of both, are as before.
\<close>

definition only_io :: "ioid \<Rightarrow> world \<Rightarrow> world \<Rightarrow> bool" where
  "only_io i w w' \<longleftrightarrow>
     pending i w' \<le> pending i w \<and> (\<forall>j. j \<noteq> i \<longrightarrow> ios w' j = ios w j) \<and>
     (\<forall>j. io_type (ios w' j) = io_type (ios w j) \<and> io_timeout (ios w' j) = io_timeout (ios w j) \<and>
          (\<exists>k. io_wr (ios w' j) = drop k (io_wr (ios w j))))"

text \<open>
  \<open>keeps i w r\<close>: so does whatever \<open>r\<close> returns. The rules follow the structure of a definition:
  sequencing, case distinctions, and the calls of other operations.
\<close>

definition keeps :: "ioid \<Rightarrow> world \<Rightarrow> ('a \<times> world) option \<Rightarrow> bool" where
  "keeps i w r \<longleftrightarrow> (\<forall>a w'. r = Some (a, w') \<longrightarrow> only_io i w w')"

named_theorems keeps_seq "safe introduction rules for keeps: sequencing"
named_theorems keeps_rules "safe introduction rules for keeps: operations"
named_theorems keeps_reads "introduction rules for only_io: what reads"

lemma drop_0_exI [intro]: "\<exists>k. xs = drop k xs"
  by (intro exI [of _ 0]) simp

lemma only_io_refl [simp]: "only_io i w w"
  by (auto simp: only_io_def)

lemma only_io_trans [trans]:
  assumes "only_io i a b" and "only_io i b c" shows "only_io i a c"
proof -
  have "\<exists>k. io_wr (ios c j) = drop k (io_wr (ios a j))" for j
    using assms unfolding only_io_def by (metis drop_drop)
  then show ?thesis using assms by (auto simp: only_io_def)
qed

lemma put_wr: "\<exists>k. io_wr (ios (put i s w) j) = drop k (io_wr (ios w j))"
  by (cases "j = i")
    (auto simp: put_def upd_io_def io_write_def Let_def split: io_type.splits option.splits)

lemma only_io_put [simp]: "only_io i w (put i s w)"
  using put_wr by (auto simp: only_io_def)

text \<open>A connection whose writes never fail.\<close>

definition reliable :: "ioid \<Rightarrow> world \<Rightarrow> bool" where
  "reliable i w \<longleftrightarrow> io_wr (ios w i) = [] \<and> io_type (ios w i) \<noteq> Io_type_none"

lemma reliable_accepts: "reliable i w \<Longrightarrow> accepts i s w"
  by (cases "io_type (ios w i)") (simp_all add: reliable_def accepts_def io_write_def Let_def)

lemma reliable_only_io: "only_io i w w' \<Longrightarrow> reliable i w \<Longrightarrow> reliable i w'"
  by (auto simp: reliable_def only_io_def) (metis drop_Nil)

lemma only_io_pending: "only_io i w w' \<Longrightarrow> pending i w' \<le> pending i w"
  by (simp add: only_io_def)

lemma only_io_type: "only_io i w w' \<Longrightarrow> io_type (ios w' j) = io_type (ios w j)"
  by (simp add: only_io_def)

lemma only_io_same_io: "same_io i w w' \<Longrightarrow> pending i w' \<le> pending i w \<Longrightarrow> only_io i w w'"
  by (auto simp: only_io_def same_io_def)

lemma keepsD: "keeps i w (Some (a, w')) \<Longrightarrow> only_io i w w'"
  by (simp add: keeps_def)

lemma keeps_eq: "r = Some (a, w') \<Longrightarrow> keeps i w r \<Longrightarrow> only_io i w w'"
  by (simp add: keeps_def)

lemma keeps_None [simp]: "keeps i w None"
  by (simp add: keeps_def)

lemma keeps_Some [simp]: "keeps i w (Some (a, w')) \<longleftrightarrow> only_io i w w'"
  by (simp add: keeps_def)

lemma keeps_trans: "only_io i w w1 \<Longrightarrow> keeps i w1 r \<Longrightarrow> keeps i w r"
  by (auto simp: keeps_def intro: only_io_trans)

lemma keeps_bind [keeps_seq]:
  "keeps i w r \<Longrightarrow> (\<And>a w'. only_io i w w' \<Longrightarrow> keeps i w (f (a, w'))) \<Longrightarrow> keeps i w (r \<bind> f)"
  by (auto simp: keeps_def bind_eq_Some_conv)

lemma keeps_bind_pure: "(\<And>a. keeps i w (f a)) \<Longrightarrow> keeps i w (r \<bind> f)"
  by (auto simp: keeps_def bind_eq_Some_conv)

lemmas keeps_bind_string [keeps_seq] = keeps_bind_pure [where ?'a = string]
lemmas keeps_bind_nat [keeps_seq] = keeps_bind_pure [where ?'a = "int \<times> nat"]

lemma keeps_bind_world [keeps_seq]:
  "(\<And>w1. r = Some w1 \<Longrightarrow> only_io i w w1) \<Longrightarrow> (\<And>w1. only_io i w w1 \<Longrightarrow> keeps i w (f w1)) \<Longrightarrow> keeps i w (r \<bind> f)"
  by (auto simp: keeps_def bind_eq_Some_conv)

lemma read_line_only_io: "read_line Q i lim flag m w = (r, w') \<Longrightarrow> only_io i w w'"
  by (auto simp: read_line_def intro!: only_io_same_io dest: read_line_loop_frame)

lemma token_read_only_io: "token_read i lim flag m w = (r, w') \<Longrightarrow> only_io i w w'"
  by (rule only_io_same_io) (auto dest: token_read_frame token_read_pending)

lemma read_line_keeps [keeps_reads]: "read_line Q i lim flag m w1 = (r, w2) \<Longrightarrow> only_io i w w1 \<Longrightarrow> only_io i w w2"
  by (auto intro: only_io_trans dest: read_line_only_io)

lemma token_read_keeps [keeps_reads]: "token_read i lim flag m w1 = (r, w2) \<Longrightarrow> only_io i w w1 \<Longrightarrow> only_io i w w2"
  by (auto intro: only_io_trans dest: token_read_only_io)

lemma put_keeps [keeps_seq]: "only_io i w w1 \<Longrightarrow> only_io i w (put i s w1)"
  by (auto intro: only_io_trans)

lemma keeps_writes0:
  "keeps i w (imap4_write_str i flag tag cmd s w)" "keeps i w (imap4_write i flag tag cmd nargs fmt ap w)"
  "keeps i w (pop3_write_str i flag tag cmd s w)" "keeps i w (pop3_write i flag cmd nargs fmt ap w)"
  "keeps i w (pop3_vwrite i flag cmd nargs fmt ap w)"
  "keeps i w (str_vwrite i flag nargs f ap w)" "keeps i w (str_write i flag nargs f ap w)"
  by (auto simp: keeps_def str_write_def dest: imap4_write_str_frame imap4_write_frame pop3_write_str_frame
      pop3_write_frame str_vwrite_frame pop3_write_frame [unfolded pop3_write_def])

lemmas keeps_writes [keeps_rules] = keeps_writes0 [THEN [2] keeps_trans]

subsection \<open>Dialogues\<close>

text \<open>\<open>talk i w w' s\<close>: as \<open>only_io\<close>, and exactly \<open>s\<close> has been sent to the connection.\<close>

definition talk :: "ioid \<Rightarrow> world \<Rightarrow> world \<Rightarrow> string \<Rightarrow> bool" where
  "talk i w w' s \<longleftrightarrow> only_io i w w' \<and> io_out (ios w' i) = io_out (ios w i) @ s \<and> (wf_buffer w \<longrightarrow> wf_buffer w')"

lemma talk_trans: "talk i a b s \<Longrightarrow> talk i b c t \<Longrightarrow> talk i a c (s @ t)"
  by (auto simp: talk_def intro: only_io_trans)

lemma talk_refl [simp]: "talk i w w []"
  by (simp add: talk_def)

lemma talkD: "talk i w w' s \<Longrightarrow> only_io i w w'"
  by (simp add: talk_def)

lemma talk_reliable: "talk i w w' s \<Longrightarrow> reliable i w \<Longrightarrow> reliable i w'"
  by (auto simp: talk_def intro: reliable_only_io)

lemma put_talk: "reliable i w \<Longrightarrow> talk i w (put i s w) s"
  by (cases "io_type (ios w i)")
    (auto simp: talk_def put_def upd_io_def io_write_def Let_def reliable_def only_io_def pending_def wf_buffer_def)

lemma read_line_talk: "read_line Q i lim flag m w = (r, w') \<Longrightarrow> (wf_buffer w \<Longrightarrow> wf_buffer w') \<Longrightarrow> talk i w w' []"
  using read_line_frame [of Q i lim flag m w r w'] read_line_only_io [of Q i lim flag m w r w']
  by (simp add: talk_def same_io_def)

subsection \<open>What a call can return\<close>

text \<open>\<open>gives P r\<close>: what \<open>r\<close> returns, if it returns, satisfies \<open>P\<close>.\<close>

definition gives :: "('a \<Rightarrow> bool) \<Rightarrow> ('a \<times> world) option \<Rightarrow> bool" where
  "gives P r \<longleftrightarrow> (\<forall>a w'. r = Some (a, w') \<longrightarrow> P a)"

named_theorems gives_rules "introduction rules for gives"

lemma gives_None [simp]: "gives P None"
  by (simp add: gives_def)

lemma gives_Some [simp]: "gives P (Some (a, w)) \<longleftrightarrow> P a"
  by (simp add: gives_def)

lemma givesD: "gives P (Some (a, w)) \<Longrightarrow> P a"
  by simp

lemma gives_bind [gives_rules]: "(\<And>x. r = Some x \<Longrightarrow> gives P (f x)) \<Longrightarrow> gives P (r \<bind> f)"
  by (auto simp: gives_def bind_eq_Some_conv)

text \<open>A world in which both peers send \<open>s\<close> and then close the connection.\<close>

definition world_sending :: "string \<Rightarrow> world" where
  "world_sending s = \<lparr>tbuf = [], toff = 0, tbytes = 0, ios = (\<lambda>_. io_create_fd 0 1 None [Rd_data s] [])\<rparr>"

lemma world_sending [simp]:
  "wf_buffer (world_sending s)" "avail i (world_sending s) = s"
  "io_type (ios (world_sending s) i) = Io_type_fd" "reliable i (world_sending s)"
  "io_out (ios (world_sending s) i) = []"
  by (simp_all add: world_sending_def reliable_def wf_buffer_def avail_def io_stream_def io_create_fd_def io_create_def)

end
