(* ===== verification/Imap4_In.thy ===== *)
theory Imap4_In
  imports Auth Protocol_Params
begin

text \<open>
  The IMAP side of the client: \<^verbatim>\<open>perdition/imap4_in.c\<close>. One round of the command loop is
  \<open>imap4_in_step\<close>; the loop itself ends because every round reads at least one byte of the input.
  \<open>i\<close> is the connection, \<open>Q\<close> the queue library and \<open>is_digit\<close> stands for
  \<open>vanessa_socket_str_is_digit\<close>.
\<close>

definition IMAP4_QUOTED_STRING :: int where "IMAP4_QUOTED_STRING = 1"
definition IMAP4_SYNCHRONISING_TOKEN :: int where "IMAP4_SYNCHRONISING_TOKEN = 2"
definition IMAP4_NON_SYNCHRONISING_TOKEN :: int where "IMAP4_NON_SYNCHRONISING_TOKEN = 3"

lemmas imap4_token_types = IMAP4_QUOTED_STRING_def IMAP4_SYNCHRONISING_TOKEN_def
  IMAP4_NON_SYNCHRONISING_TOKEN_def

subsection \<open>Simple commands\<close>

definition imap4_in_noop_cmd :: "ioid \<Rightarrow> token \<Rightarrow> world \<Rightarrow> (int \<times> world) option" where
  "imap4_in_noop_cmd i tag w =
     do { (rc, w1) \<leftarrow> imap4_write_str i NULL_FLAG (Some tag) (Some IMAP4_OK) (Some ''NOOP'') w;
          Some (if rc < 0 then -1 else 0, w1) }"

definition imap4_in_logout_cmd :: "ioid \<Rightarrow> token \<Rightarrow> world \<Rightarrow> (int \<times> world) option" where
  "imap4_in_logout_cmd i tag w =
     do { (rc, w1) \<leftarrow> imap4_write_str i NULL_FLAG None (Some IMAP4_BYE)
                        (Some ''IMAP4 server logging out, mate'') w;
          if rc < 0 then Some (-1, w1)
          else do { (rc, w2) \<leftarrow> imap4_write_str i NULL_FLAG (Some tag) (Some IMAP4_OK) (Some ''LOGOUT'') w1;
                    Some (if rc < 0 then -1 else 0, w2) } }"

text \<open>The status of this command does not depend on whether its lines could be written.\<close>

definition imap4_in_capability_cmd ::
    "options \<Rightarrow> ioid \<Rightarrow> token \<Rightarrow> int \<Rightarrow> int \<Rightarrow> world \<Rightarrow> (int \<times> world) option" where
  "imap4_in_capability_cmd opt i tag tls_flags tls_state w =
     do { capability \<leftarrow> imap4_capability opt tls_flags tls_state;
          (rc, w1) \<leftarrow> imap4_write_str i NULL_FLAG None (Some IMAP4_CMD_CAPABILITY) (Some capability) w;
          if rc < 0 then Some (0, w1)
          else do { (rc, w2) \<leftarrow> imap4_write_str i NULL_FLAG (Some tag) (Some IMAP4_OK)
                                  (Some IMAP4_CMD_CAPABILITY) w1;
                    Some (0, w2) } }"

definition imap4_in_authenticate_cmd :: "ioid \<Rightarrow> token \<Rightarrow> world \<Rightarrow> (int \<times> world) option" where
  "imap4_in_authenticate_cmd i tag w =
     do { (rc, w1) \<leftarrow> imap4_write_str i NULL_FLAG (Some tag) (Some IMAP4_NO)
                        (Some ''AUTHENTICATE mechanism not supported, mate'') w;
          Some (if rc < 0 then -1 else 0, w1) }"

subsection \<open>Literals\<close>

text \<open>The type of a token and the length of the literal it announces.\<close>

definition imap4_token_is_literal :: "(string \<Rightarrow> bool) \<Rightarrow> token \<Rightarrow> (int \<times> nat) option" where
  "imap4_token_is_literal is_digit t =
     (if \<not> token_is_eol t then Some (IMAP4_QUOTED_STRING, 0)
      else do {
        str \<leftarrow> token_to_string t DQ;
        if char_at str 0 \<noteq> CHR ''{'' \<or> last str \<noteq> CHR ''}'' then Some (IMAP4_QUOTED_STRING, 0)
        else
          let str1 = butlast str;
              nonsync = (last str1 = CHR ''+'');
              str2 = (if nonsync then butlast str1 else str1)
          in if \<not> is_digit (drop 1 str2) then Some (IMAP4_QUOTED_STRING, 0)
             else let n = c_strtoul (drop 1 str2) in
               if n = ULONG_MAX then Some (-1, 0)
               else Some (if nonsync then IMAP4_NON_SYNCHRONISING_TOKEN else IMAP4_SYNCHRONISING_TOKEN, n) })"

text \<open>The token is \<open>None\<close> for NULL.\<close>

definition imap4_token_wrapper ::
    "'q queue_ops \<Rightarrow> (string \<Rightarrow> bool) \<Rightarrow> ioid \<Rightarrow> 'q \<Rightarrow> token \<Rightarrow> world
      \<Rightarrow> ((int \<times> token option) \<times> world) option" where
  "imap4_token_wrapper Q is_digit i q t w =
     do { (status, n) \<leftarrow> imap4_token_is_literal is_digit t;
          if status < 0 then Some ((-1, None), w)
          else if status = IMAP4_QUOTED_STRING then Some ((status, Some t), w)
          else if qlength Q q \<noteq> 0 then Some ((-1, None), w)
          else do {
            w1 \<leftarrow> (if status = IMAP4_SYNCHRONISING_TOKEN
                  then map_option snd (imap4_write_str i NULL_FLAG
                         (Some (token_assign token_create (Some IMAP4_CONT_TAG) 1 0))
                         (Some IMAP4_OK) (Some ''ready for additional input'') w)
                  else Some w);
            if n = 0 then Some ((status, Some token_create), w1)
            else case token_read i None TOKEN_IMAP4_LITERAL n w1 of
                   (None, w2) \<Rightarrow> Some ((-1, None), w2)
                 | (Some (t', _), w2) \<Rightarrow> Some ((status, Some t'), w2) } }"

definition imap4_token_to_string :: "token \<Rightarrow> int \<Rightarrow> string option" where
  "imap4_token_to_string t ty =
     (if ty = IMAP4_QUOTED_STRING
      then do { str \<leftarrow> token_to_string t DQ;
                r \<leftarrow> str_replace str [[BS, DQ], [DQ], [BS, BS], [BS]];
                r }
      else token_to_string t TOKEN_NO_STRIP)"

subsection \<open>Local authentication\<close>

definition imap4_in_authenticate ::
    "pam_env \<Rightarrow> auth \<Rightarrow> ioid \<Rightarrow> token option \<Rightarrow> world \<Rightarrow> (int \<times> world) option" where
  "imap4_in_authenticate pam a i tag w =
     (let name = auth_get_authorisation_id a in
      if \<not> pam_start pam name then Some (-1, w)
      else if \<not> pam_check pam name (passwd a)
      then do { (rc, w1) \<leftarrow> imap4_write_str i NULL_FLAG tag (Some IMAP4_NO) (Some ''Authentication failure'') w;
                Some (if rc < 0 then -1 else 0, w1) }
      else Some (1, w))"

subsection \<open>The command loop\<close>

definition imap4_in_verify_tag_str :: "token \<Rightarrow> bool" where
  "imap4_in_verify_tag_str tag \<longleftrightarrow>
     tok_n tag \<noteq> 0 \<and>
     (\<forall>c \<in> set (take (tok_n tag) (token_str tag)).
        \<not> (ascii c \<le> 0x1f \<or> ascii c \<ge> 0x7f) \<and>
        c \<notin> {NUL, CHR ''('', CHR '')'', CHR ''{'', SP, CHR ''%'', CHR ''*'', DQ, BS, CHR '']''})"

abbreviation in_error :: in_outcome where
  "in_error \<equiv> In_done (-1) None None"

text \<open>The macro \<open>__IMAP4_IN_BAD\<close>.\<close>

definition imap4_in_bad :: "ioid \<Rightarrow> token \<Rightarrow> string \<Rightarrow> world \<Rightarrow> (in_outcome \<times> world) option" where
  "imap4_in_bad i tag reason w =
     do { (rc, w1) \<leftarrow> imap4_write_str i NULL_FLAG (Some tag) (Some IMAP4_BAD) (Some reason) w;
          Some (if rc < 0 then in_error else In_loop, w1) }"

definition loop_unless_error :: "(int \<times> world) option \<Rightarrow> (in_outcome \<times> world) option" where
  "loop_unless_error r = do { (rc, w1) \<leftarrow> r; Some (if rc \<noteq> 0 then in_error else In_loop, w1) }"

definition imap4_in_login_syntax :: "ioid \<Rightarrow> token \<Rightarrow> world \<Rightarrow> (in_outcome \<times> world) option" where
  "imap4_in_login_syntax i tag w = imap4_in_bad i tag ''Mate, try LOGIN <username> <passwd>'' w"

text \<open>The second half of LOGIN; \<open>status\<close> is the type of the user token, also for the password.\<close>

definition imap4_in_login_passwd ::
    "'q queue_ops \<Rightarrow> (string \<Rightarrow> bool) \<Rightarrow> ioid \<Rightarrow> token \<Rightarrow> int \<Rightarrow> token \<Rightarrow> 'q \<Rightarrow> world
      \<Rightarrow> (in_outcome \<times> world) option" where
  "imap4_in_login_passwd Q is_digit i tag status t q w =
     (if tok_n t = 0 then imap4_in_login_syntax i tag w
      else do {
        name \<leftarrow> imap4_token_to_string t status;
        if qlength Q q = 1
        then case qpop Q q of
               None \<Rightarrow> Some (in_error, w)
             | Some (q', t1) \<Rightarrow>
                 do { ((status2, t2), w1) \<leftarrow> imap4_token_wrapper Q is_digit i q' t1 w;
                      case t2 of
                        None \<Rightarrow> imap4_in_login_syntax i tag w1
                      | Some t3 \<Rightarrow>
                          if status2 < 0 \<or> tok_n t3 = 0 then imap4_in_login_syntax i tag w1
                          else do { pw \<leftarrow> imap4_token_to_string t3 status;
                                    Some (In_done 0 (Some (auth_set_pwd (Some name) (Some pw))) (Some tag), w1) } }
        else imap4_in_login_syntax i tag w })"

definition imap4_in_login ::
    "'q queue_ops \<Rightarrow> (string \<Rightarrow> bool) \<Rightarrow> ioid \<Rightarrow> token \<Rightarrow> 'q \<Rightarrow> world \<Rightarrow> (in_outcome \<times> world) option" where
  "imap4_in_login Q is_digit i tag q w =
     (if qlength Q q \<noteq> 2 \<and> qlength Q q \<noteq> 1 then imap4_in_login_syntax i tag w
      else case qpop Q q of
             None \<Rightarrow> Some (in_error, w)
           | Some (q1, t1) \<Rightarrow>
               do { ((status, t2), w1) \<leftarrow> imap4_token_wrapper Q is_digit i q1 t1 w;
                    case t2 of
                      None \<Rightarrow> imap4_in_login_syntax i tag w1
                    | Some t \<Rightarrow>
                        if status < 0 then imap4_in_login_syntax i tag w1
                        else if status = IMAP4_QUOTED_STRING
                        then imap4_in_login_passwd Q is_digit i tag status t q1 w1
                        else case read_line Q i None TOKEN_IMAP4 0 w1 of
                               (None, w2) \<Rightarrow> Some (in_error, w2)
                             | (Some (q2, _), w2) \<Rightarrow>
                                 if qlength Q q2 \<noteq> 2 then imap4_in_login_syntax i tag w2
                                 else (case qpop Q q2 of
                                         None \<Rightarrow> Some (in_error, w2)
                                       | Some (q3, _) \<Rightarrow>
                                           imap4_in_login_passwd Q is_digit i tag status t q3 w2) })"

definition imap4_in_starttls :: "options \<Rightarrow> ioid \<Rightarrow> token \<Rightarrow> world \<Rightarrow> (in_outcome \<times> world) option" where
  "imap4_in_starttls opt i tag w =
     (if opt_ssl_mode opt AND SSL_MODE_TLS_LISTEN = 0 then imap4_in_bad i tag ''STARTTLS disabled, mate'' w
      else if io_type (ios w i) \<noteq> Io_type_ssl
      then do { (rc, w1) \<leftarrow> imap4_write_str i NULL_FLAG (Some tag) (Some IMAP4_OK)
                              (Some ''Begin TLS negotiation now'') w;
                Some (if rc < 0 then in_error else In_done 2 None None, w1) }
      else imap4_in_bad i tag ''SSL already active, mate'' w)"

definition imap4_in_command ::
    "'q queue_ops \<Rightarrow> (string \<Rightarrow> bool) \<Rightarrow> options \<Rightarrow> int \<Rightarrow> int \<Rightarrow> ioid \<Rightarrow> token \<Rightarrow> token \<Rightarrow> 'q \<Rightarrow> world
      \<Rightarrow> (in_outcome \<times> world) option" where
  "imap4_in_command Q is_digit opt tls_flags tls_state i tag t q w =
     (let bad = (\<lambda>reason. imap4_in_bad i tag reason w);
          no_arg = (\<lambda>cmd r. if qlength Q q \<noteq> 0
                             then bad (''Argument given to '' @ cmd @ '' but there shouldn'' @ [CHR 0x27] @ ''t be one, mate'')
                             else r)
      in if token_is_null t then bad ''Null command, mate''
         else if token_is_word t ''NOOP'' then no_arg ''NOOP'' (loop_unless_error (imap4_in_noop_cmd i tag w))
         else if token_is_word t IMAP4_CMD_STARTTLS
         then no_arg IMAP4_CMD_STARTTLS (imap4_in_starttls opt i tag w)
         else if token_is_word t IMAP4_CMD_CAPABILITY
         then no_arg IMAP4_CMD_CAPABILITY
                (loop_unless_error (imap4_in_capability_cmd opt i tag tls_flags tls_state w))
         else if token_is_word t ''AUTHENTICATE''
         then (if qlength Q q \<noteq> 1 then bad ''Mate, try AUTHENTICATE <mechanism>''
               else loop_unless_error (imap4_in_authenticate_cmd i tag w))
         else if token_is_word t ''LOGOUT''
         then no_arg ''LOGOUT''
                (do { (rc, w1) \<leftarrow> imap4_in_logout_cmd i tag w;
                      Some (if rc \<noteq> 0 then in_error else In_done 1 None None, w1) })
         else if token_is_word t ''LOGIN'' then imap4_in_login Q is_digit i tag q w
         else bad ''Unrecognised command, mate'')"

definition imap4_in_step ::
    "'q queue_ops \<Rightarrow> (string \<Rightarrow> bool) \<Rightarrow> options \<Rightarrow> int \<Rightarrow> int \<Rightarrow> ioid \<Rightarrow> world
      \<Rightarrow> (in_outcome \<times> world) option" where
  "imap4_in_step Q is_digit opt tls_flags tls_state i w =
     (case read_line Q i None TOKEN_IMAP4 0 w of
        (None, w1) \<Rightarrow> Some (in_error, w1)
      | (Some (q0, _), w1) \<Rightarrow>
          (case qpop Q q0 of
             None \<Rightarrow> Some (in_error, w1)
           | Some (q1, tag) \<Rightarrow>
               if \<not> imap4_in_verify_tag_str tag
               then imap4_in_bad i (token_assign tag (Some IMAP4_UNTAGGED) (length IMAP4_UNTAGGED) 0)
                      ''Invalid tag, mate'' w1
               else if token_is_eol tag then imap4_in_bad i tag ''Missing command, mate'' w1
               else case qpop Q q1 of
                      None \<Rightarrow> Some (in_error, w1)
                    | Some (q, t) \<Rightarrow> imap4_in_command Q is_digit opt tls_flags tls_state i tag t q w1))"

subsection \<open>Frame and termination\<close>

lemma imap4_in_bad_keeps [keeps_rules]: "only_io i w w1 \<Longrightarrow> keeps i w (imap4_in_bad i tag reason w1)"
  unfolding imap4_in_bad_def by (auto intro!: keeps_seq keeps_rules intro: keeps_reads)

lemma imap4_in_login_syntax_keeps [keeps_rules]: "only_io i w w1 \<Longrightarrow> keeps i w (imap4_in_login_syntax i tag w1)"
  unfolding imap4_in_login_syntax_def by (auto intro!: keeps_seq keeps_rules intro: keeps_reads)

lemma imap4_in_cmds_keeps [keeps_rules]:
  assumes "only_io i w w1"
  shows "keeps i w (imap4_in_noop_cmd i tag w1)" "keeps i w (imap4_in_logout_cmd i tag w1)"
    "keeps i w (imap4_in_capability_cmd opt i tag f s w1)" "keeps i w (imap4_in_authenticate_cmd i tag w1)"
    "keeps i w (imap4_in_starttls opt i tag w1)"
  using assms
  unfolding imap4_in_noop_cmd_def imap4_in_logout_cmd_def imap4_in_capability_cmd_def
    imap4_in_authenticate_cmd_def imap4_in_starttls_def
  by (auto intro!: keeps_seq keeps_rules intro: keeps_reads)

lemma imap4_token_wrapper_keeps [keeps_rules]:
  "only_io i w w1 \<Longrightarrow> keeps i w (imap4_token_wrapper Q d i q t w1)"
  unfolding imap4_token_wrapper_def
  by (auto intro!: keeps_seq keeps_rules intro: keeps_reads split: prod.split option.split if_splits)
    (rule token_read_keeps, assumption, assumption
     | rule keeps_eq, assumption, rule keeps_writes, assumption)+

lemma imap4_in_login_passwd_keeps [keeps_rules]:
  "only_io i w w1 \<Longrightarrow> keeps i w (imap4_in_login_passwd Q d i tag st t q w1)"
  unfolding imap4_in_login_passwd_def by (auto intro!: keeps_seq keeps_rules intro: keeps_reads split: prod.split option.split)

lemma imap4_in_login_keeps [keeps_rules]: "only_io i w w1 \<Longrightarrow> keeps i w (imap4_in_login Q d i tag q w1)"
  unfolding imap4_in_login_def
  by (auto intro!: keeps_seq keeps_rules intro: keeps_reads split: prod.split option.split)

lemma loop_unless_error_keeps [keeps_rules]: "keeps i w r \<Longrightarrow> keeps i w (loop_unless_error r)"
  unfolding loop_unless_error_def by (auto intro!: keeps_seq keeps_rules intro: keeps_reads)

lemma imap4_in_command_keeps [keeps_rules]:
  "only_io i w w1 \<Longrightarrow> keeps i w (imap4_in_command Q d opt f s i tag t q w1)"
  unfolding imap4_in_command_def Let_def by (auto intro!: keeps_seq keeps_rules intro: keeps_reads)

lemma imap4_in_step_keeps [keeps_rules]: "only_io i w w1 \<Longrightarrow> keeps i w (imap4_in_step Q d opt f s i w1)"
  unfolding imap4_in_step_def
  by (auto intro!: keeps_seq keeps_rules intro: keeps_reads split: prod.split option.split)

lemma imap4_in_step_progress:
  assumes "imap4_in_step Q d opt f s i w = Some (In_loop, w')"
  shows "pending i w' < pending i w"
proof -
  obtain r w1 where r: "read_line Q i None TOKEN_IMAP4 0 w = (r, w1)" by fastforce
  with assms obtain q0 l where s: "r = Some (q0, l)" by (cases r) (auto simp: imap4_in_step_def)
  have "pending i w1 < pending i w" using r s read_line_progress by blast
  moreover have "keeps i w1 (imap4_in_step Q d opt f s i w)"
    using r s by (auto simp: imap4_in_step_def split: option.split intro!: keeps_rules)
  then have "only_io i w1 w'" unfolding assms by (rule keepsD)
  ultimately show ?thesis using only_io_pending by fastforce
qed

function imap4_in_get_auth ::
    "'q queue_ops \<Rightarrow> (string \<Rightarrow> bool) \<Rightarrow> options \<Rightarrow> int \<Rightarrow> int \<Rightarrow> ioid \<Rightarrow> world
      \<Rightarrow> ((int \<times> auth option \<times> token option) \<times> world) option" where
  "imap4_in_get_auth Q is_digit opt tls_flags tls_state i w =
     (case imap4_in_step Q is_digit opt tls_flags tls_state i w of
        None \<Rightarrow> None
      | Some (In_done rc a tag, w') \<Rightarrow> Some ((rc, a, tag), w')
      | Some (In_loop, w') \<Rightarrow> imap4_in_get_auth Q is_digit opt tls_flags tls_state i w')"
  by pat_completeness auto
termination
  by (relation "measure (\<lambda>(Q, d, opt, f, s, i, w). pending i w)") (auto dest: imap4_in_step_progress)

declare imap4_in_get_auth.simps [simp del]

lemma imap4_in_get_auth_keeps [keeps_rules]: "keeps i w (imap4_in_get_auth Q d opt f s i w)"
proof (induction Q d opt f s i w rule: imap4_in_get_auth.induct)
  case (1 Q d opt f s i w)
  have "keeps i w (imap4_in_step Q d opt f s i w)" by (rule imap4_in_step_keeps) simp
  with 1 show ?case
    by (subst imap4_in_get_auth.simps)
      (auto split: option.splits in_outcome.splits prod.splits intro: keeps_trans)
qed

subsection \<open>Lines of words\<close>

definition valid_tag :: "string \<Rightarrow> bool" where
  "valid_tag tag \<longleftrightarrow> is_word TOKEN_IMAP4 tag \<and> imap4_in_verify_tag_str (mk_token tag TOKEN_NONE)"

lemma imap4_in_step_words:
  assumes "token_queue Q \<alpha>" and "wf_buffer w" and "valid_tag tag"
    and "\<forall>x \<in> set (cmd # args). is_word TOKEN_IMAP4 x"
    and "avail i w = join SP (tag # cmd # args) @ CRLF @ rest"
  obtains q w1 where "\<And>opt f s. imap4_in_step Q is_digit opt f s i w =
      imap4_in_command Q is_digit opt f s i (mk_token tag TOKEN_NONE)
        (mk_token cmd (if args = [] then TOKEN_EOL else TOKEN_NONE)) q w1"
    and "\<alpha> q = (if args = [] then [] else line_tokens args)"
    and "avail i w1 = rest" and "wf_buffer w1" and "only_io i w w1"
proof -
  have w: "\<forall>x \<in> set (tag # cmd # args). is_word TOKEN_IMAP4 x" using assms(3,4) by (simp add: valid_tag_def)
  obtain q0 w1 where r: "read_line Q i None TOKEN_IMAP4 0 w = (Some (q0, []), w1)"
    and q0: "\<alpha> q0 = line_tokens (tag # cmd # args)" and w1: "avail i w1 = rest" "wf_buffer w1"
    using token_queue.read_line_words [OF assms(1,2) _ _ w assms(5), where m = 0] by auto
  obtain q1 where q1: "qpop Q q0 = Some (q1, mk_token tag TOKEN_NONE)" "\<alpha> q1 = line_tokens (cmd # args)"
    using token_queue.pop_Cons [OF assms(1), of q0 "mk_token tag TOKEN_NONE" "line_tokens (cmd # args)"] q0
    by (auto simp: line_tokens_Cons [of tag])
  obtain q where q: "qpop Q q1 = Some (q, mk_token cmd (if args = [] then TOKEN_EOL else TOKEN_NONE))"
    "\<alpha> q = (if args = [] then [] else line_tokens args)"
    using token_queue.pop_Cons [OF assms(1), of q1] q1(2) by (auto simp: line_tokens_Cons split: if_splits)
  show ?thesis
  proof
    show "imap4_in_step Q is_digit opt f s i w = imap4_in_command Q is_digit opt f s i (mk_token tag TOKEN_NONE)
        (mk_token cmd (if args = [] then TOKEN_EOL else TOKEN_NONE)) q w1" for opt f s
      using assms(3) r q1(1) q(1) by (simp add: imap4_in_step_def valid_tag_def)
  qed (use q w1 read_line_only_io [OF r] in auto)
qed

subsection \<open>Quoted LOGIN\<close>

lemma token_to_string_quoted:
  "no_nul s \<Longrightarrow> token_to_string (mk_token (quoted s) f) DQ = Some (quote_chars s)"
  using no_nul_quote_chars [of s]
  by (simp add: token_to_string_def quoted_def token_flag_defs strn_to_str_def)

lemma imap4_token_to_string_quoted:
  "no_nul s \<Longrightarrow> imap4_token_to_string (mk_token (quoted s) f) IMAP4_QUOTED_STRING = Some s"
  by (simp add: imap4_token_to_string_def token_to_string_quoted str_replace_unquotes)

lemma last_quote_chars: "s \<noteq> [] \<Longrightarrow> last (quote_chars s) = last s"
  by (induction s) auto

lemma imap4_token_wrapper_quoted:
  assumes "no_nul s" and "f = TOKEN_EOL \<longrightarrow> \<not> (s \<noteq> [] \<and> hd s = CHR ''{'' \<and> last s = CHR ''}'')" and "f \<in> {TOKEN_EOL, TOKEN_NONE}"
  shows "imap4_token_wrapper Q d i q (mk_token (quoted s) f) w =
    Some ((IMAP4_QUOTED_STRING, Some (mk_token (quoted s) f)), w)"
proof -
  have "imap4_token_is_literal d (mk_token (quoted s) f) = Some (IMAP4_QUOTED_STRING, 0)"
  proof (cases "f = TOKEN_NONE")
    case False
    then have f: "f = TOKEN_EOL" using assms(3) by auto
    have "char_at (quote_chars s) 0 \<noteq> CHR ''{'' \<or> last (quote_chars s) \<noteq> CHR ''}''"
      using assms(2) f by (cases s) (auto simp: char_at_def last_quote_chars)
    then show ?thesis using assms(1) f by (simp add: imap4_token_is_literal_def token_to_string_quoted)
  qed (simp add: imap4_token_is_literal_def)
  then show ?thesis by (simp add: imap4_token_wrapper_def imap4_token_types)
qed

lemma imap4_login_quoted_read:
  assumes "token_queue Q \<alpha>" and "wf_buffer w" and "valid_tag tag"
    and "length cmd = 5" and "strncaseeq cmd ''LOGIN'' 5" and "is_word TOKEN_IMAP4 cmd"
    and "login_arg u" and "login_arg p" and "\<not> (p \<noteq> [] \<and> hd p = CHR ''{'' \<and> last p = CHR ''}'')"
    and "avail i w = join SP [tag, cmd, quoted u, quoted p] @ CRLF @ rest"
  shows "\<exists>w'. imap4_in_get_auth Q is_digit opt f s i w =
      Some ((0, Some (auth_set_pwd (Some u) (Some p)), Some (mk_token tag TOKEN_NONE)), w') \<and>
      avail i w' = rest \<and> wf_buffer w' \<and> (\<forall>j. j \<noteq> i \<longrightarrow> ios w' j = ios w j)"
proof -
  have words: "\<forall>x \<in> set (cmd # [quoted u, quoted p]). is_word TOKEN_IMAP4 x"
    using assms by (auto simp: is_word_quoted)
  obtain q w1 where st: "imap4_in_step Q is_digit opt f s i w =
      imap4_in_command Q is_digit opt f s i (mk_token tag TOKEN_NONE) (mk_token cmd TOKEN_NONE) q w1"
    and q: "\<alpha> q = [mk_token (quoted u) TOKEN_NONE, mk_token (quoted p) TOKEN_EOL]"
    and w1: "avail i w1 = rest" "wf_buffer w1" "only_io i w w1"
    by (rule imap4_in_step_words [OF assms(1,2,3) words assms(10), of is_digit]) (auto simp: line_tokens_def)
  have nn: "no_nul u" "no_nul p" using assms by (simp_all add: login_arg_def)
  obtain q1 where q1: "qpop Q q = Some (q1, mk_token (quoted u) TOKEN_NONE)"
      "\<alpha> q1 = [mk_token (quoted p) TOKEN_EOL]"
    using token_queue.pop_Cons [OF assms(1) q] by auto
  obtain q2 where q2: "qpop Q q1 = Some (q2, mk_token (quoted p) TOKEN_EOL)" "\<alpha> q2 = []"
    using token_queue.pop_Cons [OF assms(1) q1(2)] by auto
  have ql: "qlength Q q = 2" "qlength Q q1 = 1" using token_queue.qlength [OF assms(1)] q q1(2) by auto
  have n: "length (quoted u) \<noteq> 0" "length (quoted p) \<noteq> 0" by (simp_all add: quoted_def)
  have wu: "imap4_token_wrapper Q is_digit i q1 (mk_token (quoted u) TOKEN_NONE) w1 =
      Some ((IMAP4_QUOTED_STRING, Some (mk_token (quoted u) TOKEN_NONE)), w1)"
    using nn by (intro imap4_token_wrapper_quoted) (simp_all add: token_flag_defs)
  have wp: "imap4_token_wrapper Q is_digit i q2 (mk_token (quoted p) TOKEN_EOL) w1 =
      Some ((IMAP4_QUOTED_STRING, Some (mk_token (quoted p) TOKEN_EOL)), w1)"
    using nn assms(9) by (intro imap4_token_wrapper_quoted) simp_all
  have "imap4_in_login Q is_digit i (mk_token tag TOKEN_NONE) q w1 =
      Some (In_done 0 (Some (auth_set_pwd (Some u) (Some p))) (Some (mk_token tag TOKEN_NONE)), w1)"
    using ql q1(1) q2(1) n wu wp nn
    by (simp add: imap4_in_login_def imap4_in_login_passwd_def imap4_token_to_string_quoted
      del: mk_token_sel(4)) (simp add: imap4_token_types)
  moreover have "imap4_in_command Q is_digit opt f s i (mk_token tag TOKEN_NONE) (mk_token cmd TOKEN_NONE) q w1 =
      imap4_in_login Q is_digit i (mk_token tag TOKEN_NONE) q w1"
    using assms(4,5) by (simp add: imap4_in_command_def token_is_word_def token_is_null_def
        IMAP4_CMD_CAPABILITY_def IMAP4_CMD_STARTTLS_def)
  ultimately show ?thesis using st w1 by (subst imap4_in_get_auth.simps) (simp add: only_io_def)
qed

text \<open>
  C2. A quoted LOGIN is read exactly: whatever the name and the password are, as long as they have
  no double quote, line end or NUL and the password does not look like a literal, perdition returns
  them, unquoted, with the tag of the command, and leaves the bytes behind the line unread. This
  holds for every division of the input into packets.
\<close>

theorem imap4_login_quoted:
  assumes "token_queue Q \<alpha>" and "wf_buffer w" and "valid_tag tag"
    and "length cmd = 5" and "strncaseeq cmd ''LOGIN'' 5" and "is_word TOKEN_IMAP4 cmd"
    and "login_arg u" and "login_arg p" and "\<not> (p \<noteq> [] \<and> hd p = CHR ''{'' \<and> last p = CHR ''}'')"
    and "avail i w = join SP [tag, cmd, quoted u, quoted p] @ CRLF @ rest"
  shows "\<exists>w'. imap4_in_get_auth Q is_digit opt f s i w =
      Some ((0, Some (auth_set_pwd (Some u) (Some p)), Some (mk_token tag TOKEN_NONE)), w') \<and>
      avail i w' = rest \<and> wf_buffer w' \<and> (\<forall>j. j \<noteq> i \<longrightarrow> ios w' j = ios w j)"
  using assms by (rule imap4_login_quoted_read)

lemma login_witness_facts:
  "valid_tag ''a1''" "length ''login'' = 5" "strncaseeq ''login'' ''LOGIN'' 5" "is_word TOKEN_IMAP4 ''login''"
  "login_arg ''bob''" "login_arg ''se cret''"
  "\<not> (''se cret'' \<noteq> [] \<and> hd ''se cret'' = CHR ''{'' \<and> last ''se cret'' = CHR ''}'')"
  by code_simp+

theorem imap4_login_quoted_witness:
  "\<forall>opt. \<exists>w'. imap4_in_get_auth list_queue all_digits opt 0 0 EU
      (world_sending (join SP [''a1'', ''login'', quoted ''bob'', quoted ''se cret''] @ CRLF @ ''x'')) =
    Some ((0, Some (auth_set_pwd (Some ''bob'') (Some ''se cret'')), Some (mk_token ''a1'' TOKEN_NONE)), w') \<and>
    avail EU w' = ''x''"
  using imap4_login_quoted [OF list_queue.token_queue_axioms world_sending(1) login_witness_facts world_sending(2)]
  by blast

subsection \<open>What the loop returns\<close>

definition imap4_done :: "options \<Rightarrow> io_type \<Rightarrow> in_outcome \<Rightarrow> bool" where
  "imap4_done opt ty r \<longleftrightarrow>
     (case r of
        In_loop \<Rightarrow> True
      | In_done rc a t \<Rightarrow>
          (rc \<in> {-1, 1, 2} \<and> a = None \<and> t = None \<or>
           rc = 0 \<and> (\<exists>n p tag. a = Some (auth_set_pwd (Some n) (Some p)) \<and> t = Some tag \<and>
                              imap4_in_verify_tag_str tag)) \<and>
          (rc = 2 \<longrightarrow> opt_ssl_mode opt AND SSL_MODE_TLS_LISTEN \<noteq> 0 \<and> ty \<noteq> Io_type_ssl))"

lemma imap4_done_simps [simp]:
  "imap4_done opt ty In_loop" "imap4_done opt ty in_error" "imap4_done opt ty (In_done 1 None None)"
  "imap4_done opt ty (In_done 2 None None) \<longleftrightarrow> opt_ssl_mode opt AND SSL_MODE_TLS_LISTEN \<noteq> 0 \<and> ty \<noteq> Io_type_ssl"
  "imap4_done opt ty (In_done 0 (Some (auth_set_pwd (Some n) (Some p))) (Some tag)) \<longleftrightarrow> imap4_in_verify_tag_str tag"
  by (auto simp: imap4_done_def)

lemma imap4_in_bad_gives [gives_rules]: "gives (imap4_done opt ty) (imap4_in_bad i tag reason w)"
  by (auto simp: imap4_in_bad_def intro!: gives_rules)

lemma loop_unless_error_gives [gives_rules]: "gives (imap4_done opt ty) (loop_unless_error r)"
  by (auto simp: loop_unless_error_def intro!: gives_rules)

lemma imap4_in_login_syntax_gives [gives_rules]: "gives (imap4_done opt ty) (imap4_in_login_syntax i tag w)"
  by (auto simp: imap4_in_login_syntax_def intro!: gives_rules)

lemma imap4_in_login_passwd_gives [gives_rules]:
  "imap4_in_verify_tag_str tag \<Longrightarrow> gives (imap4_done opt ty) (imap4_in_login_passwd Q d i tag st t q w)"
  by (auto simp: imap4_in_login_passwd_def intro!: gives_rules split: option.split)

lemma imap4_in_login_gives [gives_rules]:
  "imap4_in_verify_tag_str tag \<Longrightarrow> gives (imap4_done opt ty) (imap4_in_login Q d i tag q w)"
  by (auto simp: imap4_in_login_def intro!: gives_rules split: option.split prod.split)

lemma imap4_in_starttls_gives [gives_rules]:
  "gives (imap4_done opt (io_type (ios w i))) (imap4_in_starttls opt i tag w)"
  by (auto simp: imap4_in_starttls_def intro!: gives_rules)

lemma imap4_in_command_gives [gives_rules]:
  "imap4_in_verify_tag_str tag \<Longrightarrow>
     gives (imap4_done opt (io_type (ios w i))) (imap4_in_command Q d opt f s i tag t q w)"
  by (auto simp: imap4_in_command_def Let_def intro!: gives_rules)

lemma imap4_in_step_gives: "gives (imap4_done opt (io_type (ios w i))) (imap4_in_step Q d opt f s i w)"
proof -
  obtain r w1 where r: "read_line Q i None TOKEN_IMAP4 0 w = (r, w1)" by fastforce
  have "io_type (ios w i) = io_type (ios w1 i)" using read_line_only_io [OF r] by (simp add: only_io_def)
  with r show ?thesis
    by (auto simp: imap4_in_step_def intro!: gives_rules split: option.split)
qed

lemma imap4_in_get_auth_cases:
  assumes "imap4_in_get_auth Q is_digit opt f s i w = Some ((rc, a, t), w')"
  shows "(rc \<in> {-1, 1, 2} \<and> a = None \<and> t = None \<or>
      rc = 0 \<and> (\<exists>n p tag. a = Some (auth_set_pwd (Some n) (Some p)) \<and> t = Some tag \<and>
                         imap4_in_verify_tag_str tag)) \<and>
    (rc = 2 \<longrightarrow> opt_ssl_mode opt AND SSL_MODE_TLS_LISTEN \<noteq> 0 \<and> io_type (ios w i) \<noteq> Io_type_ssl) \<and>
    (\<forall>j. j \<noteq> i \<longrightarrow> ios w' j = ios w j)"
proof -
  have "imap4_done opt (io_type (ios w i)) (In_done rc a t) \<and> only_io i w w'"
    using assms
  proof (induction Q is_digit opt f s i w rule: imap4_in_get_auth.induct)
    case (1 Q d opt f s i w)
    note g = imap4_in_step_gives [of opt w i Q d f s] and k = imap4_in_step_keeps [OF only_io_refl, of i w Q d opt f s]
    show ?case
    proof (cases "imap4_in_step Q d opt f s i w")
      case None
      with "1.prems" show ?thesis by (subst (asm) imap4_in_get_auth.simps) simp
    next
      case (Some x)
      obtain r w1 where x: "x = (r, w1)" by fastforce
      have oi: "only_io i w w1" using k unfolding Some x by simp
      show ?thesis
      proof (cases r)
        case In_loop
        with "1.prems" Some x have "imap4_in_get_auth Q d opt f s i w1 = Some ((rc, a, t), w')"
          by (subst (asm) imap4_in_get_auth.simps) simp
        from "1.IH" [OF Some x [symmetric] In_loop this] only_io_type [OF oi] only_io_trans [OF oi]
        show ?thesis by simp
      next
        case (In_done rc' a' t')
        with "1.prems" Some x g oi show ?thesis by (subst (asm) imap4_in_get_auth.simps) simp
      qed
    qed
  qed
  then show ?thesis by (auto simp: imap4_done_def only_io_def)
qed

text \<open>
  C4. Whatever a client sends, \<open>imap4_in_get_auth\<close> returns one of four codes: credentials with a
  syntactically valid tag (0), log out (1), start TLS (2), or an error (-1). It asks for TLS only if
  STARTTLS is enabled and the connection is not encrypted yet, hands out credentials only with 0,
  and neither reads from nor writes to the other connection.
\<close>

theorem imap4_in_get_auth_result:
  assumes "imap4_in_get_auth Q is_digit opt f s i w = Some ((rc, a, t), w')"
  shows "(rc \<in> {-1, 1, 2} \<and> a = None \<and> t = None \<or>
      rc = 0 \<and> (\<exists>n p tag. a = Some (auth_set_pwd (Some n) (Some p)) \<and> t = Some tag \<and>
                         imap4_in_verify_tag_str tag)) \<and>
    (rc = 2 \<longrightarrow> opt_ssl_mode opt AND SSL_MODE_TLS_LISTEN \<noteq> 0 \<and> io_type (ios w i) \<noteq> Io_type_ssl) \<and>
    (\<forall>j. j \<noteq> i \<longrightarrow> ios w' j = ios w j)"
  using assms by (rule imap4_in_get_auth_cases)

subsection \<open>Literals\<close>

definition literal :: "nat \<Rightarrow> string" where
  "literal n = ''{'' @ dec_string n @ ''}''"

lemma literal_no: "c \<in> {SP, CR, LF, DQ, NUL} \<Longrightarrow> c \<notin> set (literal n)"
  using dec_string_no [of c n] by (auto simp: literal_def)

lemma is_word_literal:
  assumes "n \<le> MAX_LINE_LENGTH" shows "is_word TOKEN_IMAP4 (literal n)"
proof -
  have "length (dec_string n) < 4094"
    using assms dec_string_digits [of n] div_le_mono [of n 4096 10] by (simp add: MAX_LINE_LENGTH_def)
  then show ?thesis
    by (simp add: is_word_def quote_state_plain literal_no) (simp add: literal_def MAX_LINE_LENGTH_def)
qed

lemma imap4_token_is_literal_literal:
  assumes "d (dec_string n)" and "n \<le> MAX_LINE_LENGTH"
  shows "imap4_token_is_literal d (mk_token (literal n) TOKEN_EOL) = Some (IMAP4_SYNCHRONISING_TOKEN, n)"
proof -
  have ne: "dec_string n \<noteq> []" and last: "last (dec_string n) \<noteq> CHR ''+''"
    using dec_string_digits [of n] dec_string_no [of "CHR ''+''" n] last_in_set by fastforce+
  have "no_nul (literal n)" using literal_no [of NUL n] by (auto simp: no_nul_def)
  then have "token_to_string (mk_token (literal n) TOKEN_EOL) DQ = Some (literal n)"
    by (auto simp: token_to_string_def literal_def strn_to_str_def)
  moreover have "n < ULONG_MAX" using assms(2) by (simp add: MAX_LINE_LENGTH_def ULONG_MAX_def)
  ultimately show ?thesis using assms(1) ne last c_strtoul_dec [of n]
    by (simp add: imap4_token_is_literal_def literal_def char_at_def butlast_append Let_def)
qed

text \<open>Reading a literal, once it has been announced; it need not be complete behind \<open>MAX_LINE_LENGTH\<close> bytes.\<close>

lemma imap4_token_wrapper_literal:
  assumes "wf_buffer w" and "s \<noteq> []" and "length s \<le> MAX_LINE_LENGTH" and "avail i w = s @ rest"
    and "d (dec_string (length s))" and "qlength Q q = 0"
  obtains w' where "imap4_token_wrapper Q d i q (mk_token (literal (length s)) TOKEN_EOL) w =
      Some ((IMAP4_SYNCHRONISING_TOKEN, Some (mk_token s TOKEN_NONE)), w')"
    and "avail i w' = rest" and "wf_buffer w'" and "\<forall>j. j \<noteq> i \<longrightarrow> ios w' j = ios w j"
proof -
  let ?tag = "token_assign token_create (Some IMAP4_CONT_TAG) 1 0"
  have t: "token_str (token_assign token_create (Some ''+'') (Suc 0) 0) = ''+''"
    by (simp add: token_assign_def token_str_def)
  have "imap4_write_str i NULL_FLAG (Some ?tag) (Some IMAP4_OK) (Some ''ready for additional input'') w =
      send_line i (line_of NULL_FLAG (IMAP4_CONT_TAG @ SP # IMAP4_OK @ SP # ''ready for additional input'')) w"
    using imap4_write_str_line [of "Some ?tag" IMAP4_OK]
    by (simp add: t plain_text_def imap4_word_defs MAX_LINE_LENGTH_def)
  then obtain rc w1 where w1: "imap4_write_str i NULL_FLAG (Some ?tag) (Some IMAP4_OK)
      (Some ''ready for additional input'') w = Some (rc, w1)"
    by (auto simp: send_line_def imap4_word_defs line_of_def NULL_FLAG_def STR_WRITE_BUF_LEN_def MAX_LINE_LENGTH_def CRLF_def)
  note fr = imap4_write_str_frame [OF w1]
  then have "wf_buffer w1" "avail i w1 = s @ rest" using assms(1,4) by auto
  then obtain w2 where w2: "token_read i None TOKEN_IMAP4_LITERAL (length s) w1 = (Some (mk_token s TOKEN_NONE, []), w2)"
    "avail i w2 = rest" "wf_buffer w2"
    using token_read_literal [of w1 s "length s" i rest] assms(2,3) by (auto simp: min_def)
  have "\<forall>j. j \<noteq> i \<longrightarrow> ios w2 j = ios w j"
    using fr token_read_only_io [OF w2(1)] by (auto simp: only_io_def)
  moreover have "imap4_token_wrapper Q d i q (mk_token (literal (length s)) TOKEN_EOL) w =
      Some ((IMAP4_SYNCHRONISING_TOKEN, Some (mk_token s TOKEN_NONE)), w2)"
    using imap4_token_is_literal_literal [of d "length s"] assms w1 w2(1)
    by (simp add: imap4_token_wrapper_def) (simp add: imap4_token_types)
  ultimately show ?thesis using that w2 by blast
qed


lemma imap4_in_login_literal_user:
  assumes "token_queue Q \<alpha>" and "wf_buffer w" and "valid_tag tag"
    and "length cmd = 5" and "strncaseeq cmd ''LOGIN'' 5" and "is_word TOKEN_IMAP4 cmd"
    and "u \<noteq> []" and "length u \<le> MAX_LINE_LENGTH" and "is_digit (dec_string (length u))"
    and "is_word TOKEN_IMAP4 x"
    and "avail i w = join SP [tag, cmd, literal (length u)] @ CRLF @ u @ SP # x @ CRLF @ rest"
  obtains q w' where "imap4_in_step Q is_digit opt f s i w =
      imap4_in_login_passwd Q is_digit i (mk_token tag TOKEN_NONE) IMAP4_SYNCHRONISING_TOKEN
        (mk_token u TOKEN_NONE) q w'"
    and "\<alpha> q = [mk_token x TOKEN_EOL]" and "avail i w' = rest" and "wf_buffer w'"
    and "\<forall>j. j \<noteq> i \<longrightarrow> ios w' j = ios w j"
proof -
  have words: "\<forall>x \<in> set (cmd # [literal (length u)]). is_word TOKEN_IMAP4 x"
    using assms by (auto simp: is_word_literal)
  obtain q w1 where st: "imap4_in_step Q is_digit opt f s i w =
      imap4_in_command Q is_digit opt f s i (mk_token tag TOKEN_NONE) (mk_token cmd TOKEN_NONE) q w1"
    and q: "\<alpha> q = [mk_token (literal (length u)) TOKEN_EOL]"
    and w1: "avail i w1 = u @ SP # x @ CRLF @ rest" "wf_buffer w1" "only_io i w w1"
    by (rule imap4_in_step_words [OF assms(1,2,3) words assms(11), of is_digit]) (auto simp: line_tokens_def)
  obtain q1 where q1: "qpop Q q = Some (q1, mk_token (literal (length u)) TOKEN_EOL)" "\<alpha> q1 = []"
    using token_queue.pop_Cons [OF assms(1) q] by auto
  have ql: "qlength Q q = 1" "qlength Q q1 = 0" using token_queue.qlength [OF assms(1)] q q1(2) by auto
  obtain w2 where w2: "imap4_token_wrapper Q is_digit i q1 (mk_token (literal (length u)) TOKEN_EOL) w1 =
      Some ((IMAP4_SYNCHRONISING_TOKEN, Some (mk_token u TOKEN_NONE)), w2)"
    and a2: "avail i w2 = SP # x @ CRLF @ rest" "wf_buffer w2" "\<forall>j. j \<noteq> i \<longrightarrow> ios w2 j = ios w1 j"
    using imap4_token_wrapper_literal [OF w1(2) assms(7,8) w1(1), of is_digit Q q1] assms(9) ql by blast
  have wx: "\<forall>y \<in> set [[], x]. is_word TOKEN_IMAP4 y" using assms(10) by (simp add: is_word_def MAX_LINE_LENGTH_def)
  have a2': "avail i w2 = join SP [[], x] @ CRLF @ rest" using a2(1) by simp
  obtain q2 w3 where r: "read_line Q i None TOKEN_IMAP4 0 w2 = (Some (q2, []), w3)"
    and q2: "\<alpha> q2 = [mk_token [] TOKEN_NONE, mk_token x TOKEN_EOL]" and w3: "avail i w3 = rest" "wf_buffer w3"
    using token_queue.read_line_words [OF assms(1) a2(2) _ _ wx a2', where m = 0] by (auto simp: line_tokens_def)
  obtain q3 where q3: "qpop Q q2 = Some (q3, mk_token [] TOKEN_NONE)" "\<alpha> q3 = [mk_token x TOKEN_EOL]"
    using token_queue.pop_Cons [OF assms(1) q2] by auto
  have "qlength Q q2 = 2" using token_queue.qlength [OF assms(1)] q2 by auto
  with ql q1(1) w2 r q3(1) have "imap4_in_login Q is_digit i (mk_token tag TOKEN_NONE) q w1 =
      imap4_in_login_passwd Q is_digit i (mk_token tag TOKEN_NONE) IMAP4_SYNCHRONISING_TOKEN
        (mk_token u TOKEN_NONE) q3 w3"
    by (simp add: imap4_in_login_def) (simp add: imap4_token_types)
  moreover have "imap4_in_command Q is_digit opt f s i (mk_token tag TOKEN_NONE) (mk_token cmd TOKEN_NONE) q w1 =
      imap4_in_login Q is_digit i (mk_token tag TOKEN_NONE) q w1"
    using assms(4,5) by (simp add: imap4_in_command_def token_is_word_def token_is_null_def
        IMAP4_CMD_CAPABILITY_def IMAP4_CMD_STARTTLS_def)
  ultimately show ?thesis
    using st that q3(2) w3 w1(3) a2(3) read_line_only_io [OF r] by (auto simp: only_io_def)
qed

lemma imap4_token_to_string_literal:
  "no_nul s \<Longrightarrow> imap4_token_to_string (mk_token s f) IMAP4_SYNCHRONISING_TOKEN = Some s"
  by (simp add: imap4_token_to_string_def token_to_string_def strn_to_str_def imap4_token_types TOKEN_NO_STRIP_def)

text \<open>
  LOGIN with both arguments as synchronising literals is read byte for byte: name and password
  may hold spaces, double quotes, backslashes and line ends. Nothing behind the announced length of
  the password is read.
\<close>

lemma imap4_login_literals:
  assumes "token_queue Q \<alpha>" and "wf_buffer w" and "valid_tag tag"
    and "length cmd = 5" and "strncaseeq cmd ''LOGIN'' 5" and "is_word TOKEN_IMAP4 cmd"
    and "u \<noteq> []" and "no_nul u" and "length u \<le> MAX_LINE_LENGTH"
    and "p \<noteq> []" and "no_nul p" and "length p \<le> MAX_LINE_LENGTH"
    and "\<And>n. is_digit (dec_string n)"
    and "avail i w = join SP [tag, cmd, literal (length u)] @ CRLF @ u @ SP # literal (length p) @ CRLF @ p @ rest"
  shows "\<exists>w'. imap4_in_get_auth Q is_digit opt f s i w =
      Some ((0, Some (auth_set_pwd (Some u) (Some p)), Some (mk_token tag TOKEN_NONE)), w') \<and>
      avail i w' = rest \<and> wf_buffer w' \<and> (\<forall>j. j \<noteq> i \<longrightarrow> ios w' j = ios w j)"
proof -
  obtain q w1 where st: "imap4_in_step Q is_digit opt f s i w =
      imap4_in_login_passwd Q is_digit i (mk_token tag TOKEN_NONE) IMAP4_SYNCHRONISING_TOKEN
        (mk_token u TOKEN_NONE) q w1"
    and q: "\<alpha> q = [mk_token (literal (length p)) TOKEN_EOL]"
    and w1: "avail i w1 = p @ rest" "wf_buffer w1" "\<forall>j. j \<noteq> i \<longrightarrow> ios w1 j = ios w j"
    by (rule imap4_in_login_literal_user [where u = u and x = "literal (length p)" and tag = tag and cmd = cmd and is_digit = is_digit
          and opt = opt and f = f and s = s and rest = "p @ rest",
          OF assms(1-7,9,13) is_word_literal [OF assms(12)] assms(14)]) metis
  obtain q1 where q1: "qpop Q q = Some (q1, mk_token (literal (length p)) TOKEN_EOL)" "\<alpha> q1 = []"
    using token_queue.pop_Cons [OF assms(1) q] by auto
  have ql: "qlength Q q = 1" "qlength Q q1 = 0" using token_queue.qlength [OF assms(1)] q q1(2) by auto
  obtain w2 where w2: "imap4_token_wrapper Q is_digit i q1 (mk_token (literal (length p)) TOKEN_EOL) w1 =
      Some ((IMAP4_SYNCHRONISING_TOKEN, Some (mk_token p TOKEN_NONE)), w2)"
    and a2: "avail i w2 = rest" "wf_buffer w2" "\<forall>j. j \<noteq> i \<longrightarrow> ios w2 j = ios w1 j"
    using imap4_token_wrapper_literal [where d = is_digit, OF w1(2) assms(10,12) w1(1) assms(13), of Q q1] ql by blast
  have "imap4_in_step Q is_digit opt f s i w =
      Some (In_done 0 (Some (auth_set_pwd (Some u) (Some p))) (Some (mk_token tag TOKEN_NONE)), w2)"
    using st ql(1) q1(1) w2 assms(7,8,10,11)
    by (simp add: imap4_in_login_passwd_def imap4_token_to_string_literal) (simp add: imap4_token_types)
  then show ?thesis using a2 w1(3) by (subst imap4_in_get_auth.simps) simp
qed

text \<open>
  The type of the user token is also used to decode the password. With a literal user name and
  a quoted password, the password handed on still has its double quotes.
\<close>

lemma imap4_login_literal_user_quoted_passwd:
  assumes "token_queue Q \<alpha>" and "wf_buffer w" and "valid_tag tag"
    and "length cmd = 5" and "strncaseeq cmd ''LOGIN'' 5" and "is_word TOKEN_IMAP4 cmd"
    and "u \<noteq> []" and "no_nul u" and "length u \<le> MAX_LINE_LENGTH"
    and "login_arg p" and "\<not> (p \<noteq> [] \<and> hd p = CHR ''{'' \<and> last p = CHR ''}'')"
    and "is_digit (dec_string (length u))"
    and "avail i w = join SP [tag, cmd, literal (length u)] @ CRLF @ u @ SP # quoted p @ CRLF @ rest"
  shows "\<exists>w'. imap4_in_get_auth Q is_digit opt f s i w =
      Some ((0, Some (auth_set_pwd (Some u) (Some (quoted p))), Some (mk_token tag TOKEN_NONE)), w')"
proof -
  have np: "no_nul p" using assms(10) by (simp add: login_arg_def)
  then have nq: "no_nul (quoted p)" using no_nul_quote_chars [of p] by (simp add: quoted_def)
  obtain q w1 where st: "imap4_in_step Q is_digit opt f s i w =
      imap4_in_login_passwd Q is_digit i (mk_token tag TOKEN_NONE) IMAP4_SYNCHRONISING_TOKEN
        (mk_token u TOKEN_NONE) q w1"
    and q: "\<alpha> q = [mk_token (quoted p) TOKEN_EOL]"
    by (rule imap4_in_login_literal_user [where u = u and x = "quoted p" and tag = tag and cmd = cmd and is_digit = is_digit
          and opt = opt and f = f and s = s and rest = rest,
          OF assms(1-7,9,12) is_word_quoted [OF assms(10)] assms(13)]) metis
  obtain q1 where q1: "qpop Q q = Some (q1, mk_token (quoted p) TOKEN_EOL)"
    using token_queue.pop_Cons [OF assms(1) q] by auto
  have ql: "qlength Q q = 1" using token_queue.qlength [OF assms(1)] q by auto
  have wp: "imap4_token_wrapper Q is_digit i q1 (mk_token (quoted p) TOKEN_EOL) w1 =
      Some ((IMAP4_QUOTED_STRING, Some (mk_token (quoted p) TOKEN_EOL)), w1)"
    using np assms(11) by (intro imap4_token_wrapper_quoted) simp_all
  have "length (quoted p) \<noteq> 0" by (simp add: quoted_def)
  then have "imap4_in_step Q is_digit opt f s i w =
      Some (In_done 0 (Some (auth_set_pwd (Some u) (Some (quoted p)))) (Some (mk_token tag TOKEN_NONE)), w1)"
    using st ql(1) q1(1) wp assms(7,8) nq
    by (simp add: imap4_in_login_passwd_def imap4_token_to_string_literal del: mk_token_sel(4))
      (simp add: imap4_token_types)
  then show ?thesis by (subst imap4_in_get_auth.simps) simp
qed

lemma is_digit_facts: "\<And>n. all_digits (dec_string n)"
  using dec_string_digits by blast

lemma literal_witness_facts:
  "''bob'' \<noteq> ''''" "no_nul ''bob''" "length ''bob'' \<le> MAX_LINE_LENGTH"
  "[DQ, BS, LF] \<noteq> []" "no_nul [DQ, BS, LF]" "length [DQ, BS, LF] \<le> MAX_LINE_LENGTH"
  by code_simp+

theorem imap4_login_literals_witness:
  "\<forall>opt. \<exists>w'. imap4_in_get_auth list_queue all_digits opt 0 0 EU
      (world_sending (join SP [''a1'', ''login'', literal (length ''bob'')] @ CRLF @ ''bob'' @
         SP # literal (length [DQ, BS, LF]) @ CRLF @ [DQ, BS, LF] @ ''x'')) =
    Some ((0, Some (auth_set_pwd (Some ''bob'') (Some [DQ, BS, LF])), Some (mk_token ''a1'' TOKEN_NONE)), w') \<and>
    avail EU w' = ''x''"
  using imap4_login_literals [where is_digit = all_digits, OF list_queue.token_queue_axioms world_sending(1) login_witness_facts(1-4)
      literal_witness_facts is_digit_facts world_sending(2)]
  by blast

theorem imap4_login_literal_user_quoted_passwd_witness:
  "\<forall>opt. \<exists>w'. imap4_in_get_auth list_queue all_digits opt 0 0 EU
      (world_sending (join SP [''a1'', ''login'', literal (length ''bob'')] @ CRLF @ ''bob'' @
         SP # quoted ''se cret'' @ CRLF @ ''x'')) =
    Some ((0, Some (auth_set_pwd (Some ''bob'') (Some (quoted ''se cret''))), Some (mk_token ''a1'' TOKEN_NONE)), w')"
  using imap4_login_literal_user_quoted_passwd [where is_digit = all_digits, OF list_queue.token_queue_axioms world_sending(1)
      login_witness_facts(1-4) literal_witness_facts(1-3) login_witness_facts(6,7) is_digit_facts world_sending(2)]
  by blast


lemma imap4_logout_example:
  "map_option fst (imap4_in_get_auth list_queue all_digits options_zero 0 0 EU (world_sending (''a LOGOUT'' @ CRLF))) =
     Some (1, None, None)"
  by code_simp

theorem imap4_in_get_auth_result_witness:
  "\<exists>w'. imap4_in_get_auth list_queue all_digits options_zero 0 0 EU (world_sending (''a LOGOUT'' @ CRLF)) =
     Some ((1, None, None), w') \<and> ios w' RS = ios (world_sending (''a LOGOUT'' @ CRLF)) RS"
  using imap4_in_get_auth_result [of list_queue all_digits options_zero 0 0 EU "world_sending (''a LOGOUT'' @ CRLF)" 1 None None]
    imap4_logout_example by auto

end
