(* ===== verification/Pop3_In.thy ===== *)
theory Pop3_In
  imports Imap4_In
begin

text \<open>
  The POP3 side of the client: \<^verbatim>\<open>perdition/pop3_in.c\<close>. The state of the command loop is the name
  of the last USER command. The macro \<open>__POP3_IN_ERR\<close> wraps its \<open>break\<close> in a loop of its own, so
  when the error line cannot be written, control goes on behind the macro; the argument \<open>k\<close> of
  \<open>pop3_in_err_or\<close> is what comes there.
\<close>

definition POP3_CMD_LEN :: nat where "POP3_CMD_LEN = 4"
definition POP3_CMD_CAPA :: string where "POP3_CMD_CAPA = ''CAPA''"
definition POP3_CMD_USER :: string where "POP3_CMD_USER = ''USER''"
definition POP3_CMD_PASS :: string where "POP3_CMD_PASS = ''PASS''"
definition POP3_CMD_QUIT :: string where "POP3_CMD_QUIT = ''QUIT''"

lemmas pop3_cmd_defs = POP3_CMD_CAPA_def POP3_CMD_USER_def POP3_CMD_PASS_def POP3_CMD_QUIT_def POP3_CMD_STLS_def

definition pop3_in_authenticate ::
    "pam_env \<Rightarrow> auth \<Rightarrow> ioid \<Rightarrow> token option \<Rightarrow> world \<Rightarrow> (int \<times> world) option" where
  "pop3_in_authenticate pam a i tag w =
     (let name = auth_get_authorisation_id a in
      if \<not> pam_start pam (authentication_id a) then Some (-1, w)
      else if \<not> pam_check pam name (passwd a)
      then do { (rc, w1) \<leftarrow> pop3_write_str i NULL_FLAG None (Some POP3_ERR)
                              (Some ''Authentication failure, mate'') w;
                Some (if rc < 0 then -1 else 0, w1) }
      else Some (1, w))"

definition pop3_in_err :: "ioid \<Rightarrow> nat \<Rightarrow> string \<Rightarrow> printf_arg list \<Rightarrow> world \<Rightarrow> (int \<times> world) option" where
  "pop3_in_err i nargs fmt ap w =
     do { (rc, w1) \<leftarrow> pop3_vwrite i NULL_FLAG (Some POP3_ERR) nargs (Some fmt) ap w;
          Some (if rc < 0 then -1 else 0, w1) }"

definition pop3_in_invalid_cmd :: "options \<Rightarrow> ioid \<Rightarrow> string \<Rightarrow> world \<Rightarrow> (int \<times> world) option" where
  "pop3_in_invalid_cmd opt i msg w =
     (let extra = (if opt_ssl_mode opt AND SSL_MODE_TLS_LISTEN \<noteq> 0 \<and> io_type (ios w i) \<noteq> Io_type_ssl
                   then POP3_CMD_STLS @ '', '' else [])
      in pop3_in_err i 2
           (''Mate, %smust be one of %s'' @ POP3_CMD_CAPA @ '', '' @ POP3_CMD_USER @ '', '' @
            POP3_CMD_PASS @ '' or '' @ POP3_CMD_QUIT)
           [Arg_s msg, Arg_s extra] w)"

type_synonym pop3_in_result = "((in_outcome \<times> string option) \<times> world) option"

definition pop3_in_err_or :: "ioid \<Rightarrow> string option \<Rightarrow> string \<Rightarrow> world \<Rightarrow> (world \<Rightarrow> pop3_in_result) \<Rightarrow> pop3_in_result" where
  "pop3_in_err_or i name reason w k =
     do { (rc, w1) \<leftarrow> pop3_in_err i 1 ''%s'' [Arg_s reason] w;
          if rc < 0 then k w1 else Some ((In_loop, name), w1) }"

definition pop3_in_invalid :: "options \<Rightarrow> ioid \<Rightarrow> string option \<Rightarrow> string \<Rightarrow> world \<Rightarrow> pop3_in_result" where
  "pop3_in_invalid opt i name reason w =
     do { (rc, w1) \<leftarrow> pop3_in_invalid_cmd opt i reason w;
          Some ((if rc < 0 then in_error else In_loop, name), w1) }"

text \<open>\<open>t\<close> is a POP3 command of four characters equal to \<open>cmd\<close>.\<close>

definition pop3_is_cmd :: "token \<Rightarrow> string \<Rightarrow> bool" where
  "pop3_is_cmd t cmd \<longleftrightarrow> strncaseeq (token_str t) cmd (tok_n t)"

definition pop3_in_capa :: "string \<Rightarrow> ioid \<Rightarrow> string option \<Rightarrow> world \<Rightarrow> pop3_in_result" where
  "pop3_in_capa capability i name w =
     do { (_, w1) \<leftarrow> pop3_write i WRITE_STR_NO_CLLF (Some POP3_OK) 1
                       (Some (''Capability list follows, mate'' @ CRLF @ ''%s'')) [Arg_s capability] w;
          Some ((In_loop, name), w1) }"

text \<open>USER with one argument: the name is remembered, whether the answer could be sent or not.\<close>

definition pop3_in_set_user :: "ioid \<Rightarrow> token \<Rightarrow> world \<Rightarrow> pop3_in_result" where
  "pop3_in_set_user i t w =
     do { name \<leftarrow> token_to_string t TOKEN_NO_STRIP;
          (_, w1) \<leftarrow> pop3_write_str i NULL_FLAG None (Some POP3_OK)
                       (Some (POP3_CMD_USER @ '' '' @ name @ '' set, mate'')) w;
          Some ((In_loop, Some name), w1) }"

definition pop3_in_user :: "'q queue_ops \<Rightarrow> ioid \<Rightarrow> string option \<Rightarrow> 'q \<Rightarrow> world \<Rightarrow> pop3_in_result" where
  "pop3_in_user Q i name q w =
     (let arg = (\<lambda>w. case qpop Q q of
                       None \<Rightarrow> Some ((in_error, name), w)
                     | Some (_, t) \<Rightarrow>
                         if token_is_null t
                         then pop3_in_err_or i name (''Mate, try: '' @ POP3_CMD_USER @ '' <username>'') w
                                (\<lambda>w. pop3_in_set_user i t w)
                         else pop3_in_set_user i t w)
      in if qlength Q q \<noteq> 1
         then pop3_in_err_or i name (''Mate, try: '' @ POP3_CMD_USER @ '' <username>'') w arg
         else arg w)"

definition pop3_in_pass :: "'q queue_ops \<Rightarrow> ioid \<Rightarrow> string option \<Rightarrow> 'q \<Rightarrow> world \<Rightarrow> pop3_in_result" where
  "pop3_in_pass Q i name q w =
     (let take_passwd = (\<lambda>w. do { passwd \<leftarrow> queue_to_string Q q;
                                  Some ((In_done 0 (Some (auth_set_pwd name (Some passwd))) None, name), w) });
          with_name = (\<lambda>w. if qlength Q q = 0
                           then pop3_in_err_or i name (''Mate, try: '' @ POP3_CMD_PASS @ '' <password>'') w take_passwd
                           else take_passwd w)
      in if name = None
         then pop3_in_err_or i name (POP3_CMD_USER @ '' not yet set, mate'') w with_name
         else with_name w)"

definition pop3_in_quit :: "'q queue_ops \<Rightarrow> ioid \<Rightarrow> string option \<Rightarrow> 'q \<Rightarrow> world \<Rightarrow> pop3_in_result" where
  "pop3_in_quit Q i name q w =
     (let bye = (\<lambda>w. do { (rc, w1) \<leftarrow> pop3_write_str i NULL_FLAG None (Some POP3_OK) (Some POP3_CMD_QUIT) w;
                          Some ((if rc < 0 then in_error else In_done 1 None None, name), w1) })
      in if qlength Q q \<noteq> 0
         then pop3_in_err_or i name (''Mate, try: '' @ POP3_CMD_QUIT) w bye
         else bye w)"

text \<open>The commands behind STLS.\<close>

definition pop3_in_auth_command ::
    "'q queue_ops \<Rightarrow> options \<Rightarrow> ioid \<Rightarrow> string option \<Rightarrow> token \<Rightarrow> 'q \<Rightarrow> world \<Rightarrow> pop3_in_result" where
  "pop3_in_auth_command Q opt i name t q w =
     (if pop3_is_cmd t POP3_CMD_USER then pop3_in_user Q i name q w
      else if pop3_is_cmd t POP3_CMD_PASS then pop3_in_pass Q i name q w
      else if pop3_is_cmd t POP3_CMD_QUIT then pop3_in_quit Q i name q w
      else pop3_in_invalid opt i name ''the command '' w)"

definition pop3_in_stls ::
    "'q queue_ops \<Rightarrow> options \<Rightarrow> ioid \<Rightarrow> string option \<Rightarrow> token \<Rightarrow> 'q \<Rightarrow> world \<Rightarrow> pop3_in_result" where
  "pop3_in_stls Q opt i name t q w =
     (let start = (\<lambda>w. if io_type (ios w i) \<noteq> Io_type_ssl
                       then do { (_, w1) \<leftarrow> pop3_write_str i NULL_FLAG None (Some POP3_OK)
                                              (Some ''Begin TLS negotiation, mate'') w;
                                 Some ((In_done 2 None None, name), w1) }
                       else pop3_in_err_or i name ''TLS already active, mate'' w
                              (\<lambda>w. pop3_in_auth_command Q opt i name t q w))
      in if qlength Q q \<noteq> 0
         then pop3_in_err_or i name (''Mate, try: '' @ POP3_CMD_STLS) w start
         else start w)"

definition pop3_in_command ::
    "'q queue_ops \<Rightarrow> options \<Rightarrow> string \<Rightarrow> ioid \<Rightarrow> string option \<Rightarrow> token \<Rightarrow> 'q \<Rightarrow> world \<Rightarrow> pop3_in_result" where
  "pop3_in_command Q opt capability i name t q w =
     (let command = (\<lambda>w.
          if tok_n t \<noteq> POP3_CMD_LEN then pop3_in_invalid opt i name ''the command is too short, '' w
          else if pop3_is_cmd t POP3_CMD_CAPA
          then (if qlength Q q \<noteq> 0
                then pop3_in_err_or i name (''Mate, try: '' @ POP3_CMD_CAPA) w (pop3_in_capa capability i name)
                else pop3_in_capa capability i name w)
          else if opt_ssl_mode opt AND SSL_MODE_TLS_LISTEN \<noteq> 0 \<and> pop3_is_cmd t POP3_CMD_STLS
          then pop3_in_stls Q opt i name t q w
          else pop3_in_auth_command Q opt i name t q w)
      in if token_is_null t then pop3_in_err_or i name ''Null command, mate'' w command
         else command w)"

definition pop3_in_step ::
    "'q queue_ops \<Rightarrow> options \<Rightarrow> string \<Rightarrow> ioid \<Rightarrow> string option \<Rightarrow> world \<Rightarrow> pop3_in_result" where
  "pop3_in_step Q opt capability i name w =
     (case read_line Q i None TOKEN_POP3 0 w of
        (None, w1) \<Rightarrow> Some ((in_error, name), w1)
      | (Some (q0, _), w1) \<Rightarrow>
          (case qpop Q q0 of
             None \<Rightarrow> Some ((in_error, name), w1)
           | Some (q, t) \<Rightarrow> pop3_in_command Q opt capability i name t q w1))"

subsection \<open>Frame and termination\<close>

lemma pop3_in_err_keeps [keeps_rules]: "only_io i w w1 \<Longrightarrow> keeps i w (pop3_in_err i n fmt ap w1)"
  unfolding pop3_in_err_def
  by (auto intro!: keeps_seq keeps_rules)

lemma pop3_in_err_or_keeps [keeps_rules]:
  "only_io i w w1 \<Longrightarrow> (\<And>w2. only_io i w w2 \<Longrightarrow> keeps i w (k w2)) \<Longrightarrow> keeps i w (pop3_in_err_or i name reason w1 k)"
  unfolding pop3_in_err_or_def by (auto intro!: keeps_seq keeps_rules)

lemma pop3_in_invalid_keeps [keeps_rules]: "only_io i w w1 \<Longrightarrow> keeps i w (pop3_in_invalid opt i name r w1)"
  unfolding pop3_in_invalid_def pop3_in_invalid_cmd_def Let_def by (auto intro!: keeps_seq keeps_rules)

lemma pop3_in_capa_keeps [keeps_rules]: "only_io i w w1 \<Longrightarrow> keeps i w (pop3_in_capa c i name w1)"
  unfolding pop3_in_capa_def by (auto intro!: keeps_seq keeps_rules)

lemma pop3_in_set_user_keeps [keeps_rules]: "only_io i w w1 \<Longrightarrow> keeps i w (pop3_in_set_user i t w1)"
  unfolding pop3_in_set_user_def by (auto intro!: keeps_seq keeps_rules)

lemma pop3_in_user_keeps [keeps_rules]: "only_io i w w1 \<Longrightarrow> keeps i w (pop3_in_user Q i name q w1)"
  unfolding pop3_in_user_def Let_def by (auto intro!: keeps_seq keeps_rules split: option.split)

lemma pop3_in_pass_keeps [keeps_rules]: "only_io i w w1 \<Longrightarrow> keeps i w (pop3_in_pass Q i name q w1)"
  unfolding pop3_in_pass_def Let_def by (auto intro!: keeps_seq keeps_rules split: option.split)

lemma pop3_in_quit_keeps [keeps_rules]: "only_io i w w1 \<Longrightarrow> keeps i w (pop3_in_quit Q i name q w1)"
  unfolding pop3_in_quit_def Let_def by (auto intro!: keeps_seq keeps_rules split: option.split)

lemma pop3_in_auth_command_keeps [keeps_rules]:
  "only_io i w w1 \<Longrightarrow> keeps i w (pop3_in_auth_command Q opt i name t q w1)"
  unfolding pop3_in_auth_command_def by (auto intro!: keeps_seq keeps_rules)

lemma pop3_in_stls_keeps [keeps_rules]: "only_io i w w1 \<Longrightarrow> keeps i w (pop3_in_stls Q opt i name t q w1)"
  unfolding pop3_in_stls_def Let_def by (auto intro!: keeps_seq keeps_rules)

lemma pop3_in_command_keeps [keeps_rules]:
  "only_io i w w1 \<Longrightarrow> keeps i w (pop3_in_command Q opt c i name t q w1)"
  unfolding pop3_in_command_def Let_def by (auto intro!: keeps_seq keeps_rules)

lemma pop3_in_step_keeps: "keeps i w (pop3_in_step Q opt c i name w)"
  unfolding pop3_in_step_def
  by (auto intro!: keeps_seq keeps_rules intro: read_line_only_io split: prod.split option.split)

lemma pop3_in_step_progress:
  assumes "pop3_in_step Q opt c i name w = Some ((In_loop, name'), w')"
  shows "pending i w' < pending i w"
proof -
  obtain r w1 where r: "read_line Q i None TOKEN_POP3 0 w = (r, w1)" by fastforce
  with assms obtain q0 l where s: "r = Some (q0, l)" by (cases r) (auto simp: pop3_in_step_def)
  have "pending i w1 < pending i w" using r s read_line_progress by blast
  moreover have "keeps i w1 (pop3_in_step Q opt c i name w)"
    using r s by (auto simp: pop3_in_step_def split: option.split intro!: keeps_rules)
  then have "only_io i w1 w'" unfolding assms by (rule keepsD)
  ultimately show ?thesis using only_io_pending by fastforce
qed

function pop3_in_loop ::
    "'q queue_ops \<Rightarrow> options \<Rightarrow> string \<Rightarrow> ioid \<Rightarrow> string option \<Rightarrow> world
      \<Rightarrow> ((int \<times> auth option) \<times> world) option" where
  "pop3_in_loop Q opt capability i name w =
     (case pop3_in_step Q opt capability i name w of
        None \<Rightarrow> None
      | Some ((In_done rc a _, _), w') \<Rightarrow> Some ((rc, a), w')
      | Some ((In_loop, name'), w') \<Rightarrow> pop3_in_loop Q opt capability i name' w')"
  by pat_completeness auto
termination
  by (relation "measure (\<lambda>(Q, opt, c, i, name, w). pending i w)") (auto dest: pop3_in_step_progress)

declare pop3_in_loop.simps [simp del]

definition pop3_in_get_auth ::
    "'q queue_ops \<Rightarrow> options \<Rightarrow> int \<Rightarrow> int \<Rightarrow> ioid \<Rightarrow> world \<Rightarrow> ((int \<times> auth option) \<times> world) option" where
  "pop3_in_get_auth Q opt tls_flags tls_state i w =
     do { capability \<leftarrow> pop3_in_capability opt tls_flags tls_state;
          pop3_in_loop Q opt capability i None w }"

lemma pop3_in_loop_keeps: "keeps i w (pop3_in_loop Q opt c i name w)"
proof (induction Q opt c i name w rule: pop3_in_loop.induct)
  case (1 Q opt c i name w)
  have "keeps i w (pop3_in_step Q opt c i name w)" by (rule pop3_in_step_keeps)
  with 1 show ?case
    by (subst pop3_in_loop.simps)
      (auto split: option.splits in_outcome.splits prod.splits intro: keeps_trans)
qed

subsection \<open>USER and PASS\<close>

lemma pop3_in_step_words:
  assumes "token_queue Q \<alpha>" and "wf_buffer w"
    and "\<forall>x \<in> set (cmd # args). is_word TOKEN_POP3 x"
    and "avail i w = join SP (cmd # args) @ CRLF @ rest"
  obtains q w1 where "\<And>opt c name. pop3_in_step Q opt c i name w =
      pop3_in_command Q opt c i name (mk_token cmd (if args = [] then TOKEN_EOL else TOKEN_NONE)) q w1"
    and "\<alpha> q = (if args = [] then [] else line_tokens args)"
    and "avail i w1 = rest" and "wf_buffer w1" and "only_io i w w1" and "same_io i w w1"
proof -
  obtain q0 w1 where r: "read_line Q i None TOKEN_POP3 0 w = (Some (q0, []), w1)"
    and q0: "\<alpha> q0 = line_tokens (cmd # args)" and w1: "avail i w1 = rest" "wf_buffer w1"
    using token_queue.read_line_words [OF assms(1,2) _ _ assms(3,4), where m = 0] by auto
  obtain q where q: "qpop Q q0 = Some (q, mk_token cmd (if args = [] then TOKEN_EOL else TOKEN_NONE))"
    "\<alpha> q = (if args = [] then [] else line_tokens args)"
    using token_queue.pop_Cons [OF assms(1), of q0] q0 by (auto simp: line_tokens_Cons split: if_splits)
  show ?thesis
  proof
    show "pop3_in_step Q opt c i name w =
        pop3_in_command Q opt c i name (mk_token cmd (if args = [] then TOKEN_EOL else TOKEN_NONE)) q w1" for opt c name
      using r q(1) by (simp add: pop3_in_step_def)
  qed (use q w1 read_line_only_io [OF r] read_line_frame [OF r] in auto)
qed

text \<open>A command word that is \<open>cmd\<close> up to case.\<close>

definition pop3_word :: "string \<Rightarrow> string \<Rightarrow> bool" where
  "pop3_word x cmd \<longleftrightarrow> is_word TOKEN_POP3 x \<and> length x = 4 \<and> strncaseeq x cmd 4"

lemma pop3_word_is_cmd:
  assumes "pop3_word x c" and "length c = 4" and "length d = 4" and "no_nul c" and "no_nul d"
  shows "pop3_is_cmd (mk_token x f) d \<longleftrightarrow> strcaseeq c d"
  using assms strncaseeq_no_nul [of x 4 c] strncaseeq_no_nul [of x 4 d]
  by (auto simp: pop3_word_def pop3_is_cmd_def strcaseeq_def)

lemma pop3_cmds_differ [simp]:
  "\<not> strcaseeq POP3_CMD_USER POP3_CMD_CAPA" "\<not> strcaseeq POP3_CMD_USER POP3_CMD_STLS"
  "\<not> strcaseeq POP3_CMD_PASS POP3_CMD_CAPA" "\<not> strcaseeq POP3_CMD_PASS POP3_CMD_STLS"
  "\<not> strcaseeq POP3_CMD_PASS POP3_CMD_USER"
  by code_simp+

lemma pop3_cmds_facts [simp]:
  "length POP3_CMD_USER = 4" "length POP3_CMD_PASS = 4" "length POP3_CMD_CAPA = 4" "length POP3_CMD_STLS = 4"
  "length POP3_CMD_QUIT = 4" "no_nul POP3_CMD_USER" "no_nul POP3_CMD_PASS" "no_nul POP3_CMD_CAPA"
  "no_nul POP3_CMD_STLS" "no_nul POP3_CMD_QUIT" "strcaseeq c c"
  by (simp_all add: pop3_cmd_defs strcaseeq_def)

lemma pop3_in_command_user:
  assumes "pop3_word x POP3_CMD_USER"
  shows "pop3_in_command Q opt c i name (mk_token x f) q w = pop3_in_user Q i name q w"
  using pop3_word_is_cmd [OF assms] assms
  by (simp add: pop3_in_command_def pop3_in_auth_command_def POP3_CMD_LEN_def token_is_null_def pop3_word_def)

lemma pop3_in_command_pass:
  assumes "pop3_word x POP3_CMD_PASS"
  shows "pop3_in_command Q opt c i name (mk_token x f) q w = pop3_in_pass Q i name q w"
  using pop3_word_is_cmd [OF assms] assms
  by (simp add: pop3_in_command_def pop3_in_auth_command_def POP3_CMD_LEN_def token_is_null_def pop3_word_def)

lemma split_words:
  assumes "CR \<notin> set p" and "LF \<notin> set p" and "length p < MAX_LINE_LENGTH"
  obtains ps where "p = join SP ps" and "ps \<noteq> []" and "\<forall>x \<in> set ps. is_word TOKEN_POP3 x"
    and "\<forall>x \<in> set ps. set x \<subseteq> set p"
proof -
  have q: "quote_state TOKEN_POP3 False s = Some False" if "SP \<notin> set s" "CR \<notin> set s" "LF \<notin> set s" for s
    using that by (induction s) (auto simp: token_flag_defs)
  have "\<exists>ps. p = join SP ps \<and> ps \<noteq> [] \<and> (\<forall>x \<in> set ps. is_word TOKEN_POP3 x \<and> set x \<subseteq> set p)"
    using assms
  proof (induction "length p" arbitrary: p rule: less_induct)
    case less
    show ?case
    proof (cases "SP \<in> set p")
      case False
      with less q [of p] show ?thesis by (intro exI [of _ "[p]"]) (simp add: is_word_def)
    next
      case True
      then obtain a b where p: "p = a @ SP # b" "SP \<notin> set a" by (metis split_list_first)
      with less obtain ps where ps: "b = join SP ps" "ps \<noteq> []" "\<forall>x \<in> set ps. is_word TOKEN_POP3 x \<and> set x \<subseteq> set b"
        by force
      moreover have "is_word TOKEN_POP3 a" using p less.prems q [of a] by (simp add: is_word_def)
      ultimately show ?thesis using p
        by (intro exI [of _ "a # ps"]) (cases ps; auto)
    qed
  qed
  then show ?thesis using that by blast
qed


lemma pop3_in_user_sets:
  assumes "token_queue Q \<alpha>" and "\<alpha> q = [mk_token u TOKEN_EOL]" and "u \<noteq> []" and "no_nul u" and "length u < 4000"
  obtains w1 where "pop3_in_user Q i name q w = Some ((In_loop, Some u), w1)"
    and "only_io i w w1" and "avail i w1 = avail i w" and "wf_buffer w1 = wf_buffer w"
proof -
  obtain q1 where q1: "qpop Q q = Some (q1, mk_token u TOKEN_EOL)"
    using token_queue.pop_Cons [OF assms(1,2)] by auto
  have ql: "qlength Q q = 1" using token_queue.qlength [OF assms(1)] assms(2) by auto
  have t: "token_to_string (mk_token u TOKEN_EOL) TOKEN_NO_STRIP = Some u"
    using assms(3,4) by (simp add: token_to_string_def strn_to_str_def)
  have "pop3_write_str i NULL_FLAG None (Some POP3_OK) (Some (POP3_CMD_USER @ '' '' @ u @ '' set, mate'')) w =
      send_line i (line_of NULL_FLAG (POP3_OK @ SP # (POP3_CMD_USER @ '' '' @ u @ '' set, mate''))) w"
    by (rule pop3_write_str_line) (simp_all add: POP3_OK_def plain_text_def MAX_LINE_LENGTH_def)
  then obtain rc w1 where w1: "pop3_write_str i NULL_FLAG None (Some POP3_OK)
      (Some (POP3_CMD_USER @ '' '' @ u @ '' set, mate'')) w = Some (rc, w1)"
    using assms(5) by (auto simp: send_line_def line_of_def NULL_FLAG_def STR_WRITE_BUF_LEN_def
        MAX_LINE_LENGTH_def CRLF_def POP3_OK_def POP3_CMD_USER_def)
  note fr = pop3_write_str_frame [OF w1]
  show ?thesis
    by (rule that [of w1]) (use fr assms(3) ql q1 t w1 in
      \<open>auto simp: pop3_in_user_def pop3_in_set_user_def token_is_null_def\<close>)
qed

lemma pop3_in_pass_takes:
  assumes "token_queue Q \<alpha>" and "\<alpha> q = line_tokens ps" and "ps \<noteq> []" and "\<forall>x \<in> set ps. no_nul x"
  shows "pop3_in_pass Q i (Some u) q w =
    Some ((In_done 0 (Some (auth_set_pwd (Some u) (Some (join SP ps)))) None, Some u), w)"
proof -
  have m: "map token_str (line_tokens ps) = ps"
    using assms(3) by (simp add: line_tokens_def o_def)
  have "\<forall>t \<in> set (line_tokens ps). wf_token t \<and> no_nul (token_str t)"
    using assms(3,4) by (auto simp: line_tokens_def dest: in_set_butlastD)
  moreover have ne: "line_tokens ps \<noteq> []" by (simp add: line_tokens_def)
  ultimately have "queue_to_string Q q = Some (join SP ps)"
    using token_queue.queue_to_string_join [OF assms(1), of q] assms(2) m by simp
  moreover have "qlength Q q \<noteq> 0" using token_queue.qlength [OF assms(1), of q] assms(2) ne by simp
  ultimately show ?thesis by (simp add: pop3_in_pass_def)
qed

lemma pop3_user_pass_read:
  assumes "token_queue Q \<alpha>" and "wf_buffer w"
    and "pop3_word c1 POP3_CMD_USER" and "pop3_word c2 POP3_CMD_PASS"
    and "u \<noteq> []" and "no_nul u" and "is_word TOKEN_POP3 u" and "length u < 4000"
    and "no_nul p" and "CR \<notin> set p" and "LF \<notin> set p" and "length p < MAX_LINE_LENGTH"
    and "pop3_in_capability opt f s \<noteq> None"
    and "avail i w = c1 @ SP # u @ CRLF @ c2 @ SP # p @ CRLF @ rest"
  shows "\<exists>w'. pop3_in_get_auth Q opt f s i w = Some ((0, Some (auth_set_pwd (Some u) (Some p))), w') \<and>
    avail i w' = rest \<and> wf_buffer w' \<and> (\<forall>j. j \<noteq> i \<longrightarrow> ios w' j = ios w j)"
proof -
  obtain ps where p: "p = join SP ps" "ps \<noteq> []" "\<forall>x \<in> set ps. is_word TOKEN_POP3 x" "\<forall>x \<in> set ps. set x \<subseteq> set p"
    using split_words [OF assms(10,11,12)] by blast
  then have np: "\<forall>x \<in> set ps. no_nul x" using assms(9) by (auto simp: no_nul_def)
  obtain c where c: "pop3_in_capability opt f s = Some c" using assms(13) by auto
  have a1: "avail i w = join SP (c1 # [u]) @ CRLF @ (c2 @ SP # p @ CRLF @ rest)" using assms(14) by simp
  have wd: "\<forall>x \<in> set (c1 # [u]). is_word TOKEN_POP3 x" using assms by (simp add: pop3_word_def)
  obtain q1 w1 where s1: "pop3_in_step Q opt c i None w = pop3_in_command Q opt c i None (mk_token c1 TOKEN_NONE) q1 w1"
    and q1: "\<alpha> q1 = [mk_token u TOKEN_EOL]" and w1: "avail i w1 = c2 @ SP # p @ CRLF @ rest" "wf_buffer w1" "only_io i w w1"
    by (rule pop3_in_step_words [OF assms(1,2) wd a1]) (simp add: line_tokens_def)
  obtain w2 where s2: "pop3_in_user Q i None q1 w1 = Some ((In_loop, Some u), w2)"
    and w2: "only_io i w1 w2" "avail i w2 = avail i w1" "wf_buffer w2 = wf_buffer w1"
    using pop3_in_user_sets [OF assms(1) q1 assms(5,6,8)] by blast
  have j: "join SP (c2 # ps) = c2 @ SP # p" using p by (cases ps) auto
  have a2: "avail i w2 = join SP (c2 # ps) @ CRLF @ rest" using w2(2) w1(1) unfolding j by simp
  have wd2: "\<forall>x \<in> set (c2 # ps). is_word TOKEN_POP3 x" using assms p by (simp add: pop3_word_def)
  obtain q3 w3 where s3: "pop3_in_step Q opt c i (Some u) w2 =
      pop3_in_command Q opt c i (Some u) (mk_token c2 TOKEN_NONE) q3 w3"
    and q3: "\<alpha> q3 = line_tokens ps" and w3: "avail i w3 = rest" "wf_buffer w3" "only_io i w2 w3"
    by (rule pop3_in_step_words [OF assms(1) _ wd2 a2]) (use w1 w2 p in auto)
  have "pop3_in_step Q opt c i None w = Some ((In_loop, Some u), w2)"
    unfolding s1 pop3_in_command_user [OF assms(3)] by (rule s2)
  moreover have "pop3_in_step Q opt c i (Some u) w2 =
      Some ((In_done 0 (Some (auth_set_pwd (Some u) (Some p))) None, Some u), w3)"
    unfolding s3 pop3_in_command_pass [OF assms(4)] p(1) by (rule pop3_in_pass_takes [OF assms(1) q3 p(2) np])
  ultimately have "pop3_in_get_auth Q opt f s i w = Some ((0, Some (auth_set_pwd (Some u) (Some p))), w3)"
    using c by (simp add: pop3_in_get_auth_def pop3_in_loop.simps [of Q opt c i None] pop3_in_loop.simps [of Q opt c i "Some u"])
  then show ?thesis using w3 w2(1) w1(3) by (auto simp: only_io_def)
qed

text \<open>
  C3. USER and PASS are read exactly: the name is the single argument of USER, the password is the
  whole rest of the PASS line, with every space in it, also leading, trailing and repeated ones.
  This holds for every division of the input into packets, and the bytes behind PASS stay unread.
\<close>

theorem pop3_user_pass:
  assumes "token_queue Q \<alpha>" and "wf_buffer w"
    and "pop3_word c1 POP3_CMD_USER" and "pop3_word c2 POP3_CMD_PASS"
    and "u \<noteq> []" and "no_nul u" and "is_word TOKEN_POP3 u" and "length u < 4000"
    and "no_nul p" and "CR \<notin> set p" and "LF \<notin> set p" and "length p < MAX_LINE_LENGTH"
    and "pop3_in_capability opt f s \<noteq> None"
    and "avail i w = c1 @ SP # u @ CRLF @ c2 @ SP # p @ CRLF @ rest"
  shows "\<exists>w'. pop3_in_get_auth Q opt f s i w = Some ((0, Some (auth_set_pwd (Some u) (Some p))), w') \<and>
    avail i w' = rest \<and> wf_buffer w' \<and> (\<forall>j. j \<noteq> i \<longrightarrow> ios w' j = ios w j)"
  using assms by (rule pop3_user_pass_read)

subsection \<open>What the loop returns\<close>

definition pop3_done :: "options \<Rightarrow> ioid \<Rightarrow> world \<Rightarrow> in_outcome \<times> string option \<Rightarrow> bool" where
  "pop3_done opt i w0 r \<longleftrightarrow>
     (case fst r of
        In_loop \<Rightarrow> True
      | In_done rc a t \<Rightarrow>
          (rc \<in> {-1, 1, 2} \<and> a = None \<or>
           rc = 0 \<and> (\<exists>n p. a = Some (auth_set_pwd n (Some p)) \<and> (reliable i w0 \<longrightarrow> n \<noteq> None))) \<and>
          (rc = 2 \<longrightarrow> opt_ssl_mode opt AND SSL_MODE_TLS_LISTEN \<noteq> 0 \<and> io_type (ios w0 i) \<noteq> Io_type_ssl))"

lemma pop3_done_simps [simp]:
  "pop3_done opt i w0 (In_loop, name)" "pop3_done opt i w0 (in_error, name)"
  "pop3_done opt i w0 (In_done 1 None None, name)"
  "pop3_done opt i w0 (In_done 2 None None, name) \<longleftrightarrow>
     opt_ssl_mode opt AND SSL_MODE_TLS_LISTEN \<noteq> 0 \<and> io_type (ios w0 i) \<noteq> Io_type_ssl"
  "pop3_done opt i w0 (In_done 0 (Some (auth_set_pwd n (Some p))) t, name) \<longleftrightarrow> (reliable i w0 \<longrightarrow> n \<noteq> None)"
  by (auto simp: pop3_done_def auth_set_pwd_def)

lemma pop3_in_err_result:
  "pop3_in_err i 1 ''%s'' [Arg_s reason] w = Some (rc, w1) \<Longrightarrow> only_io i w w1 \<and> (reliable i w \<longrightarrow> rc = 0)"
proof -
  assume e: "pop3_in_err i 1 ''%s'' [Arg_s reason] w = Some (rc, w1)"
  have "pop3_write_str i NULL_FLAG None (Some POP3_ERR) (Some reason) w =
      send_line i (line_of NULL_FLAG (POP3_ERR @ SP # reason)) w"
    by (rule pop3_write_str_line) (simp_all add: POP3_ERR_def plain_text_def MAX_LINE_LENGTH_def)
  then have "reliable i w \<longrightarrow> rc = 0"
    using e by (auto simp: pop3_write_str_def pop3_write_def pop3_in_err_def send_line_def bind_eq_Some_conv
        reliable_accepts split: if_splits)
  moreover have "only_io i w w1"
    using e pop3_in_err_keeps [OF only_io_refl, of i w 1 "''%s''" "[Arg_s reason]"] by simp
  ultimately show ?thesis by simp
qed

lemma pop3_in_err_or_gives [gives_rules]:
  assumes "only_io i w0 w"
    and "\<And>w1. only_io i w0 w1 \<Longrightarrow> \<not> reliable i w0 \<Longrightarrow> gives (pop3_done opt i w0) (k w1)"
  shows "gives (pop3_done opt i w0) (pop3_in_err_or i name reason w k)"
  unfolding pop3_in_err_or_def
proof (rule gives_bind)
  fix x assume x: "pop3_in_err i 1 ''%s'' [Arg_s reason] w = Some x"
  obtain rc w1 where rw: "x = (rc, w1)" by fastforce
  note r = pop3_in_err_result [OF x [unfolded rw]]
  then have "rc < 0 \<Longrightarrow> \<not> reliable i w0" using reliable_only_io [OF assms(1)] by auto
  then show "gives (pop3_done opt i w0) (case x of (rc, w1) \<Rightarrow> if rc < 0 then k w1 else Some ((In_loop, name), w1))"
    using assms(2) only_io_trans [OF assms(1)] r by (simp add: rw)
qed

lemma pop3_in_invalid_gives [gives_rules]: "gives (pop3_done opt i w0) (pop3_in_invalid opt' i name r w)"
  unfolding pop3_in_invalid_def by (auto intro!: gives_rules)

lemma pop3_in_capa_gives [gives_rules]: "gives (pop3_done opt i w0) (pop3_in_capa c i name w)"
  unfolding pop3_in_capa_def by (auto intro!: gives_rules)

lemma pop3_in_user_gives [gives_rules]:
  "only_io i w0 w \<Longrightarrow> gives (pop3_done opt i w0) (pop3_in_user Q i name q w)"
  unfolding pop3_in_user_def pop3_in_set_user_def Let_def by (auto intro!: gives_rules split: option.split)

lemma pop3_in_pass_gives [gives_rules]:
  "only_io i w0 w \<Longrightarrow> gives (pop3_done opt i w0) (pop3_in_pass Q i name q w)"
  unfolding pop3_in_pass_def Let_def by (auto intro!: gives_rules)

lemma pop3_in_quit_gives [gives_rules]:
  "only_io i w0 w \<Longrightarrow> gives (pop3_done opt i w0) (pop3_in_quit Q i name q w)"
  unfolding pop3_in_quit_def Let_def by (auto intro!: gives_rules)

lemma pop3_in_auth_command_gives [gives_rules]:
  "only_io i w0 w \<Longrightarrow> gives (pop3_done opt i w0) (pop3_in_auth_command Q opt' i name t q w)"
  unfolding pop3_in_auth_command_def by (auto intro!: gives_rules)

lemma pop3_in_stls_gives [gives_rules]:
  "only_io i w0 w \<Longrightarrow> opt_ssl_mode opt AND SSL_MODE_TLS_LISTEN \<noteq> 0 \<Longrightarrow>
     gives (pop3_done opt i w0) (pop3_in_stls Q opt' i name t q w)"
  unfolding pop3_in_stls_def Let_def by (auto intro!: gives_rules) (auto simp: only_io_def)

lemma pop3_in_command_gives [gives_rules]:
  "only_io i w0 w \<Longrightarrow> gives (pop3_done opt i w0) (pop3_in_command Q opt c i name t q w)"
  unfolding pop3_in_command_def Let_def by (auto intro!: gives_rules)

lemma pop3_in_step_gives:
  "only_io i w0 w \<Longrightarrow> gives (pop3_done opt i w0) (pop3_in_step Q opt c i name w)"
  unfolding pop3_in_step_def by (auto intro!: gives_rules intro: read_line_keeps split: option.split prod.split)

lemma pop3_in_get_auth_cases:
  assumes "pop3_in_get_auth Q opt f s i w = Some ((rc, a), w')"
  shows "(rc \<in> {-1, 1, 2} \<and> a = None \<or>
      rc = 0 \<and> (\<exists>n p. a = Some (auth_set_pwd n (Some p)) \<and> (reliable i w \<longrightarrow> n \<noteq> None))) \<and>
    (rc = 2 \<longrightarrow> opt_ssl_mode opt AND SSL_MODE_TLS_LISTEN \<noteq> 0 \<and> io_type (ios w i) \<noteq> Io_type_ssl) \<and>
    (\<forall>j. j \<noteq> i \<longrightarrow> ios w' j = ios w j)"
proof -
  obtain c where l: "pop3_in_loop Q opt c i None w = Some ((rc, a), w')"
    using assms by (auto simp: pop3_in_get_auth_def bind_eq_Some_conv)
  have "pop3_done opt i w0 (In_done rc a None, None)"
    if "pop3_in_loop Q opt c i name w = Some ((rc, a), w')" "only_io i w0 w" for name w0
    using that
  proof (induction Q opt c i name w rule: pop3_in_loop.induct)
    case (1 Q opt c i name w)
    note g = pop3_in_step_gives [OF "1.prems"(2), of opt Q c name] and k = pop3_in_step_keeps [of i w Q opt c name]
    show ?case
    proof (cases "pop3_in_step Q opt c i name w")
      case None
      with "1.prems" show ?thesis by (subst (asm) pop3_in_loop.simps) simp
    next
      case (Some x)
      obtain r name' w1 where x: "x = ((r, name'), w1)" by (metis prod.collapse)
      have oi: "only_io i w w1" using k unfolding Some x by simp
      show ?thesis
      proof (cases r)
        case In_loop
        with "1.prems" Some x have "pop3_in_loop Q opt c i name' w1 = Some ((rc, a), w')"
          by (subst (asm) pop3_in_loop.simps) simp
        with "1.IH" [OF Some x [symmetric]] In_loop only_io_trans [OF "1.prems"(2) oi] show ?thesis by simp
      next
        case (In_done rc' a' t')
        with "1.prems" Some x g show ?thesis
          by (subst (asm) pop3_in_loop.simps) (simp add: pop3_done_def)
      qed
    qed
  qed
  from this [OF l only_io_refl] pop3_in_loop_keeps [of i w Q opt c None] show ?thesis
    unfolding l by (simp add: pop3_done_def only_io_def)
qed

text \<open>
  C5. Whatever a client sends, \<open>pop3_in_get_auth\<close> returns credentials (0), log out (1), start TLS
  (2), or an error (-1). TLS is asked for only if it is enabled and the connection is not encrypted
  yet; as long as no write to the client fails, credentials come with the name of a USER command;
  and the other connection is not touched.
\<close>

theorem pop3_in_get_auth_result:
  assumes "pop3_in_get_auth Q opt f s i w = Some ((rc, a), w')"
  shows "(rc \<in> {-1, 1, 2} \<and> a = None \<or>
      rc = 0 \<and> (\<exists>n p. a = Some (auth_set_pwd n (Some p)) \<and> (reliable i w \<longrightarrow> n \<noteq> None))) \<and>
    (rc = 2 \<longrightarrow> opt_ssl_mode opt AND SSL_MODE_TLS_LISTEN \<noteq> 0 \<and> io_type (ios w i) \<noteq> Io_type_ssl) \<and>
    (\<forall>j. j \<noteq> i \<longrightarrow> ios w' j = ios w j)"
  using assms by (rule pop3_in_get_auth_cases)

text \<open>What is sent depends on the connection as it was before the line was read.\<close>

lemma same_io_write:
  assumes "same_io i w w1"
  shows "accepts i s w1 \<longleftrightarrow> accepts i s w" and "io_out (ios (put i s w1) i) = io_out (ios (put i s w) i)"
  using assms
  by (auto simp: same_io_def accepts_def put_def io_write_def Let_def split: io_type.split option.split list.split)

text \<open>
  C23. PASS before USER is answered with an error line, and the loop goes on. If that line cannot be
  written, the \<open>break\<close> in the error macro does not leave the loop: the code behind takes the password and
  returns success with credentials that have no name. Nothing but this line is sent, and exactly the
  line read is used up.
\<close>

theorem pop3_pass_without_user:
  assumes "token_queue Q \<alpha>" and "wf_buffer w" and "pop3_word c POP3_CMD_PASS" and "is_word TOKEN_POP3 p" and "no_nul p"
    and "avail i w = c @ SP # p @ CRLF @ rest"
  defines "line \<equiv> POP3_ERR @ '' USER not yet set, mate'' @ CRLF"
  shows "\<exists>w2. pop3_in_step Q opt cap i None w =
      Some ((if accepts i line w then In_loop else In_done 0 (Some (auth_set_pwd None (Some p))) None, None), w2) \<and>
    io_out (ios w2 i) = io_out (ios (put i line w) i) \<and> avail i w2 = rest \<and> (\<forall>j. j \<noteq> i \<longrightarrow> ios w2 j = ios w j)"
proof -
  have a: "avail i w = join SP (c # [p]) @ CRLF @ rest" using assms(6) by simp
  have wd: "\<forall>x \<in> set (c # [p]). is_word TOKEN_POP3 x" using assms by (simp add: pop3_word_def)
  obtain q w1 where s1: "pop3_in_step Q opt cap i None w = pop3_in_command Q opt cap i None (mk_token c TOKEN_NONE) q w1"
    and q: "\<alpha> q = line_tokens [p]" and w1: "avail i w1 = rest" "same_io i w w1"
    by (rule pop3_in_step_words [OF assms(1,2) wd a]) simp
  have "pop3_write_str i NULL_FLAG None (Some POP3_ERR) (Some (POP3_CMD_USER @ '' not yet set, mate'')) w1 =
      send_line i (line_of NULL_FLAG (POP3_ERR @ SP # (POP3_CMD_USER @ '' not yet set, mate''))) w1"
    by (rule pop3_write_str_line) (simp_all add: POP3_ERR_def plain_text_def MAX_LINE_LENGTH_def)
  then have "pop3_in_err i 1 ''%s'' [Arg_s (POP3_CMD_USER @ '' not yet set, mate'')] w1 =
      Some (if accepts i line w1 then 0 else -1, put i line w1)"
    by (simp add: pop3_in_err_def pop3_write_str_def pop3_write_def send_line_def line_of_def NULL_FLAG_def line_def
        STR_WRITE_BUF_LEN_def MAX_LINE_LENGTH_def POP3_ERR_def POP3_CMD_USER_def CRLF_def)
  then have e: "pop3_in_err i 1 ''%s'' [Arg_s (POP3_CMD_USER @ '' not yet set, mate'')] w1 =
      Some (if accepts i line w then 0 else -1, put i line w1)"
    using same_io_write [OF w1(2)] by simp
  have t: "map token_str (\<alpha> q) = [p]" "\<alpha> q \<noteq> []" "\<forall>t \<in> set (\<alpha> q). wf_token t \<and> no_nul (token_str t)"
    using q assms(5) by (auto simp: line_tokens_def)
  have "queue_to_string Q q = Some p" using token_queue.queue_to_string_join [OF assms(1) t(2,3)] t(1) by simp
  moreover have "qlength Q q \<noteq> 0" using token_queue.qlength [OF assms(1), of q] t(2) by simp
  ultimately have "pop3_in_step Q opt cap i None w =
      Some ((if accepts i line w then In_loop else In_done 0 (Some (auth_set_pwd None (Some p))) None, None), put i line w1)"
    using e unfolding s1 pop3_in_command_pass [OF assms(3)] by (simp add: pop3_in_pass_def pop3_in_err_or_def)
  moreover have "ios (put i line w1) j = ios w j" if "j \<noteq> i" for j
    using that w1(2) by (simp add: put_def upd_io_def same_io_def)
  ultimately show ?thesis using same_io_write(2) [OF w1(2)] w1(1) by auto
qed

subsection \<open>Examples\<close>

definition pop3_demo_opt :: options where
  "pop3_demo_opt = options_zero\<lparr>opt_pop_capability := Some ''UIDL.USER''\<rparr>"

lemma pop3_demo_facts:
  "pop3_word ''user'' POP3_CMD_USER" "pop3_word ''PASS'' POP3_CMD_PASS"
  "''bob'' \<noteq> []" "no_nul ''bob''" "is_word TOKEN_POP3 ''bob''" "length ''bob'' < 4000"
  "no_nul ''  se  cret ''" "CR \<notin> set ''  se  cret ''" "LF \<notin> set ''  se  cret ''"
  "length ''  se  cret '' < MAX_LINE_LENGTH"
  "pop3_in_capability pop3_demo_opt 0 0 \<noteq> None"
  by code_simp+

theorem pop3_user_pass_witness:
  "\<exists>w'. pop3_in_get_auth list_queue pop3_demo_opt 0 0 EU
      (world_sending (''user'' @ SP # ''bob'' @ CRLF @ ''PASS'' @ SP # ''  se  cret '' @ CRLF @ ''x'')) =
    Some ((0, Some (auth_set_pwd (Some ''bob'') (Some ''  se  cret ''))), w') \<and> avail EU w' = ''x''"
  using pop3_user_pass [OF list_queue.token_queue_axioms world_sending(1) pop3_demo_facts world_sending(2)]
  by blast

lemma pop3_quit_example:
  "map_option fst (pop3_in_get_auth list_queue pop3_demo_opt 0 0 EU (world_sending (''QUIT'' @ CRLF))) = Some (1, None)"
  by code_simp

theorem pop3_in_get_auth_result_witness:
  "\<exists>w'. pop3_in_get_auth list_queue pop3_demo_opt 0 0 EU (world_sending (''QUIT'' @ CRLF)) = Some ((1, None), w') \<and>
     ios w' RS = ios (world_sending (''QUIT'' @ CRLF)) RS"
  using pop3_in_get_auth_result [of list_queue pop3_demo_opt 0 0 EU "world_sending (''QUIT'' @ CRLF)" 1 None]
    pop3_quit_example by auto

lemma pass_facts: "is_word TOKEN_POP3 ''x''" "no_nul ''x''"
  by code_simp+

text \<open>A client that reads the answer, and one that is gone: its first write fails.\<close>

definition deaf :: "world \<Rightarrow> world" where
  "deaf w = upd_io EU ((ios w EU)\<lparr>io_wr := [None]\<rparr>) w"

lemma deaf_facts: "wf_buffer (deaf w) = wf_buffer w" "avail i (deaf w) = avail i w"
  by (simp_all add: deaf_def wf_buffer_def avail_def io_stream_def)

theorem pop3_pass_without_user_witness:
  "(\<exists>w2. pop3_in_step list_queue pop3_demo_opt [] EU None (world_sending (''PASS'' @ SP # ''x'' @ CRLF @ ''y'')) = Some ((In_loop, None), w2) \<and>
     io_out (ios w2 EU) = ''-ERR USER not yet set, mate'' @ CRLF \<and> avail EU w2 = ''y'') \<and>
   (\<exists>w2. pop3_in_step list_queue pop3_demo_opt [] EU None (deaf (world_sending (''PASS'' @ SP # ''x'' @ CRLF @ ''y''))) =
     Some ((In_done 0 (Some (auth_set_pwd None (Some ''x''))) None, None), w2) \<and> io_out (ios w2 EU) = [])"
proof -
  let ?w = "world_sending (''PASS'' @ SP # ''x'' @ CRLF @ ''y'')"
  let ?line = "POP3_ERR @ '' USER not yet set, mate'' @ CRLF"
  have w: "accepts EU ?line ?w" "\<not> accepts EU ?line (deaf ?w)"
    "io_out (ios (put EU ?line ?w) EU) = ''-ERR USER not yet set, mate'' @ CRLF" "io_out (ios (put EU ?line (deaf ?w)) EU) = []"
    by code_simp+
  note t = pop3_pass_without_user [OF list_queue.token_queue_axioms _ pop3_demo_facts(2) pass_facts, where i = EU and rest = "''y''"]
  have d: "wf_buffer (deaf ?w)" "avail EU (deaf ?w) = ''PASS'' @ SP # ''x'' @ CRLF @ ''y''"
    using world_sending by (simp_all only: deaf_facts)
  from t [OF world_sending(1,2), unfolded if_P [OF w(1)] w(3)] t [OF d, unfolded if_not_P [OF w(2)] w(4)]
  show ?thesis by blast
qed

end
