(* ===== verification/Imap4_Out.thy ===== *)
theory Imap4_Out
  imports Imap4_In Imap4_Tag
begin

text \<open>
  The IMAP side of the real server: \<^verbatim>\<open>perdition/imap4_out.c\<close>. \<open>i\<close> is the connection to the real
  server, \<open>eu\<close> the connection that untagged responses are passed on to, if any.

  A buffer for the server's response is described by \<open>lim\<close>, the value of \<open>*n\<close> if the buffer is not
  NULL and \<open>None\<close> otherwise; what a call leaves in the buffer is a string, with the new value of
  \<open>*n\<close> as the second component. The rest of the buffer is zero.
\<close>

definition IMAP4_CMD_LOGIN :: string where "IMAP4_CMD_LOGIN = ''LOGIN''"
definition IMAP4_UNTAGGED_LEN :: nat where "IMAP4_UNTAGGED_LEN = 1"

subsection \<open>Responses\<close>

definition imap4_out_write_queue ::
    "'q queue_ops \<Rightarrow> ioid \<Rightarrow> token \<Rightarrow> 'q \<Rightarrow> world \<Rightarrow> (int \<times> world) option" where
  "imap4_out_write_queue Q eu tag q w =
     (case qpop Q q of
        None \<Rightarrow> Some (-1, w)
      | Some (q', cmd) \<Rightarrow>
          do { cmd_str \<leftarrow> token_to_string cmd TOKEN_NO_STRIP;
               info_str \<leftarrow> queue_to_string Q q';
               (rc, w1) \<leftarrow> imap4_write_str eu NULL_FLAG (Some tag) (Some cmd_str) (Some info_str) w;
               Some (if rc < 0 then -1 else 0, w1) })"

definition imap4_is_untagged :: "token \<Rightarrow> bool" where
  "imap4_is_untagged t \<longleftrightarrow> tok_n t = IMAP4_UNTAGGED_LEN \<and> take 1 (token_str t) = IMAP4_UNTAGGED"

lemma imap4_out_write_queue_frame:
  "imap4_out_write_queue Q eu tag q w = Some (rc, w1) \<Longrightarrow> w1 = w \<or> (\<exists>s. w1 = put eu s w)"
  by (auto simp: imap4_out_write_queue_def bind_eq_Some_conv split: option.splits)
    (metis imap4_write_str_frame)+

text \<open>
  The loop that looks for the tag. Its result is the rest of the line with the matching tag, or
  \<open>None\<close> for an error. Each line is read with the limit the line before has left in \<open>*n\<close>.
\<close>

function imap4_out_find_tag ::
    "'q queue_ops \<Rightarrow> ioid \<Rightarrow> ioid option \<Rightarrow> token option \<Rightarrow> nat option \<Rightarrow> world
      \<Rightarrow> (('q option \<times> string \<times> nat option) \<times> world) option" where
  "imap4_out_find_tag Q i eu tag lim w =
     (case read_line Q i lim TOKEN_IMAP4 0 w of
        (None, w1) \<Rightarrow> Some ((None, [], lim), w1)
      | (Some (q0, buf), w1) \<Rightarrow>
          let lim1 = (case lim of None \<Rightarrow> None | Some n \<Rightarrow> Some (if n = 0 then 0 else length buf)) in
          case qpop Q q0 of
            None \<Rightarrow> Some ((None, buf, lim1), w1)
          | Some (q, t) \<Rightarrow>
              (case tag of
                 None \<Rightarrow> Some ((if imap4_is_untagged t then Some q else None, buf, lim1), w1)
               | Some tg \<Rightarrow>
                   if imap4_is_untagged t
                   then (case eu of
                           None \<Rightarrow> imap4_out_find_tag Q i eu tag lim1 w1
                         | Some e \<Rightarrow>
                             (case imap4_out_write_queue Q e t q w1 of
                                None \<Rightarrow> None
                              | Some (rc, w2) \<Rightarrow>
                                  if rc < 0 then Some ((None, buf, lim1), w2)
                                  else imap4_out_find_tag Q i eu tag lim1 w2))
                   else Some ((if token_cmp tg t then Some q else None, buf, lim1), w1)))"
  by pat_completeness auto
termination
proof (relation "measure (\<lambda>(Q, i, eu, tag, lim, w). pending i w)", goal_cases)
  case 1
  show ?case by simp
next
  case prems: (2 Q i eu tag lim w x1 w1)
  then show ?case by (auto dest!: sym [of _ "read_line _ _ _ _ _ _"] read_line_progress)
next
  case prems: (3 Q i eu tag lim w x1 w1)
  then show ?case by (auto dest!: sym [of _ "read_line _ _ _ _ _ _"] read_line_progress imap4_out_write_queue_frame)
qed

declare imap4_out_find_tag.simps [simp del]

text \<open>When a read fails, the response buffer is given as empty: the bytes put there before the failure are not kept.\<close>

definition imap4_out_response ::
    "'q queue_ops \<Rightarrow> ioid \<Rightarrow> ioid option \<Rightarrow> token option \<Rightarrow> token \<Rightarrow> nat option \<Rightarrow> world
      \<Rightarrow> ((int \<times> 'q option \<times> string \<times> nat option) \<times> world) option" where
  "imap4_out_response Q i eu tag desired lim w =
     do { ((found, buf, lim1), w1) \<leftarrow> imap4_out_find_tag Q i eu tag lim w;
          Some (case found of
                  None \<Rightarrow> ((-1, None, buf, lim1), w1)
                | Some q \<Rightarrow>
                    (case qpop Q q of
                       None \<Rightarrow> ((-1, None, buf, lim1), w1)
                     | Some (q', t) \<Rightarrow>
                         if token_cmp desired t then ((1, Some q', buf, lim1), w1)
                         else ((0, None, buf, lim1), w1))) }"

subsection \<open>Capabilities of the server\<close>

text \<open>
  Both callers move the text behind the first space to the front of the buffer. That searches for
  the terminating NUL, which is there unless the response fills the buffer of \<open>cap\<close> bytes.
\<close>

definition strip_tag :: "nat option \<Rightarrow> string \<Rightarrow> string option" where
  "strip_tag cap buf =
     (case cap of
        None \<Rightarrow> Some []
      | Some n \<Rightarrow>
          if no_nul buf \<and> length buf \<ge> n then None
          else Some (case strchr (cstr buf) SP of None \<Rightarrow> buf | Some k \<Rightarrow> drop (k + 1) (cstr buf)))"

text \<open>The search of the queue for a token up to the end of the line.\<close>

partial_function (option) queue_find :: "'q queue_ops \<Rightarrow> token \<Rightarrow> bool \<Rightarrow> 'q \<Rightarrow> (bool \<times> 'q) option" where
  "queue_find Q capability found q =
     (if qlength Q q = 0 then Some (found, q)
      else case qpop Q q of
             None \<Rightarrow> None
           | Some (q', t) \<Rightarrow>
               (let found' = found \<or> token_cmp t capability in
                if token_is_eol t then Some (found', q') else queue_find Q capability found' q'))"

declare queue_find.simps [code]

text \<open>
  The result, the tag, the buffer and the value left in \<open>*buf_n\<close>. If the tagged response cannot be
  read, \<open>status\<close> still is 1 from the untagged one.
\<close>

definition imap4_out_get_capability ::
    "'q queue_ops \<Rightarrow> ioid \<Rightarrow> ioid option \<Rightarrow> token \<Rightarrow> token \<Rightarrow> nat option \<Rightarrow> string \<Rightarrow> world
      \<Rightarrow> ((int \<times> token \<times> string \<times> nat option) \<times> world) option" where
  "imap4_out_get_capability Q i eu ok tag lim str w =
     do { (rc, w1) \<leftarrow> imap4_write_str i NULL_FLAG (Some tag) (Some IMAP4_CMD_CAPABILITY) None w;
          if rc < 0 then Some ((-1, tag, [], lim), w1)
          else do {
            ((status, q, buf, n), w2) \<leftarrow> imap4_out_response Q i eu None
                (mk_token IMAP4_CMD_CAPABILITY TOKEN_NONE) lim w1;
            case q of
              None \<Rightarrow> do { b \<leftarrow> strip_tag lim buf; Some ((status, tag, b, n), w2) }
            | Some q1 \<Rightarrow>
                do { (found, _) \<leftarrow> queue_find Q (mk_token str TOKEN_DONT_CARE) False q1;
                     ((rc, _, buf2, n2), w3) \<leftarrow> imap4_out_response Q i eu (Some tag) ok lim w2;
                     b \<leftarrow> strip_tag lim buf2;
                     Some (if rc < 0 then ((status, tag, b, n2), w3)
                           else ((of_bool found, imap4_tag_inc tag, b, n2), w3)) } } }"

subsection \<open>Setup\<close>

definition imap4_ok :: token where
  "imap4_ok = mk_token IMAP4_OK TOKEN_DONT_CARE"

text \<open>The part of \<open>imap4_out_setup\<close> behind the loop detection; \<open>status\<close> is the result of \<open>strcmp\<close>.\<close>

definition imap4_out_starttls ::
    "'q queue_ops \<Rightarrow> options \<Rightarrow> int \<Rightarrow> ioid \<Rightarrow> ioid option \<Rightarrow> token \<Rightarrow> world \<Rightarrow> ((int \<times> token) \<times> world) option" where
  "imap4_out_starttls Q opt status i eu tag w =
     (if opt_ssl_mode opt AND SSL_MODE_TLS_OUTGOING = 0 then Some ((PROTOCOL_S_OK, tag), w)
      else do {
        ((capability_status, tag1, _, n), w1) \<leftarrow> imap4_out_get_capability Q i eu imap4_ok tag
            (Some MAX_LINE_LENGTH) IMAP4_CMD_STARTTLS w;
        if capability_status < 0 then Some ((status, tag1), w1)
        else if capability_status = 0
        then Some ((if opt_ssl_mode opt AND SSL_MODE_TLS_OUTGOING_FORCE = 0 then PROTOCOL_S_OK else 0, tag1), w1)
        else do {
          (rc, w2) \<leftarrow> imap4_write_str i NULL_FLAG (Some tag1) (Some IMAP4_CMD_STARTTLS) None w1;
          if rc < 0 then Some ((status, tag1), w2)
          else do {
            ((status, _, _, _), w3) \<leftarrow> imap4_out_response Q i eu (Some tag1) imap4_ok n w2;
            if status < 0 then Some ((status, tag1), w3)
            else Some ((PROTOCOL_S_OK OR PROTOCOL_S_STARTTLS, imap4_tag_inc tag1), w3) } } })"

definition imap4_out_setup ::
    "'q queue_ops \<Rightarrow> options \<Rightarrow> net_env \<Rightarrow> (string \<Rightarrow> string \<Rightarrow> int) \<Rightarrow> ioid \<Rightarrow> ioid option \<Rightarrow> token \<Rightarrow> world
      \<Rightarrow> ((int \<times> token) \<times> world) option" where
  "imap4_out_setup Q opt net strcmp i eu tag w =
     do { ((status, q, _, _), w1) \<leftarrow> imap4_out_response Q i eu None imap4_ok None w;
          case q of
            None \<Rightarrow> Some ((status, tag), w1)
          | Some q1 \<Rightarrow>
              do { read_string \<leftarrow> queue_to_string Q q1;
                   greeting \<leftarrow> imap4_greeting_str opt net GREETING_ADD_NODENAME;
                   case greeting of
                     None \<Rightarrow> Some ((status, tag), w1)
                   | Some greeting_string \<Rightarrow>
                       let status = strcmp read_string greeting_string in
                       if status = 0 then Some ((0, tag), w1)
                       else imap4_out_starttls Q opt status i eu tag w1 } }"

subsection \<open>Authentication\<close>

text \<open>
  The three steps of LOGIN. What the server says to the first two is read, but neither a refusal nor
  an error stops the next step. \<open>buf\<close> and \<open>n\<close> are the buffer and its size as they are left if the
  first write fails.
\<close>

definition imap4_out_login ::
    "'q queue_ops \<Rightarrow> ioid \<Rightarrow> ioid option \<Rightarrow> auth \<Rightarrow> token \<Rightarrow> nat option \<Rightarrow> string \<Rightarrow> nat option \<Rightarrow> world
      \<Rightarrow> ((int \<times> string \<times> nat option) \<times> world) option" where
  "imap4_out_login Q i eu a tag lim buf n w =
     (let cont = mk_token IMAP4_CONT_TAG TOKEN_DONT_CARE in
      do { name \<leftarrow> authentication_id a;
           (rc, w1) \<leftarrow> imap4_write i NULL_FLAG (Some tag) (Some IMAP4_CMD_LOGIN) 1 (Some ''{%d}'') [Arg_d (length name)] w;
           if rc < 0 then Some ((-1, buf, n), w1)
           else do {
             ((_, _, buf1, n1), w2) \<leftarrow> imap4_out_response Q i eu (Some cont) imap4_ok lim w1;
             pw \<leftarrow> passwd a;
             (rc, w3) \<leftarrow> imap4_write i NULL_FLAG None None 2 (Some ''%s {%d}'') [Arg_s name, Arg_d (length pw)] w2;
             if rc < 0 then Some ((-1, buf1, n1), w3)
             else do {
               ((_, _, buf2, n2), w4) \<leftarrow> imap4_out_response Q i eu (Some cont) imap4_ok lim w3;
               (rc, w5) \<leftarrow> imap4_write_str i NULL_FLAG None None (Some pw) w4;
               if rc < 0 then Some ((-1, buf2, n2), w5)
               else do {
                 ((status, _, buf3, n3), w6) \<leftarrow> imap4_out_response Q i eu (Some tag) imap4_ok lim w5;
                 Some ((status, buf3, n3), w6) } } } })"

definition imap4_out_authenticate ::
    "'q queue_ops \<Rightarrow> ioid \<Rightarrow> ioid option \<Rightarrow> auth \<Rightarrow> token \<Rightarrow> nat option \<Rightarrow> world
      \<Rightarrow> ((int \<times> token \<times> string \<times> nat option) \<times> world) option" where
  "imap4_out_authenticate Q i eu a tag lim w =
     do { ((capability_status, tag1, buf, n), w1) \<leftarrow> imap4_out_get_capability Q i eu imap4_ok tag lim
            IMAP4_CMD_LOGINDISABLED w;
          ((status, buf1, n1), w2) \<leftarrow>
            (if capability_status < 0 then Some ((-1, buf, n), w1)
             else if capability_status \<noteq> 0 then Some ((2, buf, n), w1)
             else imap4_out_login Q i eu a tag1 lim buf n w1);
          b \<leftarrow> strip_tag lim buf1;
          Some ((status, imap4_tag_inc tag1, b, n1), w2) }"

subsection \<open>Dialogues with the server\<close>

definition line_rest :: "string list \<Rightarrow> token list" where
  "line_rest ws = (if ws = [] then [] else line_tokens ws)"

definition word_token :: "string \<Rightarrow> string list \<Rightarrow> token" where
  "word_token x xs = mk_token x (if xs = [] then TOKEN_EOL else TOKEN_NONE)"

lemma line_tokens_split: "line_tokens (x # xs) = word_token x xs # line_rest xs"
  by (simp add: line_tokens_Cons word_token_def line_rest_def)

lemma line_rest_split: "xs \<noteq> [] \<Longrightarrow> line_rest xs = line_tokens xs"
  by (simp add: line_rest_def)

lemma imap4_is_untagged_mk [simp]: "imap4_is_untagged (mk_token x f) \<longleftrightarrow> x = IMAP4_UNTAGGED"
  by (cases x) (auto simp: imap4_is_untagged_def IMAP4_UNTAGGED_LEN_def IMAP4_UNTAGGED_def)

text \<open>The size left behind by a response of the line \<open>ws\<close>.\<close>

definition left_size :: "nat option \<Rightarrow> string list \<Rightarrow> nat option" where
  "left_size lim ws = map_option (\<lambda>_. length (line_bytes lim ws)) lim"

lemma imap4_out_response_line:
  assumes "token_queue Q \<alpha>" and "wf_buffer w" and "\<forall>z \<in> set (x # y # zs). is_word TOKEN_IMAP4 z"
    and "avail i w = join SP (x # y # zs) @ CRLF @ rest" and "line_fits lim (x # y # zs)"
    and "case tag of None \<Rightarrow> x = IMAP4_UNTAGGED
         | Some tg \<Rightarrow> x \<noteq> IMAP4_UNTAGGED \<and> token_cmp tg (mk_token x TOKEN_NONE)"
  obtains q w' where "\<And>desired. imap4_out_response Q i eu tag desired lim w =
      Some (if token_cmp desired (word_token y zs)
            then (1, Some q, line_bytes lim (x # y # zs), left_size lim (x # y # zs))
            else (0, None, line_bytes lim (x # y # zs), left_size lim (x # y # zs)), w')"
    and "\<alpha> q = line_rest zs" and "avail i w' = rest" and "talk i w w' []" and "wf_buffer w'"
proof -
  obtain q0 w1 where r: "read_line Q i lim TOKEN_IMAP4 0 w = (Some (q0, line_bytes lim (x # y # zs)), w1)"
    and q0: "\<alpha> q0 = line_tokens (x # y # zs)" and w1: "avail i w1 = rest" "wf_buffer w1"
    using read_line_words_any [OF assms(1) _ assms(2) _ assms(3,4,5), where m = 0] by auto
  obtain q1 where q1: "qpop Q q0 = Some (q1, mk_token x TOKEN_NONE)" "\<alpha> q1 = line_tokens (y # zs)"
    using token_queue.pop_Cons [OF assms(1), of q0] q0 by (auto simp: line_tokens_Cons [of x])
  obtain q2 where q2: "qpop Q q1 = Some (q2, word_token y zs)" "\<alpha> q2 = line_rest zs"
    using token_queue.pop_Cons [OF assms(1), of q1] q1(2) by (auto simp: line_tokens_split)
  have lim1: "(case lim of None \<Rightarrow> None | Some n \<Rightarrow> Some (if n = 0 then 0 else length (line_bytes lim (x # y # zs)))) =
      left_size lim (x # y # zs)"
    using assms(5) by (auto simp: left_size_def line_fits_def CRLF_def split: option.splits)
  have "imap4_out_find_tag Q i eu tag lim w =
      Some ((Some q1, line_bytes lim (x # y # zs), left_size lim (x # y # zs)), w1)"
    using assms(6) r q1(1) by (subst imap4_out_find_tag.simps) (auto simp: lim1 Let_def split: option.splits)
  then show ?thesis
    using that [of q2 w1] q2 w1 read_line_talk [OF r] by (auto simp: imap4_out_response_def)
qed

definition has_word :: "string \<Rightarrow> string list \<Rightarrow> bool" where
  "has_word str cs \<longleftrightarrow> (\<exists>c \<in> set cs. length c = length str \<and> strncaseeq c str (length c))"

lemma token_cmp_dont_care [simp]:
  "token_cmp (mk_token a TOKEN_DONT_CARE) (mk_token b f) \<longleftrightarrow> length a = length b \<and> strncaseeq a b (length a)"
  "token_cmp (mk_token b f) (mk_token a TOKEN_DONT_CARE) \<longleftrightarrow> length a = length b \<and> strncaseeq b a (length a)"
  by (auto simp: token_cmp_def)

lemma queue_find_line:
  assumes "token_queue Q \<alpha>"
  shows "\<alpha> q = line_tokens cs \<Longrightarrow> cs \<noteq> [] \<Longrightarrow>
    \<exists>q'. queue_find Q (mk_token str TOKEN_DONT_CARE) found q = Some (found \<or> has_word str cs, q')"
proof (induction cs arbitrary: q found)
  case (Cons c cs)
  note tq = token_queue.qlength [OF assms] token_queue.pop_Cons [OF assms]
  obtain q1 where q1: "qpop Q q = Some (q1, word_token c cs)" "\<alpha> q1 = line_rest cs"
    using tq(2) [of q] Cons.prems by (auto simp: line_tokens_split)
  have len: "qlength Q q \<noteq> 0" using tq(1) [of q] Cons.prems by (simp add: line_tokens_split)
  have c: "token_cmp (word_token c cs) (mk_token str TOKEN_DONT_CARE) \<longleftrightarrow> length c = length str \<and> strncaseeq c str (length c)"
    by (auto simp: word_token_def)
  show ?case
  proof (cases "cs = []")
    case True
    then show ?thesis using q1 len c by (subst queue_find.simps) (auto simp: word_token_def has_word_def Let_def)
  next
    case False
    with q1 Cons.IH [of q1 "found \<or> length c = length str \<and> strncaseeq c str (length c)"]
    obtain q' where "queue_find Q (mk_token str TOKEN_DONT_CARE) (found \<or> length c = length str \<and> strncaseeq c str (length c)) q1 =
        Some ((found \<or> length c = length str \<and> strncaseeq c str (length c)) \<or> has_word str cs, q')"
      by (auto simp: line_rest_def)
    moreover have "\<not> token_is_eol (word_token c cs)" using False by (simp add: word_token_def)
    ultimately show ?thesis using q1(1) len c by (subst queue_find.simps) (auto simp: has_word_def Let_def)
  qed
qed simp

definition tag_next :: "string \<Rightarrow> string" where
  "tag_next t = tag_inc_loop t (length t)"

definition out_tag :: "string \<Rightarrow> bool" where
  "out_tag t \<longleftrightarrow> wf_tag t \<and> t \<noteq> [] \<and> length t < 1000"

lemma out_tag_next: "out_tag t \<Longrightarrow> out_tag (tag_next t)"
  using tag_inc_loop_spec [of t] by (auto simp: out_tag_def tag_next_def)

lemma imap4_tag_inc_mk: "t \<noteq> [] \<Longrightarrow> imap4_tag_inc (mk_token t f) = mk_token (tag_next t) f" if "wf_tag t"
proof -
  have "length (tag_next t) = length t" using tag_inc_loop_spec [OF that] by (simp add: tag_next_def)
  moreover then have "tag_next t = [] \<longleftrightarrow> t = []" by (metis length_0_conv)
  ultimately show "t \<noteq> [] \<Longrightarrow> imap4_tag_inc (mk_token t f) = mk_token (tag_next t) f"
    by (auto simp: imap4_tag_inc_def mk_token_def token_assign_def token_create_def tag_next_def)
qed

lemma out_tag_facts:
  assumes "out_tag t"
  shows "no_nul t" "SP \<notin> set t" "t \<noteq> IMAP4_UNTAGGED" "is_word TOKEN_IMAP4 t" "plain_text t"
proof -
  have b: "c \<noteq> SP \<and> c \<noteq> CR \<and> c \<noteq> LF \<and> c \<noteq> NUL \<and> c \<noteq> DQ \<and> c \<noteq> CHR ''%'' \<and> c \<noteq> CHR ''*''" if "c \<in> set t" for c
  proof -
    have "tag_alpha c" using assms that by (auto simp: out_tag_def wf_tag_def)
    moreover have "\<not> tag_alpha (CHR ''%'')" "\<not> tag_alpha (CHR ''*'')" by code_simp+
    ultimately show ?thesis using tag_bytes [of t c] assms that by (auto simp: out_tag_def)
  qed
  show "no_nul t" "SP \<notin> set t" using b by (auto simp: no_nul_def)
  then show "plain_text t" using b by (auto simp: plain_text_def)
  show "t \<noteq> IMAP4_UNTAGGED" using b by (auto simp: IMAP4_UNTAGGED_def)
  have "quote_state TOKEN_IMAP4 False t = Some False" using b by (induction t) auto
  then show "is_word TOKEN_IMAP4 t" using assms by (simp add: is_word_def out_tag_def MAX_LINE_LENGTH_def)
qed

lemma imap4_cmd_talk:
  assumes "out_tag t" and "no_nul c" and "length c < 50" and "reliable i w"
  obtains w' where "imap4_write_str i NULL_FLAG (Some (mk_token t f)) (Some c) None w = Some (0, w')"
    and "talk i w w' (t @ SP # c @ CRLF)" and "avail i w' = avail i w"
proof -
  have "imap4_write_str i NULL_FLAG (Some (mk_token t f)) (Some c) None w =
      Some (0, put i (t @ SP # c @ CRLF) w)"
    using imap4_write_str_cmd [of "Some (mk_token t f)" c i NULL_FLAG w] assms out_tag_facts(1) [OF assms(1)]
    by (simp add: out_tag_def MAX_LINE_LENGTH_def line_of_def NULL_FLAG_def reliable_accepts)
  then show ?thesis using that put_talk [OF assms(4)] by simp
qed


lemma strchr_first: "c \<notin> set a \<Longrightarrow> strchr (a @ c # b) c = Some (length a)"
  by (induction a) auto

lemma no_nul_join: "\<forall>x \<in> set ws. no_nul x \<Longrightarrow> no_nul (join SP ws)"
proof (induction ws)
  case (Cons w ws)
  then show ?case by (cases ws) (auto simp: no_nul_def)
qed (simp add: no_nul_def)

lemma strip_tag_line:
  assumes "SP \<notin> set t" and "\<forall>x \<in> set (t # x # xs). no_nul x" and "line_fits lim (t # x # xs)"
  shows "strip_tag lim (line_bytes lim (t # x # xs)) = Some (line_bytes lim (x # xs))"
proof -
  have "no_nul (join SP (t # x # xs))" using assms(2) no_nul_join [of "t # x # xs"] by simp
  then have "no_nul (join SP (t # x # xs) @ CRLF)" by simp
  then show ?thesis
    using assms(1,3) strchr_first [of SP t "join SP (x # xs) @ CRLF"]
    by (cases lim) (auto simp: strip_tag_def line_bytes_def line_fits_def)
qed

lemma get_capability_line:
  assumes "token_queue Q \<alpha>" and "wf_buffer w" and "reliable i w" and "out_tag t"
    and "is_word TOKEN_IMAP4 x" and "length x = 10" and "strncaseeq x IMAP4_CMD_CAPABILITY 10"
    and "cs \<noteq> []" and "\<forall>c \<in> set cs. is_word TOKEN_IMAP4 c"
    and "\<forall>c \<in> set (o' # os). is_word TOKEN_IMAP4 c \<and> no_nul c"
    and "line_fits lim (IMAP4_UNTAGGED # x # cs)" and "line_fits lim (t # o' # os)"
    and "avail i w = join SP (IMAP4_UNTAGGED # x # cs) @ CRLF @ join SP (t # o' # os) @ CRLF @ rest"
  obtains w' where "imap4_out_get_capability Q i eu imap4_ok (mk_token t TOKEN_NONE) lim str w =
      Some ((of_bool (has_word str cs), mk_token (tag_next t) TOKEN_NONE, line_bytes lim (o' # os), left_size lim (t # o' # os)), w')"
    and "talk i w w' (t @ SP # IMAP4_CMD_CAPABILITY @ CRLF)" and "avail i w' = rest" and "wf_buffer w'" and "reliable i w'"
proof -
  obtain w1 where w1: "imap4_write_str i NULL_FLAG (Some (mk_token t TOKEN_NONE)) (Some IMAP4_CMD_CAPABILITY) None w = Some (0, w1)"
    "talk i w w1 (t @ SP # IMAP4_CMD_CAPABILITY @ CRLF)" "avail i w1 = avail i w"
    by (rule imap4_cmd_talk [OF assms(4) _ _ assms(3), of IMAP4_CMD_CAPABILITY TOKEN_NONE])
      (simp_all add: IMAP4_CMD_CAPABILITY_def)
  have b1: "wf_buffer w1" using w1(2) assms(2) by (simp add: talk_def)
  obtain c0 cs' where cs: "cs = c0 # cs'" using assms(8) by (cases cs) auto
  have wd1: "\<forall>z \<in> set (IMAP4_UNTAGGED # x # cs). is_word TOKEN_IMAP4 z"
    using assms(5,9) by (simp add: is_word_def IMAP4_UNTAGGED_def MAX_LINE_LENGTH_def)
  have a1: "avail i w1 = join SP (IMAP4_UNTAGGED # x # cs) @ CRLF @ (join SP (t # o' # os) @ CRLF @ rest)"
    using w1(3) assms(13) by simp
  let ?B = "line_bytes lim (IMAP4_UNTAGGED # x # cs)" and ?L = "left_size lim (IMAP4_UNTAGGED # x # cs)"
  obtain q2 w2 where r2: "\<And>desired. imap4_out_response Q i eu None desired lim w1 =
      Some (if token_cmp desired (word_token x cs) then (1, Some q2, ?B, ?L) else (0, None, ?B, ?L), w2)"
    and q2: "\<alpha> q2 = line_rest cs" and w2: "avail i w2 = join SP (t # o' # os) @ CRLF @ rest" "talk i w1 w2 []" "wf_buffer w2"
    by (rule imap4_out_response_line [OF assms(1) b1 wd1 a1 assms(11), of None eu]) simp_all
  have c: "token_cmp (mk_token IMAP4_CMD_CAPABILITY TOKEN_NONE) (word_token x cs)"
  proof -
    have "length IMAP4_CMD_CAPABILITY = 10" by (simp add: IMAP4_CMD_CAPABILITY_def)
    with assms(6,7,8) show ?thesis
      by (simp add: token_cmp_def word_token_def strncaseeq_sym [of IMAP4_CMD_CAPABILITY])
  qed
  obtain q3 where f: "queue_find Q (mk_token str TOKEN_DONT_CARE) False q2 = Some (has_word str cs, q3)"
    using queue_find_line [OF assms(1), of q2 cs str False] q2 assms(8) by (auto simp: line_rest_def)
  have wd2: "\<forall>z \<in> set (t # o' # os). is_word TOKEN_IMAP4 z" using out_tag_facts(4) [OF assms(4)] assms(10) by simp
  let ?B' = "line_bytes lim (t # o' # os)" and ?L' = "left_size lim (t # o' # os)"
  obtain q4 w3 where r3: "\<And>desired. imap4_out_response Q i eu (Some (mk_token t TOKEN_NONE)) desired lim w2 =
      Some (if token_cmp desired (word_token o' os) then (1, Some q4, ?B', ?L') else (0, None, ?B', ?L'), w3)"
    and w3: "avail i w3 = rest" "talk i w2 w3 []" "wf_buffer w3"
    by (rule imap4_out_response_line [OF assms(1) w2(3) wd2 w2(1) assms(12), of "Some (mk_token t TOKEN_NONE)" eu])
      (use out_tag_facts(3) [OF assms(4)] in \<open>auto simp: token_cmp_def\<close>)
  have tk: "talk i w w3 (t @ SP # IMAP4_CMD_CAPABILITY @ CRLF)"
    using talk_trans [OF w1(2) talk_trans [OF w2(2) w3(2)]] by simp
  have sp: "strip_tag lim ?B' = Some (line_bytes lim (o' # os))"
    using strip_tag_line [OF _ _ assms(12)] out_tag_facts [OF assms(4)] assms(10) by auto
  show ?thesis
  proof (rule that [OF _ tk w3(1) w3(3)])
    show "reliable i w3" using talk_reliable [OF tk assms(3)] .
    have "imap4_tag_inc (mk_token t TOKEN_NONE) = mk_token (tag_next t) TOKEN_NONE"
      using assms(4) imap4_tag_inc_mk by (simp add: out_tag_def)
    then show "imap4_out_get_capability Q i eu imap4_ok (mk_token t TOKEN_NONE) lim str w =
        Some ((of_bool (has_word str cs), mk_token (tag_next t) TOKEN_NONE, line_bytes lim (o' # os), ?L'), w3)"
      using w1(1) r2 c f r3 sp by (simp add: imap4_out_get_capability_def)
  qed
qed

lemma fmt_number:
  assumes "plain_text a" and "plain_text b"
  shows "count_fmt_args (a @ ''%d'' @ b) = 1" "c_printf (a @ ''%d'' @ b) [Arg_d n] = Some (a @ dec_string n @ b)"
    "cstr (a @ ''%d'' @ b) = a @ ''%d'' @ b"
  using assms
  by (simp_all add: plain_text_def count_plain count_plain0 c_printf_plain c_printf_plain0)

lemma login_talk:
  assumes "out_tag t" and "n < 4000" and "reliable i w"
  shows "imap4_write i NULL_FLAG (Some (mk_token t f)) (Some IMAP4_CMD_LOGIN) 1 (Some ''{%d}'') [Arg_d n] w =
    Some (0, put i (t @ '' LOGIN '' @ literal n @ CRLF) w)"
proof -
  let ?a = "t @ '' LOGIN {''" and ?b = "''}'' @ CRLF"
  have p: "plain_text ?a" "plain_text ?b" using out_tag_facts(5) [OF assms(1)] by (auto simp: plain_text_def)
  note f = fmt_number [OF p]
  have buf: "t @ (SP # IMAP4_CMD_LOGIN) @ (SP # ''{%d}'') @ CRLF = ?a @ ''%d'' @ ?b"
    by (simp add: IMAP4_CMD_LOGIN_def)
  have len: "length (?a @ ''%d'' @ ?b) < MAX_LINE_LENGTH"
    using assms(1) by (simp add: out_tag_def CRLF_def MAX_LINE_LENGTH_def)
  have "imap4_write_fmt NULL_FLAG (Some (mk_token t f)) (Some IMAP4_CMD_LOGIN) (Some ''{%d}'') =
      Some (Some (?a @ ''%d'' @ ?b), NULL_FLAG OR WRITE_STR_NO_CLLF)"
    using len f(3) by (simp add: imap4_write_fmt_def NULL_FLAG_def IMAP4_CMD_LOGIN_def)
  moreover have "length (dec_string n) < 500" using dec_string_digits [of n] assms(2) by linarith
  ultimately show ?thesis
    using f(1) f(2) [of n] assms(1,3)
    by (simp add: imap4_write_def str_vwrite_def str_vformat_def reliable_accepts literal_def out_tag_def
        STR_WRITE_BUF_LEN_def MAX_LINE_LENGTH_def CRLF_def)
qed

lemma name_talk:
  assumes "length u < 3000" and "n < 4000" and "reliable i w"
  shows "imap4_write i NULL_FLAG None None 2 (Some ''%s {%d}'') [Arg_s u, Arg_d n] w =
    Some (0, put i (u @ SP # literal n @ CRLF) w)"
proof -
  have "length (dec_string n) < 500" using dec_string_digits [of n] assms(2) by linarith
  then show ?thesis using assms
    by (simp add: imap4_write_def imap4_write_fmt_def str_vwrite_def str_vformat_def NULL_FLAG_def reliable_accepts
        literal_def STR_WRITE_BUF_LEN_def MAX_LINE_LENGTH_def)
qed

lemma passwd_talk:
  assumes "length p < 4000" and "reliable i w"
  shows "imap4_write_str i NULL_FLAG None None (Some p) w = Some (0, put i (p @ CRLF) w)"
  using assms
  by (simp add: imap4_write_str_def imap4_write_def imap4_write_fmt_def str_vwrite_def str_vformat_def NULL_FLAG_def
      reliable_accepts STR_WRITE_BUF_LEN_def MAX_LINE_LENGTH_def)


lemma continuation_line:
  assumes "token_queue Q \<alpha>" and "wf_buffer w" and "\<forall>z \<in> set (y # ys). is_word TOKEN_IMAP4 z"
    and "avail i w = join SP (IMAP4_CONT_TAG # y # ys) @ CRLF @ rest" and "line_fits lim (IMAP4_CONT_TAG # y # ys)"
  obtains r w' where "imap4_out_response Q i eu (Some (mk_token IMAP4_CONT_TAG TOKEN_DONT_CARE)) imap4_ok lim w = Some (r, w')"
    and "avail i w' = rest" and "talk i w w' []" and "wf_buffer w'"
proof -
  have wd: "\<forall>z \<in> set (IMAP4_CONT_TAG # y # ys). is_word TOKEN_IMAP4 z"
    using assms(3) by (simp add: is_word_def IMAP4_CONT_TAG_def MAX_LINE_LENGTH_def)
  show ?thesis
    by (rule imap4_out_response_line [OF assms(1,2) wd assms(4,5), of "Some (mk_token IMAP4_CONT_TAG TOKEN_DONT_CARE)" eu])
      (use that in \<open>auto simp: IMAP4_CONT_TAG_def IMAP4_UNTAGGED_def\<close>)
qed

text \<open>A line of the server, as perdition can read it: words that fit the buffer.\<close>

definition server_line :: "nat option \<Rightarrow> string list \<Rightarrow> bool" where
  "server_line lim ws \<longleftrightarrow> (\<forall>x \<in> set ws. is_word TOKEN_IMAP4 x \<and> no_nul x) \<and> line_fits lim ws"

lemma imap4_out_login_dialogue:
  assumes "token_queue Q \<alpha>" and "wf_buffer w" and "reliable i w" and "out_tag t"
    and "length x = 10" and "strncaseeq x IMAP4_CMD_CAPABILITY 10"
    and "cs \<noteq> []" and "\<not> has_word IMAP4_CMD_LOGINDISABLED cs"
    and "server_line lim (IMAP4_UNTAGGED # x # cs)" and "server_line lim (t # o' # os)"
    and "server_line lim (IMAP4_CONT_TAG # y1 # ys1)" and "server_line lim (IMAP4_CONT_TAG # y2 # ys2)"
    and "server_line lim (tag_next t # z # zs)"
    and "authentication_id a = Some u" and "passwd a = Some p" and "length u < 3000" and "length p < 4000"
    and "avail i w = join SP (IMAP4_UNTAGGED # x # cs) @ CRLF @ join SP (t # o' # os) @ CRLF @
           join SP (IMAP4_CONT_TAG # y1 # ys1) @ CRLF @ join SP (IMAP4_CONT_TAG # y2 # ys2) @ CRLF @
           join SP (tag_next t # z # zs) @ CRLF @ rest"
  shows "\<exists>w'. imap4_out_authenticate Q i eu a (mk_token t TOKEN_NONE) lim w =
      Some ((of_bool (strcaseeq z ''OK''), mk_token (tag_next (tag_next t)) TOKEN_NONE,
             line_bytes lim (z # zs), left_size lim (tag_next t # z # zs)), w') \<and>
    io_out (ios w' i) = io_out (ios w i) @ t @ '' CAPABILITY'' @ CRLF @
      tag_next t @ '' LOGIN '' @ literal (length u) @ CRLF @ u @ '' '' @ literal (length p) @ CRLF @ p @ CRLF \<and>
    avail i w' = rest \<and> (\<forall>j. j \<noteq> i \<longrightarrow> ios w' j = ios w j)"
proof -
  note sl = assms(9-13) [unfolded server_line_def]
  have wd1: "\<forall>c \<in> set cs. is_word TOKEN_IMAP4 c" "\<forall>c \<in> set (o' # os). is_word TOKEN_IMAP4 c \<and> no_nul c"
    "\<forall>c \<in> set (y1 # ys1). is_word TOKEN_IMAP4 c" "\<forall>c \<in> set (y2 # ys2). is_word TOKEN_IMAP4 c"
    "\<forall>c \<in> set (z # zs). is_word TOKEN_IMAP4 c" "is_word TOKEN_IMAP4 x"
    "\<forall>c \<in> set (z # zs). no_nul c" using sl by auto
  let ?t1 = "tag_next t"
  note t1 = out_tag_next [OF assms(4)]
  obtain w1 where c1: "imap4_out_get_capability Q i eu imap4_ok (mk_token t TOKEN_NONE) lim IMAP4_CMD_LOGINDISABLED w =
      Some ((of_bool (has_word IMAP4_CMD_LOGINDISABLED cs), mk_token ?t1 TOKEN_NONE, line_bytes lim (o' # os), left_size lim (t # o' # os)), w1)"
    and t1': "talk i w w1 (t @ SP # IMAP4_CMD_CAPABILITY @ CRLF)"
    and a1: "avail i w1 = join SP (IMAP4_CONT_TAG # y1 # ys1) @ CRLF @ join SP (IMAP4_CONT_TAG # y2 # ys2) @ CRLF @
           join SP (?t1 # z # zs) @ CRLF @ rest"
    and b1: "wf_buffer w1" "reliable i w1"
    by (rule get_capability_line [OF assms(1-4) wd1(6) assms(5-7) wd1(1,2) _ _ assms(18),
          where str = IMAP4_CMD_LOGINDISABLED and eu = eu and lim = lim]) (use sl in auto)
  let ?w2 = "put i (?t1 @ '' LOGIN '' @ literal (length u) @ CRLF) w1"
  have l2: "imap4_write i NULL_FLAG (Some (mk_token ?t1 TOKEN_NONE)) (Some IMAP4_CMD_LOGIN) 1 (Some ''{%d}'') [Arg_d (length u)] w1 =
      Some (0, ?w2)" using login_talk [OF t1 _ b1(2)] assms(16) by simp
  note t2 = put_talk [OF b1(2), of "?t1 @ '' LOGIN '' @ literal (length u) @ CRLF"]
  have b2: "wf_buffer ?w2" "avail i ?w2 = avail i w1" "reliable i ?w2" using b1 talk_reliable [OF t2] by simp_all
  obtain r3 w3 where c3: "imap4_out_response Q i eu (Some (mk_token IMAP4_CONT_TAG TOKEN_DONT_CARE)) imap4_ok lim ?w2 = Some (r3, w3)"
    and a3: "avail i w3 = join SP (IMAP4_CONT_TAG # y2 # ys2) @ CRLF @ join SP (?t1 # z # zs) @ CRLF @ rest"
    and t3: "talk i ?w2 w3 []" and b3: "wf_buffer w3"
    by (rule continuation_line [OF assms(1) b2(1) wd1(3) b2(2) [unfolded a1], of lim]) (use sl in auto)
  have r3': "reliable i w3" using talk_reliable [OF t3 b2(3)] .
  let ?w4 = "put i (u @ SP # literal (length p) @ CRLF) w3"
  note l4 = name_talk [OF assms(16,17) r3']
  note t4 = put_talk [OF r3', of "u @ SP # literal (length p) @ CRLF"]
  have b4: "wf_buffer ?w4" "avail i ?w4 = avail i w3" "reliable i ?w4" using b3 r3' talk_reliable [OF t4] by simp_all
  obtain r5 w5 where c5: "imap4_out_response Q i eu (Some (mk_token IMAP4_CONT_TAG TOKEN_DONT_CARE)) imap4_ok lim ?w4 = Some (r5, w5)"
    and a5: "avail i w5 = join SP (?t1 # z # zs) @ CRLF @ rest"
    and t5: "talk i ?w4 w5 []" and b5: "wf_buffer w5"
    by (rule continuation_line [OF assms(1) b4(1) wd1(4) b4(2) [unfolded a3], of lim]) (use sl in auto)
  have r5': "reliable i w5" using talk_reliable [OF t5 b4(3)] .
  let ?w6 = "put i (p @ CRLF) w5"
  note l6 = passwd_talk [OF assms(17) r5']
  note t6 = put_talk [OF r5', of "p @ CRLF"]
  have b6: "wf_buffer ?w6" "avail i ?w6 = join SP (?t1 # z # zs) @ CRLF @ rest" using b5 a5 by simp_all
  let ?B = "line_bytes lim (?t1 # z # zs)" and ?L = "left_size lim (?t1 # z # zs)"
  have wd7: "\<forall>c \<in> set (?t1 # z # zs). is_word TOKEN_IMAP4 c" using wd1(5) out_tag_facts(4) [OF t1] by simp
  obtain q7 w7 where c7: "\<And>desired. imap4_out_response Q i eu (Some (mk_token ?t1 TOKEN_NONE)) desired lim ?w6 =
      Some (if token_cmp desired (word_token z zs) then (1, Some q7, ?B, ?L) else (0, None, ?B, ?L), w7)"
    and a7: "avail i w7 = rest" and t7: "talk i ?w6 w7 []"
    by (rule imap4_out_response_line [OF assms(1) b6(1) wd7 b6(2), of lim "Some (mk_token ?t1 TOKEN_NONE)" eu])
      (use out_tag_facts(3) [OF t1] sl in \<open>auto simp: token_cmp_def\<close>)
  have ok: "token_cmp imap4_ok (word_token z zs) \<longleftrightarrow> strcaseeq z ''OK''"
  proof (cases "length z = 2")
    case True
    then show ?thesis using strncaseeq_no_nul [of z 2 "''OK''"]
      by (simp add: imap4_ok_def word_token_def IMAP4_OK_def strncaseeq_sym [of "''OK''"] numeral_2_eq_2)
  next
    case False
    then have "\<not> strcaseeq z ''OK''" by (auto simp: strcaseeq_def dest: arg_cong [where f = length])
    with False show ?thesis by (auto simp: imap4_ok_def word_token_def IMAP4_OK_def)
  qed
  have inc: "imap4_tag_inc (mk_token ?t1 TOKEN_NONE) = mk_token (tag_next ?t1) TOKEN_NONE"
    using t1 imap4_tag_inc_mk by (simp add: out_tag_def)
  have sp: "strip_tag lim ?B = Some (line_bytes lim (z # zs))"
    using strip_tag_line [of ?t1 z zs lim] out_tag_facts [OF t1] wd1(7) sl by auto
  have tk: "talk i w w7 ((t @ SP # IMAP4_CMD_CAPABILITY @ CRLF) @ (?t1 @ '' LOGIN '' @ literal (length u) @ CRLF) @ [] @
      (u @ SP # literal (length p) @ CRLF) @ [] @ (p @ CRLF) @ [])"
    by (rule talk_trans [OF t1' talk_trans [OF t2 talk_trans [OF t3 talk_trans [OF t4 talk_trans [OF t5 talk_trans [OF t6 t7]]]]]])
  have "imap4_out_authenticate Q i eu a (mk_token t TOKEN_NONE) lim w =
      Some ((of_bool (strcaseeq z ''OK''), mk_token (tag_next ?t1) TOKEN_NONE, line_bytes lim (z # zs), ?L), w7)"
    using c1 assms(8,14,15) l2 c3 l4 c5 l6 c7 ok inc sp
    by (cases r3; cases r5) (simp add: imap4_out_authenticate_def imap4_out_login_def)
  moreover have "io_out (ios w7 i) = io_out (ios w i) @ t @ '' CAPABILITY'' @ CRLF @
      ?t1 @ '' LOGIN '' @ literal (length u) @ CRLF @ u @ '' '' @ literal (length p) @ CRLF @ p @ CRLF"
    using tk by (simp add: talk_def IMAP4_CMD_CAPABILITY_def)
  ultimately show ?thesis using a7 tk by (auto simp: talk_def only_io_def)
qed

text \<open>
  C29. The login dialogue with the real server. Against a server that lists its capabilities, none of
  which is LOGINDISABLED, and asks for the two literals, \<open>imap4_out_authenticate\<close> sends exactly
  CAPABILITY, LOGIN with the length of the name, the name with the length of the password, and the
  password, with fresh tags. It returns 1 if the server answers OK and 0 if it answers anything else,
  advances the tag twice, and leaves the answer without its tag in the buffer.
\<close>

theorem imap4_out_authenticate_dialogue:
  assumes "token_queue Q \<alpha>" and "wf_buffer w" and "reliable i w" and "out_tag t"
    and "length x = 10" and "strncaseeq x IMAP4_CMD_CAPABILITY 10"
    and "cs \<noteq> []" and "\<not> has_word IMAP4_CMD_LOGINDISABLED cs"
    and "server_line lim (IMAP4_UNTAGGED # x # cs)" and "server_line lim (t # o' # os)"
    and "server_line lim (IMAP4_CONT_TAG # y1 # ys1)" and "server_line lim (IMAP4_CONT_TAG # y2 # ys2)"
    and "server_line lim (tag_next t # z # zs)"
    and "authentication_id a = Some u" and "passwd a = Some p" and "length u < 3000" and "length p < 4000"
    and "avail i w = join SP (IMAP4_UNTAGGED # x # cs) @ CRLF @ join SP (t # o' # os) @ CRLF @
           join SP (IMAP4_CONT_TAG # y1 # ys1) @ CRLF @ join SP (IMAP4_CONT_TAG # y2 # ys2) @ CRLF @
           join SP (tag_next t # z # zs) @ CRLF @ rest"
  shows "\<exists>w'. imap4_out_authenticate Q i eu a (mk_token t TOKEN_NONE) lim w =
      Some ((of_bool (strcaseeq z ''OK''), mk_token (tag_next (tag_next t)) TOKEN_NONE,
             line_bytes lim (z # zs), left_size lim (tag_next t # z # zs)), w') \<and>
    io_out (ios w' i) = io_out (ios w i) @ t @ '' CAPABILITY'' @ CRLF @
      tag_next t @ '' LOGIN '' @ literal (length u) @ CRLF @ u @ '' '' @ literal (length p) @ CRLF @ p @ CRLF \<and>
    avail i w' = rest \<and> (\<forall>j. j \<noteq> i \<longrightarrow> ios w' j = ios w j)"
  using assms by (rule imap4_out_login_dialogue)

subsection \<open>The decision for TLS\<close>

lemma imap4_out_setup_greeting:
  assumes "token_queue Q \<alpha>" and "wf_buffer w" and "strcaseeq o0 ''OK''" and "gs \<noteq> []"
    and "server_line None (IMAP4_UNTAGGED # o0 # gs)"
    and "imap4_greeting_str opt net GREETING_ADD_NODENAME = Some (Some g)"
    and "\<And>a b. strcmp a b = 0 \<longleftrightarrow> a = b"
    and "avail i w = join SP (IMAP4_UNTAGGED # o0 # gs) @ CRLF @ rest"
  obtains w1 where "imap4_out_setup Q opt net strcmp i eu tag w =
      (if join SP gs = g then Some ((0, tag), w1)
       else imap4_out_starttls Q opt (strcmp (join SP gs) g) i eu tag w1)"
    and "avail i w1 = rest" and "talk i w w1 []" and "wf_buffer w1"
proof -
  have wd: "\<forall>z \<in> set (IMAP4_UNTAGGED # o0 # gs). is_word TOKEN_IMAP4 z" "\<forall>z \<in> set gs. no_nul z"
    using assms(5) by (auto simp: server_line_def)
  obtain q w1 where r: "\<And>desired. imap4_out_response Q i eu None desired None w =
      Some (if token_cmp desired (word_token o0 gs)
            then (1, Some q, line_bytes None (IMAP4_UNTAGGED # o0 # gs), left_size None (IMAP4_UNTAGGED # o0 # gs))
            else (0, None, line_bytes None (IMAP4_UNTAGGED # o0 # gs), left_size None (IMAP4_UNTAGGED # o0 # gs)), w1)"
    and q: "\<alpha> q = line_rest gs" and w1: "avail i w1 = rest" "talk i w w1 []" "wf_buffer w1"
    by (rule imap4_out_response_line [OF assms(1,2) wd(1) assms(8), of None None eu]) (simp_all add: line_fits_def)
  have len: "length o0 = 2" using assms(3) by (auto simp: strcaseeq_def dest: arg_cong [where f = length])
  have ok: "token_cmp imap4_ok (word_token o0 gs)"
    using len assms(3) strncaseeq_no_nul [of o0 2 "''OK''"]
    by (simp add: imap4_ok_def word_token_def IMAP4_OK_def strncaseeq_sym [of "''OK''"] numeral_2_eq_2)
  have m: "map token_str (line_tokens gs) = gs" using assms(4) by (simp add: line_tokens_def o_def)
  have "\<forall>t \<in> set (line_tokens gs). wf_token t \<and> no_nul (token_str t)"
    using wd(2) assms(4) by (auto simp: line_tokens_def dest: in_set_butlastD)
  moreover have "\<alpha> q = line_tokens gs" "line_tokens gs \<noteq> []"
    using q assms(4) by (simp_all add: line_rest_def line_tokens_def)
  ultimately have "queue_to_string Q q = Some (join SP gs)"
    using token_queue.queue_to_string_join [OF assms(1), of q] m by simp
  then show ?thesis
    using that [OF _ w1] r ok assms(6,7) by (simp add: imap4_out_setup_def Let_def)
qed

lemma imap4_out_setup_no_tls:
  assumes "token_queue Q \<alpha>" and "wf_buffer w" and "strcaseeq o0 ''OK''" and "gs \<noteq> []"
    and "server_line None (IMAP4_UNTAGGED # o0 # gs)"
    and "imap4_greeting_str opt net GREETING_ADD_NODENAME = Some (Some g)"
    and "\<And>a b. strcmp a b = 0 \<longleftrightarrow> a = b"
    and "join SP gs = g \<or> opt_ssl_mode opt AND SSL_MODE_TLS_OUTGOING = 0"
    and "avail i w = join SP (IMAP4_UNTAGGED # o0 # gs) @ CRLF @ rest"
  shows "\<exists>w'. imap4_out_setup Q opt net strcmp i eu tag w =
      Some ((if join SP gs = g then 0 else PROTOCOL_S_OK, tag), w') \<and>
    io_out (ios w' i) = io_out (ios w i) \<and> avail i w' = rest \<and> (\<forall>j. j \<noteq> i \<longrightarrow> ios w' j = ios w j)"
proof -
  obtain w1 where "imap4_out_setup Q opt net strcmp i eu tag w =
      (if join SP gs = g then Some ((0, tag), w1)
       else imap4_out_starttls Q opt (strcmp (join SP gs) g) i eu tag w1)"
    "avail i w1 = rest" "talk i w w1 []"
    using imap4_out_setup_greeting [OF assms(1-7,9)] by metis
  then show ?thesis using assms(8) by (auto simp: imap4_out_starttls_def talk_def only_io_def)
qed

text \<open>
  Before it talks to the real server, perdition checks that it is not talking to itself: if the
  greeting read is its own, nothing is sent and the setup fails with 0. Without TLS for outgoing
  connections the setup then succeeds with nothing sent.
\<close>

lemma imap4_out_setup_plain:
  assumes "token_queue Q \<alpha>" and "wf_buffer w" and "strcaseeq o0 ''OK''" and "gs \<noteq> []"
    and "server_line None (IMAP4_UNTAGGED # o0 # gs)"
    and "imap4_greeting_str opt net GREETING_ADD_NODENAME = Some (Some g)"
    and "\<And>a b. strcmp a b = 0 \<longleftrightarrow> a = b"
    and "join SP gs = g \<or> opt_ssl_mode opt AND SSL_MODE_TLS_OUTGOING = 0"
    and "avail i w = join SP (IMAP4_UNTAGGED # o0 # gs) @ CRLF @ rest"
  shows "\<exists>w'. imap4_out_setup Q opt net strcmp i eu tag w =
      Some ((if join SP gs = g then 0 else PROTOCOL_S_OK, tag), w') \<and>
    io_out (ios w' i) = io_out (ios w i) \<and> avail i w' = rest \<and> (\<forall>j. j \<noteq> i \<longrightarrow> ios w' j = ios w j)"
  using assms by (rule imap4_out_setup_no_tls)

text \<open>
  With TLS for outgoing connections, the setup asks the server for its capabilities. If STARTTLS is
  among them it is sent, and the result says that TLS is to be started; if it is not, the setup fails
  when TLS is forced, and otherwise succeeds without TLS, with nothing sent but CAPABILITY.
\<close>

lemma imap4_out_setup_tls:
  assumes "token_queue Q \<alpha>" and "wf_buffer w" and "reliable i w" and "out_tag t"
    and "strcaseeq o0 ''OK''" and "gs \<noteq> []" and "server_line None (IMAP4_UNTAGGED # o0 # gs)"
    and "imap4_greeting_str opt net GREETING_ADD_NODENAME = Some (Some g)"
    and "\<And>a b. strcmp a b = 0 \<longleftrightarrow> a = b" and "join SP gs \<noteq> g"
    and "opt_ssl_mode opt AND SSL_MODE_TLS_OUTGOING \<noteq> 0"
    and "length x = 10" and "strncaseeq x IMAP4_CMD_CAPABILITY 10" and "cs \<noteq> []"
    and "server_line (Some MAX_LINE_LENGTH) (IMAP4_UNTAGGED # x # cs)"
    and "server_line (Some MAX_LINE_LENGTH) (t # o' # os)"
    and "server_line (left_size (Some MAX_LINE_LENGTH) (t # o' # os)) (tag_next t # z # zs)"
    and "avail i w = join SP (IMAP4_UNTAGGED # o0 # gs) @ CRLF @ join SP (IMAP4_UNTAGGED # x # cs) @ CRLF @
           join SP (t # o' # os) @ CRLF @ join SP (tag_next t # z # zs) @ CRLF @ rest"
  shows "\<exists>tag w'. imap4_out_setup Q opt net strcmp i eu (mk_token t TOKEN_NONE) w =
      Some ((if has_word IMAP4_CMD_STARTTLS cs then PROTOCOL_S_OK OR PROTOCOL_S_STARTTLS
             else if opt_ssl_mode opt AND SSL_MODE_TLS_OUTGOING_FORCE = 0 then PROTOCOL_S_OK else 0, tag), w') \<and>
    io_out (ios w' i) = io_out (ios w i) @ t @ '' CAPABILITY'' @ CRLF @
      (if has_word IMAP4_CMD_STARTTLS cs then tag_next t @ '' STARTTLS'' @ CRLF else []) \<and>
    (\<forall>j. j \<noteq> i \<longrightarrow> ios w' j = ios w j)"
proof -
  obtain w1 where s1: "imap4_out_setup Q opt net strcmp i eu (mk_token t TOKEN_NONE) w =
      imap4_out_starttls Q opt (strcmp (join SP gs) g) i eu (mk_token t TOKEN_NONE) w1"
    and a1: "avail i w1 = join SP (IMAP4_UNTAGGED # x # cs) @ CRLF @ join SP (t # o' # os) @ CRLF @
       join SP (tag_next t # z # zs) @ CRLF @ rest"
    and t1: "talk i w w1 []" and b1: "wf_buffer w1"
    using imap4_out_setup_greeting [OF assms(1,2,5-9,18), of eu "mk_token t TOKEN_NONE"] assms(10) by metis
  note r1 = talk_reliable [OF t1 assms(3)]
  note sl = assms(15-17) [unfolded server_line_def]
  have wd1: "\<forall>c \<in> set cs. is_word TOKEN_IMAP4 c" "\<forall>c \<in> set (o' # os). is_word TOKEN_IMAP4 c \<and> no_nul c"
    "is_word TOKEN_IMAP4 x" using sl by auto
  let ?t1 = "tag_next t"
  note ot = out_tag_next [OF assms(4)]
  obtain w2 where c2: "imap4_out_get_capability Q i eu imap4_ok (mk_token t TOKEN_NONE) (Some MAX_LINE_LENGTH) IMAP4_CMD_STARTTLS w1 =
      Some ((of_bool (has_word IMAP4_CMD_STARTTLS cs), mk_token ?t1 TOKEN_NONE, line_bytes (Some MAX_LINE_LENGTH) (o' # os),
             left_size (Some MAX_LINE_LENGTH) (t # o' # os)), w2)"
    and t2: "talk i w1 w2 (t @ SP # IMAP4_CMD_CAPABILITY @ CRLF)"
    and a2: "avail i w2 = join SP (?t1 # z # zs) @ CRLF @ rest" and b2: "wf_buffer w2" "reliable i w2"
    by (rule get_capability_line [OF assms(1) b1 r1 assms(4) wd1(3) assms(12-14) wd1(1,2) _ _ a1,
          where str = IMAP4_CMD_STARTTLS and eu = eu and lim = "Some MAX_LINE_LENGTH"]) (use sl in auto)
  note t12 = talk_trans [OF t1 t2]
  show ?thesis
  proof (cases "has_word IMAP4_CMD_STARTTLS cs")
    case False
    then show ?thesis
      using s1 c2 t12 assms(11) by (auto simp: imap4_out_starttls_def talk_def only_io_def IMAP4_CMD_CAPABILITY_def)
  next
    case True
    obtain w3 where w3: "imap4_write_str i NULL_FLAG (Some (mk_token ?t1 TOKEN_NONE)) (Some IMAP4_CMD_STARTTLS) None w2 = Some (0, w3)"
      "talk i w2 w3 (?t1 @ SP # IMAP4_CMD_STARTTLS @ CRLF)" "avail i w3 = avail i w2"
      by (rule imap4_cmd_talk [OF ot _ _ b2(2), of IMAP4_CMD_STARTTLS TOKEN_NONE])
        (simp_all add: IMAP4_CMD_STARTTLS_def)
    have b3: "wf_buffer w3" using w3(2) b2(1) by (simp add: talk_def)
    let ?l = "left_size (Some MAX_LINE_LENGTH) (t # o' # os)"
    let ?B = "line_bytes ?l (?t1 # z # zs)" and ?L = "left_size ?l (?t1 # z # zs)"
    have wd4: "\<forall>c \<in> set (?t1 # z # zs). is_word TOKEN_IMAP4 c" using sl by auto
    obtain q4 w4 where r4: "\<And>desired. imap4_out_response Q i eu (Some (mk_token ?t1 TOKEN_NONE)) desired ?l w3 =
        Some (if token_cmp desired (word_token z zs) then (1, Some q4, ?B, ?L) else (0, None, ?B, ?L), w4)"
      and t4: "talk i w3 w4 []"
      by (rule imap4_out_response_line [OF assms(1) b3 wd4 w3(3) [unfolded a2], of ?l "Some (mk_token ?t1 TOKEN_NONE)" eu])
        (use out_tag_facts(3) [OF ot] sl in \<open>auto simp: token_cmp_def\<close>)
    note t14 = talk_trans [OF t12 talk_trans [OF w3(2) t4]]
    show ?thesis
      using True s1 c2 w3(1) r4 t14 assms(11)
      by (auto simp: imap4_out_starttls_def talk_def only_io_def IMAP4_CMD_CAPABILITY_def IMAP4_CMD_STARTTLS_def)
  qed
qed


subsection \<open>Examples\<close>

definition imap4_demo_opt :: "int \<Rightarrow> options" where
  "imap4_demo_opt mode = options_zero\<lparr>opt_imap_capability := Some ''IMAP4rev1'', opt_ssl_mode := mode\<rparr>"

definition demo_net :: net_env where
  "demo_net = \<lparr>net_sock = False, net_lookup = (0, []), net_numeric = (0, []), net_nodename = ''mx'', net_opts = []\<rparr>"

definition demo_cmp :: "string \<Rightarrow> string \<Rightarrow> int" where
  "demo_cmp a b = (if a = b then 0 else 1)"

lemma demo_cmp: "demo_cmp a b = 0 \<longleftrightarrow> a = b"
  by (simp add: demo_cmp_def)

lemma imap4_demo_plain_facts:
  "strcaseeq ''OK'' ''OK''" "[''hello''] \<noteq> []" "server_line None (IMAP4_UNTAGGED # ''OK'' # [''hello''])"
  "imap4_greeting_str (imap4_demo_opt 0) demo_net GREETING_ADD_NODENAME =
     Some (Some ''[CAPABILITY IMAP4rev1] perdition ready on mx 00000000'')"
  by code_simp+

lemma imap4_demo_plain_mode:
  "join SP [''hello''] = ''[CAPABILITY IMAP4rev1] perdition ready on mx 00000000'' \<or>
     opt_ssl_mode (imap4_demo_opt 0) AND SSL_MODE_TLS_OUTGOING = 0"
  by code_simp

lemma imap4_out_setup_plain_witness:
  "\<exists>w'. imap4_out_setup list_queue (imap4_demo_opt 0) demo_net demo_cmp RS None imap4_tag_create
      (world_sending (join SP (IMAP4_UNTAGGED # ''OK'' # [''hello'']) @ CRLF @ [])) =
    Some ((PROTOCOL_S_OK, imap4_tag_create), w') \<and> io_out (ios w' RS) = []"
  using imap4_out_setup_plain [OF list_queue.token_queue_axioms world_sending(1) imap4_demo_plain_facts demo_cmp
      imap4_demo_plain_mode world_sending(2), where i = RS and eu = None and tag = imap4_tag_create and rest = "[]"]
  by auto

lemma imap4_demo_tls_facts:
  "out_tag ''flim07''" "strcaseeq ''OK'' ''OK''" "[''hello''] \<noteq> []"
  "server_line None (IMAP4_UNTAGGED # ''OK'' # [''hello''])"
  "imap4_greeting_str (imap4_demo_opt SSL_MODE_TLS_OUTGOING) demo_net GREETING_ADD_NODENAME =
     Some (Some ''[CAPABILITY IMAP4rev1] perdition ready on mx 00000000'')"
  by code_simp+

lemma imap4_demo_tls_facts2:
  "join SP [''hello''] \<noteq> ''[CAPABILITY IMAP4rev1] perdition ready on mx 00000000''"
  "opt_ssl_mode (imap4_demo_opt SSL_MODE_TLS_OUTGOING) AND SSL_MODE_TLS_OUTGOING \<noteq> 0"
  "length ''CAPABILITY'' = 10" "strncaseeq ''CAPABILITY'' IMAP4_CMD_CAPABILITY 10" "[''IMAP4rev1'', ''STARTTLS''] \<noteq> []"
  "server_line (Some MAX_LINE_LENGTH) (IMAP4_UNTAGGED # ''CAPABILITY'' # [''IMAP4rev1'', ''STARTTLS''])"
  "server_line (Some MAX_LINE_LENGTH) (''flim07'' # ''OK'' # [''completed''])"
  "server_line (left_size (Some MAX_LINE_LENGTH) (''flim07'' # ''OK'' # [''completed''])) (tag_next ''flim07'' # ''OK'' # [''begin''])"
  by code_simp+

lemma imap4_out_setup_tls_witness:
  "\<exists>tag w'. imap4_out_setup list_queue (imap4_demo_opt SSL_MODE_TLS_OUTGOING) demo_net demo_cmp RS None
      (mk_token ''flim07'' TOKEN_NONE)
      (world_sending (join SP (IMAP4_UNTAGGED # ''OK'' # [''hello'']) @ CRLF @
         join SP (IMAP4_UNTAGGED # ''CAPABILITY'' # [''IMAP4rev1'', ''STARTTLS'']) @ CRLF @
         join SP (''flim07'' # ''OK'' # [''completed'']) @ CRLF @ join SP (tag_next ''flim07'' # ''OK'' # [''begin'']) @ CRLF @ [])) =
    Some ((PROTOCOL_S_OK OR PROTOCOL_S_STARTTLS, tag), w') \<and>
    io_out (ios w' RS) = ''flim07 CAPABILITY'' @ CRLF @ ''flim08 STARTTLS'' @ CRLF"
proof -
  have h: "has_word IMAP4_CMD_STARTTLS [''IMAP4rev1'', ''STARTTLS'']" "tag_next ''flim07'' = ''flim08''" by code_simp+
  show ?thesis
    using imap4_out_setup_tls [OF list_queue.token_queue_axioms world_sending(1) world_sending(4) imap4_demo_tls_facts demo_cmp
        imap4_demo_tls_facts2 world_sending(2), where i = RS and eu = None and rest = "[]"] h
    by auto
qed

definition demo_auth :: auth where
  "demo_auth = auth_set_pwd (Some ''bob'') (Some ''secret'')"

lemma imap4_demo_login_facts:
  "out_tag ''flim07''" "length ''CAPABILITY'' = 10" "strncaseeq ''CAPABILITY'' IMAP4_CMD_CAPABILITY 10"
  "[''IMAP4rev1''] \<noteq> []" "\<not> has_word IMAP4_CMD_LOGINDISABLED [''IMAP4rev1'']"
  "server_line (Some 4095) (IMAP4_UNTAGGED # ''CAPABILITY'' # [''IMAP4rev1''])"
  "server_line (Some 4095) (''flim07'' # ''OK'' # [''completed''])"
  "server_line (Some 4095) (IMAP4_CONT_TAG # ''go'' # [''on''])" "server_line (Some 4095) (IMAP4_CONT_TAG # ''go'' # [''on''])"
  "server_line (Some 4095) (tag_next ''flim07'' # ''OK'' # [''welcome''])"
  "authentication_id demo_auth = Some ''bob''" "passwd demo_auth = Some ''secret''" "length ''bob'' < 3000"
  "length ''secret'' < 4000"
  by code_simp+

lemma imap4_out_authenticate_dialogue_witness:
  "\<exists>tag n w'. imap4_out_authenticate list_queue RS None demo_auth (mk_token ''flim07'' TOKEN_NONE) (Some 4095)
      (world_sending (join SP (IMAP4_UNTAGGED # ''CAPABILITY'' # [''IMAP4rev1'']) @ CRLF @
         join SP (''flim07'' # ''OK'' # [''completed'']) @ CRLF @
         join SP (IMAP4_CONT_TAG # ''go'' # [''on'']) @ CRLF @ join SP (IMAP4_CONT_TAG # ''go'' # [''on'']) @ CRLF @
         join SP (tag_next ''flim07'' # ''OK'' # [''welcome'']) @ CRLF @ [])) =
    Some ((1, tag, ''OK welcome'' @ CRLF, n), w') \<and>
    io_out (ios w' RS) = ''flim07 CAPABILITY'' @ CRLF @ ''flim08 LOGIN {3}'' @ CRLF @ ''bob {6}'' @ CRLF @ ''secret'' @ CRLF"
proof -
  have h: "tag_next ''flim07'' = ''flim08''" "literal (length ''bob'') = ''{3}''" "literal (length ''secret'') = ''{6}''"
    "line_bytes (Some 4095) (''OK'' # [''welcome'']) = ''OK welcome'' @ CRLF" by code_simp+
  have "strcaseeq ''OK'' ''OK''" by simp
  with h show ?thesis
    using imap4_out_authenticate_dialogue [OF list_queue.token_queue_axioms world_sending(1) world_sending(4)
        imap4_demo_login_facts world_sending(2), where i = RS and eu = None and rest = "[]"]
    by auto
qed


subsection \<open>A connection that ends early\<close>

lemma read_line_eof:
  assumes "wf_buffer w" and "avail i w = []"
  shows "\<exists>w'. read_line Q i None flag m w = (None, w') \<and> wf_buffer w'"
proof -
  obtain r w1 where r: "token_read i None flag m w = (r, w1)" by fastforce
  have "tread None flag m [] = None"
    by (simp add: tread_def tscan.simps loop_done_def MAX_LINE_LENGTH_def)
  with token_read_tread [OF assms(1) r] assms(2) have "r = None" "wf_buffer w1" by auto
  with r show ?thesis by (simp add: read_line_def read_line_loop.simps)
qed

text \<open>
  If the connection ends behind the untagged capability line, the function reports that the
  capability was found, whatever the line says: the login then fails as if the server had disabled
  it, rather than with an error.
\<close>

lemma imap4_out_get_capability_cut_off:
  assumes "token_queue Q \<alpha>" and "wf_buffer w" and "reliable i w" and "out_tag t"
    and "length x = 10" and "strncaseeq x IMAP4_CMD_CAPABILITY 10" and "cs \<noteq> []"
    and "server_line None (IMAP4_UNTAGGED # x # cs)"
    and "avail i w = join SP (IMAP4_UNTAGGED # x # cs) @ CRLF"
  shows "\<exists>w'. imap4_out_get_capability Q i eu imap4_ok (mk_token t TOKEN_NONE) None str w =
      Some ((1, mk_token t TOKEN_NONE, [], None), w') \<and>
    (\<exists>w''. imap4_out_authenticate Q i eu a (mk_token t TOKEN_NONE) None w =
      Some ((2, mk_token (tag_next t) TOKEN_NONE, [], None), w''))"
proof -
  have wd: "\<forall>z \<in> set (IMAP4_UNTAGGED # x # cs). is_word TOKEN_IMAP4 z" using assms(8) by (simp add: server_line_def)
  have len: "length IMAP4_CMD_CAPABILITY = 10" by (simp add: IMAP4_CMD_CAPABILITY_def)
  have g: "\<exists>w'. imap4_out_get_capability Q i eu imap4_ok (mk_token t TOKEN_NONE) None str w =
      Some ((1, mk_token t TOKEN_NONE, [], None), w')" for str
  proof -
    obtain w1 where w1: "imap4_write_str i NULL_FLAG (Some (mk_token t TOKEN_NONE)) (Some IMAP4_CMD_CAPABILITY) None w = Some (0, w1)"
      "talk i w w1 (t @ SP # IMAP4_CMD_CAPABILITY @ CRLF)" "avail i w1 = avail i w"
      by (rule imap4_cmd_talk [OF assms(4) _ _ assms(3), of IMAP4_CMD_CAPABILITY TOKEN_NONE])
        (simp_all add: IMAP4_CMD_CAPABILITY_def)
    have b1: "wf_buffer w1" using w1(2) assms(2) by (simp add: talk_def)
    have a1: "avail i w1 = join SP (IMAP4_UNTAGGED # x # cs) @ CRLF @ []" using w1(3) assms(9) by simp
    obtain q2 w2 where r2: "\<And>desired. imap4_out_response Q i eu None desired None w1 =
        Some (if token_cmp desired (word_token x cs)
              then (1, Some q2, line_bytes None (IMAP4_UNTAGGED # x # cs), left_size None (IMAP4_UNTAGGED # x # cs))
              else (0, None, line_bytes None (IMAP4_UNTAGGED # x # cs), left_size None (IMAP4_UNTAGGED # x # cs)), w2)"
      and q2: "\<alpha> q2 = line_rest cs" and w2: "avail i w2 = []" "wf_buffer w2"
      by (rule imap4_out_response_line [OF assms(1) b1 wd a1, of None None eu]) (simp_all add: line_fits_def)
    have c: "token_cmp (mk_token IMAP4_CMD_CAPABILITY TOKEN_NONE) (word_token x cs)"
      using assms(5-7) len by (simp add: token_cmp_def word_token_def strncaseeq_sym [of IMAP4_CMD_CAPABILITY])
    obtain q3 where f: "queue_find Q (mk_token str TOKEN_DONT_CARE) False q2 = Some (has_word str cs, q3)"
      using queue_find_line [OF assms(1), of q2 cs str False] q2 assms(7) by (auto simp: line_rest_def)
    obtain w3 where r3: "read_line Q i None TOKEN_IMAP4 0 w2 = (None, w3)" using read_line_eof [OF w2(2,1)] by blast
    then have "imap4_out_response Q i eu (Some (mk_token t TOKEN_NONE)) imap4_ok None w2 = Some ((-1, None, [], None), w3)"
      by (simp add: imap4_out_response_def imap4_out_find_tag.simps)
    then show ?thesis using w1(1) r2 c f by (simp add: imap4_out_get_capability_def strip_tag_def)
  qed
  from g [of IMAP4_CMD_LOGINDISABLED] obtain w' where
    "imap4_out_get_capability Q i eu imap4_ok (mk_token t TOKEN_NONE) None IMAP4_CMD_LOGINDISABLED w =
      Some ((1, mk_token t TOKEN_NONE, [], None), w')" by blast
  moreover have "imap4_tag_inc (mk_token t TOKEN_NONE) = mk_token (tag_next t) TOKEN_NONE"
    using assms(4) imap4_tag_inc_mk by (simp add: out_tag_def)
  ultimately have "imap4_out_authenticate Q i eu a (mk_token t TOKEN_NONE) None w =
      Some ((2, mk_token (tag_next t) TOKEN_NONE, [], None), w')"
    by (simp add: imap4_out_authenticate_def strip_tag_def)
  with g [of str] show ?thesis by blast
qed

lemma cut_off_facts: "server_line None (IMAP4_UNTAGGED # ''CAPABILITY'' # [''IMAP4rev1''])"
  by code_simp

lemma imap4_out_get_capability_cut_off_witness:
  "\<exists>w'. imap4_out_get_capability list_queue RS None imap4_ok (mk_token ''flim07'' TOKEN_NONE) None IMAP4_CMD_STARTTLS
      (world_sending (join SP (IMAP4_UNTAGGED # ''CAPABILITY'' # [''IMAP4rev1'']) @ CRLF)) =
    Some ((1, mk_token ''flim07'' TOKEN_NONE, [], None), w')"
  using imap4_out_get_capability_cut_off [OF list_queue.token_queue_axioms world_sending(1) world_sending(4)
      imap4_demo_login_facts(1-4) cut_off_facts world_sending(2)]
  by blast

end
