(* ===== verification/Pop3_Out.thy ===== *)
theory Pop3_Out
  imports Pop3_In Imap4_Out
begin

text \<open>
  The POP3 side of the real server: \<^verbatim>\<open>perdition/pop3_out.c\<close>. \<open>i\<close> is the connection to the real
  server; a buffer for the response is given by \<open>lim\<close> as for IMAP.
\<close>

definition POP3_CAPA_END :: string where "POP3_CAPA_END = ''.''"

definition pop3_ok :: token where "pop3_ok = mk_token POP3_OK TOKEN_DONT_CARE"

subsection \<open>Responses\<close>

text \<open>The queue holds the rest of the line, whether the first word is the desired one or not.\<close>

definition pop3_out_response ::
    "'q queue_ops \<Rightarrow> ioid \<Rightarrow> token \<Rightarrow> nat option \<Rightarrow> world
      \<Rightarrow> ((int \<times> 'q option \<times> string \<times> nat option) \<times> world) option" where
  "pop3_out_response Q i desired lim w =
     (case read_line Q i lim TOKEN_POP3 0 w of
        (None, w1) \<Rightarrow> Some ((-1, None, [], lim), w1)
      | (Some (q0, buf), w1) \<Rightarrow>
          let n = (case lim of None \<Rightarrow> None | Some n \<Rightarrow> Some (if n = 0 then 0 else length buf)) in
          (case qpop Q q0 of
             None \<Rightarrow> Some ((-1, None, buf, n), w1)
           | Some (q, t) \<Rightarrow> Some ((of_bool (token_cmp desired t), Some q, buf, n), w1)))"

subsection \<open>Setup\<close>

text \<open>
  The loop over the lines of the answer to CAPA; it ends at the line with the single dot. The result
  says whether that line was reached, and whether STLS was seen.
\<close>

function pop3_out_capa_loop :: "'q queue_ops \<Rightarrow> ioid \<Rightarrow> bool \<Rightarrow> world \<Rightarrow> (bool \<times> bool) \<times> world" where
  "pop3_out_capa_loop Q i starttls w =
     (case read_line Q i None TOKEN_POP3 0 w of
        (None, w1) \<Rightarrow> ((False, starttls), w1)
      | (Some (q0, _), w1) \<Rightarrow>
          (case qpop Q q0 of
             None \<Rightarrow> ((False, starttls), w1)
           | Some (q, t) \<Rightarrow>
               let starttls' = (starttls \<or> token_cmp (mk_token POP3_CMD_STLS TOKEN_EOL) t) in
               if token_cmp (mk_token POP3_CAPA_END TOKEN_EOL) t then ((True, starttls'), w1)
               else pop3_out_capa_loop Q i starttls' w1))"
  by pat_completeness auto
termination
  by (relation "measure (\<lambda>(Q, i, s, w). pending i w)")
    (auto dest!: sym [of _ "read_line _ _ _ _ _ _"] read_line_progress)

declare pop3_out_capa_loop.simps [simp del]

definition pop3_out_leave :: "int \<Rightarrow> int \<Rightarrow> world \<Rightarrow> (int \<times> world) option" where
  "pop3_out_leave status protocol_status w = Some (if status = 1 then protocol_status else status, w)"

text \<open>
  The part of \<open>pop3_out_setup\<close> behind the loop detection. \<open>status\<close> is the result for the greeting.
\<close>

definition pop3_out_stls :: "'q queue_ops \<Rightarrow> options \<Rightarrow> int \<Rightarrow> ioid \<Rightarrow> world \<Rightarrow> (int \<times> world) option" where
  "pop3_out_stls Q opt status i w =
     (let ok = pop3_out_leave 1;
          leave = pop3_out_leave status;
          force = (opt_ssl_mode opt AND SSL_MODE_TLS_OUTGOING_FORCE \<noteq> 0);
          both = PROTOCOL_S_OK OR PROTOCOL_S_STARTTLS
      in if opt_ssl_mode opt AND SSL_MODE_TLS_OUTGOING = 0 then ok PROTOCOL_S_OK w
      else do {
        (rc, w1) \<leftarrow> pop3_write_str i NULL_FLAG None (Some POP3_CMD_CAPA) None w;
        if rc < 0 then leave PROTOCOL_S_OK w1
        else do {
          ((tmp_status, _, _, _), w2) \<leftarrow> pop3_out_response Q i pop3_ok None w1;
          if tmp_status < 0 then leave PROTOCOL_S_OK w2
          else if tmp_status = 0 then (if force then leave PROTOCOL_S_OK w2 else ok PROTOCOL_S_OK w2)
          else case pop3_out_capa_loop Q i False w2 of
                 ((False, starttls), w3) \<Rightarrow> leave (if starttls then both else PROTOCOL_S_OK) w3
               | ((True, starttls), w3) \<Rightarrow>
                   if \<not> starttls then (if force then leave PROTOCOL_S_OK w3 else ok PROTOCOL_S_OK w3)
                   else do {
                     (rc, w4) \<leftarrow> pop3_write_str i NULL_FLAG None (Some POP3_CMD_STLS) None w3;
                     if rc < 0 then leave both w4
                     else do {
                       ((tmp_status, _, _, _), w5) \<leftarrow> pop3_out_response Q i pop3_ok None w4;
                       if tmp_status < 0 then leave both w5
                       else if status = 0 then pop3_out_leave 0 both w5
                       else ok both w5 } } } })"

definition pop3_out_setup ::
    "'q queue_ops \<Rightarrow> options \<Rightarrow> net_env \<Rightarrow> ioid \<Rightarrow> world \<Rightarrow> (int \<times> world) option" where
  "pop3_out_setup Q opt net i w =
     do { ((status, q, _, _), w1) \<leftarrow> pop3_out_response Q i pop3_ok None w;
          if status \<le> 0 then Some (status, w1)
          else do {
            q1 \<leftarrow> q;
            read_string \<leftarrow> queue_to_string Q q1;
            greeting \<leftarrow> greeting_str opt net POP3_GREETING GREETING_ADD_NODENAME;
            case greeting of
              None \<Rightarrow> Some (-1, w1)
            | Some greeting_string \<Rightarrow>
                if read_string = greeting_string then Some (0, w1)
                else pop3_out_stls Q opt status i w1 } }"

subsection \<open>Authentication\<close>

text \<open>
  The contents of the buffer are \<open>None\<close> if it has not been written to: only the answer to PASS is
  stored there.
\<close>

definition pop3_out_authenticate ::
    "'q queue_ops \<Rightarrow> ioid \<Rightarrow> auth \<Rightarrow> nat option \<Rightarrow> world
      \<Rightarrow> ((int \<times> string option \<times> nat option) \<times> world) option" where
  "pop3_out_authenticate Q i a lim w =
     do { (rc, w1) \<leftarrow> pop3_write_str i NULL_FLAG None (Some POP3_CMD_USER) (authentication_id a) w;
          if rc < 0 then Some ((-1, None, lim), w1)
          else do {
            ((status, _, _, _), w2) \<leftarrow> pop3_out_response Q i pop3_ok None w1;
            if status < 0 then Some ((-1, None, lim), w2)
            else if status = 0 then Some ((0, None, lim), w2)
            else do {
              (rc, w3) \<leftarrow> pop3_write_str i NULL_FLAG None (Some POP3_CMD_PASS) (passwd a) w2;
              if rc < 0 then Some ((-1, None, lim), w3)
              else do {
                ((status, _, buf, n), w4) \<leftarrow> pop3_out_response Q i pop3_ok lim w3;
                Some ((status, Some buf, n), w4) } } } }"

subsection \<open>Dialogues with the server\<close>

definition pop3_line :: "nat option \<Rightarrow> string list \<Rightarrow> bool" where
  "pop3_line lim ws \<longleftrightarrow> ws \<noteq> [] \<and> (\<forall>x \<in> set ws. is_word TOKEN_POP3 x) \<and> line_fits lim ws"

lemma pop3_out_response_line:
  assumes "token_queue Q \<alpha>" and "wf_buffer w" and "pop3_line lim (y # zs)"
    and "avail i w = join SP (y # zs) @ CRLF @ rest"
  obtains q w' where "\<And>desired. pop3_out_response Q i desired lim w =
      Some ((of_bool (token_cmp desired (word_token y zs)), Some q, line_bytes lim (y # zs), left_size lim (y # zs)), w')"
    and "\<alpha> q = line_rest zs" and "avail i w' = rest" and "talk i w w' []" and "wf_buffer w'"
proof -
  obtain q0 w1 where r: "read_line Q i lim TOKEN_POP3 0 w = (Some (q0, line_bytes lim (y # zs)), w1)"
    and q0: "\<alpha> q0 = line_tokens (y # zs)" and w1: "avail i w1 = rest" "wf_buffer w1"
    using read_line_words_any [OF assms(1) _ assms(2) _ _ assms(4), where m = 0 and flag = TOKEN_POP3 and lim = lim] assms(3)
    by (auto simp: pop3_line_def)
  obtain q2 where q2: "qpop Q q0 = Some (q2, word_token y zs)" "\<alpha> q2 = line_rest zs"
    using token_queue.pop_Cons [OF assms(1), of q0] q0 by (auto simp: line_tokens_split)
  have lim1: "(case lim of None \<Rightarrow> None | Some n \<Rightarrow> Some (if n = 0 then 0 else length (line_bytes lim (y # zs)))) =
      left_size lim (y # zs)"
    using assms(3) by (auto simp: left_size_def pop3_line_def line_fits_def CRLF_def split: option.splits)
  show ?thesis
    by (rule that [OF _ q2(2) w1(1) read_line_talk [OF r] w1(2)])
      (use r q2(1) w1 lim1 in \<open>simp_all add: pop3_out_response_def Let_def\<close>)
qed

lemma pop3_str_talk:
  assumes "plain_text c" and "length c = 4" and "length s < 4000" and "reliable i w"
  shows "pop3_write_str i NULL_FLAG None (Some c) (Some s) w = Some (0, put i (c @ SP # s @ CRLF) w)"
  using pop3_write_str_line [of c i NULL_FLAG None s w] assms
  by (simp add: MAX_LINE_LENGTH_def send_line_def line_of_def NULL_FLAG_def STR_WRITE_BUF_LEN_def CRLF_def reliable_accepts)

lemma pop3_cmd_talk:
  assumes "no_nul c" and "length c = 4" and "reliable i w"
  shows "pop3_write_str i NULL_FLAG None (Some c) None w = Some (0, put i (c @ CRLF) w)"
  using pop3_write_str_cmd [of c i NULL_FLAG None w] assms
  by (simp add: MAX_LINE_LENGTH_def line_of_def NULL_FLAG_def reliable_accepts)

lemma pop3_ok_cmp: "token_cmp pop3_ok (word_token y zs) \<longleftrightarrow> strcaseeq y ''+OK''"
proof (cases "length y = 3")
  case True
  then show ?thesis using strncaseeq_no_nul [of y 3 "''+OK''"]
    by (simp add: pop3_ok_def word_token_def POP3_OK_def strncaseeq_sym [of "''+OK''"] numeral_3_eq_3)
next
  case False
  then have "\<not> strcaseeq y ''+OK''" by (auto simp: strcaseeq_def dest: arg_cong [where f = length])
  with False show ?thesis by (auto simp: pop3_ok_def word_token_def POP3_OK_def)
qed

lemma pop3_out_login:
  assumes "token_queue Q \<alpha>" and "wf_buffer w" and "reliable i w"
    and "authentication_id a = Some u" and "passwd a = Some p" and "length u < 4000" and "length p < 4000"
    and "pop3_line None (y # ys)" and "pop3_line lim (z # zs)"
    and "avail i w = join SP (y # ys) @ CRLF @ join SP (z # zs) @ CRLF @ rest"
  shows "\<exists>w'. pop3_out_authenticate Q i a lim w =
      Some (if strcaseeq y ''+OK''
            then (of_bool (strcaseeq z ''+OK''), Some (line_bytes lim (z # zs)), left_size lim (z # zs))
            else (0, None, lim), w') \<and>
    io_out (ios w' i) = io_out (ios w i) @ ''USER '' @ u @ CRLF @
      (if strcaseeq y ''+OK'' then ''PASS '' @ p @ CRLF else []) \<and>
    avail i w' = (if strcaseeq y ''+OK'' then rest else join SP (z # zs) @ CRLF @ rest) \<and>
    (\<forall>j. j \<noteq> i \<longrightarrow> ios w' j = ios w j)"
proof -
  let ?w1 = "put i (POP3_CMD_USER @ SP # u @ CRLF) w"
  have pl: "plain_text POP3_CMD_USER" "plain_text POP3_CMD_PASS" by (simp_all add: plain_text_def pop3_cmd_defs)
  have l1: "pop3_write_str i NULL_FLAG None (Some POP3_CMD_USER) (Some u) w = Some (0, ?w1)"
    by (rule pop3_str_talk) (use pl assms(3,6) in simp_all)
  note t1 = put_talk [OF assms(3), of "POP3_CMD_USER @ SP # u @ CRLF"]
  have b1: "wf_buffer ?w1" "avail i ?w1 = join SP (y # ys) @ CRLF @ (join SP (z # zs) @ CRLF @ rest)"
    using assms(2,10) by simp_all
  obtain q2 w2 where r2: "\<And>desired. pop3_out_response Q i desired None ?w1 =
      Some ((of_bool (token_cmp desired (word_token y ys)), Some q2, line_bytes None (y # ys), left_size None (y # ys)), w2)"
    and w2: "avail i w2 = join SP (z # zs) @ CRLF @ rest" "talk i ?w1 w2 []" "wf_buffer w2"
    by (rule pop3_out_response_line [OF assms(1) b1(1) assms(8) b1(2)]) metis
  note t2 = talk_trans [OF t1 w2(2)]
  show ?thesis
  proof (cases "strcaseeq y ''+OK''")
    case False
    then show ?thesis using l1 r2 w2(1) t2 assms(4)
      by (auto simp: pop3_out_authenticate_def pop3_ok_cmp talk_def only_io_def POP3_CMD_USER_def)
  next
    case True
    note r2' = talk_reliable [OF t2 assms(3)]
    let ?w3 = "put i (POP3_CMD_PASS @ SP # p @ CRLF) w2"
    have l3: "pop3_write_str i NULL_FLAG None (Some POP3_CMD_PASS) (Some p) w2 = Some (0, ?w3)"
      by (rule pop3_str_talk) (use pl assms(7) r2' in simp_all)
    note t3 = put_talk [OF r2', of "POP3_CMD_PASS @ SP # p @ CRLF"]
    have b3: "wf_buffer ?w3" "avail i ?w3 = join SP (z # zs) @ CRLF @ rest" using w2 by simp_all
    obtain q4 w4 where r4: "\<And>desired. pop3_out_response Q i desired lim ?w3 =
        Some ((of_bool (token_cmp desired (word_token z zs)), Some q4, line_bytes lim (z # zs), left_size lim (z # zs)), w4)"
      and w4: "avail i w4 = rest" "talk i ?w3 w4 []"
      by (rule pop3_out_response_line [OF assms(1) b3(1) assms(9) b3(2)]) metis
    note t4 = talk_trans [OF t2 talk_trans [OF t3 w4(2)]]
    show ?thesis using True l1 r2 l3 r4 w4(1) t4 assms(4,5)
      by (auto simp: pop3_out_authenticate_def pop3_ok_cmp talk_def only_io_def POP3_CMD_USER_def POP3_CMD_PASS_def)
  qed
qed

text \<open>
  C30. The POP3 login with the real server sends USER with the name and, only after a positive answer,
  PASS with the password, and nothing else; the result is 1 if both are answered with +OK and 0
  otherwise. Only the answer to PASS is stored in the buffer.
\<close>

theorem pop3_out_authenticate_dialogue:
  assumes "token_queue Q \<alpha>" and "wf_buffer w" and "reliable i w"
    and "authentication_id a = Some u" and "passwd a = Some p" and "length u < 4000" and "length p < 4000"
    and "pop3_line None (y # ys)" and "pop3_line lim (z # zs)"
    and "avail i w = join SP (y # ys) @ CRLF @ join SP (z # zs) @ CRLF @ rest"
  shows "\<exists>w'. pop3_out_authenticate Q i a lim w =
      Some (if strcaseeq y ''+OK''
            then (of_bool (strcaseeq z ''+OK''), Some (line_bytes lim (z # zs)), left_size lim (z # zs))
            else (0, None, lim), w') \<and>
    io_out (ios w' i) = io_out (ios w i) @ ''USER '' @ u @ CRLF @
      (if strcaseeq y ''+OK'' then ''PASS '' @ p @ CRLF else []) \<and>
    avail i w' = (if strcaseeq y ''+OK'' then rest else join SP (z # zs) @ CRLF @ rest) \<and>
    (\<forall>j. j \<noteq> i \<longrightarrow> ios w' j = ios w j)"
  using assms by (rule pop3_out_login)

text \<open>
  Once the greeting of another server has been read, \<open>pop3_out_setup\<close> cannot fail any more:
  whatever goes wrong while TLS is negotiated, a refused CAPA or STLS and a lost connection included,
  its result is success without or with TLS. It is left to the caller to insist on TLS.
\<close>

lemma pop3_out_setup_never_fails:
  assumes "pop3_out_stls Q opt 1 i w = Some (r, w')"
  shows "r \<in> {PROTOCOL_S_OK, PROTOCOL_S_OK OR PROTOCOL_S_STARTTLS} \<and>
    (opt_ssl_mode opt AND SSL_MODE_TLS_OUTGOING = 0 \<longrightarrow> r = PROTOCOL_S_OK \<and> w' = w)"
proof -
  have "gives (\<lambda>r. r \<in> {PROTOCOL_S_OK, PROTOCOL_S_OK OR PROTOCOL_S_STARTTLS}) (pop3_out_stls Q opt 1 i w)"
    unfolding pop3_out_stls_def pop3_out_leave_def Let_def
    by (auto intro!: gives_rules split: prod.split bool.split)
  with assms show ?thesis by (auto simp: pop3_out_stls_def pop3_out_leave_def)
qed


text \<open>The answer to CAPA: its lines, behind the positive first one, and the final dot.\<close>

definition pop3_lines :: "string list list \<Rightarrow> string" where
  "pop3_lines ls = concat (map (\<lambda>ws. join SP ws @ CRLF) ls) @ POP3_CAPA_END @ CRLF"

definition single_word :: "string \<Rightarrow> string list \<Rightarrow> bool" where
  "single_word s ws \<longleftrightarrow> (case ws of [x] \<Rightarrow> strcaseeq x s | _ \<Rightarrow> False)"

lemma single_word_cmp:
  assumes "no_nul s"
  shows "token_cmp (mk_token s TOKEN_EOL) (word_token y zs) \<longleftrightarrow> single_word s (y # zs)"
proof (cases "zs = [] \<and> length y = length s")
  case True
  then show ?thesis using strncaseeq_no_nul [of y "length s" s] assms
    by (simp add: token_cmp_def word_token_def single_word_def strncaseeq_sym [of s] token_flag_defs)
next
  case False
  then have "\<not> single_word s (y # zs)"
    by (auto simp: single_word_def strcaseeq_def split: list.splits dest: arg_cong [where f = length])
  with False show ?thesis
    by (auto simp: token_cmp_def word_token_def token_flag_defs)
qed

lemma pop3_out_capa_lines:
  assumes "token_queue Q \<alpha>" and "wf_buffer w" and "\<forall>ws \<in> set ls. pop3_line None ws \<and> \<not> single_word POP3_CAPA_END ws"
    and "avail i w = pop3_lines ls @ rest"
  shows "\<exists>w'. pop3_out_capa_loop Q i s w = ((True, s \<or> (\<exists>ws \<in> set ls. single_word POP3_CMD_STLS ws)), w') \<and>
    avail i w' = rest \<and> talk i w w' [] \<and> wf_buffer w'"
  using assms(2-4)
proof (induction ls arbitrary: s w)
  case Nil
  have a: "avail i w = join SP [POP3_CAPA_END] @ CRLF @ rest" using Nil(3) by (simp add: pop3_lines_def)
  have l: "pop3_line None [POP3_CAPA_END]" by code_simp
  obtain q0 w1 where r: "read_line Q i None TOKEN_POP3 0 w = (Some (q0, line_bytes None [POP3_CAPA_END]), w1)"
    and q0: "\<alpha> q0 = line_tokens [POP3_CAPA_END]" and w1: "avail i w1 = rest" "wf_buffer w1"
    using read_line_words_any [OF assms(1) _ Nil(1) _ _ a, where m = 0 and flag = TOKEN_POP3 and lim = None] l
    by (auto simp: pop3_line_def)
  obtain q2 where q2: "qpop Q q0 = Some (q2, word_token POP3_CAPA_END [])"
    using token_queue.pop_Cons [OF assms(1), of q0] q0 by (auto simp: line_tokens_split)
  have "token_cmp (mk_token POP3_CAPA_END TOKEN_EOL) (word_token POP3_CAPA_END [])"
    "\<not> token_cmp (mk_token POP3_CMD_STLS TOKEN_EOL) (word_token POP3_CAPA_END [])" by code_simp+
  then show ?case using r q2 w1 read_line_talk [OF r] by (subst pop3_out_capa_loop.simps) simp
next
  case (Cons ws ls)
  obtain y zs where ws: "ws = y # zs" using Cons.prems(2) by (cases ws) (auto simp: pop3_line_def)
  have a: "avail i w = join SP (y # zs) @ CRLF @ (pop3_lines ls @ rest)"
    using Cons.prems(3) ws by (simp add: pop3_lines_def)
  obtain q0 w1 where r: "read_line Q i None TOKEN_POP3 0 w = (Some (q0, line_bytes None (y # zs)), w1)"
    and q0: "\<alpha> q0 = line_tokens (y # zs)" and w1: "avail i w1 = pop3_lines ls @ rest" "wf_buffer w1"
    using read_line_words_any [OF assms(1) _ Cons.prems(1) _ _ a, where m = 0 and flag = TOKEN_POP3 and lim = None]
      Cons.prems(2) ws by (auto simp: pop3_line_def)
  obtain q2 where q2: "qpop Q q0 = Some (q2, word_token y zs)"
    using token_queue.pop_Cons [OF assms(1), of q0] q0 by (auto simp: line_tokens_split)
  have nn: "no_nul POP3_CAPA_END" "no_nul POP3_CMD_STLS" by code_simp+
  have "\<forall>ws \<in> set ls. pop3_line None ws \<and> \<not> single_word POP3_CAPA_END ws" using Cons.prems(2) by simp
  from Cons.IH [OF w1(2) this w1(1), of "s \<or> single_word POP3_CMD_STLS ws"] obtain w' where
    "pop3_out_capa_loop Q i (s \<or> single_word POP3_CMD_STLS ws) w1 =
      ((True, (s \<or> single_word POP3_CMD_STLS ws) \<or> (\<exists>ws \<in> set ls. single_word POP3_CMD_STLS ws)), w')"
    and w': "avail i w' = rest" "talk i w1 w' []" "wf_buffer w'" by blast
  moreover have "\<not> single_word POP3_CAPA_END (y # zs)" using Cons.prems(2) ws by simp
  ultimately have "pop3_out_capa_loop Q i s w = ((True, s \<or> (\<exists>ws \<in> set (ws # ls). single_word POP3_CMD_STLS ws)), w')"
    using r q2 ws by (subst pop3_out_capa_loop.simps) (simp add: single_word_cmp [OF nn(1)] single_word_cmp [OF nn(2)] disj_assoc)
  then show ?case using w' talk_trans [OF read_line_talk [OF r] w'(2)] w1(2) by auto
qed

lemma pop3_out_setup_greeting:
  assumes "token_queue Q \<alpha>" and "wf_buffer w" and "strcaseeq o0 ''+OK''" and "gs \<noteq> []" and "\<forall>g \<in> set gs. no_nul g"
    and "pop3_line None (o0 # gs)" and "greeting_str opt net POP3_GREETING GREETING_ADD_NODENAME = Some (Some g)"
    and "avail i w = join SP (o0 # gs) @ CRLF @ rest"
  obtains w1 where "pop3_out_setup Q opt net i w =
      (if join SP gs = g then Some (0, w1) else pop3_out_stls Q opt 1 i w1)"
    and "avail i w1 = rest" and "talk i w w1 []" and "wf_buffer w1"
proof -
  obtain q w1 where r: "\<And>desired. pop3_out_response Q i desired None w =
      Some ((of_bool (token_cmp desired (word_token o0 gs)), Some q, line_bytes None (o0 # gs), left_size None (o0 # gs)), w1)"
    and q: "\<alpha> q = line_rest gs" and w1: "avail i w1 = rest" "talk i w w1 []" "wf_buffer w1"
    by (rule pop3_out_response_line [OF assms(1,2,6,8)]) metis
  have m: "map token_str (line_tokens gs) = gs" using assms(4) by (simp add: line_tokens_def o_def)
  have "\<forall>t \<in> set (line_tokens gs). wf_token t \<and> no_nul (token_str t)"
    using assms(4,5) by (auto simp: line_tokens_def dest: in_set_butlastD)
  moreover have "\<alpha> q = line_tokens gs" "line_tokens gs \<noteq> []"
    using q assms(4) by (simp_all add: line_rest_def line_tokens_def)
  ultimately have "queue_to_string Q q = Some (join SP gs)"
    using token_queue.queue_to_string_join [OF assms(1), of q] m by simp
  then show ?thesis
    using that [OF _ w1] r assms(3,7) by (simp add: pop3_out_setup_def pop3_ok_cmp)
qed

lemma pop3_out_setup_stls:
  assumes "token_queue Q \<alpha>" and "wf_buffer w" and "strcaseeq o0 ''+OK''" and "gs \<noteq> []" and "\<forall>g \<in> set gs. no_nul g"
    and "pop3_line None (o0 # gs)" and "greeting_str opt net POP3_GREETING GREETING_ADD_NODENAME = Some (Some g)"
    and "join SP gs \<noteq> g" and "opt_ssl_mode opt AND SSL_MODE_TLS_OUTGOING \<noteq> 0" and "reliable i w"
    and "strcaseeq o1 ''+OK''" and "pop3_line None (o1 # os)" and "pop3_line None (z # zs)"
    and "\<forall>ws \<in> set ls. pop3_line None ws \<and> \<not> single_word POP3_CAPA_END ws"
    and "avail i w = join SP (o0 # gs) @ CRLF @ join SP (o1 # os) @ CRLF @ pop3_lines ls @ join SP (z # zs) @ CRLF @ rest"
  shows "\<exists>w'. pop3_out_setup Q opt net i w =
      Some (if \<exists>ws \<in> set ls. single_word POP3_CMD_STLS ws then PROTOCOL_S_OK OR PROTOCOL_S_STARTTLS else PROTOCOL_S_OK, w') \<and>
    io_out (ios w' i) = io_out (ios w i) @ ''CAPA'' @ CRLF @
      (if \<exists>ws \<in> set ls. single_word POP3_CMD_STLS ws then ''STLS'' @ CRLF else []) \<and>
    (\<forall>j. j \<noteq> i \<longrightarrow> ios w' j = ios w j)"
proof -
  obtain w1 where s: "pop3_out_setup Q opt net i w = pop3_out_stls Q opt 1 i w1"
    and a1: "avail i w1 = join SP (o1 # os) @ CRLF @ pop3_lines ls @ join SP (z # zs) @ CRLF @ rest"
    and t1: "talk i w w1 []" and b1: "wf_buffer w1"
    using pop3_out_setup_greeting [OF assms(1-7,15)] assms(8) by metis
  note r1 = talk_reliable [OF t1 assms(10)]
  have pl: "no_nul POP3_CMD_CAPA" "length POP3_CMD_CAPA = 4" "no_nul POP3_CMD_STLS" "length POP3_CMD_STLS = 4" by code_simp+
  let ?w2 = "put i (POP3_CMD_CAPA @ CRLF) w1"
  note c2 = pop3_cmd_talk [OF pl(1,2) r1] and t2 = put_talk [OF r1, of "POP3_CMD_CAPA @ CRLF"]
  have b2: "wf_buffer ?w2" "avail i ?w2 = join SP (o1 # os) @ CRLF @ (pop3_lines ls @ join SP (z # zs) @ CRLF @ rest)"
    using b1 a1 by simp_all
  obtain q3 w3 where r3: "\<And>desired. pop3_out_response Q i desired None ?w2 =
      Some ((of_bool (token_cmp desired (word_token o1 os)), Some q3, line_bytes None (o1 # os), left_size None (o1 # os)), w3)"
    and a3: "avail i w3 = pop3_lines ls @ (join SP (z # zs) @ CRLF @ rest)" and t3: "talk i ?w2 w3 []" and b3: "wf_buffer w3"
    by (rule pop3_out_response_line [OF assms(1) b2(1) assms(12) b2(2)]) metis
  obtain w4 where c4: "pop3_out_capa_loop Q i False w3 = ((True, \<exists>ws \<in> set ls. single_word POP3_CMD_STLS ws), w4)"
    and a4: "avail i w4 = join SP (z # zs) @ CRLF @ rest" and t4: "talk i w3 w4 []" and b4: "wf_buffer w4"
    using pop3_out_capa_lines [OF assms(1) b3 assms(14) a3, of False] by auto
  note t14 = talk_trans [OF t1 talk_trans [OF t2 talk_trans [OF t3 t4]]]
  note r4 = talk_reliable [OF t14 assms(10)]
  show ?thesis
  proof (cases "\<exists>ws \<in> set ls. single_word POP3_CMD_STLS ws")
    case False
    then show ?thesis using s c2 r3 c4 assms(9,11) t14
      by (auto simp: pop3_out_stls_def pop3_ok_cmp pop3_out_leave_def talk_def only_io_def POP3_CMD_CAPA_def)
  next
    case True
    let ?w5 = "put i (POP3_CMD_STLS @ CRLF) w4"
    note c5 = pop3_cmd_talk [OF pl(3,4) r4] and t5 = put_talk [OF r4, of "POP3_CMD_STLS @ CRLF"]
    have b5: "wf_buffer ?w5" "avail i ?w5 = join SP (z # zs) @ CRLF @ rest" using b4 a4 by simp_all
    obtain q6 w6 where r6: "\<And>desired. pop3_out_response Q i desired None ?w5 =
        Some ((of_bool (token_cmp desired (word_token z zs)), Some q6, line_bytes None (z # zs), left_size None (z # zs)), w6)"
      and t6: "talk i ?w5 w6 []"
      by (rule pop3_out_response_line [OF assms(1) b5(1) assms(13) b5(2)]) metis
    note t16 = talk_trans [OF t14 talk_trans [OF t5 t6]]
    show ?thesis using True s c2 r3 c4 c5 r6 assms(9,11) t16
      by (auto simp: pop3_out_stls_def pop3_ok_cmp pop3_out_leave_def talk_def only_io_def POP3_CMD_CAPA_def POP3_CMD_STLS_def)
  qed
qed

text \<open>
  With TLS for outgoing connections, \<open>pop3_out_setup\<close> checks the greeting, sends CAPA and, when a
  line of the answer consists of STLS alone, STLS. TLS is then reported to the caller whatever the
  server answers to STLS, a refusal included. Without such a line the result is success without TLS,
  even when TLS is forced.
\<close>

lemma pop3_out_setup_tls:
  assumes "token_queue Q \<alpha>" and "wf_buffer w" and "strcaseeq o0 ''+OK''" and "gs \<noteq> []" and "\<forall>g \<in> set gs. no_nul g"
    and "pop3_line None (o0 # gs)" and "greeting_str opt net POP3_GREETING GREETING_ADD_NODENAME = Some (Some g)"
    and "join SP gs \<noteq> g" and "opt_ssl_mode opt AND SSL_MODE_TLS_OUTGOING \<noteq> 0" and "reliable i w"
    and "strcaseeq o1 ''+OK''" and "pop3_line None (o1 # os)" and "pop3_line None (z # zs)"
    and "\<forall>ws \<in> set ls. pop3_line None ws \<and> \<not> single_word POP3_CAPA_END ws"
    and "avail i w = join SP (o0 # gs) @ CRLF @ join SP (o1 # os) @ CRLF @ pop3_lines ls @ join SP (z # zs) @ CRLF @ rest"
  shows "\<exists>w'. pop3_out_setup Q opt net i w =
      Some (if \<exists>ws \<in> set ls. single_word POP3_CMD_STLS ws then PROTOCOL_S_OK OR PROTOCOL_S_STARTTLS else PROTOCOL_S_OK, w') \<and>
    io_out (ios w' i) = io_out (ios w i) @ ''CAPA'' @ CRLF @
      (if \<exists>ws \<in> set ls. single_word POP3_CMD_STLS ws then ''STLS'' @ CRLF else []) \<and>
    (\<forall>j. j \<noteq> i \<longrightarrow> ios w' j = ios w j)"
  using assms by (rule pop3_out_setup_stls)

subsection \<open>Examples\<close>

lemma pop3_out_demo_facts:
  "authentication_id demo_auth = Some ''bob''" "passwd demo_auth = Some ''secret''" "length ''bob'' < 4000" "length ''secret'' < 4000"
  "pop3_line None (''+OK'' # [''name'', ''accepted''])" "pop3_line (Some 4095) (''+OK'' # [''welcome''])"
  by code_simp+

lemma pop3_out_authenticate_dialogue_witness:
  "\<exists>n w'. pop3_out_authenticate list_queue RS demo_auth (Some 4095)
      (world_sending (join SP (''+OK'' # [''name'', ''accepted'']) @ CRLF @ join SP (''+OK'' # [''welcome'']) @ CRLF @ [])) =
    Some ((1, Some (''+OK welcome'' @ CRLF), n), w') \<and> io_out (ios w' RS) = ''USER bob'' @ CRLF @ ''PASS secret'' @ CRLF"
proof -
  have "strcaseeq ''+OK'' ''+OK''" "line_bytes (Some 4095) (''+OK'' # [''welcome'']) = ''+OK welcome'' @ CRLF" by code_simp+
  then show ?thesis
    using pop3_out_authenticate_dialogue [OF list_queue.token_queue_axioms world_sending(1,4) pop3_out_demo_facts
        world_sending(2), where i = RS and rest = "[]"]
    by auto
qed

lemma pop3_out_setup_never_fails_witness:
  "fst (the (pop3_out_stls list_queue (imap4_demo_opt SSL_MODE_TLS_OUTGOING_FORCE) 1 RS (world_sending (''-ERR no'' @ CRLF)))) \<in>
     {PROTOCOL_S_OK, PROTOCOL_S_OK OR PROTOCOL_S_STARTTLS}"
proof -
  have "map_option fst (pop3_out_stls list_queue (imap4_demo_opt SSL_MODE_TLS_OUTGOING_FORCE) 1 RS
      (world_sending (''-ERR no'' @ CRLF))) = Some PROTOCOL_S_OK" by code_simp
  then obtain w' where "pop3_out_stls list_queue (imap4_demo_opt SSL_MODE_TLS_OUTGOING_FORCE) 1 RS
      (world_sending (''-ERR no'' @ CRLF)) = Some (PROTOCOL_S_OK, w')" by auto
  from pop3_out_setup_never_fails [OF this] this show ?thesis by simp
qed

lemma pop3_out_setup_demo_facts:
  "strcaseeq ''+OK'' ''+OK''" "[''hello''] \<noteq> []" "\<forall>g \<in> set [''hello'']. no_nul g" "pop3_line None (''+OK'' # [''hello''])"
  "greeting_str (imap4_demo_opt SSL_MODE_TLS_OUTGOING) demo_net POP3_GREETING GREETING_ADD_NODENAME =
     Some (Some (POP3_GREETING @ '' mx 00000000''))"
  "join SP [''hello''] \<noteq> POP3_GREETING @ '' mx 00000000''"
  "opt_ssl_mode (imap4_demo_opt SSL_MODE_TLS_OUTGOING) AND SSL_MODE_TLS_OUTGOING \<noteq> 0"
  by code_simp+

lemma pop3_out_setup_demo_facts2:
  "strcaseeq ''+OK'' ''+OK''" "pop3_line None (''+OK'' # [''list''])" "pop3_line None (''-ERR'' # [''no''])"
  "\<forall>ws \<in> set [[''UIDL''], [''STLS'']]. pop3_line None ws \<and> \<not> single_word POP3_CAPA_END ws"
  by code_simp+

lemma pop3_out_setup_tls_witness:
  "\<exists>w'. pop3_out_setup list_queue (imap4_demo_opt SSL_MODE_TLS_OUTGOING) demo_net RS
      (world_sending (join SP (''+OK'' # [''hello'']) @ CRLF @ join SP (''+OK'' # [''list'']) @ CRLF @
         pop3_lines [[''UIDL''], [''STLS'']] @ join SP (''-ERR'' # [''no'']) @ CRLF @ [])) =
    Some (PROTOCOL_S_OK OR PROTOCOL_S_STARTTLS, w') \<and> io_out (ios w' RS) = ''CAPA'' @ CRLF @ ''STLS'' @ CRLF"
proof -
  have "single_word POP3_CMD_STLS [''STLS'']" by code_simp
  then show ?thesis
    using pop3_out_setup_tls [OF list_queue.token_queue_axioms world_sending(1) pop3_out_setup_demo_facts world_sending(4)
        pop3_out_setup_demo_facts2 world_sending(2), where i = RS and rest = "[]"]
    by auto
qed

end
