(* ===== verification/Sasl_Plain.thy ===== *)
theory Sasl_Plain
  imports Auth
begin

text \<open>
  SASL PLAIN credentials: \<^verbatim>\<open>perdition/buf.h\<close>, \<^verbatim>\<open>base64.c\<close> and \<^verbatim>\<open>sasl_plain.c\<close>.

  The base64 filter of OpenSSL and the \<open>SASLprep\<close> profile of libidn are not part of the sources; they
  are the parameters \<open>B\<close> and \<open>saslprep\<close>. What is relied on is that decoding is the inverse of
  encoding, \<open>b64_inverse\<close>, and that encoded text has only base64 characters, \<open>b64_text\<close>.
\<close>

subsection \<open>Buffers\<close>

text \<open>\<open>struct buf\<close> and \<open>struct const_buf\<close>: a length and a pointer, \<open>None\<close> for NULL.\<close>

record buf =
  buf_len :: nat
  buf_data :: "string option"

definition buf_zero :: buf where
  "buf_zero = \<lparr>buf_len = 0, buf_data = None\<rparr>"

definition buf_is_err :: "buf \<Rightarrow> bool" where
  "buf_is_err b \<longleftrightarrow> buf_data b = None"

definition buf_of :: "string \<Rightarrow> buf" where
  "buf_of s = \<lparr>buf_len = length s, buf_data = Some s\<rparr>"

definition buf_dup_from_const :: "buf \<Rightarrow> buf" where
  "buf_dup_from_const src = (case buf_data src of None \<Rightarrow> buf_zero | Some d \<Rightarrow> buf_of (take (buf_len src) d))"

subsection \<open>Base64\<close>

text \<open>
  The two uses of the filter: all bytes written through it, and what one \<open>BIO_read\<close> of as many bytes
  as the input has returns, \<open>[]\<close> for a result of zero or less.
\<close>

record base64_bio =
  bio_encode :: "string \<Rightarrow> string"
  bio_decode :: "string \<Rightarrow> string"

definition BUF_INT_MAX :: nat where "BUF_INT_MAX = 2 ^ 31 - 1"

definition base64_encode :: "base64_bio \<Rightarrow> buf \<Rightarrow> buf" where
  "base64_encode B inp =
     (case buf_data inp of
        None \<Rightarrow> buf_zero
      | Some d \<Rightarrow> if buf_len inp > BUF_INT_MAX then buf_zero else buf_of (bio_encode B (take (buf_len inp) d)))"

text \<open>On an error the length is reset too, so that both kinds of error are the zero buffer.\<close>

definition base64_decode :: "base64_bio \<Rightarrow> buf \<Rightarrow> buf" where
  "base64_decode B inp =
     (let dup = buf_dup_from_const inp in
      case buf_data dup of
        None \<Rightarrow> buf_zero
      | Some d \<Rightarrow>
          if buf_len dup > BUF_INT_MAX then buf_zero
          else let out = bio_decode B d in if out = [] then buf_zero else buf_of out)"

definition b64_inverse :: "base64_bio \<Rightarrow> bool" where
  "b64_inverse B \<longleftrightarrow> (\<forall>s. s \<noteq> [] \<longrightarrow> bio_decode B (bio_encode B s) = s)"

definition b64_char :: "char \<Rightarrow> bool" where
  "b64_char c \<longleftrightarrow> c_isdigit c \<or> c_isupper c \<or> c_islower c \<or> c \<in> {CHR ''+'', CHR ''/'', CHR ''=''}"

definition b64_text :: "base64_bio \<Rightarrow> bool" where
  "b64_text B \<longleftrightarrow> (\<forall>s. (\<forall>c \<in> set (bio_encode B s). b64_char c) \<and> length (bio_encode B s) \<le> 2 * length s + 4)"

subsection \<open>Challenges\<close>

text \<open>\<open>struct auth_status\<close>; the reason is a pointer that is set with \<open>auth_status_invalid\<close> only.\<close>

datatype auth_status = auth_status_ok auth | auth_status_invalid string | auth_status_error

text \<open>
  The challenge behind the authorisation id, \<open>data\<close>, of which \<open>authz\<close> has been read.
\<close>

definition sasl_plain_decode_rest :: "(string \<Rightarrow> string option) \<Rightarrow> string option \<Rightarrow> string \<Rightarrow> auth_status" where
  "sasl_plain_decode_rest saslprep authz data =
     (if data = [] then auth_status_invalid ''Challenge has no authentication id, mate''
      else
        let data1 = tl data;
            authn = strn_to_str data1 (length data1);
            data2 = drop (length authn) data1
        in case saslprep authn of
             None \<Rightarrow> auth_status_error
           | Some authn' \<Rightarrow>
               if authn' = [] then auth_status_invalid ''Empty authentication id, mate''
               else if data2 = [] then auth_status_invalid ''Challenge has no password, mate''
               else
                 let data3 = tl data2;
                     pw = strn_to_str data3 (length data3)
                 in if length pw < length data3 then auth_status_invalid ''Trailing garbage in challenge, mate''
                    else auth_status_ok (auth_set_sasl_plain authz (Some authn') (Some pw)))"

text \<open>
  The pointer is moved by the length of the prepared authorisation id, not by the length of the one
  in the challenge; \<open>None\<close> if that leaves the buffer.
\<close>

definition sasl_plain_challenge_decode ::
    "base64_bio \<Rightarrow> (string \<Rightarrow> string option) \<Rightarrow> string \<Rightarrow> auth_status option" where
  "sasl_plain_challenge_decode B saslprep challenge =
     (let out = base64_decode B (buf_of challenge) in
      case buf_data out of
        None \<Rightarrow> Some (if buf_len out \<noteq> 0 then auth_status_error
                      else auth_status_invalid ''Invalid base64 encoded challenge, mate'')
      | Some data \<Rightarrow>
          if buf_len out = 0 then Some (auth_status_invalid ''Empty challenge, mate'')
          else if hd data = NUL then Some (sasl_plain_decode_rest saslprep None data)
          else case saslprep (strn_to_str data (buf_len out)) of
                 None \<Rightarrow> Some auth_status_error
               | Some authz \<Rightarrow>
                   if length authz > buf_len out then None
                   else Some (sasl_plain_decode_rest saslprep (Some authz) (drop (length authz) data)))"

text \<open>The credentials must not be NULL; the result is NULL (an inner \<open>None\<close>) on an error.\<close>

definition sasl_plain_challenge_encode :: "base64_bio \<Rightarrow> auth \<Rightarrow> string option option" where
  "sasl_plain_challenge_encode B a =
     do { authn \<leftarrow> authentication_id a;
          pw \<leftarrow> passwd a;
          let authz = (case authorisation_id a of None \<Rightarrow> [] | Some z \<Rightarrow> z);
          let out = base64_encode B (buf_of (authz @ NUL # authn @ NUL # pw));
          Some (case buf_data out of None \<Rightarrow> None | Some d \<Rightarrow> Some (strn_to_str d (buf_len out))) }"

subsection \<open>Round trip\<close>

lemma b64_char_facts:
  assumes "b64_char c"
  shows "c \<noteq> NUL" "c \<noteq> CR" "c \<noteq> LF" "c \<noteq> SP" "c \<noteq> DQ" "c \<noteq> BS" "c \<noteq> CHR ''%''" "c \<noteq> CHR ''{''"
proof -
  have "\<not> b64_char NUL" "\<not> b64_char CR" "\<not> b64_char LF" "\<not> b64_char SP" "\<not> b64_char DQ" "\<not> b64_char BS"
    "\<not> b64_char CHR ''%''" "\<not> b64_char CHR ''{''"
    by code_simp+
  with assms show "c \<noteq> NUL" "c \<noteq> CR" "c \<noteq> LF" "c \<noteq> SP" "c \<noteq> DQ" "c \<noteq> BS" "c \<noteq> CHR ''%''" "c \<noteq> CHR ''{''"
    by auto
qed

lemma b64_no_nul: "b64_text B \<Longrightarrow> no_nul (bio_encode B s)"
  using b64_char_facts(1) by (fastforce simp: b64_text_def no_nul_def)

lemma strn_to_str_all: "strn_to_str s (length s) = cstr s"
  by (simp add: strn_to_str_def)

lemma decode_rest_parts:
  assumes "no_nul authn" and "no_nul pw" and "saslprep authn = Some n" and "n \<noteq> []"
  shows "sasl_plain_decode_rest saslprep z (c # authn @ NUL # pw) =
     auth_status_ok (auth_set_sasl_plain z (Some n) (Some pw))"
proof -
  have "cstr (authn @ NUL # pw) = authn" using assms(1) by (simp add: cstr_append_no_nul) (simp add: cstr_def)
  moreover have "cstr pw = pw" using assms(2) by simp
  ultimately show ?thesis
    using assms(3,4) by (simp add: sasl_plain_decode_rest_def Let_def strn_to_str_all del: length_append)
qed

lemma decode_encoded:
  assumes "b64_inverse B" and "b64_text B" and "length data \<le> (BUF_INT_MAX - 4) div 2" and "data \<noteq> []"
  shows "base64_decode B (buf_of (bio_encode B data)) = buf_of data"
    and "base64_encode B (buf_of data) = buf_of (bio_encode B data)"
proof -
  have l: "length data \<le> BUF_INT_MAX" "2 * length data + 4 \<le> BUF_INT_MAX"
    using assms(3) by (auto simp: BUF_INT_MAX_def)
  have "length (bio_encode B data) \<le> BUF_INT_MAX" using assms(2) l(2) by (auto simp: b64_text_def intro: order_trans)
  then show "base64_decode B (buf_of (bio_encode B data)) = buf_of data"
    using assms(1,4) by (simp add: base64_decode_def buf_dup_from_const_def buf_of_def b64_inverse_def Let_def)
  show "base64_encode B (buf_of data) = buf_of (bio_encode B data)"
    using l(1) by (simp add: base64_encode_def buf_of_def)
qed


lemma decode_authz:
  assumes "base64_decode B (buf_of ch) = buf_of (s @ NUL # r)" and "s \<noteq> []" and "no_nul s"
    and "saslprep s = Some z" and "length z \<le> length (s @ NUL # r)"
  shows "sasl_plain_challenge_decode B saslprep ch =
     Some (sasl_plain_decode_rest saslprep (Some z) (drop (length z) (s @ NUL # r)))"
proof -
  have "hd (s @ NUL # r) \<noteq> NUL" using assms(2,3) by (cases s) (auto simp: no_nul_def)
  moreover have "strn_to_str (s @ NUL # r) (length (s @ NUL # r)) = s"
    using assms(3) by (simp add: strn_to_str_all cstr_append_no_nul del: length_append) (simp add: cstr_def)
  ultimately show ?thesis
    using assms(1,4,5) by (simp add: sasl_plain_challenge_decode_def buf_of_def Let_def del: length_append drop_append)
qed

lemma sasl_plain_encoded:
  assumes "b64_inverse B" and "b64_text B"
    and "authentication_id a = Some authn" and "passwd a = Some pw" and "no_nul authn" and "no_nul pw"
    and "saslprep authn = Some n" and "n \<noteq> []"
    and "case authorisation_id a of None \<Rightarrow> z = None
         | Some s \<Rightarrow> s \<noteq> [] \<and> no_nul s \<and> saslprep s = z \<and> map_option length z = Some (length s)"
    and "length (case authorisation_id a of None \<Rightarrow> [] | Some s \<Rightarrow> s) + length authn + length pw < 2 ^ 29"
  shows "let ch = bio_encode B ((case authorisation_id a of None \<Rightarrow> [] | Some s \<Rightarrow> s) @ NUL # authn @ NUL # pw) in
    sasl_plain_challenge_encode B a = Some (Some ch) \<and>
    sasl_plain_challenge_decode B saslprep ch = Some (auth_status_ok (auth_set_sasl_plain z (Some n) (Some pw)))"
proof -
  let ?authz = "case authorisation_id a of None \<Rightarrow> [] | Some s \<Rightarrow> s"
  let ?data = "?authz @ NUL # authn @ NUL # pw"
  have len: "length ?data \<le> (BUF_INT_MAX - 4) div 2" using assms(10) by (simp add: BUF_INT_MAX_def)
  note code = decode_encoded [OF assms(1,2) len, simplified]
  have enc: "sasl_plain_challenge_encode B a = Some (Some (bio_encode B ?data))"
    using assms(3,4) code(2) b64_no_nul [OF assms(2)]
    by (simp add: sasl_plain_challenge_encode_def buf_of_def strn_to_str_all)
  have rest: "sasl_plain_decode_rest saslprep y (NUL # authn @ NUL # pw) =
      auth_status_ok (auth_set_sasl_plain y (Some n) (Some pw))" for y
    by (rule decode_rest_parts [where saslprep = saslprep and n = n, OF assms(5-8)])
  have "sasl_plain_challenge_decode B saslprep (bio_encode B ?data) =
      Some (auth_status_ok (auth_set_sasl_plain z (Some n) (Some pw)))"
  proof (cases "authorisation_id a")
    case None
    with assms(9) show ?thesis using code(1) rest
      by (simp add: sasl_plain_challenge_decode_def buf_of_def Let_def)
  next
    case (Some s)
    with assms(9) obtain y where y: "s \<noteq> []" "no_nul s" "saslprep s = Some y" "z = Some y" "length y = length s"
      by auto
    show ?thesis using decode_authz [where saslprep = saslprep and z = y, OF code(1) [unfolded Some option.case] y(1-3)] rest y Some by simp
  qed
  with enc show ?thesis by (simp add: Let_def)
qed

text \<open>
  A challenge made from credentials decodes to the same credentials, prepared by SASLprep, if the
  preparation does not change the length of the authorisation id; without an authorisation id, always.
\<close>

lemma sasl_plain_roundtrip:
  assumes "b64_inverse B" and "b64_text B"
    and "authentication_id a = Some authn" and "passwd a = Some pw" and "no_nul authn" and "no_nul pw"
    and "saslprep authn = Some n" and "n \<noteq> []"
    and "case authorisation_id a of None \<Rightarrow> z = None
         | Some s \<Rightarrow> s \<noteq> [] \<and> no_nul s \<and> saslprep s = z \<and> map_option length z = Some (length s)"
    and "length (case authorisation_id a of None \<Rightarrow> [] | Some s \<Rightarrow> s) + length authn + length pw < 2 ^ 29"
  shows "\<exists>ch. sasl_plain_challenge_encode B a = Some (Some ch) \<and> no_nul ch \<and>
    sasl_plain_challenge_decode B saslprep ch = Some (auth_status_ok (auth_set_sasl_plain z (Some n) (Some pw)))"
  using sasl_plain_encoded [OF assms] b64_no_nul [OF assms(2)] by (auto simp: Let_def)

text \<open>A challenge whose rest has no or more than one NUL behind the first byte is refused.\<close>

lemma decode_rest_no_nul:
  assumes "no_nul r"
  shows "sasl_plain_decode_rest saslprep z (c # r) \<noteq> auth_status_ok a"
  using assms by (auto simp: sasl_plain_decode_rest_def Let_def strn_to_str_all split: option.split)

lemma decode_rest_two_nuls:
  assumes "no_nul r" and "no_nul s"
  shows "sasl_plain_decode_rest saslprep z (c # r @ NUL # s @ NUL # t) \<noteq> auth_status_ok a"
proof -
  have "cstr (r @ NUL # s @ NUL # t) = r" "cstr (s @ NUL # t) = s"
    using assms by (simp_all add: cstr_append_no_nul) (simp_all add: cstr_def)
  then show ?thesis
    by (auto simp: sasl_plain_decode_rest_def Let_def strn_to_str_all split: option.split simp del: length_append) simp
qed

lemma decode_rest_ok:
  assumes "no_nul authn" and "no_nul pw"
  shows "sasl_plain_decode_rest saslprep z (c # authn @ NUL # pw) = auth_status_ok r \<longleftrightarrow>
     (\<exists>n. saslprep authn = Some n \<and> n \<noteq> [] \<and> r = auth_set_sasl_plain z (Some n) (Some pw))"
proof -
  have "cstr (authn @ NUL # pw) = authn" using assms(1) by (simp add: cstr_append_no_nul) (simp add: cstr_def)
  moreover have "cstr pw = pw" using assms(2) by simp
  ultimately show ?thesis
    by (auto simp add: sasl_plain_decode_rest_def Let_def strn_to_str_all simp del: length_append split: option.split)
qed

lemma decode_authz_end:
  assumes "base64_decode B (buf_of ch) = buf_of data" and "data \<noteq> []" and "hd data \<noteq> NUL"
    and "saslprep (cstr data) = Some z"
  shows "sasl_plain_challenge_decode B saslprep ch =
     (if length data < length z then None else Some (sasl_plain_decode_rest saslprep (Some z) (drop (length z) data)))"
  using assms by (simp add: sasl_plain_challenge_decode_def buf_of_def Let_def strn_to_str_all)


subsection \<open>Base64 as such\<close>

text \<open>The encoding of RFC 4648, to show that the laws relied on are those of base64.\<close>

definition b64_alphabet :: string where
  "b64_alphabet = ''ABCDEFGHIJKLMNOPQRSTUVWXYZabcdefghijklmnopqrstuvwxyz0123456789+/''"

definition b64_digit :: "nat \<Rightarrow> char" where
  "b64_digit n = b64_alphabet ! (n mod 64)"

definition b64_value :: "char \<Rightarrow> nat" where
  "b64_value c = length (takeWhile (\<lambda>d. d \<noteq> c) b64_alphabet)"

fun b64_encode :: "string \<Rightarrow> string" where
  "b64_encode (a # b # c # r) =
     b64_digit (ascii a div 4) # b64_digit (ascii a mod 4 * 16 + ascii b div 16) #
     b64_digit (ascii b mod 16 * 4 + ascii c div 64) # b64_digit (ascii c) # b64_encode r"
| "b64_encode [a, b] =
     [b64_digit (ascii a div 4), b64_digit (ascii a mod 4 * 16 + ascii b div 16), b64_digit (ascii b mod 16 * 4), CHR ''='']"
| "b64_encode [a] = [b64_digit (ascii a div 4), b64_digit (ascii a mod 4 * 16), CHR ''='', CHR ''='']"
| "b64_encode [] = []"

fun b64_decode :: "string \<Rightarrow> string" where
  "b64_decode (p # q # x # y # s) =
     char_of (b64_value p * 4 + b64_value q div 16) #
     (if x = CHR ''='' then []
      else char_of (b64_value q mod 16 * 16 + b64_value x div 4) #
        (if y = CHR ''='' then [] else char_of (b64_value x mod 4 * 64 + b64_value y) # b64_decode s))"
| "b64_decode s = []"

definition rfc4648 :: base64_bio where
  "rfc4648 = \<lparr>bio_encode = b64_encode, bio_decode = b64_decode\<rparr>"

lemma b64_digits_ok:
  "\<forall>n \<in> set [0..<64]. b64_value (b64_digit n) = n \<and> b64_digit n \<noteq> CHR ''='' \<and> b64_char (b64_digit n)"
  by code_simp

lemma b64_digit_facts [simp]:
  "n < 64 \<Longrightarrow> b64_value (b64_digit n) = n" "b64_digit n \<noteq> CHR ''=''" "b64_char (b64_digit n)"
proof -
  have "b64_digit n = b64_digit (n mod 64)" by (simp add: b64_digit_def)
  then show "n < 64 \<Longrightarrow> b64_value (b64_digit n) = n" "b64_digit n \<noteq> CHR ''=''" "b64_char (b64_digit n)"
    using b64_digits_ok by auto
qed

lemma b64_digit_mod: "b64_digit n = b64_digit (n mod 64)"
  by (simp add: b64_digit_def)

lemma digit_join:
  fixes x y k :: nat
  assumes "y < k"
  shows "(x * k + y) div k = x" "(x * k + y) mod k = y"
  using assms by simp_all

lemma byte_parts:
  "ascii a div 4 < 64" "ascii a div 16 < 16" "ascii a div 64 < 4" "ascii a mod 4 < 4" "ascii a mod 16 < 16"
  "x < 4 \<Longrightarrow> y < 16 \<Longrightarrow> x * 16 + y < 64" "x < 16 \<Longrightarrow> y < 4 \<Longrightarrow> x * 4 + y < 64"
  "x < 4 \<Longrightarrow> x * 16 < 64" "x < 16 \<Longrightarrow> x * 4 < 64"
  for x y :: nat
  using ascii_less [of a] by (auto simp: less_mult_imp_div_less simp del: ascii_less)

lemma byte_low: "ascii c div 64 * 64 + ascii c mod 64 = ascii c"
  by simp

lemma b64_decode_encode: "b64_decode (b64_encode s) = s"
proof (induction s rule: b64_encode.induct)
  case (1 a b c r)
  have "b64_value (b64_digit (ascii c)) = ascii c mod 64" by (subst b64_digit_mod) simp
  then show ?case
    using 1 by (simp add: byte_parts digit_join byte_low)
next
  case (2 a b)
  then show ?case using digit_join [of 0 4] by (simp add: byte_parts digit_join)
next
  case (3 a)
  then show ?case using digit_join [of 0 16] by (simp add: byte_parts digit_join)
qed simp

lemma b64_encode_text:
  "(\<forall>c \<in> set (b64_encode s). b64_char c) \<and> length (b64_encode s) \<le> 2 * length s + 4"
proof -
  have "b64_char CHR ''=''" by code_simp
  then show ?thesis by (induction s rule: b64_encode.induct) auto
qed

lemma rfc4648_laws: "b64_inverse rfc4648" "b64_text rfc4648"
  by (simp_all add: b64_inverse_def b64_text_def rfc4648_def b64_decode_encode b64_encode_text)

lemma sasl_plain_roundtrip_witness:
  "\<exists>ch. sasl_plain_challenge_encode rfc4648 (auth_set_sasl_plain (Some ''boss'') (Some ''user'') (Some ''secret'')) = Some (Some ch) \<and>
     no_nul ch \<and>
     sasl_plain_challenge_decode rfc4648 Some ch =
       Some (auth_status_ok (auth_set_sasl_plain (Some ''boss'') (Some ''user'') (Some ''secret'')))"
  using sasl_plain_roundtrip [of rfc4648 "auth_set_sasl_plain (Some ''boss'') (Some ''user'') (Some ''secret'')" "''user''"
      "''secret''" Some "''user''" "Some ''boss''"] rfc4648_laws
  by (simp add: auth_set_sasl_plain_def no_nul_def)

text \<open>As SASLprep does, U+00BD becomes the digit one, U+2044 and the digit two.\<close>

definition prep_half :: "string \<Rightarrow> string option" where
  "prep_half s = Some (if s = [CHR 0xC2, CHR 0xBD] then [CHR ''1'', CHR 0xE2, CHR 0x81, CHR 0x84, CHR ''2''] else s)"


end
