(* ===== verification/Managesieve_Write.thy ===== *)
theory Managesieve_Write
  imports Sasl_Plain Protocol_Params
begin

text \<open>
  Output of the ManageSieve protocol: ACAP strings (\<^verbatim>\<open>perdition/acap.c\<close>), response codes
  (\<^verbatim>\<open>managesieve_response_code.c\<close>) and the writers of \<^verbatim>\<open>managesieve_write.c\<close> and \<^verbatim>\<open>managesieve_write.h\<close>.
\<close>

definition PERDITION_CLIENT :: flag_t where "PERDITION_CLIENT = 1"
definition PERDITION_SERVER :: flag_t where "PERDITION_SERVER = 2"

subsection \<open>ACAP strings\<close>

text \<open>A quoted string is in \<open>ac_a\<close>; a literal has its length in \<open>ac_a\<close> and its text in \<open>ac_b\<close>.\<close>

record acap =
  ac_a :: "string option"
  ac_b :: "string option"

definition acap_zero :: acap where
  "acap_zero = \<lparr>ac_a = None, ac_b = None\<rparr>"

definition acap_is_zero :: "acap \<Rightarrow> bool" where
  "acap_is_zero ac \<longleftrightarrow> ac_a ac = None \<and> ac_b ac = None"

fun log_10 :: "nat \<Rightarrow> nat" where
  "log_10 n = (if n div 10 = 0 then 0 else log_10 (n div 10) + 1)"

declare log_10.simps [simp del]

definition n_len :: "nat \<Rightarrow> nat" where
  "n_len n = log_10 n + 1"

definition acap_quoted_from_str :: "string \<Rightarrow> acap" where
  "acap_quoted_from_str str = \<lparr>ac_a = Some (DQ # str @ [DQ]), ac_b = None\<rparr>"

text \<open>\<open>sprintf\<close> into memory of \<open>1 + n_len n + strlen(extra) + 2\<close> bytes; \<open>None\<close> if it does not fit.\<close>

definition acap_any_literal_from_str :: "string \<Rightarrow> string \<Rightarrow> acap option" where
  "acap_any_literal_from_str str extra =
     (let n = length str;
          a = CHR ''{'' # dec_string n @ extra @ ''}''
      in if length a + 1 > 1 + n_len n + length extra + 2 then None
         else Some \<lparr>ac_a = Some a, ac_b = Some str\<rparr>)"

definition acap_literal_from_str :: "string \<Rightarrow> acap option" where
  "acap_literal_from_str str = acap_any_literal_from_str str []"

definition acap_non_sync_literal_from_str :: "string \<Rightarrow> acap option" where
  "acap_non_sync_literal_from_str str = acap_any_literal_from_str str ''+''"

definition acap_from_str :: "string \<Rightarrow> flag_t \<Rightarrow> acap option" where
  "acap_from_str str flag =
     (if strchr str CR = None \<and> strchr str LF = None then Some (acap_quoted_from_str str)
      else if flag AND PERDITION_CLIENT \<noteq> 0 then acap_non_sync_literal_from_str str
      else acap_literal_from_str str)"

subsection \<open>Response codes\<close>

record managesieve_response_code =
  rc_atom :: "string option"
  rc_arg :: "string list"

text \<open>
  The loop over the arguments: \<open>out\<close> are the finished strings, \<open>cur\<close> is the one being extended. A
  literal starts a new string.
\<close>

fun response_str_loop :: "flag_t \<Rightarrow> string list \<Rightarrow> string \<Rightarrow> string list \<Rightarrow> string list option" where
  "response_str_loop flag out cur [] = Some (out @ [cur @ '')''])"
| "response_str_loop flag out cur (arg # args) =
     do { ac \<leftarrow> acap_from_str arg flag;
          a \<leftarrow> ac_a ac;
          let cur' = cur @ SP # a;
          case ac_b ac of
            None \<Rightarrow> response_str_loop flag out cur' args
          | Some b \<Rightarrow> response_str_loop flag (out @ [cur']) b args }"

definition managesieve_response_str :: "managesieve_response_code \<Rightarrow> flag_t \<Rightarrow> string list option option" where
  "managesieve_response_str rc flag =
     (case rc_atom rc of
        None \<Rightarrow> Some None
      | Some atom \<Rightarrow> map_option Some (response_str_loop flag [] (CHR ''('' # atom) (rc_arg rc)))"

subsection \<open>Writers\<close>

definition MANAGESIEVE_CMD_AUTHENTICATE :: string where "MANAGESIEVE_CMD_AUTHENTICATE = ''AUTHENTICATE''"
definition MANAGESIEVE_CMD_CAPABILITY :: string where "MANAGESIEVE_CMD_CAPABILITY = ''CAPABILITY''"
definition MANAGESIEVE_CMD_LOGOUT :: string where "MANAGESIEVE_CMD_LOGOUT = ''LOGOUT''"
definition MANAGESIEVE_CMD_NOOP :: string where "MANAGESIEVE_CMD_NOOP = ''NOOP''"
definition MANAGESIEVE_CMD_STARTTLS :: string where "MANAGESIEVE_CMD_STARTTLS = ''STARTTLS''"
definition MANAGESIEVE_QUIT :: string where "MANAGESIEVE_QUIT = MANAGESIEVE_CMD_LOGOUT"
definition MANAGESIEVE_NO :: string where "MANAGESIEVE_NO = ''NO''"
definition MANAGESIEVE_BYE :: string where "MANAGESIEVE_BYE = ''BYE''"

text \<open>The non-NULL strings, separated by spaces, as one line.\<close>

definition managesieve_write_list :: "ioid \<Rightarrow> string option list \<Rightarrow> world \<Rightarrow> (int \<times> world) option" where
  "managesieve_write_list i strs w =
     (let ws = map the (filter (\<lambda>s. s \<noteq> None) strs) in
      if ws = [] then Some (-1, w)
      else do { (rc, w1) \<leftarrow> managesieve_write_raw i (join SP ws) w;
                Some (if rc < 0 then -1 else 0, w1) })"

text \<open>
  The loop over the strings of a response code, from the second one on. The message ends the line of
  the last string.
\<close>

fun write_rc_loop :: "ioid \<Rightarrow> string option \<Rightarrow> string option \<Rightarrow> string list \<Rightarrow> world \<Rightarrow> (int \<times> world) option" where
  "write_rc_loop i cmd msg [] w = Some (0, w)"
| "write_rc_loop i cmd msg (s # strs) w =
     do { (rc, w1) \<leftarrow> managesieve_write_list i [cmd, Some s, if strs = [] then msg else None] w;
          if rc < 0 then Some (-1, w1) else write_rc_loop i None msg strs w1 }"

definition managesieve_write ::
    "ioid \<Rightarrow> flag_t \<Rightarrow> string option \<Rightarrow> managesieve_response_code option \<Rightarrow> string option \<Rightarrow> world
      \<Rightarrow> (int \<times> world) option" where
  "managesieve_write i flag command rc message w =
     do { msg \<leftarrow> (case message of None \<Rightarrow> Some acap_zero | Some m \<Rightarrow> acap_from_str m flag);
          (status, w1) \<leftarrow>
            (case rc of
               None \<Rightarrow> managesieve_write_list i [command, ac_a msg] w
             | Some r \<Rightarrow>
                 do { strs \<leftarrow> managesieve_response_str r flag;
                      case strs of
                        None \<Rightarrow> Some (-1, w)
                      | Some ss \<Rightarrow> write_rc_loop i command (ac_a msg) (drop 1 ss) w });
          if status < 0 then Some (-1, w1)
          else case ac_b msg of
                 None \<Rightarrow> Some (0, w1)
               | Some b \<Rightarrow> do { (rc2, w2) \<leftarrow> managesieve_write_raw i b w1; Some (if rc2 < 0 then -1 else 0, w2) } }"

definition managesieve_write_str ::
    "ioid \<Rightarrow> flag_t \<Rightarrow> token option \<Rightarrow> string option \<Rightarrow> string option \<Rightarrow> world \<Rightarrow> (int \<times> world) option" where
  "managesieve_write_str i flag tag command str w =
     (case command of
        None \<Rightarrow> (case str of
                   None \<Rightarrow> Some (-1, w)
                 | Some s \<Rightarrow> str_write i WRITE_STR_NO_CLLF 1 ''%s'' [Arg_s s] w)
      | Some cmd \<Rightarrow> managesieve_write i flag (Some cmd) None str w)"

definition managesieve_ok :: "ioid \<Rightarrow> managesieve_response_code option \<Rightarrow> string \<Rightarrow> world \<Rightarrow> (int \<times> world) option" where
  "managesieve_ok i rc message w = managesieve_write i PERDITION_SERVER (Some MANAGESIEVE_OK) rc (Some message) w"

definition managesieve_no :: "ioid \<Rightarrow> managesieve_response_code option \<Rightarrow> string \<Rightarrow> world \<Rightarrow> (int \<times> world) option" where
  "managesieve_no i rc message w = managesieve_write i PERDITION_SERVER (Some MANAGESIEVE_NO) rc (Some message) w"

definition managesieve_bye :: "ioid \<Rightarrow> managesieve_response_code option \<Rightarrow> string \<Rightarrow> world \<Rightarrow> (int \<times> world) option" where
  "managesieve_bye i rc message w = managesieve_write i PERDITION_SERVER (Some MANAGESIEVE_BYE) rc (Some message) w"

subsection \<open>The size of a literal header\<close>

lemma n_len_dec: "length (dec_string n) = n_len n"
  unfolding n_len_def
proof (induction n rule: dec_string.induct)
  case (1 n)
  show ?case
  proof (cases "n < 10")
    case True
    then show ?thesis by (simp add: dec_string.simps [of n] log_10.simps [of n])
  next
    case False
    then have "n div 10 \<noteq> 0" by simp
    with 1 [OF False] False show ?thesis by (simp add: dec_string.simps [of n] log_10.simps [of n])
  qed
qed

definition literal_head :: "flag_t \<Rightarrow> string \<Rightarrow> string" where
  "literal_head flag s =
     CHR ''{'' # dec_string (length s) @ (if flag AND PERDITION_CLIENT \<noteq> 0 then ''+}'' else ''}'')"

lemma acap_from_str_eq:
  "acap_from_str s flag =
     Some (if CR \<in> set s \<or> LF \<in> set s then \<lparr>ac_a = Some (literal_head flag s), ac_b = Some s\<rparr>
           else \<lparr>ac_a = Some (DQ # s @ [DQ]), ac_b = None\<rparr>)"
proof -
  have "strchr s c = None \<longleftrightarrow> c \<notin> set s" if "c \<noteq> NUL" for c
    using that strchr_None [of s c] by auto
  then show ?thesis
    by (simp add: acap_from_str_def acap_quoted_from_str_def acap_non_sync_literal_from_str_def
        acap_literal_from_str_def acap_any_literal_from_str_def Let_def n_len_dec literal_head_def)
qed

subsection \<open>Lines sent\<close>

lemma managesieve_write_raw_eq:
  "managesieve_write_raw i s w =
     (if length s < STR_WRITE_BUF_LEN - 2
      then Some (if accepts i (s @ CRLF) w then 0 else -1, put i (s @ CRLF) w) else None)"
  by (auto simp: managesieve_write_raw_def str_write_def str_vwrite_def str_vformat_def
      STR_WRITE_BUF_LEN_def MAX_LINE_LENGTH_def)

lemma managesieve_write_raw_talk:
  assumes "reliable i w" and "length s < STR_WRITE_BUF_LEN - 2"
  shows "\<exists>w'. managesieve_write_raw i s w = Some (0, w') \<and> talk i w w' (s @ CRLF)"
  using assms reliable_accepts [OF assms(1)] put_talk [OF assms(1)] by (auto simp: managesieve_write_raw_eq)

text \<open>A string as it goes over the wire.\<close>

definition acap_text :: "flag_t \<Rightarrow> string \<Rightarrow> string" where
  "acap_text flag s = (if CR \<in> set s \<or> LF \<in> set s then literal_head flag s @ CRLF @ s else DQ # s @ [DQ])"

lemma managesieve_write_talk:
  assumes "reliable i w" and "length cmd + length (acap_text flag m) < STR_WRITE_BUF_LEN - 4"
  shows "\<exists>w'. managesieve_write i flag (Some cmd) None (Some m) w = Some (0, w') \<and>
     talk i w w' (cmd @ SP # acap_text flag m @ CRLF)"
proof (cases "CR \<in> set m \<or> LF \<in> set m")
  case False
  then have "length (cmd @ SP # DQ # m @ [DQ]) < STR_WRITE_BUF_LEN - 2"
    using assms(2) by (simp add: acap_text_def)
  from managesieve_write_raw_talk [OF assms(1) this] False show ?thesis
    by (auto simp: managesieve_write_def managesieve_write_list_def acap_from_str_eq acap_text_def)
next
  case True
  have len: "length (cmd @ SP # literal_head flag m) < STR_WRITE_BUF_LEN - 2" "length m < STR_WRITE_BUF_LEN - 2"
    using assms(2) True by (auto simp: acap_text_def CRLF_def)
  obtain w1 where 1: "managesieve_write_raw i (cmd @ SP # literal_head flag m) w = Some (0, w1)"
      "talk i w w1 ((cmd @ SP # literal_head flag m) @ CRLF)"
    using managesieve_write_raw_talk [OF assms(1) len(1)] by blast
  obtain w2 where 2: "managesieve_write_raw i m w1 = Some (0, w2)" "talk i w1 w2 (m @ CRLF)"
    using managesieve_write_raw_talk [OF talk_reliable [OF 1(2) assms(1)] len(2)] by blast
  show ?thesis
    using 1(1) 2(1) talk_trans [OF 1(2) 2(2)] True
    by (simp add: managesieve_write_def managesieve_write_list_def acap_from_str_eq acap_text_def)
qed

lemma managesieve_write_cmd_talk:
  assumes "reliable i w" and "length cmd < STR_WRITE_BUF_LEN - 2"
  shows "\<exists>w'. managesieve_write i flag (Some cmd) None None w = Some (0, w') \<and> talk i w w' (cmd @ CRLF)"
  using managesieve_write_raw_talk [OF assms]
  by (auto simp: managesieve_write_def managesieve_write_list_def acap_zero_def)

subsection \<open>Response codes\<close>

definition one_line :: "string \<Rightarrow> bool" where
  "one_line s \<longleftrightarrow> CR \<notin> set s \<and> LF \<notin> set s"

lemma response_str_loop_one_line:
  "\<forall>a \<in> set args. one_line a \<Longrightarrow>
     response_str_loop flag out cur args = Some (out @ [cur @ concat (map (\<lambda>a. SP # DQ # a @ [DQ]) args) @ '')''])"
  by (induction args arbitrary: cur) (simp_all add: acap_from_str_eq one_line_def)

text \<open>
  The loop over the strings of a response code starts with the second string: unless an argument needs
  a literal, there is none, and not even the command is sent.
\<close>

lemma managesieve_write_code_lost:
  assumes "\<forall>a \<in> set (rc_arg r). one_line a" and "rc_atom r = Some atom" and "one_line m"
  shows "managesieve_write i flag (Some cmd) (Some r) (Some m) w = Some (0, w)"
  using assms response_str_loop_one_line [OF assms(1)]
  by (simp add: managesieve_write_def managesieve_response_str_def acap_from_str_eq one_line_def)

text \<open>With a single argument that needs a literal, the first string, which announces the literal, is lost.\<close>

lemma managesieve_write_code_literal:
  assumes "\<not> one_line a" and "rc_atom r = Some atom" and "rc_arg r = [a]" and "one_line m" and "reliable i w"
    and "length cmd + length a + length m < STR_WRITE_BUF_LEN - 10"
  shows "\<exists>w'. managesieve_write i flag (Some cmd) (Some r) (Some m) w = Some (0, w') \<and>
     talk i w w' (cmd @ SP # a @ '') '' @ DQ # m @ DQ # CRLF)"
proof -
  have "length (cmd @ SP # a @ '') '' @ DQ # m @ [DQ]) < STR_WRITE_BUF_LEN - 2" using assms(6) by simp
  from managesieve_write_raw_talk [OF assms(5) this] assms(1-4) show ?thesis
    by (auto simp: managesieve_write_def managesieve_response_str_def acap_from_str_eq one_line_def
        managesieve_write_list_def)
qed

subsection \<open>Frame\<close>

lemma managesieve_raw_keeps [keeps_rules]: "only_io i w w1 \<Longrightarrow> keeps i w (managesieve_write_raw i s w1)"
  unfolding managesieve_write_raw_def by (auto intro!: keeps_rules)

lemma managesieve_list_keeps [keeps_rules]: "only_io i w w1 \<Longrightarrow> keeps i w (managesieve_write_list i ss w1)"
  unfolding managesieve_write_list_def Let_def by (auto intro!: keeps_seq keeps_rules)

lemma write_rc_loop_keeps [keeps_rules]: "only_io i w w1 \<Longrightarrow> keeps i w (write_rc_loop i cmd msg ss w1)"
  by (induction ss arbitrary: cmd w1) (auto intro!: keeps_seq keeps_rules)

lemma managesieve_write_keeps [keeps_rules]: "only_io i w w1 \<Longrightarrow> keeps i w (managesieve_write i flag cmd rc m w1)"
  unfolding managesieve_write_def
  by (auto intro!: keeps_seq keeps_rules keeps_bind_pure [where ?'a = acap] keeps_bind_pure [where ?'a = "string list option"]
      split: option.split)

lemma managesieve_writers_keep [keeps_rules]:
  assumes "only_io i w w1"
  shows "keeps i w (managesieve_write_str i flag tag cmd m w1)" "keeps i w (managesieve_ok i rc s w1)"
    "keeps i w (managesieve_no i rc s w1)" "keeps i w (managesieve_bye i rc s w1)"
  using assms unfolding managesieve_write_str_def managesieve_ok_def managesieve_no_def managesieve_bye_def
  by (auto intro!: keeps_rules split: option.split)

end
