(* ===== verification/Acap_Token.thy ===== *)
theory Acap_Token
  imports Managesieve_Write
begin

text \<open>
  Reading ACAP strings, \<^verbatim>\<open>perdition/acap_token.c\<close>: atoms, quoted strings and literals.

  The functions on characters take an \<open>int\<close> and are called with a \<open>char\<close>, which is signed on the
  platforms the program is built for: bytes from 0x80 arrive as negative numbers.
\<close>

datatype acap_type =
  acap_err | acap_atom | acap_quoted | acap_sychronising_literal | acap_non_sychronising_literal

subsection \<open>Characters\<close>

definition schar :: "char \<Rightarrow> int" where
  "schar c = (if ascii c < 128 then int (ascii c) else int (ascii c) - 256)"

definition atom_char :: "int \<Rightarrow> bool" where
  "atom_char c \<longleftrightarrow> c = 0x21 \<or> (0x23 \<le> c \<and> c \<le> 0x27) \<or> (0x2A \<le> c \<and> c \<le> 0x5B) \<or>
     (0x5D \<le> c \<and> c \<le> 0x7A) \<or> (0x7C \<le> c \<and> c \<le> 0x7E)"

definition quoted_special :: "int \<Rightarrow> bool" where
  "quoted_special c \<longleftrightarrow> c = 0x22 \<or> c = 0x5C"

definition utf8_1 :: "int \<Rightarrow> bool" where "utf8_1 c \<longleftrightarrow> 0x80 \<le> c \<and> c \<le> 0xBF"
definition utf8_2 :: "int \<Rightarrow> int \<Rightarrow> bool" where "utf8_2 c0 c1 \<longleftrightarrow> 0xC0 \<le> c0 \<and> c0 \<le> 0xDF \<and> utf8_1 c1"
definition utf8_3 :: "int \<Rightarrow> int \<Rightarrow> int \<Rightarrow> bool" where
  "utf8_3 c0 c1 c2 \<longleftrightarrow> 0xE0 \<le> c0 \<and> c1 \<le> 0xEF \<and> utf8_1 c1 \<and> utf8_1 c2"
definition utf8_4 :: "int \<Rightarrow> int \<Rightarrow> int \<Rightarrow> int \<Rightarrow> bool" where
  "utf8_4 c0 c1 c2 c3 \<longleftrightarrow> 0xF0 \<le> c0 \<and> c1 \<le> 0xF7 \<and> utf8_1 c1 \<and> utf8_1 c2 \<and> utf8_1 c3"

definition safe_char :: "int \<Rightarrow> bool" where
  "safe_char c \<longleftrightarrow> c \<noteq> 0 \<and> c \<le> 0x7f \<and> \<not> quoted_special c"

text \<open>The number of bytes of the character at the start of the buffer, 0 for none.\<close>

definition safe_utf8_char :: "string \<Rightarrow> nat" where
  "safe_utf8_char buf =
     (let n = length buf; b = (\<lambda>i. schar (buf ! i)) in
      if n > 0 \<and> safe_char (b 0) then 1
      else if n > 1 \<and> utf8_2 (b 0) (b 1) then 2
      else if n > 2 \<and> utf8_3 (b 0) (b 1) (b 2) then 3
      else if n > 3 \<and> utf8_4 (b 0) (b 1) (b 2) (b 3) then 4
      else 0)"

definition quoted_char :: "string \<Rightarrow> nat" where
  "quoted_char buf =
     (let j = safe_utf8_char buf in
      if j \<noteq> 0 then j
      else if length buf > 1 \<and> schar (buf ! 0) = 0x5C \<and> quoted_special (schar (buf ! 1)) then 2
      else 0)"

subsection \<open>Tokens\<close>

definition ACAP_LITERAL_MAX :: nat where "ACAP_LITERAL_MAX = 4294967296"
definition ACAP_QUOTED_MAX :: nat where "ACAP_QUOTED_MAX = 1024"
definition ACAP_ATOM_MAX :: nat where "ACAP_ATOM_MAX = 1024"

definition acap_strn_is_atom :: "string \<Rightarrow> bool" where
  "acap_strn_is_atom buf \<longleftrightarrow> length buf \<le> ACAP_ATOM_MAX \<and> (\<forall>c \<in> set buf. atom_char (schar c))"

function quoted_loop :: "string \<Rightarrow> bool" where
  "quoted_loop s = (if s = [] then True else let j = quoted_char s in if j = 0 then False else quoted_loop (drop j s))"
  by pat_completeness auto
termination by (relation "measure length") auto

declare quoted_loop.simps [simp del]

definition acap_strn_is_quoted :: "string \<Rightarrow> bool" where
  "acap_strn_is_quoted buf \<longleftrightarrow>
     \<not> (length buf < 2 \<or> length buf > ACAP_QUOTED_MAX \<or> hd buf \<noteq> DQ \<or> last buf \<noteq> DQ) \<and>
     quoted_loop (butlast (tl buf))"

text \<open>How many characters \<open>strtoul\<close> converts.\<close>

definition c_strtoul_end :: "string \<Rightarrow> nat" where
  "c_strtoul_end s =
     (let ws = length (takeWhile c_isspace s);
          sg = (if char_at s ws = CHR ''-'' \<or> char_at s ws = CHR ''+'' then 1 else 0);
          d = length (takeWhile c_isdigit (drop (ws + sg) s))
      in if d = 0 then 0 else ws + sg + d)"

text \<open>The length in braces; \<open>m\<close> is the length of the token, without a \<open>+\<close>.\<close>

definition acap_literal_status :: "acap_type \<Rightarrow> string \<Rightarrow> nat \<Rightarrow> acap_type \<times> nat" where
  "acap_literal_status ty buf m =
     (let len = c_strtoul (drop 1 buf) in
      if len = ULONG_MAX \<or> len > ACAP_LITERAL_MAX \<or> c_strtoul_end (drop 1 buf) \<noteq> m - 2 then (acap_err, 0)
      else (ty, len))"

definition acap_token_status :: "token \<Rightarrow> acap_type \<times> nat" where
  "acap_token_status t =
     (case tok_buf t of
        None \<Rightarrow> (acap_err, 0)
      | Some buf \<Rightarrow>
          let n = tok_n t in
          if hd buf \<noteq> CHR ''{'' \<or> last buf \<noteq> CHR ''}''
          then (if acap_strn_is_atom buf then (acap_atom, n)
                else if acap_strn_is_quoted buf then (acap_quoted, n - 2)
                else (acap_err, 0))
          else if \<not> token_is_eol t then (acap_err, 0)
          else if n < 3 then (acap_err, 0)
          else if buf ! (n - 2) = CHR ''+''
          then (if n < 4 then (acap_err, 0) else acap_literal_status acap_non_sychronising_literal buf (n - 1))
          else acap_literal_status acap_sychronising_literal buf n)"

subsection \<open>Strings\<close>

text \<open>
  The status is 0, -1 for an invalid token and -2 for another error; \<open>aw_q\<close> is the queue of what
  follows on the line, NULL (\<open>None\<close>) at its end. The argument \<open>flag\<close> of the C functions serves
  logging only.
\<close>

record 'q acap_token_wrapper_status =
  aw_status :: int
  aw_type :: acap_type
  aw_q :: "'q option"
  aw_str :: "string option"

definition acap_token_wrapper_status_is_eol :: "'q acap_token_wrapper_status \<Rightarrow> bool" where
  "acap_token_wrapper_status_is_eol s \<longleftrightarrow> aw_q s = None"

definition aw_error :: "int \<Rightarrow> acap_type \<Rightarrow> 'q acap_token_wrapper_status" where
  "aw_error status ty = \<lparr>aw_status = status, aw_type = ty, aw_q = None, aw_str = None\<rparr>"

definition acap_token_wrapper_strn ::
    "'q queue_ops \<Rightarrow> 'q \<Rightarrow> token \<Rightarrow> nat \<Rightarrow> nat \<Rightarrow> acap_type \<Rightarrow> 'q acap_token_wrapper_status" where
  "acap_token_wrapper_strn Q q t offset len ty =
     \<lparr>aw_status = 0, aw_type = ty, aw_q = (if qlength Q q \<noteq> 0 then Some q else None),
      aw_str = Some (strn_to_str (drop offset (token_str t)) len)\<rparr>"

definition acap_token_wrapper_atom :: "'q queue_ops \<Rightarrow> 'q \<Rightarrow> token \<Rightarrow> 'q acap_token_wrapper_status" where
  "acap_token_wrapper_atom Q q t = acap_token_wrapper_strn Q q t 0 (tok_n t) acap_atom"

definition acap_token_wrapper_quoted :: "'q queue_ops \<Rightarrow> 'q \<Rightarrow> token \<Rightarrow> 'q acap_token_wrapper_status" where
  "acap_token_wrapper_quoted Q q t = acap_token_wrapper_strn Q q t 1 (tok_n t - 2) acap_quoted"

definition acap_token_wrapper_literal ::
    "'q queue_ops \<Rightarrow> ioid \<Rightarrow> token \<Rightarrow> nat \<Rightarrow> acap_type \<Rightarrow> world \<Rightarrow> ('q acap_token_wrapper_status \<times> world) option" where
  "acap_token_wrapper_literal Q i t len ty w =
     (if \<not> token_is_eol t then Some (aw_error (-1) ty, w)
      else if len = 0 then Some ((aw_error 0 ty)\<lparr>aw_str := Some []\<rparr>, w)
      else case token_read i None TOKEN_ACAP_LITERAL len w of
             (None, w1) \<Rightarrow> Some (aw_error (-2) ty, w1)
           | (Some (t1, _), w1) \<Rightarrow>
               do { str \<leftarrow> token_to_string t1 TOKEN_NO_STRIP;
                    case read_line Q i None TOKEN_ACAP_ATOM 0 w1 of
                      (None, w2) \<Rightarrow> Some (aw_error (-2) ty, w2)
                    | (Some (q1, _), w2) \<Rightarrow>
                        (case qpop Q q1 of
                           None \<Rightarrow> Some (aw_error (-2) ty, w2)
                         | Some (q2, t2) \<Rightarrow>
                             if tok_n t2 \<noteq> 0 then Some (aw_error (-1) ty, w2)
                             else Some (\<lparr>aw_status = 0, aw_type = ty,
                                         aw_q = (if qlength Q q2 \<noteq> 0 then Some q2 else None),
                                         aw_str = Some str\<rparr>, w2)) })"

definition acap_token_wrapper ::
    "'q queue_ops \<Rightarrow> ioid \<Rightarrow> 'q \<Rightarrow> world \<Rightarrow> ('q acap_token_wrapper_status \<times> world) option" where
  "acap_token_wrapper Q i q w =
     (case qpop Q q of
        None \<Rightarrow> Some (aw_error (-2) acap_err, w)
      | Some (q1, t) \<Rightarrow>
          (case acap_token_status t of
             (ty, len) \<Rightarrow>
               if ty = acap_err then Some (aw_error (-1) acap_err, w)
               else if ty = acap_atom then Some (acap_token_wrapper_atom Q q1 t, w)
               else if ty = acap_quoted then Some (acap_token_wrapper_quoted Q q1 t, w)
               else acap_token_wrapper_literal Q i t len ty w))"

subsection \<open>Which strings are quoted strings\<close>

lemma schar_le: "schar c \<le> 0x7f"
  using ascii_less [of c] unfolding schar_def by (auto simp del: ascii_less)

lemma schar_eq: "schar c = 0 \<longleftrightarrow> c = NUL" "schar c = 0x22 \<longleftrightarrow> c = DQ" "schar c = 0x5C \<longleftrightarrow> c = BS"
proof -
  have "schar c = int n \<longleftrightarrow> c = char_of n" if "n < 128" for n
  proof -
    have "schar c = int n \<longleftrightarrow> ascii c = n" using that ascii_less [of c] unfolding schar_def by (simp del: ascii_less)
    also have "\<dots> \<longleftrightarrow> c = char_of n"
    proof
      show "c = char_of n" if "ascii c = n" using that char_of_ascii [of c] by simp
      show "ascii c = n" if "c = char_of n" using that \<open>n < 128\<close> by simp
    qed
    finally show ?thesis .
  qed
  note k = this [of 0] this [of "0x22"] this [of "0x5C"]
  have "char_of (0 :: nat) = NUL" "char_of (0x22 :: nat) = DQ" "char_of (0x5C :: nat) = BS" by code_simp+
  with k show "schar c = 0 \<longleftrightarrow> c = NUL" "schar c = 0x22 \<longleftrightarrow> c = DQ" "schar c = 0x5C \<longleftrightarrow> c = BS"
    by simp_all
qed

text \<open>As no \<open>char\<close> is above 0x7f, the tests for multi-byte characters never succeed.\<close>

lemma safe_utf8_char_eq:
  "safe_utf8_char buf = (if buf \<noteq> [] \<and> hd buf \<notin> {NUL, DQ, BS} then 1 else 0)"
proof -
  have "\<not> utf8_2 (schar c) x" "\<not> utf8_3 (schar c) x y" "\<not> utf8_4 (schar c) x y z" for c x y z
    using schar_le [of c] by (auto simp: utf8_2_def utf8_3_def utf8_4_def)
  moreover have "safe_char (schar c) \<longleftrightarrow> c \<notin> {NUL, DQ, BS}" for c
    using schar_le [of c] by (auto simp: safe_char_def quoted_special_def schar_eq)
  ultimately show ?thesis by (cases buf) (simp_all add: safe_utf8_char_def Let_def)
qed

lemma quoted_loop_Cons:
  "quoted_loop [] = True"
  "quoted_loop (c # s) =
     (if c \<notin> {NUL, DQ, BS} then quoted_loop s
      else c = BS \<and> s \<noteq> [] \<and> hd s \<in> {DQ, BS} \<and> quoted_loop (tl s))"
proof -
  show "quoted_loop [] = True" by (simp add: quoted_loop.simps)
  show "quoted_loop (c # s) =
     (if c \<notin> {NUL, DQ, BS} then quoted_loop s
      else c = BS \<and> s \<noteq> [] \<and> hd s \<in> {DQ, BS} \<and> quoted_loop (tl s))"
    by (subst quoted_loop.simps)
      (cases s; auto simp: quoted_char_def Let_def safe_utf8_char_eq schar_eq quoted_special_def)
qed

lemma quoted_loop_iff: "quoted_loop s \<longleftrightarrow> (\<exists>t. no_nul t \<and> s = quote_chars t)"
proof
  show "\<exists>t. no_nul t \<and> s = quote_chars t" if "quoted_loop s"
    using that
  proof (induction s rule: length_induct)
    case (1 s)
    show ?case
    proof (cases s)
      case Nil
      then show ?thesis by (intro exI [of _ "[]"]) simp
    next
      case (Cons c r)
      show ?thesis
      proof (cases "c \<notin> {NUL, DQ, BS}")
        case True
        with 1 Cons obtain t where "no_nul t" "r = quote_chars t" by (auto simp: quoted_loop_Cons)
        with Cons True show ?thesis by (intro exI [of _ "c # t"]) auto
      next
        case False
        with 1 Cons obtain d r' where r: "c = BS" "r = d # r'" "d \<in> {DQ, BS}" "quoted_loop r'"
          by (cases r) (auto simp: quoted_loop_Cons)
        moreover have "length r' < length s" using r Cons by simp
        ultimately obtain t where "no_nul t" "r' = quote_chars t" using 1(1) by blast
        with Cons r show ?thesis by (intro exI [of _ "d # t"]) auto
      qed
    qed
  qed
  show "quoted_loop s" if "\<exists>t. no_nul t \<and> s = quote_chars t"
  proof -
    from that obtain t where "no_nul t" "s = quote_chars t" by blast
    then show ?thesis by (induction t arbitrary: s) (auto simp: quoted_loop_Cons)
  qed
qed

text \<open>
  The tokens taken for quoted strings are exactly those made by quoting some text, with a backslash
  before each double quote and backslash, of at most 1024 bytes.
\<close>

lemma acap_strn_is_quoted_iff:
  "acap_strn_is_quoted s \<longleftrightarrow> length s \<le> ACAP_QUOTED_MAX \<and> (\<exists>t. no_nul t \<and> s = quoted t)"
proof (cases "length s < 2")
  case True
  then show ?thesis by (auto simp: acap_strn_is_quoted_def quoted_def)
next
  case False
  then obtain x r where r: "s = x # r" "r \<noteq> []" by (cases s) auto
  then obtain b y where b: "r = b @ [y]" by (metis append_butlast_last_id)
  show ?thesis using quoted_loop_iff [of b] r(1) b by (auto simp: acap_strn_is_quoted_def quoted_def)
qed

subsection \<open>Reading what has been sent\<close>

lemma dec_string_cons:
  obtains c cs where "dec_string n = c # cs" "c_isdigit c" "\<forall>d \<in> set (dec_string n). c_isdigit d"
  using dec_string_digits [of n] by (cases "dec_string n") (auto simp: all_digits_def)

lemma strtoul_dec_prefix:
  assumes "n \<le> ULONG_MAX" and "\<not> c_isdigit x"
  shows "c_strtoul (dec_string n @ x # r) = n" "c_strtoul_end (dec_string n @ x # r) = length (dec_string n)"
proof -
  obtain c cs where d: "dec_string n = c # cs" "c_isdigit c" "\<forall>d \<in> set (dec_string n). c_isdigit d"
    by (rule dec_string_cons)
  note c = digit_not [OF d(2)]
  have v: "digits_value 0 (dec_string n @ x # r) = int n"
    using assms(2) d(3) by (simp add: digits_value_append digits_value_dec_string)
  have ws: "dropWhile c_isspace (dec_string n @ x # r) = dec_string n @ x # r"
      "takeWhile c_isspace (dec_string n @ x # r) = []" using d(1) c by simp_all
  have sg: "char_at (dec_string n @ x # r) 0 \<noteq> CHR ''-''" "char_at (dec_string n @ x # r) 0 \<noteq> CHR ''+''"
    using c d(1) by (auto simp: char_at_def)
  show "c_strtoul (dec_string n @ x # r) = n" using ws(1) sg v assms(1) by (simp add: c_strtoul_def Let_def)
  have "takeWhile c_isdigit (dec_string n @ x # r) = dec_string n" using d(3) assms(2) by (simp add: takeWhile_append)
  then show "c_strtoul_end (dec_string n @ x # r) = length (dec_string n)"
    using ws(2) sg d(1) by (simp add: c_strtoul_end_def Let_def)
qed

definition literal_type :: "flag_t \<Rightarrow> acap_type" where
  "literal_type flag = (if flag AND PERDITION_CLIENT \<noteq> 0 then acap_non_sychronising_literal else acap_sychronising_literal)"

lemma acap_token_status_literal:
  assumes "length s \<le> ACAP_LITERAL_MAX"
  shows "acap_token_status (mk_token (literal_head flag s) TOKEN_EOL) = (literal_type flag, length s)"
proof -
  let ?n = "length s"
  obtain c cs where d: "dec_string ?n = c # cs" "\<forall>d \<in> set (dec_string ?n). c_isdigit d" by (rule dec_string_cons) blast
  have plus: "last (dec_string ?n) \<noteq> CHR ''+''" using d dec_string_no [of "CHR ''+''" ?n] by (metis last_in_set list.distinct(1) insertI1 insertI2)
  have n: "?n < ULONG_MAX" using assms by (simp add: ACAP_LITERAL_MAX_def ULONG_MAX_def)
  have nd: "\<not> c_isdigit CHR ''+''" "\<not> c_isdigit CHR ''}''" by code_simp+
  note st = strtoul_dec_prefix [of ?n, OF less_imp_le [OF n]]
  show ?thesis
  proof (cases "flag AND PERDITION_CLIENT = 0")
    case True
    have "(dec_string ?n @ ''}'') ! (length (dec_string ?n) - 1) = last (dec_string ?n)"
      using d(1) by (simp add: nth_append last_conv_nth)
    then show ?thesis
      using True plus d(1) st [OF nd(2), of "[]"] n assms
      by (simp add: acap_token_status_def literal_head_def literal_type_def acap_literal_status_def Let_def)
  next
    case False
    have "(dec_string ?n @ ''+}'') ! length (dec_string ?n) = CHR ''+''" by (simp add: nth_append)
    then show ?thesis
      using False d(1) st [OF nd(1), of "''}''"] n assms
      by (simp add: acap_token_status_def literal_head_def literal_type_def acap_literal_status_def Let_def)
  qed
qed

lemma acap_token_status_quoted:
  assumes "no_nul s" and "length (quoted s) \<le> ACAP_QUOTED_MAX"
  shows "acap_token_status (mk_token (quoted s) f) = (acap_quoted, length (quote_chars s))"
proof -
  have "acap_strn_is_quoted (quoted s)"
    using quoted_loop_iff [of "quote_chars s"] assms by (auto simp: acap_strn_is_quoted_def quoted_def)
  moreover have "\<not> atom_char (schar DQ)" by code_simp
  then have "\<not> acap_strn_is_atom (quoted s)" by (simp add: acap_strn_is_atom_def quoted_def)
  ultimately show ?thesis by (simp add: acap_token_status_def quoted_def)
qed

text \<open>The text of a quoted string is handed on as it is, with the backslashes of its escapes.\<close>

lemma acap_token_wrapper_quoted_token:
  assumes "token_queue Q \<alpha>" and "\<alpha> q = mk_token (quoted s) f # ts" and "no_nul s"
    and "length (quoted s) \<le> ACAP_QUOTED_MAX"
  shows "\<exists>q1. \<alpha> q1 = ts \<and> acap_token_wrapper Q i q w =
     Some (\<lparr>aw_status = 0, aw_type = acap_quoted, aw_q = (if ts = [] then None else Some q1),
            aw_str = Some (quote_chars s)\<rparr>, w)"
proof -
  obtain q1 where q1: "qpop Q q = Some (q1, mk_token (quoted s) f)" "\<alpha> q1 = ts"
    using token_queue.pop_Cons [OF assms(1,2)] by blast
  have "strn_to_str (drop 1 (quoted s)) (length (quote_chars s)) = quote_chars s"
    using no_nul_quote_chars [OF assms(3)] by (simp add: strn_to_str_def quoted_def)
  then show ?thesis
    using q1 assms acap_token_status_quoted [OF assms(3,4), of f] token_queue.qlength [OF assms(1), of q1]
    by (intro exI [of _ q1])
      (simp add: acap_token_wrapper_def acap_token_wrapper_quoted_def acap_token_wrapper_strn_def quoted_def)
qed

lemma acap_token_wrapper_literal_token:
  assumes "token_queue Q \<alpha>" and "\<alpha> q = [mk_token (literal_head flag s) TOKEN_EOL]" and "no_nul s"
    and "s \<noteq> []" and "length s \<le> MAX_LINE_LENGTH" and "wf_buffer w" and "avail i w = s @ CRLF @ rest"
  obtains w' where "acap_token_wrapper Q i q w =
     Some (\<lparr>aw_status = 0, aw_type = literal_type flag, aw_q = None, aw_str = Some s\<rparr>, w')"
    and "avail i w' = rest" and "wf_buffer w'" and "only_io i w w'" and "same_io i w w'"
proof -
  obtain q1 where q1: "qpop Q q = Some (q1, mk_token (literal_head flag s) TOKEN_EOL)"
    using token_queue.pop_Cons [OF assms(1,2)] by blast
  have lt: "literal_type flag \<noteq> acap_err" "literal_type flag \<noteq> acap_atom" "literal_type flag \<noteq> acap_quoted"
    by (simp_all add: literal_type_def)
  have "length s \<le> ACAP_LITERAL_MAX" using assms(5) by (simp add: ACAP_LITERAL_MAX_def MAX_LINE_LENGTH_def)
  note st = acap_token_status_literal [OF this, of flag]
  obtain w1 where w1: "token_read i None TOKEN_IMAP4_LITERAL (length s) w = (Some (mk_token s TOKEN_NONE, []), w1)"
      "avail i w1 = CRLF @ rest" "wf_buffer w1"
    by (rule token_read_literal [of w s "length s" i "CRLF @ rest"]) (use assms in simp_all)
  have e: "is_word TOKEN_ACAP_ATOM []" by (simp add: is_word_def MAX_LINE_LENGTH_def)
  obtain q2 w2 where w2: "read_line Q i None TOKEN_ACAP_ATOM 0 w1 = (Some (q2, []), w2)"
      "\<alpha> q2 = [mk_token [] TOKEN_EOL]" "avail i w2 = rest" "wf_buffer w2"
    using token_queue.read_line_words [OF assms(1) w1(3), of TOKEN_ACAP_ATOM "[[]]" i CRLF rest 0] e w1(2)
    by (auto simp: line_tokens_def)
  obtain q3 where q3: "qpop Q q2 = Some (q3, mk_token [] TOKEN_EOL)" "\<alpha> q3 = []"
    using token_queue.pop_Cons [OF assms(1) w2(2)] by blast
  have "token_to_string (mk_token s TOKEN_NONE) TOKEN_NO_STRIP = Some s"
    using assms(3,4) by (simp add: token_to_string_def strn_to_str_def)
  then have "acap_token_wrapper Q i q w =
     Some (\<lparr>aw_status = 0, aw_type = literal_type flag, aw_q = None, aw_str = Some s\<rparr>, w2)"
    using q1 st lt w1(1) w2(1) q3 assms(4) token_queue.qlength [OF assms(1), of q3]
    by (simp add: acap_token_wrapper_def acap_token_wrapper_literal_def TOKEN_ACAP_LITERAL_def)
  moreover have "only_io i w w2"
    using token_read_only_io [OF w1(1)] read_line_only_io [OF w2(1)] by (rule only_io_trans)
  moreover have "same_io i w w2"
    using token_read_frame [OF w1(1)] read_line_frame [OF w2(1)] by (rule same_io_trans)
  ultimately show thesis using that w2 by blast
qed

subsection \<open>Frame\<close>

lemma acap_token_wrapper_keeps [keeps_rules]: "only_io i w w1 \<Longrightarrow> keeps i w (acap_token_wrapper Q i q w1)"
  unfolding acap_token_wrapper_def acap_token_wrapper_literal_def
  by (auto intro!: keeps_seq keeps_rules intro: keeps_reads split: prod.split option.split)
    (erule read_line_keeps, erule (1) token_read_keeps)+

end
