(* ===== verification/Managesieve_In.thy ===== *)
theory Managesieve_In
  imports Acap_Token
begin

text \<open>
  The ManageSieve side of the client: \<^verbatim>\<open>perdition/managesieve_in.c\<close>. One round of the command loop is
  \<open>managesieve_in_get_auth_loop\<close>. The parameters are those of the other protocols and, for SASL PLAIN,
  base64 and SASLprep.
\<close>

definition SASL_MECHANISM_PLAIN :: string where "SASL_MECHANISM_PLAIN = ''PLAIN''"

text \<open>Local authentication is not implemented for this protocol.\<close>

definition managesieve_in_authenticate :: "auth \<Rightarrow> ioid \<Rightarrow> token option \<Rightarrow> world \<Rightarrow> (int \<times> world) option" where
  "managesieve_in_authenticate a i tag w = Some (-1, w)"

subsection \<open>Commands\<close>

text \<open>
  The status of a command is 0 after OK, -1 after NO, -3 on an internal error. \<open>ms_refuse\<close> is the
  recurring refusal: NO with a reason.
\<close>

definition ms_refuse :: "ioid \<Rightarrow> string \<Rightarrow> world \<Rightarrow> (int \<times> world) option" where
  "ms_refuse i reason w =
     do { (rc, w1) \<leftarrow> managesieve_no i None reason w; Some (if rc < 0 then -3 else -1, w1) }"

definition ms_refuse_auth :: "ioid \<Rightarrow> string \<Rightarrow> world \<Rightarrow> ((int \<times> auth) \<times> world) option" where
  "ms_refuse_auth i reason w = do { (st, w1) \<leftarrow> ms_refuse i reason w; Some ((st, auth_zero), w1) }"

text \<open>
  After a challenge that is invalid the code for internal errors is run too: the status is the same,
  but an internal error is not answered.
\<close>

definition managesieve_in_sasl_plain ::
    "base64_bio \<Rightarrow> (string \<Rightarrow> string option) \<Rightarrow> 'q queue_ops \<Rightarrow> ioid \<Rightarrow> 'q \<Rightarrow> world
      \<Rightarrow> ((int \<times> auth) \<times> world) option" where
  "managesieve_in_sasl_plain B saslprep Q i q w =
     (if qlength Q q \<noteq> 1
      then ms_refuse_auth i (''Incorrect argument count, expected AUTHENTICATE '' @ DQ # ''PLAIN'' @ DQ #
             '' <challenge>, mate'') w
      else do {
        (ws, w1) \<leftarrow> acap_token_wrapper Q i q w;
        if aw_status ws = -2 then Some ((-3, auth_zero), w1)
        else if aw_status ws \<noteq> 0 \<or> \<not> acap_token_wrapper_status_is_eol ws \<or> aw_type ws = acap_atom
        then ms_refuse_auth i (''Invalid AUTHENTICATE '' @ DQ # ''PLAIN'' @ DQ # '' challenge, mate'') w1
        else do {
          challenge \<leftarrow> aw_str ws;
          as \<leftarrow> sasl_plain_challenge_decode B saslprep challenge;
          case as of
            auth_status_ok a \<Rightarrow> Some ((0, a), w1)
          | auth_status_invalid reason \<Rightarrow> ms_refuse_auth i reason w1
          | auth_status_error \<Rightarrow> Some ((-1, auth_zero), w1) } })"

definition managesieve_in_authenticate_cmd ::
    "base64_bio \<Rightarrow> (string \<Rightarrow> string option) \<Rightarrow> 'q queue_ops \<Rightarrow> ioid \<Rightarrow> 'q \<Rightarrow> world
      \<Rightarrow> ((int \<times> auth) \<times> world) option" where
  "managesieve_in_authenticate_cmd B saslprep Q i q w =
     (if qlength Q q = 0 \<or> qlength Q q > 2
      then ms_refuse_auth i ''Incorrect argument count, expected AUTHENTICATE <mechanism> [<challenge>], mate'' w
      else case qpop Q q of
             None \<Rightarrow> Some ((-3, auth_zero), w)
           | Some (q1, t) \<Rightarrow>
               if token_casecmp_string t (DQ # SASL_MECHANISM_PLAIN @ [DQ])
               then do { ((st, a), w1) \<leftarrow> managesieve_in_sasl_plain B saslprep Q i q1 w;
                         Some ((if st = 0 then 1 else st, a), w1) }
               else ms_refuse_auth i ''Unknown SASL mechanism, mate'' w)"

definition managesieve_in_capability_cmd ::
    "options \<Rightarrow> 'q queue_ops \<Rightarrow> ioid \<Rightarrow> 'q \<Rightarrow> int \<Rightarrow> int \<Rightarrow> world \<Rightarrow> (int \<times> world) option" where
  "managesieve_in_capability_cmd opt Q i q tls_flags tls_state w =
     (if qlength Q q \<noteq> 0 then ms_refuse i ''Too many arguments, expected CAPABILITY, mate'' w
      else do { msg \<leftarrow> managesieve_capability_msg opt tls_flags tls_state ''CAPABILITY completed, mate'';
                (rc, w1) \<leftarrow> managesieve_write_raw i msg w;
                Some (if rc < 0 then -3 else 0, w1) })"

definition managesieve_in_logout_cmd :: "'q queue_ops \<Rightarrow> ioid \<Rightarrow> 'q \<Rightarrow> world \<Rightarrow> (int \<times> world) option" where
  "managesieve_in_logout_cmd Q i q w =
     (if qlength Q q = 0
      then do { (rc, w1) \<leftarrow> managesieve_ok i None ''LOGOUT completed, mate'' w; Some (if rc < 0 then -3 else 0, w1) }
      else ms_refuse i ''Too many arguments, expected LOGOUT, mate'' w)"

definition managesieve_in_noop_cmd_str :: "'q queue_ops \<Rightarrow> ioid \<Rightarrow> 'q \<Rightarrow> world \<Rightarrow> (int \<times> world) option" where
  "managesieve_in_noop_cmd_str Q i q w =
     do { (ws, w1) \<leftarrow> acap_token_wrapper Q i q w;
          if aw_status ws = -2 then Some (-3, w1)
          else if aw_status ws \<noteq> 0 \<or> \<not> acap_token_wrapper_status_is_eol ws \<or> aw_type ws = acap_atom
          then ms_refuse i ''Invalid AUTHENTICATE PLAIN challenge, mate'' w1
          else do {
            arg \<leftarrow> aw_str ws;
            (rc, w2) \<leftarrow> managesieve_ok i (Some \<lparr>rc_atom = Some ''TAG'', rc_arg = [arg]\<rparr>) ''NOOP completed, mate'' w1;
            Some (if rc < 0 then -3 else 0, w2) } }"

definition managesieve_in_noop_cmd :: "'q queue_ops \<Rightarrow> ioid \<Rightarrow> 'q \<Rightarrow> world \<Rightarrow> (int \<times> world) option" where
  "managesieve_in_noop_cmd Q i q w =
     (if qlength Q q = 0
      then do { (rc, w1) \<leftarrow> managesieve_ok i None ''NOOP completed, mate'' w; Some (if rc < 0 then -3 else 0, w1) }
      else if qlength Q q = 1
      then do { (st, w1) \<leftarrow> managesieve_in_noop_cmd_str Q i q w; Some (if st < 0 then st else 0, w1) }
      else ms_refuse i ''Too many arguments, expected NOOP [String], mate'' w)"

definition managesieve_in_starttls_cmd :: "'q queue_ops \<Rightarrow> ioid \<Rightarrow> 'q \<Rightarrow> world \<Rightarrow> (int \<times> world) option" where
  "managesieve_in_starttls_cmd Q i q w =
     (if qlength Q q \<noteq> 0 then ms_refuse i ''Too many arguments, expected STARTTLS, mate'' w
      else do { (rc, w1) \<leftarrow> managesieve_ok i None ''Begin TLS negotiation, mate'' w; Some (if rc < 0 then -3 else 0, w1) })"

definition managesieve_starttls_post :: "options \<Rightarrow> ioid \<Rightarrow> int \<Rightarrow> int \<Rightarrow> world \<Rightarrow> (int \<times> world) option" where
  "managesieve_starttls_post opt i tls_flags tls_state w =
     (if tls_state AND SSL_MODE_TLS_LISTEN = 0 then Some (0, w)
      else do { msg \<leftarrow> managesieve_capability_msg opt tls_flags tls_state ''TLS negotiation completed, mate'';
                (rc, w1) \<leftarrow> managesieve_write_raw i msg w;
                Some (if rc < 0 then -1 else 0, w1) })"

subsection \<open>The command loop\<close>

text \<open>The status with the credentials; 3 asks for TLS, 2 is LOGOUT, 1 comes with credentials.\<close>

definition managesieve_in_command ::
    "base64_bio \<Rightarrow> (string \<Rightarrow> string option) \<Rightarrow> options \<Rightarrow> 'q queue_ops \<Rightarrow> ioid \<Rightarrow> int \<Rightarrow> int \<Rightarrow> token \<Rightarrow> 'q
      \<Rightarrow> world \<Rightarrow> ((int \<times> auth) \<times> world) option" where
  "managesieve_in_command B saslprep opt Q i tls_flags tls_state t q w =
     (let done = (\<lambda>ok r. do { (st, w1) \<leftarrow> r; Some ((if st = 0 then ok else st, auth_zero), w1) });
          continue = (\<lambda>r. do { (st, w1) \<leftarrow> r; Some ((if st < 0 then st else 0, auth_zero), w1) })
      in if token_casecmp_string t MANAGESIEVE_CMD_AUTHENTICATE
         then do { ((st, a), w1) \<leftarrow> managesieve_in_authenticate_cmd B saslprep Q i q w;
                   Some ((if st = 0 then 1 else st, a), w1) }
         else if token_casecmp_string t MANAGESIEVE_CMD_CAPABILITY
         then continue (managesieve_in_capability_cmd opt Q i q tls_flags tls_state w)
         else if token_casecmp_string t MANAGESIEVE_CMD_LOGOUT
         then done 2 (managesieve_in_logout_cmd Q i q w)
         else if token_casecmp_string t MANAGESIEVE_CMD_NOOP
         then continue (managesieve_in_noop_cmd Q i q w)
         else if tls_flags AND SSL_MODE_TLS_LISTEN \<noteq> 0 \<and> io_type (ios w i) \<noteq> Io_type_ssl \<and>
                 token_casecmp_string t MANAGESIEVE_CMD_STARTTLS
         then done 3 (managesieve_in_starttls_cmd Q i q w)
         else do { (rc, w1) \<leftarrow> managesieve_no i None ''Unknown command, mate'' w;
                   Some ((if rc < 0 then -1 else 0, auth_zero), w1) })"

definition managesieve_in_get_auth_loop ::
    "base64_bio \<Rightarrow> (string \<Rightarrow> string option) \<Rightarrow> options \<Rightarrow> 'q queue_ops \<Rightarrow> ioid \<Rightarrow> int \<Rightarrow> int
      \<Rightarrow> world \<Rightarrow> ((int \<times> auth) \<times> world) option" where
  "managesieve_in_get_auth_loop B saslprep opt Q i tls_flags tls_state w =
     (case read_line Q i None TOKEN_MANAGESIEVE 0 w of
        (None, w1) \<Rightarrow> Some ((-3, auth_zero), w1)
      | (Some (q0, _), w1) \<Rightarrow>
          (case qpop Q q0 of
             None \<Rightarrow> Some ((-3, auth_zero), w1)
           | Some (q, t) \<Rightarrow> managesieve_in_command B saslprep opt Q i tls_flags tls_state t q w1))"

subsection \<open>Frame and termination\<close>

lemma ms_refuse_keeps [keeps_rules]:
  assumes "only_io i w w1"
  shows "keeps i w (ms_refuse i r w1)" "keeps i w (ms_refuse_auth i r w1)"
  using assms unfolding ms_refuse_def ms_refuse_auth_def by (auto intro!: keeps_seq keeps_rules)

lemma managesieve_in_sasl_plain_keeps [keeps_rules]:
  "only_io i w w1 \<Longrightarrow> keeps i w (managesieve_in_sasl_plain B p Q i q w1)"
  unfolding managesieve_in_sasl_plain_def
  by (auto intro!: keeps_seq keeps_rules keeps_bind_pure [where ?'a = auth_status] split: auth_status.split)

lemma managesieve_in_cmds_keeps [keeps_rules]:
  assumes "only_io i w w1"
  shows "keeps i w (managesieve_in_authenticate_cmd B p Q i q w1)"
    "keeps i w (managesieve_in_capability_cmd opt Q i q f s w1)" "keeps i w (managesieve_in_logout_cmd Q i q w1)"
    "keeps i w (managesieve_in_noop_cmd_str Q i q w1)" "keeps i w (managesieve_in_starttls_cmd Q i q w1)"
    "keeps i w (managesieve_starttls_post opt i f s w1)"
  using assms
  unfolding managesieve_in_authenticate_cmd_def managesieve_in_capability_cmd_def managesieve_in_logout_cmd_def
    managesieve_in_noop_cmd_str_def managesieve_in_starttls_cmd_def managesieve_starttls_post_def
  by (auto intro!: keeps_seq keeps_rules split: option.split)

lemma managesieve_in_noop_keeps [keeps_rules]: "only_io i w w1 \<Longrightarrow> keeps i w (managesieve_in_noop_cmd Q i q w1)"
  unfolding managesieve_in_noop_cmd_def by (auto intro!: keeps_seq keeps_rules)

lemma managesieve_in_command_keeps [keeps_rules]:
  "only_io i w w1 \<Longrightarrow> keeps i w (managesieve_in_command B p opt Q i f s t q w1)"
  unfolding managesieve_in_command_def Let_def by (auto intro!: keeps_seq keeps_rules)

lemma managesieve_in_get_auth_loop_keeps [keeps_rules]:
  "only_io i w w1 \<Longrightarrow> keeps i w (managesieve_in_get_auth_loop B p opt Q i f s w1)"
  unfolding managesieve_in_get_auth_loop_def
  by (auto intro!: keeps_seq keeps_rules intro: keeps_reads split: prod.split option.split)

lemma managesieve_in_get_auth_loop_progress:
  assumes "managesieve_in_get_auth_loop B p opt Q i f s w = Some ((st, a), w')" and "st = 0 \<or> st = -1"
  shows "pending i w' < pending i w"
proof -
  obtain r w1 where r: "read_line Q i None TOKEN_MANAGESIEVE 0 w = (r, w1)" by fastforce
  with assms obtain q0 l where s: "r = Some (q0, l)" by (cases r) (auto simp: managesieve_in_get_auth_loop_def)
  have "pending i w1 < pending i w" using r s read_line_progress by blast
  moreover have "keeps i w1 (managesieve_in_get_auth_loop B p opt Q i f s w)"
    using r s by (auto simp: managesieve_in_get_auth_loop_def split: option.split intro!: keeps_rules)
  then have "only_io i w1 w'" unfolding assms(1) by (rule keepsD)
  ultimately show ?thesis using only_io_pending by fastforce
qed

text \<open>A status of 0 or -1 is another round.\<close>

function managesieve_in_rounds ::
    "base64_bio \<Rightarrow> (string \<Rightarrow> string option) \<Rightarrow> options \<Rightarrow> 'q queue_ops \<Rightarrow> ioid \<Rightarrow> int \<Rightarrow> int
      \<Rightarrow> world \<Rightarrow> ((int \<times> auth) \<times> world) option" where
  "managesieve_in_rounds B saslprep opt Q i tls_flags tls_state w =
     (case managesieve_in_get_auth_loop B saslprep opt Q i tls_flags tls_state w of
        None \<Rightarrow> None
      | Some ((st, a), w') \<Rightarrow>
          if st \<noteq> 0 \<and> st \<noteq> -1 then Some ((st, a), w')
          else managesieve_in_rounds B saslprep opt Q i tls_flags tls_state w')"
  by pat_completeness auto
termination
  by (relation "measure (\<lambda>(B, p, opt, Q, i, f, s, w). pending i w)") (auto dest!: managesieve_in_get_auth_loop_progress)

declare managesieve_in_rounds.simps [simp del]

definition managesieve_in_get_auth ::
    "base64_bio \<Rightarrow> (string \<Rightarrow> string option) \<Rightarrow> options \<Rightarrow> 'q queue_ops \<Rightarrow> ioid \<Rightarrow> int \<Rightarrow> int
      \<Rightarrow> world \<Rightarrow> ((int \<times> auth option \<times> token option) \<times> world) option" where
  "managesieve_in_get_auth B saslprep opt Q i tls_flags tls_state w =
     do { (rc, w1) \<leftarrow> managesieve_starttls_post opt i tls_flags tls_state w;
          if rc < 0 then Some ((-1, None, None), w1)
          else do {
            ((st, a), w2) \<leftarrow> managesieve_in_rounds B saslprep opt Q i tls_flags tls_state w1;
            let st' = (if st > 0 then st - 1 else st);
            Some ((st', if st' = 0 then Some a else None, None), w2) } }"

lemma managesieve_in_rounds_keeps [keeps_rules]: "keeps i w (managesieve_in_rounds B p opt Q i f s w)"
proof (induction B p opt Q i f s w rule: managesieve_in_rounds.induct)
  case (1 B p opt Q i f s w)
  have "keeps i w (managesieve_in_get_auth_loop B p opt Q i f s w)" by (rule managesieve_in_get_auth_loop_keeps) simp
  with 1 show ?case
    by (subst managesieve_in_rounds.simps) (auto split: option.splits prod.splits intro: keeps_trans)
qed

lemma managesieve_in_get_auth_keeps [keeps_rules]: "keeps i w (managesieve_in_get_auth B p opt Q i f s w)"
  unfolding managesieve_in_get_auth_def Let_def
  by (auto intro!: keeps_seq keeps_rules keeps_trans [OF _ managesieve_in_rounds_keeps])

subsection \<open>Results\<close>

definition plain_auth :: "auth \<Rightarrow> bool" where
  "plain_auth a \<longleftrightarrow> (\<exists>z n pw. a = auth_set_sasl_plain z (Some n) (Some pw) \<and> n \<noteq> [])"

lemma decode_plain_auth:
  "sasl_plain_challenge_decode B p ch = Some (auth_status_ok a) \<Longrightarrow> plain_auth a"
  by (auto simp: sasl_plain_challenge_decode_def sasl_plain_decode_rest_def Let_def plain_auth_def
      split: option.splits if_splits)

definition ms_done :: "int \<Rightarrow> io_type \<Rightarrow> int \<times> auth \<Rightarrow> bool" where
  "ms_done f ty x \<longleftrightarrow>
     fst x \<in> {-3, -1, 0, 1, 2, 3} \<and> (fst x = 1 \<longrightarrow> plain_auth (snd x)) \<and>
     (fst x = 3 \<longrightarrow> f AND SSL_MODE_TLS_LISTEN \<noteq> 0 \<and> ty \<noteq> Io_type_ssl)"

definition ms_status :: "int \<Rightarrow> bool" where
  "ms_status st \<longleftrightarrow> st \<in> {-3, -1, 0}"

lemma ms_status_simps [simp]: "ms_status (-3)" "ms_status (-1)" "ms_status 0"
  by (simp_all add: ms_status_def)

lemma ms_refuse_gives [gives_rules]: "gives ms_status (ms_refuse i r w)"
  by (auto simp: ms_refuse_def intro!: gives_rules)

lemma ms_cmds_give [gives_rules]:
  "gives ms_status (managesieve_in_capability_cmd opt Q i q f s w)" "gives ms_status (managesieve_in_logout_cmd Q i q w)"
  "gives ms_status (managesieve_in_noop_cmd_str Q i q w)" "gives ms_status (managesieve_in_starttls_cmd Q i q w)"
  unfolding managesieve_in_capability_cmd_def managesieve_in_logout_cmd_def managesieve_in_noop_cmd_str_def
    managesieve_in_starttls_cmd_def
  by (auto intro!: gives_rules)

lemma gives_bind_status: "gives P r \<Longrightarrow> (\<And>a w. P a \<Longrightarrow> gives R (f (a, w))) \<Longrightarrow> gives R (r \<bind> f)"
  unfolding gives_def bind_eq_Some_conv by (metis prod.exhaust)

lemma ms_noop_gives [gives_rules]: "gives ms_status (managesieve_in_noop_cmd Q i q w)"
  unfolding managesieve_in_noop_cmd_def
  by (auto intro!: gives_rules gives_bind_status [OF ms_cmds_give(3)])

lemma ms_refuse_auth_gives: "gives (\<lambda>x. ms_status (fst x) \<and> fst x \<noteq> 0) (ms_refuse_auth i r w)"
  by (auto simp: ms_refuse_def ms_refuse_auth_def gives_def bind_eq_Some_conv)

lemma ms_sasl_plain_gives: "gives (\<lambda>x. ms_status (fst x) \<and> (fst x = 0 \<longrightarrow> plain_auth (snd x))) (managesieve_in_sasl_plain B p Q i q w)"
proof -
  have r: "gives (\<lambda>x. ms_status (fst x) \<and> (fst x = 0 \<longrightarrow> plain_auth (snd x))) (ms_refuse_auth i reason w)" for reason w
    using ms_refuse_auth_gives [of i reason w] by (auto simp: gives_def)
  show ?thesis
    unfolding managesieve_in_sasl_plain_def
    by (auto intro!: gives_rules r decode_plain_auth split: auth_status.split)
qed

lemma ms_authenticate_gives: "gives (ms_done f ty) (managesieve_in_authenticate_cmd B p Q i q w)"
proof -
  have r: "gives (ms_done f ty) (ms_refuse_auth i reason w)" for reason w
    using ms_refuse_auth_gives [of i reason w] by (auto simp: gives_def ms_done_def ms_status_def)
  have "gives (ms_done f ty) (managesieve_in_sasl_plain B p Q i q w \<bind> (\<lambda>((st, a), w1). Some ((if st = 0 then 1 else st, a), w1)))"
    for q w by (rule gives_bind_status [OF ms_sasl_plain_gives]) (auto simp: ms_done_def ms_status_def)
  with r show ?thesis unfolding managesieve_in_authenticate_cmd_def by (auto split: option.split simp: ms_done_def)
qed

lemma managesieve_in_command_gives:
  "gives (ms_done f (io_type (ios w i))) (managesieve_in_command B p opt Q i f s t q w)"
proof -
  let ?D = "ms_done f (io_type (ios w i))"
  have d: "gives ?D (r \<bind> (\<lambda>(st, w1). Some ((if st = 0 then ok else st, auth_zero), w1)))"
    if "gives ms_status r" "ok = 2 \<or> ok = 3 \<and> f AND SSL_MODE_TLS_LISTEN \<noteq> 0 \<and> io_type (ios w i) \<noteq> Io_type_ssl" for r ok
    by (rule gives_bind_status [OF that(1)]) (use that(2) in \<open>auto simp: ms_done_def ms_status_def\<close>)
  have c: "gives ?D (r \<bind> (\<lambda>(st, w1). Some ((if st < 0 then st else 0, auth_zero), w1)))"
    if "gives ms_status r" for r
    by (rule gives_bind_status [OF that]) (auto simp: ms_done_def ms_status_def)
  have a: "gives ?D (managesieve_in_authenticate_cmd B p Q i q w \<bind> (\<lambda>((st, a), w1). Some ((if st = 0 then 1 else st, a), w1)))"
  proof -
    have "gives (\<lambda>x. ?D x \<and> fst x \<noteq> 0) (managesieve_in_authenticate_cmd B p Q i q w)"
    proof -
      have "gives (\<lambda>x. fst x \<noteq> 0) (ms_refuse_auth i r w)" for r w
        using ms_refuse_auth_gives [of i r w] by (auto simp: gives_def)
      moreover have "gives (\<lambda>x. fst x \<noteq> 0) (managesieve_in_sasl_plain B p Q i q w \<bind>
          (\<lambda>((st, a), w1). Some ((if st = 0 then 1 else st, a), w1)))" for q w
        by (auto simp: gives_def bind_eq_Some_conv)
      ultimately have "gives (\<lambda>x. fst x \<noteq> 0) (managesieve_in_authenticate_cmd B p Q i q w)"
        unfolding managesieve_in_authenticate_cmd_def by (auto split: option.split)
      with ms_authenticate_gives [of f "io_type (ios w i)" B p Q i q w] show ?thesis by (auto simp: gives_def)
    qed
    then show ?thesis by (rule gives_bind_status) (auto simp: ms_done_def)
  qed
  have "gives ?D (managesieve_no i None m w \<bind> (\<lambda>(rc, w1). Some ((if rc < 0 then -1 else 0, auth_zero), w1)))" for m
    by (auto intro!: gives_rules simp: ms_done_def)
  then show ?thesis
    using a c [OF ms_cmds_give(1), of opt Q i q f s w] d [OF ms_cmds_give(2), of 2 Q i q w]
      c [OF ms_noop_gives, of Q i q w] d [OF ms_cmds_give(4), of 3 Q i q w]
    by (simp add: managesieve_in_command_def)
qed

lemma managesieve_in_get_auth_loop_gives:
  "gives (ms_done f (io_type (ios w i))) (managesieve_in_get_auth_loop B p opt Q i f s w)"
proof -
  obtain r w1 where r: "read_line Q i None TOKEN_MANAGESIEVE 0 w = (r, w1)" by fastforce
  have "io_type (ios w i) = io_type (ios w1 i)" using read_line_only_io [OF r] by (simp add: only_io_def)
  with r show ?thesis using managesieve_in_command_gives [of f w1 i B p opt Q s]
    by (auto simp: managesieve_in_get_auth_loop_def ms_done_def [of _ _ "(-3, _)"] split: option.split)
qed

lemma managesieve_in_rounds_gives:
  "gives (\<lambda>x. ms_done f (io_type (ios w i)) x \<and> fst x \<notin> {0, -1}) (managesieve_in_rounds B p opt Q i f s w)"
proof (induction B p opt Q i f s w rule: managesieve_in_rounds.induct)
  case (1 B p opt Q i f s w)
  note g = managesieve_in_get_auth_loop_gives [of f w i B p opt Q s]
    and k = managesieve_in_get_auth_loop_keeps [OF only_io_refl, of i w B p opt Q f s]
  show ?case
  proof (cases "managesieve_in_get_auth_loop B p opt Q i f s w")
    case None
    then show ?thesis by (subst managesieve_in_rounds.simps) simp
  next
    case (Some x)
    obtain st a w1 where x: "x = ((st, a), w1)" by (metis prod.exhaust)
    have oi: "only_io i w w1" using k unfolding Some x by simp
    show ?thesis
      using 1 [OF Some, of "(st, a)" w1 st a] g Some x only_io_type [OF oi, of i]
      by (subst managesieve_in_rounds.simps) auto
  qed
qed

lemma managesieve_in_get_auth_cases:
  assumes "managesieve_in_get_auth B p opt Q i f s w = Some ((rc, a, t), w')"
  shows "t = None \<and>
    (if rc = 0 then \<exists>x. a = Some x \<and> plain_auth x else a = None \<and> rc \<in> {-3, -1, 1, 2}) \<and>
    (rc = 2 \<longrightarrow> f AND SSL_MODE_TLS_LISTEN \<noteq> 0 \<and> io_type (ios w i) \<noteq> Io_type_ssl) \<and> only_io i w w'"
proof -
  have oi: "only_io i w w'" using managesieve_in_get_auth_keeps [of i w B p opt Q f s] assms by simp
  obtain rc0 w1 where p: "managesieve_starttls_post opt i f s w = Some (rc0, w1)"
    using assms by (auto simp: managesieve_in_get_auth_def bind_eq_Some_conv)
  have "only_io i w w1" using managesieve_in_cmds_keeps(6) [OF only_io_refl, of i w opt f s] p by simp
  then have ty: "io_type (ios w1 i) = io_type (ios w i)" by (rule only_io_type)
  show ?thesis
  proof (cases "rc0 < 0")
    case True
    with assms p oi show ?thesis by (auto simp: managesieve_in_get_auth_def)
  next
    case False
    then obtain st b w2 where r: "managesieve_in_rounds B p opt Q i f s w1 = Some ((st, b), w2)"
      using assms p by (auto simp: managesieve_in_get_auth_def bind_eq_Some_conv)
    have "ms_done f (io_type (ios w i)) (st, b) \<and> st \<notin> {0, -1}"
      using managesieve_in_rounds_gives [of f w1 i B p opt Q s] r ty by simp
    with assms p False r oi show ?thesis by (auto simp: managesieve_in_get_auth_def Let_def ms_done_def)
  qed
qed

subsection \<open>Reading credentials\<close>

lemma managesieve_loop_words:
  assumes "token_queue Q \<alpha>" and "wf_buffer w" and "\<forall>x \<in> set (cmd # args). is_word TOKEN_MANAGESIEVE x"
    and "avail i w = join SP (cmd # args) @ CRLF @ rest"
  obtains q w1 where "\<And>B p opt f s. managesieve_in_get_auth_loop B p opt Q i f s w =
      managesieve_in_command B p opt Q i f s (mk_token cmd (if args = [] then TOKEN_EOL else TOKEN_NONE)) q w1"
    and "\<alpha> q = (if args = [] then [] else line_tokens args)"
    and "avail i w1 = rest" and "wf_buffer w1" and "only_io i w w1" and "same_io i w w1"
proof -
  obtain q0 w1 where r: "read_line Q i None TOKEN_MANAGESIEVE 0 w = (Some (q0, []), w1)"
      "\<alpha> q0 = line_tokens (cmd # args)" "avail i w1 = rest" "wf_buffer w1"
    using token_queue.read_line_words [OF assms(1,2) _ _ assms(3,4), where m = 0] by auto
  have "\<alpha> q0 = mk_token cmd (if args = [] then TOKEN_EOL else TOKEN_NONE) # (if args = [] then [] else line_tokens args)"
    using r(2) by (simp add: line_tokens_Cons)
  then obtain q where q: "qpop Q q0 = Some (q, mk_token cmd (if args = [] then TOKEN_EOL else TOKEN_NONE))"
      "\<alpha> q = (if args = [] then [] else line_tokens args)"
    using token_queue.pop_Cons [OF assms(1)] by blast
  have "managesieve_in_get_auth_loop B p opt Q i f s w =
      managesieve_in_command B p opt Q i f s (mk_token cmd (if args = [] then TOKEN_EOL else TOKEN_NONE)) q w1"
    for B p opt f s using r(1) q(1) by (simp add: managesieve_in_get_auth_loop_def)
  then show thesis using that q(2) r read_line_only_io [OF r(1)] read_line_frame [OF r(1)] by blast
qed

lemma token_casecmp_mk: "strcaseeq s str \<Longrightarrow> token_casecmp_string (mk_token s f) str"
proof -
  have "strncaseeq s str n" if "strcaseeq s str" for n
    using that by (induction s str n rule: strncaseeq.induct) (auto simp: strcaseeq_def)
  then show "strcaseeq s str \<Longrightarrow> token_casecmp_string (mk_token s f) str"
    by (simp add: token_casecmp_string_def strcaseeq_length)
qed

lemma strcaseeq_quoted: "strcaseeq s (mech :: string) \<Longrightarrow> quote_chars s = s \<Longrightarrow> strcaseeq (quoted s) (DQ # mech @ [DQ])"
  by (simp add: strcaseeq_def quoted_def)

lemma quote_chars_id: "DQ \<notin> set s \<Longrightarrow> BS \<notin> set s \<Longrightarrow> quote_chars s = s"
  by (induction s) auto

text \<open>A string argument at the end of a command: on the line, quoted, or behind it, as a literal.\<close>

definition arg_word :: "bool \<Rightarrow> flag_t \<Rightarrow> string \<Rightarrow> string" where
  "arg_word lit flag s = (if lit then literal_head flag s else quoted s)"

definition arg_rest :: "bool \<Rightarrow> string \<Rightarrow> string" where
  "arg_rest lit s = (if lit then s @ CRLF else [])"

definition arg_ok :: "bool \<Rightarrow> string \<Rightarrow> bool" where
  "arg_ok lit s \<longleftrightarrow>
     no_nul s \<and> (if lit then s \<noteq> [] \<and> length s \<le> MAX_LINE_LENGTH
                else DQ \<notin> set s \<and> BS \<notin> set s \<and> CR \<notin> set s \<and> LF \<notin> set s \<and> length s + 2 \<le> ACAP_QUOTED_MAX)"

lemma literal_head_no: "c \<in> {SP, CR, LF, DQ, NUL} \<Longrightarrow> c \<notin> set (literal_head flag s)"
  using dec_string_no [of c "length s"] by (auto simp: literal_head_def)

lemma is_word_arg:
  assumes "arg_ok lit s" shows "is_word TOKEN_MANAGESIEVE (arg_word lit flag s)"
proof (cases lit)
  case True
  have "length s div 10 \<le> MAX_LINE_LENGTH div 10" using assms True by (simp add: arg_ok_def div_le_mono)
  then have "length (dec_string (length s)) < 4000"
    using dec_string_digits [of "length s"] by (simp add: MAX_LINE_LENGTH_def)
  then show ?thesis
    using True by (simp add: is_word_def arg_word_def quote_state_plain literal_head_no)
      (simp add: literal_head_def MAX_LINE_LENGTH_def)
next
  case False
  then have "login_arg s"
    using assms by (auto simp: arg_ok_def login_arg_def quoted_def quote_chars_id ACAP_QUOTED_MAX_def MAX_LINE_LENGTH_def)
  from is_word_quoted [OF this] False show ?thesis by (simp add: arg_word_def TOKEN_MANAGESIEVE_def)
qed

lemma acap_token_wrapper_arg:
  assumes "token_queue Q \<alpha>" and "\<alpha> q = [mk_token (arg_word lit flag s) TOKEN_EOL]" and "arg_ok lit s"
    and "wf_buffer w" and "avail i w = arg_rest lit s @ rest"
  obtains ty w' where "acap_token_wrapper Q i q w = Some (\<lparr>aw_status = 0, aw_type = ty, aw_q = None, aw_str = Some s\<rparr>, w')"
    and "ty \<noteq> acap_atom" and "avail i w' = rest" and "wf_buffer w'" and "only_io i w w'" and "io_out (ios w' i) = io_out (ios w i)"
proof (cases lit)
  case True
  have a: "\<alpha> q = [mk_token (literal_head flag s) TOKEN_EOL]" "avail i w = s @ CRLF @ rest"
    using assms(2,5) True by (simp_all add: arg_word_def arg_rest_def)
  obtain w' where w': "acap_token_wrapper Q i q w =
       Some (\<lparr>aw_status = 0, aw_type = literal_type flag, aw_q = None, aw_str = Some s\<rparr>, w')"
      "avail i w' = rest" "wf_buffer w'" "only_io i w w'" "same_io i w w'"
    by (rule acap_token_wrapper_literal_token [OF assms(1) a(1) _ _ _ assms(4) a(2)]) (use assms(3) True in \<open>auto simp: arg_ok_def\<close>)
  then have "io_out (ios w' i) = io_out (ios w i)" by (simp add: same_io_def)
  with w' that show thesis by (simp add: literal_type_def)
next
  case False
  have q: "no_nul s" "length (quoted s) \<le> ACAP_QUOTED_MAX" "quote_chars s = s"
    using assms(3) False by (auto simp: arg_ok_def quoted_def quote_chars_id)
  have a: "\<alpha> q = mk_token (quoted s) TOKEN_EOL # []" using assms(2) False by (simp add: arg_word_def)
  from acap_token_wrapper_quoted_token [OF assms(1) a q(1,2), of i w] that [of acap_quoted w] q(3) assms(4,5) False
  show thesis by (auto simp: arg_rest_def)
qed

lemma managesieve_plain_round:
  assumes "token_queue Q \<alpha>" and "wf_buffer w" and "is_word TOKEN_MANAGESIEVE cmd"
    and "strcaseeq cmd MANAGESIEVE_CMD_AUTHENTICATE" and "strcaseeq mech SASL_MECHANISM_PLAIN" and "arg_ok False mech"
    and "arg_ok lit ch" and "avail i w = join SP [cmd, quoted mech, arg_word lit flag ch] @ CRLF @ arg_rest lit ch @ rest"
    and "sasl_plain_challenge_decode B saslprep ch = Some (auth_status_ok a)"
  obtains w' where "managesieve_in_get_auth_loop B saslprep opt Q i f s w = Some ((1, a), w')"
    and "avail i w' = rest" and "wf_buffer w'" and "only_io i w w'" and "io_out (ios w' i) = io_out (ios w i)"
proof -
  have mech: "quote_chars mech = mech" using assms(6) by (simp add: arg_ok_def quote_chars_id)
  have words: "\<forall>x \<in> set (cmd # [quoted mech, arg_word lit flag ch]). is_word TOKEN_MANAGESIEVE x"
    using assms(3) is_word_arg [OF assms(6)] is_word_arg [OF assms(7), of flag] by (simp add: arg_word_def)
  obtain q w1 where st: "managesieve_in_get_auth_loop B saslprep opt Q i f s w =
        managesieve_in_command B saslprep opt Q i f s (mk_token cmd TOKEN_NONE) q w1"
      and q: "\<alpha> q = [mk_token (quoted mech) TOKEN_NONE, mk_token (arg_word lit flag ch) TOKEN_EOL]"
      and w1: "avail i w1 = arg_rest lit ch @ rest" "wf_buffer w1" "only_io i w w1" "same_io i w w1"
    by (rule managesieve_loop_words [OF assms(1,2) words assms(8)]) (auto simp: line_tokens_def)
  obtain q1 where q1: "qpop Q q = Some (q1, mk_token (quoted mech) TOKEN_NONE)"
      "\<alpha> q1 = [mk_token (arg_word lit flag ch) TOKEN_EOL]"
    using token_queue.pop_Cons [OF assms(1) q] by blast
  note ql = token_queue.qlength [OF assms(1), of q] token_queue.qlength [OF assms(1), of q1]
  obtain ty w2 where w2: "acap_token_wrapper Q i q1 w1 = Some (\<lparr>aw_status = 0, aw_type = ty, aw_q = None, aw_str = Some ch\<rparr>, w2)"
      "ty \<noteq> acap_atom" "avail i w2 = rest" "wf_buffer w2" "only_io i w1 w2" "io_out (ios w2 i) = io_out (ios w1 i)"
    by (rule acap_token_wrapper_arg [OF assms(1) q1(2) assms(7) w1(2,1)])
  have "managesieve_in_sasl_plain B saslprep Q i q1 w1 = Some ((0, a), w2)"
    using ql(2) q1(2) w2(1,2) assms(9)
    by (simp add: managesieve_in_sasl_plain_def acap_token_wrapper_status_is_eol_def)
  then have "managesieve_in_get_auth_loop B saslprep opt Q i f s w = Some ((1, a), w2)"
    using st ql(1) q q1(1) token_casecmp_mk [OF assms(4)] token_casecmp_mk [OF strcaseeq_quoted [OF assms(5) mech]]
    by (simp add: managesieve_in_command_def managesieve_in_authenticate_cmd_def)
  moreover have "only_io i w w2" using w1(3) w2(5) by (rule only_io_trans)
  moreover have "io_out (ios w2 i) = io_out (ios w i)" using w1(4) w2(6) by (simp add: same_io_def)
  ultimately show thesis using that w2(3,4) by blast
qed

lemma managesieve_plain_read:
  assumes "token_queue Q \<alpha>" and "wf_buffer w" and "s AND SSL_MODE_TLS_LISTEN = 0" and "is_word TOKEN_MANAGESIEVE cmd"
    and "strcaseeq cmd MANAGESIEVE_CMD_AUTHENTICATE" and "strcaseeq mech SASL_MECHANISM_PLAIN" and "arg_ok False mech"
    and "arg_ok lit ch" and "avail i w = join SP [cmd, quoted mech, arg_word lit flag ch] @ CRLF @ arg_rest lit ch @ rest"
    and "sasl_plain_challenge_decode B saslprep ch = Some (auth_status_ok a)"
  shows "\<exists>w'. managesieve_in_get_auth B saslprep opt Q i f s w = Some ((0, Some a, None), w') \<and>
    avail i w' = rest \<and> wf_buffer w' \<and> io_out (ios w' i) = io_out (ios w i) \<and> (\<forall>j. j \<noteq> i \<longrightarrow> ios w' j = ios w j)"
proof -
  obtain w' where w': "managesieve_in_get_auth_loop B saslprep opt Q i f s w = Some ((1, a), w')"
      "avail i w' = rest" "wf_buffer w'" "only_io i w w'" "io_out (ios w' i) = io_out (ios w i)"
    by (rule managesieve_plain_round [OF assms(1,2,4-10)])
  then have "managesieve_in_rounds B saslprep opt Q i f s w = Some ((1, a), w')"
    by (subst managesieve_in_rounds.simps) simp
  with w' assms(3) show ?thesis
    by (simp add: managesieve_in_get_auth_def managesieve_starttls_post_def only_io_def)
qed

text \<open>
  C31. AUTHENTICATE PLAIN with a challenge, quoted or as a literal, in any mixture of case and however the
  input is divided into packets, yields exactly the credentials the challenge decodes to; the bytes
  behind the command stay unread and nothing is sent.
\<close>

theorem managesieve_plain:
  assumes "token_queue Q \<alpha>" and "wf_buffer w" and "s AND SSL_MODE_TLS_LISTEN = 0" and "is_word TOKEN_MANAGESIEVE cmd"
    and "strcaseeq cmd MANAGESIEVE_CMD_AUTHENTICATE" and "strcaseeq mech SASL_MECHANISM_PLAIN" and "arg_ok False mech"
    and "arg_ok lit ch" and "avail i w = join SP [cmd, quoted mech, arg_word lit flag ch] @ CRLF @ arg_rest lit ch @ rest"
    and "sasl_plain_challenge_decode B saslprep ch = Some (auth_status_ok a)"
  shows "\<exists>w'. managesieve_in_get_auth B saslprep opt Q i f s w = Some ((0, Some a, None), w') \<and>
    avail i w' = rest \<and> wf_buffer w' \<and> io_out (ios w' i) = io_out (ios w i) \<and> (\<forall>j. j \<noteq> i \<longrightarrow> ios w' j = ios w j)"
  using assms by (rule managesieve_plain_read)

lemma managesieve_plain_witness_facts:
  "is_word TOKEN_MANAGESIEVE ''authenticate''" "strcaseeq ''authenticate'' MANAGESIEVE_CMD_AUTHENTICATE"
  "strcaseeq ''Plain'' SASL_MECHANISM_PLAIN" "arg_ok False ''Plain''" "arg_ok True ''AHVzZXIAc2VjcmV0''"
  "join SP [''authenticate'', quoted ''Plain'', arg_word True PERDITION_CLIENT ''AHVzZXIAc2VjcmV0''] @ CRLF @
     arg_rest True ''AHVzZXIAc2VjcmV0'' =
   ''authenticate '' @ DQ # ''Plain'' @ DQ # '' {16+}'' @ CRLF @ ''AHVzZXIAc2VjcmV0'' @ CRLF"
  by code_simp+

lemma managesieve_plain_witness_challenge:
  "sasl_plain_challenge_decode rfc4648 Some ''AHVzZXIAc2VjcmV0'' =
     Some (auth_status_ok (auth_set_sasl_plain None (Some ''user'') (Some ''secret'')))"
proof -
  have "b64_decode ''AHVzZXIAc2VjcmV0'' = NUL # ''user'' @ NUL # ''secret''" by code_simp
  then have "base64_decode rfc4648 (buf_of ''AHVzZXIAc2VjcmV0'') = buf_of (NUL # ''user'' @ NUL # ''secret'')"
    by (simp add: base64_decode_def buf_dup_from_const_def buf_of_def rfc4648_def BUF_INT_MAX_def)
  moreover have "sasl_plain_decode_rest Some None (NUL # ''user'' @ NUL # ''secret'') =
      auth_status_ok (auth_set_sasl_plain None (Some ''user'') (Some ''secret''))"
    by code_simp
  ultimately show ?thesis by (simp add: sasl_plain_challenge_decode_def buf_of_def)
qed

theorem managesieve_plain_witness:
  "\<exists>w'. managesieve_in_get_auth rfc4648 Some options_zero list_queue EU 0 0
      (world_sending (''authenticate '' @ DQ # ''Plain'' @ DQ # '' {16+}'' @ CRLF @ ''AHVzZXIAc2VjcmV0'' @ CRLF)) =
    Some ((0, Some (auth_set_sasl_plain None (Some ''user'') (Some ''secret'')), None), w') \<and> avail EU w' = []"
proof -
  let ?s = "''authenticate '' @ DQ # ''Plain'' @ DQ # '' {16+}'' @ CRLF @ ''AHVzZXIAc2VjcmV0'' @ CRLF"
  note facts = managesieve_plain_witness_facts
  have "avail EU (world_sending ?s) =
      join SP [''authenticate'', quoted ''Plain'', arg_word True PERDITION_CLIENT ''AHVzZXIAc2VjcmV0''] @ CRLF @
        arg_rest True ''AHVzZXIAc2VjcmV0'' @ []"
    unfolding world_sending append_Nil2 by (rule facts(6) [symmetric])
  from managesieve_plain [OF list_queue.token_queue_axioms world_sending(1) _ facts(1-5) this
      managesieve_plain_witness_challenge, of 0 options_zero 0]
  show ?thesis by auto
qed

text \<open>
  C32. The command loop ends with the code 0 and credentials of the kind SASL PLAIN with a user name, or
  with log out (1), start TLS (2) or an error (-1, -3) and no credentials; TLS is asked for only if it
  is enabled and not active, and the other connection is left alone.
\<close>

theorem managesieve_in_get_auth_result:
  assumes "managesieve_in_get_auth B p opt Q i f s w = Some ((rc, a, t), w')"
  shows "t = None \<and>
    (if rc = 0 then \<exists>x. a = Some x \<and> plain_auth x else a = None \<and> rc \<in> {-3, -1, 1, 2}) \<and>
    (rc = 2 \<longrightarrow> f AND SSL_MODE_TLS_LISTEN \<noteq> 0 \<and> io_type (ios w i) \<noteq> Io_type_ssl) \<and> only_io i w w'"
  using assms by (rule managesieve_in_get_auth_cases)

lemma managesieve_logout_example:
  "map_option fst (managesieve_in_get_auth rfc4648 Some options_zero list_queue EU 0 0 (world_sending (''logout'' @ CRLF))) =
     Some (1, None, None)"
  by code_simp

theorem managesieve_in_get_auth_result_witness:
  "\<exists>w'. managesieve_in_get_auth rfc4648 Some options_zero list_queue EU 0 0 (world_sending (''logout'' @ CRLF)) =
     Some ((1, None, None), w') \<and> only_io EU (world_sending (''logout'' @ CRLF)) w'"
  using managesieve_in_get_auth_result [of rfc4648 Some options_zero list_queue EU 0 0 "world_sending (''logout'' @ CRLF)" 1 None None]
    managesieve_logout_example by auto

text \<open>
  NOOP with a quoted string is never answered: the round ends well with nothing sent, although the
  protocol asks for OK with the string in a response code.
\<close>

lemma managesieve_noop_unanswered:
  assumes "token_queue Q \<alpha>" and "wf_buffer w" and "is_word TOKEN_MANAGESIEVE cmd"
    and "strcaseeq cmd MANAGESIEVE_CMD_NOOP" and "arg_ok False x"
    and "avail i w = join SP [cmd, quoted x] @ CRLF @ rest"
  shows "\<exists>w'. managesieve_in_get_auth_loop B saslprep opt Q i f s w = Some ((0, auth_zero), w') \<and>
    avail i w' = rest \<and> (\<forall>j. io_out (ios w' j) = io_out (ios w j))"
proof -
  have words: "\<forall>y \<in> set (cmd # [quoted x]). is_word TOKEN_MANAGESIEVE y"
    using assms(3) is_word_arg [OF assms(5)] by (simp add: arg_word_def)
  obtain q w1 where st: "managesieve_in_get_auth_loop B saslprep opt Q i f s w =
        managesieve_in_command B saslprep opt Q i f s (mk_token cmd TOKEN_NONE) q w1"
      and q: "\<alpha> q = [mk_token (arg_word False 0 x) TOKEN_EOL]"
      and w1: "avail i w1 = arg_rest False x @ rest" "wf_buffer w1" "same_io i w w1"
    by (rule managesieve_loop_words [OF assms(1,2) words assms(6)]) (auto simp: line_tokens_def arg_word_def arg_rest_def)
  obtain ty w2 where w2: "acap_token_wrapper Q i q w1 = Some (\<lparr>aw_status = 0, aw_type = ty, aw_q = None, aw_str = Some x\<rparr>, w2)"
      "ty \<noteq> acap_atom" "avail i w2 = rest" "only_io i w1 w2" "io_out (ios w2 i) = io_out (ios w1 i)"
    by (rule acap_token_wrapper_arg [OF assms(1) q assms(5) w1(2,1)])
  have "managesieve_ok i (Some \<lparr>rc_atom = Some ''TAG'', rc_arg = [x]\<rparr>) ''NOOP completed, mate'' w2 = Some (0, w2)"
    unfolding managesieve_ok_def
    by (rule managesieve_write_code_lost) (use assms(5) in \<open>auto simp: arg_ok_def one_line_def\<close>)
  then have "managesieve_in_noop_cmd Q i q w1 = Some (0, w2)"
    using w2(1,2) token_queue.qlength [OF assms(1), of q] q
    by (simp add: managesieve_in_noop_cmd_def managesieve_in_noop_cmd_str_def acap_token_wrapper_status_is_eol_def)
  moreover have "length cmd = 4" using strcaseeq_length [OF assms(4)] by (simp add: MANAGESIEVE_CMD_NOOP_def)
  then have "\<not> token_casecmp_string (mk_token cmd TOKEN_NONE) c"
    if "c \<in> {MANAGESIEVE_CMD_AUTHENTICATE, MANAGESIEVE_CMD_CAPABILITY, MANAGESIEVE_CMD_LOGOUT}" for c
    using that by (auto simp: token_casecmp_string_def MANAGESIEVE_CMD_AUTHENTICATE_def MANAGESIEVE_CMD_CAPABILITY_def
        MANAGESIEVE_CMD_LOGOUT_def)
  ultimately have "managesieve_in_get_auth_loop B saslprep opt Q i f s w = Some ((0, auth_zero), w2)"
    using st token_casecmp_mk [OF assms(4)] by (simp add: managesieve_in_command_def)
  moreover have "io_out (ios w2 j) = io_out (ios w j)" for j
    using w1(3) w2(4,5) by (cases "j = i") (simp_all add: same_io_def only_io_def)
  ultimately show ?thesis using w2(3) by blast
qed

lemma managesieve_noop_facts:
  "is_word TOKEN_MANAGESIEVE ''NOOP''" "strcaseeq ''NOOP'' MANAGESIEVE_CMD_NOOP" "arg_ok False ''ping''"
  "join SP [''NOOP'', quoted ''ping''] @ CRLF = ''NOOP '' @ DQ # ''ping'' @ DQ # CRLF"
  by code_simp+

theorem managesieve_noop_unanswered_witness:
  "\<exists>w'. managesieve_in_get_auth_loop rfc4648 Some options_zero list_queue EU 0 0
      (world_sending (''NOOP '' @ DQ # ''ping'' @ DQ # CRLF)) = Some ((0, auth_zero), w') \<and>
    avail EU w' = [] \<and> io_out (ios w' EU) = []"
proof -
  note facts = managesieve_noop_facts
  have "avail EU (world_sending (''NOOP '' @ DQ # ''ping'' @ DQ # CRLF)) = join SP [''NOOP'', quoted ''ping''] @ CRLF @ []"
    unfolding world_sending append_Nil2 by (rule facts(4) [symmetric])
  from managesieve_noop_unanswered [OF list_queue.token_queue_axioms world_sending(1) facts(1-3) this, of rfc4648 Some options_zero 0 0]
  show ?thesis by auto
qed

end
