(* ===== verification/Managesieve_Out.thy ===== *)
theory Managesieve_Out
  imports Managesieve_In Pop3_Out
begin

text \<open>
  The ManageSieve side of the real server: \<^verbatim>\<open>perdition/managesieve_out.c\<close>. \<open>i\<close> is the connection to
  the real server; a buffer for the response is given by its size \<open>lim\<close>. Responses are read by
  \<open>pop3_out_response\<close>, as \<^verbatim>\<open>managesieve_out.h\<close> has it.
\<close>

definition read_ok ::
    "'q queue_ops \<Rightarrow> ioid \<Rightarrow> nat option \<Rightarrow> world \<Rightarrow> ((int \<times> string \<times> nat option) \<times> world) option" where
  "read_ok Q i lim w =
     do { ((status, _, buf, n), w1) \<leftarrow> pop3_out_response Q i (mk_token MANAGESIEVE_OK TOKEN_DONT_CARE) lim w;
          Some ((status, buf, n), w1) }"

subsection \<open>Capabilities\<close>

text \<open>
  The body of the loop, which reads one string: \<open>q\<close> is the rest of the current line, \<open>None\<close> if there
  is none. The result is the return value, or the variables for the next round.
\<close>

definition managesieve_out_capability_step ::
    "'q queue_ops \<Rightarrow> ioid \<Rightarrow> 'q option \<Rightarrow> bool \<Rightarrow> bool \<Rightarrow> int \<Rightarrow> world
      \<Rightarrow> ((int + 'q option \<times> bool \<times> bool \<times> int) \<times> world) option" where
  "managesieve_out_capability_step Q i q is_capability is_sasl protocol_status w =
     (case (case q of
              Some q0 \<Rightarrow> (Some q0, w)
            | None \<Rightarrow> (case read_line Q i None TOKEN_MANAGESIEVE 0 w of (r, w1) \<Rightarrow> (map_option fst r, w1))) of
        (None, w1) \<Rightarrow> Some (Inl (-1), w1)
      | (Some q1, w1) \<Rightarrow>
          do { (ws, w2) \<leftarrow> acap_token_wrapper Q i q1 w1;
               if aw_status ws = -2 \<or> aw_status ws = -1 then Some (Inl (-1), w2)
               else do {
                 str \<leftarrow> aw_str ws;
                 if aw_type ws = acap_atom
                 then Some (Inl (if str \<noteq> MANAGESIEVE_OK then 0 else protocol_status), w2)
                 else do {
                   status' \<leftarrow>
                     (if is_capability
                      then Some (if str = MANAGESIEVE_CMD_STARTTLS then protocol_status OR PROTOCOL_S_STARTTLS
                                 else protocol_status)
                      else if is_sasl
                      then do { found \<leftarrow> strcaseword str SASL_MECHANISM_PLAIN;
                                Some (if found = None then protocol_status OR PROTOCOL_S_SASL_PLAIN else protocol_status) }
                      else Some protocol_status);
                   let is_sasl' = (is_sasl \<or> is_capability \<and> str \<noteq> MANAGESIEVE_CMD_STARTTLS \<and> str = ''SASL'');
                   Some (Inr (if acap_token_wrapper_status_is_eol ws then (aw_q ws, True, False, status')
                              else (aw_q ws, False, is_sasl', status')), w2) } } })"

text \<open>
  The loop ends at the first atom, the response. It need not end for a queue library that keeps
  handing out tokens; then the result is \<open>None\<close>.
\<close>

partial_function (option) managesieve_out_capability_loop ::
    "'q queue_ops \<Rightarrow> ioid \<Rightarrow> 'q option \<times> bool \<times> bool \<times> int \<Rightarrow> world \<Rightarrow> (int \<times> world) option" where
  "managesieve_out_capability_loop Q i x w =
     (case x of (q, c, s, st) \<Rightarrow>
        do { (r, w1) \<leftarrow> managesieve_out_capability_step Q i q c s st w;
             case r of Inl rc \<Rightarrow> Some (rc, w1) | Inr x' \<Rightarrow> managesieve_out_capability_loop Q i x' w1 })"

declare managesieve_out_capability_loop.simps [code]

definition managesieve_out_capability :: "'q queue_ops \<Rightarrow> ioid \<Rightarrow> world \<Rightarrow> (int \<times> world) option" where
  "managesieve_out_capability Q i w = managesieve_out_capability_loop Q i (None, True, False, PROTOCOL_S_OK) w"

subsection \<open>Setup and login\<close>

definition managesieve_out_setup :: "'q queue_ops \<Rightarrow> options \<Rightarrow> ioid \<Rightarrow> world \<Rightarrow> (int \<times> world) option" where
  "managesieve_out_setup Q opt i w =
     do { (status, w1) \<leftarrow> managesieve_out_capability Q i w;
          if status < 1 then Some (status, w1)
          else if opt_ssl_mode opt AND SSL_MODE_TLS_OUTGOING = 0 then Some (status XOR PROTOCOL_S_STARTTLS, w1)
          else if status AND PROTOCOL_S_STARTTLS = 0
          then Some (if opt_ssl_mode opt AND SSL_MODE_TLS_OUTGOING_FORCE \<noteq> 0 then -1 else status, w1)
          else do {
            (rc, w2) \<leftarrow> managesieve_write i PERDITION_CLIENT (Some MANAGESIEVE_CMD_STARTTLS) None None w1;
            if rc < 0 then Some (-1, w2)
            else do { ((server_status, _, _), w3) \<leftarrow> read_ok Q i None w2;
                      Some (if server_status < 1 then server_status else status, w3) } } }"

text \<open>The contents of the response buffer are \<open>None\<close> if it has not been written to.\<close>

definition sasl_plain ::
    "base64_bio \<Rightarrow> 'q queue_ops \<Rightarrow> ioid \<Rightarrow> auth \<Rightarrow> nat option \<Rightarrow> world
      \<Rightarrow> ((int \<times> string option \<times> nat option) \<times> world) option" where
  "sasl_plain B Q i a lim w =
     do { challenge \<leftarrow> sasl_plain_challenge_encode B a;
          case challenge of
            None \<Rightarrow> Some ((0, None, lim), w)
          | Some ch \<Rightarrow>
              do { (rc, w1) \<leftarrow> managesieve_write i PERDITION_CLIENT
                       (Some (MANAGESIEVE_CMD_AUTHENTICATE @ SP # DQ # SASL_MECHANISM_PLAIN @ [DQ])) None (Some ch) w;
                   if rc < 0 then Some ((-1, None, lim), w1)
                   else do { ((status, buf, n), w2) \<leftarrow> read_ok Q i lim w1; Some ((status, Some buf, n), w2) } } }"

definition managesieve_out_authenticate ::
    "base64_bio \<Rightarrow> 'q queue_ops \<Rightarrow> ioid \<Rightarrow> int \<Rightarrow> auth \<Rightarrow> int \<Rightarrow> nat option \<Rightarrow> world
      \<Rightarrow> ((int \<times> string option \<times> nat option) \<times> world) option" where
  "managesieve_out_authenticate B Q i tls_state a sasl_mech lim w =
     (let login = (\<lambda>mech w1. if mech AND PROTOCOL_S_SASL_PLAIN = 0 then Some ((3, None, lim), w1)
                              else sasl_plain B Q i a lim w1)
      in if tls_state AND SSL_MODE_TLS_OUTGOING = 0 then login sasl_mech w
         else do { (mech, w1) \<leftarrow> managesieve_out_capability Q i w;
                   if mech < 1 then Some ((mech, None, lim), w1) else login (mech AND PROTOCOL_S_SASL_MASK) w1 })"

subsection \<open>Frame\<close>

lemma pop3_out_response_keeps [keeps_rules]: "only_io i w w1 \<Longrightarrow> keeps i w (pop3_out_response Q i d lim w1)"
  unfolding pop3_out_response_def Let_def by (auto split: prod.split option.split intro: keeps_reads)

lemma read_ok_keeps [keeps_rules]: "only_io i w w1 \<Longrightarrow> keeps i w (read_ok Q i lim w1)"
  unfolding read_ok_def by (auto intro!: keeps_seq keeps_rules)

lemma managesieve_out_capability_step_keeps:
  "keeps i w (managesieve_out_capability_step Q i q c s st w)"
proof -
  have o: "only_io i w w1" if "(case q of Some q0 \<Rightarrow> (Some q0, w)
      | None \<Rightarrow> (case read_line Q i None TOKEN_MANAGESIEVE 0 w of (r, w1) \<Rightarrow> (map_option fst r, w1))) = (r, w1)" for r w1
    using that by (auto split: option.splits prod.splits dest: read_line_only_io)
  show ?thesis
    unfolding managesieve_out_capability_step_def Let_def
    by (auto intro!: keeps_seq keeps_rules keeps_bind_pure [where ?'a = int]
        keeps_bind_pure [where ?'a = "nat option"] o split: option.split prod.split)
qed

lemma managesieve_out_capability_loop_keeps:
  assumes "managesieve_out_capability_loop Q i x w = Some r" shows "only_io i w (snd r)"
  using assms
proof (rule managesieve_out_capability_loop.raw_induct
    [of "\<lambda>Q i x w r. only_io i w (snd r)" "(((Q, i), x), w)", unfolded prod.case, rotated])
  fix f :: "'q queue_ops \<Rightarrow> ioid \<Rightarrow> 'q option \<times> bool \<times> bool \<times> int \<Rightarrow> world \<Rightarrow> (int \<times> world) option"
    and Q :: "'q queue_ops" and i x w r
  assume IH: "\<And>Q i x w r. f Q i x w = Some r \<Longrightarrow> only_io i w (snd r)"
    and "(case x of (q, c, s, st) \<Rightarrow> managesieve_out_capability_step Q i q c s st w \<bind>
       (\<lambda>(r, w1). case r of Inl rc \<Rightarrow> Some (rc, w1) | Inr x' \<Rightarrow> f Q i x' w1)) = Some r"
  then obtain q c s st y w1 where x: "x = (q, c, s, st)"
    and y: "managesieve_out_capability_step Q i q c s st w = Some (y, w1)"
    and r: "(case y of Inl rc \<Rightarrow> Some (rc, w1) | Inr x' \<Rightarrow> f Q i x' w1) = Some r"
    by (cases x) (auto simp: bind_eq_Some_conv)
  have o: "only_io i w w1" using managesieve_out_capability_step_keeps [of i w Q q c s st] y by simp
  show "only_io i w (snd r)"
    using r IH [of Q i _ w1 r] o by (auto split: sum.splits intro: only_io_trans)
qed

lemma managesieve_out_capability_keeps [keeps_rules]:
  "only_io i w w1 \<Longrightarrow> keeps i w (managesieve_out_capability Q i w1)"
  by (auto simp: managesieve_out_capability_def keeps_def dest!: managesieve_out_capability_loop_keeps intro: only_io_trans)

lemma managesieve_out_setup_keeps [keeps_rules]: "only_io i w w1 \<Longrightarrow> keeps i w (managesieve_out_setup Q opt i w1)"
  unfolding managesieve_out_setup_def by (auto intro!: keeps_seq keeps_rules)

lemma sasl_plain_keeps [keeps_rules]: "only_io i w w1 \<Longrightarrow> keeps i w (sasl_plain B Q i a lim w1)"
  unfolding sasl_plain_def
  by (auto intro!: keeps_seq keeps_rules keeps_bind_pure [where ?'a = "string option"] split: option.split)

lemma managesieve_out_authenticate_keeps [keeps_rules]:
  "only_io i w w1 \<Longrightarrow> keeps i w (managesieve_out_authenticate B Q i st a m lim w1)"
  unfolding managesieve_out_authenticate_def Let_def by (auto intro!: keeps_seq keeps_rules)

subsection \<open>What a list of capabilities yields\<close>

text \<open>A capability is a name with or without a value, both quoted.\<close>

definition cap_words :: "string \<times> string option \<Rightarrow> string list" where
  "cap_words c = quoted (fst c) # (case snd c of None \<Rightarrow> [] | Some v \<Rightarrow> [quoted v])"

definition cap_ok :: "string \<times> string option \<Rightarrow> bool" where
  "cap_ok c \<longleftrightarrow> arg_ok False (fst c) \<and> (case snd c of None \<Rightarrow> True | Some v \<Rightarrow> arg_ok False v)"

definition cap_bits :: "string \<times> string option \<Rightarrow> int \<Rightarrow> int" where
  "cap_bits c st =
     (if fst c = MANAGESIEVE_CMD_STARTTLS then st OR PROTOCOL_S_STARTTLS
      else if fst c = ''SASL'' \<and> snd c \<noteq> None then st OR PROTOCOL_S_SASL_PLAIN else st)"

lemma cap_bits_fold:
  "fold cap_bits cs st =
     st OR (if MANAGESIEVE_CMD_STARTTLS \<in> fst ` set cs then PROTOCOL_S_STARTTLS else 0)
        OR (if \<exists>v. (''SASL'', Some v) \<in> set cs then PROTOCOL_S_SASL_PLAIN else 0)"
proof (induction cs arbitrary: st)
  case (Cons c cs)
  obtain n v where c: "c = (n, v)" by fastforce
  show ?case
    unfolding fold.simps comp_def Cons.IH
    by (cases v) (auto simp: c cap_bits_def MANAGESIEVE_CMD_STARTTLS_def or.assoc or.commute or.left_commute)
qed simp

lemma is_word_quoted_arg: "arg_ok False s \<Longrightarrow> is_word TOKEN_MANAGESIEVE (quoted s)"
  using is_word_arg [of False s] by (simp add: arg_word_def)

lemma wrapper_quoted_arg:
  assumes "token_queue Q \<alpha>" and "\<alpha> q = mk_token (quoted s) f # ts" and "arg_ok False s"
  shows "\<exists>q1. \<alpha> q1 = ts \<and> acap_token_wrapper Q i q w =
     Some (\<lparr>aw_status = 0, aw_type = acap_quoted, aw_q = (if ts = [] then None else Some q1), aw_str = Some s\<rparr>, w)"
  using acap_token_wrapper_quoted_token [OF assms(1,2)] assms(3)
  by (auto simp: arg_ok_def quoted_def quote_chars_id)

lemma sasl_plain_never_found: "strcaseword s SASL_MECHANISM_PLAIN = Some None"
  by (rule strcaseword_never_finds) (code_simp+)

lemma capability_line:
  assumes "token_queue Q \<alpha>" and "wf_buffer w" and "cap_ok c" and "avail i w = join SP (cap_words c) @ CRLF @ rest"
  shows "\<exists>w'. managesieve_out_capability_loop Q i (None, True, False, st) w =
      managesieve_out_capability_loop Q i (None, True, False, cap_bits c st) w' \<and>
    avail i w' = rest \<and> wf_buffer w' \<and> talk i w w' []"
proof -
  obtain n v where c: "c = (n, v)" by fastforce
  have words: "\<forall>x \<in> set (cap_words c). is_word TOKEN_MANAGESIEVE x"
    using assms(3) by (auto simp: cap_words_def cap_ok_def is_word_quoted_arg split: option.splits)
  obtain q0 w1 where r: "read_line Q i None TOKEN_MANAGESIEVE 0 w = (Some (q0, []), w1)"
      "\<alpha> q0 = line_tokens (cap_words c)" "avail i w1 = rest" "wf_buffer w1"
    using token_queue.read_line_words [OF assms(1,2) _ _ words assms(4), where m = 0] by (auto simp: cap_words_def)
  have t: "talk i w w1 []" using read_line_talk [OF r(1)] r(4) by blast
  note unf = managesieve_out_capability_loop.simps managesieve_out_capability_step_def
  have "managesieve_out_capability_loop Q i (None, True, False, st) w =
      managesieve_out_capability_loop Q i (None, True, False, cap_bits c st) w1"
  proof (cases v)
    case None
    with r(2) have "\<alpha> q0 = [mk_token (quoted n) TOKEN_EOL]" by (simp add: c cap_words_def line_tokens_def)
    from wrapper_quoted_arg [OF assms(1) this, of i w1] assms(3) None show ?thesis
      by (subst managesieve_out_capability_loop.simps)
        (auto simp: managesieve_out_capability_step_def r(1) c cap_ok_def cap_bits_def acap_token_wrapper_status_is_eol_def)
  next
    case (Some x)
    with r(2) have a: "\<alpha> q0 = mk_token (quoted n) TOKEN_NONE # [mk_token (quoted x) TOKEN_EOL]"
      by (simp add: c cap_words_def line_tokens_def)
    obtain q1 where q1: "\<alpha> q1 = [mk_token (quoted x) TOKEN_EOL]"
        "acap_token_wrapper Q i q0 w1 =
           Some (\<lparr>aw_status = 0, aw_type = acap_quoted, aw_q = Some q1, aw_str = Some n\<rparr>, w1)"
      using wrapper_quoted_arg [OF assms(1) a, of i w1] assms(3) by (auto simp: c cap_ok_def)
    have q2: "acap_token_wrapper Q i q1 w1 =
        Some (\<lparr>aw_status = 0, aw_type = acap_quoted, aw_q = None, aw_str = Some x\<rparr>, w1)"
      using wrapper_quoted_arg [OF assms(1) q1(1), of i w1] assms(3) Some by (auto simp: c cap_ok_def)
    let ?st1 = "if n = MANAGESIEVE_CMD_STARTTLS then st OR PROTOCOL_S_STARTTLS else st"
    have "managesieve_out_capability_loop Q i (None, True, False, st) w =
        managesieve_out_capability_loop Q i (Some q1, False, n \<noteq> MANAGESIEVE_CMD_STARTTLS \<and> n = ''SASL'', ?st1) w1"
      by (subst managesieve_out_capability_loop.simps)
        (simp add: managesieve_out_capability_step_def r(1) q1(2) acap_token_wrapper_status_is_eol_def Let_def)
    also have "\<dots> = managesieve_out_capability_loop Q i (None, True, False, cap_bits c st) w1"
      by (subst managesieve_out_capability_loop.simps)
        (simp add: managesieve_out_capability_step_def q2 acap_token_wrapper_status_is_eol_def Let_def
          sasl_plain_never_found c Some cap_bits_def)
    finally show ?thesis .
  qed
  with r t show ?thesis by blast
qed

lemma capability_lines:
  assumes "token_queue Q \<alpha>" and "wf_buffer w" and "\<forall>c \<in> set cs. cap_ok c"
    and "avail i w = concat (map (\<lambda>c. join SP (cap_words c) @ CRLF) cs) @ rest"
  shows "\<exists>w'. managesieve_out_capability_loop Q i (None, True, False, st) w =
      managesieve_out_capability_loop Q i (None, True, False, fold cap_bits cs st) w' \<and>
    avail i w' = rest \<and> wf_buffer w' \<and> talk i w w' []"
  using assms(2-4)
proof (induction cs arbitrary: w st)
  case Nil
  then show ?case by auto
next
  case (Cons c cs)
  have "cap_ok c" "avail i w = join SP (cap_words c) @ CRLF @ concat (map (\<lambda>c. join SP (cap_words c) @ CRLF) cs) @ rest"
    using Cons.prems by simp_all
  from capability_line [OF assms(1) Cons.prems(1) this, of st]
  obtain w1 where w1: "managesieve_out_capability_loop Q i (None, True, False, st) w =
      managesieve_out_capability_loop Q i (None, True, False, cap_bits c st) w1"
    "avail i w1 = concat (map (\<lambda>c. join SP (cap_words c) @ CRLF) cs) @ rest" "wf_buffer w1" "talk i w w1 []" by blast
  from Cons.IH [OF w1(3) _ w1(2), of "cap_bits c st"] Cons.prems(2)
  obtain w2 where w2: "managesieve_out_capability_loop Q i (None, True, False, cap_bits c st) w1 =
      managesieve_out_capability_loop Q i (None, True, False, fold cap_bits (c # cs) st) w2"
    "avail i w2 = rest" "wf_buffer w2" "talk i w1 w2 []" by auto
  with w1 talk_trans [OF w1(4) w2(4)] show ?case by auto
qed

text \<open>The line that ends the list; its first word is an atom.\<close>

definition response_ok :: "string list \<Rightarrow> bool" where
  "response_ok ws \<longleftrightarrow>
     ws \<noteq> [] \<and> (\<forall>x \<in> set ws. is_word TOKEN_MANAGESIEVE x) \<and> acap_strn_is_atom (hd ws) \<and> hd ws \<noteq> [] \<and> no_nul (hd ws)"

lemma capability_response:
  assumes "token_queue Q \<alpha>" and "wf_buffer w" and "response_ok ws" and "avail i w = join SP ws @ CRLF @ rest"
  shows "\<exists>w'. managesieve_out_capability_loop Q i (None, c, s, st) w =
      Some (if hd ws = MANAGESIEVE_OK then st else 0, w') \<and> avail i w' = rest \<and> wf_buffer w' \<and> talk i w w' []"
proof -
  obtain y ys where ws: "ws = y # ys" using assms(3) by (cases ws) (auto simp: response_ok_def)
  obtain q0 w1 where r: "read_line Q i None TOKEN_MANAGESIEVE 0 w = (Some (q0, []), w1)"
      "\<alpha> q0 = line_tokens ws" "avail i w1 = rest" "wf_buffer w1"
    using token_queue.read_line_words [OF assms(1,2) _ _ _ assms(4), where m = 0 and flag = TOKEN_MANAGESIEVE] assms(3)
    by (auto simp: response_ok_def)
  obtain f q1 where q1: "qpop Q q0 = Some (q1, mk_token y f)"
    using token_queue.pop_Cons [OF assms(1), of q0] r(2) by (auto simp: ws line_tokens_Cons split: if_splits)
  have y: "acap_strn_is_atom y" "y \<noteq> []" "no_nul y" using assms(3) by (simp_all add: ws response_ok_def)
  have "\<not> atom_char (schar CHR ''{'')" by code_simp
  then have "hd y \<noteq> CHR ''{''" using y by (cases y) (auto simp: acap_strn_is_atom_def)
  then have "acap_token_status (mk_token y f) = (acap_atom, length y)" using y by (simp add: acap_token_status_def)
  then have "acap_token_wrapper Q i q0 w1 =
      Some (\<lparr>aw_status = 0, aw_type = acap_atom, aw_q = (if qlength Q q1 \<noteq> 0 then Some q1 else None), aw_str = Some y\<rparr>, w1)"
    using q1 y by (simp add: acap_token_wrapper_def acap_token_wrapper_atom_def acap_token_wrapper_strn_def strn_to_str_def)
  then have "managesieve_out_capability_loop Q i (None, c, s, st) w = Some (if y = MANAGESIEVE_OK then st else 0, w1)"
    by (subst managesieve_out_capability_loop.simps) (simp add: managesieve_out_capability_step_def r(1))
  moreover have "talk i w w1 []" using read_line_talk [OF r(1)] r(4) by blast
  ultimately show ?thesis using r ws by auto
qed

definition server_capabilities :: "(string \<times> string option) list \<Rightarrow> string list \<Rightarrow> string" where
  "server_capabilities cs ws = concat (map (\<lambda>c. join SP (cap_words c) @ CRLF) cs) @ join SP ws @ CRLF"

definition capability_flags :: "(string \<times> string option) list \<Rightarrow> int" where
  "capability_flags cs =
     PROTOCOL_S_OK OR (if MANAGESIEVE_CMD_STARTTLS \<in> fst ` set cs then PROTOCOL_S_STARTTLS else 0)
       OR (if \<exists>v. (''SASL'', Some v) \<in> set cs then PROTOCOL_S_SASL_PLAIN else 0)"

lemma capability_talk:
  assumes "token_queue Q \<alpha>" and "wf_buffer w" and "\<forall>c \<in> set cs. cap_ok c" and "response_ok ws"
    and "avail i w = server_capabilities cs ws @ rest"
  shows "\<exists>w'. managesieve_out_capability Q i w = Some (if hd ws = MANAGESIEVE_OK then capability_flags cs else 0, w') \<and>
    avail i w' = rest \<and> wf_buffer w' \<and> talk i w w' []"
proof -
  have "avail i w = concat (map (\<lambda>c. join SP (cap_words c) @ CRLF) cs) @ join SP ws @ CRLF @ rest"
    using assms(5) by (simp add: server_capabilities_def)
  from capability_lines [OF assms(1-3) this, of PROTOCOL_S_OK]
  obtain w1 where w1: "managesieve_out_capability Q i w =
      managesieve_out_capability_loop Q i (None, True, False, fold cap_bits cs PROTOCOL_S_OK) w1"
    "avail i w1 = join SP ws @ CRLF @ rest" "wf_buffer w1" "talk i w w1 []"
    by (auto simp: managesieve_out_capability_def)
  from capability_response [OF assms(1) w1(3) assms(4) w1(2)] w1(1) talk_trans [OF w1(4)] show ?thesis
    by (fastforce simp: cap_bits_fold capability_flags_def or.assoc)
qed

subsection \<open>Logging in\<close>

lemma read_ok_line:
  assumes "token_queue Q \<alpha>" and "wf_buffer w" and "pop3_line lim (z # zs)"
    and "avail i w = join SP (z # zs) @ CRLF @ rest"
  shows "\<exists>w'. read_ok Q i lim w =
      Some ((of_bool (strcaseeq z MANAGESIEVE_OK), line_bytes lim (z # zs), left_size lim (z # zs)), w') \<and>
    avail i w' = rest \<and> wf_buffer w' \<and> talk i w w' []"
proof -
  obtain q w' where r: "pop3_out_response Q i (mk_token MANAGESIEVE_OK TOKEN_DONT_CARE) lim w =
      Some ((of_bool (token_cmp (mk_token MANAGESIEVE_OK TOKEN_DONT_CARE) (word_token z zs)), Some q,
             line_bytes lim (z # zs), left_size lim (z # zs)), w')"
      "avail i w' = rest" "talk i w w' []" "wf_buffer w'"
    using pop3_out_response_line [OF assms] by metis
  have "token_cmp (mk_token MANAGESIEVE_OK TOKEN_DONT_CARE) (word_token z zs) = strcaseeq z MANAGESIEVE_OK"
    using strncaseeq_no_nul [of z "length z" MANAGESIEVE_OK]
    by (auto simp: token_cmp_def word_token_def token_flag_defs MANAGESIEVE_OK_def no_nul_def strcaseeq_def strncaseeq_sym
        dest: arg_cong [where f = length])
  with r show ?thesis by (auto simp: read_ok_def)
qed

lemma cmd_talk:
  assumes "reliable i w" and "wf_buffer w" and "length cmd < STR_WRITE_BUF_LEN - 2" and "avail i w = x"
  shows "\<exists>w'. managesieve_write i flag (Some cmd) None None w = Some (0, w') \<and> talk i w w' (cmd @ CRLF) \<and>
    wf_buffer w' \<and> avail i w' = x"
proof -
  have "managesieve_write i flag (Some cmd) None None w = Some (0, put i (cmd @ CRLF) w)"
    using assms(1,3) by (simp add: managesieve_write_def managesieve_write_list_def acap_zero_def
        managesieve_write_raw_eq reliable_accepts)
  then show ?thesis using put_talk [OF assms(1), of "cmd @ CRLF"] assms(2,4) by simp
qed

lemma arg_talk:
  assumes "reliable i w" and "wf_buffer w" and "one_line m" and "length cmd + length m < STR_WRITE_BUF_LEN - 10"
    and "avail i w = x"
  shows "\<exists>w'. managesieve_write i flag (Some cmd) None (Some m) w = Some (0, w') \<and>
    talk i w w' (cmd @ SP # DQ # m @ DQ # CRLF) \<and> wf_buffer w' \<and> avail i w' = x"
proof -
  have l: "length (cmd @ SP # DQ # m @ [DQ]) < STR_WRITE_BUF_LEN - 2" using assms(4) by simp
  have "managesieve_write i flag (Some cmd) None (Some m) w = Some (0, put i ((cmd @ SP # DQ # m @ [DQ]) @ CRLF) w)"
    using assms(1,3) l by (simp add: managesieve_write_def managesieve_write_list_def acap_from_str_eq one_line_def
        managesieve_write_raw_eq reliable_accepts)
  then show ?thesis using put_talk [OF assms(1), of "(cmd @ SP # DQ # m @ [DQ]) @ CRLF"] assms(2,5) by simp
qed

lemma capability_flags_facts:
  "0 < capability_flags cs" "capability_flags cs AND PROTOCOL_S_STARTTLS \<noteq> 0 \<longleftrightarrow> MANAGESIEVE_CMD_STARTTLS \<in> fst ` set cs"
  "capability_flags cs AND PROTOCOL_S_SASL_PLAIN \<noteq> 0 \<longleftrightarrow> (\<exists>v. (''SASL'', Some v) \<in> set cs)"
  by (auto simp: capability_flags_def PROTOCOL_S_OK_def PROTOCOL_S_STARTTLS_def PROTOCOL_S_SASL_PLAIN_def)

lemma managesieve_setup_talk:
  assumes "token_queue Q \<alpha>" and "wf_buffer w" and "reliable i w" and "\<forall>c \<in> set cs. cap_ok c"
    and "response_ok ws" and "hd ws = MANAGESIEVE_OK" and "pop3_line None (z # zs)"
    and "avail i w = server_capabilities cs ws @ join SP (z # zs) @ CRLF @ rest"
  shows "let tls = opt_ssl_mode opt AND SSL_MODE_TLS_OUTGOING \<noteq> 0;
             force = opt_ssl_mode opt AND SSL_MODE_TLS_OUTGOING_FORCE \<noteq> 0;
             has = MANAGESIEVE_CMD_STARTTLS \<in> fst ` set cs;
             flags = capability_flags cs
    in \<exists>w'. managesieve_out_setup Q opt i w =
         Some (if \<not> tls then flags XOR PROTOCOL_S_STARTTLS
               else if has then (if strcaseeq z MANAGESIEVE_OK then flags else 0)
               else if force then -1 else flags, w') \<and>
       talk i w w' (if tls \<and> has then MANAGESIEVE_CMD_STARTTLS @ CRLF else []) \<and>
       avail i w' = (if tls \<and> has then rest else join SP (z # zs) @ CRLF @ rest)"
proof -
  obtain w1 where w1: "managesieve_out_capability Q i w = Some (capability_flags cs, w1)"
      "avail i w1 = join SP (z # zs) @ CRLF @ rest" "wf_buffer w1" "talk i w w1 []"
    using capability_talk [OF assms(1,2,4,5,8)] assms(6) by auto
  note fl = capability_flags_facts [of cs]
  show ?thesis
  proof (cases "opt_ssl_mode opt AND SSL_MODE_TLS_OUTGOING \<noteq> 0 \<and> MANAGESIEVE_CMD_STARTTLS \<in> fst ` set cs")
    case False
    then show ?thesis using w1 fl unfolding Let_def
      by (intro exI [of _ w1]) (auto simp: managesieve_out_setup_def)
  next
    case True
    have r: "reliable i w1" using talk_reliable [OF w1(4) assms(3)] .
    have "length MANAGESIEVE_CMD_STARTTLS < STR_WRITE_BUF_LEN - 2"
      by (simp add: MANAGESIEVE_CMD_STARTTLS_def STR_WRITE_BUF_LEN_def MAX_LINE_LENGTH_def)
    from cmd_talk [OF r w1(3) this w1(2)] obtain w2
      where w2: "managesieve_write i PERDITION_CLIENT (Some MANAGESIEVE_CMD_STARTTLS) None None w1 = Some (0, w2)"
        "talk i w1 w2 (MANAGESIEVE_CMD_STARTTLS @ CRLF)" "wf_buffer w2" "avail i w2 = join SP (z # zs) @ CRLF @ rest"
      by blast
    obtain w3 where w3: "read_ok Q i None w2 =
        Some ((of_bool (strcaseeq z MANAGESIEVE_OK), line_bytes None (z # zs), left_size None (z # zs)), w3)"
        "avail i w3 = rest" "talk i w2 w3 []"
      using read_ok_line [OF assms(1) w2(3) assms(7) w2(4)] by blast
    have "talk i w w3 (MANAGESIEVE_CMD_STARTTLS @ CRLF)"
      using talk_trans [OF talk_trans [OF w1(4) w2(2)] w3(3)] by simp
    then show ?thesis using True w1(1) w2(1) w3 fl unfolding Let_def
      by (intro exI [of _ w3]) (simp add: managesieve_out_setup_def)
  qed
qed

text \<open>The challenge of short credentials is sent as a quoted string and read back as such.\<close>

lemma b64_arg:
  assumes "b64_text B" and "length data \<le> 508"
  shows "arg_ok False (bio_encode B data)" "one_line (bio_encode B data)" "length (bio_encode B data) \<le> 1020"
    "quoted (bio_encode B data) = DQ # bio_encode B data @ [DQ]"
proof -
  have c: "\<forall>c \<in> set (bio_encode B data). b64_char c" and l: "length (bio_encode B data) \<le> 2 * length data + 4"
    using assms(1) by (simp_all add: b64_text_def)
  have n: "DQ \<notin> set (bio_encode B data)" "BS \<notin> set (bio_encode B data)" "CR \<notin> set (bio_encode B data)"
      "LF \<notin> set (bio_encode B data)"
    using bspec [OF c, of DQ] bspec [OF c, of BS] bspec [OF c, of CR] bspec [OF c, of LF] b64_char_facts by blast+
  show "arg_ok False (bio_encode B data)" using n l assms(2) b64_no_nul [OF assms(1), of data]
    by (simp add: arg_ok_def ACAP_QUOTED_MAX_def)
  show "one_line (bio_encode B data)" using n by (simp add: one_line_def)
  show "length (bio_encode B data) \<le> 1020" using l assms(2) by simp
  show "quoted (bio_encode B data) = DQ # bio_encode B data @ [DQ]" using n by (simp add: quoted_def quote_chars_id)
qed

lemma managesieve_login_talk:
  assumes "token_queue Q \<alpha>" and "wf_buffer w" and "reliable i w"
    and "tls_state AND SSL_MODE_TLS_OUTGOING = 0" and "mech AND PROTOCOL_S_SASL_PLAIN \<noteq> 0"
    and "sasl_plain_challenge_encode B a = Some (Some ch)" and "one_line ch" and "length ch \<le> 1020"
    and "pop3_line lim (z # zs)" and "avail i w = join SP (z # zs) @ CRLF @ rest"
  shows "\<exists>w'. managesieve_out_authenticate B Q i tls_state a mech lim w =
      Some ((of_bool (strcaseeq z MANAGESIEVE_OK), Some (line_bytes lim (z # zs)), left_size lim (z # zs)), w') \<and>
    talk i w w' (MANAGESIEVE_CMD_AUTHENTICATE @ SP # DQ # SASL_MECHANISM_PLAIN @ DQ # SP # DQ # ch @ DQ # CRLF) \<and>
    avail i w' = rest"
proof -
  let ?cmd = "MANAGESIEVE_CMD_AUTHENTICATE @ SP # DQ # SASL_MECHANISM_PLAIN @ [DQ]"
  have l: "length ?cmd + length ch < STR_WRITE_BUF_LEN - 10"
    using assms(8) by (simp add: MANAGESIEVE_CMD_AUTHENTICATE_def SASL_MECHANISM_PLAIN_def STR_WRITE_BUF_LEN_def MAX_LINE_LENGTH_def)
  obtain w1 where w1: "managesieve_write i PERDITION_CLIENT (Some ?cmd) None (Some ch) w = Some (0, w1)"
      "talk i w w1 (?cmd @ SP # DQ # ch @ DQ # CRLF)" "wf_buffer w1" "avail i w1 = join SP (z # zs) @ CRLF @ rest"
    using arg_talk [OF assms(3,2,7) l assms(10)] by blast
  obtain w2 where w2: "read_ok Q i lim w1 =
      Some ((of_bool (strcaseeq z MANAGESIEVE_OK), line_bytes lim (z # zs), left_size lim (z # zs)), w2)"
      "avail i w2 = rest" "talk i w1 w2 []"
    using read_ok_line [OF assms(1) w1(3) assms(9) w1(4)] by blast
  from talk_trans [OF w1(2) w2(3)] w1(1) w2(1,2) assms(4-6) show ?thesis
    by (intro exI [of _ w2]) (simp add: managesieve_out_authenticate_def sasl_plain_def)
qed

lemma managesieve_command_words:
  "quoted SASL_MECHANISM_PLAIN = DQ # SASL_MECHANISM_PLAIN @ [DQ]"
  "is_word TOKEN_MANAGESIEVE MANAGESIEVE_CMD_AUTHENTICATE" "arg_ok False SASL_MECHANISM_PLAIN"
  by code_simp+

text \<open>
  C33. The ManageSieve login with the real server sends one AUTHENTICATE command and takes OK for success
  and anything else for failure. A proxy of the same kind on the other side would read exactly the same
  credentials from that command, as SASLprep prepares them, however it is divided into packets.
\<close>

theorem managesieve_login_chain:
  assumes "token_queue Q \<alpha>" and "wf_buffer w" and "reliable i w"
    and "tls_state AND SSL_MODE_TLS_OUTGOING = 0" and "mech AND PROTOCOL_S_SASL_PLAIN \<noteq> 0"
    and "b64_inverse B" and "b64_text B"
    and "authentication_id a = Some authn" and "passwd a = Some pw" and "no_nul authn" and "no_nul pw"
    and "saslprep authn = Some n" and "n \<noteq> []"
    and "case authorisation_id a of None \<Rightarrow> y = None
         | Some s \<Rightarrow> s \<noteq> [] \<and> no_nul s \<and> saslprep s = y \<and> map_option length y = Some (length s)"
    and "length (case authorisation_id a of None \<Rightarrow> [] | Some s \<Rightarrow> s) + length authn + length pw \<le> 500"
    and "pop3_line lim (z # zs)" and "avail i w = join SP (z # zs) @ CRLF @ rest"
  shows "\<exists>sent w'. managesieve_out_authenticate B Q i tls_state a mech lim w =
      Some ((of_bool (strcaseeq z MANAGESIEVE_OK), Some (line_bytes lim (z # zs)), left_size lim (z # zs)), w') \<and>
    io_out (ios w' i) = io_out (ios w i) @ sent \<and> avail i w' = rest \<and>
    (\<forall>opt j f v more. wf_buffer v \<and> avail j v = sent @ more \<longrightarrow>
       (\<exists>v'. managesieve_in_get_auth B saslprep opt Q j f 0 v =
           Some ((0, Some (auth_set_sasl_plain y (Some n) (Some pw)), None), v') \<and> avail j v' = more))"
proof -
  let ?data = "(case authorisation_id a of None \<Rightarrow> [] | Some s \<Rightarrow> s) @ NUL # authn @ NUL # pw"
  let ?ch = "bio_encode B ?data"
  have len: "length (case authorisation_id a of None \<Rightarrow> [] | Some s \<Rightarrow> s) + length authn + length pw < 2 ^ 29"
    using assms(15) by simp
  have enc: "sasl_plain_challenge_encode B a = Some (Some ?ch)"
    "sasl_plain_challenge_decode B saslprep ?ch = Some (auth_status_ok (auth_set_sasl_plain y (Some n) (Some pw)))"
    using sasl_plain_encoded [where saslprep = saslprep and n = n and z = y, OF assms(6-14) len] by (simp_all add: Let_def)
  have "length ?data \<le> 508" using assms(15) by simp
  note arg = b64_arg [OF assms(7) this]
  obtain w' where w': "managesieve_out_authenticate B Q i tls_state a mech lim w =
      Some ((of_bool (strcaseeq z MANAGESIEVE_OK), Some (line_bytes lim (z # zs)), left_size lim (z # zs)), w')"
    "talk i w w' (MANAGESIEVE_CMD_AUTHENTICATE @ SP # DQ # SASL_MECHANISM_PLAIN @ DQ # SP # DQ # ?ch @ DQ # CRLF)"
    "avail i w' = rest"
    using managesieve_login_talk [OF assms(1-5) enc(1) arg(2,3) assms(16,17)] by blast
  let ?sent = "MANAGESIEVE_CMD_AUTHENTICATE @ SP # DQ # SASL_MECHANISM_PLAIN @ DQ # SP # DQ # ?ch @ DQ # CRLF"
  have "\<exists>v'. managesieve_in_get_auth B saslprep opt Q j f 0 v =
      Some ((0, Some (auth_set_sasl_plain y (Some n) (Some pw)), None), v') \<and> avail j v' = more"
    if v: "wf_buffer v" "avail j v = ?sent @ more" for opt j f v more
  proof -
    have "avail j v = join SP [MANAGESIEVE_CMD_AUTHENTICATE, quoted SASL_MECHANISM_PLAIN, arg_word False 0 ?ch] @ CRLF @
        arg_rest False ?ch @ more"
      by (simp add: v(2) arg_word_def arg_rest_def managesieve_command_words(1) arg(4))
    moreover have "strcaseeq s s" for s by simp
    ultimately show ?thesis
      using managesieve_plain_read [where s = 0 and i = j and rest = more and opt = opt and f = f and flag = 0, OF assms(1) v(1) _ managesieve_command_words(2) _ _ managesieve_command_words(3) arg(1) _ enc(2)] by auto
  qed
  with w' show ?thesis by (intro exI [of _ ?sent] exI [of _ w']) (auto simp: talk_def)
qed

text \<open>
  Setup with a ManageSieve server that lists its capabilities and is ready: STARTTLS is sent exactly
  if TLS is wanted and offered, its refusal or the lack of a forced TLS makes the setup fail, and the
  flags returned are those of the list. Any value of the capability SASL counts as PLAIN, and without
  TLS the bit for STARTTLS comes out inverted.
\<close>

lemma managesieve_out_setup_dialogue:
  assumes "token_queue Q \<alpha>" and "wf_buffer w" and "reliable i w" and "\<forall>c \<in> set cs. cap_ok c"
    and "response_ok ws" and "hd ws = MANAGESIEVE_OK" and "pop3_line None (z # zs)"
    and "avail i w = server_capabilities cs ws @ join SP (z # zs) @ CRLF @ rest"
  shows "let tls = opt_ssl_mode opt AND SSL_MODE_TLS_OUTGOING \<noteq> 0;
             force = opt_ssl_mode opt AND SSL_MODE_TLS_OUTGOING_FORCE \<noteq> 0;
             has = MANAGESIEVE_CMD_STARTTLS \<in> fst ` set cs;
             flags = capability_flags cs
    in \<exists>w'. managesieve_out_setup Q opt i w =
         Some (if \<not> tls then flags XOR PROTOCOL_S_STARTTLS
               else if has then (if strcaseeq z MANAGESIEVE_OK then flags else 0)
               else if force then -1 else flags, w') \<and>
       talk i w w' (if tls \<and> has then MANAGESIEVE_CMD_STARTTLS @ CRLF else []) \<and>
       avail i w' = (if tls \<and> has then rest else join SP (z # zs) @ CRLF @ rest)"
  using assms by (rule managesieve_setup_talk)

subsection \<open>Concrete dialogues\<close>

definition sieve_caps :: "(string \<times> string option) list" where
  "sieve_caps = [(''IMPLEMENTATION'', Some ''demo 1''), (''SASL'', Some ''GSSAPI''), (''STARTTLS'', None)]"

lemma sieve_demo_facts:
  "\<forall>c \<in> set sieve_caps. cap_ok c" "response_ok [''OK'']" "hd [''OK''] = MANAGESIEVE_OK" "pop3_line None [''OK'']"
  "server_capabilities sieve_caps [''OK''] @ join SP [''OK''] @ CRLF @ [] =
     DQ # ''IMPLEMENTATION'' @ DQ # SP # DQ # ''demo 1'' @ DQ # CRLF @ DQ # ''SASL'' @ DQ # SP # DQ # ''GSSAPI'' @ DQ # CRLF @
     DQ # ''STARTTLS'' @ DQ # CRLF @ ''OK'' @ CRLF @ ''OK'' @ CRLF"
  "strcaseeq ''OK'' MANAGESIEVE_OK" "capability_flags sieve_caps = 11" "MANAGESIEVE_CMD_STARTTLS \<in> fst ` set sieve_caps"
proof -
  show "\<forall>c \<in> set sieve_caps. cap_ok c" by code_simp
  show "response_ok [''OK'']" by code_simp
  show "hd [''OK''] = MANAGESIEVE_OK" by code_simp
  show "pop3_line None [''OK'']" by code_simp
  show "server_capabilities sieve_caps [''OK''] @ join SP [''OK''] @ CRLF @ [] =
     DQ # ''IMPLEMENTATION'' @ DQ # SP # DQ # ''demo 1'' @ DQ # CRLF @ DQ # ''SASL'' @ DQ # SP # DQ # ''GSSAPI'' @ DQ # CRLF @
     DQ # ''STARTTLS'' @ DQ # CRLF @ ''OK'' @ CRLF @ ''OK'' @ CRLF" by code_simp
  show "strcaseeq ''OK'' MANAGESIEVE_OK" by code_simp
  show "MANAGESIEVE_CMD_STARTTLS \<in> fst ` set sieve_caps" by (simp add: sieve_caps_def MANAGESIEVE_CMD_STARTTLS_def)
  then show "capability_flags sieve_caps = 11"
    by (auto simp: capability_flags_def sieve_caps_def PROTOCOL_S_OK_def PROTOCOL_S_STARTTLS_def PROTOCOL_S_SASL_PLAIN_def)
qed

theorem managesieve_out_setup_dialogue_witness:
  "\<exists>w'. managesieve_out_setup list_queue (options_zero\<lparr>opt_ssl_mode := SSL_MODE_TLS_OUTGOING\<rparr>) RS
      (world_sending (server_capabilities sieve_caps [''OK''] @ join SP [''OK''] @ CRLF @ [])) = Some (11, w') \<and>
    io_out (ios w' RS) = ''STARTTLS'' @ CRLF"
proof -
  note facts = sieve_demo_facts
  have m: "SSL_MODE_TLS_OUTGOING AND SSL_MODE_TLS_OUTGOING \<noteq> 0" by code_simp
  show ?thesis
    using managesieve_out_setup_dialogue [where rest = "[]", OF list_queue.token_queue_axioms world_sending(1) world_sending(4) facts(1-4) world_sending(2),
        where i = RS and opt = "options_zero\<lparr>opt_ssl_mode := SSL_MODE_TLS_OUTGOING\<rparr>"] m facts(6-8)
    by (auto simp: talk_def Let_def MANAGESIEVE_CMD_STARTTLS_def)
qed

theorem managesieve_login_chain_witness:
  "\<exists>sent w'. managesieve_out_authenticate rfc4648 list_queue RS 0 (auth_set_sasl_plain None (Some ''user'') (Some ''secret'')) 8 None
      (world_sending (join SP [''OK''] @ CRLF @ [])) = Some ((1, Some [], None), w') \<and> io_out (ios w' RS) = sent \<and>
    (\<exists>v'. managesieve_in_get_auth rfc4648 Some options_zero list_queue EU 0 0 (world_sending sent) =
       Some ((0, Some (auth_set_sasl_plain None (Some ''user'') (Some ''secret'')), None), v') \<and> avail EU v' = [])"
proof -
  let ?a = "auth_set_sasl_plain None (Some ''user'') (Some ''secret'')"
  have nn: "no_nul ''user''" "no_nul ''secret''" by (simp_all add: no_nul_def)
  have m: "0 AND SSL_MODE_TLS_OUTGOING = 0" "8 AND PROTOCOL_S_SASL_PLAIN \<noteq> 0"
    by (simp_all add: PROTOCOL_S_SASL_PLAIN_def)
  have "\<exists>sent w'. managesieve_out_authenticate rfc4648 list_queue RS 0 ?a 8 None (world_sending (join SP [''OK''] @ CRLF @ [])) =
      Some ((of_bool (strcaseeq ''OK'' MANAGESIEVE_OK), Some (line_bytes None [''OK'']), left_size None [''OK'']), w') \<and>
    io_out (ios w' RS) = io_out (ios (world_sending (join SP [''OK''] @ CRLF @ [])) RS) @ sent \<and> avail RS w' = [] \<and>
    (\<forall>opt j f v more. wf_buffer v \<and> avail j v = sent @ more \<longrightarrow>
       (\<exists>v'. managesieve_in_get_auth rfc4648 Some opt list_queue j f 0 v =
         Some ((0, Some (auth_set_sasl_plain None (Some ''user'') (Some ''secret'')), None), v') \<and> avail j v' = more))"
    by (rule managesieve_login_chain [OF list_queue.token_queue_axioms world_sending(1) world_sending(4) m rfc4648_laws _ _ nn _ _ _ _
        sieve_demo_facts(4) world_sending(2)]) (simp_all add: auth_set_sasl_plain_def)
  then obtain sent w' where *: "managesieve_out_authenticate rfc4648 list_queue RS 0 ?a 8 None (world_sending (join SP [''OK''] @ CRLF @ [])) =
      Some ((1, Some [], None), w')" "io_out (ios w' RS) = sent"
    "\<forall>opt j f v more. wf_buffer v \<and> avail j v = sent @ more \<longrightarrow>
       (\<exists>v'. managesieve_in_get_auth rfc4648 Some opt list_queue j f 0 v = Some ((0, Some ?a, None), v') \<and> avail j v' = more)"
    using sieve_demo_facts(6) by (auto simp: line_bytes_def left_size_def)
  from *(3) [rule_format, of "world_sending sent" EU "[]" options_zero 0] have
    "\<exists>v'. managesieve_in_get_auth rfc4648 Some options_zero list_queue EU 0 0 (world_sending sent) = Some ((0, Some ?a, None), v') \<and> avail EU v' = []"
    by simp
  with * show ?thesis by blast
qed

end
