(* ===== verification/Ssl.thy ===== *)
theory Ssl
  imports Getserver
begin

text \<open>
  TLS, \<^verbatim>\<open>perdition/ssl.c\<close>: what the verification of a certificate accepts, the comparison of the
  names in a certificate with the server's, and the change of a connection into a TLS connection.

  OpenSSL is a parameter: \<open>ssl_peer\<close> holds what its calls return for one handshake, with the
  plain text the peer will send as the events of the new connection. A certificate is the list of
  its common names and the list of its alternative names, \<open>None\<close> where OpenSSL cannot extract them.
  The memory buffers of OpenSSL do not fail.
\<close>

subsection \<open>Verification results\<close>

datatype verify_code =
    X509_V_OK
  | X509_V_ERR_CERT_NOT_YET_VALID
  | X509_V_ERR_CERT_HAS_EXPIRED
  | X509_V_ERR_DEPTH_ZERO_SELF_SIGNED_CERT
  | X509_V_ERR_SELF_SIGNED_CERT_IN_CHAIN
  | X509_V_ERR_CERT_CHAIN_TOO_LONG
  | X509_V_ERR_other int

text \<open>\<open>tm\<close>: whether the time of the certificate can be printed.\<close>

definition perdition_verify_result :: "options \<Rightarrow> bool \<Rightarrow> verify_code \<Rightarrow> verify_code" where
  "perdition_verify_result opt tm verify =
     (case verify of
        X509_V_ERR_CERT_NOT_YET_VALID \<Rightarrow>
          if opt_ssl_cert_accept_not_yet_valid opt \<noteq> 0 then X509_V_OK else verify
      | X509_V_ERR_CERT_HAS_EXPIRED \<Rightarrow>
          if opt_ssl_cert_accept_expired opt \<noteq> 0 \<and> tm then X509_V_OK else verify
      | X509_V_ERR_DEPTH_ZERO_SELF_SIGNED_CERT \<Rightarrow>
          if opt_ssl_cert_accept_self_signed opt \<noteq> 0 then X509_V_OK else verify
      | X509_V_ERR_SELF_SIGNED_CERT_IN_CHAIN \<Rightarrow>
          if opt_ssl_ca_accept_self_signed opt \<noteq> 0 then X509_V_OK else verify
      | _ \<Rightarrow> verify)"

text \<open>
  The callback: \<open>ok\<close> is the verdict of OpenSSL on the certificate at \<open>depth\<close>. The result is the
  verdict of the callback and the error left in the context.
\<close>

definition perdition_verify_callback ::
    "options \<Rightarrow> bool \<Rightarrow> bool \<Rightarrow> int \<Rightarrow> int \<Rightarrow> verify_code \<Rightarrow> int \<times> verify_code" where
  "perdition_verify_callback opt log tm ok depth err =
     (if opt_debug opt \<noteq> 0 \<and> \<not> log then (0, err)
      else if opt_ssl_cert_verify_depth opt < depth then (0, X509_V_ERR_CERT_CHAIN_TOO_LONG)
      else if perdition_verify_result opt tm err = X509_V_OK then (1, err)
      else (ok, err))"

definition SSL3_VERSION :: int where "SSL3_VERSION = 0x0300"
definition TLS1_VERSION :: int where "TLS1_VERSION = 0x0301"
definition TLS1_1_VERSION :: int where "TLS1_1_VERSION = 0x0302"
definition TLS1_2_VERSION :: int where "TLS1_2_VERSION = 0x0303"

definition perdition_parse_ssl_proto_version :: "string \<Rightarrow> int" where
  "perdition_parse_ssl_proto_version str =
     (if strcaseeq str ''sslv3'' then SSL3_VERSION
      else if strcaseeq str ''tlsv1'' then TLS1_VERSION
      else if strcaseeq str ''tlsv1.1'' then TLS1_1_VERSION
      else if strcaseeq str ''tlsv1.2'' then TLS1_2_VERSION
      else -1)"

subsection \<open>Names\<close>

record cert =
  cert_cns :: "string option list option"
  cert_alts :: "(bool \<times> string) option list option"

text \<open>\<open>val\<close> is a byte string with its length, \<open>key\<close> a C string.\<close>

definition perdition_ssl_compare_key :: "string \<Rightarrow> string \<Rightarrow> int" where
  "perdition_ssl_compare_key key val =
     (if length key = length val \<and> key = val then 0
      else if length val < 3 then -1
      else if take 2 val = ''*.'' \<and>
              (case strchr key CHR ''.'' of
                 None \<Rightarrow> False
               | Some d \<Rightarrow> length (drop d key) = length val - 1 \<and> drop d key = drop 1 val)
           then 0
      else -2)"

fun cn_loop :: "string \<Rightarrow> string option list \<Rightarrow> int" where
  "cn_loop key [] = -2"
| "cn_loop key (None # es) = -1"
| "cn_loop key (Some d # es) = (if perdition_ssl_compare_key key d = 0 then 0 else cn_loop key es)"

definition perdition_ssl_check_common_name :: "cert \<Rightarrow> string \<Rightarrow> int" where
  "perdition_ssl_check_common_name c key =
     (case cert_cns c of None \<Rightarrow> -1 | Some es \<Rightarrow> cn_loop key es)"

text \<open>An alternative name is a flag, true for a DNS name, and its text.\<close>

fun alt_loop :: "string \<Rightarrow> (bool \<times> string) option list \<Rightarrow> int" where
  "alt_loop key [] = -2"
| "alt_loop key (None # gs) = -1"
| "alt_loop key (Some (dns, d) # gs) =
     (if dns \<and> perdition_ssl_compare_key key d = 0 then 0 else alt_loop key gs)"

definition perdition_ssl_check_alt_subject :: "cert \<Rightarrow> string \<Rightarrow> int" where
  "perdition_ssl_check_alt_subject c key =
     (case cert_alts c of None \<Rightarrow> -1 | Some gs \<Rightarrow> alt_loop key gs)"

text \<open>\<open>idna\<close> is \<open>idna_to_ascii\<close>, the identity in a build without the IDN library.\<close>

definition perdition_ssl_check_name ::
    "options \<Rightarrow> (string \<Rightarrow> string option) \<Rightarrow> cert option \<Rightarrow> string option \<Rightarrow> int" where
  "perdition_ssl_check_name opt idna cert key =
     (case key of
        None \<Rightarrow> 0
      | Some k \<Rightarrow>
          if opt_ssl_no_cn_verify opt \<noteq> 0 then 0
          else case idna k of
                 None \<Rightarrow> -1
               | Some idna_key \<Rightarrow>
                   (case cert of
                      None \<Rightarrow> -2
                    | Some c \<Rightarrow>
                        let rc = perdition_ssl_check_common_name c idna_key in
                        if rc = 0 then 0
                        else if rc = -1 then -1
                        else let rc = perdition_ssl_check_alt_subject c idna_key in
                             if rc = 0 then 0 else if rc = -1 then -1 else -2))"

subsection \<open>Connections\<close>

record ssl_peer =
  sp_ctx :: bool                \<comment> \<open>perdition_ssl_ctx succeeds\<close>
  sp_new :: bool                \<comment> \<open>SSL_new succeeds\<close>
  sp_sockopt1 :: bool           \<comment> \<open>the timeouts can be set before the handshake\<close>
  sp_handshake :: int           \<comment> \<open>result of SSL_connect or SSL_accept\<close>
  sp_sockopt2 :: bool           \<comment> \<open>the timeouts can be cleared\<close>
  sp_rd :: "rd_event list"
  sp_wr :: "nat option list"
  sp_cert :: "cert option"      \<comment> \<open>SSL_get_peer_certificate\<close>
  sp_log :: int                 \<comment> \<open>result of logging the certificate, if debugging\<close>
  sp_verify :: verify_code      \<comment> \<open>SSL_get_verify_result\<close>
  sp_time :: bool

definition perdition_ssl_check_certificate ::
    "options \<Rightarrow> (string \<Rightarrow> string option) \<Rightarrow> ssl_peer \<Rightarrow> string option \<Rightarrow> string option \<Rightarrow> string option \<Rightarrow> int" where
  "perdition_ssl_check_certificate opt idna sp ca_file ca_path server =
     (let status = (if opt_debug opt = 0 then 0 else sp_log sp) in
      if status < 0 then status
      else if opt_ssl_no_cert_verify opt = 0 \<and> (\<not> str_empty ca_file \<or> \<not> str_empty ca_path) \<and>
              perdition_verify_result opt (sp_time sp) (sp_verify sp) \<noteq> X509_V_OK then -3
      else perdition_ssl_check_name opt idna (sp_cert sp) server)"

definition io_set_socket_timeout :: "bool \<Rightarrow> io \<Rightarrow> int" where
  "io_set_socket_timeout sockopt i =
     (if fst (io_get_rfd i) < 0 \<or> fst (io_get_wfd i) < 0 \<or> \<not> sockopt then -1 else 0)"

definition perdition_ssl_connection :: "ssl_peer \<Rightarrow> io \<Rightarrow> io option" where
  "perdition_ssl_connection sp i =
     (if \<not> sp_new sp then None
      else let new_io = io_set_timeout (io_create_ssl (fst (io_get_rfd i)) (fst (io_get_wfd i)) (io_name i) (sp_rd sp) (sp_wr sp))
                          (io_timeout i)
           in if io_set_socket_timeout (sp_sockopt1 sp) new_io < 0 then None
              else if sp_handshake sp \<le> 0 then None
              else if io_set_socket_timeout (sp_sockopt2 sp) new_io < 0 then None
              else Some new_io)"

definition perdition_ssl_client_connection ::
    "options \<Rightarrow> (string \<Rightarrow> string option) \<Rightarrow> ssl_peer \<Rightarrow> string option \<Rightarrow> string option \<Rightarrow> string option \<Rightarrow> io \<Rightarrow> io option" where
  "perdition_ssl_client_connection opt idna sp ca_file ca_path server i =
     (if \<not> sp_ctx sp then None
      else case perdition_ssl_connection sp i of
             None \<Rightarrow> None
           | Some new_io \<Rightarrow>
               if perdition_ssl_check_certificate opt idna sp ca_file ca_path server < 0 then None else Some new_io)"

definition perdition_ssl_server_connection ::
    "options \<Rightarrow> (string \<Rightarrow> string option) \<Rightarrow> ssl_peer \<Rightarrow> io \<Rightarrow> io option" where
  "perdition_ssl_server_connection opt idna sp i =
     (case perdition_ssl_connection sp i of
        None \<Rightarrow> None
      | Some new_io \<Rightarrow>
          if perdition_ssl_check_certificate opt idna sp None None None < 0 then None else Some new_io)"

subsection \<open>Properties\<close>

text \<open>\<open>name_matches key val\<close>: the same name, or a wildcard for exactly the first label.\<close>

definition name_matches :: "string \<Rightarrow> string \<Rightarrow> bool" where
  "name_matches key val \<longleftrightarrow>
     val = key \<or> (\<exists>l d. d \<noteq> [] \<and> CHR ''.'' \<notin> set l \<and> key = l @ CHR ''.'' # d \<and> val = ''*.'' @ d)"

lemma strchr_split: "strchr s c = Some i \<Longrightarrow> s = take i s @ c # drop (Suc i) s \<and> c \<notin> set (take i s)"
  using strchr_Some [of s c i] id_take_nth_drop [of i s] by auto

lemma compare_key_matches: "perdition_ssl_compare_key key val = 0 \<longleftrightarrow> name_matches key val"
proof
  assume a: "perdition_ssl_compare_key key val = 0"
  show "name_matches key val"
  proof (cases "key = val")
    case False
    with a obtain d where d: "3 \<le> length val" "take 2 val = ''*.''" "strchr key CHR ''.'' = Some d" "drop d key = drop 1 val"
      by (auto simp: perdition_ssl_compare_key_def split: if_splits option.splits)
    note k = strchr_split [OF d(3)]
    have v: "val = ''*.'' @ drop 2 val" using d(2) by (metis append_take_drop_id)
    have "drop d key = CHR ''.'' # drop (Suc d) key" using k by (metis append_eq_conv_conj append_take_drop_id length_take)
    then have "drop (Suc d) key = drop 2 val" using d(4) v by (metis append_Cons append_Nil drop0 drop_Suc_Cons list.inject One_nat_def)
    then show ?thesis using k v d(1) unfolding name_matches_def
      by (intro disjI2 exI [of _ "take d key"] exI [of _ "drop 2 val"]) auto
  qed (simp add: name_matches_def)
next
  assume "name_matches key val"
  then consider "val = key" | l d where "d \<noteq> []" "CHR ''.'' \<notin> set l" "key = l @ CHR ''.'' # d" "val = ''*.'' @ d"
    by (auto simp: name_matches_def)
  then show "perdition_ssl_compare_key key val = 0"
  proof cases
    case 2
    moreover have "strchr key CHR ''.'' = Some (length l)" using 2 strchr_append_notin by simp
    ultimately show ?thesis by (cases d) (auto simp: perdition_ssl_compare_key_def)
  qed (simp add: perdition_ssl_compare_key_def)
qed

lemma cn_loop_0: "cn_loop key es = 0 \<Longrightarrow> \<exists>d. Some d \<in> set es \<and> name_matches key d"
  by (induction key es rule: cn_loop.induct) (auto simp: compare_key_matches split: if_splits)

lemma alt_loop_0: "alt_loop key gs = 0 \<Longrightarrow> \<exists>d. Some (True, d) \<in> set gs \<and> name_matches key d"
  by (induction key gs rule: alt_loop.induct) (auto simp: compare_key_matches split: if_splits)

definition cert_names :: "cert \<Rightarrow> string set" where
  "cert_names c = {d. \<exists>es. cert_cns c = Some es \<and> Some d \<in> set es} \<union> {d. \<exists>gs. cert_alts c = Some gs \<and> Some (True, d) \<in> set gs}"

lemma check_name_0:
  assumes "perdition_ssl_check_name opt idna cert (Some k) = 0" and "opt_ssl_no_cn_verify opt = 0"
  shows "\<exists>c key d. cert = Some c \<and> idna k = Some key \<and> d \<in> cert_names c \<and> name_matches key d"
proof -
  obtain c key where c: "cert = Some c" "idna k = Some key"
    and r: "perdition_ssl_check_common_name c key = 0 \<or> perdition_ssl_check_alt_subject c key = 0"
    using assms by (auto simp: perdition_ssl_check_name_def Let_def split: option.splits if_splits)
  from r have "\<exists>d. d \<in> cert_names c \<and> name_matches key d"
    by (auto simp: perdition_ssl_check_common_name_def perdition_ssl_check_alt_subject_def cert_names_def
        split: option.splits dest: cn_loop_0 alt_loop_0)
  with c show ?thesis by blast
qed

lemma check_name_sign: "perdition_ssl_check_name opt idna c k \<le> 0"
  by (auto simp: perdition_ssl_check_name_def Let_def split: option.splits)

lemma ssl_connection_io:
  assumes "perdition_ssl_connection sp i = Some i'"
  shows "io_type i' = Io_type_ssl \<and> io_timeout i' = io_timeout i \<and> io_out i' = [] \<and> io_rd i' = sp_rd sp \<and>
    io_wr i' = sp_wr sp \<and> sp_handshake sp > 0"
  using assms
  by (auto simp: perdition_ssl_connection_def Let_def io_set_timeout_def io_create_ssl_def io_create_def split: if_splits)

text \<open>
  A name in a certificate matches the name of the server exactly, or is a wildcard that stands for
  the first label of the server's name and no more than that: a wildcard never covers two labels.
\<close>

lemma perdition_ssl_compare_key_spec:
  "(perdition_ssl_compare_key key val = 0 \<longleftrightarrow> name_matches key val) \<and>
   perdition_ssl_compare_key (a # as @ CHR ''.'' # b @ CHR ''.'' # d) (''*.'' @ d) \<noteq> 0"
proof -
  have False if n: "name_matches (a # as @ CHR ''.'' # b @ CHR ''.'' # d) (''*.'' @ d)"
  proof -
    from n consider "''*.'' @ d = a # as @ CHR ''.'' # b @ CHR ''.'' # d"
      | l where "a # as @ CHR ''.'' # b @ CHR ''.'' # d = l @ CHR ''.'' # d" "CHR ''.'' \<notin> set l"
      by (auto simp: name_matches_def)
    then show False
    proof cases
      case 1
      from arg_cong [OF this, of length] show False by simp
    next
      case 2
      then have "a # as @ CHR ''.'' # b = l" by (metis append_Cons append_assoc append_same_eq)
      with 2(2) show False by auto
    qed
  qed
  then show ?thesis using compare_key_matches by blast
qed


text \<open>
  C6. A connection to the real server becomes a TLS connection only after a successful handshake. Unless
  the check of names is switched off, the server has then presented a certificate with a common
  name, or an alternative name of type DNS, that matches its name; and unless verification is
  switched off or no authority is configured, the certificate was verified, up to the defects the
  options accept.
\<close>

theorem perdition_ssl_client_connection_checked:
  assumes "perdition_ssl_client_connection opt idna sp ca_file ca_path (Some server) i = Some i'"
  shows "io_type i' = Io_type_ssl \<and> sp_handshake sp > 0 \<and>
    (opt_ssl_no_cn_verify opt = 0 \<longrightarrow>
       (\<exists>c key d. sp_cert sp = Some c \<and> idna server = Some key \<and> d \<in> cert_names c \<and> name_matches key d)) \<and>
    (opt_ssl_no_cert_verify opt = 0 \<and> (\<not> str_empty ca_file \<or> \<not> str_empty ca_path) \<longrightarrow>
       perdition_verify_result opt (sp_time sp) (sp_verify sp) = X509_V_OK)"
proof -
  from assms have c: "perdition_ssl_connection sp i = Some i'"
    "\<not> perdition_ssl_check_certificate opt idna sp ca_file ca_path (Some server) < 0"
    by (auto simp: perdition_ssl_client_connection_def split: if_splits option.splits)
  then have "perdition_ssl_check_name opt idna (sp_cert sp) (Some server) = 0"
    using check_name_sign [of opt idna "sp_cert sp" "Some server"]
    by (auto simp: perdition_ssl_check_certificate_def Let_def split: if_splits)
  with check_name_0 ssl_connection_io [OF c(1)] c(2) show ?thesis
    by (auto simp: perdition_ssl_check_certificate_def Let_def split: if_splits)
qed

definition demo_peer :: ssl_peer where
  "demo_peer = \<lparr>sp_ctx = True, sp_new = True, sp_sockopt1 = True, sp_handshake = 1, sp_sockopt2 = True,
     sp_rd = [], sp_wr = [], sp_cert = Some \<lparr>cert_cns = Some [Some ''*.example.org''], cert_alts = None\<rparr>,
     sp_log = 0, sp_verify = X509_V_OK, sp_time = True\<rparr>"

lemma demo_peer_connects:
  "perdition_ssl_client_connection options_zero Some demo_peer None None (Some ''mail.example.org'') (io_create_fd 5 5 None [] [])
     = Some (io_create_ssl 5 5 None [] [])"
  by code_simp

theorem perdition_ssl_client_connection_checked_witness:
  "\<exists>c d. sp_cert demo_peer = Some c \<and> d \<in> cert_names c \<and> name_matches ''mail.example.org'' d"
  using perdition_ssl_client_connection_checked [OF demo_peer_connects] by (auto simp: options_zero_def)

text \<open>
  The callback accepts a certificate only within the configured depth, and then only if OpenSSL
  accepts it or the only error is one the options accept.
\<close>

lemma perdition_verify_callback_spec:
  "fst (perdition_verify_callback opt log tm ok depth err) =
     (if opt_debug opt \<noteq> 0 \<and> \<not> log \<or> opt_ssl_cert_verify_depth opt < depth then 0
      else if err \<in> {X509_V_OK} \<union>
           (if opt_ssl_cert_accept_not_yet_valid opt = 0 then {} else {X509_V_ERR_CERT_NOT_YET_VALID}) \<union>
           (if opt_ssl_cert_accept_expired opt = 0 \<or> \<not> tm then {} else {X509_V_ERR_CERT_HAS_EXPIRED}) \<union>
           (if opt_ssl_cert_accept_self_signed opt = 0 then {} else {X509_V_ERR_DEPTH_ZERO_SELF_SIGNED_CERT}) \<union>
           (if opt_ssl_ca_accept_self_signed opt = 0 then {} else {X509_V_ERR_SELF_SIGNED_CERT_IN_CHAIN}) then 1
      else ok)"
  by (cases err) (simp_all add: perdition_verify_callback_def perdition_verify_result_def)

end
