(* ===== verification/Session.thy ===== *)
theory Session
  imports Ssl Username Imap4_In Pop3_In Imap4_Out Pop3_Out Managesieve_Out
begin

text \<open>
  The interface between the main program and the mail protocols, \<open>protocol_t\<close> of
  \<^verbatim>\<open>perdition/protocol_t.h\<close>, its instances from \<^verbatim>\<open>imap4.c\<close>, \<^verbatim>\<open>imap4s.c\<close>, \<^verbatim>\<open>pop3.c\<close>, \<^verbatim>\<open>pop3s.c\<close> and
  \<^verbatim>\<open>managesieve.c\<close>, \<open>protocol_initialise\<close> from \<^verbatim>\<open>protocol.c\<close>,
  \<open>quit\<close> from \<^verbatim>\<open>quit.c\<close>, and the variables of \<open>main\<close> that last from one login attempt to the next.

  \<open>EU\<close> is the connection to the client (\<open>client_io\<close>), \<open>RS\<close> the one to the real server (\<open>server_io\<close>).
\<close>

subsection \<open>Protocols\<close>

definition PROTOCOL_OK :: nat where "PROTOCOL_OK = 0"
definition PROTOCOL_ERR :: nat where "PROTOCOL_ERR = 1"
definition PROTOCOL_NO :: nat where "PROTOCOL_NO = 1"
definition PROTOCOL_BAD :: nat where "PROTOCOL_BAD = 2"

lemmas protocol_type_defs = PROTOCOL_OK_def PROTOCOL_ERR_def PROTOCOL_NO_def PROTOCOL_BAD_def

text \<open>
  A function that may leave its \<open>auth\<close> or tag argument alone returns \<open>None\<close> for it. The response
  buffer of \<open>out_authenticate\<close> is given by its size, \<open>None\<close> for a NULL buffer; its new contents are
  \<open>None\<close> if it has not been written to.
\<close>

record 'q protocol_t =
  pr_type :: "string list"
  pr_write_str :: "ioid \<Rightarrow> flag_t \<Rightarrow> token option \<Rightarrow> string option \<Rightarrow> string option \<Rightarrow> world \<Rightarrow> (int \<times> world) option"
  pr_greeting :: "ioid \<Rightarrow> flag_t \<Rightarrow> world \<Rightarrow> (int \<times> world) option"
  pr_quit_string :: string
  pr_bye :: "(ioid \<Rightarrow> string \<Rightarrow> world \<Rightarrow> (int \<times> world) option) option"
  pr_in_get_auth :: "ioid \<Rightarrow> int \<Rightarrow> int \<Rightarrow> world \<Rightarrow> ((int \<times> auth option \<times> token option) \<times> world) option"
  pr_in_authenticate :: "auth \<Rightarrow> ioid \<Rightarrow> token option \<Rightarrow> world \<Rightarrow> (int \<times> world) option"
  pr_out_setup :: "ioid \<Rightarrow> ioid \<Rightarrow> auth \<Rightarrow> token option \<Rightarrow> world \<Rightarrow> ((int \<times> token option) \<times> world) option"
  pr_out_authenticate :: "ioid \<Rightarrow> ioid \<Rightarrow> int \<Rightarrow> auth \<Rightarrow> int \<Rightarrow> token option \<Rightarrow> nat option \<Rightarrow> world
    \<Rightarrow> ((int \<times> token option \<times> string option \<times> nat option) \<times> world) option"
  pr_out_response :: "ioid \<Rightarrow> ioid option \<Rightarrow> token option \<Rightarrow> token \<Rightarrow> nat option \<Rightarrow> world
    \<Rightarrow> ((int \<times> 'q option \<times> string \<times> nat option) \<times> world) option"
  pr_port :: "string \<Rightarrow> string"
  pr_encryption :: "int \<Rightarrow> int"

definition IMAP4_QUIT :: string where "IMAP4_QUIT = ''LOGOUT''"
definition POP3_QUIT :: string where "POP3_QUIT = ''QUIT''"

definition imap4_type :: "string list" where "imap4_type = [IMAP4_OK, IMAP4_NO, IMAP4_BAD]"
definition pop3_type :: "string list" where "pop3_type = [POP3_OK, POP3_ERR, POP3_ERR]"
definition managesieve_type :: "string list" where
  "managesieve_type = [MANAGESIEVE_OK, MANAGESIEVE_NO, MANAGESIEVE_BYE]"

text \<open>The parameters of the protocols: the queue library, \<open>strcmp\<close>, the digit test, the network, PAM, base64 and SASLprep.\<close>

record 'q proto_env =
  pe_queue :: "'q queue_ops"
  pe_digit :: "string \<Rightarrow> bool"
  pe_strcmp :: "string \<Rightarrow> string \<Rightarrow> int"
  pe_net :: net_env
  pe_pam :: pam_env
  pe_b64 :: base64_bio
  pe_prep :: "string \<Rightarrow> string option"

definition imap4_initialise_protocol :: "options \<Rightarrow> 'q proto_env \<Rightarrow> 'q protocol_t" where
  "imap4_initialise_protocol opt e =
     \<lparr>pr_type = imap4_type,
      pr_write_str = imap4_write_str,
      pr_greeting = imap4_greeting opt (pe_net e),
      pr_quit_string = IMAP4_QUIT,
      pr_bye = None,
      pr_in_get_auth = (\<lambda>i f s w. imap4_in_get_auth (pe_queue e) (pe_digit e) opt f s i w),
      pr_in_authenticate = imap4_in_authenticate (pe_pam e),
      pr_out_setup = (\<lambda>rs eu a tag w.
        do { t \<leftarrow> tag;
             ((status, t'), w1) \<leftarrow> imap4_out_setup (pe_queue e) opt (pe_net e) (pe_strcmp e) rs (Some eu) t w;
             Some ((status, Some t'), w1) }),
      pr_out_authenticate = (\<lambda>rs eu st a mech tag lim w.
        do { t \<leftarrow> tag;
             ((status, t', buf, n), w1) \<leftarrow> imap4_out_authenticate (pe_queue e) rs (Some eu) a t lim w;
             Some ((status, Some t', Some buf, n), w1) }),
      pr_out_response = imap4_out_response (pe_queue e),
      pr_port = imap4_port opt,
      pr_encryption = imap4_encryption\<rparr>"

definition imap4s_initialise_protocol :: "options \<Rightarrow> 'q proto_env \<Rightarrow> 'q protocol_t" where
  "imap4s_initialise_protocol opt e =
     (imap4_initialise_protocol opt e)\<lparr>pr_port := imap4s_port opt, pr_encryption := imap4s_encryption\<rparr>"

definition pop3_initialise_protocol :: "options \<Rightarrow> 'q proto_env \<Rightarrow> 'q protocol_t" where
  "pop3_initialise_protocol opt e =
     \<lparr>pr_type = pop3_type,
      pr_write_str = pop3_write_str,
      pr_greeting = pop3_greeting opt (pe_net e),
      pr_quit_string = POP3_QUIT,
      pr_bye = None,
      pr_in_get_auth = (\<lambda>i f s w.
        do { ((status, a), w1) \<leftarrow> pop3_in_get_auth (pe_queue e) opt f s i w; Some ((status, a, None), w1) }),
      pr_in_authenticate = pop3_in_authenticate (pe_pam e),
      pr_out_setup = (\<lambda>rs eu a tag w.
        do { (status, w1) \<leftarrow> pop3_out_setup (pe_queue e) opt (pe_net e) rs w; Some ((status, tag), w1) }),
      pr_out_authenticate = (\<lambda>rs eu st a mech tag lim w.
        do { ((status, buf, n), w1) \<leftarrow> pop3_out_authenticate (pe_queue e) rs a lim w;
             Some ((status, tag, buf, n), w1) }),
      pr_out_response = (\<lambda>rs eu tag desired lim w. pop3_out_response (pe_queue e) rs desired lim w),
      pr_port = pop3_port opt,
      pr_encryption = pop3_encryption\<rparr>"

definition pop3s_initialise_protocol :: "options \<Rightarrow> 'q proto_env \<Rightarrow> 'q protocol_t" where
  "pop3s_initialise_protocol opt e =
     (pop3_initialise_protocol opt e)\<lparr>pr_port := pop3s_port opt, pr_encryption := pop3s_encryption\<rparr>"

definition managesieve_protocol_bye :: "ioid \<Rightarrow> string \<Rightarrow> world \<Rightarrow> (int \<times> world) option" where
  "managesieve_protocol_bye i msg w = managesieve_bye i None msg w"

definition managesieve_initialise_protocol :: "options \<Rightarrow> 'q proto_env \<Rightarrow> 'q protocol_t" where
  "managesieve_initialise_protocol opt e =
     \<lparr>pr_type = managesieve_type,
      pr_write_str = managesieve_write_str,
      pr_greeting = managesieve_greeting opt (pe_net e),
      pr_quit_string = MANAGESIEVE_QUIT,
      pr_bye = Some managesieve_protocol_bye,
      pr_in_get_auth = (\<lambda>i f s w. managesieve_in_get_auth (pe_b64 e) (pe_prep e) opt (pe_queue e) i f s w),
      pr_in_authenticate = managesieve_in_authenticate,
      pr_out_setup = (\<lambda>rs eu a tag w.
        do { (status, w1) \<leftarrow> managesieve_out_setup (pe_queue e) opt rs w; Some ((status, tag), w1) }),
      pr_out_authenticate = (\<lambda>rs eu st a mech tag lim w.
        do { ((status, buf, n), w1) \<leftarrow> managesieve_out_authenticate (pe_b64 e) (pe_queue e) rs st a mech lim w;
             Some ((status, tag, buf, n), w1) }),
      pr_out_response = (\<lambda>rs eu tag desired lim w. pop3_out_response (pe_queue e) rs desired lim w),
      pr_port = managesieve_port opt,
      pr_encryption = managesieve_encryption\<rparr>"

text \<open>The result is NULL (\<open>None\<close>) for a number that is not a protocol.\<close>

definition protocol_initialise :: "options \<Rightarrow> 'q proto_env \<Rightarrow> int \<Rightarrow> 'q protocol_t option" where
  "protocol_initialise opt e protocol_type =
     (if protocol_type = PROTOCOL_POP3 then Some (pop3_initialise_protocol opt e)
      else if protocol_type = PROTOCOL_POP3S then Some (pop3s_initialise_protocol opt e)
      else if protocol_type = PROTOCOL_IMAP4 then Some (imap4_initialise_protocol opt e)
      else if protocol_type = PROTOCOL_IMAP4S then Some (imap4s_initialise_protocol opt e)
      else if protocol_type = PROTOCOL_MANAGESIEVE then Some (managesieve_initialise_protocol opt e)
      else None)"

subsection \<open>Leaving the real server\<close>

definition quit :: "ioid \<Rightarrow> 'q protocol_t \<Rightarrow> token option \<Rightarrow> world \<Rightarrow> ((int \<times> token option) \<times> world) option" where
  "quit i P tag w =
     do { (rc, w1) \<leftarrow> pr_write_str P i NULL_FLAG tag (Some (pr_quit_string P)) None w;
          if rc < 0 then Some ((-1, tag), w1)
          else do {
            ((status, _, _, _), w2) \<leftarrow>
              pr_out_response P i None tag (mk_token (pr_type P ! PROTOCOL_OK) TOKEN_DONT_CARE) None w1;
            Some ((if status < 0 then -1 else 0, map_option imap4_tag_inc tag), w2) } }"

subsection \<open>The variables of a session\<close>

text \<open>
  The pointer \<open>port\<close> may point into \<open>usp\<close>, into the options, or to memory that has been freed.
\<close>

datatype port_ptr = Port_opt "string option" | Port_usp "string option" | Port_dangling

fun port_deref :: "port_ptr \<Rightarrow> string option option" where
  "port_deref (Port_opt p) = Some p"
| "port_deref (Port_usp p) = Some p"
| "port_deref Port_dangling = None"

fun port_free :: "port_ptr \<Rightarrow> port_ptr" where
  "port_free (Port_usp (Some p)) = Port_dangling"
| "port_free (Port_usp None) = Port_opt None"
| "port_free p = p"

text \<open>
  \<open>s_auth2\<close> and \<open>s_mech\<close> are the locals of the block that logs in to the server; \<open>s_count\<close> numbers
  the calls whose results the environment decides.
\<close>

record session =
  s_auth :: auth
  s_usp :: "user_server_port option"
  s_our_tag :: "token option"
  s_client_tag :: "token option"
  s_tls_state :: int
  s_servername :: "string option"
  s_port :: port_ptr
  s_server_io :: bool
  s_round_robin :: bool
  s_rnd :: int
  s_resp_buf :: "string option"
  s_auth2 :: auth
  s_mech :: int
  s_count :: nat

definition session_start :: "token option \<Rightarrow> int \<Rightarrow> session" where
  "session_start tag rnd =
     \<lparr>s_auth = auth_zero, s_usp = None, s_our_tag = tag, s_client_tag = None, s_tls_state = 0,
      s_servername = None, s_port = Port_opt None, s_server_io = False, s_round_robin = False, s_rnd = rnd,
      s_resp_buf = None, s_auth2 = auth_zero, s_mech = 0, s_count = 0\<rparr>"

text \<open>The macro \<open>PERDITION_CLEAN_UP_MAIN\<close>.\<close>

definition clean_up :: "session \<Rightarrow> session" where
  "clean_up s =
     s\<lparr>s_auth := auth_zero,
       s_port := (if s_round_robin s \<or> s_usp s = None then s_port s else port_free (s_port s)),
       s_round_robin := False, s_servername := None, s_server_io := False, s_usp := None,
       s_client_tag := None, s_tls_state := 0\<rparr>"

text \<open>
  What the process owns and knows besides: the options in force, the lookup library, the addresses of
  the connection, and the results of the calls numbered by \<open>s_count\<close>: TLS handshakes, and connections
  to a server, as the file descriptor (negative for failure) and the events of the connection.
\<close>

record 'q env =
  e_opt :: options
  e_proto :: "'q protocol_t"
  e_key :: key_args
  e_sock :: "string option option"
  e_get :: "dbserver_get option"
  e_get2 :: "dbserver_get2 option"
  e_idna :: "string \<Rightarrow> string option"
  e_setid :: bool
  e_peer :: "nat \<Rightarrow> ssl_peer"
  e_dial :: "nat \<Rightarrow> string option \<Rightarrow> string option \<Rightarrow> bool \<Rightarrow> bool \<Rightarrow> int \<times> rd_event list \<times> nat option list"


subsection \<open>Types of connections\<close>

text \<open>No operation of a protocol changes a connection into one of another type.\<close>

definition same_types :: "world \<Rightarrow> world \<Rightarrow> bool" where
  "same_types w w' \<longleftrightarrow> (\<forall>j. io_type (ios w' j) = io_type (ios w j))"

definition typed :: "world \<Rightarrow> ('a \<times> world) option \<Rightarrow> bool" where
  "typed w r \<longleftrightarrow> (\<forall>a w'. r = Some (a, w') \<longrightarrow> same_types w w')"

named_theorems typed_rules "introduction rules for typed"

lemma same_types_refl [simp]: "same_types w w"
  by (simp add: same_types_def)

lemma same_types_trans: "same_types a b \<Longrightarrow> same_types b c \<Longrightarrow> same_types a c"
  by (simp add: same_types_def)

lemma same_types_only_io: "only_io i w w' \<Longrightarrow> same_types w w'"
  by (simp add: same_types_def only_io_def)

lemma same_types_put [typed_rules]: "same_types w w1 \<Longrightarrow> same_types w (put i s w1)"
  using same_types_trans same_types_only_io only_io_put by blast

lemma typed_None [simp]: "typed w None"
  by (simp add: typed_def)

lemma typed_Some [simp]: "typed w (Some (a, w')) \<longleftrightarrow> same_types w w'"
  by (simp add: typed_def)

lemma typed_keeps: "keeps i w r \<Longrightarrow> typed w r"
  by (auto simp: typed_def keeps_def dest: same_types_only_io)

lemma typed_trans: "typed w1 r \<Longrightarrow> same_types w w1 \<Longrightarrow> typed w r"
  by (auto simp: typed_def intro: same_types_trans)

lemma typed_bind [typed_rules]:
  "typed w r \<Longrightarrow> (\<And>a w'. same_types w w' \<Longrightarrow> typed w (f (a, w'))) \<Longrightarrow> typed w (r \<bind> f)"
  by (auto simp: typed_def bind_eq_Some_conv)

lemma typed_bind_pure: "(\<And>a. typed w (f a)) \<Longrightarrow> typed w (r \<bind> f)"
  by (auto simp: typed_def bind_eq_Some_conv)

lemmas typed_bind_pures [typed_rules] =
  typed_bind_pure [where ?'a = string] typed_bind_pure [where ?'a = token] typed_bind_pure [where ?'a = "string option"]

lemma typed_writes [typed_rules]:
  "same_types w w1 \<Longrightarrow> typed w (imap4_write_str i flag tag cmd s w1)"
  "same_types w w1 \<Longrightarrow> typed w (imap4_write i flag tag cmd nargs fmt ap w1)"
  "same_types w w1 \<Longrightarrow> typed w (pop3_write_str i flag tag cmd s w1)"
  by (blast intro: typed_trans typed_keeps keeps_writes0)+

lemma typed_read_line: "read_line Q i lim flag m w1 = (r, w2) \<Longrightarrow> same_types w w1 \<Longrightarrow> same_types w w2"
  using same_types_trans same_types_only_io read_line_only_io by blast

lemma greeting_typed [typed_rules]:
  "typed w (imap4_greeting opt net i flag w)" "typed w (pop3_greeting opt net i flag w)"
  "typed w (managesieve_greeting opt net i flag w)"
proof -
  have "typed w (managesieve_write_raw i m w)" for m
    by (rule typed_keeps [where i = i]) (intro keeps_rules only_io_refl)
  then show "typed w (imap4_greeting opt net i flag w)" "typed w (pop3_greeting opt net i flag w)"
    "typed w (managesieve_greeting opt net i flag w)"
    unfolding imap4_greeting_def pop3_greeting_def managesieve_greeting_def
    by (auto intro!: typed_rules split: option.split prod.split)
qed

lemma imap4_out_find_tag_typed [typed_rules]:
  "same_types w0 w \<Longrightarrow> typed w0 (imap4_out_find_tag Q i eu tag lim w)"
proof (induction Q i eu tag lim w arbitrary: w0 rule: imap4_out_find_tag.induct)
  case (1 Q i eu tag lim w)
  have "same_types w0 w2" if "imap4_out_write_queue Q e t q w1 = Some (rc, w2)" "same_types w0 w1" for e t q w1 w2 rc
    using that by (auto dest!: imap4_out_write_queue_frame intro: typed_rules)
  note wq = this
  obtain r w1 where r: "read_line Q i lim TOKEN_IMAP4 0 w = (r, w1)" by fastforce
  note s1 = typed_read_line [OF r "1.prems"]
  note IH = "1.IH" [OF r [symmetric]]
  show ?case
    using s1 IH by (subst imap4_out_find_tag.simps) (auto simp: r Let_def split: option.split, (frule wq [OF _ s1], blast)+)
qed

lemma imap4_out_response_typed [typed_rules]: "same_types w0 w \<Longrightarrow> typed w0 (imap4_out_response Q i eu tag d lim w)"
  unfolding imap4_out_response_def by (auto intro!: typed_rules split: option.split prod.split)

lemma imap4_out_get_capability_typed [typed_rules]:
  "same_types w0 w \<Longrightarrow> typed w0 (imap4_out_get_capability Q i eu ok tag lim str w)"
  for Q :: "'q queue_ops"
  unfolding imap4_out_get_capability_def
  by (auto intro!: typed_rules typed_bind_pure [where ?'a = "bool \<times> 'q"] split: option.split prod.split)


lemma imap4_out_starttls_typed [typed_rules]:
  "same_types w0 w \<Longrightarrow> typed w0 (imap4_out_starttls Q opt status i eu tag w)"
  unfolding imap4_out_starttls_def by (auto intro!: typed_rules split: prod.split)

lemma imap4_out_setup_typed [typed_rules]:
  "same_types w0 w \<Longrightarrow> typed w0 (imap4_out_setup Q opt net strcmp i eu tag w)"
  unfolding imap4_out_setup_def Let_def
  by (auto intro!: typed_rules typed_bind_pure [where ?'a = "string option"] split: option.split prod.split)

lemma imap4_out_login_typed [typed_rules]:
  "same_types w0 w \<Longrightarrow> typed w0 (imap4_out_login Q i eu a tag lim buf n w)"
  unfolding imap4_out_login_def Let_def by (auto intro!: typed_rules split: prod.split)

lemma imap4_out_authenticate_typed [typed_rules]:
  "same_types w0 w \<Longrightarrow> typed w0 (imap4_out_authenticate Q i eu a tag lim w)"
  unfolding imap4_out_authenticate_def by (auto intro!: typed_rules split: prod.split)

lemma pop3_out_response_typed [typed_rules]: "same_types w0 w \<Longrightarrow> typed w0 (pop3_out_response Q i d lim w)"
  unfolding pop3_out_response_def Let_def by (auto split: option.split prod.split dest: typed_read_line)

lemma pop3_out_capa_loop_types:
  "pop3_out_capa_loop Q i s w = (r, w') \<Longrightarrow> same_types w0 w \<Longrightarrow> same_types w0 w'"
proof (induction Q i s w arbitrary: w0 rule: pop3_out_capa_loop.induct)
  case (1 Q i s w)
  obtain x w1 where r: "read_line Q i None TOKEN_POP3 0 w = (x, w1)" by fastforce
  note s1 = typed_read_line [OF r "1.prems"(2)] and IH = "1.IH" [OF r [symmetric]]
  show ?case using "1.prems"(1) s1 IH
    by (subst (asm) pop3_out_capa_loop.simps) (auto simp: r Let_def split: option.splits if_splits)
qed

lemma pop3_out_setup_typed [typed_rules]: "same_types w0 w \<Longrightarrow> typed w0 (pop3_out_setup Q opt net i w)"
  for Q :: "'q queue_ops"
  unfolding pop3_out_setup_def pop3_out_stls_def pop3_out_leave_def Let_def
  by (auto intro!: typed_rules typed_bind_pure [where ?'a = 'q] split: option.split prod.split bool.split)
    (erule (1) pop3_out_capa_loop_types)+

lemma pop3_out_authenticate_typed [typed_rules]: "same_types w0 w \<Longrightarrow> typed w0 (pop3_out_authenticate Q i a lim w)"
  unfolding pop3_out_authenticate_def by (auto intro!: typed_rules split: prod.split)

lemma in_get_auth_typed [typed_rules]:
  "same_types w0 w \<Longrightarrow> typed w0 (imap4_in_get_auth Q d opt f s i w)"
  "same_types w0 w \<Longrightarrow> typed w0 (pop3_in_get_auth Q opt f s i w)"
  "same_types w0 w \<Longrightarrow> typed w0 (imap4_in_authenticate pam a i tag w)"
  "same_types w0 w \<Longrightarrow> typed w0 (pop3_in_authenticate pam a i tag w)"
proof -
  have "keeps i w (pop3_in_get_auth Q opt f s i w)"
    unfolding pop3_in_get_auth_def by (rule keeps_bind_pure) (rule pop3_in_loop_keeps)
  moreover have "keeps i w (imap4_in_authenticate pam a i tag w)" "keeps i w (pop3_in_authenticate pam a i tag w)"
    unfolding imap4_in_authenticate_def pop3_in_authenticate_def Let_def by (auto intro!: keeps_seq keeps_rules)
  ultimately show
    "same_types w0 w \<Longrightarrow> typed w0 (imap4_in_get_auth Q d opt f s i w)"
    "same_types w0 w \<Longrightarrow> typed w0 (pop3_in_get_auth Q opt f s i w)"
    "same_types w0 w \<Longrightarrow> typed w0 (imap4_in_authenticate pam a i tag w)"
    "same_types w0 w \<Longrightarrow> typed w0 (pop3_in_authenticate pam a i tag w)"
    by (blast intro: typed_trans typed_keeps imap4_in_get_auth_keeps)+
qed

subsection \<open>The contract of a protocol\<close>

text \<open>
  What \<open>main\<close> relies on: the results of the function that reads credentials, that this function
  asks for TLS only where that is enabled and not active yet, and that no operation changes the types
  of the connections.
\<close>

locale session_protocol =
  fixes P :: "'q protocol_t" and opt :: options
  assumes in_get_auth_rc:
      "pr_in_get_auth P i (opt_ssl_mode opt) st w = Some ((rc, a, t), w') \<Longrightarrow>
        (rc < 0 \<or> rc \<in> {0, 1, 2}) \<and>
        (rc = 2 \<longrightarrow> opt_ssl_mode opt AND SSL_MODE_TLS_LISTEN \<noteq> 0 \<and> io_type (ios w i) \<noteq> Io_type_ssl)"
    and write_str_typed: "typed w (pr_write_str P i flag tag cmd str w)"
    and greeting_typed: "typed w (pr_greeting P i flag w)"
    and bye_typed: "pr_bye P = Some bye \<Longrightarrow> typed w (bye i msg w)"
    and in_get_auth_typed: "typed w (pr_in_get_auth P i f st w)"
    and in_authenticate_typed: "typed w (pr_in_authenticate P au i tag w)"
    and out_setup_typed: "typed w (pr_out_setup P i j au tag w)"
    and out_authenticate_typed: "typed w (pr_out_authenticate P i j st au mech tag lim w)"
    and out_response_typed: "typed w (pr_out_response P i eu tag d lim w)"
begin

lemma quit_typed: "same_types w0 w \<Longrightarrow> typed w0 (quit i P tag w)"
  unfolding quit_def
  by (auto intro!: typed_rules typed_trans [OF write_str_typed] typed_trans [OF out_response_typed] split: prod.split)

end

interpretation imap4_session: session_protocol "imap4_initialise_protocol opt e" opt
  by unfold_locales
    (auto simp: imap4_initialise_protocol_def intro!: typed_rules typed_bind_pure [where ?'a = token]
      dest!: imap4_in_get_auth_cases)

interpretation imap4s_session: session_protocol "imap4s_initialise_protocol opt e" opt
  by unfold_locales
    (auto simp: imap4_initialise_protocol_def imap4s_initialise_protocol_def intro!: typed_rules
      typed_bind_pure [where ?'a = token] dest!: imap4_in_get_auth_cases)

interpretation pop3_session: session_protocol "pop3_initialise_protocol opt e" opt
  by unfold_locales
    (auto simp: pop3_initialise_protocol_def bind_eq_Some_conv intro!: typed_rules dest!: pop3_in_get_auth_cases)

interpretation pop3s_session: session_protocol "pop3s_initialise_protocol opt e" opt
  by unfold_locales
    (auto simp: pop3_initialise_protocol_def pop3s_initialise_protocol_def bind_eq_Some_conv intro!: typed_rules
      dest!: pop3_in_get_auth_cases)

lemma managesieve_typed:
  "typed w (managesieve_in_get_auth B p opt Q i f s w)" "typed w (managesieve_in_authenticate a i tag w)"
  "typed w (managesieve_write_str i flag tag cmd str w)" "typed w (managesieve_out_setup Q opt i w)"
  "typed w (managesieve_out_authenticate B Q i st a m lim w)" "typed w (managesieve_protocol_bye i msg w)"
  by (auto simp: managesieve_in_authenticate_def managesieve_protocol_bye_def intro!: typed_keeps [where i = i] keeps_rules)

interpretation managesieve_session: session_protocol "managesieve_initialise_protocol opt e" opt
  by unfold_locales
    (auto simp: managesieve_initialise_protocol_def intro!: managesieve_typed typed_rules typed_bind [OF managesieve_typed(4)]
      typed_bind [OF managesieve_typed(5)] split: if_splits dest!: managesieve_in_get_auth_cases)

text \<open>Every protocol that can be configured keeps the contract.\<close>

lemma protocol_initialise_contract:
  "protocol_initialise opt e n = Some P \<Longrightarrow> session_protocol P opt"
  unfolding protocol_initialise_def
  by (auto split: if_splits intro: pop3_session.session_protocol_axioms pop3s_session.session_protocol_axioms
      imap4_session.session_protocol_axioms imap4s_session.session_protocol_axioms
      managesieve_session.session_protocol_axioms)

subsection \<open>Runs of a protocol\<close>

text \<open>One operation of a protocol, on either connection.\<close>

inductive protocol_step :: "'q protocol_t \<Rightarrow> world \<Rightarrow> world \<Rightarrow> bool" for P where
  step_write: "pr_write_str P i flag tag cmd str w = Some (r, w') \<Longrightarrow> protocol_step P w w'"
| step_greeting: "pr_greeting P i flag w = Some (r, w') \<Longrightarrow> protocol_step P w w'"
| step_bye: "pr_bye P = Some bye \<Longrightarrow> bye i str w = Some (r, w') \<Longrightarrow> protocol_step P w w'"
| step_get_auth: "pr_in_get_auth P i f st w = Some (r, w') \<Longrightarrow> protocol_step P w w'"
| step_authenticate: "pr_in_authenticate P au i tag w = Some (r, w') \<Longrightarrow> protocol_step P w w'"
| step_setup: "pr_out_setup P i j au tag w = Some (r, w') \<Longrightarrow> protocol_step P w w'"
| step_login: "pr_out_authenticate P i j st au mech tag lim w = Some (r, w') \<Longrightarrow> protocol_step P w w'"
| step_response: "pr_out_response P i eu tag d lim w = Some (r, w') \<Longrightarrow> protocol_step P w w'"
| step_quit: "quit i P tag w = Some (r, w') \<Longrightarrow> protocol_step P w w'"

lemma typedD: "typed w r \<Longrightarrow> r = Some (a, w') \<Longrightarrow> same_types w w'"
  by (simp add: typed_def)

lemma protocol_step_types:
  assumes "session_protocol P opt" and "protocol_step P w w'"
  shows "same_types w w'"
  using assms(2)
proof cases
  case (step_quit i tag r)
  then show ?thesis using typedD [OF session_protocol.quit_typed [OF assms(1) same_types_refl]] by blast
next
  case (step_bye bye i str r)
  then show ?thesis using typedD [OF session_protocol.bye_typed [OF assms(1)]] by blast
qed (rule typedD, (rule session_protocol.greeting_typed [OF assms(1)] session_protocol.write_str_typed [OF assms(1)] session_protocol.in_get_auth_typed [OF assms(1)]
    session_protocol.in_authenticate_typed [OF assms(1)] session_protocol.out_setup_typed [OF assms(1)]
    session_protocol.out_authenticate_typed [OF assms(1)] session_protocol.out_response_typed [OF assms(1)]), assumption)+

text \<open>Every run of operations of a protocol, its greeting and farewell included, keeps the types of both connections.\<close>

lemma protocol_types_kept:
  assumes "protocol_initialise opt e n = Some P" and "(protocol_step P)\<^sup>*\<^sup>* w w'"
  shows "io_type (ios w' j) = io_type (ios w j)"
proof -
  have "same_types w w'"
    using assms(2) by induction (auto intro: same_types_trans protocol_step_types [OF protocol_initialise_contract [OF assms(1)]])
  then show ?thesis by (simp add: same_types_def)
qed

subsection \<open>Examples\<close>

text \<open>A POP3 client that sends STLS.\<close>

definition demo_pe :: "token list proto_env" where
  "demo_pe = \<lparr>pe_queue = list_queue, pe_digit = all_digits, pe_strcmp = demo_cmp, pe_net = demo_net,
     pe_pam = \<lparr>pam_start = (\<lambda>_. True), pam_check = (\<lambda>_ _. True)\<rparr>,
     pe_b64 = rfc4648, pe_prep = Some\<rparr>"

definition demo_session_opt :: "int \<Rightarrow> options" where
  "demo_session_opt mode = options_zero\<lparr>opt_pop_capability := Some ''UIDL.USER'', opt_imap_capability := Some ''IMAP4rev1'',
     opt_ssl_mode := mode, opt_domain_delimiter := Some ''@'', opt_domain_delimiter_length := 1,
     opt_outgoing_port := Some ''110'', opt_ok_line := Some ''You are so in'',
     opt_outgoing_server := Some [\<lparr>usp_user = None, usp_server = Some ''mail.example.org'', usp_port = None\<rparr>]\<rparr>"

definition client_sends :: "string \<Rightarrow> world" where
  "client_sends s = \<lparr>tbuf = [], toff = 0, tbytes = 0,
     ios = (\<lambda>j. io_create_fd 0 1 None (case j of EU \<Rightarrow> [Rd_data s] | RS \<Rightarrow> []) [])\<rparr>"

lemma demo_pop3_run:
  "map_option (\<lambda>((rc, a, t), w). rc) (pr_in_get_auth (pop3_initialise_protocol (demo_session_opt 0x04) demo_pe) EU 0x04 0
     (client_sends (''STLS'' @ CRLF))) = Some 2"
  by code_simp

end
