(* ===== verification/Main_Loop.thy ===== *)
theory Main_Loop
  imports Session
begin

text \<open>
  The login loop of \<open>main\<close> in \<^verbatim>\<open>perdition/perdition.c\<close>. One round is a sequence of phases: read
  credentials from the client, find the server, authenticate locally, connect to the server, set up
  the connection, log in. A phase hands over to the next one (\<open>Go\<close>), starts the loop again
  (\<open>Retry\<close>, the \<open>continue\<close> of the C code) or ends the process. Writing the log and sleeping have no
  effect, but the log entry for a login reads \<open>port\<close>: if that pointer is dangling, there is no result.
\<close>

datatype ctl = Go | Retry | Exit int

type_synonym phase_result = "(ctl \<times> session \<times> world) option"

definition then_phase ::
    "(session \<Rightarrow> world \<Rightarrow> phase_result) \<Rightarrow> (session \<Rightarrow> world \<Rightarrow> phase_result) \<Rightarrow> session \<Rightarrow> world \<Rightarrow> phase_result" where
  "then_phase p q s w =
     do { (c, s1, w1) \<leftarrow> p s w; if c = Go then q s1 w1 else Some (c, s1, w1) }"

text \<open>The macro \<open>PERDITION_LOG_AUTH\<close>, with \<open>PERDITION_CLEAN_UP_MAIN\<close> and \<open>continue\<close> behind it.\<close>

definition log_and_retry :: "session \<Rightarrow> world \<Rightarrow> phase_result" where
  "log_and_retry s w = do { _ \<leftarrow> port_deref (s_port s); Some (Retry, clean_up s, w) }"

text \<open>\<open>LOGIN_FAILED_PROTOCOL\<close>, with \<open>PERDITION_CLEAN_UP_MAIN\<close> and \<open>continue\<close> behind it.\<close>

definition login_failed_retry :: "'q env \<Rightarrow> nat \<Rightarrow> string \<Rightarrow> session \<Rightarrow> world \<Rightarrow> phase_result" where
  "login_failed_retry E ty reason s w =
     do { (rc, w1) \<leftarrow> pr_write_str (e_proto E) EU NULL_FLAG (s_client_tag s) (Some (pr_type (e_proto E) ! ty))
            (Some (''failed: '' @ reason)) w;
          if rc < 0 then Some (Exit (-1), s, w1) else log_and_retry s w1 }"

subsection \<open>Credentials from the client\<close>

definition main_client :: "'q env \<Rightarrow> session \<Rightarrow> world \<Rightarrow> phase_result" where
  "main_client E s w =
     (let opt = e_opt E; mode = opt_ssl_mode opt in
      do { ((status, a, tag), w1) \<leftarrow> pr_in_get_auth (e_proto E) EU mode (s_tls_state s) w;
           let w2 = token_flush w1;
               s1 = s\<lparr>s_auth := (case a of None \<Rightarrow> s_auth s | Some x \<Rightarrow> x),
                      s_client_tag := (case tag of None \<Rightarrow> s_client_tag s | Some t \<Rightarrow> Some t)\<rparr>
           in if status < 0 then Some (Exit (-1), s1, w2)
              else if status = 1 then Some (Exit 0, s1, w2)
              else if status = 2 \<and> mode AND SSL_MODE_TLS_LISTEN \<noteq> 0
              then case perdition_ssl_server_connection opt (e_idna E) (e_peer E (s_count s1)) (ios w2 EU) of
                     None \<Rightarrow> Some (Exit (-1), s1, w2)
                   | Some client_io \<Rightarrow>
                       Some (Retry, s1\<lparr>s_tls_state := s_tls_state s1 OR SSL_MODE_TLS_LISTEN, s_count := s_count s1 + 1\<rparr>,
                             upd_io EU client_io w2)
              else if opt_login_disabled opt \<noteq> 0 \<or>
                      status = 0 \<and> mode AND SSL_MODE_TLS_LISTEN \<noteq> 0 \<and>
                      mode AND SSL_MODE_TLS_LISTEN_FORCE \<noteq> 0 \<and> s_tls_state s1 AND SSL_MODE_TLS_LISTEN = 0
              then login_failed_retry E PROTOCOL_NO ''Login Disabled'' s1 w2
              else Some (Go, s1, w2) })"

subsection \<open>The real server\<close>

text \<open>
  \<open>username_mangle\<close> on a pointer that may be NULL: it is handed back, and the caller ends the process,
  unless the domain is to be stripped, which reads through it.
\<close>

definition mangle_id :: "'q env \<Rightarrow> string option \<Rightarrow> int \<Rightarrow> string option option" where
  "mangle_id E name state =
     (case name of
        Some u \<Rightarrow> Some (username_mangle (e_opt E) (e_sock E) u state)
      | None \<Rightarrow>
          if opt_strip_domain (e_opt E) AND state \<noteq> 0 \<and>
             \<not> (state = STATE_GET_SERVER \<and> opt_client_server_specification (e_opt E) \<noteq> 0)
          then None else Some None)"

text \<open>Whether the result of \<open>username_mangle\<close> is the string it was given, rather than a copy.\<close>

definition mangle_shares :: "'q env \<Rightarrow> string option \<Rightarrow> int \<Rightarrow> bool" where
  "mangle_shares E name state =
     (case name of
        None \<Rightarrow> False
      | Some u \<Rightarrow>
          username_strip (e_opt E) u state = Some u \<and>
          username_add_domain (e_opt E) (e_sock E) u state (opt_add_domain_strip_depth (e_opt E)) = Some u \<and>
          opt_lower_case (e_opt E) AND state = 0)"

definition INT_MAX :: int where "INT_MAX = 2 ^ 31 - 1"

text \<open>The choice among the default servers; \<open>rnd + 1\<close> is computed as an \<open>int\<close>.\<close>

definition main_round_robin :: "user_server_port list \<Rightarrow> session \<Rightarrow> session option" where
  "main_round_robin servers s =
     (if s_rnd s \<ge> INT_MAX \<or> servers = [] then None
      else let rnd = (s_rnd s + 1) mod int (length servers);
               usp = servers ! nat rnd
           in Some (s\<lparr>s_round_robin := True, s_rnd := rnd, s_usp := Some usp,
                      s_servername := usp_server usp, s_port := Port_opt (usp_port usp)\<rparr>))"

text \<open>The result of the lookup is \<open>None\<close> if the user name cannot be edited, which ends the process.\<close>

definition main_getserver :: "'q env \<Rightarrow> session \<Rightarrow> session option option" where
  "main_getserver E s =
     (let opt = e_opt E in
      do { name \<leftarrow> mangle_id E (auth_get_authorisation_id (s_auth s)) STATE_GET_SERVER;
           case name of
             None \<Rightarrow> Some None
           | Some u \<Rightarrow>
               do { (usp, user) \<leftarrow>
                      (if e_get E \<noteq> None \<or> e_get2 E \<noteq> None \<or> opt_client_server_specification opt \<noteq> 0
                       then getserver opt ((e_key E)\<lparr>k_user := u\<rparr>) (e_get E) (e_get2 E)
                       else Some (s_usp s, u));
                    let a1 = (if mangle_shares E (auth_get_authorisation_id (s_auth s)) STATE_GET_SERVER
                              then auth_set_authorisation_id (s_auth s) (Some user) else s_auth s);
                        s1 = s\<lparr>s_auth := a1, s_usp := usp\<rparr>
                    in Some (Some (case usp of
                         None \<Rightarrow> s1
                       | Some v \<Rightarrow>
                           s1\<lparr>s_port := Port_usp (usp_port v), s_servername := usp_server v,
                              s_auth := (if opt_username_from_database opt \<noteq> 0 \<and> usp_user v \<noteq> None
                                         then auth_set_authorisation_id a1 (usp_user v) else a1)\<rparr>)) } })"

definition main_default_server :: "options \<Rightarrow> session \<Rightarrow> session option" where
  "main_default_server opt s =
     do { s1 \<leftarrow> (case opt_outgoing_server opt of
                    Some servers \<Rightarrow>
                      if str_empty (s_servername s) \<or> s_round_robin s then main_round_robin servers s else Some s
                  | None \<Rightarrow> Some s);
          port \<leftarrow> port_deref (s_port s1);
          Some (if str_empty port then s1\<lparr>s_port := Port_opt (opt_outgoing_port opt)\<rparr> else s1) }"

definition main_lookup :: "'q env \<Rightarrow> session \<Rightarrow> world \<Rightarrow> phase_result" where
  "main_lookup E s w =
     do { r \<leftarrow> main_getserver E s;
          case r of
            None \<Rightarrow> Some (Exit (-1), s, w)
          | Some s1 \<Rightarrow>
              do { s2 \<leftarrow> main_default_server (e_opt E) s1;
                   if str_empty (s_servername s2)
                   then login_failed_retry E PROTOCOL_ERR ''Could not determine server'' s2 w
                   else Some (Go, s2, w) } }"

subsection \<open>Local authentication\<close>

definition main_local_auth :: "'q env \<Rightarrow> session \<Rightarrow> world \<Rightarrow> phase_result" where
  "main_local_auth E s w =
     (if opt_authenticate_in (e_opt E) = 0 then Some (Go, s, w)
      else do {
        name \<leftarrow> mangle_id E (auth_get_authorisation_id (s_auth s)) STATE_LOCAL_AUTH;
        case name of
          None \<Rightarrow> Some (Exit (-1), s, w)
        | Some u \<Rightarrow>
            do { (status, w1) \<leftarrow> pr_in_authenticate (e_proto E) (auth_set_authorisation_id (s_auth s) (Some u))
                   EU (s_client_tag s) w;
                 if status = 0 then log_and_retry s w1
                 else if status < 0 then Some (Exit (-1), s, w1)
                 else if e_setid E then Some (Go, s, w1)
                 else Some (Exit (-1), s, w1) } })"

subsection \<open>The connection to the server\<close>

definition connect_ssl :: "'q env \<Rightarrow> session \<Rightarrow> world \<Rightarrow> phase_result" where
  "connect_ssl E s w =
     (case perdition_ssl_client_connection (e_opt E) (e_idna E) (e_peer E (s_count s)) (opt_ssl_ca_file (e_opt E))
             (opt_ssl_ca_path (e_opt E)) (s_servername s) (ios w RS) of
        None \<Rightarrow> Some (Exit (-1), s, w)
      | Some server_io \<Rightarrow> Some (Go, s\<lparr>s_count := s_count s + 1\<rparr>, upd_io RS server_io w))"

definition PERDITION_LOG_STR_REAL :: string where "PERDITION_LOG_STR_REAL = ''REAL:  ''"
definition PERDITION_LOG_STR_CLIENT :: string where "PERDITION_LOG_STR_CLIENT = ''CLIENT:''"

definition main_connect :: "'q env \<Rightarrow> session \<Rightarrow> world \<Rightarrow> phase_result" where
  "main_connect E s w =
     (let opt = e_opt E in
      do { port \<leftarrow> port_deref (s_port s);
           let (sock, rd, wr) = e_dial E (s_count s) (s_servername s) port
                                  (opt_no_lookup opt \<noteq> 0) (opt_tcp_keepalive opt \<noteq> 0);
               s1 = s\<lparr>s_count := s_count s + 1\<rparr>
           in if sock < 0 then login_failed_retry E PROTOCOL_ERR ''Could not connect to server'' s1 w
              else let server_io = io_set_timeout (io_create_fd sock sock (Some PERDITION_LOG_STR_REAL) rd wr)
                                     (opt_authenticate_timeout opt);
                       s2 = s1\<lparr>s_server_io := True\<rparr>;
                       w2 = upd_io RS server_io w
                   in if opt_ssl_mode opt AND SSL_MODE_SSL_OUTGOING \<noteq> 0 then connect_ssl E s2 w2
                      else Some (Go, s2, w2) })"

subsection \<open>Setting up and logging in\<close>

definition quit_server :: "'q env \<Rightarrow> session \<Rightarrow> world \<Rightarrow> (session \<times> world) option" where
  "quit_server E s w =
     do { ((_, tag), w1) \<leftarrow> quit RS (e_proto E) (s_our_tag s) w; Some (s\<lparr>s_our_tag := tag\<rparr>, w1) }"

definition quit_and_fail :: "'q env \<Rightarrow> string \<Rightarrow> session \<Rightarrow> world \<Rightarrow> phase_result" where
  "quit_and_fail E reason s w =
     do { (s1, w1) \<leftarrow> quit_server E s w; login_failed_retry E PROTOCOL_NO reason s1 w1 }"

definition main_starttls :: "'q env \<Rightarrow> session \<Rightarrow> world \<Rightarrow> phase_result" where
  "main_starttls E s w =
     do { (c, s1, w1) \<leftarrow> connect_ssl E s w;
          Some (c, if c = Go then s1\<lparr>s_tls_state := s_tls_state s1 OR SSL_MODE_TLS_OUTGOING\<rparr> else s1, w1) }"

definition main_setup :: "'q env \<Rightarrow> session \<Rightarrow> world \<Rightarrow> phase_result" where
  "main_setup E s w =
     (let mode = opt_ssl_mode (e_opt E) in
      do { name \<leftarrow> mangle_id E (auth_get_authorisation_id (s_auth s)) STATE_REMOTE_LOGIN;
           case name of
             None \<Rightarrow> Some (Exit (-1), s, w)
           | Some u \<Rightarrow>
               (let a2 = auth_set_authorisation_id (s_auth s) (Some u) in
                do { ((status, tag), w1) \<leftarrow> pr_out_setup (e_proto E) RS EU a2 (s_our_tag s) w;
                     let s1 = s\<lparr>s_our_tag := tag, s_auth2 := a2, s_mech := status AND PROTOCOL_S_SASL_MASK\<rparr>
                     in if status = 0
                        then quit_and_fail E ''Connection Negotiation Failure'' s1 w1
                        else if status < 0 then Some (Exit (-1), s1, w1)
                        else if mode AND SSL_MODE_TLS_OUTGOING \<noteq> 0 \<and> status AND PROTOCOL_S_STARTTLS \<noteq> 0
                        then main_starttls E s1 w1
                        else if mode AND SSL_MODE_TLS_OUTGOING \<noteq> 0 \<and> mode AND SSL_MODE_TLS_OUTGOING_FORCE \<noteq> 0 \<and>
                                status AND PROTOCOL_S_STARTTLS = 0
                        then quit_and_fail E ''TLS not present'' s1 w1
                        else Some (Go, s1, w1) }) })"

text \<open>
  The line kept in \<open>server_resp_buf\<close> is cut at \<open>server_resp_buf_size\<close>. If it has never been written
  to, its contents are not defined.
\<close>

definition resp_line :: "session \<Rightarrow> nat option \<Rightarrow> string option" where
  "resp_line s n = map_option (\<lambda>b. cstr (case n of None \<Rightarrow> b | Some k \<Rightarrow> take k b)) (s_resp_buf s)"

definition write_resp :: "'q env \<Rightarrow> session \<Rightarrow> nat option \<Rightarrow> world \<Rightarrow> (int \<times> world) option" where
  "write_resp E s n w =
     do { line \<leftarrow> resp_line s n;
          pr_write_str (e_proto E) EU WRITE_STR_NO_CLLF (s_client_tag s) None (Some line) w }"

definition main_login :: "'q env \<Rightarrow> session \<Rightarrow> world \<Rightarrow> phase_result" where
  "main_login E s w =
     (let opt = e_opt E; P = e_proto E; resp = (opt_server_resp_line opt \<noteq> 0) in
      do { ((status, tag, buf, n), w1) \<leftarrow> pr_out_authenticate P RS EU (s_tls_state s) (s_auth2 s) (s_mech s) (s_our_tag s)
             (if resp then Some (MAX_LINE_LENGTH - 1) else None) (token_flush w);
           let s1 = s\<lparr>s_our_tag := tag,
                      s_resp_buf := (if resp \<and> buf \<noteq> None then buf else s_resp_buf s)\<rparr>
           in if status = 0
              then if resp
                   then do { (s2, w2) \<leftarrow> quit_server E s1 w1;
                             (rc, w3) \<leftarrow> write_resp E s2 n w2;
                             if rc < 0 then Some (Exit (-1), s2, w3) else log_and_retry s2 w3 }
                   else quit_and_fail E ''Re-Authentication Failure'' s1 w1
              else if status = 2 then login_failed_retry E PROTOCOL_NO ''Login Disabled'' s1 w1
              else if status = 3 then login_failed_retry E PROTOCOL_NO ''SASL mechanism unavailable'' s1 w1
              else if status < 0 then Some (Exit (-1), s1, w1)
              else do { (rc, w2) \<leftarrow>
                          (if resp then write_resp E s1 n w1
                           else pr_write_str P EU NULL_FLAG (s_client_tag s1) (Some (pr_type P ! PROTOCOL_OK)) (opt_ok_line opt) w1);
                        Some (if rc < 0 then (Exit (-1), s1, w2) else (Go, s1, w2)) } })"

subsection \<open>The loop\<close>

text \<open>\<open>main_until_login\<close> is a round up to the point where the credentials are sent.\<close>

definition main_until_login :: "'q env \<Rightarrow> session \<Rightarrow> world \<Rightarrow> phase_result" where
  "main_until_login E =
     then_phase (main_client E) (then_phase (main_lookup E) (then_phase (main_local_auth E)
       (then_phase (main_connect E) (main_setup E))))"

definition main_round :: "'q env \<Rightarrow> session \<Rightarrow> world \<Rightarrow> phase_result" where
  "main_round E = then_phase (main_until_login E) (main_login E)"

partial_function (option) main_auth :: "'q env \<Rightarrow> session \<Rightarrow> world \<Rightarrow> phase_result" where
  "main_auth E s w =
     do { (c, s1, w1) \<leftarrow> main_round E s w; if c = Retry then main_auth E s1 w1 else Some (c, s1, w1) }"

declare main_auth.simps [code]

text \<open>The states in which a round starts.\<close>

inductive main_reach :: "'q env \<Rightarrow> session \<Rightarrow> world \<Rightarrow> session \<Rightarrow> world \<Rightarrow> bool" for E s0 w0 where
  start: "main_reach E s0 w0 s0 w0"
| round: "main_reach E s0 w0 s w \<Longrightarrow> main_round E s w = Some (Retry, s', w') \<Longrightarrow> main_reach E s0 w0 s' w'"


text \<open>The beginning of a session: TLS at once if configured, the greeting, and the loop.\<close>

definition main_session :: "'q env \<Rightarrow> token option \<Rightarrow> int \<Rightarrow> world \<Rightarrow> phase_result" where
  "main_session E tag rnd w =
     (let opt = e_opt E; s = (session_start tag rnd)\<lparr>s_count := 1\<rparr> in
      case (if opt_ssl_mode opt AND SSL_MODE_SSL_LISTEN \<noteq> 0
            then map_option (\<lambda>i. upd_io EU i w)
                   (perdition_ssl_server_connection opt (e_idna E) (e_peer E 0) (ios w EU))
            else Some w) of
        None \<Rightarrow> Some (Exit (-1), s, w)
      | Some w1 \<Rightarrow>
          do { (rc, w2) \<leftarrow> pr_greeting (e_proto E) EU GREETING_ADD_NODENAME w1;
               if rc \<noteq> 0 then Some (Exit (-1), s, w2) else main_auth E s w2 })"

subsection \<open>What a phase does to the state of TLS\<close>

text \<open>
  \<open>phase_ok s w r\<close>: the connection to the client keeps its type; going on keeps the TLS flag of the
  client, and starting again clears all flags.
\<close>

definition phase_ok :: "session \<Rightarrow> world \<Rightarrow> phase_result \<Rightarrow> bool" where
  "phase_ok s w r \<longleftrightarrow> (\<forall>c s' w'. r = Some (c, s', w') \<longrightarrow>
     io_type (ios w' EU) = io_type (ios w EU) \<and>
     (c = Retry \<longrightarrow> s_tls_state s' = 0 \<and> s_servername s' = None) \<and>
     (c = Go \<longrightarrow> s_tls_state s' AND SSL_MODE_TLS_LISTEN = s_tls_state s AND SSL_MODE_TLS_LISTEN))"

lemma phase_ok_None [simp]: "phase_ok s w None"
  by (simp add: phase_ok_def)

lemma phase_ok_Exit [simp]: "phase_ok s w (Some (Exit n, s', w')) \<longleftrightarrow> io_type (ios w' EU) = io_type (ios w EU)"
  by (simp add: phase_ok_def)

lemma phase_ok_Go [simp]:
  "phase_ok s w (Some (Go, s', w')) \<longleftrightarrow> io_type (ios w' EU) = io_type (ios w EU) \<and>
     s_tls_state s' AND SSL_MODE_TLS_LISTEN = s_tls_state s AND SSL_MODE_TLS_LISTEN"
  by (simp add: phase_ok_def)

lemma phase_ok_bind: "(\<And>x. r = Some x \<Longrightarrow> phase_ok s w (f x)) \<Longrightarrow> phase_ok s w (r \<bind> f)"
  by (cases r) auto

lemma phase_ok_then:
  assumes "phase_ok s w (p s w)" and "\<And>s1 w1. p s w = Some (Go, s1, w1) \<Longrightarrow> phase_ok s1 w1 (q s1 w1)"
  shows "phase_ok s w (then_phase p q s w)"
proof (cases "p s w")
  case None
  then show ?thesis by (simp add: then_phase_def)
next
  case (Some x)
  obtain c s1 w1 where x: "x = (c, s1, w1)" by (cases x)
  show ?thesis
  proof (cases c)
    case Go
    with Some x assms have "phase_ok s w (Some (Go, s1, w1))" "phase_ok s1 w1 (q s1 w1)" by simp_all
    then have "phase_ok s w (q s1 w1)" unfolding phase_ok_def by (metis prod.inject option.inject)
    with Some x Go show ?thesis by (simp add: then_phase_def)
  qed (use Some x assms(1) in \<open>simp_all add: then_phase_def\<close>)
qed

lemma clean_up_simps [simp]:
  "s_tls_state (clean_up s) = 0" "s_servername (clean_up s) = None" "s_our_tag (clean_up s) = s_our_tag s"
  "s_rnd (clean_up s) = s_rnd s" "s_resp_buf (clean_up s) = s_resp_buf s" "s_count (clean_up s) = s_count s"
  "s_usp (clean_up s) = None" "s_client_tag (clean_up s) = None" "s_auth (clean_up s) = auth_zero"
  "s_round_robin (clean_up s) = False"
  by (simp_all add: clean_up_def)

lemma phase_ok_log: "io_type (ios w1 EU) = io_type (ios w EU) \<Longrightarrow> phase_ok s w (log_and_retry s1 w1)"
  by (auto simp: log_and_retry_def phase_ok_def bind_eq_Some_conv)

lemma tls_bits:
  "(a OR SSL_MODE_TLS_OUTGOING) AND SSL_MODE_TLS_LISTEN = a AND SSL_MODE_TLS_LISTEN"
  "(a OR SSL_MODE_TLS_LISTEN) AND SSL_MODE_TLS_LISTEN \<noteq> 0"
  "0 AND SSL_MODE_TLS_LISTEN = 0"
  by (simp_all add: bit.conj_disj_distrib2 ssl_mode_defs or_eq_0_iff)

lemma failed_not_Go: "login_failed_retry E ty reason s w \<noteq> Some (Go, s1, w1)"
  by (auto simp: login_failed_retry_def log_and_retry_def bind_eq_Some_conv split: if_splits)

lemma token_flush_ios [simp]: "ios (token_flush w) = ios w"
  by (simp add: token_flush_def)

locale session_env = session_protocol "e_proto E" "e_opt E" for E :: "'q env"
begin

lemma failed_ok:
  assumes "io_type (ios w1 EU) = io_type (ios w EU)"
  shows "phase_ok s w (login_failed_retry E ty reason s1 w1)"
proof -
  have "phase_ok s w (if rc < 0 then Some (Exit (-1), s1, w2) else log_and_retry s1 w2)"
    if "pr_write_str (e_proto E) EU NULL_FLAG (s_client_tag s1) cmd str w1 = Some (rc, w2)" for rc w2 cmd str
  proof -
    have "io_type (ios w2 EU) = io_type (ios w EU)"
      using assms that write_str_typed [of w1 EU NULL_FLAG "s_client_tag s1" cmd str] by (simp add: same_types_def)
    then show ?thesis by (simp add: phase_ok_log)
  qed
  then show ?thesis unfolding login_failed_retry_def by (auto intro!: phase_ok_bind)
qed

lemma quit_server_types:
  "quit_server E s w = Some (s1, w1) \<Longrightarrow> io_type (ios w1 j) = io_type (ios w j) \<and> s_tls_state s1 = s_tls_state s"
  using quit_typed [OF same_types_refl, of w RS "s_our_tag s"]
  by (auto simp: quit_server_def bind_eq_Some_conv typed_def same_types_def)

lemma round_robin_tls: "main_round_robin servers s = Some s1 \<Longrightarrow> s_tls_state s1 = s_tls_state s"
  by (auto simp: main_round_robin_def Let_def split: if_splits)

lemma getserver_tls: "main_getserver E s = Some (Some s1) \<Longrightarrow> s_tls_state s1 = s_tls_state s"
  by (auto simp: main_getserver_def Let_def bind_eq_Some_conv split: option.splits)

lemma default_server_tls: "main_default_server opt s = Some s1 \<Longrightarrow> s_tls_state s1 = s_tls_state s"
  by (auto simp: main_default_server_def bind_eq_Some_conv round_robin_tls split: option.splits if_splits)

lemma lookup_ok: "phase_ok s w (main_lookup E s w)"
  unfolding main_lookup_def
  by (auto intro!: phase_ok_bind failed_ok split: option.split dest!: getserver_tls default_server_tls)

lemma local_auth_ok: "phase_ok s w (main_local_auth E s w)"
  unfolding main_local_auth_def
  using in_authenticate_typed
  by (auto intro!: phase_ok_bind phase_ok_log simp: typed_def same_types_def split: option.splits)

lemma connect_ssl_ok: "phase_ok s w (connect_ssl E s w)"
  by (auto simp: connect_ssl_def upd_io_def split: option.splits)

lemma connect_ssl_Go:
  assumes "connect_ssl E s w = Some (Go, s1, w1)"
  shows "perdition_ssl_client_connection (e_opt E) (e_idna E) (e_peer E (s_count s)) (opt_ssl_ca_file (e_opt E))
     (opt_ssl_ca_path (e_opt E)) (s_servername s) (ios w RS) = Some (ios w1 RS) \<and> s_servername s1 = s_servername s"
  using assms by (auto simp: connect_ssl_def upd_io_def split: option.splits)

lemma upd_RS_EU [simp]: "ios (upd_io RS x w) EU = ios w EU" "ios (upd_io i x w) i = x"
  by (simp_all add: upd_io_def)

lemma connect_ok: "phase_ok s w (main_connect E s w)"
proof -
  have f: "phase_ok s w (login_failed_retry E ty reason s1 w)" for s1 ty reason by (rule failed_ok) simp
  have c: "phase_ok s w (connect_ssl E s1 (upd_io RS x w))" if "s_tls_state s1 = s_tls_state s" for s1 x
    using connect_ssl_ok [of s1 "upd_io RS x w"] that by (simp add: phase_ok_def)
  show ?thesis unfolding main_connect_def Let_def
    by (auto intro!: phase_ok_bind f c split: prod.split)
qed

lemma quit_and_fail_ok:
  "io_type (ios w1 EU) = io_type (ios w EU) \<Longrightarrow> phase_ok s w (quit_and_fail E reason s1 w1)"
  unfolding quit_and_fail_def by (auto intro!: phase_ok_bind failed_ok dest: quit_server_types [where j = EU])

lemma starttls_ok:
  assumes "s_tls_state s1 = s_tls_state s" and "io_type (ios w1 EU) = io_type (ios w EU)"
  shows "phase_ok s w (main_starttls E s1 w1)"
  unfolding main_starttls_def using connect_ssl_ok [of s1 w1] assms
  by (auto simp: phase_ok_def bind_eq_Some_conv tls_bits split: if_splits)

lemma setup_ok: "phase_ok s w (main_setup E s w)"
proof -
  have t: "io_type (ios w1 EU) = io_type (ios w EU)" if "pr_out_setup (e_proto E) RS EU a t w = Some (r, w1)" for a t r w1
    using out_setup_typed [of w RS EU a t] that by (simp add: same_types_def)
  show ?thesis unfolding main_setup_def Let_def
    by (auto intro!: phase_ok_bind quit_and_fail_ok starttls_ok split: option.split dest!: t)
qed

lemma quit_and_fail_not_Go: "quit_and_fail E reason s w \<noteq> Some (Go, s1, w1)"
  by (auto simp: quit_and_fail_def failed_not_Go bind_eq_Some_conv)

lemma login_ok: "phase_ok s w (main_login E s w)"
proof -
  have t: "io_type (ios w1 EU) = io_type (ios w EU)"
    if "pr_out_authenticate (e_proto E) RS EU st a m t lim (token_flush w) = Some (r, w1)" for st a m t lim r w1
    using out_authenticate_typed [of "token_flush w" RS EU st a m t lim] that by (simp add: same_types_def)
  have r: "io_type (ios w2 EU) = io_type (ios w1 EU)" if "write_resp E s1 n w1 = Some (rc, w2)" for s1 n rc w1 w2
    using write_str_typed [of w1 EU WRITE_STR_NO_CLLF "s_client_tag s1" None] that
    by (auto simp: write_resp_def bind_eq_Some_conv same_types_def typed_def)
  have k: "io_type (ios w2 EU) = io_type (ios w1 EU)"
    if "pr_write_str (e_proto E) EU NULL_FLAG tag cmd str w1 = Some (rc, w2)" for tag cmd str rc w1 w2
    using write_str_typed [of w1 EU NULL_FLAG tag cmd str] that by (simp add: same_types_def)
  show ?thesis unfolding main_login_def Let_def
    by (auto intro!: phase_ok_bind quit_and_fail_ok failed_ok phase_ok_log
        dest!: t r k quit_server_types [where j = EU])
qed

text \<open>The five outcomes of reading credentials.\<close>

lemma client_cases:
  assumes "main_client E s w = Some (c, s1, w1)"
  obtains (exit) n where "c = Exit n"
  | (tls) w0 i where "c = Retry" "io_type (ios w EU) \<noteq> Io_type_ssl" "opt_ssl_mode (e_opt E) AND SSL_MODE_TLS_LISTEN \<noteq> 0"
      "same_types w w0" "perdition_ssl_server_connection (e_opt E) (e_idna E) (e_peer E (s_count s)) (ios w0 EU) = Some i"
      "w1 = upd_io EU i (token_flush w0)" "s_tls_state s1 = s_tls_state s OR SSL_MODE_TLS_LISTEN"
  | (disabled) w0 s0 where "c = Retry" "same_types w w0" "login_failed_retry E PROTOCOL_NO ''Login Disabled'' s0 (token_flush w0) = Some (c, s1, w1)"
  | (go) w0 where "c = Go" "same_types w w0" "w1 = token_flush w0" "s_tls_state s1 = s_tls_state s" "opt_login_disabled (e_opt E) = 0"
      "opt_ssl_mode (e_opt E) AND SSL_MODE_TLS_LISTEN \<noteq> 0 \<and> opt_ssl_mode (e_opt E) AND SSL_MODE_TLS_LISTEN_FORCE \<noteq> 0 \<Longrightarrow>
        s_tls_state s AND SSL_MODE_TLS_LISTEN \<noteq> 0"
proof -
  obtain status a tag w0 where r: "pr_in_get_auth (e_proto E) EU (opt_ssl_mode (e_opt E)) (s_tls_state s) w = Some ((status, a, tag), w0)"
    using assms by (auto simp: main_client_def Let_def bind_eq_Some_conv)
  have t: "same_types w w0" using in_get_auth_typed r by (metis typed_Some)
  have rc: "status < 0 \<or> status \<in> {0, 1, 2}"
    "status = 2 \<Longrightarrow> opt_ssl_mode (e_opt E) AND SSL_MODE_TLS_LISTEN \<noteq> 0 \<and> io_type (ios w EU) \<noteq> Io_type_ssl"
    using in_get_auth_rc [OF r] by auto
  define s0 where "s0 = s\<lparr>s_auth := (case a of None \<Rightarrow> s_auth s | Some x \<Rightarrow> x),
                      s_client_tag := (case tag of None \<Rightarrow> s_client_tag s | Some t \<Rightarrow> Some t)\<rparr>"
  have s0: "s_tls_state s0 = s_tls_state s" "s_count s0 = s_count s" by (simp_all add: s0_def)
  note m = assms [unfolded main_client_def Let_def r, simplified, folded s0_def]
  consider "status < 0 \<or> status = 1" | "status = 2" | "status = 0" using rc(1) by auto
  then show ?thesis
  proof cases
    case 1
    then show ?thesis using m exit by auto
  next
    case 2
    then show ?thesis using m rc(2) t s0 exit tls [of w0] by (auto split: option.splits)
  next
    case 3
    show ?thesis
    proof (cases "c = Retry")
      case True
      then show ?thesis using m 3 t disabled by (auto split: if_splits)
    next
      case False
      then show ?thesis
        using m 3 t s0 exit go by (cases c) (auto simp: failed_not_Go split: if_splits)
    qed
  qed
qed

text \<open>
  Behind the credentials of the client, a round keeps the type of the client's connection; it ends in
  \<open>Go\<close> with the client's flag as it was, in \<open>Retry\<close> with no flag set.
\<close>

lemma rest_ok: "phase_ok s w (then_phase (main_lookup E) (then_phase (main_local_auth E)
    (then_phase (main_connect E) (main_setup E))) s w)"
  by (intro phase_ok_then lookup_ok local_auth_ok connect_ok setup_ok)

lemma until_login_cases:
  assumes "main_until_login E s w = Some (c, s2, w2)"
  shows "main_client E s w = Some (c, s2, w2) \<and> c \<noteq> Go \<or>
    (\<exists>s1 w1. main_client E s w = Some (Go, s1, w1) \<and> phase_ok s1 w1 (Some (c, s2, w2)))"
proof -
  obtain c1 s1 w1 where m: "main_client E s w = Some (c1, s1, w1)"
    using assms by (auto simp: main_until_login_def then_phase_def bind_eq_Some_conv)
  show ?thesis
  proof (cases "c1 = Go")
    case True
    then have "then_phase (main_lookup E) (then_phase (main_local_auth E) (then_phase (main_connect E) (main_setup E))) s1 w1
        = Some (c, s2, w2)" using assms m by (simp add: main_until_login_def then_phase_def)
    with rest_ok [of s1 w1] m True show ?thesis by simp
  next
    case False
    with assms m show ?thesis by (simp add: main_until_login_def then_phase_def)
  qed
qed

lemma round_cases:
  assumes "main_round E s w = Some (c, s2, w2)"
  shows "main_client E s w = Some (c, s2, w2) \<and> c \<noteq> Go \<or>
    (\<exists>s1 w1. main_client E s w = Some (Go, s1, w1) \<and> phase_ok s1 w1 (Some (c, s2, w2)))"
proof -
  obtain c1 s1 w1 where m: "main_until_login E s w = Some (c1, s1, w1)"
    using assms by (auto simp: main_round_def then_phase_def bind_eq_Some_conv)
  show ?thesis
  proof (cases "c1 = Go")
    case True
    with until_login_cases [OF m] obtain s0 w0 where c: "main_client E s w = Some (Go, s0, w0)"
      "phase_ok s0 w0 (Some (Go, s1, w1))" by auto
    have "main_login E s1 w1 = Some (c, s2, w2)" using assms m True by (simp add: main_round_def then_phase_def)
    with login_ok [of s1 w1] have "phase_ok s1 w1 (Some (c, s2, w2))" by simp
    with c have "phase_ok s0 w0 (Some (c, s2, w2))" by (auto simp: phase_ok_def)
    with c show ?thesis by blast
  next
    case False
    with assms m until_login_cases [OF m] show ?thesis by (auto simp: main_round_def then_phase_def)
  qed
qed

text \<open>The invariant of the loop: the client's TLS flag is set only on a TLS connection.\<close>

lemma server_connection_type: "perdition_ssl_server_connection opt idna sp x = Some i \<Longrightarrow> io_type i = Io_type_ssl"
  by (auto simp: perdition_ssl_server_connection_def dest: ssl_connection_io split: option.splits if_splits)

lemma client_Retry:
  assumes "main_client E s w = Some (Retry, s1, w1)"
  shows "io_type (ios w1 EU) = Io_type_ssl \<and> io_type (ios w EU) \<noteq> Io_type_ssl \<or>
    io_type (ios w1 EU) = io_type (ios w EU) \<and> s_tls_state s1 = 0"
  using assms
proof (cases rule: client_cases)
  case (tls w0 i)
  then show ?thesis using server_connection_type by auto
next
  case (disabled w0 s0)
  with failed_ok [of "token_flush w0" w s] show ?thesis by (auto simp: phase_ok_def same_types_def)
qed simp_all

lemma client_GoD:
  assumes "main_client E s w = Some (Go, s1, w1)"
  shows "io_type (ios w1 EU) = io_type (ios w EU) \<and> s_tls_state s1 = s_tls_state s \<and> opt_login_disabled (e_opt E) = 0 \<and>
    (opt_ssl_mode (e_opt E) AND SSL_MODE_TLS_LISTEN \<noteq> 0 \<and> opt_ssl_mode (e_opt E) AND SSL_MODE_TLS_LISTEN_FORCE \<noteq> 0 \<longrightarrow>
      s_tls_state s AND SSL_MODE_TLS_LISTEN \<noteq> 0)"
  using assms by (cases rule: client_cases) (auto simp: same_types_def)

lemma reach_client_tls:
  assumes "main_reach E s0 w0 s w" and "s_tls_state s0 AND SSL_MODE_TLS_LISTEN = 0"
  shows "s_tls_state s AND SSL_MODE_TLS_LISTEN \<noteq> 0 \<longrightarrow> io_type (ios w EU) = Io_type_ssl"
  using assms
proof induction
  case (round s w s' w')
  from round_cases [OF round.hyps(2)] show ?case
  proof (elim disjE exE conjE)
    assume "main_client E s w = Some (Retry, s', w')"
    with client_Retry [OF this] show ?thesis by (auto simp: tls_bits)
  next
    fix s1 w1 assume "main_client E s w = Some (Go, s1, w1)" "phase_ok s1 w1 (Some (Retry, s', w'))"
    then show ?thesis by (simp add: phase_ok_def tls_bits)
  qed
qed simp

text \<open>Once the client is on TLS, its flag is cleared by a failing round and never set again.\<close>

lemma round_on_tls:
  assumes "main_round E s w = Some (Retry, s', w')" and "io_type (ios w EU) = Io_type_ssl"
  shows "io_type (ios w' EU) = Io_type_ssl \<and> s_tls_state s' = 0"
  using round_cases [OF assms(1)] assms(2)
  by (auto dest!: client_Retry client_GoD simp: phase_ok_def)

lemma reach_on_tls:
  assumes "main_reach E s0 w0 s w" and "io_type (ios w0 EU) = Io_type_ssl" and "s_tls_state s0 AND SSL_MODE_TLS_LISTEN = 0"
  shows "io_type (ios w EU) = Io_type_ssl \<and> s_tls_state s AND SSL_MODE_TLS_LISTEN = 0"
  using assms
proof induction
  case (round s w s' w')
  then show ?case using round_on_tls [OF round.hyps(2)] by (simp add: tls_bits)
qed simp

lemma setup_Go_types:
  assumes "main_setup E s w = Some (Go, s1, w1)"
  shows "s_servername s1 = s_servername s \<and>
    (io_type (ios w1 RS) = io_type (ios w RS) \<and>
       \<not> (opt_ssl_mode (e_opt E) AND SSL_MODE_TLS_OUTGOING \<noteq> 0 \<and> opt_ssl_mode (e_opt E) AND SSL_MODE_TLS_OUTGOING_FORCE \<noteq> 0) \<or>
     (\<exists>n x. perdition_ssl_client_connection (e_opt E) (e_idna E) (e_peer E n) (opt_ssl_ca_file (e_opt E))
        (opt_ssl_ca_path (e_opt E)) (s_servername s) x = Some (ios w1 RS)))"
proof -
  obtain a2 status tag w0 where r: "pr_out_setup (e_proto E) RS EU a2 (s_our_tag s) w = Some ((status, tag), w0)"
    and m: "main_setup E s w = (let s1 = s\<lparr>s_our_tag := tag, s_auth2 := a2, s_mech := status AND PROTOCOL_S_SASL_MASK\<rparr>;
                         mode = opt_ssl_mode (e_opt E)
                     in if status = 0 then quit_and_fail E ''Connection Negotiation Failure'' s1 w0
                        else if status < 0 then Some (Exit (-1), s1, w0)
                        else if mode AND SSL_MODE_TLS_OUTGOING \<noteq> 0 \<and> status AND PROTOCOL_S_STARTTLS \<noteq> 0
                        then main_starttls E s1 w0
                        else if mode AND SSL_MODE_TLS_OUTGOING \<noteq> 0 \<and> mode AND SSL_MODE_TLS_OUTGOING_FORCE \<noteq> 0 \<and>
                                status AND PROTOCOL_S_STARTTLS = 0
                        then quit_and_fail E ''TLS not present'' s1 w0
                        else Some (Go, s1, w0))"
    using assms by (auto simp: main_setup_def Let_def bind_eq_Some_conv split: option.splits)
  have t: "io_type (ios w0 RS) = io_type (ios w RS)"
    using out_setup_typed [of w RS EU a2 "s_our_tag s"] r by (simp add: same_types_def)
  show ?thesis using assms t unfolding m
    by (auto simp: Let_def quit_and_fail_not_Go main_starttls_def bind_eq_Some_conv dest!: connect_ssl_Go split: if_splits)
qed

lemma connect_Go_types:
  assumes "main_connect E s w = Some (Go, s1, w1)"
  shows "s_servername s1 = s_servername s \<and> (opt_ssl_mode (e_opt E) AND SSL_MODE_SSL_OUTGOING \<noteq> 0 \<longrightarrow>
     (\<exists>n x. perdition_ssl_client_connection (e_opt E) (e_idna E) (e_peer E n) (opt_ssl_ca_file (e_opt E))
        (opt_ssl_ca_path (e_opt E)) (s_servername s) x = Some (ios w1 RS)))"
proof -
  obtain port where p: "port_deref (s_port s) = Some port" using assms by (auto simp: main_connect_def Let_def bind_eq_Some_conv)
  obtain sock rd wr where d: "e_dial E (s_count s) (s_servername s) port (opt_no_lookup (e_opt E) \<noteq> 0)
      (opt_tcp_keepalive (e_opt E) \<noteq> 0) = (sock, rd, wr)" by (metis prod_cases3)
  show ?thesis using assms
    by (auto simp: main_connect_def Let_def p d failed_not_Go dest!: connect_ssl_Go split: if_splits) blast
qed

lemma lookup_Go: "main_lookup E s w = Some (Go, s1, w1) \<Longrightarrow> \<exists>v. s_servername s1 = Some v \<and> v \<noteq> []"
  by (auto simp: main_lookup_def bind_eq_Some_conv failed_not_Go str_empty_def split: option.splits if_splits)

lemma local_auth_Go: "main_local_auth E s w = Some (Go, s1, w1) \<Longrightarrow> s_servername s1 = s_servername s"
  by (auto simp: main_local_auth_def bind_eq_Some_conv log_and_retry_def split: option.splits if_splits)

lemma then_Go:
  "then_phase p q s w = Some (Go, s2, w2) \<longleftrightarrow> (\<exists>s1 w1. p s w = Some (Go, s1, w1) \<and> q s1 w1 = Some (Go, s2, w2))"
  by (auto simp: then_phase_def bind_eq_Some_conv split: if_splits)

lemma client_connection_type:
  "perdition_ssl_client_connection opt idna sp f p sv x = Some i \<Longrightarrow> io_type i = Io_type_ssl"
  by (auto simp: perdition_ssl_client_connection_def dest: ssl_connection_io split: option.splits if_splits)

lemma until_login_Go_server:
  assumes "main_until_login E s w = Some (Go, s1, w1)"
    and "opt_ssl_mode (e_opt E) AND SSL_MODE_SSL_OUTGOING \<noteq> 0 \<or>
      opt_ssl_mode (e_opt E) AND SSL_MODE_TLS_OUTGOING \<noteq> 0 \<and> opt_ssl_mode (e_opt E) AND SSL_MODE_TLS_OUTGOING_FORCE \<noteq> 0"
  shows "io_type (ios w1 RS) = Io_type_ssl \<and> (\<exists>server n x x'. s_servername s1 = Some server \<and> server \<noteq> [] \<and>
    perdition_ssl_client_connection (e_opt E) (e_idna E) (e_peer E n) (opt_ssl_ca_file (e_opt E))
      (opt_ssl_ca_path (e_opt E)) (Some server) x = Some x')"
proof -
  obtain s3 w3 s4 w4 s5 w5 where l: "main_lookup E s3 w3 = Some (Go, s4, w4)"
    and a: "\<exists>s' w'. main_local_auth E s4 w4 = Some (Go, s', w') \<and> main_connect E s' w' = Some (Go, s5, w5)"
    and u: "main_setup E s5 w5 = Some (Go, s1, w1)"
    using assms(1) by (auto simp: main_until_login_def then_Go)
  then obtain s' w' where c: "main_local_auth E s4 w4 = Some (Go, s', w')" "main_connect E s' w' = Some (Go, s5, w5)" by blast
  obtain v where v: "s_servername s1 = Some v" "v \<noteq> []" "s_servername s5 = Some v" "s_servername s' = Some v"
    using lookup_Go [OF l] local_auth_Go [OF c(1)] connect_Go_types [OF c(2)] setup_Go_types [OF u] by metis
  show ?thesis using setup_Go_types [OF u] connect_Go_types [OF c(2)] assms(2) v client_connection_type by metis
qed

end

lemma reach_trans: "main_reach E s1 w1 s2 w2 \<Longrightarrow> main_reach E s0 w0 s1 w1 \<Longrightarrow> main_reach E s0 w0 s2 w2"
  by (induction rule: main_reach.induct) (auto intro: main_reach.round)

lemma main_auth_reach:
  assumes "main_auth E s w = Some (c, s', w')"
  shows "c \<noteq> Retry \<and> (\<exists>s1 w1. main_reach E s w s1 w1 \<and> main_round E s1 w1 = Some (c, s', w'))"
proof -
  have "fst r \<noteq> Retry \<and> (\<exists>s1 w1. main_reach E s w s1 w1 \<and> main_round E s1 w1 = Some r)"
    if "main_auth E s w = Some r" for r s w
    using that
  proof (rule main_auth.raw_induct [rotated])
    fix f :: "'a env \<Rightarrow> session \<Rightarrow> world \<Rightarrow> phase_result" and E :: "'a env" and s w r
    assume IH: "\<And>E s w r. f E s w = Some r \<Longrightarrow>
        fst r \<noteq> Retry \<and> (\<exists>s1 w1. main_reach E s w s1 w1 \<and> main_round E s1 w1 = Some r)"
      and "main_round E s w \<bind> (\<lambda>(c, s1, w1). if c = Retry then f E s1 w1 else Some (c, s1, w1)) = Some r"
    then obtain c s1 w1 where m: "main_round E s w = Some (c, s1, w1)"
      and r: "(if c = Retry then f E s1 w1 else Some (c, s1, w1)) = Some r"
      by (auto simp: bind_eq_Some_conv)
    show "fst r \<noteq> Retry \<and> (\<exists>s1 w1. main_reach E s w s1 w1 \<and> main_round E s1 w1 = Some r)"
    proof (cases "c = Retry")
      case True
      then have "main_reach E s w s1 w1" using m by (auto intro: main_reach.intros)
      with IH [of E s1 w1 r] r True show ?thesis by (auto intro: reach_trans)
    next
      case False
      with r m show ?thesis by (auto intro: main_reach.start)
    qed
  qed
  from this [OF assms] show ?thesis by simp
qed

subsection \<open>Properties\<close>

text \<open>
  C1. Whatever the client and the servers send, in every round of the loop the credentials are handed
  to the protocol's login only if logins are enabled; if TLS is forced for clients, the client's
  connection is then a TLS connection; and if the server is contacted with SSL, or TLS is forced for
  servers, the server's connection is a TLS connection that was made for the name of the server
  looked up, with its certificate checked.
\<close>

theorem main_login_secure:
  assumes "session_env E" and "main_reach E (session_start tag rnd) w0 s w"
    and "main_until_login E s w = Some (Go, s1, w1)" and "mode = opt_ssl_mode (e_opt E)"
  shows "opt_login_disabled (e_opt E) = 0 \<and>
    (mode AND SSL_MODE_TLS_LISTEN \<noteq> 0 \<and> mode AND SSL_MODE_TLS_LISTEN_FORCE \<noteq> 0 \<longrightarrow> io_type (ios w1 EU) = Io_type_ssl) \<and>
    (mode AND SSL_MODE_SSL_OUTGOING \<noteq> 0 \<or> mode AND SSL_MODE_TLS_OUTGOING \<noteq> 0 \<and> mode AND SSL_MODE_TLS_OUTGOING_FORCE \<noteq> 0 \<longrightarrow>
      io_type (ios w1 RS) = Io_type_ssl \<and>
      (\<exists>server n x x'. s_servername s1 = Some server \<and> server \<noteq> [] \<and>
         perdition_ssl_client_connection (e_opt E) (e_idna E) (e_peer E n) (opt_ssl_ca_file (e_opt E))
           (opt_ssl_ca_path (e_opt E)) (Some server) x = Some x'))"
proof -
  obtain s2 w2 where c: "main_client E s w = Some (Go, s2, w2)" "phase_ok s2 w2 (Some (Go, s1, w1))"
    using session_env.until_login_cases [OF assms(1,3)] by auto
  have "s_tls_state (session_start tag rnd) AND SSL_MODE_TLS_LISTEN = 0" by (simp add: session_start_def tls_bits)
  note inv = session_env.reach_client_tls [OF assms(1,2) this]
  have "io_type (ios w1 EU) = io_type (ios w EU)" using session_env.client_GoD [OF assms(1) c(1)] c(2) by simp
  then show ?thesis using session_env.client_GoD [OF assms(1) c(1)] inv session_env.until_login_Go_server [OF assms(1,3)]
    by (auto simp: assms(4))
qed

text \<open>
  C25. The flag that records STARTTLS of the client is cleared with every failed login although the
  connection stays encrypted. So if TLS is forced for clients, after one failed login over STARTTLS no
  later login of the session can succeed, whatever the client sends.
\<close>

theorem main_locked_out_after_failure:
  assumes "session_env E" and "opt_ssl_mode (e_opt E) AND SSL_MODE_TLS_LISTEN \<noteq> 0"
    and "opt_ssl_mode (e_opt E) AND SSL_MODE_TLS_LISTEN_FORCE \<noteq> 0"
    and "io_type (ios w EU) = Io_type_ssl" and "main_round E s w = Some (Retry, s1, w1)"
  shows "main_auth E s1 w1 \<noteq> Some (Go, s2, w2)"
proof
  assume "main_auth E s1 w1 = Some (Go, s2, w2)"
  then obtain s3 w3 where r: "main_reach E s1 w1 s3 w3" "main_round E s3 w3 = Some (Go, s2, w2)"
    using main_auth_reach by blast
  have "io_type (ios w1 EU) = Io_type_ssl" "s_tls_state s1 AND SSL_MODE_TLS_LISTEN = 0"
    using session_env.round_on_tls [OF assms(1,5,4)] by (simp_all add: tls_bits)
  with session_env.reach_on_tls [OF assms(1) r(1)] have "s_tls_state s3 AND SSL_MODE_TLS_LISTEN = 0" by simp
  moreover obtain s4 w4 where "main_client E s3 w3 = Some (Go, s4, w4)"
    using session_env.round_cases [OF assms(1) r(2)] by auto
  ultimately show False using session_env.client_GoD [OF assms(1)] assms(2,3) by metis
qed

text \<open>
  C8. Nothing a client has sent behind its credentials or behind STARTTLS survives in the read buffer:
  what is read next comes from the connection itself, and behind STARTTLS that is what the peer
  sends over TLS. So plain text commands cannot be slipped in before the handshake.
\<close>

theorem main_client_flushes:
  assumes "session_env E" and "main_client E s w = Some (c, s1, w1)"
    and "c = Go \<or> c = Retry \<and> s_tls_state s1 AND SSL_MODE_TLS_LISTEN \<noteq> 0"
  shows "avail EU w1 = io_stream (ios w1 EU) \<and>
    (c = Retry \<longrightarrow> io_rd (ios w1 EU) = sp_rd (e_peer E (s_count s)) \<and> io_type (ios w1 EU) = Io_type_ssl \<and>
       io_type (ios w EU) \<noteq> Io_type_ssl)"
proof (cases rule: session_env.client_cases [OF assms(1,2), case_names exit tls disabled go])
  case (tls w0 i)
  then have "perdition_ssl_connection (e_peer E (s_count s)) (ios w0 EU) = Some i"
    by (auto simp: perdition_ssl_server_connection_def split: option.splits if_splits)
  from ssl_connection_io [OF this] tls show ?thesis by (simp add: avail_def token_flush_def upd_io_def)
next
  case (disabled w0 s0)
  with session_env.failed_ok [OF assms(1), of "token_flush w0" "token_flush w0" s] assms(3)
  show ?thesis by (auto simp: phase_ok_def tls_bits)
qed (use assms(3) in \<open>auto simp: avail_def token_flush_def\<close>)

lemma round_robin_iterate:
  assumes "servers \<noteq> []" and "0 \<le> s_rnd s" and "s_rnd s < INT_MAX" and "int (length servers) \<le> INT_MAX"
  shows "\<exists>s'. ((\<lambda>r. Option.bind r (main_round_robin servers)) ^^ Suc k) (Some s) = Some s' \<and>
    s_rnd s' = (s_rnd s + 1 + int k) mod int (length servers) \<and>
    s_usp s' = Some (servers ! nat (s_rnd s')) \<and> s_servername s' = usp_server (servers ! nat (s_rnd s'))"
proof (induction k)
  case 0
  with assms show ?case by (simp add: main_round_robin_def Let_def)
next
  case (Suc k)
  let ?n = "int (length servers)"
  from Suc obtain s' where s': "((\<lambda>r. Option.bind r (main_round_robin servers)) ^^ Suc k) (Some s) = Some s'"
    "s_rnd s' = (s_rnd s + 1 + int k) mod ?n" by blast
  have n: "0 < ?n" using assms(1) by simp
  have "s_rnd s' < INT_MAX" using s'(2) pos_mod_bound [OF n, of "s_rnd s + 1 + int k"] assms(4) by linarith
  moreover have "(s_rnd s' + 1) mod ?n = (s_rnd s + 1 + int (Suc k)) mod ?n" unfolding s'(2) by (simp add: mod_simps add_ac)
  moreover have "((\<lambda>r. Option.bind r (main_round_robin servers)) ^^ Suc (Suc k)) (Some s) = main_round_robin servers s'"
    unfolding funpow.simps(2) [of "Suc k"] comp_apply s'(1) by simp
  moreover obtain s2 where "main_round_robin servers s' = Some s2" "s_rnd s2 = (s_rnd s' + 1) mod ?n"
    "s_usp s2 = Some (servers ! nat (s_rnd s2))" "s_servername s2 = usp_server (servers ! nat (s_rnd s2))"
    using calculation(1) assms(1) by (simp add: main_round_robin_def Let_def)
  ultimately show ?case by metis
qed

text \<open>
  C26. Users without a server of their own are spread over the default servers in turn: however the
  counter starts, within as many choices as there are servers each of them is chosen.
\<close>

theorem main_round_robin_fair:
  assumes "0 \<le> s_rnd s" and "s_rnd s < INT_MAX" and "int (length servers) \<le> INT_MAX" and "j < length servers"
  shows "\<exists>k s'. k < length servers \<and>
    ((\<lambda>r. Option.bind r (main_round_robin servers)) ^^ Suc k) (Some s) = Some s' \<and>
    s_usp s' = Some (servers ! j) \<and> s_servername s' = usp_server (servers ! j)"
proof -
  let ?n = "int (length servers)"
  define k where "k = nat ((int j - (s_rnd s + 1)) mod ?n)"
  have n: "0 < ?n" using assms(4) by linarith
  have k: "int k = (int j - (s_rnd s + 1)) mod ?n" using n by (simp add: k_def)
  then have "k < length servers" using pos_mod_bound [OF n, of "int j - (s_rnd s + 1)"] by linarith
  moreover have "(s_rnd s + 1 + int k) mod ?n = int j" unfolding k using assms(4) by (simp add: mod_simps)
  moreover have "servers \<noteq> []" using assms(4) by auto
  ultimately show ?thesis using round_robin_iterate [of servers s k] assms(1-3) by auto
qed

lemma main_getserver_none: "main_getserver E s = Some (Some s1) \<Longrightarrow> s_usp s1 = None \<Longrightarrow> s_port s1 = s_port s"
  by (auto simp: main_getserver_def Let_def bind_eq_Some_conv split: option.splits)

text \<open>
  When a login fails whose server and port came from the lookup, \<open>port\<close> is left pointing into the
  freed result. The next round then has no defined behaviour: neither if its login is refused as
  disabled, where the log entry reads the port, nor if its lookup finds nothing and there is no
  default server, where the port is read to see whether it is set.
\<close>

lemma main_port_dangling:
  assumes "s_port s = Port_usp (Some p)" and "s_usp s \<noteq> None" and "\<not> s_round_robin s"
  shows "log_and_retry ((clean_up s)\<lparr>s_auth := a, s_client_tag := t\<rparr>) w = None \<and>
    (opt_outgoing_server (e_opt E) = None \<and>
     main_getserver E ((clean_up s)\<lparr>s_auth := a, s_client_tag := t\<rparr>) = Some (Some s1) \<and> s_usp s1 = None \<longrightarrow>
       main_lookup E ((clean_up s)\<lparr>s_auth := a, s_client_tag := t\<rparr>) w = None)"
proof -
  have d: "s_port (clean_up s) = Port_dangling" using assms by (simp add: clean_up_def)
  then have "port_deref (s_port s1) = None"
    if "main_getserver E ((clean_up s)\<lparr>s_auth := a, s_client_tag := t\<rparr>) = Some (Some s1)" "s_usp s1 = None"
    using main_getserver_none [OF that] by simp
  with d show ?thesis by (auto simp: log_and_retry_def main_lookup_def main_default_server_def)
qed

subsection \<open>The protocols\<close>

text \<open>The lemmas on the loop hold with each of the five protocols.\<close>

interpretation pop3_main: session_env "E\<lparr>e_proto := pop3_initialise_protocol (e_opt E) e\<rparr>" for E e
  by (simp add: session_env_def pop3_session.session_protocol_axioms)

interpretation pop3s_main: session_env "E\<lparr>e_proto := pop3s_initialise_protocol (e_opt E) e\<rparr>" for E e
  by (simp add: session_env_def pop3s_session.session_protocol_axioms)

interpretation imap4_main: session_env "E\<lparr>e_proto := imap4_initialise_protocol (e_opt E) e\<rparr>" for E e
  by (simp add: session_env_def imap4_session.session_protocol_axioms)

interpretation imap4s_main: session_env "E\<lparr>e_proto := imap4s_initialise_protocol (e_opt E) e\<rparr>" for E e
  by (simp add: session_env_def imap4s_session.session_protocol_axioms)

interpretation managesieve_main: session_env "E\<lparr>e_proto := managesieve_initialise_protocol (e_opt E) e\<rparr>" for E e
  by (simp add: session_env_def managesieve_session.session_protocol_axioms)

subsection \<open>Examples\<close>

definition demo_env :: "int \<Rightarrow> string list \<Rightarrow> string list \<Rightarrow> token list env" where
  "demo_env mode plain secure =
     \<lparr>e_opt = demo_session_opt mode, e_proto = pop3_initialise_protocol (demo_session_opt mode) demo_pe,
      e_key = \<lparr>k_user = [], k_from = [], k_to = [], k_from_port = [], k_to_port = []\<rparr>,
      e_sock = None, e_get = None, e_get2 = None, e_idna = Some, e_setid = True,
      e_peer = (\<lambda>_. demo_peer\<lparr>sp_rd := map Rd_data secure\<rparr>),
      e_dial = (\<lambda>_ _ _ _ _. (7, map Rd_data plain, []))\<rparr>"


lemma demo_session_env: "session_env (demo_env mode plain secure)"
  using pop3_session.session_protocol_axioms [of "demo_session_opt mode" demo_pe]
  by (simp add: session_env_def demo_env_def)

text \<open>A session in which TLS to the server is negotiated, with the options \<open>tls_outgoing_force\<close>.\<close>

lemma demo_secure_login:
  "map_option (\<lambda>(c, s, w). c) (main_until_login
     (demo_env 0x28 [''+OK hi'' @ CRLF, ''+OK'' @ CRLF @ ''STLS'' @ CRLF @ ''.'' @ CRLF, ''+OK'' @ CRLF] [])
     (session_start None 0) (client_sends (''USER bob'' @ CRLF @ ''PASS x'' @ CRLF))) = Some Go"
  by code_simp

theorem main_login_secure_witness:
  "\<exists>s1 w1. main_until_login
     (demo_env 0x28 [''+OK hi'' @ CRLF, ''+OK'' @ CRLF @ ''STLS'' @ CRLF @ ''.'' @ CRLF, ''+OK'' @ CRLF] [])
     (session_start None 0) (client_sends (''USER bob'' @ CRLF @ ''PASS x'' @ CRLF)) = Some (Go, s1, w1) \<and>
   io_type (ios w1 RS) = Io_type_ssl"
proof -
  let ?E = "demo_env 0x28 [''+OK hi'' @ CRLF, ''+OK'' @ CRLF @ ''STLS'' @ CRLF @ ''.'' @ CRLF, ''+OK'' @ CRLF] []"
  let ?w = "client_sends (''USER bob'' @ CRLF @ ''PASS x'' @ CRLF)"
  obtain s1 w1 where m: "main_until_login ?E (session_start None 0) ?w = Some (Go, s1, w1)"
    using demo_secure_login by (auto simp: map_option_case split: option.splits)
  have "opt_ssl_mode (e_opt ?E) = 0x28" by (simp add: demo_env_def demo_session_opt_def)
  with main_login_secure [OF demo_session_env main_reach.start m refl] m show ?thesis
    by (auto simp: ssl_mode_defs)
qed

text \<open>A client on TLS whose login is refused as the flag is not set.\<close>

definition on_tls :: "world \<Rightarrow> world" where
  "on_tls w = upd_io EU ((ios w EU)\<lparr>io_type := Io_type_ssl\<rparr>) w"

lemma demo_refused:
  "map_option (\<lambda>(c, s, w). c) (main_round (demo_env 0x14 [] []) (session_start None 0)
     (on_tls (client_sends (''USER bob'' @ CRLF @ ''PASS x'' @ CRLF)))) = Some Retry"
  by code_simp

theorem main_locked_out_after_failure_witness:
  "\<exists>s1 w1. main_round (demo_env 0x14 [] []) (session_start None 0)
     (on_tls (client_sends (''USER bob'' @ CRLF @ ''PASS x'' @ CRLF))) = Some (Retry, s1, w1) \<and>
   (\<forall>s2 w2. main_auth (demo_env 0x14 [] []) s1 w1 \<noteq> Some (Go, s2, w2))"
proof -
  obtain s1 w1 where m: "main_round (demo_env 0x14 [] []) (session_start None 0)
     (on_tls (client_sends (''USER bob'' @ CRLF @ ''PASS x'' @ CRLF))) = Some (Retry, s1, w1)"
    using demo_refused by (auto simp: map_option_case split: option.splits)
  have o: "opt_ssl_mode (e_opt (demo_env 0x14 [] [])) AND SSL_MODE_TLS_LISTEN \<noteq> 0"
    "opt_ssl_mode (e_opt (demo_env 0x14 [] [])) AND SSL_MODE_TLS_LISTEN_FORCE \<noteq> 0"
    by (simp_all add: demo_env_def demo_session_opt_def ssl_mode_defs)
  have "io_type (ios (on_tls (client_sends (''USER bob'' @ CRLF @ ''PASS x'' @ CRLF))) EU) = Io_type_ssl"
    by (simp add: on_tls_def upd_io_def)
  from main_locked_out_after_failure [OF demo_session_env o this m] m show ?thesis by blast
qed

lemma demo_stls:
  "map_option (\<lambda>(c, s, w). (c, s_tls_state s)) (main_client (demo_env 0x04 [] [''x'']) (session_start None 0)
     (client_sends (''STLS'' @ CRLF @ ''USER eve'' @ CRLF))) = Some (Retry, 4)"
  by code_simp

theorem main_client_flushes_witness:
  "\<exists>s1 w1. main_client (demo_env 0x04 [] [''x'']) (session_start None 0)
     (client_sends (''STLS'' @ CRLF @ ''USER eve'' @ CRLF)) = Some (Retry, s1, w1) \<and> avail EU w1 = ''x''"
proof -
  obtain s1 w1 where m: "main_client (demo_env 0x04 [] [''x'']) (session_start None 0)
     (client_sends (''STLS'' @ CRLF @ ''USER eve'' @ CRLF)) = Some (Retry, s1, w1)" and t: "s_tls_state s1 = 4"
    using demo_stls by (auto simp: map_option_case split: option.splits)
  have "s_tls_state s1 AND SSL_MODE_TLS_LISTEN \<noteq> 0" using t by (simp add: ssl_mode_defs)
  with main_client_flushes [OF demo_session_env m] m show ?thesis
    by (auto simp: demo_env_def io_stream_def)
qed

theorem main_round_robin_fair_witness:
  "\<exists>k s'. k < 2 \<and> ((\<lambda>r. Option.bind r (main_round_robin
       [\<lparr>usp_user = None, usp_server = Some ''a'', usp_port = None\<rparr>, \<lparr>usp_user = None, usp_server = Some ''b'', usp_port = None\<rparr>]))
       ^^ Suc k) (Some (session_start None 7)) = Some s' \<and> s_servername s' = Some ''a''"
  using main_round_robin_fair [of "session_start None 7" "[\<lparr>usp_user = None, usp_server = Some ''a'', usp_port = None\<rparr>,
      \<lparr>usp_user = None, usp_server = Some ''b'', usp_port = None\<rparr>]" 0]
  by (force simp: session_start_def INT_MAX_def)

theorem main_port_dangling_witness:
  "log_and_retry ((clean_up ((session_start None 0)\<lparr>s_usp := Some user_server_port_create, s_port := Port_usp (Some ''143'')\<rparr>))
     \<lparr>s_auth := demo_auth, s_client_tag := None\<rparr>) (client_sends []) = None"
proof -
  let ?s = "(session_start None 0)\<lparr>s_usp := Some user_server_port_create, s_port := Port_usp (Some ''143'')\<rparr>"
  have "s_port ?s = Port_usp (Some ''143'')" "s_usp ?s \<noteq> None" "\<not> s_round_robin ?s" by (simp_all add: session_start_def)
  from main_port_dangling [OF this, where E = "demo_env 0 [] []"] show ?thesis by blast
qed

text \<open>
  What a server sends behind its answer to QUIT stays in the read buffer and is then taken for
  commands of the client: here the client has sent nothing but the login that failed.
\<close>

lemma server_bytes_become_commands:
  "map_option (\<lambda>(c, s, w). (c, s_auth s)) (then_phase
     (\<lambda>s w. map_option (\<lambda>(c, s, w). (if c = Retry then Go else c, s, w))
        (main_login (demo_env 0 [] []) (s\<lparr>s_auth2 := demo_auth\<rparr>) w))
     (main_client (demo_env 0 [] [])) (session_start None 0)
     (upd_io RS (io_create_fd 7 7 None [Rd_data (''-ERR'' @ CRLF @ ''+OK'' @ CRLF @ ''USER eve'' @ CRLF @ ''PASS y'' @ CRLF)] [])
        (client_sends []))) = Some (Go, auth_set_pwd (Some ''eve'') (Some ''y''))"
  by code_simp

end
