(* ===== verification/Packet.thy ===== *)
theory Packet
  imports Options
begin

text \<open>
  The packets of the daemon lookup library (db/daemon/lib/packet.c, packet.h). A packet is the memory of
  a \<open>perdition_packet_t\<close>: a list of its bytes from the first one on, behind which the rest of the object
  is zero. Its header is read and written in network byte order at the offsets of the structure, so that
  a packet is also what travels over the socket. \<open>None\<close> is an access outside the object.
\<close>

subsection \<open>Layout\<close>

type_synonym packet = string

definition PERDITION_PACKET_MAGIC :: "32 word" where "PERDITION_PACKET_MAGIC = 0x07070707"
definition PERDITION_PACKET_VERSION :: "16 word" where "PERDITION_PACKET_VERSION = 1"
definition PERDITION_PACKET_REQ :: "16 word" where "PERDITION_PACKET_REQ = 1"
definition PERDITION_PACKET_RSP :: "16 word" where "PERDITION_PACKET_RSP = 2"
definition PERDITION_PACKET_STR_REQ :: "16 word" where "PERDITION_PACKET_STR_REQ = 3"
definition PERDITION_PACKET_CS_NONE :: "16 word" where "PERDITION_PACKET_CS_NONE = 0"

definition PACKET_HEAD :: nat where "PACKET_HEAD = 24"
definition PACKET_TAIL :: nat where "PACKET_TAIL = 24"
definition PERDITION_PACKET_MAX_PACKET_LEN :: nat where "PERDITION_PACKET_MAX_PACKET_LEN = 65000"

definition PERDITION_PACKET_MAX_BODY_LEN :: nat where
  "PERDITION_PACKET_MAX_BODY_LEN = PERDITION_PACKET_MAX_PACKET_LEN - PACKET_TAIL"

definition PACKET_SIZE :: nat where
  "PACKET_SIZE = PACKET_HEAD + PERDITION_PACKET_MAX_BODY_LEN + PACKET_TAIL"

lemmas packet_sizes = PACKET_HEAD_def PACKET_TAIL_def PERDITION_PACKET_MAX_PACKET_LEN_def
  PERDITION_PACKET_MAX_BODY_LEN_def PACKET_SIZE_def

definition packet_byte :: "packet \<Rightarrow> nat \<Rightarrow> char" where
  "packet_byte p i = (if i < length p then p ! i else NUL)"

definition packet_bytes :: "packet \<Rightarrow> nat \<Rightarrow> nat \<Rightarrow> string" where
  "packet_bytes p i n = map (packet_byte p) [i..<i + n]"

definition be16 :: "16 word \<Rightarrow> string" where
  "be16 x = [char_of (unat x div 256), char_of (unat x mod 256)]"

definition be32 :: "32 word \<Rightarrow> string" where
  "be32 x = [char_of (unat x div 2 ^ 24), char_of (unat x div 2 ^ 16 mod 256),
             char_of (unat x div 256 mod 256), char_of (unat x mod 256)]"

definition rd16 :: "packet \<Rightarrow> nat \<Rightarrow> 16 word" where
  "rd16 p i = of_nat (ascii (packet_byte p i) * 256 + ascii (packet_byte p (i + 1)))"

definition rd32 :: "packet \<Rightarrow> nat \<Rightarrow> 32 word" where
  "rd32 p i = of_nat (((ascii (packet_byte p i) * 256 + ascii (packet_byte p (i + 1))) * 256
                + ascii (packet_byte p (i + 2))) * 256 + ascii (packet_byte p (i + 3)))"

text \<open>The fields of the header that are read.\<close>

definition head_magic :: "packet \<Rightarrow> 32 word" where "head_magic p = rd32 p 0"
definition head_flags :: "packet \<Rightarrow> 16 word" where "head_flags p = rd16 p 6"
definition head_length :: "packet \<Rightarrow> nat" where "head_length p = unat (rd16 p 8)"
definition head_cs_type :: "packet \<Rightarrow> 16 word" where "head_cs_type p = rd16 p 10"

text \<open>
  A string of a packet: its length, and the memory it points at. What a parsed string points at is the
  part of it that is inside the packet.
\<close>

record packet_str =
  ps_length :: "16 word"
  ps_data :: "string option"

definition perdition_packet_str_pack :: "string option \<Rightarrow> packet_str" where
  "perdition_packet_str_pack buf =
     \<lparr>ps_length = (case buf of None \<Rightarrow> 0 | Some s \<Rightarrow> of_nat (length s)), ps_data = buf\<rparr>"

text \<open>The bytes of a string, as \<open>memcpy\<close> reads them.\<close>

definition packet_str_read :: "packet_str \<Rightarrow> string option" where
  "packet_str_read s =
     (if ps_length s = 0 then Some []
      else do { d \<leftarrow> ps_data s;
                if length d < unat (ps_length s) then None else Some (take (unat (ps_length s)) d) })"

definition perdition_packet_create :: packet where
  "perdition_packet_create = []"

subsection \<open>Writing\<close>

definition perdition_packet_init_v1_head ::
    "packet option \<Rightarrow> 16 word \<Rightarrow> 16 word \<Rightarrow> 32 word \<Rightarrow> 16 word \<Rightarrow> 32 word \<Rightarrow> 16 word \<Rightarrow> nat \<Rightarrow> int \<times> packet option" where
  "perdition_packet_init_v1_head packet cs_type flags saddr sport daddr dport body_len =
     (if cs_type \<noteq> PERDITION_PACKET_CS_NONE then (-1, packet)
      else if body_len > PERDITION_PACKET_MAX_BODY_LEN then (-1, packet)
      else (0, Some (be32 PERDITION_PACKET_MAGIC @ be16 PERDITION_PACKET_VERSION @ be16 flags
              @ be16 (of_nat (PACKET_HEAD + body_len)) @ be16 cs_type @ be32 saddr @ be32 daddr
              @ be16 sport @ be16 dport)))"

text \<open>The packet ends where \<open>buf\<close> points: everything behind it is still zero.\<close>

definition PACKET_STR_SET :: "packet_str option \<Rightarrow> packet \<Rightarrow> packet option" where
  "PACKET_STR_SET p_str p =
     (case p_str of
        None \<Rightarrow> Some (p @ be16 0)
      | Some s \<Rightarrow> do { d \<leftarrow> packet_str_read s; Some (p @ be16 (ps_length s) @ d) })"

fun packet_set_all :: "packet_str option list \<Rightarrow> packet \<Rightarrow> packet option" where
  "packet_set_all [] p = Some p"
| "packet_set_all (s # ss) p = do { p1 \<leftarrow> PACKET_STR_SET s p; packet_set_all ss p1 }"

definition str_space :: "packet_str option \<Rightarrow> nat" where
  "str_space s = 2 + (case s of None \<Rightarrow> 0 | Some s \<Rightarrow> unat (ps_length s))"

definition packet_init ::
    "packet option \<Rightarrow> 16 word \<Rightarrow> 16 word \<Rightarrow> 32 word \<Rightarrow> 16 word \<Rightarrow> 32 word \<Rightarrow> 16 word \<Rightarrow> packet_str option list
      \<Rightarrow> (int \<times> packet option) option" where
  "packet_init packet cs_type flags saddr sport daddr dport strs =
     (case perdition_packet_init_v1_head packet cs_type flags saddr sport daddr dport (sum_list (map str_space strs)) of
        (rc, p) \<Rightarrow> if rc < 0 then Some (-1, p)
                  else do { p0 \<leftarrow> p; p1 \<leftarrow> packet_set_all strs p0; Some (0, Some p1) })"

definition perdition_packet_init_v1_req ::
    "packet option \<Rightarrow> 16 word \<Rightarrow> 32 word \<Rightarrow> 16 word \<Rightarrow> 32 word \<Rightarrow> 16 word \<Rightarrow> packet_str option \<Rightarrow> packet_str option
      \<Rightarrow> (int \<times> packet option) option" where
  "perdition_packet_init_v1_req packet cs_type saddr sport daddr dport key domain_delimiter =
     packet_init packet cs_type PERDITION_PACKET_REQ saddr sport daddr dport [key, domain_delimiter]"

definition perdition_packet_init_v1_str_req ::
    "packet option \<Rightarrow> 16 word \<Rightarrow> packet_str option \<Rightarrow> packet_str option \<Rightarrow> packet_str option \<Rightarrow> packet_str option
      \<Rightarrow> packet_str option \<Rightarrow> packet_str option \<Rightarrow> (int \<times> packet option) option" where
  "perdition_packet_init_v1_str_req packet cs_type saddr sport daddr dport key domain_delimiter =
     packet_init packet cs_type PERDITION_PACKET_STR_REQ 0 0 0 0 [key, domain_delimiter, saddr, sport, daddr, dport]"

definition perdition_packet_init_v1_rsp ::
    "packet option \<Rightarrow> 16 word \<Rightarrow> packet_str option \<Rightarrow> packet_str option \<Rightarrow> packet_str option
      \<Rightarrow> (int \<times> packet option) option" where
  "perdition_packet_init_v1_rsp packet cs_type user server port =
     packet_init packet cs_type PERDITION_PACKET_RSP 0 0 0 0 [user, server, port]"

subsection \<open>Reading\<close>

definition packet_str_get :: "packet \<Rightarrow> nat \<Rightarrow> (nat \<times> packet_str) option" where
  "packet_str_get p buf =
     (if buf + 2 > PACKET_SIZE then None
      else
        let len = rd16 p buf; inside = min (unat len) (PACKET_SIZE - (buf + 2))
        in Some (unat len + 2,
             \<lparr>ps_length = len, ps_data = (if len = 0 then None else Some (packet_bytes p (buf + 2) inside))\<rparr>))"

text \<open>\<open>n\<close> strings from offset \<open>buf\<close> on, and the offset behind them.\<close>

fun packet_get_all :: "packet \<Rightarrow> nat \<Rightarrow> nat \<Rightarrow> (nat \<times> packet_str list) option" where
  "packet_get_all p buf 0 = Some (buf, [])"
| "packet_get_all p buf (Suc n) =
     do { (k, s) \<leftarrow> packet_str_get p buf;
          (e, ss) \<leftarrow> packet_get_all p (buf + k) n;
          Some (e, s # ss) }"

definition perdition_packet_verify_v1_head :: "packet \<Rightarrow> nat \<Rightarrow> int" where
  "perdition_packet_verify_v1_head p len =
     (if len < PACKET_HEAD then -1
      else if head_magic p \<noteq> PERDITION_PACKET_MAGIC then -1
      else if len > PERDITION_PACKET_MAX_PACKET_LEN then -1
      else if head_cs_type p \<noteq> PERDITION_PACKET_CS_NONE then -1
      else 0)"

definition perdition_packet_verify_v1_tail :: "packet \<Rightarrow> nat \<Rightarrow> int" where
  "perdition_packet_verify_v1_tail p body_len =
     (if body_len > PERDITION_PACKET_MAX_BODY_LEN then -1
      else if body_len + PACKET_HEAD \<noteq> head_length p then -1
      else 0)"

text \<open>The result comes with the strings that have been assigned.\<close>

definition packet_verify :: "16 word \<Rightarrow> nat \<Rightarrow> packet \<Rightarrow> nat \<Rightarrow> (int \<times> packet_str list) option" where
  "packet_verify flags n p len =
     (if perdition_packet_verify_v1_head p len < 0 then Some (-1, [])
      else if head_flags p \<noteq> flags then Some (-1, [])
      else do { (e, ss) \<leftarrow> packet_get_all p PACKET_HEAD n;
                Some (if perdition_packet_verify_v1_tail p (e - PACKET_HEAD) < 0 then -1 else 0, ss) })"

definition perdition_packet_verify_v1_req :: "packet \<Rightarrow> nat \<Rightarrow> (int \<times> packet_str list) option" where
  "perdition_packet_verify_v1_req p len = packet_verify PERDITION_PACKET_REQ 2 p len"

definition perdition_packet_verify_v1_str_req :: "packet \<Rightarrow> nat \<Rightarrow> (int \<times> packet_str list) option" where
  "perdition_packet_verify_v1_str_req p len = packet_verify PERDITION_PACKET_STR_REQ 6 p len"

definition perdition_packet_verify_v1_rsp :: "packet \<Rightarrow> nat \<Rightarrow> (int \<times> packet_str list) option" where
  "perdition_packet_verify_v1_rsp p len = packet_verify PERDITION_PACKET_RSP 3 p len"

text \<open>A datagram overwrites the front of the packet it is received into.\<close>

definition packet_receive :: "packet \<Rightarrow> string \<Rightarrow> packet" where
  "packet_receive p msg = msg @ drop (length msg) p"

subsection \<open>Fields and strings in memory\<close>

lemma length_be [simp]: "length (be16 x) = 2" "length (be32 y) = 4"
  by (simp_all add: be16_def be32_def)

lemma packet_byte_nth [simp]: "i < length p \<Longrightarrow> packet_byte (p @ q) i = packet_byte p i"
  "\<not> i < length p \<Longrightarrow> packet_byte (p @ q) i = packet_byte q (i - length p)"
  by (auto simp: packet_byte_def nth_append)

lemma rd16_be16: "rd16 (be16 x @ q) 0 = x"
proof -
  have "unat x < 2 ^ 16" using unsigned_less [of x, where ?'a = nat] by simp
  then have "unat x div 256 < 256" by simp
  then have "ascii (char_of (unat x div 256)) = unat x div 256" by (simp add: ascii_def)
  moreover have "ascii (char_of (unat x mod 256)) = unat x mod 256" by (simp add: ascii_def)
  ultimately show ?thesis
    by (simp add: rd16_def be16_def packet_byte_def)
qed

lemma rd16_append: "n = length p \<Longrightarrow> rd16 (p @ be16 x @ q) n = x"
  using rd16_be16 [of x q] unfolding rd16_def by (simp add: packet_byte_def nth_append)

lemma rd32_be32: "rd32 (be32 x @ q) 0 = x"
proof -
  have "unat x < 2 ^ 32" using unsigned_less [of x, where ?'a = nat] by simp
  then have a: "unat x div 16777216 < 256" by simp
  have b: "ascii (char_of (unat x div 16777216)) = unat x div 16777216" using a by (simp add: ascii_def)
  have c: "ascii (char_of (unat x div 65536 mod 256)) = unat x div 65536 mod 256"
    "ascii (char_of (unat x div 256 mod 256)) = unat x div 256 mod 256"
    "ascii (char_of (unat x mod 256)) = unat x mod 256" by (simp_all add: ascii_def)
  have d: "n div 16777216 = n div 65536 div 256" "n div 65536 = n div 256 div 256" for n :: nat
    by (simp_all add: div_mult2_eq [symmetric])
  have "((unat x div 16777216 * 256 + unat x div 65536 mod 256) * 256 + unat x div 256 mod 256) * 256 + unat x mod 256 = unat x"
    unfolding d by (simp only: div_mult_mod_eq)
  then show ?thesis using b c
    by (simp add: rd32_def be32_def packet_byte_def)
qed

lemma packet_bytes_append: "n = length p \<Longrightarrow> k = length d \<Longrightarrow> packet_bytes (p @ d @ q) n k = d"
  by (rule nth_equalityI) (auto simp: packet_bytes_def packet_byte_def nth_append)
definition field :: "string \<Rightarrow> string" where
  "field d = be16 (of_nat (length d)) @ d"

definition str_text :: "packet_str option \<Rightarrow> string option" where
  "str_text s = (case s of None \<Rightarrow> Some [] | Some s \<Rightarrow> packet_str_read s)"

definition fields_size :: "string list \<Rightarrow> nat" where
  "fields_size ds = (\<Sum>d \<leftarrow> ds. 2 + length d)"

lemma fields_size_simps [simp]: "fields_size [] = 0" "fields_size (d # ds) = 2 + length d + fields_size ds"
  by (simp_all add: fields_size_def)

lemma length_field [simp]: "length (field d) = 2 + length d"
  by (simp add: field_def)

lemma str_read_length: "packet_str_read s = Some d \<Longrightarrow> ps_length s = of_nat (length d)"
  by (auto simp: packet_str_read_def bind_eq_Some_conv split: if_splits)

lemma str_read_unat: "packet_str_read s = Some d \<Longrightarrow> unat (ps_length s) = length d"
  by (auto simp: packet_str_read_def bind_eq_Some_conv split: if_splits)

lemma PACKET_STR_SET_text: "str_text s = Some d \<Longrightarrow> PACKET_STR_SET s p = Some (p @ field d)"
  by (auto simp: PACKET_STR_SET_def str_text_def field_def dest: str_read_length split: option.splits)

lemma str_space_text: "str_text s = Some d \<Longrightarrow> str_space s = 2 + length d"
  by (auto simp: str_space_def str_text_def dest: str_read_unat split: option.splits)

lemma packet_set_all_text:
  "map str_text strs = map Some ds \<Longrightarrow>
     packet_set_all strs p = Some (p @ concat (map field ds)) \<and> sum_list (map str_space strs) = fields_size ds"
proof (induction strs arbitrary: ds p)
  case (Cons s strs)
  then obtain d ds' where "ds = d # ds'" "str_text s = Some d" "map str_text strs = map Some ds'" by (cases ds) auto
  with Cons.IH [of ds'] show ?case by (simp add: PACKET_STR_SET_text str_space_text)
qed simp

text \<open>A field is read back where it stands; behind the end of the list of bytes there are empty fields.\<close>

lemma packet_str_get_field:
  assumes "length p + 2 + length d \<le> PACKET_SIZE"
  shows "\<exists>s. packet_str_get (p @ field d @ q) (length p) = Some (2 + length d, s) \<and> packet_str_read s = Some d"
proof -
  have l: "unat (of_nat (length d) :: 16 word) = length d"
    using assms by (simp add: unat_of_nat packet_sizes)
  have r: "rd16 (p @ field d @ q) (length p) = of_nat (length d)"
    using rd16_append [of "length p" p _ "d @ q"] by (simp add: field_def)
  have b: "packet_bytes (p @ field d @ q) (length p + 2) (length d) = d"
    using packet_bytes_append [of "length p + 2" "p @ be16 (of_nat (length d))" "length d" d q] by (simp add: field_def)
  have z: "(of_nat (length d) :: 16 word) = 0 \<longleftrightarrow> d = []"
    using l unsigned_eq_0_iff [where ?'a = nat and w = "of_nat (length d) :: 16 word"] by simp
  have m: "min (length d) (PACKET_SIZE - (length p + 2)) = length d" using assms by simp
  have g: "packet_str_get (p @ field d @ q) (length p) =
      Some (length d + 2, \<lparr>ps_length = of_nat (length d), ps_data = (if d = [] then None else Some d)\<rparr>)"
    using assms unfolding packet_str_get_def Let_def r l m b z by (auto simp: packet_str_get_def)
  then show ?thesis using z l by (cases "d = []") (simp_all add: packet_str_read_def)
qed

lemma packet_get_all_fields:
  "length p + fields_size ds \<le> PACKET_SIZE \<Longrightarrow>
     \<exists>ss. packet_get_all (p @ concat (map field ds) @ q) (length p) (length ds) = Some (length p + fields_size ds, ss) \<and>
       map packet_str_read ss = map Some ds"
proof (induction ds arbitrary: p)
  case (Cons d ds)
  obtain s where s: "packet_str_get (p @ field d @ concat (map field ds) @ q) (length p) = Some (2 + length d, s)"
    "packet_str_read s = Some d"
    using packet_str_get_field [of p d "concat (map field ds) @ q"] Cons.prems by auto
  obtain ss where "packet_get_all ((p @ field d) @ concat (map field ds) @ q) (length (p @ field d)) (length ds) =
      Some (length (p @ field d) + fields_size ds, ss)" "map packet_str_read ss = map Some ds"
    using Cons.IH [of "p @ field d"] Cons.prems by (auto simp: add.assoc)
  with s show ?case by (auto simp: add.assoc)
qed simp

text \<open>The header.\<close>

definition packet_head :: "16 word \<Rightarrow> nat \<Rightarrow> 32 word \<Rightarrow> 16 word \<Rightarrow> 32 word \<Rightarrow> 16 word \<Rightarrow> string" where
  "packet_head flags body_len saddr sport daddr dport =
     be32 PERDITION_PACKET_MAGIC @ be16 PERDITION_PACKET_VERSION @ be16 flags @ be16 (of_nat (PACKET_HEAD + body_len)) @
     be16 PERDITION_PACKET_CS_NONE @ be32 saddr @ be32 daddr @ be16 sport @ be16 dport"

lemma length_packet_head [simp]: "length (packet_head flags n sa sp da dp) = PACKET_HEAD"
  by (simp add: packet_head_def packet_sizes)

lemma packet_head_fields:
  "head_magic (packet_head flags n sa sp da dp @ q) = PERDITION_PACKET_MAGIC"
  "head_flags (packet_head flags n sa sp da dp @ q) = flags"
  "head_cs_type (packet_head flags n sa sp da dp @ q) = PERDITION_PACKET_CS_NONE"
  "n \<le> PERDITION_PACKET_MAX_BODY_LEN \<Longrightarrow> head_length (packet_head flags n sa sp da dp @ q) = PACKET_HEAD + n"
proof -
  let ?m = "be32 PERDITION_PACKET_MAGIC" and ?v = "be16 PERDITION_PACKET_VERSION" and ?l = "be16 (of_nat (PACKET_HEAD + n))"
  let ?t = "be32 sa @ be32 da @ be16 sp @ be16 dp @ q"
  let ?c = "be16 PERDITION_PACKET_CS_NONE"
  show "head_magic (packet_head flags n sa sp da dp @ q) = PERDITION_PACKET_MAGIC"
    by (simp add: head_magic_def packet_head_def rd32_be32)
  show "head_flags (packet_head flags n sa sp da dp @ q) = flags"
    using rd16_append [of 6 "?m @ ?v" flags "?l @ ?c @ ?t"] by (simp add: head_flags_def packet_head_def)
  show "head_cs_type (packet_head flags n sa sp da dp @ q) = PERDITION_PACKET_CS_NONE"
    using rd16_append [of 10 "?m @ ?v @ be16 flags @ ?l" PERDITION_PACKET_CS_NONE ?t] by (simp add: head_cs_type_def packet_head_def)
  have "rd16 (packet_head flags n sa sp da dp @ q) 8 = of_nat (PACKET_HEAD + n)"
    using rd16_append [of 8 "?m @ ?v @ be16 flags" "of_nat (PACKET_HEAD + n)" "?c @ ?t"] by (simp add: packet_head_def)
  then show "head_length (packet_head flags n sa sp da dp @ q) = PACKET_HEAD + n" if "n \<le> PERDITION_PACKET_MAX_BODY_LEN"
  proof -
    have "unat (of_nat (PACKET_HEAD + n) :: 16 word) = PACKET_HEAD + n"
      unfolding unat_of_nat using that by (simp add: packet_sizes)
    then show ?thesis using \<open>rd16 _ 8 = _\<close> by (simp only: head_length_def)
  qed
qed

lemma packet_init_text:
  assumes "map str_text strs = map Some ds" and "fields_size ds \<le> PERDITION_PACKET_MAX_BODY_LEN"
  shows "packet_init packet PERDITION_PACKET_CS_NONE flags sa sp da dp strs =
    Some (0, Some (packet_head flags (fields_size ds) sa sp da dp @ concat (map field ds)))"
  using assms(2) packet_set_all_text [OF assms(1)]
  by (simp add: packet_init_def perdition_packet_init_v1_head_def packet_head_def)

lemma packet_verify_text:
  assumes "fields_size ds \<le> PERDITION_PACKET_MAX_BODY_LEN" and "PACKET_HEAD \<le> len" and "len \<le> PERDITION_PACKET_MAX_PACKET_LEN"
  shows "\<exists>ss. packet_verify flags (length ds) (packet_head flags (fields_size ds) sa sp da dp @ concat (map field ds) @ q) len =
    Some (0, ss) \<and> map packet_str_read ss = map Some ds"
  using packet_get_all_fields [of "packet_head flags (fields_size ds) sa sp da dp" ds q] assms
  by (auto simp: packet_verify_def perdition_packet_verify_v1_head_def perdition_packet_verify_v1_tail_def
      packet_head_fields packet_sizes)

lemma length_fields [simp]: "length (concat (map field ds)) = fields_size ds"
  by (induction ds) simp_all

text \<open>What is read depends on the bytes in memory only, and is inside the packet where it ends inside.\<close>

lemma packet_verify_cong:
  assumes "\<And>i. packet_byte p i = packet_byte q i"
  shows "packet_verify f n p len = packet_verify f n q len"
proof -
  have "packet_byte p = packet_byte q" using assms by blast
  then have r: "rd16 p = rd16 q" "rd32 p = rd32 q" "packet_bytes p = packet_bytes q"
    by (auto simp: rd16_def rd32_def packet_bytes_def fun_eq_iff)
  then have "packet_str_get p b = packet_str_get q b" for b by (simp only: packet_str_get_def)
  then have "packet_get_all p b n = packet_get_all q b n" for b by (induction n arbitrary: b) simp_all
  moreover have "perdition_packet_verify_v1_head p len = perdition_packet_verify_v1_head q len" "head_flags p = head_flags q"
    "perdition_packet_verify_v1_tail p k = perdition_packet_verify_v1_tail q k" for k
    using r by (simp_all only: perdition_packet_verify_v1_head_def perdition_packet_verify_v1_tail_def
        head_magic_def head_flags_def head_cs_type_def head_length_def)
  ultimately show ?thesis by (simp only: packet_verify_def)
qed

lemma packet_get_all_inside:
  "packet_get_all p b n = Some (e, ss) \<Longrightarrow> length ss = n \<and> b \<le> e \<and>
     (e \<le> PACKET_SIZE \<longrightarrow> (\<exists>ds. map packet_str_read ss = map Some ds \<and> b + fields_size ds = e))"
proof (induction n arbitrary: b ss)
  case (Suc n)
  obtain k s ss' where s: "packet_str_get p b = Some (k, s)" "packet_get_all p (b + k) n = Some (e, ss')" "ss = s # ss'"
    using Suc.prems by (auto simp: bind_eq_Some_conv)
  have k: "k = unat (ps_length s) + 2" using s(1) by (auto simp: packet_str_get_def Let_def split: if_splits)
  have d: "\<exists>d. packet_str_read s = Some d \<and> length d = unat (ps_length s)" if "b + k \<le> PACKET_SIZE"
    using that s(1) by (auto simp: packet_str_get_def Let_def packet_str_read_def packet_bytes_def split: if_splits)
  from Suc.IH [OF s(2)] have i: "length ss' = n" "b + k \<le> e"
    "e \<le> PACKET_SIZE \<Longrightarrow> \<exists>ds. map packet_str_read ss' = map Some ds \<and> b + k + fields_size ds = e" by auto
  have "\<exists>ds. map packet_str_read ss = map Some ds \<and> b + fields_size ds = e" if e: "e \<le> PACKET_SIZE"
  proof -
    obtain ds where "map packet_str_read ss' = map Some ds" "b + k + fields_size ds = e" using i(3) [OF e] by blast
    moreover obtain d0 where "packet_str_read s = Some d0" "length d0 = unat (ps_length s)" using d i(2) e by auto
    ultimately have "map packet_str_read ss = map Some (d0 # ds) \<and> b + fields_size (d0 # ds) = e" using s(3) k by simp
    then show ?thesis by blast
  qed
  with i s(3) show ?case by simp
qed simp

text \<open>What is written is what the receiver reads.\<close>

lemma packet_exchange:
  assumes "map str_text strs = map Some ds" and "fields_size ds \<le> PERDITION_PACKET_MAX_BODY_LEN"
  shows "\<exists>pk. packet_init packet PERDITION_PACKET_CS_NONE flags sa sp da dp strs = Some (0, Some pk) \<and>
    head_length pk = length pk \<and> length pk \<le> PERDITION_PACKET_MAX_PACKET_LEN \<and>
    (\<forall>old. \<exists>ss. packet_verify flags (length ds) (packet_receive old pk) (length pk) = Some (0, ss) \<and>
       map packet_str_read ss = map Some ds)"
proof -
  define n where "n = fields_size ds"
  define pk where "pk = packet_head flags n sa sp da dp @ concat (map field ds)"
  have l: "length pk = PACKET_HEAD + n" by (simp add: pk_def n_def)
  have i: "packet_init packet PERDITION_PACKET_CS_NONE flags sa sp da dp strs = Some (0, Some pk)"
    using packet_init_text [OF assms] by (simp add: pk_def n_def)
  have h: "head_length pk = length pk" using packet_head_fields(4) [of n] assms(2) l by (simp add: pk_def n_def)
  have m: "PACKET_HEAD \<le> length pk" "length pk \<le> PERDITION_PACKET_MAX_PACKET_LEN"
    using l assms(2) by (simp_all add: n_def packet_sizes)
  have "\<exists>ss. packet_verify flags (length ds) (packet_receive old pk) (length pk) = Some (0, ss) \<and>
      map packet_str_read ss = map Some ds" for old
    using packet_verify_text [OF assms(2) m, of flags sa sp da dp "drop (length pk) old"]
    by (simp add: packet_receive_def pk_def n_def)
  with i h m show ?thesis by blast
qed

subsection \<open>Properties\<close>

text \<open>
  C35. Strings put into a response are read back by the receiver of exactly the bytes of the packet,
  whatever was in its memory before; the packet is as long as its header says and fits the limit.
\<close>

theorem packet_rsp_roundtrip:
  assumes "map str_text [user, server, port] = map Some [u, s, p]"
    and "fields_size [u, s, p] \<le> PERDITION_PACKET_MAX_BODY_LEN"
  shows "\<exists>pk. perdition_packet_init_v1_rsp packet PERDITION_PACKET_CS_NONE user server port = Some (0, Some pk) \<and>
    head_length pk = length pk \<and> length pk \<le> PERDITION_PACKET_MAX_PACKET_LEN \<and>
    (\<forall>old. \<exists>ss. perdition_packet_verify_v1_rsp (packet_receive old pk) (length pk) = Some (0, ss) \<and>
       map packet_str_read ss = [Some u, Some s, Some p])"
  using packet_exchange [OF assms, of packet]
  by (simp add: perdition_packet_init_v1_rsp_def perdition_packet_verify_v1_rsp_def numeral_3_eq_3)

lemma packet_rsp_roundtrip_witness:
  "\<exists>pk. perdition_packet_init_v1_rsp None PERDITION_PACKET_CS_NONE (Some (perdition_packet_str_pack (Some ''joe'')))
      (Some (perdition_packet_str_pack (Some ''mail''))) None = Some (0, Some pk) \<and> length pk = 37 \<and>
    (\<forall>old. \<exists>ss. perdition_packet_verify_v1_rsp (packet_receive old pk) (length pk) = Some (0, ss) \<and>
       map packet_str_read ss = [Some ''joe'', Some ''mail'', Some ''''])"
proof -
  have t: "map str_text [Some (perdition_packet_str_pack (Some ''joe'')), Some (perdition_packet_str_pack (Some ''mail'')), None] =
      map Some [''joe'', ''mail'', '''']" by code_simp
  have n: "fields_size [''joe'', ''mail'', ''''] \<le> PERDITION_PACKET_MAX_BODY_LEN" by (simp add: packet_sizes)
  have l: "perdition_packet_init_v1_rsp None PERDITION_PACKET_CS_NONE (Some (perdition_packet_str_pack (Some ''joe'')))
      (Some (perdition_packet_str_pack (Some ''mail''))) None = Some (0, Some pk) \<Longrightarrow> length pk = 37" for pk
    using packet_init_text [OF t n] by (auto simp: perdition_packet_init_v1_rsp_def packet_sizes)
  show ?thesis using packet_rsp_roundtrip [OF t n, of None] l by blast
qed

text \<open>The same for requests with binary addresses.\<close>

lemma packet_req_roundtrip:
  assumes "map str_text [key, delim] = map Some [k, d]" and "fields_size [k, d] \<le> PERDITION_PACKET_MAX_BODY_LEN"
  shows "\<exists>pk. perdition_packet_init_v1_req packet PERDITION_PACKET_CS_NONE sa sp da dp key delim = Some (0, Some pk) \<and>
    head_length pk = length pk \<and> length pk \<le> PERDITION_PACKET_MAX_PACKET_LEN \<and>
    (\<forall>old. \<exists>ss. perdition_packet_verify_v1_req (packet_receive old pk) (length pk) = Some (0, ss) \<and>
       map packet_str_read ss = [Some k, Some d])"
  using packet_exchange [OF assms, of packet]
  by (simp add: perdition_packet_init_v1_req_def perdition_packet_verify_v1_req_def numeral_2_eq_2)

text \<open>
  C15. A packet that is accepted holds all its strings inside its body, and the length in its header is
  the sum of their sizes.
\<close>

theorem packet_verify_bounds:
  assumes "packet_verify flags n p len = Some (0, ss)"
  shows "length ss = n \<and> (\<exists>ds. map packet_str_read ss = map Some ds \<and>
    PACKET_HEAD + fields_size ds = head_length p \<and> head_length p \<le> PERDITION_PACKET_MAX_PACKET_LEN)"
proof -
  obtain e where e: "packet_get_all p PACKET_HEAD n = Some (e, ss)"
    and t: "e - PACKET_HEAD \<le> PERDITION_PACKET_MAX_BODY_LEN" "e - PACKET_HEAD + PACKET_HEAD = head_length p"
    using assms by (auto simp: packet_verify_def perdition_packet_verify_v1_tail_def bind_eq_Some_conv split: if_splits)
  from packet_get_all_inside [OF e] t show ?thesis by (auto simp: packet_sizes)
qed

text \<open>
  The number of bytes received does not decide what is read: a reply that is a header only is
  completed from what the receiver's memory holds. Received over the request it answers, it makes the
  key of the request the user and the delimiter the server.
\<close>

lemma packet_rsp_header_only:
  assumes "map str_text [key, delim] = map Some [k, d]" and "fields_size [k, d, []] \<le> PERDITION_PACKET_MAX_BODY_LEN"
  shows "\<exists>req hd. perdition_packet_init_v1_req packet PERDITION_PACKET_CS_NONE sa sp da dp key delim = Some (0, Some req) \<and>
    length hd = PACKET_HEAD \<and>
    (\<exists>ss. perdition_packet_verify_v1_rsp (packet_receive req hd) (length hd) = Some (0, ss) \<and>
       map packet_str_read ss = [Some k, Some d, Some []])"
proof -
  let ?h = "packet_head PERDITION_PACKET_RSP (fields_size [k, d, []]) 0 0 0 0"
  let ?req = "packet_head PERDITION_PACKET_REQ (fields_size [k, d]) sa sp da dp @ concat (map field [k, d])"
  have r: "packet_receive ?req ?h = ?h @ concat (map field [k, d])" by (simp add: packet_receive_def)
  have v: "\<exists>ss. packet_verify PERDITION_PACKET_RSP 3 (?h @ concat (map field [k, d, []])) (length ?h) = Some (0, ss) \<and>
      map packet_str_read ss = [Some k, Some d, Some []]"
    using packet_verify_text [OF assms(2), of "length ?h" PERDITION_PACKET_RSP 0 0 0 0 "[]"] assms(2)
    by (simp add: packet_sizes numeral_3_eq_3)
  have z: "packet_verify f n (p @ field []) m = packet_verify f n p m" for f n p m
  proof (rule packet_verify_cong)
    have "field [] = [NUL, NUL]" by code_simp
    then show "packet_byte (p @ field []) i = packet_byte p i" for i
      by (auto simp: packet_byte_def nth_append nth_Cons split: nat.split)
  qed
  have "packet_init packet PERDITION_PACKET_CS_NONE PERDITION_PACKET_REQ sa sp da dp [key, delim] = Some (0, Some ?req)"
    using packet_init_text [OF assms(1)] assms(2) by simp
  moreover have "\<exists>ss. packet_verify PERDITION_PACKET_RSP 3 (packet_receive ?req ?h) (length ?h) = Some (0, ss) \<and>
      map packet_str_read ss = [Some k, Some d, Some []]"
    using v z [of PERDITION_PACKET_RSP 3 "?h @ concat (map field [k, d])" "length ?h"] unfolding r by simp
  ultimately show ?thesis
    unfolding perdition_packet_init_v1_req_def perdition_packet_verify_v1_rsp_def
    by (intro exI [of _ ?req] exI [of _ ?h] conjI) auto
qed

lemma packet_rsp_header_only_witness:
  "\<exists>req hd. perdition_packet_init_v1_req None PERDITION_PACKET_CS_NONE 0 0 0 0 (Some (perdition_packet_str_pack (Some ''joe'')))
      (Some (perdition_packet_str_pack (Some ''@''))) = Some (0, Some req) \<and> length hd = 24 \<and>
    (\<exists>ss. perdition_packet_verify_v1_rsp (packet_receive req hd) (length hd) = Some (0, ss) \<and>
      map packet_str_read ss = [Some ''joe'', Some ''@'', Some []])"
proof -
  have t: "map str_text [Some (perdition_packet_str_pack (Some ''joe'')), Some (perdition_packet_str_pack (Some ''@''))] =
      map Some [''joe'', ''@'']" by code_simp
  have n: "fields_size [''joe'', ''@'', []] \<le> PERDITION_PACKET_MAX_BODY_LEN" by (simp add: packet_sizes)
  show ?thesis using packet_rsp_header_only [OF t n, of None 0 0 0 0] unfolding PACKET_HEAD_def by blast
qed

text \<open>
  The lengths of the strings are followed before they are checked: a response whose first string
  claims to reach the end of the packet makes the receiver read behind it.
\<close>

lemma packet_rsp_overrun:
  assumes "perdition_packet_verify_v1_head p len = 0" and "head_flags p = PERDITION_PACKET_RSP"
    and "PACKET_SIZE < PACKET_HEAD + 4 + unat (rd16 p PACKET_HEAD)"
  shows "perdition_packet_verify_v1_rsp p len = None"
  using assms
  by (simp add: perdition_packet_verify_v1_rsp_def packet_verify_def packet_str_get_def Let_def numeral_3_eq_3 packet_sizes)

lemma packet_rsp_overrun_witness:
  "perdition_packet_verify_v1_rsp (packet_head PERDITION_PACKET_RSP 6 0 0 0 0 @ be16 0xFFFF @ be16 0 @ be16 0) 30 = None"
proof -
  let ?p = "packet_head PERDITION_PACKET_RSP 6 0 0 0 0 @ be16 0xFFFF @ be16 0 @ be16 0"
  have r: "rd16 ?p PACKET_HEAD = 0xFFFF" by (rule rd16_append) simp
  have h: "perdition_packet_verify_v1_head ?p 30 = 0" "head_flags ?p = PERDITION_PACKET_RSP"
    by (simp_all add: perdition_packet_verify_v1_head_def packet_head_fields packet_sizes)
  show ?thesis by (rule packet_rsp_overrun [OF h]) (simp only: r, simp add: packet_sizes)
qed

text \<open>Requests that do not fit are refused before anything is written.\<close>

lemma packet_init_too_long:
  "PERDITION_PACKET_MAX_BODY_LEN < sum_list (map str_space strs) \<Longrightarrow>
     packet_init packet cs flags sa sp da dp strs = Some (-1, packet)"
  by (simp add: packet_init_def perdition_packet_init_v1_head_def)

lemma packet_verify_bounds_witness:
  "\<exists>ss. perdition_packet_verify_v1_rsp (packet_head PERDITION_PACKET_RSP 10 0 0 0 0 @ concat (map field [''joe'', ''x'', []])) 24 = Some (0, ss) \<and>
     length ss = 3 \<and> (\<exists>ds. map packet_str_read ss = map Some ds \<and> fields_size ds = 10)"
proof -
  let ?p = "packet_head PERDITION_PACKET_RSP 10 0 0 0 0 @ concat (map field [''joe'', ''x'', []])"
  have n: "fields_size [''joe'', ''x'', []] = 10" by simp
  obtain ss where ss: "packet_verify PERDITION_PACKET_RSP 3 ?p 24 = Some (0, ss)"
    using packet_verify_text [of "[''joe'', ''x'', []]" 24 PERDITION_PACKET_RSP 0 0 0 0 "[]"] unfolding n
    by (auto simp: packet_sizes numeral_3_eq_3)
  have "head_length ?p = 34" using packet_head_fields(4) [of 10] by (simp add: packet_sizes)
  with packet_verify_bounds [OF ss] show ?thesis
    using ss by (auto simp: perdition_packet_verify_v1_rsp_def packet_sizes)
qed

end
