(* ===== verification/Unix_Socket.thy ===== *)
theory Unix_Socket
  imports Packet
begin

text \<open>
  The exchange of a request and a reply over datagram sockets (db/daemon/lib/unix_socket.c). What the
  kernel answers to the calls of \<open>sendto\<close>, and of \<open>select\<close> and \<open>recvfrom\<close>, are two scripts, consumed in
  order; a call for which nothing is left does not return (\<open>None\<close>). The pauses between attempts are
  left out.
\<close>

definition PERDITION_UN_STR_LEN :: nat where "PERDITION_UN_STR_LEN = 108"

record perdition_un =
  un_dir :: string
  un_name :: string
  un_fd :: int

definition perdition_un_init :: perdition_un where
  "perdition_un_init = \<lparr>un_dir = [], un_name = [], un_fd = -1\<rparr>"

text \<open>The calls that take a socket down.\<close>

datatype un_call = Un_close int | Un_unlink string | Un_rmdir string

definition perdition_un_close :: "perdition_un \<Rightarrow> un_call list" where
  "perdition_un_close un =
     (if un_fd un \<ge> 0 then [Un_close (un_fd un)] else [])
     @ (if un_name un \<noteq> [] then [Un_unlink (un_name un)] else [])
     @ (if un_dir un \<noteq> [] then [Un_rmdir (un_dir un)] else [])"

text \<open>
  Outcomes of \<open>sendto\<close>: all bytes are sent, \<open>EINTR\<close>, \<open>ENOENT\<close> or \<open>ECONNREFUSED\<close>, anything else.
  Outcomes of \<open>select\<close>, and of \<open>recvfrom\<close> after a \<open>select\<close> that found the socket readable; a datagram
  comes with the name of its sender.
\<close>

datatype un_send = Un_sent | Un_send_intr | Un_no_peer | Un_send_err

datatype un_recv =
  Un_select_intr | Un_select_err | Un_timeout | Un_recv_intr | Un_recv_err | Un_datagram string string

text \<open>The scripts, and the datagrams that have been sent so far with the name they went to.\<close>

record un_net =
  un_sends :: "un_send list"
  un_recvs :: "un_recv list"
  un_sent :: "(string \<times> string) list"

text \<open>
  The loop around \<open>sendto\<close>: the number of attempts at its end, \<open>None\<close> when the function returns from
  inside it, with the rest of the script.
\<close>

fun un_send_loop :: "int \<Rightarrow> int \<Rightarrow> un_send list \<Rightarrow> (int option \<times> un_send list) option" where
  "un_send_loop retry attempt sends =
     (if attempt \<ge> retry then Some (Some attempt, sends)
      else case sends of
             [] \<Rightarrow> None
           | Un_sent # r \<Rightarrow> Some (Some attempt, r)
           | Un_send_intr # r \<Rightarrow> un_send_loop retry (attempt - 1 + 1) r
           | Un_no_peer # r \<Rightarrow> un_send_loop retry (attempt + 1) r
           | Un_send_err # r \<Rightarrow> Some (None, r))"

declare un_send_loop.simps [simp del]

text \<open>From the label \<open>resend\<close> up to the second loop: the number of attempts, \<open>None\<close> for a return of -1.\<close>

definition un_send_msg :: "perdition_un \<Rightarrow> packet \<Rightarrow> nat \<Rightarrow> int \<Rightarrow> int \<Rightarrow> un_net \<Rightarrow> (int option \<times> un_net) option" where
  "un_send_msg peer msg send_len retry attempt net =
     do { (r, rest) \<leftarrow> un_send_loop retry attempt (un_sends net);
          Some (case r of
             None \<Rightarrow> (None, net\<lparr>un_sends := rest\<rparr>)
           | Some a \<Rightarrow>
               if a \<ge> retry then (None, net\<lparr>un_sends := rest\<rparr>)
               else (Some a, net\<lparr>un_sends := rest,
                       un_sent := un_sent net @ [(take (PERDITION_UN_STR_LEN - 1) (un_name peer), packet_bytes msg 0 send_len)]\<rparr>)) }"

text \<open>
  The second loop, over the script of receptions. A datagram is received into the memory of the
  request, also one that is then ignored.
\<close>

fun un_recv_loop ::
    "perdition_un \<Rightarrow> nat \<Rightarrow> nat \<Rightarrow> int \<Rightarrow> packet \<Rightarrow> int \<Rightarrow> un_recv list \<Rightarrow> un_net \<Rightarrow> ((int \<times> packet) \<times> un_net) option" where
  "un_recv_loop peer send_len recv_len retry msg attempt [] net = None"
| "un_recv_loop peer send_len recv_len retry msg attempt (ev # evs) net =
     (let net1 = net\<lparr>un_recvs := evs\<rparr> in
      case ev of
        Un_select_intr \<Rightarrow> un_recv_loop peer send_len recv_len retry msg attempt evs net1
      | Un_select_err \<Rightarrow> Some ((-1, msg), net1)
      | Un_timeout \<Rightarrow>
          do { (r, net2) \<leftarrow> un_send_msg peer msg send_len retry attempt net1;
               case r of
                 None \<Rightarrow> Some ((-1, msg), net2)
               | Some a \<Rightarrow> un_recv_loop peer send_len recv_len retry msg a evs net2 }
      | Un_recv_intr \<Rightarrow> un_recv_loop peer send_len recv_len retry msg attempt evs net1
      | Un_recv_err \<Rightarrow> Some ((-1, msg), net1)
      | Un_datagram from d \<Rightarrow>
          (let d' = take recv_len d; msg' = packet_receive msg d' in
           if from \<noteq> un_name peer then un_recv_loop peer send_len recv_len retry msg' attempt evs net1
           else Some ((int (length d'), msg'), net1)))"

definition perdition_un_send_recv ::
    "perdition_un \<Rightarrow> packet \<Rightarrow> nat \<Rightarrow> nat \<Rightarrow> int \<Rightarrow> un_net \<Rightarrow> ((int \<times> packet) \<times> un_net) option" where
  "perdition_un_send_recv peer msg send_len recv_len retry net =
     do { (r, net1) \<leftarrow> un_send_msg peer msg send_len retry 0 net;
          case r of
            None \<Rightarrow> Some ((-1, msg), net1)
          | Some a \<Rightarrow> un_recv_loop peer send_len recv_len retry msg a (un_recvs net1) net1 }"

subsection \<open>Properties\<close>

lemma send_loop_simps [simp]:
  "0 < retry \<Longrightarrow> a < retry \<Longrightarrow> un_send_loop retry a (Un_sent # r) = Some (Some a, r)"
  by (simp add: un_send_loop.simps)

lemma un_send_msg_sent:
  "attempt < retry \<Longrightarrow> un_sends net = Un_sent # r \<Longrightarrow>
     un_send_msg peer msg n retry attempt net =
       Some (Some attempt, net\<lparr>un_sends := r, un_sent := un_sent net @ [(take 107 (un_name peer), packet_bytes msg 0 n)]\<rparr>)"
  by (simp add: un_send_msg_def un_send_loop.simps PERDITION_UN_STR_LEN_def)

lemma un_send_msg_cases:
  assumes "un_send_msg peer msg n retry attempt net = Some (r, net1)"
  shows "un_recvs net1 = un_recvs net" and "r = None \<Longrightarrow> un_sent net1 = un_sent net"
    and "r \<noteq> None \<Longrightarrow> un_sent net1 = un_sent net @ [(take 107 (un_name peer), packet_bytes msg 0 n)]"
  using assms by (auto simp: un_send_msg_def bind_eq_Some_conv PERDITION_UN_STR_LEN_def split: option.splits if_splits)

text \<open>
  Whatever the scripts, a reply is a datagram of the peer, it is what the memory begins with, and
  everything that has been sent went to the peer.
\<close>

lemma un_recv_loop_reply:
  assumes "un_recv_loop peer k m retry msg attempt evs net = Some ((n, msg'), net')"
  shows "(0 \<le> n \<longrightarrow> (\<exists>d. Un_datagram (un_name peer) d \<in> set evs \<and> n = int (length (take m d)) \<and>
           (\<exists>old. msg' = packet_receive old (take m d)))) \<and>
    (\<exists>ds. un_sent net' = un_sent net @ map (Pair (take 107 (un_name peer))) ds)"
  using assms
proof (induction peer k m retry msg attempt evs net rule: un_recv_loop.induct)
  case (2 peer k m retry msg attempt ev evs net)
  note run = "2.prems"
  show ?case
  proof (cases ev)
    case Un_select_intr
    with "2.IH"(1) [OF refl] run show ?thesis by (auto simp: Let_def)
  next
    case Un_timeout
    then obtain r net2 where r: "un_send_msg peer msg k retry attempt (net\<lparr>un_recvs := evs\<rparr>) = Some (r, net2)"
      using run by (auto simp: Let_def bind_eq_Some_conv)
    note c = un_send_msg_cases [OF r]
    show ?thesis
    proof (cases r)
      case None
      with run r c(2) Un_timeout show ?thesis by (auto simp: Let_def)
    next
      case (Some a)
      then have l: "un_recv_loop peer k m retry msg a evs net2 = Some ((n, msg'), net')"
        using run r Un_timeout by (simp add: Let_def)
      have s: "un_sent net2 = un_sent net @ [(take 107 (un_name peer), packet_bytes msg 0 k)]" using c(3) Some by simp
      note ih = "2.IH"(2) [OF refl Un_timeout r refl Some l]
      then obtain ds where "un_sent net' = un_sent net2 @ map (Pair (take 107 (un_name peer))) ds" by blast
      then have "un_sent net' = un_sent net @ map (Pair (take 107 (un_name peer))) (packet_bytes msg 0 k # ds)"
        using s by simp
      with ih show ?thesis using Un_timeout by (metis list.set_intros(2))
    qed
  next
    case Un_recv_intr
    with "2.IH"(3) [OF refl] run show ?thesis by (auto simp: Let_def)
  next
    case (Un_datagram f d)
    with "2.IH"(4) [OF refl Un_datagram refl refl] run show ?thesis by (auto simp: Let_def split: if_splits)
  qed (use run in \<open>auto simp: Let_def\<close>)
qed simp

text \<open>
  C16. A result that is not an error is the size of a datagram of the peer that is then at the front of
  the memory, and every datagram sent went to the peer.
\<close>

theorem un_send_recv_from_peer:
  assumes "perdition_un_send_recv peer msg k m retry net = Some ((n, msg'), net')" and "0 \<le> n"
  shows "(\<exists>d old. Un_datagram (un_name peer) d \<in> set (un_recvs net) \<and> n = int (length (take m d)) \<and>
      msg' = packet_receive old (take m d)) \<and>
    (\<exists>ds. un_sent net' = un_sent net @ map (Pair (take 107 (un_name peer))) ds \<and> ds \<noteq> [])"
proof -
  obtain r net1 where s: "un_send_msg peer msg k retry 0 net = Some (r, net1)"
    using assms(1) by (auto simp: perdition_un_send_recv_def bind_eq_Some_conv)
  obtain a where a: "r = Some a" "un_recv_loop peer k m retry msg a (un_recvs net1) net1 = Some ((n, msg'), net')"
    using assms s by (cases r) (auto simp: perdition_un_send_recv_def)
  note c = un_send_msg_cases [OF s]
  have t: "un_sent net1 = un_sent net @ [(take 107 (un_name peer), packet_bytes msg 0 k)]" using c(3) a(1) by simp
  from un_recv_loop_reply [OF a(2)] obtain ds where
    "un_sent net' = un_sent net1 @ map (Pair (take 107 (un_name peer))) ds" by blast
  then have "un_sent net' = un_sent net @ map (Pair (take 107 (un_name peer))) (packet_bytes msg 0 k # ds)" using t by simp
  moreover have "\<exists>d old. Un_datagram (un_name peer) d \<in> set (un_recvs net) \<and> n = int (length (take m d)) \<and>
      msg' = packet_receive old (take m d)"
    using un_recv_loop_reply [OF a(2)] assms(2) c(1) by auto
  ultimately show ?thesis by blast
qed

text \<open>Timeouts do not count as attempts: the request is sent again after every one, however small the limit.\<close>

lemma un_recv_loop_timeouts:
  "a < retry \<Longrightarrow> un_sends net = replicate j Un_sent @ r \<Longrightarrow>
     un_recv_loop peer k m retry msg a (replicate j Un_timeout @ [Un_datagram (un_name peer) d]) net =
       Some ((int (length (take m d)), packet_receive msg (take m d)),
         net\<lparr>un_sends := r, un_recvs := [],
             un_sent := un_sent net @ replicate j (take 107 (un_name peer), packet_bytes msg 0 k)\<rparr>)"
proof (induction j arbitrary: net)
  case 0
  then show ?case by (cases net) (simp add: Let_def)
next
  case (Suc j)
  then have "un_send_msg peer msg k retry a (net\<lparr>un_recvs := replicate j Un_timeout @ [Un_datagram (un_name peer) d]\<rparr>) =
      Some (Some a, net\<lparr>un_recvs := replicate j Un_timeout @ [Un_datagram (un_name peer) d], un_sends := replicate j Un_sent @ r,
        un_sent := un_sent net @ [(take 107 (un_name peer), packet_bytes msg 0 k)]\<rparr>)"
    by (subst un_send_msg_sent) simp_all
  then show ?case using Suc by (simp add: Let_def)
qed

text \<open>
  The limit on attempts does not bound the number of requests: after any number of timeouts the
  request is sent once more, with a limit of one attempt too.
\<close>

lemma un_timeouts_unbounded:
  assumes "0 < retry" and "un_sends net = replicate (Suc j) Un_sent"
    and "un_recvs net = replicate j Un_timeout @ [Un_datagram (un_name peer) d]"
  shows "\<exists>net'. perdition_un_send_recv peer msg k m retry net = Some ((int (length (take m d)), packet_receive msg (take m d)), net') \<and>
    length (un_sent net') = length (un_sent net) + Suc j"
proof -
  have "un_send_msg peer msg k retry 0 net = Some (Some 0, net\<lparr>un_sends := replicate j Un_sent,
      un_sent := un_sent net @ [(take 107 (un_name peer), packet_bytes msg 0 k)]\<rparr>)"
    using assms(1,2) by (simp add: un_send_msg_sent)
  then show ?thesis using assms un_recv_loop_timeouts [of 0 retry _ j "[]" peer k m msg d]
    by (simp add: perdition_un_send_recv_def)
qed

text \<open>A datagram of someone else overwrites the request, and a timeout then sends the mixture.\<close>

lemma un_resend_overwritten:
  assumes "0 < retry" and "un_sends net = [Un_sent, Un_sent]" and "from \<noteq> un_name peer"
    and "un_recvs net = [Un_datagram from e, Un_timeout, Un_datagram (un_name peer) d]"
  shows "\<exists>r net'. perdition_un_send_recv peer msg k m retry net = Some (r, net') \<and>
    un_sent net' = un_sent net @ [(take 107 (un_name peer), packet_bytes msg 0 k),
      (take 107 (un_name peer), packet_bytes (packet_receive msg (take m e)) 0 k)]"
  using assms by (simp add: perdition_un_send_recv_def un_send_msg_sent Let_def)

lemma un_timeouts_unbounded_witness:
  "\<exists>net'. perdition_un_send_recv (perdition_un_init\<lparr>un_name := ''s''\<rparr>) ''abc'' 3 10 1
      \<lparr>un_sends = replicate (Suc 7) Un_sent, un_recvs = replicate 7 Un_timeout @ [Un_datagram ''s'' ''xy''], un_sent = []\<rparr> =
      Some ((2, ''xyc''), net') \<and> length (un_sent net') = 8"
  using un_timeouts_unbounded [of 1 "\<lparr>un_sends = replicate (Suc 7) Un_sent,
      un_recvs = replicate 7 Un_timeout @ [Un_datagram ''s'' ''xy''], un_sent = []\<rparr>" 7 "perdition_un_init\<lparr>un_name := ''s''\<rparr>" "''xy''" "''abc''" 3 10]
  by (simp add: packet_receive_def)

lemma un_send_recv_from_peer_witness:
  "\<exists>msg' net'. perdition_un_send_recv (perdition_un_init\<lparr>un_name := ''s''\<rparr>) ''abc'' 3 10 1
      \<lparr>un_sends = [Un_send_intr, Un_sent], un_recvs = [Un_datagram ''t'' ''q'', Un_recv_intr, Un_datagram ''s'' ''xy''], un_sent = []\<rparr> =
      Some ((2, msg'), net') \<and> (\<exists>ds. un_sent net' = map (Pair ''s'') ds \<and> ds \<noteq> [])"
proof -
  let ?net = "\<lparr>un_sends = [Un_send_intr, Un_sent], un_recvs = [Un_datagram ''t'' ''q'', Un_recv_intr, Un_datagram ''s'' ''xy''], un_sent = []\<rparr>"
  obtain msg' net' where r: "perdition_un_send_recv (perdition_un_init\<lparr>un_name := ''s''\<rparr>) ''abc'' 3 10 1 ?net = Some ((2, msg'), net')"
    by (simp add: perdition_un_send_recv_def un_send_msg_def un_send_loop.simps)
  from un_send_recv_from_peer [OF r] r show ?thesis by simp
qed

end
