(* ===== verification/Daemon_Map.thy ===== *)
theory Daemon_Map
  imports Unix_Socket Getserver Cmd_Write
begin

text \<open>
  The lookup library that asks a daemon (db/daemon/perditiondb_daemon.c), and the answering loop of its
  sample daemon (db/daemon/server.c). Parameters are what comes from other libraries: the split of a
  string (\<open>vanessa_dynamic_array_split_str\<close>), and \<open>getnameinfo\<close> with the numeric flags, \<open>None\<close> where
  it fails. The copy of the directory template reads along behind the string; what it reads there is
  not used and is left out.
\<close>

subsection \<open>Configuration\<close>

definition PERDITION_UN_SERVER_SOCKET :: string where
  "PERDITION_UN_SERVER_SOCKET = ''/var/run/perdition.db''"

definition DIR_TEMPLATE :: string where "DIR_TEMPLATE = ''/tmp/perdition-map-XXXXXX''"
definition TIMEOUT :: int where "TIMEOUT = 1"
definition MAX_RETRY :: int where "MAX_RETRY = 5"

text \<open>The static variables; \<open>dc_array\<close> states that the array of the options exists.\<close>

record daemon_conf =
  dc_array :: bool
  dc_socket :: string
  dc_timeout :: int
  dc_max_retry :: int

definition daemon_conf_zero :: daemon_conf where
  "daemon_conf_zero =
     \<lparr>dc_array = False, dc_socket = PERDITION_UN_SERVER_SOCKET, dc_timeout = TIMEOUT, dc_max_retry = MAX_RETRY\<rparr>"

definition daemon_dbserver_init ::
    "(string \<Rightarrow> char \<Rightarrow> string list option) \<Rightarrow> string option \<Rightarrow> daemon_conf \<Rightarrow> (int \<times> daemon_conf) option" where
  "daemon_dbserver_init split options_str c =
     (if options_str = None \<or> dc_array c then Some (0, c)
      else case split (the options_str) CHR '':'' of
             None \<Rightarrow> Some (-1, c)
           | Some a \<Rightarrow>
               do { t \<leftarrow> (if length a > 1 then c_atoi (a ! 1) else Some (dc_timeout c));
                    r \<leftarrow> (if length a > 2 then c_atoi (a ! 2) else Some (dc_max_retry c));
                    Some (0, \<lparr>dc_array = True, dc_socket = (if length a > 0 then a ! 0 else dc_socket c),
                              dc_timeout = t, dc_max_retry = r\<rparr>) })"

subsection \<open>Requests\<close>

text \<open>An address of the connection: of IPv4 with the words its structure holds, or of IPv6.\<close>

datatype sockaddr = Sock_in "32 word" "16 word" | Sock_in6 nat

definition sin_addr :: "sockaddr option \<Rightarrow> 32 word" where
  "sin_addr s = (case s of Some (Sock_in a p) \<Rightarrow> a | _ \<Rightarrow> 0)"

definition sin_port :: "sockaddr option \<Rightarrow> 16 word" where
  "sin_port s = (case s of Some (Sock_in a p) \<Rightarrow> p | _ \<Rightarrow> 0)"

definition is_in6 :: "sockaddr option \<Rightarrow> bool" where
  "is_in6 s \<longleftrightarrow> (case s of Some (Sock_in6 n) \<Rightarrow> True | _ \<Rightarrow> False)"

text \<open>Host and service of an address, empty without one; \<open>None\<close> for an error of \<open>getnameinfo\<close>.\<close>

definition sock_names :: "(sockaddr \<Rightarrow> (string \<times> string) option) \<Rightarrow> sockaddr option \<Rightarrow> (string \<times> string) option" where
  "sock_names gni s = (case s of None \<Rightarrow> Some ([], []) | Some a \<Rightarrow> gni a)"

text \<open>The request: the result and the packet, as the functions that write packets return them.\<close>

definition daemon_request ::
    "options \<Rightarrow> (sockaddr \<Rightarrow> (string \<times> string) option) \<Rightarrow> sockaddr option \<Rightarrow> sockaddr option \<Rightarrow> string
      \<Rightarrow> (int \<times> packet option) option" where
  "daemon_request opt gni peername sockname key_str =
     (let packet = Some perdition_packet_create;
          pack = (\<lambda>s. Some (perdition_packet_str_pack s));
          key = pack (Some key_str); delim = pack (opt_domain_delimiter opt)
      in if is_in6 peername \<or> is_in6 sockname
         then (case (sock_names gni peername, sock_names gni sockname) of
                 (Some (saddr, sport), Some (daddr, dport)) \<Rightarrow>
                   perdition_packet_init_v1_str_req packet PERDITION_PACKET_CS_NONE (pack (Some saddr)) (pack (Some sport))
                     (pack (Some daddr)) (pack (Some dport)) key delim
               | _ \<Rightarrow> Some (-1, packet))
         else perdition_packet_init_v1_req packet 0 (sin_addr peername) (sin_port peername)
                (sin_addr sockname) (sin_port sockname) key delim)"

subsection \<open>Lookup\<close>

text \<open>
  What the system and uninitialised memory contribute to a lookup: the contents of the variables \<open>sock\<close>
  and \<open>peer\<close> before they are set, the directory that \<open>mkdtemp\<close> makes of the template (\<open>None\<close> on error),
  the process id, the results of \<open>socket\<close> and \<open>bind\<close>, and the scripts of the exchange.
\<close>

record daemon_sys =
  ds_sock :: perdition_un
  ds_peer :: perdition_un
  ds_mkdtemp :: "string option"
  ds_pid :: nat
  ds_socket :: int
  ds_bind :: int
  ds_net :: un_net

text \<open>\<open>calloc\<close> of one byte more than the string, and \<open>memcpy\<close>: the C string that results.\<close>

definition packet_str_dup :: "packet_str \<Rightarrow> string option" where
  "packet_str_dup s = map_option cstr (packet_str_read s)"

text \<open>
  The result: the return value, the strings returned with 0, what has been sent, and the calls that take
  the socket down at the end.
\<close>

definition daemon_dbserver_get2 ::
    "options \<Rightarrow> daemon_conf \<Rightarrow> (sockaddr \<Rightarrow> (string \<times> string) option) \<Rightarrow> sockaddr option \<Rightarrow> sockaddr option \<Rightarrow> daemon_sys
      \<Rightarrow> string \<Rightarrow> ((int \<times> (string \<times> string \<times> string) option) \<times> un_net \<times> un_call list) option" where
  "daemon_dbserver_get2 opt c gni peername sockname sys key_str =
     do { (rc, packet) \<leftarrow> daemon_request opt gni peername sockname key_str;
          if rc < 0 then Some ((-1, None), ds_net sys, perdition_un_close (ds_sock sys))
          else do {
            pk \<leftarrow> packet;
            case ds_mkdtemp sys of
              None \<Rightarrow> Some ((-1, None), ds_net sys, [])
            | Some dir \<Rightarrow>
                let name = take (PERDITION_UN_STR_LEN - 2) (dir @ ''/map.'' @ dec_string (ds_pid sys));
                    sock = \<lparr>un_dir = dir, un_name = name, un_fd = ds_socket sys\<rparr>
                in if un_fd (ds_peer sys) < 0 then Some ((-1, None), ds_net sys, perdition_un_close sock)
                   else if ds_bind sys < 0 then Some ((-1, None), ds_net sys, perdition_un_close sock)
                   else do {
                     let peer = perdition_un_init\<lparr>un_name := take (PERDITION_UN_STR_LEN - 1) (dc_socket c)\<rparr>;
                     ((bytes, pk1), net) \<leftarrow> perdition_un_send_recv peer pk (head_length pk)
                       PERDITION_PACKET_MAX_PACKET_LEN (dc_max_retry c) (ds_net sys);
                     if bytes < 0 then Some ((-1, None), net, perdition_un_close sock)
                     else do {
                       (rc, ss) \<leftarrow> perdition_packet_verify_v1_rsp pk1 (nat bytes);
                       if rc < 0 then Some ((-1, None), net, perdition_un_close sock)
                       else do { user \<leftarrow> packet_str_dup (ss ! 0); server \<leftarrow> packet_str_dup (ss ! 1);
                                 port \<leftarrow> packet_str_dup (ss ! 2);
                                 Some ((0, Some (user, server, port)), net, perdition_un_close sock) } } } } }"

subsection \<open>The sample daemon\<close>

text \<open>
  The body of the loop for one datagram: the memory of requests afterwards, and the datagram sent back,
  if any.
\<close>

definition daemon_answer :: "string \<Rightarrow> packet \<Rightarrow> string \<Rightarrow> (packet \<times> string option) option" where
  "daemon_answer response req msg =
     (let d = take PERDITION_PACKET_MAX_PACKET_LEN msg; req1 = packet_receive req d; bytes = length d in
      if bytes = 0 then Some (req1, None)
      else do {
        (rc, ss) \<leftarrow> perdition_packet_verify_v1_req req1 bytes;
        (rc2, ss2) \<leftarrow> (if rc \<noteq> 0 then perdition_packet_verify_v1_str_req req1 bytes else Some (0, ss));
        if rc2 < 0 then Some (req1, None)
        else do {
          (rc3, rsp) \<leftarrow> perdition_packet_init_v1_rsp (Some perdition_packet_create) 0 (Some (ss2 ! 0))
             (Some (perdition_packet_str_pack (Some response))) None;
          if rc3 < 0 then Some (req1, None)
          else do { p \<leftarrow> rsp; Some (req1, Some (packet_bytes p 0 (head_length p))) } } })"

subsection \<open>Properties\<close>

text \<open>The strings of a request, in the order of the packet.\<close>

definition request_texts ::
    "options \<Rightarrow> (sockaddr \<Rightarrow> (string \<times> string) option) \<Rightarrow> sockaddr option \<Rightarrow> sockaddr option \<Rightarrow> string \<Rightarrow> string list option" where
  "request_texts opt gni peername sockname key_str =
     (if is_in6 peername \<or> is_in6 sockname
      then do { (sa, sp) \<leftarrow> sock_names gni peername; (da, dp) \<leftarrow> sock_names gni sockname;
                Some [key_str, opt_dd opt, sa, sp, da, dp] }
      else Some [key_str, opt_dd opt])"

lemma fields_size_mem: "d \<in> set ds \<Longrightarrow> length d + 2 \<le> fields_size ds"
  by (induction ds) auto

lemma str_text_pack:
  assumes "length s < 65536" shows "str_text (Some (perdition_packet_str_pack (Some s))) = Some s"
proof -
  have l: "unat (of_nat (length s) :: 16 word) = length s" unfolding unat_of_nat using assms by simp
  have "(of_nat (length s) :: 16 word) = 0 \<longleftrightarrow> s = []"
    using l unsigned_eq_0_iff [where ?'a = nat and w = "of_nat (length s) :: 16 word"] by simp
  with l show ?thesis by (simp add: str_text_def packet_str_read_def perdition_packet_str_pack_def)
qed

lemma str_text_dd:
  "length (opt_dd opt) < 65536 \<Longrightarrow> str_text (Some (perdition_packet_str_pack (opt_domain_delimiter opt))) = Some (opt_dd opt)"
  using str_text_pack [of "opt_dd opt"]
  by (cases "opt_domain_delimiter opt") (simp_all add: opt_dd_def str_text_def perdition_packet_str_pack_def packet_str_read_def)

lemma daemon_request_init:
  assumes "request_texts opt gni peername sockname key_str = Some ds" and "fields_size ds \<le> PERDITION_PACKET_MAX_BODY_LEN"
  obtains flags strs sa sp da dp where
    "daemon_request opt gni peername sockname key_str =
       packet_init (Some perdition_packet_create) PERDITION_PACKET_CS_NONE flags sa sp da dp strs"
    "map str_text strs = map Some ds" "hd ds = key_str" "ds \<noteq> []"
    "flags = PERDITION_PACKET_REQ \<and> length ds = 2 \<or> flags = PERDITION_PACKET_STR_REQ \<and> length ds = 6"
proof -
  have short: "\<forall>d \<in> set ds. length d < 65536"
    using fields_size_mem [of _ ds] assms(2) by (fastforce simp: packet_sizes)
  show ?thesis
  proof (cases "is_in6 peername \<or> is_in6 sockname")
    case True
    then obtain sa sp da dp where n: "sock_names gni peername = Some (sa, sp)" "sock_names gni sockname = Some (da, dp)"
      and ds: "ds = [key_str, opt_dd opt, sa, sp, da, dp]"
      using assms(1) by (auto simp: request_texts_def bind_eq_Some_conv)
    show ?thesis
      by (rule that [of PERDITION_PACKET_STR_REQ 0 0 0 0
            "[Some (perdition_packet_str_pack (Some key_str)), Some (perdition_packet_str_pack (opt_domain_delimiter opt)),
              Some (perdition_packet_str_pack (Some sa)), Some (perdition_packet_str_pack (Some sp)),
              Some (perdition_packet_str_pack (Some da)), Some (perdition_packet_str_pack (Some dp))]"])
        (use True n ds short in \<open>simp_all add: daemon_request_def perdition_packet_init_v1_str_req_def str_text_pack str_text_dd\<close>)
  next
    case False
    then have ds: "ds = [key_str, opt_dd opt]" using assms(1) by (simp add: request_texts_def)
    show ?thesis
      by (rule that [of PERDITION_PACKET_REQ "sin_addr peername" "sin_port peername" "sin_addr sockname" "sin_port sockname"
            "[Some (perdition_packet_str_pack (Some key_str)), Some (perdition_packet_str_pack (opt_domain_delimiter opt))]"])
        (use False ds short in \<open>simp_all add: daemon_request_def perdition_packet_init_v1_req_def str_text_pack str_text_dd
           PERDITION_PACKET_CS_NONE_def\<close>)
  qed
qed

lemma packet_bytes_all: "length p = n \<Longrightarrow> packet_bytes p 0 n = p"
  by (rule nth_equalityI) (simp_all add: packet_bytes_def packet_byte_def)

lemma packet_verify_flags:
  assumes "packet_verify flags n p len = Some (0, ss)" and "flags' \<noteq> flags"
  shows "packet_verify flags' n' p len = Some (-1, [])"
  using assms by (auto simp: packet_verify_def split: if_splits)

text \<open>The sample daemon answers every request with the key as the user.\<close>

lemma daemon_answers:
  assumes "request_texts opt gni peername sockname key_str = Some ds" and "fields_size ds \<le> PERDITION_PACKET_MAX_BODY_LEN"
    and "fields_size [key_str, response, []] \<le> PERDITION_PACKET_MAX_BODY_LEN"
  shows "\<exists>pk ans mem'. daemon_request opt gni peername sockname key_str = Some (0, Some pk) \<and>
    packet_bytes pk 0 (head_length pk) = pk \<and>
    daemon_answer response mem pk = Some (mem', Some ans) \<and> length ans \<le> PERDITION_PACKET_MAX_PACKET_LEN \<and>
    (\<forall>old. \<exists>ss. perdition_packet_verify_v1_rsp (packet_receive old ans) (length ans) = Some (0, ss) \<and>
       map packet_str_read ss = [Some key_str, Some response, Some []])"
proof -
  obtain flags strs sa sp da dp where r: "daemon_request opt gni peername sockname key_str =
       packet_init (Some perdition_packet_create) PERDITION_PACKET_CS_NONE flags sa sp da dp strs"
    "map str_text strs = map Some ds" "hd ds = key_str" "ds \<noteq> []"
    "flags = PERDITION_PACKET_REQ \<and> length ds = 2 \<or> flags = PERDITION_PACKET_STR_REQ \<and> length ds = 6"
    using daemon_request_init [OF assms(1,2)] .
  obtain pk where pk: "daemon_request opt gni peername sockname key_str = Some (0, Some pk)" "head_length pk = length pk"
      "length pk \<le> PERDITION_PACKET_MAX_PACKET_LEN"
    and v: "\<exists>ss. packet_verify flags (length ds) (packet_receive mem pk) (length pk) = Some (0, ss) \<and>
       map packet_str_read ss = map Some ds"
    using packet_exchange [OF r(2) assms(2), of "Some perdition_packet_create" flags sa sp da dp] r(1) by metis
  obtain ss where ss: "packet_verify flags (length ds) (packet_receive mem pk) (length pk) = Some (0, ss)"
    "map packet_str_read ss = map Some ds" using v by blast
  have nz: "length pk \<noteq> 0" using ss(1) by (auto simp: packet_verify_def perdition_packet_verify_v1_head_def packet_sizes)
  have k: "packet_str_read (ss ! 0) = Some key_str"
    using ss(2) r(3,4) by (cases ss; cases ds) auto
  have "length response < 65536" using assms(3) by (simp add: packet_sizes)
  then have t: "map str_text [Some (ss ! 0), Some (perdition_packet_str_pack (Some response)), None] = map Some [key_str, response, []]"
    using k str_text_pack [of response] by (simp add: str_text_def)
  obtain ans where ans: "perdition_packet_init_v1_rsp (Some perdition_packet_create) PERDITION_PACKET_CS_NONE (Some (ss ! 0))
      (Some (perdition_packet_str_pack (Some response))) None = Some (0, Some ans)" "head_length ans = length ans"
      "length ans \<le> PERDITION_PACKET_MAX_PACKET_LEN"
    and w: "\<forall>old. \<exists>ss. perdition_packet_verify_v1_rsp (packet_receive old ans) (length ans) = Some (0, ss) \<and>
       map packet_str_read ss = [Some key_str, Some response, Some []]"
    using packet_exchange [OF t assms(3), of "Some perdition_packet_create" PERDITION_PACKET_RSP 0 0 0 0]
    by (auto simp: perdition_packet_init_v1_rsp_def perdition_packet_verify_v1_rsp_def numeral_3_eq_3)
  have d: "perdition_packet_verify_v1_req (packet_receive mem pk) (length pk) = Some (0, ss) \<or>
      perdition_packet_verify_v1_req (packet_receive mem pk) (length pk) = Some (-1, []) \<and>
      perdition_packet_verify_v1_str_req (packet_receive mem pk) (length pk) = Some (0, ss)"
    using r(5) ss(1) packet_verify_flags [OF ss(1), of PERDITION_PACKET_REQ 2]
    by (auto simp: perdition_packet_verify_v1_req_def perdition_packet_verify_v1_str_req_def
        PERDITION_PACKET_REQ_def PERDITION_PACKET_STR_REQ_def)
  have a: "perdition_packet_init_v1_rsp (Some perdition_packet_create) 0 (Some (ss ! 0))
      (Some (perdition_packet_str_pack (Some response))) None = Some (0, Some ans)"
    using ans(1) by (simp add: PERDITION_PACKET_CS_NONE_def)
  have e: "packet_bytes ans 0 (head_length ans) = ans" using ans(2) packet_bytes_all [of ans] by simp
  from d have "daemon_answer response mem pk = Some (packet_receive mem pk, Some ans)"
    using pk(3) nz a e by (auto simp: daemon_answer_def Let_def)
  with pk w ans(3) packet_bytes_all [of pk] show ?thesis by auto
qed

text \<open>What the lookup makes of a reply of the peer.\<close>

lemma daemon_dbserver_get2_reply:
  assumes "daemon_request opt gni peername sockname key_str = Some (0, Some pk)"
    and "ds_mkdtemp sys \<noteq> None" and "0 \<le> un_fd (ds_peer sys)" and "0 \<le> ds_bind sys" and "0 < dc_max_retry c"
    and "un_sends (ds_net sys) = [Un_sent]" and "un_recvs (ds_net sys) = [Un_datagram (take 107 (dc_socket c)) ans]"
    and "length ans \<le> PERDITION_PACKET_MAX_PACKET_LEN"
    and "perdition_packet_verify_v1_rsp (packet_receive pk ans) (length ans) = Some (0, ss)"
    and "map packet_str_read ss = [Some u, Some s, Some p]"
  shows "\<exists>net calls. daemon_dbserver_get2 opt c gni peername sockname sys key_str = Some ((0, Some (cstr u, cstr s, cstr p)), net, calls) \<and>
    un_sent net = un_sent (ds_net sys) @ [(take 107 (dc_socket c), packet_bytes pk 0 (head_length pk))]"
proof -
  obtain a b d where ss: "ss = [a, b, d]" "packet_str_read a = Some u" "packet_str_read b = Some s" "packet_str_read d = Some p"
    using assms(10) by (auto simp: map_eq_Cons_conv)
  define peer where "peer = perdition_un_init\<lparr>un_name := take (PERDITION_UN_STR_LEN - 1) (dc_socket c)\<rparr>"
  have n: "un_name peer = take 107 (dc_socket c)" by (simp add: peer_def PERDITION_UN_STR_LEN_def)
  have "perdition_un_send_recv peer pk (head_length pk) PERDITION_PACKET_MAX_PACKET_LEN (dc_max_retry c) (ds_net sys) =
      Some ((int (length ans), packet_receive pk ans), (ds_net sys)\<lparr>un_sends := [], un_recvs := [],
        un_sent := un_sent (ds_net sys) @ [(take 107 (dc_socket c), packet_bytes pk 0 (head_length pk))]\<rparr>)"
    using assms(5,6,7,8) n by (simp add: perdition_un_send_recv_def un_send_msg_sent Let_def min_def)
  then show ?thesis
    using assms(1-4,9) ss by (auto simp: daemon_dbserver_get2_def Let_def peer_def packet_str_dup_def)
qed

text \<open>The socket can be set up, and the reply to the first request is \<open>ans\<close>.\<close>

definition daemon_ready :: "daemon_conf \<Rightarrow> string \<Rightarrow> daemon_sys \<Rightarrow> bool" where
  "daemon_ready c ans sys \<longleftrightarrow>
     ds_mkdtemp sys \<noteq> None \<and> 0 \<le> un_fd (ds_peer sys) \<and> 0 \<le> ds_bind sys \<and> un_sends (ds_net sys) = [Un_sent] \<and>
     un_recvs (ds_net sys) = [Un_datagram (take 107 (dc_socket c)) ans]"

text \<open>
  C37. A lookup and the sample daemon together: the request that is sent is answered, and the answer gives
  the key as the user, the response of the daemon as the server and no port.
\<close>

theorem daemon_lookup:
  assumes "request_texts opt gni peername sockname key_str = Some ds" and "fields_size ds \<le> PERDITION_PACKET_MAX_BODY_LEN"
    and "fields_size [key_str, response, []] \<le> PERDITION_PACKET_MAX_BODY_LEN" and "no_nul key_str" and "no_nul response"
    and "0 < dc_max_retry c"
  shows "\<exists>req ans mem'. daemon_answer response mem req = Some (mem', Some ans) \<and>
    (\<forall>sys. daemon_ready c ans sys \<longrightarrow>
      (\<exists>net calls. daemon_dbserver_get2 opt c gni peername sockname sys key_str = Some ((0, Some (key_str, response, [])), net, calls) \<and>
         un_sent net = un_sent (ds_net sys) @ [(take 107 (dc_socket c), req)]))"
proof -
  from daemon_answers [OF assms(1-3), of mem] obtain pk ans mem' where
    r: "daemon_request opt gni peername sockname key_str = Some (0, Some pk)"
    "packet_bytes pk 0 (head_length pk) = pk" "daemon_answer response mem pk = Some (mem', Some ans)"
    "length ans \<le> PERDITION_PACKET_MAX_PACKET_LEN"
    "\<forall>old. \<exists>ss. perdition_packet_verify_v1_rsp (packet_receive old ans) (length ans) = Some (0, ss) \<and>
       map packet_str_read ss = [Some key_str, Some response, Some []]"
    by (elim exE conjE)
  obtain ss where ss: "perdition_packet_verify_v1_rsp (packet_receive pk ans) (length ans) = Some (0, ss)"
    "map packet_str_read ss = [Some key_str, Some response, Some []]" using spec [OF r(5), of pk] by (elim exE conjE)
  have "\<exists>net calls. daemon_dbserver_get2 opt c gni peername sockname sys key_str = Some ((0, Some (key_str, response, [])), net, calls) \<and>
      un_sent net = un_sent (ds_net sys) @ [(take 107 (dc_socket c), pk)]" if "daemon_ready c ans sys" for sys
    using daemon_dbserver_get2_reply [OF r(1) _ _ _ assms(6) _ _ r(4) ss, of sys] that
    unfolding r(2) cstr_id [OF assms(4)] cstr_id [OF assms(5)] cstr_Nil daemon_ready_def by (elim conjE)
  with r(3) have "daemon_answer response mem pk = Some (mem', Some ans) \<and> (\<forall>sys. daemon_ready c ans sys \<longrightarrow>
      (\<exists>net calls. daemon_dbserver_get2 opt c gni peername sockname sys key_str = Some ((0, Some (key_str, response, [])), net, calls) \<and>
         un_sent net = un_sent (ds_net sys) @ [(take 107 (dc_socket c), pk)]))" by simp
  then show ?thesis by - (rule exI, rule exI, rule exI)
qed

text \<open>
  Two tests read memory that has not been set: a request that does not fit closes and removes what
  the uninitialised \<open>sock\<close> happens to hold, and whether the socket exists is read from \<open>peer\<close>.
\<close>

lemma daemon_dbserver_get2_uninitialised:
  assumes "daemon_request opt gni peername sockname key_str = Some (rc, packet)"
  shows "(rc < 0 \<longrightarrow> daemon_dbserver_get2 opt c gni peername sockname sys key_str =
           Some ((-1, None), ds_net sys, perdition_un_close (ds_sock sys))) \<and>
    (0 \<le> rc \<longrightarrow> packet \<noteq> None \<longrightarrow> ds_mkdtemp sys \<noteq> None \<longrightarrow> un_fd (ds_peer sys) < 0 \<longrightarrow>
       (\<exists>calls. daemon_dbserver_get2 opt c gni peername sockname sys key_str = Some ((-1, None), ds_net sys, calls)))"
  using assms by (auto simp: daemon_dbserver_get2_def Let_def)

definition demo_sys :: "string \<Rightarrow> daemon_sys" where
  "demo_sys ans =
     \<lparr>ds_sock = \<lparr>un_dir = ''/x'', un_name = ''/x/y'', un_fd = 0\<rparr>, ds_peer = perdition_un_init\<lparr>un_fd := 7\<rparr>, ds_mkdtemp = Some ''/tmp/a'',
      ds_pid = 12, ds_socket = 5, ds_bind = 0,
      ds_net = \<lparr>un_sends = [Un_sent], un_recvs = [Un_datagram ''/run/d'' ans], un_sent = []\<rparr>\<rparr>"

lemma daemon_lookup_witness:
  "\<exists>req ans mem' net calls. daemon_answer ''mail'' [] req = Some (mem', Some ans) \<and>
     daemon_dbserver_get2 (options_zero\<lparr>opt_domain_delimiter := Some ''@''\<rparr>) (daemon_conf_zero\<lparr>dc_socket := ''/run/d''\<rparr>) (\<lambda>s. None) None None (demo_sys ans) ''joe'' =
       Some ((0, Some (''joe'', ''mail'', [])), net, calls) \<and> un_sent net = [(''/run/d'', req)]"
proof -
  let ?opt = "options_zero\<lparr>opt_domain_delimiter := Some ''@''\<rparr>" and ?c = "daemon_conf_zero\<lparr>dc_socket := ''/run/d''\<rparr>"
  have t: "request_texts ?opt (\<lambda>s. None) None None ''joe'' = Some [''joe'', ''@'']" by code_simp
  have n: "fields_size [''joe'', ''@''] \<le> PERDITION_PACKET_MAX_BODY_LEN" "fields_size [''joe'', ''mail'', []] \<le> PERDITION_PACKET_MAX_BODY_LEN"
    by (simp_all add: packet_sizes)
  have u: "no_nul ''joe''" "no_nul ''mail''" by code_simp+
  have s: "daemon_ready ?c a (demo_sys a)" "un_sent (ds_net (demo_sys a)) = []" for a
    by (simp_all add: demo_sys_def daemon_ready_def)
  have m: "0 < dc_max_retry ?c" by (simp add: daemon_conf_zero_def MAX_RETRY_def)
  obtain req ans mem' where r: "daemon_answer ''mail'' [] req = Some (mem', Some ans)"
    "\<forall>sys. daemon_ready ?c ans sys \<longrightarrow> (\<exists>net calls. daemon_dbserver_get2 ?opt ?c (\<lambda>s. None) None None sys ''joe'' =
        Some ((0, Some (''joe'', ''mail'', [])), net, calls) \<and> un_sent net = un_sent (ds_net sys) @ [(take 107 (dc_socket ?c), req)])"
    using daemon_lookup [OF t n u m, of "[]"] by (elim exE conjE)
  have "\<exists>net calls. daemon_dbserver_get2 ?opt ?c (\<lambda>s. None) None None (demo_sys ans) ''joe'' =
        Some ((0, Some (''joe'', ''mail'', [])), net, calls) \<and> un_sent net = [(''/run/d'', req)]"
    using mp [OF spec [OF r(2)] s(1)] s(2) by simp
  with r(1) show ?thesis by blast
qed

lemma daemon_dbserver_get2_uninitialised_witness:
  "\<exists>calls. daemon_dbserver_get2 options_zero daemon_conf_zero (\<lambda>s. None) None (Some (Sock_in6 1)) (demo_sys []) ''joe'' =
      Some ((-1, None), ds_net (demo_sys []), [Un_close 0, Un_unlink ''/x/y'', Un_rmdir ''/x'']) \<and>
    daemon_dbserver_get2 options_zero daemon_conf_zero (\<lambda>s. None) None None ((demo_sys [])\<lparr>ds_peer := perdition_un_init\<rparr>) ''joe'' =
      Some ((-1, None), ds_net (demo_sys []), calls)"
proof -
  have r: "daemon_request options_zero (\<lambda>s. None) None (Some (Sock_in6 1)) ''joe'' = Some (-1, Some perdition_packet_create)"
    by code_simp
  have t: "request_texts options_zero (\<lambda>s. None) None None ''joe'' = Some [''joe'', []]" by code_simp
  have "fields_size [''joe'', []] \<le> PERDITION_PACKET_MAX_BODY_LEN" "fields_size [''joe'', ''mail'', []] \<le> PERDITION_PACKET_MAX_BODY_LEN"
    by (simp_all add: packet_sizes)
  then obtain pk where p: "daemon_request options_zero (\<lambda>s. None) None None ''joe'' = Some (0, Some pk)"
    using daemon_answers [OF t] by blast
  have c: "perdition_un_close (ds_sock (demo_sys [])) = [Un_close 0, Un_unlink ''/x/y'', Un_rmdir ''/x'']"
    by (simp add: demo_sys_def perdition_un_close_def)
  show ?thesis
    using daemon_dbserver_get2_uninitialised [OF r, of daemon_conf_zero "demo_sys []"]
      daemon_dbserver_get2_uninitialised [OF p, of daemon_conf_zero "(demo_sys [])\<lparr>ds_peer := perdition_un_init\<rparr>"] c
    by (simp add: demo_sys_def perdition_un_init_def)
qed

end
