(* ===== verification/Options_Parse.thy ===== *)
theory Options_Parse
  imports Ssl Protocol_Params
begin

text \<open>
  The command line and the configuration file (options.c, config_file.c). The libraries behind them are
  parameters, fields of \<open>opt_env\<close>: \<open>popt\<close>, which turns the table of options and the arguments into the
  options in order with their arguments, the final return code of \<open>poptGetNextOpt\<close> and the trailing
  arguments; the digit test and the split of \<open>libvanessa\<close>; what the build sets; which configuration
  files exist and what is read from them.

  The branches of the \<open>switch\<close> that only call \<open>opt_p\<close> or \<open>opt_i\<close> are tables of what they pass on: the
  option, the field, the mask and the bit of the mask.
\<close>

subsection \<open>Masks and assignments\<close>

datatype mask_id = Mask | Mask2 | Ssl_mask

fun get_mask :: "mask_id \<Rightarrow> options \<Rightarrow> flag_t" where
  "get_mask Mask opt = opt_mask opt"
| "get_mask Mask2 opt = opt_mask2 opt"
| "get_mask Ssl_mask opt = opt_ssl_mask opt"

fun set_mask :: "mask_id \<Rightarrow> flag_t \<Rightarrow> options \<Rightarrow> options" where
  "set_mask Mask m opt = opt\<lparr>opt_mask := m\<rparr>"
| "set_mask Mask2 m opt = opt\<lparr>opt_mask2 := m\<rparr>"
| "set_mask Ssl_mask m opt = opt\<lparr>opt_ssl_mask := m\<rparr>"

definition options_set_mask :: "mask_id \<Rightarrow> flag_t \<Rightarrow> flag_t \<Rightarrow> options \<Rightarrow> bool \<times> options" where
  "options_set_mask m mask_entry flag opt =
     (if flag AND OPT_USE_MASK \<noteq> 0 \<and> get_mask m opt AND mask_entry \<noteq> 0 then (False, opt)
      else (True, if flag AND OPT_SET_MASK \<noteq> 0 then set_mask m (get_mask m opt OR mask_entry) opt else opt))"

text \<open>A pointer to a member of \<open>opt\<close> is the function that updates the member.\<close>

type_synonym 'a member = "('a \<Rightarrow> 'a) \<Rightarrow> options \<Rightarrow> options"

definition opt_p :: "string option member \<Rightarrow> string option \<Rightarrow> mask_id \<Rightarrow> flag_t \<Rightarrow> flag_t \<Rightarrow> options \<Rightarrow> options" where
  "opt_p opt_member v m mask_entry flag opt =
     (case options_set_mask m mask_entry flag opt of (ok, opt1) \<Rightarrow> if ok then opt_member (\<lambda>_. v) opt1 else opt1)"

definition opt_i :: "int member \<Rightarrow> int \<Rightarrow> mask_id \<Rightarrow> flag_t \<Rightarrow> flag_t \<Rightarrow> options \<Rightarrow> options" where
  "opt_i opt_member v m mask_entry flag opt =
     (case options_set_mask m mask_entry flag opt of (ok, opt1) \<Rightarrow> if ok then opt_member (\<lambda>_. v) opt1 else opt1)"

definition opt_i_or :: "(options \<Rightarrow> int) \<Rightarrow> int member \<Rightarrow> int \<Rightarrow> mask_id \<Rightarrow> flag_t \<Rightarrow> flag_t \<Rightarrow> options \<Rightarrow> options" where
  "opt_i_or get opt_member v m mask_entry flag opt = opt_i opt_member (get opt OR v) m mask_entry flag opt"

definition log_passwd_from_str :: "string \<Rightarrow> int" where
  "log_passwd_from_str str =
     (if strcaseeq str ''never'' then LOG_PASSWD_NEVER
      else if strcaseeq str ''fail'' then LOG_PASSWD_FAIL
      else if strcaseeq str ''ok'' then LOG_PASSWD_OK
      else if strcaseeq str ''always'' then LOG_PASSWD_ALWAYS
      else -1)"

subsection \<open>Environment and outcomes\<close>

text \<open>A row of the table for \<open>popt\<close>: long name, short name, whether there is an argument, and the value.\<close>

type_synonym popt_option = "string \<times> char option \<times> bool \<times> int"

record opt_env =
  oe_popt :: "popt_option list \<Rightarrow> string list \<Rightarrow> (int \<times> string option) list \<times> int \<times> string list"
  oe_is_digit :: "string \<Rightarrow> bool"
  oe_split :: "string \<Rightarrow> char \<Rightarrow> string list option"
  oe_sysconfdir :: string
  oe_localstatedir :: string
  oe_libdir :: string
  oe_group :: string
  oe_user :: string
  oe_exists :: "string \<Rightarrow> bool"
  oe_config_read :: "string \<Rightarrow> string list option"

text \<open>The process exits, the function returns, or it goes on.\<close>

datatype opt_step = Opt_exit int | Opt_return int options | Opt_next options

fun opt_then :: "opt_step option \<Rightarrow> (options \<Rightarrow> opt_step option) \<Rightarrow> opt_step option" where
  "opt_then (Some (Opt_next opt)) g = g opt"
| "opt_then r g = r"

definition opt_err :: "flag_t \<Rightarrow> options \<Rightarrow> opt_step" where
  "opt_err f opt = (if f AND OPT_ERR \<noteq> 0 then Opt_exit (-1) else Opt_return (-1) opt)"

text \<open>A message, and the process exits where errors are fatal.\<close>

definition opt_complain :: "flag_t \<Rightarrow> options \<Rightarrow> opt_step" where
  "opt_complain f opt = (if f AND OPT_ERR \<noteq> 0 then Opt_exit (-1) else Opt_next opt)"

subsection \<open>Words of an argument\<close>

fun comma_split :: "string \<Rightarrow> string list" where
  "comma_split [] = [[]]"
| "comma_split (c # s) =
     (if c = CHR '','' then [] # comma_split s
      else (case comma_split s of [] \<Rightarrow> [[c]] | w # ws \<Rightarrow> (c # w) # ws))"

fun opt_words :: "(string \<Rightarrow> options \<Rightarrow> opt_step option) \<Rightarrow> string list \<Rightarrow> options \<Rightarrow> opt_step option" where
  "opt_words g [] opt = Some (Opt_next opt)"
| "opt_words g (w # ws) opt = opt_then (g w opt) (opt_words g ws)"

definition OPT_MODIFY_USERNAME ::
    "(options \<Rightarrow> int) \<Rightarrow> int member \<Rightarrow> flag_t \<Rightarrow> flag_t \<Rightarrow> string \<Rightarrow> options \<Rightarrow> opt_step option" where
  "OPT_MODIFY_USERNAME get opt_member mask_entry f w opt =
     Some (if strcaseeq w ''all'' then Opt_next (opt_i_or get opt_member STATE_ALL Mask mask_entry f opt)
           else if strcaseeq w ''servername_lookup'' \<or> strcaseeq w ''server_lookup''
           then Opt_next (opt_i_or get opt_member STATE_GET_SERVER Mask mask_entry f opt)
           else if strcaseeq w ''local_authentication'' \<or> strcaseeq w ''local_auth''
           then Opt_next (opt_i_or get opt_member STATE_LOCAL_AUTH Mask mask_entry f opt)
           else if strcaseeq w ''remote_login'' then Opt_next (opt_i_or get opt_member STATE_REMOTE_LOGIN Mask mask_entry f opt)
           else opt_complain f opt)"

definition OPT_ADD_DOMAIN :: "opt_env \<Rightarrow> flag_t \<Rightarrow> string \<Rightarrow> options \<Rightarrow> opt_step option" where
  "OPT_ADD_DOMAIN E f w opt =
     (if oe_is_digit E w then do { n \<leftarrow> c_atoi w; Some (Opt_next (opt\<lparr>opt_add_domain_strip_depth := nat n\<rparr>)) }
      else OPT_MODIFY_USERNAME opt_add_domain opt_add_domain_update MASK_ADD_DOMAIN f w opt)"

definition ssl_mode_word :: "string \<Rightarrow> int option" where
  "ssl_mode_word w =
     (if strcaseeq w ''none'' then Some SSL_MODE_NONE
      else if strcaseeq w ''ssl_listen'' then Some SSL_MODE_SSL_LISTEN
      else if strcaseeq w ''ssl_outgoing'' then Some SSL_MODE_SSL_OUTGOING
      else if strcaseeq w ''ssl_all'' then Some SSL_MODE_SSL_ALL
      else if strcaseeq w ''tls_listen'' then Some SSL_MODE_TLS_LISTEN
      else if strcaseeq w ''tls_outgoing'' then Some SSL_MODE_TLS_OUTGOING
      else if strcaseeq w ''tls_listen_force'' then Some (SSL_MODE_TLS_LISTEN_FORCE OR SSL_MODE_TLS_LISTEN)
      else if strcaseeq w ''tls_outgoing_force'' then Some (SSL_MODE_TLS_OUTGOING_FORCE OR SSL_MODE_TLS_OUTGOING)
      else if strcaseeq w ''tls_all_force'' then Some (SSL_MODE_TLS_ALL_FORCE OR SSL_MODE_TLS_ALL)
      else if strcaseeq w ''tls_all'' then Some SSL_MODE_TLS_ALL
      else None)"

text \<open>An unknown word adds nothing; a combination that is invalid is added unless errors are fatal.\<close>

definition OPT_SSL_MODE :: "flag_t \<Rightarrow> string \<Rightarrow> options \<Rightarrow> opt_step option" where
  "OPT_SSL_MODE f w opt =
     (if ssl_mode_word w = None \<and> f AND OPT_ERR \<noteq> 0 then Some (Opt_exit (-1))
      else
        let new = (case ssl_mode_word w of None \<Rightarrow> 0 | Some n \<Rightarrow> n); all = new OR opt_ssl_mode opt
        in if (all AND SSL_LISTEN_MASK = SSL_LISTEN_MASK \<or> all AND SSL_OUTGOING_MASK = SSL_OUTGOING_MASK) \<and>
              (new \<noteq> SSL_MODE_NONE \<or> opt_ssl_mode opt \<noteq> SSL_MODE_NONE \<and> opt_ssl_mode opt \<noteq> SSL_MODE_EMPTY) \<and>
              f AND OPT_ERR \<noteq> 0
           then Some (Opt_exit (-1))
           else Some (Opt_next (opt_i_or opt_ssl_mode opt_ssl_mode_update new Ssl_mask MASK_SSL_MODE f opt)))"

text \<open>The parts of a list of servers; an empty part is dropped at the end only.\<close>

definition split_str_server_port :: "string \<Rightarrow> string \<Rightarrow> user_server_port list option" where
  "split_str_server_port dd s =
     (let ws = comma_split s; ws' = (if last ws = [] then butlast ws else ws)
      in those (map (user_server_port_str_assign dd None) ws'))"

subsection \<open>The switch\<close>

definition ord_of :: "char \<Rightarrow> int" where "ord_of c = int (ascii c)"

text \<open>Options whose argument is copied into a string.\<close>

definition opt_p_cases :: "(int \<times> string option member \<times> mask_id \<times> flag_t) list" where
  "opt_p_cases =
     [(ord_of CHR ''D'', opt_domain_delimiter_update, Mask, MASK_DOMAIN_DELIMITER),
      (ord_of CHR ''e'', opt_explicit_domain_update, Mask2, MASK2_EXPLICIT_DOMAIN),
      (ord_of CHR ''F'', opt_log_facility_update, Mask, MASK_LOG_FACILITY),
      (ord_of CHR ''g'', opt_group_update, Mask, MASK_GROUP),
      (TAG_IMAP_CAPABILITY, opt_imap_capability_update, Mask2, MASK2_IMAP_CAPABILITY),
      (TAG_MANAGESIEVE_CAPABILITY, opt_managesieve_capability_update, Mask2, MASK2_MANAGESIEVE_CAPABILITY),
      (TAG_POP_CAPABILITY, opt_pop_capability_update, Mask2, MASK2_POP_CAPABILITY),
      (ord_of CHR ''l'', opt_listen_port_update, Mask, MASK_LISTEN_PORT),
      (ord_of CHR ''M'', opt_map_library_update, Mask, MASK_MAP_LIB),
      (ord_of CHR ''m'', opt_map_library_opt_update, Mask, MASK_MAP_LIB_OPT),
      (ord_of CHR ''O'', opt_ok_line_update, Mask2, MASK2_OK_LINE),
      (ord_of CHR ''p'', opt_outgoing_port_update, Mask, MASK_OUTGOING_PORT),
      (ord_of CHR ''u'', opt_username_update, Mask, MASK_USERNAME)]"

definition opt_ssl_p_cases :: "(int \<times> string option member \<times> mask_id \<times> flag_t) list" where
  "opt_ssl_p_cases =
     [(TAG_SSL_CA_FILE, opt_ssl_ca_file_update, Ssl_mask, MASK_SSL_CA_FILE),
      (TAG_SSL_CA_PATH, opt_ssl_ca_path_update, Ssl_mask, MASK_SSL_CA_PATH),
      (TAG_SSL_CA_CHAIN_FILE, opt_ssl_ca_chain_file_update, Ssl_mask, MASK_SSL_CA_CHAIN_FILE),
      (TAG_SSL_CERT_FILE, opt_ssl_cert_file_update, Ssl_mask, MASK_SSL_CERT_FILE),
      (TAG_SSL_DH_PARAMS_FILE, opt_ssl_dh_params_file_update, Ssl_mask, MASK_SSL_DH_PARAMS_FILE),
      (TAG_SSL_KEY_FILE, opt_ssl_key_file_update, Ssl_mask, MASK_SSL_KEY_FILE),
      (TAG_SSL_LISTEN_CIPHERS, opt_ssl_listen_ciphers_update, Ssl_mask, MASK_SSL_LISTEN_CIPHERS),
      (TAG_SSL_OUTGOING_CIPHERS, opt_ssl_outgoing_ciphers_update, Ssl_mask, MASK_SSL_OUTGOING_CIPHERS),
      (TAG_SSL_PASSPHRASE_FILE, opt_ssl_passphrase_file_update, Ssl_mask, MASK_SSL_PASSPHRASE_FILE),
      (TAG_SSL_LISTEN_MIN_PROTO_VERSION, opt_ssl_listen_min_proto_version_update, Ssl_mask, MASK_SSL_LISTEN_MIN_PROTO_VERSION),
      (TAG_SSL_OUTGOING_MIN_PROTO_VERSION, opt_ssl_outgoing_min_proto_version_update, Ssl_mask, MASK_SSL_OUTGOING_MIN_PROTO_VERSION),
      (TAG_SSL_LISTEN_MAX_PROTO_VERSION, opt_ssl_listen_max_proto_version_update, Ssl_mask, MASK_SSL_LISTEN_MAX_PROTO_VERSION),
      (TAG_SSL_OUTGOING_MAX_PROTO_VERSION, opt_ssl_outgoing_max_proto_version_update, Ssl_mask, MASK_SSL_OUTGOING_MAX_PROTO_VERSION)]"

text \<open>Options without an argument, which set a number to 1.\<close>

definition opt_i_cases :: "(int \<times> int member \<times> mask_id \<times> flag_t) list" where
  "opt_i_cases =
     [(ord_of CHR ''a'', opt_authenticate_in_update, Mask, MASK_AUTHENTICATE_IN),
      (ord_of CHR ''B'', opt_no_bind_banner_update, Mask, MASK_NO_BIND_BANNER),
      (ord_of CHR ''C'', opt_connection_logging_update, Mask, MASK_DEBUG),
      (ord_of CHR ''c'', opt_client_server_specification_update, Mask, MASK_CLIENT_SERVER_SPECIFICATION),
      (ord_of CHR ''d'', opt_debug_update, Mask, MASK_DEBUG),
      (ord_of CHR ''i'', opt_inetd_mode_update, Mask, MASK_INETD_MODE),
      (ord_of CHR ''n'', opt_no_lookup_update, Mask, MASK_NO_LOOKUP),
      (ord_of CHR ''o'', opt_server_resp_line_update, Mask, MASK_SERVER_RESP_LINE),
      (ord_of CHR ''U'', opt_username_from_database_update, Mask, MASK_USERNAME_FROM_DATABASE),
      (ord_of CHR ''q'', opt_quiet_update, Mask, MASK_QUIET),
      (TAG_NO_DAEMON, opt_no_daemon_update, Mask, MASK_NO_DAEMON),
      (TAG_TCP_KEEPALIVE, opt_tcp_keepalive_update, Mask2, MASK2_TCP_KEEPALIVE),
      (TAG_LOGIN_DISABLED, opt_login_disabled_update, Mask, MASK_LOGIN_DISABLED)]"

definition opt_ssl_i_cases :: "(int \<times> int member \<times> mask_id \<times> flag_t) list" where
  "opt_ssl_i_cases =
     [(TAG_SSL_CA_ACCEPT_SELF_SIGNED, opt_ssl_ca_accept_self_signed_update, Ssl_mask, MASK_SSL_CA_ACCEPT_SELF_SIGNED),
      (TAG_SSL_CERT_ACCEPT_EXPIRED, opt_ssl_cert_accept_expired_update, Ssl_mask, MASK_SSL_CERT_ACCEPT_EXPIRED),
      (TAG_SSL_CERT_ACCEPT_NOT_YET_VALID, opt_ssl_cert_accept_not_yet_valid_update, Ssl_mask, MASK_SSL_CERT_ACCEPT_NOT_YET_VALID),
      (TAG_SSL_CERT_ACCEPT_SELF_SIGNED, opt_ssl_cert_accept_self_signed_update, Ssl_mask, MASK_SSL_CERT_ACCEPT_SELF_SIGNED),
      (TAG_SSL_NO_CERT_VERIFY, opt_ssl_no_cert_verify_update, Ssl_mask, MASK_SSL_NO_CERT_VERIFY),
      (TAG_SSL_NO_CLIENT_CERT_VERIFY, opt_ssl_no_client_cert_verify_update, Ssl_mask, MASK_SSL_NO_CLIENT_CERT_VERIFY),
      (TAG_SSL_NO_CN_VERIFY, opt_ssl_no_cn_verify_update, Ssl_mask, MASK_SSL_NO_CN_VERIFY),
      (TAG_SSL_LISTEN_COMPRESSION, opt_ssl_listen_compression_update, Ssl_mask, MASK_SSL_LISTEN_COMPRESSION),
      (TAG_SSL_OUTGOING_COMPRESSION, opt_ssl_outgoing_compression_update, Ssl_mask, MASK_SSL_OUTGOING_COMPRESSION),
      (TAG_SSL_NO_CIPHER_SERVER_PREFERENCE, opt_ssl_no_cipher_server_preference_update, Ssl_mask, MASK_SSL_NO_CIPHER_SERVER_PREFERENCE)]"

definition opt_p_table :: "(int \<times> string option member \<times> mask_id \<times> flag_t) list" where
  "opt_p_table = opt_p_cases @ opt_ssl_p_cases"

definition opt_i_table :: "(int \<times> int member \<times> mask_id \<times> flag_t) list" where
  "opt_i_table = opt_i_cases @ opt_ssl_i_cases"

text \<open>Options whose argument must be a number.\<close>

definition opt_number_cases :: "(int \<times> int member \<times> mask_id \<times> flag_t) list" where
  "opt_number_cases =
     [(TAG_AUTHENTICATE_TIMEOUT, opt_authenticate_timeout_update, Mask2, MASK2_AUTHENTICATE_TIMEOUT),
      (TAG_CONNECT_RELOG, opt_connect_relog_update, Mask, MASK_CONNECT_RELOG),
      (ord_of CHR ''L'', opt_connection_limit_update, Mask, MASK_CONNECTION_LIMIT),
      (ord_of CHR ''t'', opt_timeout_update, Mask, MASK_TIMEOUT),
      (TAG_SSL_PASSPHRASE_FD, opt_ssl_passphrase_fd_update, Ssl_mask, MASK_SSL_PASSPHRASE_FD)]"

definition opt_number :: "opt_env \<Rightarrow> int member \<Rightarrow> mask_id \<Rightarrow> flag_t \<Rightarrow> flag_t \<Rightarrow> string option \<Rightarrow> options \<Rightarrow> opt_step option" where
  "opt_number E opt_member m mask_entry f arg opt =
     do { a \<leftarrow> arg;
          if \<not> oe_is_digit E a then Some (opt_err f opt)
          else do { n \<leftarrow> c_atoi a; Some (Opt_next (opt_i opt_member n m mask_entry f opt)) } }"

text \<open>One of the three capabilities: the mask is consulted twice.\<close>

definition opt_capability :: "string option member \<Rightarrow> flag_t \<Rightarrow> flag_t \<Rightarrow> string option \<Rightarrow> options \<Rightarrow> options" where
  "opt_capability opt_member mask_entry f arg opt =
     (case options_set_mask Mask2 mask_entry f opt of
        (ok, opt1) \<Rightarrow> if ok then opt_p opt_member arg Mask2 mask_entry f opt1 else opt1)"

text \<open>
  The three options that hold lists call \<open>options_set_mask\<close> with the flags as the bit of the mask, and
  the bit as the flags.
\<close>

definition opt_bind_address_case :: "flag_t \<Rightarrow> string option \<Rightarrow> options \<Rightarrow> opt_step option" where
  "opt_bind_address_case f arg opt =
     (case options_set_mask Mask f MASK_BIND_ADDRESS opt of
        (ok, opt1) \<Rightarrow>
          if \<not> ok then Some (Opt_next opt1)
          else do { a \<leftarrow> arg; l \<leftarrow> split_str_server_port (opt_dd opt1) a;
                    Some (Opt_next (opt1\<lparr>opt_bind_address := Some l\<rparr>)) })"

definition opt_outgoing_server_case :: "flag_t \<Rightarrow> string option \<Rightarrow> options \<Rightarrow> opt_step option" where
  "opt_outgoing_server_case f arg opt =
     (case options_set_mask Mask f MASK_OUTGOING_SERVER opt of
        (ok, opt1) \<Rightarrow>
          if \<not> ok then Some (Opt_next opt1)
          else do { a \<leftarrow> arg; l \<leftarrow> split_str_server_port (opt_dd opt1) a;
                    Some (Opt_next (opt1\<lparr>opt_outgoing_server := Some l\<rparr>)) })"

definition opt_query_key_case :: "opt_env \<Rightarrow> flag_t \<Rightarrow> string option \<Rightarrow> options \<Rightarrow> opt_step option" where
  "opt_query_key_case E f arg opt =
     (case options_set_mask Mask f MASK_QUERY_KEY opt of
        (ok, opt1) \<Rightarrow>
          if \<not> ok then Some (Opt_next opt1)
          else do { a \<leftarrow> arg; Some (Opt_next (opt1\<lparr>opt_query_key := oe_split E a CHR '',''\<rparr>)) })"

definition opt_protocol_case :: "flag_t \<Rightarrow> string option \<Rightarrow> options \<Rightarrow> opt_step option" where
  "opt_protocol_case f arg opt =
     do { a \<leftarrow> arg; n \<leftarrow> protocol_index a;
          Some (if n < 0 then Opt_exit (-1) else Opt_next (opt_i opt_protocol_update n Mask MASK_PROTOCOL f opt)) }"

definition opt_pid_file_case :: "flag_t \<Rightarrow> string option \<Rightarrow> options \<Rightarrow> opt_step option" where
  "opt_pid_file_case f arg opt =
     do { a \<leftarrow> arg;
          Some (if a \<noteq> [] \<and> hd a \<noteq> CHR ''/'' then Opt_exit (-1)
                else Opt_next (opt_p opt_pid_file_update arg Mask2 MASK2_PID_FILE f opt)) }"

definition opt_log_passwd_case :: "flag_t \<Rightarrow> string option \<Rightarrow> options \<Rightarrow> opt_step option" where
  "opt_log_passwd_case f arg opt =
     do { a \<leftarrow> arg;
          let opt1 = opt_i opt_log_passwd_update (log_passwd_from_str a) Mask2 MASK2_LOG_PASSWD f opt;
          Some (if opt_log_passwd opt1 < 0 then Opt_exit (-1) else Opt_next opt1) }"

definition opt_other :: "opt_env \<Rightarrow> flag_t \<Rightarrow> int \<Rightarrow> string option \<Rightarrow> options \<Rightarrow> opt_step option" where
  "opt_other E f c arg opt =
     (if c = ord_of CHR ''A'' then do { a \<leftarrow> arg; opt_words (OPT_ADD_DOMAIN E f) (comma_split a) opt }
      else if c = ord_of CHR ''b'' then opt_bind_address_case f arg opt
      else if c = ord_of CHR ''f''
      then Some (Opt_next (if f AND OPT_FILE = 0 then opt_p opt_config_file_update arg Mask MASK_CONFIG_FILE f opt else opt))
      else if c = ord_of CHR ''h''
      then Some (if f AND OPT_ERR \<noteq> 0 \<and> f AND OPT_FILE = 0 then Opt_exit 0 else Opt_next opt)
      else if c = ord_of CHR ''I''
      then Some (Opt_next (opt_capability opt_pop_capability_update MASK2_POP_CAPABILITY f arg
             (opt_capability opt_managesieve_capability_update MASK2_MANAGESIEVE_CAPABILITY f arg
             (opt_capability opt_imap_capability_update MASK2_IMAP_CAPABILITY f arg opt))))
      else if c = ord_of CHR ''P'' then opt_protocol_case f arg opt
      else if c = ord_of CHR ''S''
      then do { a \<leftarrow> arg; opt_words (OPT_MODIFY_USERNAME opt_strip_domain opt_strip_domain_update MASK_STRIP_DOMAIN f) (comma_split a) opt }
      else if c = ord_of CHR ''s'' then opt_outgoing_server_case f arg opt
      else if c = TAG_LOWER_CASE
      then do { a \<leftarrow> arg; opt_words (OPT_MODIFY_USERNAME opt_lower_case opt_lower_case_update MASK_LOWER_CASE f) (comma_split a) opt }
      else if c = TAG_QUERY_KEY then opt_query_key_case E f arg opt
      else if c = TAG_PID_FILE then opt_pid_file_case f arg opt
      else if c = TAG_LOG_PASSWD then opt_log_passwd_case f arg opt
      else if c = TAG_SSL_MODE then do { a \<leftarrow> arg; opt_words (OPT_SSL_MODE f) (comma_split a) opt }
      else if c = TAG_SSL_CERT_VERIFY_DEPTH
      then do { a \<leftarrow> arg; n \<leftarrow> c_atoi a;
                Some (Opt_next (opt_i opt_ssl_cert_verify_depth_update n Ssl_mask MASK_SSL_CERT_VERIFY_DEPTH f opt)) }
      else Some (Opt_next opt))"

definition opt_event :: "opt_env \<Rightarrow> flag_t \<Rightarrow> int \<times> string option \<Rightarrow> options \<Rightarrow> opt_step option" where
  "opt_event E f ev opt =
     (case ev of (c, arg) \<Rightarrow>
        (case map_of opt_p_table c of
           Some (opt_member, m, k) \<Rightarrow> Some (Opt_next (opt_p opt_member arg m k f opt))
         | None \<Rightarrow>
        (case map_of opt_i_table c of
           Some (opt_member, m, k) \<Rightarrow> Some (Opt_next (opt_i opt_member 1 m k f opt))
         | None \<Rightarrow>
        (case map_of opt_number_cases c of
           Some (opt_member, m, k) \<Rightarrow> opt_number E opt_member m k f arg opt
         | None \<Rightarrow> opt_other E f c arg opt))))"

fun opt_events :: "opt_env \<Rightarrow> flag_t \<Rightarrow> (int \<times> string option) list \<Rightarrow> options \<Rightarrow> opt_step option" where
  "opt_events E f [] opt = Some (Opt_next opt)"
| "opt_events E f (ev # evs) opt = opt_then (opt_event E f ev opt) (opt_events E f evs)"

subsection \<open>Checks behind the loop\<close>

definition ssl_passphrase_check :: "flag_t \<Rightarrow> options \<Rightarrow> opt_step option" where
  "ssl_passphrase_check f opt =
     Some (if opt_ssl_mask opt AND MASK_SSL_PASSPHRASE_FD \<noteq> 0 \<and> opt_ssl_mask opt AND MASK_SSL_PASSPHRASE_FILE \<noteq> 0
           then opt_err f opt else Opt_next opt)"

text \<open>The versions of one direction; an empty maximum becomes NULL.\<close>

definition proto_versions_check ::
    "(options \<Rightarrow> string option) \<Rightarrow> (options \<Rightarrow> string option) \<Rightarrow> string option member \<Rightarrow> flag_t \<Rightarrow> options \<Rightarrow> opt_step option" where
  "proto_versions_check get_min get_max max_member f opt =
     (let min_ver = (case get_min opt of None \<Rightarrow> 0 | Some v \<Rightarrow> perdition_parse_ssl_proto_version v) in
      if get_min opt \<noteq> None \<and> min_ver < 0 then Some (opt_err f opt)
      else
        let opt1 = (if get_max opt = Some [] then max_member (\<lambda>_. None) opt else opt);
            max_ver = (case get_max opt1 of None \<Rightarrow> 0 | Some v \<Rightarrow> perdition_parse_ssl_proto_version v)
        in if get_max opt1 \<noteq> None \<and> max_ver < 0 then Some (opt_err f opt1)
           else if get_min opt1 \<noteq> None \<and> get_max opt1 \<noteq> None \<and> min_ver > max_ver then Some (opt_err f opt1)
           else Some (Opt_next opt1))"

definition listen_versions_check :: "flag_t \<Rightarrow> options \<Rightarrow> opt_step option" where
  "listen_versions_check =
     proto_versions_check opt_ssl_listen_min_proto_version opt_ssl_listen_max_proto_version opt_ssl_listen_max_proto_version_update"

text \<open>The minimum that is tested for outgoing connections is the one for listening.\<close>

definition outgoing_versions_check :: "flag_t \<Rightarrow> options \<Rightarrow> opt_step option" where
  "outgoing_versions_check =
     proto_versions_check opt_ssl_listen_min_proto_version opt_ssl_outgoing_max_proto_version opt_ssl_outgoing_max_proto_version_update"

subsection \<open>Defaults\<close>

definition MANAGESIEVE_DEFAULT_CAPA :: string where
  "MANAGESIEVE_DEFAULT_CAPA =
     DQ # ''IMPLEMENTATION'' @ DQ # SP # DQ # ''perdition'' @ DQ # MANAGESIEVE_CAPA_DELIMITER
     @ DQ # ''SIEVE'' @ DQ # SP # DQ # ''comparator-i;octet '' @ ''comparator-i;ascii-casemap '' @ ''fileinto '' @ ''reject ''
       @ ''envelope '' @ ''encoded-character '' @ ''vacation '' @ ''subaddress '' @ ''comparator-i;ascii-numeric ''
       @ ''relational '' @ ''regex '' @ ''imap4flags '' @ ''copy '' @ ''include '' @ ''variables '' @ ''body ''
       @ ''enotify '' @ ''environment '' @ ''mailbox '' @ ''date'' @ DQ # MANAGESIEVE_CAPA_DELIMITER
     @ DQ # ''SASL'' @ DQ # SP # DQ # ''PLAIN'' @ DQ # MANAGESIEVE_CAPA_DELIMITER
     @ DQ # ''NOTIFY'' @ DQ # SP # DQ # ''mailto'' @ DQ # MANAGESIEVE_CAPA_DELIMITER
     @ DQ # ''VERSION'' @ DQ # SP # DQ # ''1.0'' @ [DQ]"

text \<open>The configuration file of a program name and a protocol: the first one that exists.\<close>

definition config_suffix :: "int \<Rightarrow> string option" where
  "config_suffix protocol =
     (if protocol = PROTOCOL_IMAP4 then Some ''imap4''
      else if protocol = PROTOCOL_IMAP4S then Some ''imap4s''
      else if protocol = PROTOCOL_POP3 then Some ''pop3''
      else if protocol = PROTOCOL_POP3S then Some ''pop3s''
      else if protocol = PROTOCOL_MANAGESIEVE then Some ''managesieve''
      else None)"

definition config_file_name :: "opt_env \<Rightarrow> string \<Rightarrow> int \<Rightarrow> string option" where
  "config_file_name E basename protocol =
     (let own = oe_sysconfdir E @ ''/'' @ basename @ ''.conf'' in
      if basename \<noteq> ''perdition'' \<and> oe_exists E own then Some own
      else case config_suffix protocol of
             None \<Rightarrow> None
           | Some sfx \<Rightarrow>
               let specific = oe_sysconfdir E @ ''/perdition.'' @ sfx @ ''.conf'';
                   general = oe_sysconfdir E @ ''/perdition.conf''
               in if oe_exists E specific then Some specific
                  else if oe_exists E general then Some general
                  else None)"

definition default_protocol :: "flag_t \<Rightarrow> string \<Rightarrow> int" where
  "default_protocol f basename =
     (if f AND OPT_FILE = 0 \<and> basename = ''perdition.imap4'' then PROTOCOL_IMAP4
      else if f AND OPT_FILE = 0 \<and> (basename = ''perdition.imap4s'' \<or> basename = ''perdition.imaps'') then PROTOCOL_IMAP4S
      else if f AND OPT_FILE = 0 \<and> basename = ''perdition.pop3'' then PROTOCOL_POP3
      else if f AND OPT_FILE = 0 \<and> basename = ''perdition.pop3s'' then PROTOCOL_POP3S
      else if f AND OPT_FILE = 0 \<and> basename = ''perdition.managesieve'' then PROTOCOL_MANAGESIEVE
      else PROTOCOL_POP3)"

text \<open>The masks are left as they are; the assignments with a dummy mask set the member.\<close>

definition options_default :: "opt_env \<Rightarrow> flag_t \<Rightarrow> string \<Rightarrow> options \<Rightarrow> options" where
  "options_default E f basename opt =
     (let protocol = default_protocol f basename in
      opt\<lparr>opt_add_domain := STATE_NONE, opt_add_domain_strip_depth := 1, opt_authenticate_in := 0,
        opt_authenticate_timeout := 1800, opt_no_bind_banner := 0, opt_client_server_specification := 0,
        opt_connection_limit := 0, opt_connection_logging := 0, opt_debug := 0, opt_inetd_mode := 0,
        opt_protocol := protocol, opt_no_daemon := 0, opt_no_lookup := 0, opt_tcp_keepalive := 0,
        opt_login_disabled := 0, opt_lower_case := STATE_NONE, opt_server_resp_line := 0, opt_strip_domain := STATE_NONE,
        opt_timeout := 1800, opt_username_from_database := 0, opt_quiet := 0, opt_connect_relog := 300,
        opt_bind_address := None, opt_log_facility := Some ''mail'',
        opt_config_file := (if f AND OPT_FILE = 0 then config_file_name E basename protocol else opt_config_file opt),
        opt_domain_delimiter := Some ''@'', opt_explicit_domain := None, opt_group := Some (oe_group E),
        opt_imap_capability := Some ''IMAP4 IMAP4REV1'', opt_listen_port := Some PERDITION_PROTOCOL_DEPENDANT,
        opt_log_passwd := LOG_PASSWD_NEVER, opt_managesieve_capability := Some MANAGESIEVE_DEFAULT_CAPA,
        opt_map_library := Some (oe_libdir E @ ''/libperditiondb_gdbm.so.0''), opt_map_library_opt := None,
        opt_outgoing_port := Some PERDITION_PROTOCOL_DEPENDANT, opt_ok_line := Some ''You are so in'',
        opt_username := Some (oe_user E), opt_outgoing_server := None, opt_pop_capability := Some ''UIDL.USER'',
        opt_pid_file := Some (oe_localstatedir E @ ''/run/'' @ basename @ ''/'' @ basename @ ''.pid''),
        opt_query_key := None, opt_ssl_mode := SSL_MODE_EMPTY, opt_ssl_ca_file := None,
        opt_ssl_ca_path := Some (oe_sysconfdir E @ ''/perdition.ca/''), opt_ssl_ca_accept_self_signed := 0,
        opt_ssl_cert_file := Some (oe_sysconfdir E @ ''/perdition.crt.pem''), opt_ssl_dh_params_file := None,
        opt_ssl_cert_accept_expired := 0, opt_ssl_cert_accept_not_yet_valid := 0, opt_ssl_cert_accept_self_signed := 0,
        opt_ssl_cert_verify_depth := 9, opt_ssl_key_file := Some (oe_sysconfdir E @ ''/perdition.key.pem''),
        opt_ssl_ca_chain_file := None, opt_ssl_listen_ciphers := None, opt_ssl_outgoing_ciphers := None,
        opt_ssl_no_cert_verify := 0, opt_ssl_no_client_cert_verify := 0, opt_ssl_no_cn_verify := 0,
        opt_ssl_passphrase_fd := 0, opt_ssl_passphrase_file := None,
        opt_ssl_listen_min_proto_version := Some ''tlsv1'', opt_ssl_outgoing_min_proto_version := Some ''tlsv1'',
        opt_ssl_listen_max_proto_version := None, opt_ssl_outgoing_max_proto_version := None,
        opt_ssl_listen_compression := 0, opt_ssl_outgoing_compression := 0,
        opt_ssl_no_cipher_server_preference := 0\<rparr>)"

subsection \<open>Parsing\<close>

definition options_table :: "popt_option list" where
  "options_table =
     [(''add_domain'', Some CHR ''A'', True, ord_of CHR ''A''),
      (''authenticate_in'', Some CHR ''a'', False, ord_of CHR ''a''),
      (''authenticate_timeout'', None, True, TAG_AUTHENTICATE_TIMEOUT),
      (''no_bind_banner'', Some CHR ''B'', False, ord_of CHR ''B''),
      (''bind_address'', Some CHR ''b'', True, ord_of CHR ''b''),
      (''connection_logging'', Some CHR ''C'', False, ord_of CHR ''C''),
      (''connect_relog'', None, True, TAG_CONNECT_RELOG),
      (''client_server_specification'', Some CHR ''c'', False, ord_of CHR ''c''),
      (''domain_delimiter'', Some CHR ''D'', True, ord_of CHR ''D''),
      (''debug'', Some CHR ''d'', False, ord_of CHR ''d''),
      (''explicit_domain'', Some CHR ''e'', True, ord_of CHR ''e''),
      (''log_facility'', Some CHR ''F'', True, ord_of CHR ''F''),
      (''config_file'', Some CHR ''f'', True, ord_of CHR ''f''),
      (''group'', Some CHR ''g'', True, ord_of CHR ''g''),
      (''help'', Some CHR ''h'', False, ord_of CHR ''h''),
      (''inetd_mode'', Some CHR ''i'', False, ord_of CHR ''i''),
      (''capability'', Some CHR ''I'', True, ord_of CHR ''I''),
      (''imap_capability'', None, True, TAG_IMAP_CAPABILITY),
      (''managesieve_capability'', None, True, TAG_MANAGESIEVE_CAPABILITY),
      (''pop_capability'', None, True, TAG_POP_CAPABILITY),
      (''connection_limit'', Some CHR ''L'', True, ord_of CHR ''L''),
      (''listen_port'', Some CHR ''l'', True, ord_of CHR ''l''),
      (''log_passwd'', None, True, TAG_LOG_PASSWD),
      (''map_library'', Some CHR ''M'', True, ord_of CHR ''M''),
      (''map_library_opt'', Some CHR ''m'', True, ord_of CHR ''m''),
      (''no_lookup'', Some CHR ''n'', False, ord_of CHR ''n''),
      (''ok_line'', Some CHR ''O'', True, ord_of CHR ''O''),
      (''server_ok_line'', None, False, ord_of CHR ''o''),
      (''server_resp_line'', Some CHR ''o'', False, ord_of CHR ''o''),
      (''protocol'', Some CHR ''P'', True, ord_of CHR ''P''),
      (''outgoing_port'', Some CHR ''p'', True, ord_of CHR ''p''),
      (''strip_domain'', Some CHR ''S'', True, ord_of CHR ''S''),
      (''outgoing_server'', Some CHR ''s'', True, ord_of CHR ''s''),
      (''timeout'', Some CHR ''t'', True, ord_of CHR ''t''),
      (''username'', Some CHR ''u'', True, ord_of CHR ''u''),
      (''username_from_database'', Some CHR ''U'', False, ord_of CHR ''U''),
      (''quiet'', Some CHR ''q'', False, ord_of CHR ''q''),
      (''query_key'', None, True, TAG_QUERY_KEY),
      (''login_disabled'', None, False, TAG_LOGIN_DISABLED),
      (''lower_case'', None, True, TAG_LOWER_CASE),
      (''pid_file'', None, True, TAG_PID_FILE),
      (''no_daemon'', None, False, TAG_NO_DAEMON),
      (''tcp_keepalive'', None, False, TAG_TCP_KEEPALIVE),
      (''ssl_mode'', None, True, TAG_SSL_MODE),
      (''ssl_ca_chain_file'', None, True, TAG_SSL_CA_CHAIN_FILE),
      (''ssl_ca_file'', None, True, TAG_SSL_CA_FILE),
      (''ssl_ca_path'', None, True, TAG_SSL_CA_PATH),
      (''ssl_ca_accept_self_signed'', None, False, TAG_SSL_CA_ACCEPT_SELF_SIGNED),
      (''ssl_cert_file'', None, True, TAG_SSL_CERT_FILE),
      (''ssl_dh_params_file'', None, True, TAG_SSL_DH_PARAMS_FILE),
      (''ssl_cert_accept_expired'', None, False, TAG_SSL_CERT_ACCEPT_EXPIRED),
      (''ssl_cert_accept_not_yet_valid'', None, False, TAG_SSL_CERT_ACCEPT_NOT_YET_VALID),
      (''ssl_cert_accept_self_signed'', None, False, TAG_SSL_CERT_ACCEPT_SELF_SIGNED),
      (''ssl_cert_verify_depth'', None, True, TAG_SSL_CERT_VERIFY_DEPTH),
      (''ssl_key_file'', None, True, TAG_SSL_KEY_FILE),
      (''ssl_listen_ciphers'', None, True, TAG_SSL_LISTEN_CIPHERS),
      (''ssl_outgoing_ciphers'', None, True, TAG_SSL_OUTGOING_CIPHERS),
      (''ssl_no_cert_verify'', None, False, TAG_SSL_NO_CERT_VERIFY),
      (''ssl_no_client_cert_verify'', None, False, TAG_SSL_NO_CLIENT_CERT_VERIFY),
      (''ssl_no_cn_verify'', None, False, TAG_SSL_NO_CN_VERIFY),
      (''ssl_passphrase_fd'', None, True, TAG_SSL_PASSPHRASE_FD),
      (''ssl_passphrase_file'', None, True, TAG_SSL_PASSPHRASE_FILE),
      (''ssl_listen_min_proto_version'', None, True, TAG_SSL_LISTEN_MIN_PROTO_VERSION),
      (''ssl_outgoing_min_proto_version'', None, True, TAG_SSL_OUTGOING_MIN_PROTO_VERSION),
      (''ssl_listen_max_proto_version'', None, True, TAG_SSL_LISTEN_MAX_PROTO_VERSION),
      (''ssl_outgoing_max_proto_version'', None, True, TAG_SSL_OUTGOING_MAX_PROTO_VERSION),
      (''ssl_listen_compression'', None, False, TAG_SSL_LISTEN_COMPRESSION),
      (''ssl_outgoing_compression'', None, False, TAG_SSL_OUTGOING_COMPRESSION),
      (''ssl_no_cipher_server_preference'', None, False, TAG_SSL_NO_CIPHER_SERVER_PREFERENCE)]"

text \<open>The second mask is not cleared with the others.\<close>

definition options_clear_masks :: "flag_t \<Rightarrow> options \<Rightarrow> options" where
  "options_clear_masks f opt = (if f AND OPT_CLEAR_MASK \<noteq> 0 then opt\<lparr>opt_mask := 0, opt_ssl_mask := 0\<rparr> else opt)"

definition options_end :: "flag_t \<Rightarrow> int \<Rightarrow> string list \<Rightarrow> options \<Rightarrow> opt_step option" where
  "options_end f c trailing opt =
     (if c < -1 then Some (opt_err f opt)
      else if trailing \<noteq> [] then Some (Opt_exit (-1))
      else do { dd \<leftarrow> opt_domain_delimiter opt; Some (Opt_return 0 (opt\<lparr>opt_domain_delimiter_length := int (length dd)\<rparr>)) })"

definition options_parse :: "opt_env \<Rightarrow> string list \<Rightarrow> flag_t \<Rightarrow> options \<Rightarrow> opt_step option" where
  "options_parse E argv f opt =
     (case argv of
        [] \<Rightarrow> Some (Opt_return 0 opt)
      | arg0 # _ \<Rightarrow>
          do { basename \<leftarrow> str_basename (Some arg0);
               let opt1 = options_clear_masks f (if f AND OPT_SET_DEFAULT \<noteq> 0 then options_default E f basename opt else opt);
               case oe_popt E options_table argv of
                 (evs, c, trailing) \<Rightarrow>
                   opt_then (opt_events E f evs opt1)
                     (\<lambda>o2. opt_then (ssl_passphrase_check f o2)
                     (\<lambda>o3. opt_then (listen_versions_check f o3)
                     (\<lambda>o4. opt_then (outgoing_versions_check f o4) (options_end f c trailing)))) })"

text \<open>The result of the second call of \<open>options\<close>, and of the first one in \<open>main\<close>, is ignored.\<close>

definition opt_ignore :: "opt_step option \<Rightarrow> opt_step option" where
  "opt_ignore r = (case r of Some (Opt_return n opt) \<Rightarrow> Some (Opt_next opt) | _ \<Rightarrow> r)"

definition config_file_to_opt :: "opt_env \<Rightarrow> string option \<Rightarrow> options \<Rightarrow> opt_step option" where
  "config_file_to_opt E filename opt =
     (case filename of
        None \<Rightarrow> Some (Opt_next opt)
      | Some n \<Rightarrow>
          if n = [] then Some (Opt_next opt)
          else case oe_config_read E n of
                 None \<Rightarrow> Some (Opt_next opt)
               | Some a \<Rightarrow> opt_ignore (options_parse E a (OPT_USE_MASK OR OPT_FILE) opt))"

definition main_options :: "opt_env \<Rightarrow> string list \<Rightarrow> opt_step option" where
  "main_options E argv =
     opt_then (opt_ignore (options_parse E argv OPT_FIRST_CALL options_zero))
       (\<lambda>opt. if opt_config_file opt \<noteq> None then config_file_to_opt E (opt_config_file opt) opt else Some (Opt_next opt))"

subsection \<open>What an option does to the masks\<close>

definition mask_le :: "options \<Rightarrow> options \<Rightarrow> bool" where
  "mask_le opt opt' \<longleftrightarrow> (\<forall>m k. get_mask m opt AND k = k \<longrightarrow> get_mask m opt' AND k = k)"

lemma mask_le_refl [simp]: "mask_le opt opt"
  by (simp add: mask_le_def)

lemma mask_le_trans: "mask_le a b \<Longrightarrow> mask_le b c \<Longrightarrow> mask_le a c"
  by (simp add: mask_le_def)

lemma get_set_mask [simp]: "get_mask m' (set_mask m v opt) = (if m = m' then v else get_mask m' opt)"
  by (cases m; cases m') simp_all

lemma or_and_self: "(a OR k) AND k = (k :: flag_t)" "a AND k = k \<Longrightarrow> (a OR b) AND k = k"
  by (auto simp: bit_eq_iff bit_and_iff bit_or_iff)

lemma options_set_mask_le: "mask_le opt (snd (options_set_mask m k f opt))"
  by (auto simp: options_set_mask_def mask_le_def or_and_self)

lemma options_set_mask_sets:
  "f AND OPT_USE_MASK = 0 \<Longrightarrow> f AND OPT_SET_MASK \<noteq> 0 \<Longrightarrow>
     fst (options_set_mask m k f opt) \<and> get_mask m (snd (options_set_mask m k f opt)) AND k = k"
  by (simp add: options_set_mask_def or_and_self)

lemma options_set_mask_masked:
  "f AND OPT_USE_MASK \<noteq> 0 \<Longrightarrow> get_mask m opt AND k \<noteq> 0 \<Longrightarrow> options_set_mask m k f opt = (False, opt)"
  by (simp add: options_set_mask_def)

definition keeps_masks :: "'a member \<Rightarrow> bool" where
  "keeps_masks upd \<longleftrightarrow> (\<forall>g opt m. get_mask m (upd g opt) = get_mask m opt)"

lemma keeps_masksI: "(\<And>g opt. opt_mask (upd g opt) = opt_mask opt \<and> opt_mask2 (upd g opt) = opt_mask2 opt \<and>
    opt_ssl_mask (upd g opt) = opt_ssl_mask opt) \<Longrightarrow> keeps_masks upd"
  unfolding keeps_masks_def by (intro allI, case_tac m) simp_all

lemma keeps_masks_p: "(c, upd, m, k) \<in> set opt_p_table \<Longrightarrow> keeps_masks upd"
  unfolding opt_p_table_def opt_p_cases_def opt_ssl_p_cases_def by (rule keeps_masksI) auto

lemma keeps_masks_i: "(c, upd, m, k) \<in> set (opt_i_table @ opt_number_cases) \<Longrightarrow> keeps_masks upd"
  unfolding opt_i_table_def opt_i_cases_def opt_ssl_i_cases_def opt_number_cases_def by (rule keeps_masksI) auto


lemma opt_p_le: "keeps_masks upd \<Longrightarrow> mask_le opt (opt_p upd v m k f opt)"
  using options_set_mask_le [of opt m k f]
  by (auto simp: opt_p_def mask_le_def keeps_masks_def split: prod.split)

lemma opt_i_le: "keeps_masks upd \<Longrightarrow> mask_le opt (opt_i upd v m k f opt)"
  using options_set_mask_le [of opt m k f]
  by (auto simp: opt_i_def mask_le_def keeps_masks_def split: prod.split)

lemma opt_p_sets:
  "keeps_masks upd \<Longrightarrow> f AND OPT_USE_MASK = 0 \<Longrightarrow> f AND OPT_SET_MASK \<noteq> 0 \<Longrightarrow> get_mask m (opt_p upd v m k f opt) AND k = k"
  using options_set_mask_sets [of f m k opt] by (auto simp: opt_p_def keeps_masks_def split: prod.split)

lemma opt_i_sets:
  "keeps_masks upd \<Longrightarrow> f AND OPT_USE_MASK = 0 \<Longrightarrow> f AND OPT_SET_MASK \<noteq> 0 \<Longrightarrow> get_mask m (opt_i upd v m k f opt) AND k = k"
  using options_set_mask_sets [of f m k opt] by (auto simp: opt_i_def keeps_masks_def split: prod.split)

lemma opt_masked:
  assumes "f AND OPT_USE_MASK \<noteq> 0" and "get_mask m opt AND k \<noteq> 0"
  shows "opt_p upd v m k f opt = opt" and "opt_i upd' n m k f opt = opt" and "opt_i_or get upd' n m k f opt = opt"
  using options_set_mask_masked [OF assms] by (simp_all add: opt_p_def opt_i_def opt_i_or_def)

text \<open>The bit that guards an option, for the options that are guarded by one.\<close>

definition event_bit :: "int \<Rightarrow> (mask_id \<times> flag_t) option" where
  "event_bit c =
     (case map_of opt_p_table c of Some x \<Rightarrow> Some (snd x)
      | None \<Rightarrow> (case map_of opt_i_table c of Some x \<Rightarrow> Some (snd x)
      | None \<Rightarrow> (case map_of opt_number_cases c of Some x \<Rightarrow> Some (snd x)
      | None \<Rightarrow> map_of [(ord_of CHR ''P'', (Mask, MASK_PROTOCOL)), (ord_of CHR ''S'', (Mask, MASK_STRIP_DOMAIN)),
            (TAG_LOWER_CASE, (Mask, MASK_LOWER_CASE)), (TAG_PID_FILE, (Mask2, MASK2_PID_FILE)),
            (TAG_LOG_PASSWD, (Mask2, MASK2_LOG_PASSWD)), (TAG_SSL_MODE, (Ssl_mask, MASK_SSL_MODE)),
            (TAG_SSL_CERT_VERIFY_DEPTH, (Ssl_mask, MASK_SSL_CERT_VERIFY_DEPTH))] c)))"

text \<open>What a step does to the state, if it does not end the process.\<close>

definition steps :: "(options \<Rightarrow> bool) \<Rightarrow> opt_step option \<Rightarrow> bool" where
  "steps P r \<longleftrightarrow> (\<forall>o'. r = Some (Opt_next o') \<longrightarrow> P o')"

lemma steps_simps [simp]:
  "steps P None" "steps P (Some (Opt_exit n))" "steps P (Some (Opt_return n opt))" "steps P (Some (Opt_next opt)) = P opt"
  by (simp_all add: steps_def)

lemma steps_opt_err [simp]: "steps P (Some (opt_err f opt))"
  by (simp add: opt_err_def)

lemma steps_complain: "P opt \<Longrightarrow> steps P (Some (opt_complain f opt))"
  by (simp add: opt_complain_def)

lemma steps_then: "steps (\<lambda>o1. steps P (g o1)) r \<Longrightarrow> steps P (opt_then r g)"
  by (cases "(r, g)" rule: opt_then.cases) (auto simp: steps_def)

lemma steps_mono: "steps P r \<Longrightarrow> (\<And>o'. P o' \<Longrightarrow> Q o') \<Longrightarrow> steps Q r"
  by (auto simp: steps_def)

lemma steps_bind: "(\<And>x. r = Some x \<Longrightarrow> steps P (g x)) \<Longrightarrow> steps P (r \<bind> g)"
  by (cases r) simp_all

lemma steps_if: "(c \<Longrightarrow> steps P r) \<Longrightarrow> (\<not> c \<Longrightarrow> steps P s) \<Longrightarrow> steps P (if c then r else s)"
  by simp

lemma steps_words:
  "(\<And>w o1. Q o1 \<Longrightarrow> steps Q (g w o1)) \<Longrightarrow> Q opt \<Longrightarrow> steps Q (opt_words g ws opt)"
  by (induction ws arbitrary: opt) (auto intro!: steps_then intro: steps_mono [where P = Q])

text \<open>
  What holds between the options before and after every option, if it holds of each assignment:
  a frame.
\<close>

locale option_frame =
  fixes R :: "options \<Rightarrow> options \<Rightarrow> bool"
  assumes refl: "R opt opt"
    and trans: "R o1 o2 \<Longrightarrow> R o2 o3 \<Longrightarrow> R o1 o3"
    and mask: "R opt (snd (options_set_mask m k f opt))"
    and p_member: "(c, upd, m, k) \<in> set opt_p_table \<Longrightarrow> R opt (upd g opt)"
    and i_member: "(c', upd', m, k) \<in> set (opt_i_table @ opt_number_cases) \<Longrightarrow> R opt (upd' g' opt)"
    and other: "R opt (opt_add_domain_update h opt)" "R opt (opt_strip_domain_update h opt)" "R opt (opt_lower_case_update h opt)"
      "R opt (opt_config_file_update h2 opt)" "R opt (opt_protocol_update h opt)" "R opt (opt_pid_file_update h2 opt)"
      "R opt (opt_log_passwd_update h opt)" "R opt (opt_ssl_cert_verify_depth_update h opt)"
      "R opt (opt_bind_address_update h3 opt)" "R opt (opt_outgoing_server_update h3 opt)"
      "R opt (opt_query_key_update h4 opt)" "R opt (opt_add_domain_strip_depth_update h5 opt)"
begin

definition framed :: "'a member \<Rightarrow> bool" where
  "framed upd \<longleftrightarrow> (\<forall>g opt. R opt (upd g opt))"

lemma framed_others:
  "framed opt_add_domain_update" "framed opt_strip_domain_update" "framed opt_lower_case_update" "framed opt_config_file_update"
  "framed opt_protocol_update" "framed opt_pid_file_update" "framed opt_log_passwd_update"
  "framed opt_ssl_cert_verify_depth_update"
  by (simp_all add: framed_def other)

lemma framed_tables:
  "map_of opt_p_table c = Some (upd, m, k) \<Longrightarrow> framed upd"
  "map_of opt_i_table c = Some (upd', m, k) \<Longrightarrow> framed upd'"
  "map_of opt_number_cases c = Some (upd', m, k) \<Longrightarrow> framed upd'"
  unfolding framed_def by (blast dest: map_of_SomeD intro: p_member i_member [of c _ m k])
    (use i_member in \<open>fastforce dest: map_of_SomeD\<close>)+

lemma framed_capabilities:
  "framed opt_imap_capability_update" "framed opt_managesieve_capability_update" "framed opt_pop_capability_update"
proof -
  have m: "(TAG_IMAP_CAPABILITY, opt_imap_capability_update, Mask2, MASK2_IMAP_CAPABILITY) \<in> set opt_p_table"
    "(TAG_MANAGESIEVE_CAPABILITY, opt_managesieve_capability_update, Mask2, MASK2_MANAGESIEVE_CAPABILITY) \<in> set opt_p_table"
    "(TAG_POP_CAPABILITY, opt_pop_capability_update, Mask2, MASK2_POP_CAPABILITY) \<in> set opt_p_table"
    by (simp_all add: opt_p_table_def opt_p_cases_def)
  show "framed opt_imap_capability_update" "framed opt_managesieve_capability_update" "framed opt_pop_capability_update"
    using m [THEN p_member] by (simp_all add: framed_def)
qed

lemma frame_p: "framed upd \<Longrightarrow> R opt (opt_p upd v m k f opt)"
  using mask [of opt m k f] by (auto simp: opt_p_def framed_def split: prod.split intro: trans)

lemma frame_i: "framed upd \<Longrightarrow> R opt (opt_i upd v m k f opt)"
  using mask [of opt m k f] by (auto simp: opt_i_def framed_def split: prod.split intro: trans)

lemma frame_modify: "framed upd \<Longrightarrow> steps (R opt) (OPT_MODIFY_USERNAME get upd k f w opt)"
  by (auto simp: OPT_MODIFY_USERNAME_def opt_i_or_def refl intro: frame_i steps_complain)

lemma frame_words:
  assumes "\<And>w o1. steps (R o1) (g w o1)"
  shows "steps (R opt) (opt_words g ws opt)"
  by (rule steps_words) (auto intro: steps_mono [OF assms] trans refl)

lemma frame_add_domain: "steps (R opt) (OPT_ADD_DOMAIN E f w opt)"
  by (cases "oe_is_digit E w")
    (auto simp: OPT_ADD_DOMAIN_def framed_others other intro!: frame_modify steps_bind)

lemma frame_capability: "framed upd \<Longrightarrow> R opt (opt_capability upd k f arg opt)"
  using mask [of opt Mask2 k f] frame_p by (auto simp: opt_capability_def split: prod.split intro: trans)

lemma frame_capabilities:
  "R opt (opt_capability opt_pop_capability_update k f arg
      (opt_capability opt_managesieve_capability_update k' f arg (opt_capability opt_imap_capability_update k'' f arg opt)))"
  by (intro trans [OF frame_capability trans [OF frame_capability frame_capability]] framed_capabilities)

lemma frame_lists:
  "steps (R opt) (opt_bind_address_case f arg opt)" "steps (R opt) (opt_outgoing_server_case f arg opt)"
  "steps (R opt) (opt_query_key_case E f arg opt)"
  using mask [of opt Mask f MASK_BIND_ADDRESS] mask [of opt Mask f MASK_OUTGOING_SERVER] mask [of opt Mask f MASK_QUERY_KEY]
  unfolding opt_bind_address_case_def opt_outgoing_server_case_def opt_query_key_case_def
  by (auto split: prod.split intro!: steps_bind intro: trans [OF _ other(9)] trans [OF _ other(10)] trans [OF _ other(11)])

lemma frame_single:
  "steps (R opt) (opt_protocol_case f arg opt)" "steps (R opt) (opt_pid_file_case f arg opt)"
  "steps (R opt) (opt_log_passwd_case f arg opt)"
  unfolding opt_protocol_case_def opt_pid_file_case_def opt_log_passwd_case_def Let_def
  by (auto intro!: steps_bind frame_i frame_p framed_others)

lemma frame_number: "framed upd \<Longrightarrow> steps (R opt) (opt_number E upd m k f arg opt)"
  unfolding opt_number_def by (intro steps_bind steps_if) (simp_all add: frame_i)

lemma frame_other:
  assumes "c \<noteq> TAG_SSL_MODE \<or> (\<forall>w o1. steps (R o1) (OPT_SSL_MODE f w o1))"
  shows "steps (R opt) (opt_other E f c arg opt)"
  unfolding opt_other_def
  by (intro steps_if frame_lists frame_single steps_bind frame_words frame_add_domain frame_modify framed_others)
    (use assms in \<open>simp_all add: frame_p frame_i frame_capabilities framed_others refl\<close>)

lemma frame_event:
  assumes "fst ev \<noteq> TAG_SSL_MODE \<or> (\<forall>w o1. steps (R o1) (OPT_SSL_MODE f w o1))"
  shows "steps (R opt) (opt_event E f ev opt)"
proof (cases ev)
  case (Pair c arg)
  then show ?thesis using frame_other [of c f opt E arg] assms unfolding Pair opt_event_def
    by (auto split: option.split simp: frame_p frame_i frame_number framed_tables)
qed

end

text \<open>No option takes a bit out of a mask.\<close>

lemma mask_leI:
  "opt_mask b = opt_mask a \<Longrightarrow> opt_mask2 b = opt_mask2 a \<Longrightarrow> opt_ssl_mask b = opt_ssl_mask a \<Longrightarrow> mask_le a b"
  unfolding mask_le_def by (intro allI, case_tac m) simp_all

lemma mask_le_update: "keeps_masks upd \<Longrightarrow> mask_le opt (upd g opt)"
  by (simp add: mask_le_def keeps_masks_def)

interpretation masks: option_frame mask_le
proof
  show "mask_le opt (upd g opt)" if "(c, upd, m, k) \<in> set opt_p_table" for c upd m k g opt
    using that by (rule mask_le_update [OF keeps_masks_p])
  show "mask_le opt (upd g opt)" if "(c, upd, m, k) \<in> set (opt_i_table @ opt_number_cases)" for c upd m k g opt
    using that by (rule mask_le_update [OF keeps_masks_i])
qed ((rule mask_le_refl | rule options_set_mask_le | (erule (1) mask_le_trans) | (rule mask_leI; simp))+)

subsection \<open>The command line against the configuration file\<close>

lemma event_bit_cases:
  assumes "event_bit c = Some (m, k)"
  obtains (p) upd where "map_of opt_p_table c = Some (upd, m, k)"
  | (i) upd where "map_of opt_p_table c = None" "map_of opt_i_table c = Some (upd, m, k)"
  | (n) upd where "map_of opt_p_table c = None" "map_of opt_i_table c = None" "map_of opt_number_cases c = Some (upd, m, k)"
  | (other) "map_of opt_p_table c = None" "map_of opt_i_table c = None" "map_of opt_number_cases c = None"
      "(c, m, k) \<in> {(ord_of CHR ''P'', Mask, MASK_PROTOCOL), (ord_of CHR ''S'', Mask, MASK_STRIP_DOMAIN),
            (TAG_LOWER_CASE, Mask, MASK_LOWER_CASE), (TAG_PID_FILE, Mask2, MASK2_PID_FILE),
            (TAG_LOG_PASSWD, Mask2, MASK2_LOG_PASSWD), (TAG_SSL_MODE, Ssl_mask, MASK_SSL_MODE),
            (TAG_SSL_CERT_VERIFY_DEPTH, Ssl_mask, MASK_SSL_CERT_VERIFY_DEPTH)}"
  using assms by (auto simp: event_bit_def split: option.splits if_splits)

lemma event_bit_nonzero: "event_bit c = Some (m, k) \<Longrightarrow> k \<noteq> 0"
proof (erule event_bit_cases)
  have p: "\<forall>x\<in>set opt_p_table. snd (snd (snd x)) \<noteq> 0" by code_simp
  have i: "\<forall>x\<in>set opt_i_table. snd (snd (snd x)) \<noteq> 0" by code_simp
  have n: "\<forall>x\<in>set opt_number_cases. snd (snd (snd x)) \<noteq> 0" by code_simp
  show "map_of opt_p_table c = Some (upd, m, k) \<Longrightarrow> k \<noteq> 0" for upd using p by (force dest: map_of_SomeD)
  show "map_of opt_i_table c = Some (upd, m, k) \<Longrightarrow> k \<noteq> 0" for upd using i by (force dest: map_of_SomeD)
  show "map_of opt_number_cases c = Some (upd, m, k) \<Longrightarrow> k \<noteq> 0" for upd using n by (force dest: map_of_SomeD)
qed (auto simp: mask_defs)

lemma opt_other_simps:
  "opt_other E f (ord_of CHR ''P'') arg opt = opt_protocol_case f arg opt"
  "opt_other E f (ord_of CHR ''S'') arg opt =
     do { a \<leftarrow> arg; opt_words (OPT_MODIFY_USERNAME opt_strip_domain opt_strip_domain_update MASK_STRIP_DOMAIN f) (comma_split a) opt }"
  "opt_other E f TAG_LOWER_CASE arg opt =
     do { a \<leftarrow> arg; opt_words (OPT_MODIFY_USERNAME opt_lower_case opt_lower_case_update MASK_LOWER_CASE f) (comma_split a) opt }"
  "opt_other E f TAG_PID_FILE arg opt = opt_pid_file_case f arg opt"
  "opt_other E f TAG_LOG_PASSWD arg opt = opt_log_passwd_case f arg opt"
  "opt_other E f TAG_SSL_MODE arg opt = do { a \<leftarrow> arg; opt_words (OPT_SSL_MODE f) (comma_split a) opt }"
  "opt_other E f TAG_SSL_CERT_VERIFY_DEPTH arg opt =
     do { a \<leftarrow> arg; n \<leftarrow> c_atoi a;
          Some (Opt_next (opt_i opt_ssl_cert_verify_depth_update n Ssl_mask MASK_SSL_CERT_VERIFY_DEPTH f opt)) }"
  by (simp_all add: opt_other_def ord_of_def ascii_def tag_defs)

text \<open>On the command line every guarded option sets its bit.\<close>

lemma first_call_flags: "OPT_FIRST_CALL AND OPT_USE_MASK = 0" "OPT_FIRST_CALL AND OPT_SET_MASK \<noteq> 0" "OPT_FIRST_CALL AND OPT_ERR \<noteq> 0"
  by code_simp+

abbreviation bit_set :: "mask_id \<Rightarrow> flag_t \<Rightarrow> options \<Rightarrow> bool" where
  "bit_set m k opt \<equiv> get_mask m opt AND k = k"

lemma keeps_masks_tables:
  "map_of opt_p_table c = Some (upd, m, k) \<Longrightarrow> keeps_masks upd"
  "map_of opt_i_table c = Some (upd', m, k) \<Longrightarrow> keeps_masks upd'"
  "map_of opt_number_cases c = Some (upd', m, k) \<Longrightarrow> keeps_masks upd'"
  by (rule keeps_masks_p [of c upd m k] keeps_masks_i [of c upd' m k]; use map_of_SomeD in fastforce)+

lemma keeps_masks_others:
  "keeps_masks opt_strip_domain_update" "keeps_masks opt_lower_case_update" "keeps_masks opt_ssl_mode_update"
  "keeps_masks opt_protocol_update" "keeps_masks opt_pid_file_update" "keeps_masks opt_log_passwd_update"
  "keeps_masks opt_ssl_cert_verify_depth_update"
  by (rule keeps_masksI, simp)+

lemmas first_call_sets = opt_p_sets [OF _ first_call_flags(1,2)] opt_i_sets [OF _ first_call_flags(1,2)]

lemma modify_sets: "keeps_masks upd \<Longrightarrow> steps (bit_set Mask k) (OPT_MODIFY_USERNAME get upd k OPT_FIRST_CALL w opt)"
  using first_call_flags by (auto simp: OPT_MODIFY_USERNAME_def opt_i_or_def opt_complain_def first_call_sets simp del: get_mask.simps)

lemma mode_sets: "steps (bit_set Ssl_mask MASK_SSL_MODE) (OPT_SSL_MODE OPT_FIRST_CALL w opt)"
  by (auto simp: OPT_SSL_MODE_def Let_def opt_i_or_def first_call_sets keeps_masks_others simp del: get_mask.simps)

lemma comma_split_not_Nil [simp]: "comma_split s \<noteq> []"
  by (induction s) (auto split: list.splits)

lemma words_sets:
  assumes "\<And>w o1. steps P (g w o1)" and "ws \<noteq> []"
  shows "steps P (opt_words g ws opt)"
  using assms(2)
proof (induction ws arbitrary: opt)
  case (Cons w ws)
  show ?case unfolding opt_words.simps
  proof (rule steps_then, rule steps_mono [OF assms(1)])
    show "P o1 \<Longrightarrow> steps P (opt_words g ws o1)" for o1 using Cons.IH by (cases "ws = []") simp_all
  qed
qed simp

lemma opt_event_sets:
  assumes "event_bit c = Some (m, k)"
  shows "steps (bit_set m k) (opt_event E OPT_FIRST_CALL (c, arg) opt)"
  using assms
proof (cases rule: event_bit_cases)
  case other
  then show ?thesis
    by (auto simp: opt_event_def opt_other_simps opt_protocol_case_def opt_pid_file_case_def opt_log_passwd_case_def Let_def
        first_call_sets keeps_masks_others simp del: get_mask.simps intro!: steps_bind words_sets modify_sets mode_sets)
qed (auto simp: opt_event_def opt_number_def first_call_sets keeps_masks_tables intro!: steps_bind)

lemma opt_event_mask_le: "steps (mask_le opt) (opt_event E f ev opt)"
proof (rule masks.frame_event, intro disjI2 allI)
  show "steps (mask_le o1) (OPT_SSL_MODE f w o1)" for w o1
    by (auto simp: OPT_SSL_MODE_def Let_def opt_i_or_def intro!: masks.frame_i
        simp: masks.framed_def mask_le_update keeps_masks_others)
qed

lemma opt_events_mask_le: "steps (mask_le opt) (opt_events E f evs opt)"
proof (induction evs arbitrary: opt)
  case (Cons ev evs)
  then show ?case
    by (auto intro!: steps_then intro: steps_mono [OF opt_event_mask_le] steps_mono [OF Cons] mask_le_trans)
qed simp

lemma opt_events_sets:
  "steps (\<lambda>o1. \<forall>c m k. c \<in> fst ` set evs \<longrightarrow> event_bit c = Some (m, k) \<longrightarrow> bit_set m k o1) (opt_events E OPT_FIRST_CALL evs opt)"
proof (induction evs arbitrary: opt)
  case (Cons ev evs)
  have a: "steps (\<lambda>o1. \<forall>m k. event_bit (fst ev) = Some (m, k) \<longrightarrow> bit_set m k o1) (opt_event E OPT_FIRST_CALL ev opt)"
    using opt_event_sets [of "fst ev" _ _ E "snd ev" opt] by (auto simp: steps_def)
  show ?case unfolding opt_events.simps
  proof (rule steps_then, rule steps_mono [OF a])
    fix o1 assume "\<forall>m k. event_bit (fst ev) = Some (m, k) \<longrightarrow> bit_set m k o1"
    then show "steps (\<lambda>o1. \<forall>c m k. c \<in> fst ` set (ev # evs) \<longrightarrow> event_bit c = Some (m, k) \<longrightarrow> bit_set m k o1)
        (opt_events E OPT_FIRST_CALL evs o1)"
      using Cons [of o1] opt_events_mask_le [of o1 E OPT_FIRST_CALL evs] by (auto simp: steps_def mask_le_def)
  qed
qed simp

text \<open>An option whose bit is set changes nothing where the masks count.\<close>

lemma opt_event_masked:
  assumes f: "f AND OPT_USE_MASK \<noteq> 0" and b: "event_bit c = Some (m, k)" and s: "get_mask m opt AND k \<noteq> 0"
  shows "steps (\<lambda>o1. o1 = opt) (opt_event E f (c, arg) opt)"
  using b
proof (cases rule: event_bit_cases)
  case other
  note mm = opt_masked [OF f]
  have w: "steps (\<lambda>o1. o1 = opt) (opt_words (OPT_MODIFY_USERNAME get upd k f) ws opt)" if "m = Mask" for get upd ws
    using s that by (intro steps_words) (auto simp: OPT_MODIFY_USERNAME_def mm intro: steps_complain)
  have x: "steps (\<lambda>o1. o1 = opt) (opt_words (OPT_SSL_MODE f) ws opt)" if "m = Ssl_mask" "k = MASK_SSL_MODE" for ws
    using s that by (intro steps_words) (auto simp: OPT_SSL_MODE_def Let_def mm)
  show ?thesis using other s w x
    by (auto simp: opt_event_def opt_other_simps opt_protocol_case_def opt_pid_file_case_def opt_log_passwd_case_def Let_def mm
        simp del: get_mask.simps intro!: steps_bind)
qed (use s in \<open>auto simp: opt_event_def opt_number_def opt_masked [OF f] intro!: steps_bind\<close>)

lemma opt_then_next: "opt_then r g = Some (Opt_next o2) \<longleftrightarrow> (\<exists>o1. r = Some (Opt_next o1) \<and> g o1 = Some (Opt_next o2))"
  by (cases "(r, g)" rule: opt_then.cases) auto

text \<open>The options that set \<open>ssl_mode\<close> apart, none changes it.\<close>

interpretation mode: option_frame "\<lambda>a b. opt_ssl_mode b = opt_ssl_mode a"
proof
  show "opt_ssl_mode (upd g opt) = opt_ssl_mode opt" if "(c, upd, m, k) \<in> set opt_p_table" for c upd m k g opt
    using that unfolding opt_p_table_def opt_p_cases_def opt_ssl_p_cases_def by auto
  show "opt_ssl_mode (upd g opt) = opt_ssl_mode opt" if "(c, upd, m, k) \<in> set (opt_i_table @ opt_number_cases)" for c upd m k g opt
    using that unfolding opt_i_table_def opt_i_cases_def opt_ssl_i_cases_def opt_number_cases_def by auto
  show "opt_ssl_mode (snd (options_set_mask m k f opt)) = opt_ssl_mode opt" for m k f opt
    by (cases m) (simp_all add: options_set_mask_def)
qed simp_all

definition ssl_mode_ok :: "int \<Rightarrow> bool" where
  "ssl_mode_ok mode \<longleftrightarrow> mode AND SSL_LISTEN_MASK \<noteq> SSL_LISTEN_MASK \<and> mode AND SSL_OUTGOING_MASK \<noteq> SSL_OUTGOING_MASK"

lemma mode_word_ok:
  assumes "ssl_mode_ok (opt_ssl_mode opt)" "f AND OPT_ERR \<noteq> 0"
  shows "steps (\<lambda>o1. ssl_mode_ok (opt_ssl_mode o1)) (OPT_SSL_MODE f w opt)"
proof -
  have s: "ssl_mode_ok (opt_ssl_mode (snd (options_set_mask m k f opt)))" for m k
    using assms(1) mode.mask [of m k f opt] by simp
  have none: "ssl_mode_ok (SSL_MODE_NONE OR SSL_MODE_NONE)" "ssl_mode_ok (SSL_MODE_NONE OR SSL_MODE_EMPTY)" by code_simp+
  show ?thesis using assms s [of Ssl_mask MASK_SSL_MODE] none mode.mask [of Ssl_mask MASK_SSL_MODE f opt]
    by (auto simp: OPT_SSL_MODE_def Let_def opt_i_or_def opt_i_def or.commute split: prod.split option.splits)
      (auto simp: ssl_mode_ok_def or.commute)
qed

text \<open>What every word of the option for the modes keeps, every option keeps.\<close>

lemma event_mode_inv:
  assumes "\<And>w opt. I (opt_ssl_mode opt) \<Longrightarrow> steps (\<lambda>o1. I (opt_ssl_mode o1)) (OPT_SSL_MODE f w opt)"
    and "I (opt_ssl_mode opt)"
  shows "steps (\<lambda>o1. I (opt_ssl_mode o1)) (opt_event E f ev opt)"
proof (cases "fst ev = TAG_SSL_MODE")
  case True
  have n: "map_of opt_p_table TAG_SSL_MODE = None" "map_of opt_i_table TAG_SSL_MODE = None" "map_of opt_number_cases TAG_SSL_MODE = None"
    by (simp_all add: map_of_eq_None_iff opt_p_table_def opt_p_cases_def opt_ssl_p_cases_def opt_i_table_def opt_i_cases_def
        opt_ssl_i_cases_def opt_number_cases_def tag_defs ord_of_def ascii_def)
  have "steps (\<lambda>o1. I (opt_ssl_mode o1)) (opt_words (OPT_SSL_MODE f) ws opt)" for ws
    by (rule steps_words) (use assms in auto)
  then show ?thesis using True by (cases ev) (auto simp: opt_event_def n opt_other_simps intro!: steps_bind)
next
  case False
  then show ?thesis using steps_mono [OF mode.frame_event [OF disjI1]] assms(2) by simp
qed

lemma events_mode_inv:
  assumes "\<And>w opt. I (opt_ssl_mode opt) \<Longrightarrow> steps (\<lambda>o1. I (opt_ssl_mode o1)) (OPT_SSL_MODE f w opt)"
    and "I (opt_ssl_mode opt)"
  shows "steps (\<lambda>o1. I (opt_ssl_mode o1)) (opt_events E f evs opt)"
  using assms(2)
proof (induction evs arbitrary: opt)
  case (Cons ev evs)
  then show ?case by (auto intro!: steps_then intro: steps_mono [OF event_mode_inv [OF assms(1)]])
qed simp

lemma outgoing_server_flags: "MASK_OUTGOING_SERVER AND OPT_USE_MASK = 0" "MASK_OUTGOING_SERVER AND OPT_SET_MASK = 0"
  by code_simp+

lemma opt_event_outgoing_server: "opt_event E f (ord_of CHR ''s'', arg) opt = opt_outgoing_server_case f arg opt"
proof -
  have "map_of opt_p_table (ord_of CHR ''s'') = None" "map_of opt_i_table (ord_of CHR ''s'') = None"
    "map_of opt_number_cases (ord_of CHR ''s'') = None"
    by (simp_all add: map_of_eq_None_iff opt_p_table_def opt_p_cases_def opt_ssl_p_cases_def opt_i_table_def opt_i_cases_def
        opt_ssl_i_cases_def opt_number_cases_def tag_defs ord_of_def ascii_def)
  then show ?thesis by (simp add: opt_event_def opt_other_def tag_defs ord_of_def ascii_def)
qed

text \<open>
  C13. An option given on the command line is as good as absent from the configuration file: reading the
  file gives the same options if every such line is left out. This is so for each option that is guarded by a
  bit in a mask (\<open>event_bit\<close>), and not for the others: the outgoing servers, the bind address and the query
  keys, whose bits are never looked at because two arguments are swapped, and the list of \<open>add_domain\<close>, whose
  depth is set without looking at the mask.
\<close>

theorem options_command_line_wins:
  assumes "opt_events E OPT_FIRST_CALL evs1 opt = Some (Opt_next o1)"
    and "opt_events E (OPT_USE_MASK OR OPT_FILE) evs2 o1 = Some (Opt_next o2)"
  shows "opt_events E (OPT_USE_MASK OR OPT_FILE)
           (filter (\<lambda>ev. \<not> (fst ev \<in> fst ` set evs1 \<and> event_bit (fst ev) \<noteq> None)) evs2) o1 = Some (Opt_next o2)"
proof -
  have f: "(OPT_USE_MASK OR OPT_FILE) AND OPT_USE_MASK \<noteq> 0" by code_simp
  define S where "S o1 \<longleftrightarrow> (\<forall>c m k. c \<in> fst ` set evs1 \<longrightarrow> event_bit c = Some (m, k) \<longrightarrow> bit_set m k o1)" for o1
  have "S o1" using opt_events_sets [of evs1 E opt] assms(1) by (simp add: S_def steps_def)
  then show ?thesis using assms(2)
  proof (induction evs2 arbitrary: o1)
    case (Cons ev evs2)
    obtain o' where o': "opt_event E (OPT_USE_MASK OR OPT_FILE) ev o1 = Some (Opt_next o')"
      and rest: "opt_events E (OPT_USE_MASK OR OPT_FILE) evs2 o' = Some (Opt_next o2)"
      using Cons.prems(2) by (auto simp: opt_then_next)
    have "mask_le o1 o'" using opt_event_mask_le [of o1 E _ ev] o' by (auto simp: steps_def)
    then have S': "S o'" using Cons.prems(1) by (auto simp: S_def mask_le_def)
    have "o' = o1" if "fst ev \<in> fst ` set evs1" "event_bit (fst ev) = Some (m, k)" for m k
      using opt_event_masked [OF f that(2), where opt = o1 and E = E and arg = "snd ev"] that Cons.prems(1) o' event_bit_nonzero [OF that(2)]
      by (auto simp: S_def steps_def)
    then show ?case using Cons.IH [OF S' rest] o' by (auto simp: opt_then_next)
  qed simp
qed

definition opt_demo_env :: opt_env where
  "opt_demo_env = \<lparr>oe_popt = \<lambda>_ _. ([], -1, []), oe_is_digit = \<lambda>s. list_all c_isdigit s, oe_split = \<lambda>s _. Some (comma_split s),
     oe_sysconfdir = ''/etc/perdition'', oe_localstatedir = ''/var'', oe_libdir = ''/usr/lib'', oe_group = ''nobody'',
     oe_user = ''nobody'', oe_exists = \<lambda>_. False, oe_config_read = \<lambda>_. None\<rparr>"

theorem options_command_line_wins_witness:
  "opt_events opt_demo_env (OPT_USE_MASK OR OPT_FILE)
     (filter (\<lambda>ev. \<not> (fst ev \<in> fst ` set [(ord_of CHR ''g'', Some ''mail''), (TAG_SSL_MODE, Some ''tls_listen'')] \<and>
        event_bit (fst ev) \<noteq> None))
       [(TAG_SSL_MODE, Some ''none''), (ord_of CHR ''g'', Some ''root''), (ord_of CHR ''u'', Some ''me'')])
     (options_zero\<lparr>opt_group := Some ''mail'', opt_mask := MASK_GROUP, opt_ssl_mode := SSL_MODE_TLS_LISTEN, opt_ssl_mask := MASK_SSL_MODE\<rparr>) =
   Some (Opt_next (options_zero\<lparr>opt_group := Some ''mail'', opt_mask := MASK_GROUP, opt_ssl_mode := SSL_MODE_TLS_LISTEN,
     opt_ssl_mask := MASK_SSL_MODE, opt_username := Some ''me''\<rparr>))"
proof (rule options_command_line_wins)
  show "opt_events opt_demo_env OPT_FIRST_CALL [(ord_of CHR ''g'', Some ''mail''), (TAG_SSL_MODE, Some ''tls_listen'')] options_zero =
    Some (Opt_next (options_zero\<lparr>opt_group := Some ''mail'', opt_mask := MASK_GROUP, opt_ssl_mode := SSL_MODE_TLS_LISTEN,
      opt_ssl_mask := MASK_SSL_MODE\<rparr>))" by code_simp
  show "opt_events opt_demo_env (OPT_USE_MASK OR OPT_FILE)
      [(TAG_SSL_MODE, Some ''none''), (ord_of CHR ''g'', Some ''root''), (ord_of CHR ''u'', Some ''me'')]
      (options_zero\<lparr>opt_group := Some ''mail'', opt_mask := MASK_GROUP, opt_ssl_mode := SSL_MODE_TLS_LISTEN, opt_ssl_mask := MASK_SSL_MODE\<rparr>) =
    Some (Opt_next (options_zero\<lparr>opt_group := Some ''mail'', opt_mask := MASK_GROUP, opt_ssl_mode := SSL_MODE_TLS_LISTEN,
      opt_ssl_mask := MASK_SSL_MODE, opt_username := Some ''me''\<rparr>))" by code_simp
qed

text \<open>
  The list of servers is not guarded: a list in the configuration file replaces the one given on the
  command line, and no bit of a mask is set for it. The two arguments of \<open>options_set_mask\<close> are swapped.
\<close>

lemma options_outgoing_server_unguarded:
  "opt_event E f (ord_of CHR ''s'', Some a) opt =
     (case split_str_server_port (opt_dd opt) a of
        None \<Rightarrow> None
      | Some l \<Rightarrow> Some (Opt_next (opt\<lparr>opt_outgoing_server := Some l\<rparr>)))"
  by (simp add: opt_event_outgoing_server opt_outgoing_server_case_def options_set_mask_def outgoing_server_flags split: option.split)

text \<open>
  C27. No command line that is accepted asks for SSL and TLS at once, neither for the clients nor for
  the servers.
\<close>

theorem options_ssl_mode_command_line:
  assumes "opt_events E OPT_FIRST_CALL evs opt = Some (Opt_next o1)" and "opt_ssl_mode opt = SSL_MODE_EMPTY"
  shows "opt_ssl_mode o1 AND SSL_LISTEN_MASK \<noteq> SSL_LISTEN_MASK \<and> opt_ssl_mode o1 AND SSL_OUTGOING_MASK \<noteq> SSL_OUTGOING_MASK"
proof -
  have "ssl_mode_ok SSL_MODE_EMPTY" by code_simp
  then have "ssl_mode_ok (opt_ssl_mode opt)" using assms(2) by simp
  then have "steps (\<lambda>o1. ssl_mode_ok (opt_ssl_mode o1)) (opt_events E OPT_FIRST_CALL evs opt)"
    by (intro events_mode_inv mode_word_ok [OF _ first_call_flags(3)])
  then show ?thesis using assms(1) by (simp add: steps_def ssl_mode_ok_def)
qed

theorem options_ssl_mode_command_line_witness:
  "(SSL_MODE_SSL_LISTEN OR SSL_MODE_TLS_OUTGOING) AND SSL_LISTEN_MASK \<noteq> SSL_LISTEN_MASK \<and>
   (SSL_MODE_SSL_LISTEN OR SSL_MODE_TLS_OUTGOING) AND SSL_OUTGOING_MASK \<noteq> SSL_OUTGOING_MASK"
proof -
  have "opt_events opt_demo_env OPT_FIRST_CALL [(TAG_SSL_MODE, Some ''ssl_listen,tls_outgoing'')] options_zero =
    Some (Opt_next (options_zero\<lparr>opt_ssl_mode := SSL_MODE_SSL_LISTEN OR SSL_MODE_TLS_OUTGOING, opt_ssl_mask := MASK_SSL_MODE\<rparr>))"
    by code_simp
  from options_ssl_mode_command_line [OF this] show ?thesis by (simp add: options_zero_def SSL_MODE_EMPTY_def)
qed

text \<open>A configuration file may ask for both.\<close>

lemma options_ssl_mode_file:
  "opt_words (OPT_SSL_MODE (OPT_USE_MASK OR OPT_FILE)) [''ssl_listen'', ''tls_listen''] options_zero =
     Some (Opt_next (options_zero\<lparr>opt_ssl_mode := SSL_LISTEN_MASK\<rparr>))"
  by code_simp

text \<open>The lowest version for the servers is never looked at.\<close>

lemma outgoing_min_unchecked:
  "outgoing_versions_check f (opt\<lparr>opt_ssl_outgoing_min_proto_version := v\<rparr>) =
     (case outgoing_versions_check f opt of
        Some (Opt_next o1) \<Rightarrow> Some (Opt_next (o1\<lparr>opt_ssl_outgoing_min_proto_version := v\<rparr>))
      | Some (Opt_return n o1) \<Rightarrow> Some (Opt_return n (o1\<lparr>opt_ssl_outgoing_min_proto_version := v\<rparr>))
      | r \<Rightarrow> r)"
  by (simp add: outgoing_versions_check_def proto_versions_check_def opt_err_def Let_def)

end
