(* ===== verification/Io_Select.thy ===== *)
theory Io_Select
  imports Options Io
begin

text \<open>
  Waiting for several connections (\<^verbatim>\<open>perdition/io_select.c\<close>): \<open>select\<close> with two additions. Bytes that
  the TLS library has already read count as readable, and while a connection is idle a line is
  logged every \<open>connect_relog\<close> seconds.

  The environment is a script with one entry for every call of \<open>select\<close>: the time before it, the
  descriptors the TLS library holds bytes of, and what \<open>select\<close> answers. A script that is used up
  means that the call has not come back yet: there is no result.
\<close>

type_synonym fd_set = "int set"

type_synonym timeval = "int \<times> int"

record sel_call =
  sc_now :: int
  sc_pending :: fd_set
  sc_status :: int
  sc_read :: fd_set
  sc_write :: fd_set
  sc_except :: fd_set
  sc_left :: timeval

record timed_log =
  log_str :: string
  log_time :: int

text \<open>The list holds pointers; what they point to is the function \<open>h\<close> of the definitions below.\<close>

record 'i io_select_t =
  is_fd :: "'i list"
  is_log :: "timed_log option"

subsection \<open>The list of connections\<close>

definition io_select_match_io :: "io \<Rightarrow> int \<Rightarrow> bool" where
  "io_select_match_io i fd \<longleftrightarrow> fst (io_get_rfd i) = fd \<or> fst (io_get_wfd i) = fd"

definition io_select_create :: "'i io_select_t" where
  "io_select_create = \<lparr>is_fd = [], is_log = None\<rparr>"

definition io_select_add :: "'i io_select_t \<Rightarrow> 'i \<Rightarrow> 'i io_select_t" where
  "io_select_add s i = s\<lparr>is_fd := i # is_fd s\<rparr>"

definition io_select_get :: "('i \<Rightarrow> io) \<Rightarrow> 'i io_select_t \<Rightarrow> int \<Rightarrow> 'i option" where
  "io_select_get h s fd = find (\<lambda>i. io_select_match_io (h i) fd) (is_fd s)"

text \<open>Whether the descriptor has a TLS connection.\<close>

definition io_select_get_ssl :: "('i \<Rightarrow> io) \<Rightarrow> 'i io_select_t \<Rightarrow> int \<Rightarrow> bool" where
  "io_select_get_ssl h s fd =
     (case io_select_get h s fd of None \<Rightarrow> False | Some i \<Rightarrow> io_type (h i) = Io_type_ssl)"

subsection \<open>One call of select\<close>

text \<open>
  What \<open>select\<close> is given to wait: a time, or a variable that has never been set. The descriptor sets
  are \<open>None\<close> for the null pointer.
\<close>

record sel_result =
  sr_status :: int
  sr_read :: "fd_set option"
  sr_write :: "fd_set option"
  sr_except :: "fd_set option"

definition select_sets :: "sel_call \<Rightarrow> fd_set option \<Rightarrow> fd_set option \<Rightarrow> fd_set option \<Rightarrow> sel_result" where
  "select_sets c r w e =
     \<lparr>sr_status = sc_status c, sr_read = map_option (\<lambda>_. sc_read c) r, sr_write = map_option (\<lambda>_. sc_write c) w,
      sr_except = map_option (\<lambda>_. sc_except c) e\<rparr>"

text \<open>The descriptors with bytes in the TLS library.\<close>

definition want_read :: "('i \<Rightarrow> io) \<Rightarrow> 'i io_select_t \<Rightarrow> int \<Rightarrow> fd_set option \<Rightarrow> sel_call \<Rightarrow> fd_set" where
  "want_read h s n r c =
     (case r of None \<Rightarrow> {} | Some fds \<Rightarrow> {i \<in> fds. 0 \<le> i \<and> i < n \<and> io_select_get_ssl h s i \<and> i \<in> sc_pending c})"

text \<open>The result, the time \<open>select\<close> is called with, and what is left of the time of the caller.\<close>

definition io_select_once ::
    "('i \<Rightarrow> io) \<Rightarrow> int \<Rightarrow> fd_set option \<Rightarrow> fd_set option \<Rightarrow> fd_set option \<Rightarrow> timeval option \<Rightarrow> 'i io_select_t \<Rightarrow> sel_call \<Rightarrow>
     sel_result \<times> timeval option \<times> timeval option" where
  "io_select_once h n r w e timeout s c =
     (let want = want_read h s n r c; res = select_sets c r w e
      in if want = {} then (res, timeout, Some (sc_left c))
         else if sc_status c < 0 then (res, Some (0, 0), timeout)
         else (res\<lparr>sr_status := sc_status c + int (card (want - sc_read c)), sr_read := map_option (\<lambda>x. x \<union> want) (sr_read res)\<rparr>,
               Some (0, 0), timeout))"

subsection \<open>The loop\<close>

record sel_state =
  ss_timeout :: "timeval option"
  ss_internal :: "timeval option"
  ss_log :: "timed_log option"
  ss_logged :: "string list"
  ss_waits :: "timeval option list"

text \<open>What happens before a call of \<open>select\<close>: the line is logged when it is due, and the time to wait is cut.\<close>

definition sel_relog :: "options \<Rightarrow> bool \<Rightarrow> int \<Rightarrow> sel_state \<Rightarrow> sel_state" where
  "sel_relog opt relog now st =
     (case ss_log st of
        None \<Rightarrow> st
      | Some l \<Rightarrow>
          if relog \<and> now \<ge> log_time l
          then st\<lparr>ss_logged := ss_logged st @ [log_str l], ss_log := Some (l\<lparr>log_time := now + opt_connect_relog opt\<rparr>)\<rparr>
          else st)"

definition sel_cut :: "bool \<Rightarrow> int \<Rightarrow> sel_state \<Rightarrow> sel_state" where
  "sel_cut relog now st =
     (let due = (case ss_log st of None \<Rightarrow> 0 | Some l \<Rightarrow> log_time l - now);
          cut = relog \<and> (case ss_timeout st of None \<Rightarrow> True | Some (sec, usec) \<Rightarrow> sec > due)
      in if cut
         then st\<lparr>ss_internal := Some (due, 0), ss_timeout := map_option (\<lambda>(sec, usec). (sec - due, usec)) (ss_timeout st)\<rparr>
         else case ss_timeout st of
                None \<Rightarrow> st
              | Some tv \<Rightarrow> st\<lparr>ss_internal := Some tv, ss_timeout := Some (0, 0)\<rparr>)"

fun io_select_loop ::
    "('i \<Rightarrow> io) \<Rightarrow> options \<Rightarrow> bool \<Rightarrow> int \<Rightarrow> fd_set option \<Rightarrow> fd_set option \<Rightarrow> fd_set option \<Rightarrow> 'i io_select_t \<Rightarrow> sel_state \<Rightarrow> sel_call list \<Rightarrow>
     (sel_result \<times> sel_state \<times> sel_call list) option" where
  "io_select_loop h opt relog n r w e s st [] = None"
| "io_select_loop h opt relog n r w e s st (c # cs) =
     (let st1 = sel_cut relog (sc_now c) (sel_relog opt relog (sc_now c) st)
      in case io_select_once h n r w e (ss_internal st1) s c of
           (res, waited, left) \<Rightarrow>
             let st2 = st1\<lparr>ss_internal := left, ss_waits := ss_waits st1 @ [waited]\<rparr>
             in if sr_status res \<noteq> 0 \<or> ss_timeout st2 = Some (0, 0) then Some (res, st2, cs)
                else io_select_loop h opt relog n r w e s st2 cs)"

definition add_left :: "timeval option \<Rightarrow> timeval option \<Rightarrow> timeval option" where
  "add_left timeout internal =
     (case (timeout, internal) of
        (Some (sec, usec), Some (sec', usec')) \<Rightarrow> Some (sec + sec', usec + usec')
      | _ \<Rightarrow> timeout)"

text \<open>
  The result, the time left, the log with its next time, the lines logged, and the times the calls of
  \<open>select\<close> were given.
\<close>

definition io_select ::
    "('i \<Rightarrow> io) \<Rightarrow> options \<Rightarrow> int \<Rightarrow> fd_set option \<Rightarrow> fd_set option \<Rightarrow> fd_set option \<Rightarrow> timeval option \<Rightarrow> 'i io_select_t \<Rightarrow> sel_call list \<Rightarrow>
     (sel_result \<times> timeval option \<times> 'i io_select_t \<times> string list \<times> timeval option list \<times> sel_call list) option" where
  "io_select h opt n r w e timeout s calls =
     (let relog = (case is_log s of None \<Rightarrow> False | Some l \<Rightarrow> opt_connect_relog opt \<noteq> 0 \<and> log_time l \<noteq> 0);
          st = \<lparr>ss_timeout = timeout, ss_internal = None, ss_log = is_log s, ss_logged = [], ss_waits = []\<rparr>
      in case io_select_loop h opt relog n r w e s st calls of
           None \<Rightarrow> None
         | Some (res, st', cs) \<Rightarrow>
             Some (res, add_left (ss_timeout st') (ss_internal st'), s\<lparr>is_log := ss_log st'\<rparr>, ss_logged st', ss_waits st', cs))"

subsection \<open>The time that is waited\<close>

lemma relog_timeout [simp]:
  "ss_timeout (sel_relog opt relog now st) = ss_timeout st" "ss_waits (sel_relog opt relog now st) = ss_waits st"
  "ss_internal (sel_relog opt relog now st) = ss_internal st"
  by (simp_all add: sel_relog_def split: option.split)

lemma cut_keeps [simp]:
  "ss_waits (sel_cut relog now st) = ss_waits st" "ss_log (sel_cut relog now st) = ss_log st"
  "ss_logged (sel_cut relog now st) = ss_logged st"
  by (simp_all add: sel_cut_def Let_def split: option.split)

text \<open>What is waited for now and what remains add up to the time that was left.\<close>

lemma cut_splits:
  assumes "ss_timeout st = Some (sec, usec)"
  shows "\<exists>a b a' b'. ss_internal (sel_cut relog now st) = Some (a, b) \<and> ss_timeout (sel_cut relog now st) = Some (a', b') \<and>
    a + a' = sec \<and> b + b' = usec"
  using assms by (simp add: sel_cut_def Let_def)

lemma add_left_cut:
  "add_left (ss_timeout (sel_cut relog now st)) (ss_internal (sel_cut relog now st)) = ss_timeout st"
  by (cases "ss_timeout st") (auto simp: sel_cut_def add_left_def Let_def)

lemma once_no_pending:
  "sc_pending c = {} \<Longrightarrow> io_select_once h n r w e timeout s c = (select_sets c r w e, timeout, Some (sc_left c))"
  by (simp add: io_select_once_def want_read_def Let_def split: option.split)

text \<open>The time is cut only to a part that is shorter, so that the number of calls is bounded.\<close>

definition log_ahead :: "bool \<Rightarrow> int \<Rightarrow> timed_log option \<Rightarrow> bool" where
  "log_ahead relog now l \<longleftrightarrow> (relog \<longrightarrow> (\<exists>x. l = Some x \<and> now < log_time x))"

lemma relog_ahead:
  assumes "relog \<longrightarrow> opt_connect_relog opt > 0 \<and> ss_log st \<noteq> None"
  shows "log_ahead relog now (ss_log (sel_relog opt relog now st))"
  using assms by (auto simp: sel_relog_def log_ahead_def split: option.split)

lemma cut_decreases:
  assumes "log_ahead relog now (ss_log st)" and "ss_timeout st = Some (sec, usec)"
  shows "ss_timeout (sel_cut relog now st) = Some (0, 0) \<or>
    (\<exists>sec'. ss_timeout (sel_cut relog now st) = Some (sec', usec) \<and> 0 < sec' \<and> sec' < sec)"
  using assms by (auto simp: sel_cut_def log_ahead_def Let_def)

lemma log_kept: "ss_log (sel_relog opt relog now st) = None \<longleftrightarrow> ss_log st = None"
  by (auto simp: sel_relog_def split: option.split)

lemma select_loop_terminates:
  assumes "relog \<longrightarrow> opt_connect_relog opt > 0 \<and> ss_log st \<noteq> None" and "ss_timeout st = Some (sec, usec)"
    and "nat sec < length calls"
  shows "io_select_loop h opt relog n r w e s st calls \<noteq> None"
  using assms
proof (induction calls arbitrary: st sec usec)
  case (Cons c cs)
  define st1 where "st1 = sel_cut relog (sc_now c) (sel_relog opt relog (sc_now c) st)"
  obtain res waited left where once: "io_select_once h n r w e (ss_internal st1) s c = (res, waited, left)"
    by (cases "io_select_once h n r w e (ss_internal st1) s c")
  have l1: "relog \<longrightarrow> opt_connect_relog opt > 0 \<and> ss_log st1 \<noteq> None"
    using Cons.prems(1) by (simp add: st1_def log_kept del: not_None_eq)
  have d: "ss_timeout st1 = Some (0, 0) \<or> (\<exists>sec'. ss_timeout st1 = Some (sec', usec) \<and> 0 < sec' \<and> sec' < sec)"
    using cut_decreases [OF relog_ahead [OF Cons.prems(1)], where sec = sec and usec = usec] Cons.prems(2) by (simp add: st1_def)
  show ?case
  proof (cases "sr_status res \<noteq> 0 \<or> ss_timeout st1 = Some (0, 0)")
    case True
    then show ?thesis using once by (simp add: st1_def [symmetric] Let_def)
  next
    case False
    with d obtain sec' where s: "ss_timeout st1 = Some (sec', usec)" "0 < sec'" "sec' < sec" by auto
    then have "nat sec' < length cs" using Cons.prems(3) by simp
    from Cons.IH [OF _ _ this, of "st1\<lparr>ss_internal := left, ss_waits := ss_waits st1 @ [waited]\<rparr>" usec]
    show ?thesis using False once s l1 by (simp add: st1_def [symmetric] Let_def)
  qed
qed simp

lemma select_loop_time:
  assumes "io_select_loop h opt relog n r w e s st calls = Some (res, st', rest)"
    and "\<forall>c\<in>set calls. sc_pending c = {}" and "ss_timeout st = Some (sec, usec)"
  shows "\<exists>used c ws. calls = used @ c # rest \<and> length ws = Suc (length used) \<and> ss_waits st' = ss_waits st @ map Some ws \<and>
     add_left (ss_timeout st') (ss_internal st') =
       Some (sec - sum_list (map fst ws) + fst (sc_left c), usec - sum_list (map snd ws) + snd (sc_left c))"
  using assms
proof (induction calls arbitrary: st sec usec)
  case (Cons c cs)
  define st1 where "st1 = sel_cut relog (sc_now c) (sel_relog opt relog (sc_now c) st)"
  obtain a b a' b' where ab: "ss_internal st1 = Some (a, b)" "ss_timeout st1 = Some (a', b')" "a + a' = sec" "b + b' = usec"
    using cut_splits [of "sel_relog opt relog (sc_now c) st" sec usec relog "sc_now c"] Cons.prems(3) by (auto simp: st1_def)
  define st2 where "st2 = st1\<lparr>ss_internal := Some (sc_left c), ss_waits := ss_waits st1 @ [ss_internal st1]\<rparr>"
  have once: "io_select_once h n r w e (ss_internal st1) s c = (select_sets c r w e, ss_internal st1, Some (sc_left c))"
    using Cons.prems(2) by (simp add: once_no_pending)
  have w: "ss_waits st1 = ss_waits st" by (simp add: st1_def)
  show ?case
  proof (cases "sr_status (select_sets c r w e) \<noteq> 0 \<or> ss_timeout st2 = Some (0, 0)")
    case True
    then have "st' = st2" "rest = cs"
      using Cons.prems(1) once by (auto simp: st1_def [symmetric] st2_def Let_def)
    then have "c # cs = [] @ c # rest \<and> length [(a, b)] = Suc (length []) \<and> ss_waits st' = ss_waits st @ map Some [(a, b)] \<and>
      add_left (ss_timeout st') (ss_internal st') =
       Some (sec - sum_list (map fst [(a, b)]) + fst (sc_left c), usec - sum_list (map snd [(a, b)]) + snd (sc_left c))"
      using ab w by (auto simp: st2_def add_left_def split: prod.split)
    then show ?thesis by blast
  next
    case False
    then have l: "io_select_loop h opt relog n r w e s st2 cs = Some (res, st', rest)"
      using Cons.prems(1) once by (auto simp: st1_def [symmetric] st2_def Let_def)
    have "ss_timeout st2 = Some (a', b')" using ab by (simp add: st2_def)
    from Cons.IH [OF l _ this] Cons.prems(2) obtain used c' ws where IH: "cs = used @ c' # rest" "length ws = Suc (length used)"
      "ss_waits st' = ss_waits st2 @ map Some ws"
      "add_left (ss_timeout st') (ss_internal st') =
       Some (a' - sum_list (map fst ws) + fst (sc_left c'), b' - sum_list (map snd ws) + snd (sc_left c'))" by auto
    then have "c # cs = (c # used) @ c' # rest \<and> length ((a, b) # ws) = Suc (length (c # used)) \<and>
      ss_waits st' = ss_waits st @ map Some ((a, b) # ws) \<and>
      add_left (ss_timeout st') (ss_internal st') = Some (sec - sum_list (map fst ((a, b) # ws)) + fst (sc_left c'),
         usec - sum_list (map snd ((a, b) # ws)) + snd (sc_left c'))"
      using ab w by (simp add: st2_def)
    then show ?thesis by blast
  qed
qed simp

text \<open>
  C14. \<open>io_select\<close> comes back: with a time of \<open>sec\<close> seconds after at most \<open>sec + 1\<close> calls of \<open>select\<close>,
  whatever they answer and whatever the clock says.
\<close>

theorem io_select_terminates:
  assumes "0 \<le> opt_connect_relog opt" and "nat sec < length calls"
  shows "\<exists>res left s' logged waits rest.
     io_select h opt n r w e (Some (sec, usec)) s calls = Some (res, left, s', logged, waits, rest)"
proof -
  define relog where "relog = (case is_log s of None \<Rightarrow> False | Some l \<Rightarrow> opt_connect_relog opt \<noteq> 0 \<and> log_time l \<noteq> 0)"
  define st where "st = \<lparr>ss_timeout = Some (sec, usec), ss_internal = None, ss_log = is_log s, ss_logged = [], ss_waits = []\<rparr>"
  have "relog \<longrightarrow> opt_connect_relog opt > 0 \<and> ss_log st \<noteq> None"
    using assms(1) by (auto simp: relog_def st_def split: option.splits)
  from select_loop_terminates [OF this _ assms(2), where h = h and n = n and r = r and w = w and e = e and s = s and usec = usec] show ?thesis
    by (auto simp: io_select_def relog_def [symmetric] st_def Let_def split: option.split)
qed

text \<open>
  No time is lost by the division into several calls: what \<open>io_select\<close> leaves of the time is the
  time given, less the times its calls of \<open>select\<close> were given, and with what the last one left.
\<close>

lemma io_select_time:
  assumes "io_select h opt n r w e (Some (sec, usec)) s calls = Some (res, left, s', logged, waits, rest)"
    and "\<forall>c\<in>set calls. sc_pending c = {}"
  shows "\<exists>used c ws. calls = used @ c # rest \<and> length ws = Suc (length used) \<and> waits = map Some ws \<and>
     left = Some (sec - sum_list (map fst ws) + fst (sc_left c), usec - sum_list (map snd ws) + snd (sc_left c))"
  using assms by (auto simp: io_select_def Let_def split: option.splits dest!: select_loop_time)

text \<open>
  Bytes the TLS library holds are not waited for: \<open>select\<close> is called once, without a time, and the
  connection is among those that can be read, whether or not \<open>select\<close> found its descriptor readable.
\<close>

lemma io_select_pending:
  assumes "i \<in> fds" "0 \<le> i" "i < n" "io_select_get h s i = Some x" "io_type (h x) = Io_type_ssl" "i \<in> sc_pending c"
    and "0 \<le> sc_status c" and "finite fds" and "sc_read c \<noteq> {} \<longrightarrow> sc_status c \<noteq> 0"
  shows "\<exists>res left s' logged.
     io_select h opt n (Some fds) w e timeout s (c # cs) = Some (res, left, s', logged, [Some (0, 0)], cs) \<and>
     0 < sr_status res \<and> (\<exists>rs. sr_read res = Some rs \<and> i \<in> rs \<and> sc_read c \<subseteq> rs) \<and> left = timeout"
proof -
  define want where "want = want_read h s n (Some fds) c"
  have i: "i \<in> want" using assms by (simp add: want_def want_read_def io_select_get_ssl_def)
  have "finite want" using assms(8) by (simp add: want_def want_read_def)
  then have p: "0 < sc_status c + int (card (want - sc_read c))"
    using i assms(7,9) card_gt_0_iff [of want] by (cases "sc_read c = {}") fastforce+
  define res where "res = (select_sets c (Some fds) w e)\<lparr>sr_status := sc_status c + int (card (want - sc_read c)),
      sr_read := Some (sc_read c \<union> want)\<rparr>"
  have once: "io_select_once h n (Some fds) w e t s c = (res, Some (0, 0), t)" for t
    using i assms(7) by (auto simp: io_select_once_def want_def [symmetric] res_def select_sets_def Let_def)
  have "sr_status res \<noteq> 0" using p by (simp add: res_def)
  then have "\<exists>left s' logged. io_select h opt n (Some fds) w e timeout s (c # cs) =
      Some (res, left, s', logged, [Some (0, 0)], cs) \<and> left = timeout"
    by (simp add: io_select_def once Let_def add_left_cut)
  then show ?thesis using p i by (auto simp: res_def)
qed

text \<open>Without a time and without a log, \<open>select\<close> is called with a time that has never been set.\<close>

lemma io_select_uninitialised:
  assumes "is_log s = None" "sc_pending c = {}" "sc_status c \<noteq> 0"
  shows "io_select h opt n r w e None s (c # cs) = Some (select_sets c r w e, None, s, [], [None], cs)"
  using assms by (simp add: io_select_def once_no_pending sel_cut_def sel_relog_def add_left_def select_sets_def Let_def)

definition idle_call :: "int \<Rightarrow> sel_call" where
  "idle_call now = \<lparr>sc_now = now, sc_pending = {}, sc_status = 0, sc_read = {}, sc_write = {}, sc_except = {}, sc_left = (0, 0)\<rparr>"

definition demo_io :: "unit \<Rightarrow> io" where "demo_io _ = io_create_ssl 3 3 None [] []"

definition relog_opt :: options where "relog_opt = options_zero\<lparr>opt_connect_relog := 300\<rparr>"

definition relog_select :: "unit io_select_t" where
  "relog_select = io_select_create\<lparr>is_log := Some \<lparr>log_str = ''Auth: joe'', log_time = 1000\<rparr>\<rparr>"

lemma relog_run:
  "io_select demo_io relog_opt 4 (Some {3}) None None (Some (700, 0)) relog_select [idle_call 900, idle_call 1000, idle_call 1300] =
     Some (\<lparr>sr_status = 0, sr_read = Some {}, sr_write = None, sr_except = None\<rparr>, Some (0, 0),
       relog_select\<lparr>is_log := Some \<lparr>log_str = ''Auth: joe'', log_time = 1600\<rparr>\<rparr>, [''Auth: joe'', ''Auth: joe''],
       [Some (100, 0), Some (300, 0), Some (300, 0)], [])"
  by code_simp

theorem io_select_terminates_witness:
  "\<exists>res left s' logged waits rest. io_select demo_io relog_opt 4 (Some {3}) None None (Some (2, 0)) relog_select
     [idle_call 999, idle_call 1000, idle_call 1001] = Some (res, left, s', logged, waits, rest)"
  by (rule io_select_terminates) (simp_all add: relog_opt_def)

theorem io_select_time_witness:
  "\<exists>used c ws. [idle_call 900, idle_call 1000, idle_call 1300] = used @ [c] \<and> length ws = Suc (length used) \<and>
     [Some (100, 0), Some (300, 0), Some (300, 0)] = map Some ws \<and>
     Some (0, 0) = Some (700 - sum_list (map fst ws) + fst (sc_left c), 0 - sum_list (map snd ws) + snd (sc_left c))"
  using io_select_time [OF relog_run] by (simp add: idle_call_def)

theorem io_select_pending_witness:
  "\<exists>res left s' logged. io_select demo_io relog_opt 4 (Some {3}) None None (Some (700, 0))
       (io_select_add io_select_create ()) [(idle_call 900)\<lparr>sc_pending := {3}\<rparr>] =
         Some (res, left, s', logged, [Some (0, 0)], []) \<and>
     0 < sr_status res \<and> (\<exists>rs. sr_read res = Some rs \<and> 3 \<in> rs \<and> sc_read (idle_call 900) \<subseteq> rs) \<and> left = Some (700, 0)"
  using io_select_pending [of 3 "{3}" 4 demo_io "io_select_add io_select_create ()" "()"
      "(idle_call 900)\<lparr>sc_pending := {3}\<rparr>" relog_opt None None "Some (700, 0)" "[]"]
  by (simp add: demo_io_def io_select_add_def io_select_get_def io_select_match_io_def io_create_ssl_def io_create_def io_get_rfd_def idle_call_def)

end
