(* ===== verification/Pipe.thy ===== *)
theory Pipe
  imports Io_Select Main_Loop
begin

text \<open>
  What follows the login: the bytes of both connections are passed on until one of them ends
  (\<open>io_pipe\<close> of \<^verbatim>\<open>perdition/io.c\<close>, the end of \<open>main\<close> in \<^verbatim>\<open>perdition/perdition.c\<close>).

  The loop itself is \<open>vanessa_socket_pipe_func\<close> of the library libvanessa: a parameter, which is given
  functions to read, to write and to wait. What is known of it is the relation \<open>pipe_run\<close>: it does nothing
  but wait, and read from one side and write what it read to the other.
\<close>

subsection \<open>Reading and writing by descriptor\<close>

text \<open>The read itself. Events of \<open>select\<close> belong to the waiting before it.\<close>

fun io_read_event :: "io_type \<Rightarrow> nat \<Rightarrow> rd_event list \<Rightarrow> string option \<times> rd_event list" where
  "io_read_event ty count [] = (Some [], [])"
| "io_read_event ty count (Rd_data s # es) =
     (Some (take count s), if length s \<le> count then es else Rd_data (drop count s) # es)"
| "io_read_event ty count (Rd_intr # es) = (None, es)"
| "io_read_event ty count (Rd_err # es) = (None, es)"
| "io_read_event ty count (Rd_want # es) = (if ty = Io_type_ssl then Some [] else None, es)"
| "io_read_event ty count (_ # es) = io_read_event ty count es"

text \<open>
  \<open>__io_read\<close>, with \<open>None\<close> for -1. The macro behind \<open>SSL_read\<close> returns before the error is recorded.
\<close>

definition io_read_once :: "io \<Rightarrow> nat \<Rightarrow> string option \<times> io" where
  "io_read_once i count =
     (if io_type i = Io_type_none then (None, i\<lparr>io_err := Io_err_other\<rparr>)
      else case io_read_event (io_type i) count (io_rd i) of
             (r, es) \<Rightarrow>
               (r, if r = None \<and> io_type i = Io_type_fd then i\<lparr>io_rd := es, io_err := Io_err_other\<rparr> else i\<lparr>io_rd := es\<rparr>))"

text \<open>The connections with the state of \<open>io_select\<close>, its script, and the lines it has logged.\<close>

record pipe_state =
  ps_world :: world
  ps_sel :: "ioid io_select_t"
  ps_calls :: "sel_call list"
  ps_logged :: "string list"

text \<open>A descriptor that belongs to no connection is a fault: the error is recorded in a null pointer.\<close>

definition io_pipe_read :: "int \<Rightarrow> nat \<Rightarrow> pipe_state \<Rightarrow> (string option \<times> pipe_state) option" where
  "io_pipe_read fd count ps =
     (let w = ps_world ps in
      case io_select_get (ios w) (ps_sel ps) fd of
        None \<Rightarrow> None
      | Some i \<Rightarrow>
          (case io_read_once ((ios w i)\<lparr>io_err := Io_err_none\<rparr>) count of
             (r, x) \<Rightarrow> Some (r, ps\<lparr>ps_world := upd_io i x w\<rparr>)))"

definition io_pipe_write :: "int \<Rightarrow> string \<Rightarrow> pipe_state \<Rightarrow> (int \<times> pipe_state) option" where
  "io_pipe_write fd buf ps =
     (let w = ps_world ps in
      case io_select_get (ios w) (ps_sel ps) fd of
        None \<Rightarrow> Some (-1, ps)
      | Some i \<Rightarrow> (case io_write (ios w i) buf of (n, x) \<Rightarrow> Some (n, ps\<lparr>ps_world := upd_io i x w\<rparr>)))"

definition io_pipe_select ::
    "options \<Rightarrow> int \<Rightarrow> fd_set option \<Rightarrow> fd_set option \<Rightarrow> fd_set option \<Rightarrow> timeval option \<Rightarrow> pipe_state \<Rightarrow>
     ((sel_result \<times> timeval option) \<times> pipe_state) option" where
  "io_pipe_select opt n r w e timeout ps =
     (case io_select (ios (ps_world ps)) opt n r w e timeout (ps_sel ps) (ps_calls ps) of
        None \<Rightarrow> None
      | Some (res, left, s, logged, waits, calls) \<Rightarrow>
          Some ((res, left), ps\<lparr>ps_sel := s, ps_calls := calls, ps_logged := ps_logged ps @ logged\<rparr>))"

subsection \<open>The library\<close>

text \<open>
  Descriptors to read and write, size of the buffer, seconds without traffic, and the three functions;
  the result is 0, 1 for no traffic, or -1, with the numbers of bytes read from either side.
\<close>

type_synonym pipe_lib =
  "int \<Rightarrow> int \<Rightarrow> int \<Rightarrow> int \<Rightarrow> nat \<Rightarrow> int \<Rightarrow>
   (int \<Rightarrow> nat \<Rightarrow> pipe_state \<Rightarrow> (string option \<times> pipe_state) option) \<Rightarrow>
   (int \<Rightarrow> string \<Rightarrow> pipe_state \<Rightarrow> (int \<times> pipe_state) option) \<Rightarrow>
   (int \<Rightarrow> fd_set option \<Rightarrow> fd_set option \<Rightarrow> fd_set option \<Rightarrow> timeval option \<Rightarrow> pipe_state \<Rightarrow>
      ((sel_result \<times> timeval option) \<times> pipe_state) option) \<Rightarrow>
   pipe_state \<Rightarrow> (int \<times> nat \<times> nat \<times> pipe_state) option"

subsection \<open>\<open>io_pipe\<close>\<close>

definition pipe_timeout :: "io \<Rightarrow> io \<Rightarrow> int" where
  "pipe_timeout a b =
     (let t = (if io_timeout a \<noteq> 0 \<and> io_timeout b \<noteq> 0
               then (if io_timeout a < io_timeout b then io_timeout a else io_timeout b)
               else if io_timeout a \<noteq> 0 then io_timeout a
               else if io_timeout b \<noteq> 0 then io_timeout b
               else 0)
      in if t > INT_MAX then INT_MAX else t)"

definition io_set_err_if_none :: "ioid \<Rightarrow> world \<Rightarrow> world" where
  "io_set_err_if_none i w =
     (if io_err (ios w i) = Io_err_none then upd_io i ((ios w i)\<lparr>io_err := Io_err_other\<rparr>) w else w)"

definition io_pipe ::
    "pipe_lib \<Rightarrow> options \<Rightarrow> ioid \<Rightarrow> ioid \<Rightarrow> nat \<Rightarrow> timed_log \<Rightarrow> sel_call list \<Rightarrow> world \<Rightarrow>
     (int \<times> nat \<times> nat \<times> string list \<times> world) option" where
  "io_pipe lib opt a b buffer_length log calls w =
     (let s = io_select_add (io_select_add (io_select_create\<lparr>is_log := Some log\<rparr>) a) b;
          x = ios w a; y = ios w b
      in case lib (fst (io_get_rfd x)) (fst (io_get_wfd x)) (fst (io_get_rfd y)) (fst (io_get_wfd y)) buffer_length
                (pipe_timeout x y) io_pipe_read io_pipe_write (io_pipe_select opt)
                \<lparr>ps_world = w, ps_sel = s, ps_calls = calls, ps_logged = []\<rparr> of
           None \<Rightarrow> None
         | Some (bytes, na, nb, ps) \<Rightarrow>
             let w1 = ps_world ps in
             if bytes \<noteq> 0
             then let w2 = (if bytes = 1
                            then upd_io b ((ios w1 b)\<lparr>io_err := Io_err_timeout\<rparr>) (upd_io a ((ios w1 a)\<lparr>io_err := Io_err_timeout\<rparr>) w1)
                            else w1)
                  in Some (-1, na, nb, ps_logged ps, io_set_err_if_none b (io_set_err_if_none a w2))
             else Some (0, na, nb, ps_logged ps, w1))"

subsection \<open>The log\<close>

definition quote_str :: "string option \<Rightarrow> string \<times> string" where
  "quote_str s = (case s of Some s \<Rightarrow> ([DQ], s) | None \<Rightarrow> ([], ''NONE''))"

text \<open>The line for a login. \<open>host\<close> are the addresses, \<open>protocol\<close> is the name of the protocol.\<close>

definition log_shows_passwd :: "options \<Rightarrow> string \<Rightarrow> bool" where
  "log_shows_passwd opt reason \<longleftrightarrow>
     opt_debug opt \<noteq> 0 \<and>
     (reason = ''ok'' \<and> opt_log_passwd opt AND LOG_PASSWD_OK \<noteq> 0 \<or> opt_log_passwd opt AND LOG_PASSWD_FAIL \<noteq> 0)"

definition secure_word :: "int \<Rightarrow> int \<Rightarrow> int \<Rightarrow> int \<Rightarrow> string" where
  "secure_word ssl_mode ssl_flag tls_state tls_flag =
     (if ssl_mode AND ssl_flag \<noteq> 0 then ''ssl''
      else if tls_state AND tls_flag \<noteq> 0 then ''starttls''
      else ''plaintext'')"

definition perdition_log_auth ::
    "options \<Rightarrow> int \<Rightarrow> string \<Rightarrow> auth \<Rightarrow> string option \<Rightarrow> string option \<Rightarrow> string \<Rightarrow> int \<Rightarrow> int \<Rightarrow> string option \<Rightarrow> timed_log" where
  "perdition_log_auth opt now host a servername port reason ssl_mode tls_state protocol =
     (let (q, id) = quote_str (authorisation_id a);
          pw = (if log_shows_passwd opt reason
                then '' passwd='' @ DQ # (case passwd a of None \<Rightarrow> ''(null)'' | Some p \<Rightarrow> p) @ [DQ] else [])
      in \<lparr>log_str = take (MAX_LINE_LENGTH - 1)
            (''Auth:'' @ host @ '' client-secure='' @ secure_word ssl_mode SSL_MODE_SSL_LISTEN tls_state SSL_MODE_TLS_LISTEN
             @ '' authorisation_id='' @ q @ id @ q
             @ '' authentication_id='' @ DQ # str_null_safe (authentication_id a) @ DQ # pw
             @ '' server='' @ DQ # str_null_safe servername @ '':'' @ str_null_safe port @ DQ # '' protocol='' @ str_null_safe protocol
             @ '' server-secure='' @ secure_word ssl_mode SSL_MODE_SSL_OUTGOING tls_state SSL_MODE_TLS_OUTGOING
             @ '' status='' @ DQ # reason @ [DQ]),
          log_time = now + opt_connect_relog opt\<rparr>)"

text \<open>The line for the end of a session.\<close>

definition perdition_log_close :: "string \<Rightarrow> auth \<Rightarrow> nat \<Rightarrow> nat \<Rightarrow> string" where
  "perdition_log_close host a received sent =
     (let (q, id) = quote_str (authorisation_id a)
      in ''Closing session:'' @ host @ '' authorisation_id='' @ q @ id @ q
         @ '' authentication_id='' @ DQ # str_null_safe (authentication_id a) @ DQ # '' received='' @ dec_string received
         @ '' sent='' @ dec_string sent)"

subsection \<open>The end of \<open>main\<close>\<close>

definition BUFFER_SIZE :: nat where "BUFFER_SIZE = 1024"

text \<open>
  From the successful login on: the exit status, the lines of the log and the connections. \<open>now\<close> is
  the time of the login, \<open>host\<close> the addresses of the client's connection.
\<close>

definition main_pipe ::
    "pipe_lib \<Rightarrow> 'q env \<Rightarrow> int \<Rightarrow> string \<Rightarrow> sel_call list \<Rightarrow> session \<Rightarrow> world \<Rightarrow> (int \<times> string list \<times> world) option" where
  "main_pipe lib E now host calls s w =
     (let opt = e_opt E in
      do { port \<leftarrow> port_deref (s_port s);
           name \<leftarrow> protocol_list [] (opt_protocol opt);
           let log = perdition_log_auth opt now host (s_auth s) (s_servername s) port ''ok'' (opt_ssl_mode opt) (s_tls_state s) name;
           let w1 = upd_io RS (io_set_timeout (ios w RS) (opt_timeout opt)) (upd_io EU (io_set_timeout (ios w EU) (opt_timeout opt)) w);
           (rc, sent, received, logged, w2) \<leftarrow> io_pipe lib opt RS EU BUFFER_SIZE log calls w1;
           let closed = perdition_log_close host (s_auth s) received sent;
           if rc < 0
           then if io_err (ios w2 EU) = Io_err_timeout
                then case pr_bye (e_proto E) of
                       None \<Rightarrow> Some (0, log_str log # logged @ [closed], w2)
                     | Some bye \<Rightarrow>
                         do { (rc2, w3) \<leftarrow> bye EU ''Timeout'' w2;
                              Some (if rc2 < 0 then (-1, log_str log # logged, w3)
                                    else (0, log_str log # logged @ [closed], w3)) }
                else Some (-1, log_str log # logged, w2)
           else Some (0, log_str log # logged @ [closed], w2) })"

text \<open>A whole session: the exit status, the lines of the log behind the login, and the connections.\<close>

definition main_run ::
    "pipe_lib \<Rightarrow> 'q env \<Rightarrow> int \<Rightarrow> string \<Rightarrow> sel_call list \<Rightarrow> token option \<Rightarrow> int \<Rightarrow> world \<Rightarrow> (int \<times> string list \<times> world) option" where
  "main_run lib E now host calls tag rnd w =
     do { (c, s, w1) \<leftarrow> main_session E tag rnd w;
          case c of
            Exit n \<Rightarrow> Some (n, [], w1)
          | Go \<Rightarrow> main_pipe lib E now host calls s w1
          | Retry \<Rightarrow> None }"

subsection \<open>What the library does\<close>

text \<open>Writing a string in pieces; the flag says whether all of it was accepted.\<close>

inductive write_all :: "(int \<Rightarrow> string \<Rightarrow> pipe_state \<Rightarrow> (int \<times> pipe_state) option) \<Rightarrow> int \<Rightarrow> string \<Rightarrow> pipe_state \<Rightarrow> bool \<Rightarrow> pipe_state \<Rightarrow> bool"
  for wr fd where
  "write_all wr fd [] ps True ps"
| "buf \<noteq> [] \<Longrightarrow> wr fd buf ps = Some (int k, ps1) \<Longrightarrow> write_all wr fd (drop k buf) ps1 ok ps2 \<Longrightarrow> write_all wr fd buf ps ok ps2"
| "buf \<noteq> [] \<Longrightarrow> wr fd buf ps = Some (n, ps1) \<Longrightarrow> n < 0 \<Longrightarrow> write_all wr fd buf ps False ps1"

text \<open>
  The states the library can be in, with the bytes read from either side, and whether everything read
  has been written.
\<close>

inductive pipe_run for rfd_a wfd_a rfd_b wfd_b :: int and len rd wr sel ps0 where
  start: "pipe_run rfd_a wfd_a rfd_b wfd_b len rd wr sel ps0 0 0 True ps0"
| wait: "pipe_run rfd_a wfd_a rfd_b wfd_b len rd wr sel ps0 na nb ok ps \<Longrightarrow> sel n r w e t ps = Some (x, ps1) \<Longrightarrow>
     pipe_run rfd_a wfd_a rfd_b wfd_b len rd wr sel ps0 na nb ok ps1"
| fails: "pipe_run rfd_a wfd_a rfd_b wfd_b len rd wr sel ps0 na nb ok ps \<Longrightarrow> fd \<in> {rfd_a, rfd_b} \<Longrightarrow> rd fd len ps = Some (None, ps1) \<Longrightarrow>
     pipe_run rfd_a wfd_a rfd_b wfd_b len rd wr sel ps0 na nb ok ps1"
| a_to_b: "pipe_run rfd_a wfd_a rfd_b wfd_b len rd wr sel ps0 na nb True ps \<Longrightarrow> rd rfd_a len ps = Some (Some s, ps1) \<Longrightarrow>
     write_all wr wfd_b s ps1 ok ps2 \<Longrightarrow> pipe_run rfd_a wfd_a rfd_b wfd_b len rd wr sel ps0 (na + length s) nb ok ps2"
| b_to_a: "pipe_run rfd_a wfd_a rfd_b wfd_b len rd wr sel ps0 na nb True ps \<Longrightarrow> rd rfd_b len ps = Some (Some s, ps1) \<Longrightarrow>
     write_all wr wfd_a s ps1 ok ps2 \<Longrightarrow> pipe_run rfd_a wfd_a rfd_b wfd_b len rd wr sel ps0 na (nb + length s) ok ps2"

text \<open>The documented behaviour: 0 and 1 are for an orderly end, with everything written.\<close>

definition pipe_lib_ok :: "pipe_lib \<Rightarrow> bool" where
  "pipe_lib_ok lib \<longleftrightarrow>
     (\<forall>ra wa rb wb len t rd wr sel ps r na nb ps'. lib ra wa rb wb len t rd wr sel ps = Some (r, na, nb, ps') \<longrightarrow>
        (\<exists>ok. pipe_run ra wa rb wb len rd wr sel ps na nb ok ps' \<and> (r = 0 \<or> r = 1 \<longrightarrow> ok)))"

subsection \<open>The channel\<close>

text \<open>All bytes a connection has yet to deliver, whatever happens in between.\<close>

fun rd_bytes :: "rd_event list \<Rightarrow> string" where
  "rd_bytes [] = []"
| "rd_bytes (Rd_data s # es) = s @ rd_bytes es"
| "rd_bytes (_ # es) = rd_bytes es"

lemma io_read_event_bytes:
  "io_read_event ty count es = (r, es') \<Longrightarrow>
     rd_bytes es = (case r of None \<Rightarrow> [] | Some s \<Rightarrow> s) @ rd_bytes es'"
  by (induction ty count es rule: io_read_event.induct) (auto split: if_splits)

definition conn :: "io \<Rightarrow> io_type \<times> int \<times> int" where
  "conn x = (io_type x, io_rfd x, io_wfd x)"

lemma io_read_once_props:
  assumes "io_read_once x count = (r, x')"
  shows "conn x' = conn x" "io_out x' = io_out x"
    "rd_bytes (io_rd x) = (case r of None \<Rightarrow> [] | Some s \<Rightarrow> s) @ rd_bytes (io_rd x')"
  using assms by (auto simp: io_read_once_def conn_def split: if_splits prod.splits dest: io_read_event_bytes)

lemma io_write_props:
  assumes "io_write x buf = (n, x')"
  shows "conn x' = conn x" "io_rd x' = io_rd x" "\<exists>k \<le> length buf. io_out x' = io_out x @ take k buf \<and> (0 \<le> n \<longrightarrow> n = int k)"
  using assms by (auto simp: io_write_def conn_def Let_def split: io_type.splits option.splits list.splits)

text \<open>Two connections with descriptors of their own.\<close>

definition apart :: "ioid \<Rightarrow> ioid \<Rightarrow> world \<Rightarrow> bool" where
  "apart a b w \<longleftrightarrow> a \<noteq> b \<and> io_type (ios w a) \<noteq> Io_type_none \<and> io_type (ios w b) \<noteq> Io_type_none \<and>
     {io_rfd (ios w a), io_wfd (ios w a)} \<inter> {io_rfd (ios w b), io_wfd (ios w b)} = {}"

lemma match_conn: "io_select_match_io x fd \<longleftrightarrow> io_type x \<noteq> Io_type_none \<and> (io_rfd x = fd \<or> io_wfd x = fd) \<or>
    io_type x = Io_type_none \<and> fd = -1"
  by (cases "io_type x") (auto simp: io_select_match_io_def io_get_rfd_def io_get_wfd_def)

lemma find_only: "a \<in> set xs \<Longrightarrow> P a \<Longrightarrow> (\<And>x. x \<in> set xs \<Longrightarrow> x \<noteq> a \<Longrightarrow> \<not> P x) \<Longrightarrow> find P xs = Some a"
  by (induction xs) auto

lemma get_apart:
  assumes "apart a b w" "set (is_fd s) = {a, b}"
  shows "io_select_get (ios w) s (io_rfd (ios w a)) = Some a" "io_select_get (ios w) s (io_wfd (ios w a)) = Some a"
  unfolding io_select_get_def using assms by (auto simp: match_conn apart_def intro!: find_only)

lemma apart_sym: "apart a b w = apart b a w"
  by (auto simp: apart_def)

text \<open>What holds in every state of the library.\<close>

definition channel :: "ioid \<Rightarrow> ioid \<Rightarrow> world \<Rightarrow> nat \<Rightarrow> nat \<Rightarrow> bool \<Rightarrow> pipe_state \<Rightarrow> bool" where
  "channel a b w na nb ok ps \<longleftrightarrow>
     set (is_fd (ps_sel ps)) = {a, b} \<and> conn (ios (ps_world ps) a) = conn (ios w a) \<and> conn (ios (ps_world ps) b) = conn (ios w b) \<and>
     (\<exists>sa sb k l. rd_bytes (io_rd (ios w a)) = sa @ rd_bytes (io_rd (ios (ps_world ps) a)) \<and> length sa = na \<and>
        rd_bytes (io_rd (ios w b)) = sb @ rd_bytes (io_rd (ios (ps_world ps) b)) \<and> length sb = nb \<and>
        io_out (ios (ps_world ps) b) = io_out (ios w b) @ take k sa \<and> io_out (ios (ps_world ps) a) = io_out (ios w a) @ take l sb \<and>
        (ok \<longrightarrow> na \<le> k \<and> nb \<le> l))"


lemma conn_fields: "conn x = conn y \<longleftrightarrow> io_type x = io_type y \<and> io_rfd x = io_rfd y \<and> io_wfd x = io_wfd y"
  by (auto simp: conn_def)

lemma apart_ps:
  assumes "apart a b w" "channel a b w na nb ok ps"
  shows "apart a b (ps_world ps)" "set (is_fd (ps_sel ps)) = {a, b}" "io_rfd (ios (ps_world ps) a) = io_rfd (ios w a)"
    "io_wfd (ios (ps_world ps) a) = io_wfd (ios w a)"
  using assms by (auto simp: apart_def channel_def conn_fields)

lemma pipe_get:
  assumes "apart a b w" "channel a b w na nb ok ps"
  shows "io_select_get (ios (ps_world ps)) (ps_sel ps) (io_rfd (ios w a)) = Some a"
    "io_select_get (ios (ps_world ps)) (ps_sel ps) (io_wfd (ios w a)) = Some a"
  using get_apart [OF apart_ps(1,2) [OF assms]] by (simp_all add: apart_ps [OF assms])

lemma channel_sym: "channel a b w na nb ok ps = channel b a w nb na ok ps"
  by (auto simp: channel_def)

lemma upd_io_ios [simp]: "ios (upd_io i x w) j = (if j = i then x else ios w j)"
  by (simp add: upd_io_def)

text \<open>A read takes the next bytes of one side.\<close>

lemma pipe_read_effect:
  assumes "io_select_get (ios (ps_world ps)) (ps_sel ps) fd = Some i" "io_pipe_read fd len ps = Some (r, ps1)"
  shows "ps_sel ps1 = ps_sel ps" "\<And>j. conn (ios (ps_world ps1) j) = conn (ios (ps_world ps) j)"
    "\<And>j. io_out (ios (ps_world ps1) j) = io_out (ios (ps_world ps) j)" "\<And>j. j \<noteq> i \<Longrightarrow> ios (ps_world ps1) j = ios (ps_world ps) j"
    "rd_bytes (io_rd (ios (ps_world ps) i)) = (case r of None \<Rightarrow> [] | Some s \<Rightarrow> s) @ rd_bytes (io_rd (ios (ps_world ps1) i))"
  using assms io_read_once_props [of "ios (ps_world ps) i\<lparr>io_err := Io_err_none\<rparr>" len]
  by (auto simp: io_pipe_read_def Let_def conn_def split: prod.splits)

lemma pipe_write_effect:
  assumes "io_select_get (ios (ps_world ps)) (ps_sel ps) fd = Some i" "io_pipe_write fd buf ps = Some (n, ps1)"
  shows "ps_sel ps1 = ps_sel ps" "\<And>j. conn (ios (ps_world ps1) j) = conn (ios (ps_world ps) j)"
    "\<And>j. io_rd (ios (ps_world ps1) j) = io_rd (ios (ps_world ps) j)" "\<And>j. j \<noteq> i \<Longrightarrow> ios (ps_world ps1) j = ios (ps_world ps) j"
    "\<exists>k \<le> length buf. io_out (ios (ps_world ps1) i) = io_out (ios (ps_world ps) i) @ take k buf \<and> (0 \<le> n \<longrightarrow> n = int k)"
  using assms io_write_props [of "ios (ps_world ps) i" buf] by (auto simp: io_pipe_write_def Let_def split: prod.splits)

lemma get_conn:
  assumes "\<And>j. conn (h' j) = conn (h j)" shows "io_select_get h' s fd = io_select_get h s fd"
proof -
  have "io_select_match_io (h' i) fd = io_select_match_io (h i) fd" for i
    using assms [of i] by (simp add: match_conn conn_fields)
  then show ?thesis by (simp add: io_select_get_def)
qed

lemma write_all_effect:
  assumes "write_all io_pipe_write fd buf ps ok ps2" "io_select_get (ios (ps_world ps)) (ps_sel ps) fd = Some i"
  shows "ps_sel ps2 = ps_sel ps \<and> (\<forall>j. conn (ios (ps_world ps2) j) = conn (ios (ps_world ps) j)) \<and>
    (\<forall>j. io_rd (ios (ps_world ps2) j) = io_rd (ios (ps_world ps) j)) \<and> (\<forall>j. j \<noteq> i \<longrightarrow> ios (ps_world ps2) j = ios (ps_world ps) j) \<and>
    (\<exists>k \<le> length buf. io_out (ios (ps_world ps2) i) = io_out (ios (ps_world ps) i) @ take k buf \<and> (ok \<longrightarrow> k = length buf))"
  using assms
proof induction
  case (2 buf ps k ps1 ok ps2)
  note e = pipe_write_effect [OF "2.prems" "2.hyps"(2)]
  have "io_select_get (ios (ps_world ps1)) (ps_sel ps1) fd = Some i"
    using "2.prems" get_conn [of "ios (ps_world ps1)" "ios (ps_world ps)", OF e(2)] e(1) by simp
  note IH = "2.IH" [OF this]
  obtain m where m: "m \<le> length buf" "io_out (ios (ps_world ps1) i) = io_out (ios (ps_world ps) i) @ take m buf" "k = m"
    using e(5) by auto
  obtain l where l: "l \<le> length (drop k buf)" "io_out (ios (ps_world ps2) i) = io_out (ios (ps_world ps1) i) @ take l (drop k buf)"
    "ok \<longrightarrow> l = length (drop k buf)" using IH by auto
  have "m + l \<le> length buf \<and> io_out (ios (ps_world ps2) i) = io_out (ios (ps_world ps) i) @ take (m + l) buf \<and> (ok \<longrightarrow> m + l = length buf)"
    using l m by (auto simp: take_add)
  then show ?case using IH e by auto
next
  case (3 buf ps n ps1)
  from pipe_write_effect [OF "3.prems" "3.hyps"(2)] "3.hyps"(1,3) show ?case by auto
qed auto

lemma select_effect:
  assumes "io_pipe_select opt n r w e t ps = Some (x, ps1)"
  shows "ps_world ps1 = ps_world ps" "is_fd (ps_sel ps1) = is_fd (ps_sel ps)"
  using assms by (auto simp: io_pipe_select_def io_select_def Let_def split: option.splits)


lemma channel_transfer:
  assumes ap: "apart a b w" and ch: "channel a b w na nb True ps"
    and rd: "io_pipe_read (io_rfd (ios w a)) len ps = Some (Some s, ps1)"
    and wr: "write_all io_pipe_write (io_wfd (ios w b)) s ps1 ok ps2"
  shows "channel a b w (na + length s) nb ok ps2"
proof -
  have ab: "a \<noteq> b" and ap': "apart b a w" and ch': "channel b a w nb na True ps"
    using ap ch apart_sym channel_sym by (auto simp: apart_def)
  note r = pipe_read_effect [OF pipe_get(1) [OF ap ch] rd]
  have g: "io_select_get (ios (ps_world ps1)) (ps_sel ps1) (io_wfd (ios w b)) = Some b"
    using pipe_get(2) [OF ap' ch'] get_conn [of "ios (ps_world ps1)" "ios (ps_world ps)", OF r(2)] r(1) by simp
  note e = write_all_effect [OF wr g]
  obtain m where m: "m \<le> length s" "io_out (ios (ps_world ps2) b) = io_out (ios (ps_world ps) b) @ take m s" "ok \<longrightarrow> m = length s"
    using e r(3) by auto
  obtain sa sb k l where IH: "rd_bytes (io_rd (ios w a)) = sa @ rd_bytes (io_rd (ios (ps_world ps) a))" "length sa = na"
    "rd_bytes (io_rd (ios w b)) = sb @ rd_bytes (io_rd (ios (ps_world ps) b))" "length sb = nb"
    "io_out (ios (ps_world ps) b) = io_out (ios w b) @ take k sa" "io_out (ios (ps_world ps) a) = io_out (ios w a) @ take l sb"
    "na \<le> k" "nb \<le> l" using ch by (auto simp: channel_def)
  have "rd_bytes (io_rd (ios w a)) = (sa @ s) @ rd_bytes (io_rd (ios (ps_world ps2) a)) \<and> length (sa @ s) = na + length s \<and>
    rd_bytes (io_rd (ios w b)) = sb @ rd_bytes (io_rd (ios (ps_world ps2) b)) \<and> length sb = nb \<and>
    io_out (ios (ps_world ps2) b) = io_out (ios w b) @ take (na + m) (sa @ s) \<and>
    io_out (ios (ps_world ps2) a) = io_out (ios w a) @ take l sb \<and> (ok \<longrightarrow> na + length s \<le> na + m \<and> nb \<le> l)"
    using IH m e r ab by auto
  moreover have "set (is_fd (ps_sel ps2)) = {a, b}" "conn (ios (ps_world ps2) a) = conn (ios w a)" "conn (ios (ps_world ps2) b) = conn (ios w b)"
    using ch e r by (auto simp: channel_def)
  ultimately show ?thesis unfolding channel_def by blast
qed

lemma channel_fails:
  assumes ap: "apart a b w" and ch: "channel a b w na nb ok ps" and rd: "io_pipe_read (io_rfd (ios w a)) len ps = Some (None, ps1)"
  shows "channel a b w na nb ok ps1"
proof -
  note r = pipe_read_effect [OF pipe_get(1) [OF ap ch] rd]
  have "rd_bytes (io_rd (ios (ps_world ps) j)) = rd_bytes (io_rd (ios (ps_world ps1) j))" for j
    using r(4,5) by (cases "j = a") auto
  then show ?thesis using ch r(1-3) by (simp add: channel_def)
qed

lemma channel_run:
  assumes "pipe_run (io_rfd (ios w a)) (io_wfd (ios w a)) (io_rfd (ios w b)) (io_wfd (ios w b)) len
      io_pipe_read io_pipe_write (io_pipe_select opt) ps0 na nb ok ps"
    and ap: "apart a b w" and start: "set (is_fd (ps_sel ps0)) = {a, b}" "ps_world ps0 = w"
  shows "channel a b w na nb ok ps"
  using assms(1)
proof induction
  case start
  then show ?case using assms(3,4) by (simp add: channel_def)
next
  case (wait na nb ok ps n r w' e t x ps1)
  then show ?case using select_effect [OF wait.hyps(2)] by (simp add: channel_def)
next
  case (fails na nb ok ps fd ps1)
  have ap': "apart b a w" and ch': "channel b a w nb na ok ps" using ap fails.IH apart_sym channel_sym by blast+
  show ?case
  proof (cases "fd = io_rfd (ios w a)")
    case True
    then show ?thesis using channel_fails [OF ap fails.IH] fails.hyps(3) by blast
  next
    case False
    then show ?thesis using channel_fails [OF ap' ch'] fails.hyps(2,3) channel_sym by blast
  qed
next
  case (a_to_b na nb ps s ps1 ok ps2)
  show ?case by (rule channel_transfer [OF ap a_to_b.IH a_to_b.hyps(2,3)])
next
  case (b_to_a na nb ps s ps1 ok ps2)
  have ap': "apart b a w" and ch': "channel b a w nb na True ps" using ap b_to_a.IH apart_sym channel_sym by blast+
  show ?case using channel_transfer [OF ap' ch' b_to_a.hyps(2,3)] channel_sym by blast
qed

lemma io_read_err: "io_read_once x count = (r, x') \<Longrightarrow> io_err x \<noteq> Io_err_timeout \<Longrightarrow> io_err x' \<noteq> Io_err_timeout"
  by (auto simp: io_read_once_def split: if_splits prod.splits)

lemma io_write_err: "io_write x buf = (n, x') \<Longrightarrow> io_err x \<noteq> Io_err_timeout \<Longrightarrow> io_err x' \<noteq> Io_err_timeout"
  by (auto simp: io_write_def Let_def split: io_type.splits option.splits list.splits)

lemma pipe_read_err:
  "io_pipe_read fd len ps = Some (r, ps1) \<Longrightarrow> io_err (ios (ps_world ps) j) \<noteq> Io_err_timeout \<Longrightarrow>
     io_err (ios (ps_world ps1) j) \<noteq> Io_err_timeout"
  by (auto simp: io_pipe_read_def Let_def split: option.splits prod.splits if_splits dest!: io_read_err)

lemma pipe_write_err:
  "io_pipe_write fd buf ps = Some (n, ps1) \<Longrightarrow> io_err (ios (ps_world ps) j) \<noteq> Io_err_timeout \<Longrightarrow>
     io_err (ios (ps_world ps1) j) \<noteq> Io_err_timeout"
  by (auto simp: io_pipe_write_def Let_def split: option.splits prod.splits if_splits dest!: io_write_err)

lemma write_all_err:
  "write_all io_pipe_write fd buf ps ok ps1 \<Longrightarrow> io_err (ios (ps_world ps) j) \<noteq> Io_err_timeout \<Longrightarrow>
     io_err (ios (ps_world ps1) j) \<noteq> Io_err_timeout"
  by (induction rule: write_all.induct) (auto dest: pipe_write_err)

lemma run_err:
  "pipe_run ra wa rb wb len io_pipe_read io_pipe_write (io_pipe_select opt) ps0 na nb ok ps \<Longrightarrow>
     io_err (ios (ps_world ps0) j) \<noteq> Io_err_timeout \<Longrightarrow> io_err (ios (ps_world ps) j) \<noteq> Io_err_timeout"
  by (induction rule: pipe_run.induct) (auto dest: pipe_read_err write_all_err select_effect(1))

text \<open>What \<open>io_pipe\<close> does to the connections.\<close>

lemma io_pipe_bytes:
  assumes "pipe_lib_ok lib" and "apart a b w" and "io_pipe lib opt a b len log calls w = Some (rc, na, nb, logged, w')"
  shows "\<exists>sa sb k l.
     rd_bytes (io_rd (ios w a)) = sa @ rd_bytes (io_rd (ios w' a)) \<and> length sa = na \<and>
     rd_bytes (io_rd (ios w b)) = sb @ rd_bytes (io_rd (ios w' b)) \<and> length sb = nb \<and>
     io_out (ios w' b) = io_out (ios w b) @ take k sa \<and> io_out (ios w' a) = io_out (ios w a) @ take l sb \<and>
     (rc = 0 \<or> io_err (ios w b) \<noteq> Io_err_timeout \<and> io_err (ios w' b) = Io_err_timeout \<longrightarrow> na \<le> k \<and> nb \<le> l)"
proof -
  define ps0 where "ps0 = \<lparr>ps_world = w, ps_sel = io_select_add (io_select_add (io_select_create\<lparr>is_log := Some log\<rparr>) a) b,
      ps_calls = calls, ps_logged = []\<rparr>"
  have t: "io_type (ios w a) \<noteq> Io_type_none" "io_type (ios w b) \<noteq> Io_type_none" using assms(2) by (simp_all add: apart_def)
  then have fds: "fst (io_get_rfd (ios w i)) = io_rfd (ios w i)" "fst (io_get_wfd (ios w i)) = io_wfd (ios w i)" if "i \<in> {a, b}" for i
    using that by (auto simp: io_get_rfd_def io_get_wfd_def split: io_type.split)
  obtain r ps where lib: "lib (io_rfd (ios w a)) (io_wfd (ios w a)) (io_rfd (ios w b)) (io_wfd (ios w b)) len
      (pipe_timeout (ios w a) (ios w b)) io_pipe_read io_pipe_write (io_pipe_select opt) ps0 = Some (r, na, nb, ps)"
    and w': "\<And>j. io_rd (ios w' j) = io_rd (ios (ps_world ps) j)" "\<And>j. io_out (ios w' j) = io_out (ios (ps_world ps) j)"
    and rc: "rc = 0 \<longrightarrow> r = 0"
    and err: "r \<noteq> 1 \<longrightarrow> io_err (ios (ps_world ps) b) \<noteq> Io_err_timeout \<longrightarrow> io_err (ios w' b) \<noteq> Io_err_timeout"
    using assms(3) fds by (auto simp: io_pipe_def Let_def ps0_def io_set_err_if_none_def split: option.splits if_splits)
  obtain ok where ok: "pipe_run (io_rfd (ios w a)) (io_wfd (ios w a)) (io_rfd (ios w b)) (io_wfd (ios w b)) len
      io_pipe_read io_pipe_write (io_pipe_select opt) ps0 na nb ok ps" "r = 0 \<or> r = 1 \<longrightarrow> ok"
    using assms(1) [unfolded pipe_lib_ok_def, rule_format, OF lib] by auto
  have "rc = 0 \<or> io_err (ios w b) \<noteq> Io_err_timeout \<and> io_err (ios w' b) = Io_err_timeout \<longrightarrow> ok"
    using run_err [OF ok(1), of b] err rc ok(2) by (auto simp: ps0_def)
  moreover have "channel a b w na nb ok ps"
    by (rule channel_run [OF ok(1) assms(2)]) (auto simp: ps0_def io_select_add_def io_select_create_def)
  ultimately show ?thesis unfolding channel_def w' by blast
qed

text \<open>The farewell of a protocol, of which only ManageSieve has one.\<close>

lemma io_write_sent:
  assumes "io_write x buf = (n, x')"
  shows "\<exists>m. io_out x' = io_out x @ take m buf \<and> (take m buf = [] \<or> io_err x' = io_err x)"
proof (cases "io_err x' = io_err x")
  case False
  then have "io_out x' = io_out x @ take 0 buf"
    using assms by (auto simp: io_write_def Let_def split: io_type.splits option.splits)
  then show ?thesis by force
qed (use io_write_props(3) [OF assms] in blast)

lemma bye_effect:
  assumes "protocol_initialise opt pe n = Some P" and "pr_bye P = Some bye" and "bye i ''Timeout'' w = Some (rc, w')"
  shows "\<exists>m b. b = take m (''BYE '' @ DQ # ''Timeout'' @ DQ # CRLF) \<and> (b = [] \<or> io_err (ios w' i) = io_err (ios w i)) \<and>
     (\<forall>j. io_rd (ios w' j) = io_rd (ios w j)) \<and> (\<forall>j. io_out (ios w' j) = io_out (ios w j) @ (if j = i then b else []))"
proof -
  let ?line = "''BYE '' @ DQ # ''Timeout'' @ DQ # CRLF"
  have "bye = managesieve_protocol_bye"
    using assms(1,2) by (auto simp: protocol_initialise_def imap4_initialise_protocol_def imap4s_initialise_protocol_def
        pop3_initialise_protocol_def pop3s_initialise_protocol_def managesieve_initialise_protocol_def split: if_splits)
  then have w': "w' = put i ?line w"
    using assms(3) managesieve_write_raw_eq [of i "''BYE '' @ DQ # ''Timeout'' @ [DQ]" w]
    by (auto simp: managesieve_protocol_bye_def managesieve_bye_def managesieve_write_def managesieve_write_list_def
        MANAGESIEVE_BYE_def acap_from_str_eq one_line_def STR_WRITE_BUF_LEN_def MAX_LINE_LENGTH_def bind_eq_Some_conv
        split: if_splits)
  obtain m where "io_out (snd (io_write (ios w i) ?line)) = io_out (ios w i) @ take m ?line"
      "take m ?line = [] \<or> io_err (snd (io_write (ios w i) ?line)) = io_err (ios w i)"
    using io_write_sent [OF surjective_pairing] by blast
  with io_write_props(2) [OF surjective_pairing, of "ios w i" ?line] show ?thesis
    unfolding w' put_def by (intro exI [of _ m] exI [of _ "take m ?line"]) auto
qed

text \<open>The ways \<open>main_pipe\<close> ends.\<close>

lemma main_pipe_cases:
  assumes "main_pipe lib E now host calls s w = Some (rc, lines, w')"
  obtains log r sent received logged w1 w2 where
    "io_pipe lib (e_opt E) RS EU BUFFER_SIZE log calls w1 = Some (r, sent, received, logged, w2)"
    "\<And>j. io_rd (ios w1 j) = io_rd (ios w j) \<and> io_out (ios w1 j) = io_out (ios w j) \<and> io_err (ios w1 j) = io_err (ios w j)"
    "apart RS EU w1 = apart RS EU w"
    "lines = log_str log # logged @ (if rc = 0 then [perdition_log_close host (s_auth s) received sent] else [])"
    "rc = 0 \<or> rc = -1"
    "w' = w2 \<and> (rc = 0 \<longrightarrow> 0 \<le> r \<or> io_err (ios w2 EU) = Io_err_timeout) \<or>
     io_err (ios w2 EU) = Io_err_timeout \<and>
       (\<exists>bye rc2. pr_bye (e_proto E) = Some bye \<and> bye EU ''Timeout'' w2 = Some (rc2, w'))"
proof -
  define w1 where "w1 = upd_io RS (io_set_timeout (ios w RS) (opt_timeout (e_opt E)))
    (upd_io EU (io_set_timeout (ios w EU) (opt_timeout (e_opt E))) w)"
  have "io_rd (ios w1 j) = io_rd (ios w j) \<and> io_out (ios w1 j) = io_out (ios w j) \<and> io_err (ios w1 j) = io_err (ios w j)" for j
    by (simp add: w1_def io_set_timeout_def)
  moreover have "apart RS EU w1 = apart RS EU w" by (simp add: w1_def io_set_timeout_def apart_def)
  moreover note assms [unfolded main_pipe_def Let_def, folded w1_def]
  ultimately show thesis
    by (auto simp: bind_eq_Some_conv split: if_splits option.splits intro: that)
qed

text \<open>
  C7. After the login the proxy is a pair of byte channels: what a connection has been sent is what the
  other one delivered, in order, with nothing added but the farewell of ManageSieve after a time without
  traffic, and on every orderly end (exit status 0) nothing is missing. The last line of the log then
  gives the number of bytes taken from the client as received and the number of those taken from the
  server as sent; without an orderly end there is no such line.
\<close>

theorem io_pipe_channel:
  assumes "pipe_lib_ok lib" and "apart RS EU w" and "io_err (ios w EU) \<noteq> Io_err_timeout"
    and "protocol_initialise (e_opt E) pe n = Some (e_proto E)"
    and "main_pipe lib E now host calls s w = Some (rc, lines, w')"
  shows "\<exists>from_server from_client k l m bye login logged q user.
     rd_bytes (io_rd (ios w RS)) = from_server @ rd_bytes (io_rd (ios w' RS)) \<and>
     rd_bytes (io_rd (ios w EU)) = from_client @ rd_bytes (io_rd (ios w' EU)) \<and>
     io_out (ios w' RS) = io_out (ios w RS) @ take l from_client \<and>
     io_out (ios w' EU) = io_out (ios w EU) @ take k from_server @ bye \<and>
     (bye = [] \<or> io_err (ios w' EU) = Io_err_timeout) \<and>
     bye = take m (''BYE '' @ DQ # ''Timeout'' @ DQ # CRLF) \<and>
     (rc = 0 \<longrightarrow> io_out (ios w' RS) = io_out (ios w RS) @ from_client \<and>
        io_out (ios w' EU) = io_out (ios w EU) @ from_server @ bye) \<and>
     (q, user) = quote_str (authorisation_id (s_auth s)) \<and>
     lines = login # logged @
       (if rc = 0
        then [''Closing session:'' @ host @ '' authorisation_id='' @ q @ user @ q
              @ '' authentication_id='' @ DQ # str_null_safe (authentication_id (s_auth s)) @ DQ # '' received='' @ dec_string (length from_client)
              @ '' sent='' @ dec_string (length from_server)]
        else [])"
proof -
  obtain log r sent received logged w1 w2 where
    p: "io_pipe lib (e_opt E) RS EU BUFFER_SIZE log calls w1 = Some (r, sent, received, logged, w2)"
    and w1: "\<And>j. io_rd (ios w1 j) = io_rd (ios w j) \<and> io_out (ios w1 j) = io_out (ios w j) \<and> io_err (ios w1 j) = io_err (ios w j)"
    and ap: "apart RS EU w1 = apart RS EU w"
    and lines: "lines = log_str log # logged @ (if rc = 0 then [perdition_log_close host (s_auth s) received sent] else [])"
    and rc: "rc = 0 \<or> rc = -1"
    and w': "w' = w2 \<and> (rc = 0 \<longrightarrow> 0 \<le> r \<or> io_err (ios w2 EU) = Io_err_timeout) \<or>
       io_err (ios w2 EU) = Io_err_timeout \<and> (\<exists>bye rc2. pr_bye (e_proto E) = Some bye \<and> bye EU ''Timeout'' w2 = Some (rc2, w'))"
    by (rule main_pipe_cases [OF assms(5)]) (rule that)
  have r: "0 \<le> r \<longleftrightarrow> r = 0" using p by (auto simp: io_pipe_def Let_def split: option.splits if_splits)
  obtain sr sc k l where c: "rd_bytes (io_rd (ios w RS)) = sr @ rd_bytes (io_rd (ios w2 RS))" "length sr = sent"
    "rd_bytes (io_rd (ios w EU)) = sc @ rd_bytes (io_rd (ios w2 EU))" "length sc = received"
    "io_out (ios w2 EU) = io_out (ios w EU) @ take k sr" "io_out (ios w2 RS) = io_out (ios w RS) @ take l sc"
    "r = 0 \<or> io_err (ios w2 EU) = Io_err_timeout \<longrightarrow> sent \<le> k \<and> received \<le> l"
    using io_pipe_bytes [OF assms(1) _ p] ap assms(2,3) w1 by auto
  obtain m b where b: "b = take m (''BYE '' @ DQ # ''Timeout'' @ DQ # CRLF)" "b = [] \<or> io_err (ios w' EU) = Io_err_timeout"
    "\<And>j. io_rd (ios w' j) = io_rd (ios w2 j)" "io_out (ios w' RS) = io_out (ios w2 RS)" "io_out (ios w' EU) = io_out (ios w2 EU) @ b"
  proof (cases "w' = w2")
    case True
    then show thesis using that [of "[]" 0] by simp
  next
    case False
    then obtain bye rc2 where e: "io_err (ios w2 EU) = Io_err_timeout" and bye: "pr_bye (e_proto E) = Some bye" "bye EU ''Timeout'' w2 = Some (rc2, w')"
      using w' by blast
    show thesis using that bye_effect [OF assms(4) bye] e by auto
  qed
  have full: "sent \<le> k \<and> received \<le> l" if "rc = 0" using that w' r c(7) by auto
  have complete: "(rc = 0 \<longrightarrow> io_out (ios w' RS) = io_out (ios w RS) @ sc \<and> io_out (ios w' EU) = io_out (ios w EU) @ sr @ b)"
    using full b c by auto
  obtain q user where qu: "(q, user) = quote_str (authorisation_id (s_auth s))" by (metis surj_pair)
  have last: "lines = log_str log # logged @
       (if rc = 0
        then [''Closing session:'' @ host @ '' authorisation_id='' @ q @ user @ q
              @ '' authentication_id='' @ DQ # str_null_safe (authentication_id (s_auth s)) @ DQ # '' received='' @ dec_string (length sc)
              @ '' sent='' @ dec_string (length sr)]
        else [])"
    unfolding lines perdition_log_close_def qu [symmetric] c(2,4) Let_def by simp
  have "rd_bytes (io_rd (ios w RS)) = sr @ rd_bytes (io_rd (ios w' RS))" "rd_bytes (io_rd (ios w EU)) = sc @ rd_bytes (io_rd (ios w' EU))"
    "io_out (ios w' RS) = io_out (ios w RS) @ take l sc" "io_out (ios w' EU) = io_out (ios w EU) @ take k sr @ b"
    using b(3-5) c(1,3,5,6) by simp_all
  with b(1,2) complete qu last show ?thesis by blast
qed

subsection \<open>Examples\<close>

text \<open>A library that passes on everything of one side, and then everything of the other.\<close>

fun relay :: "nat \<Rightarrow> int \<Rightarrow> int \<Rightarrow> nat \<Rightarrow> (int \<Rightarrow> nat \<Rightarrow> pipe_state \<Rightarrow> (string option \<times> pipe_state) option) \<Rightarrow>
    (int \<Rightarrow> string \<Rightarrow> pipe_state \<Rightarrow> (int \<times> pipe_state) option) \<Rightarrow> nat \<Rightarrow> pipe_state \<Rightarrow> (int \<times> nat \<times> pipe_state) option" where
  "relay 0 src dst len rd wr n ps = None"
| "relay (Suc fuel) src dst len rd wr n ps =
     (case rd src len ps of
        None \<Rightarrow> None
      | Some (None, ps1) \<Rightarrow> Some (-1, n, ps1)
      | Some (Some s, ps1) \<Rightarrow>
          if s = [] then Some (0, n, ps1)
          else case wr dst s ps1 of
                 None \<Rightarrow> None
               | Some (k, ps2) \<Rightarrow> if k = int (length s) then relay fuel src dst len rd wr (n + length s) ps2 else None)"

definition relay_lib :: pipe_lib where
  "relay_lib ra wa rb wb len t rd wr sel ps =
     (case relay 100 ra wb len rd wr 0 ps of
        None \<Rightarrow> None
      | Some (r, na, ps1) \<Rightarrow>
          if r = 0 then map_option (\<lambda>(r, nb, ps2). (r, na, nb, ps2)) (relay 100 rb wa len rd wr 0 ps1) else Some (r, na, 0, ps1))"

lemma write_whole: "s \<noteq> [] \<Longrightarrow> wr fd s ps = Some (int (length s), ps1) \<Longrightarrow> write_all wr fd s ps True ps1"
  using write_all.intros(2) [of s wr fd ps "length s" ps1 True ps1] write_all.intros(1) by simp

lemma relay_run_a:
  assumes "relay fuel ra wb len rd wr n ps = Some (r, n', ps')" "pipe_run ra wa rb wb len rd wr sel ps0 n nb True ps"
  shows "pipe_run ra wa rb wb len rd wr sel ps0 n' nb True ps' \<and> (r = 0 \<or> r = -1)"
  using assms
proof (induction fuel arbitrary: n ps)
  case (Suc fuel)
  show ?case
  proof (cases "rd ra len ps")
    case (Some x)
    then obtain d ps1 where rd: "rd ra len ps = Some (d, ps1)" by (cases x) auto
    show ?thesis
    proof (cases d)
      case None
      then show ?thesis using Suc.prems rd pipe_run.fails [OF Suc.prems(2), of ra ps1] by auto
    next
      case d: (Some s)
      note tr = pipe_run.a_to_b [OF Suc.prems(2) rd [unfolded d]]
      show ?thesis
      proof (cases "s = []")
        case True
        then show ?thesis using Suc.prems(1) rd d tr [of True ps1] write_all.intros(1) [of wr wb ps1] by auto
      next
        case False
        then obtain ps2 where w: "wr wb s ps1 = Some (int (length s), ps2)"
          and rest: "relay fuel ra wb len rd wr (n + length s) ps2 = Some (r, n', ps')"
          using Suc.prems(1) rd d by (auto split: option.splits if_splits)
        show ?thesis by (rule Suc.IH [OF rest tr [OF write_whole [of s wr wb ps1 ps2, OF False w]]])
      qed
    qed
  qed (use Suc.prems in auto)
qed simp

lemma pipe_run_swap:
  "pipe_run ra wa rb wb len rd wr sel ps0 na nb ok ps \<Longrightarrow> pipe_run rb wb ra wa len rd wr sel ps0 nb na ok ps"
  by (induction rule: pipe_run.induct) (auto intro: pipe_run.intros)

lemma relay_lib_ok: "pipe_lib_ok relay_lib"
  unfolding pipe_lib_ok_def
proof (intro allI impI)
  fix ra wa rb wb len t rd wr sel ps r na nb ps'
  assume lib: "relay_lib ra wa rb wb len t rd wr sel ps = Some (r, na, nb, ps')"
  then obtain r1 na1 ps1 where a: "relay 100 ra wb len rd wr 0 ps = Some (r1, na1, ps1)"
    by (auto simp: relay_lib_def split: option.splits)
  note A = relay_run_a [OF a pipe_run.start, of wa rb sel]
  show "\<exists>ok. pipe_run ra wa rb wb len rd wr sel ps na nb ok ps' \<and> (r = 0 \<or> r = 1 \<longrightarrow> ok)"
  proof (cases "r1 = 0")
    case True
    then have b: "relay 100 rb wa len rd wr 0 ps1 = Some (r, nb, ps')" and "na = na1"
      using lib a by (auto simp: relay_lib_def)
    have "pipe_run rb wb ra wa len rd wr sel ps 0 na1 True ps1" by (rule pipe_run_swap [OF conjunct1 [OF A]])
    from pipe_run_swap [OF conjunct1 [OF relay_run_a [OF b this]]] have "pipe_run ra wa rb wb len rd wr sel ps na1 nb True ps'" .
    then show ?thesis using \<open>na = na1\<close> by blast
  next
    case False
    then have "r = r1" "na = na1" "nb = 0" "ps' = ps1" using lib a by (simp_all add: relay_lib_def)
    then show ?thesis using A by blast
  qed
qed

definition pipe_world :: world where
  "pipe_world = \<lparr>tbuf = [], toff = 0, tbytes = 0,
     ios = two_ios (io_create_fd 0 1 None [Rd_data (''STAT'' @ CRLF), Rd_data (''QUIT'' @ CRLF)] [])
       (io_create_ssl 7 7 None [Rd_data ''+OK 2 '', Rd_data (''320'' @ CRLF)] [])\<rparr>"


lemma pipe_demo:
  "map_option (\<lambda>(rc, na, nb, logged, w). (rc, na, nb, io_out (ios w EU), io_out (ios w RS)))
     (io_pipe relay_lib options_zero RS EU 1024 \<lparr>log_str = [], log_time = 0\<rparr> [] pipe_world) =
   Some (0, 11, 12, ''+OK 2 320'' @ CRLF, ''STAT'' @ CRLF @ ''QUIT'' @ CRLF)"
  by code_simp

lemma main_pipe_demo:
  "map_option (\<lambda>(rc, lines, w). (rc, drop 1 lines, io_out (ios w EU), io_out (ios w RS)))
     (main_pipe relay_lib (demo_env 0 [] []) 0 '' c->s'' [] (session_start None 0) pipe_world) =
   Some (0, [''Closing session: c->s authorisation_id=NONE authentication_id='' @ DQ # ''(null)'' @ DQ # '' received=12 sent=11''],
     ''+OK 2 320'' @ CRLF, ''STAT'' @ CRLF @ ''QUIT'' @ CRLF)"
  by code_simp

theorem io_pipe_channel_witness:
  "\<exists>lines w' from_client from_server bye.
     main_pipe relay_lib (demo_env 0 [] []) 0 '' c->s'' [] (session_start None 0) pipe_world = Some (0, lines, w') \<and>
     rd_bytes (io_rd (ios pipe_world EU)) = from_client @ rd_bytes (io_rd (ios w' EU)) \<and>
     io_out (ios w' RS) = io_out (ios pipe_world RS) @ from_client \<and>
     io_out (ios w' EU) = io_out (ios pipe_world EU) @ from_server @ bye \<and>
     last lines = ''Closing session: c->s authorisation_id=NONE authentication_id='' @ DQ # ''(null)'' @ DQ #
       '' received='' @ dec_string (length from_client) @ '' sent='' @ dec_string (length from_server)"
proof -
  let ?s = "session_start None 0 :: session"
  obtain lines w' where p: "main_pipe relay_lib (demo_env 0 [] []) 0 '' c->s'' [] ?s pipe_world = Some (0, lines, w')"
    using main_pipe_demo by (auto simp: map_option_case split: option.splits)
  have a: "apart RS EU pipe_world" "io_err (ios pipe_world EU) \<noteq> Io_err_timeout"
    by (simp_all add: apart_def pipe_world_def io_create_fd_def io_create_ssl_def io_create_def)
  have i: "protocol_initialise (e_opt (demo_env 0 [] [])) demo_pe PROTOCOL_POP3 = Some (e_proto (demo_env 0 [] []))"
    by (simp add: demo_env_def protocol_initialise_def)
  have z: "quote_str (authorisation_id (s_auth ?s)) = ([], ''NONE'')" "str_null_safe (authentication_id (s_auth ?s)) = ''(null)''"
    by code_simp+
  obtain from_client from_server bye login logged q user where
    c: "rd_bytes (io_rd (ios pipe_world EU)) = from_client @ rd_bytes (io_rd (ios w' EU))"
      "io_out (ios w' RS) = io_out (ios pipe_world RS) @ from_client"
      "io_out (ios w' EU) = io_out (ios pipe_world EU) @ from_server @ bye"
    and q: "(q, user) = quote_str (authorisation_id (s_auth ?s))"
    and l: "lines = login # logged @ [''Closing session:'' @ '' c->s'' @ '' authorisation_id='' @ q @ user @ q
              @ '' authentication_id='' @ DQ # str_null_safe (authentication_id (s_auth ?s)) @ DQ # '' received=''
              @ dec_string (length from_client) @ '' sent='' @ dec_string (length from_server)]"
    using io_pipe_channel [OF relay_lib_ok a i p] unfolding if_P [OF refl] by blast
  have "last lines = ''Closing session: c->s authorisation_id=NONE authentication_id='' @ DQ # ''(null)'' @ DQ #
       '' received='' @ dec_string (length from_client) @ '' sent='' @ dec_string (length from_server)"
    unfolding l using q unfolding z by simp
  with p c show ?thesis by blast
qed

text \<open>
  The password is in no line of the log unless it is asked for. With \<open>log_passwd\<close> set to \<open>fail\<close> it is
  logged for logins that succeed as well.
\<close>

lemma log_auth_passwd:
  assumes "\<not> log_shows_passwd opt reason"
  shows "perdition_log_auth opt now host (a\<lparr>passwd := p\<rparr>) servername port reason mode tls protocol =
    perdition_log_auth opt now host a servername port reason mode tls protocol"
  using assms by (simp add: perdition_log_auth_def Let_def)

lemma log_passwd_fail_logs_ok:
  "log_shows_passwd (options_zero\<lparr>opt_debug := 1, opt_log_passwd := LOG_PASSWD_FAIL\<rparr>) ''ok''"
  by code_simp

text \<open>A read of TLS that has to be tried again is taken for the end of the connection.\<close>

lemma io_read_want_is_end: "io_type x = Io_type_ssl \<Longrightarrow> io_rd x = Rd_want # es \<Longrightarrow> fst (io_read_once x n) = Some []"
  by (simp add: io_read_once_def)

text \<open>
  What the server sends in one packet with its answer to the login stays in the read buffer and is lost.
\<close>

definition answered_at_once :: world where
  "answered_at_once = \<lparr>tbuf = [], toff = 0, tbytes = 0,
     ios = two_ios (io_create_fd 0 1 None [] [])
       (io_create_fd 7 7 None [Rd_data (''+OK'' @ CRLF), Rd_data (''+OK'' @ CRLF @ ''+OK more'' @ CRLF), Rd_data (''+OK'' @ CRLF)] [])\<rparr>"

lemma server_bytes_lost:
  "map_option (\<lambda>(n, logged, w). (n, io_out (ios w EU)))
     (do { (c, s, w) \<leftarrow> main_login (demo_env 0 [] []) ((session_start None 0)\<lparr>s_auth2 := demo_auth\<rparr>) answered_at_once;
           main_pipe relay_lib (demo_env 0 [] []) 0 [] [] s w }) =
   Some (0, ''+OK You are so in'' @ CRLF @ ''+OK'' @ CRLF)"
  by code_simp

end
