(* ===== verification/Buffer.thy ===== *)
theory Buffer
  imports Str
begin

text \<open>
  Buffers of a fixed size that the code writes into: a buffer is the list of its bytes, and a write
  outside of it is a fault (\<open>None\<close>). Shared by the lookup libraries.
\<close>

definition buf_put :: "nat \<Rightarrow> char \<Rightarrow> string \<Rightarrow> string option" where
  "buf_put i c b = (if i < length b then Some (b[i := c]) else None)"

fun buf_copy :: "nat \<Rightarrow> string \<Rightarrow> string \<Rightarrow> string option" where
  "buf_copy i [] b = Some b"
| "buf_copy i (c # s) b = do { b1 \<leftarrow> buf_put i c b; buf_copy (Suc i) s b1 }"

text \<open>\<open>strcat\<close>, \<open>strncat\<close> of the first \<open>n\<close> bytes of \<open>s\<close>, and \<open>strcpy\<close>.\<close>

definition buf_strcat :: "string \<Rightarrow> string \<Rightarrow> string option" where
  "buf_strcat b s = buf_copy (length (cstr b)) (s @ [NUL]) b"

definition buf_strncat :: "string \<Rightarrow> string \<Rightarrow> nat \<Rightarrow> string option" where
  "buf_strncat b s n = buf_copy (length (cstr b)) (take n s @ [NUL]) b"

definition buf_strcpy :: "string \<Rightarrow> string \<Rightarrow> string option" where
  "buf_strcpy b s = buf_copy 0 (cstr s @ [NUL]) b"

subsection \<open>Properties\<close>

lemma buf_copy_append: "length a = i \<Longrightarrow> length m = length s \<Longrightarrow> buf_copy i s (a @ m @ z) = Some (a @ s @ z)"
proof (induction s arbitrary: a i m)
  case (Cons c s)
  then obtain x m' where m: "m = x # m'" "length m' = length s" by (cases m) auto
  then have "buf_put i c (a @ m @ z) = Some ((a @ [c]) @ m' @ z)"
    using Cons.prems(1) by (auto simp: buf_put_def list_update_append)
  moreover have "buf_copy (Suc i) s ((a @ [c]) @ m' @ z) = Some ((a @ [c]) @ s @ z)"
    by (rule Cons.IH) (use Cons.prems(1) m in simp_all)
  ultimately show ?case by simp
qed simp

lemma buf_copy_at:
  assumes "i + length s \<le> length b"
  shows "buf_copy i s b = Some (take i b @ s @ drop (i + length s) b)"
proof -
  have "b = take i b @ take (length s) (drop i b) @ drop (i + length s) b"
    by (metis append_take_drop_id drop_drop add.commute)
  then show ?thesis using buf_copy_append [of "take i b" i "take (length s) (drop i b)" s "drop (i + length s) b"] assms
    by simp
qed

lemma buf_copy_fits: "buf_copy i s b = Some b' \<Longrightarrow> s \<noteq> [] \<Longrightarrow> i + length s \<le> length b"
proof (induction s arbitrary: i b)
  case (Cons c s)
  then show ?case by (cases "s = []") (fastforce simp: buf_put_def split: if_splits)+
qed simp

lemma buf_strcpy_fits: "buf_strcpy b s = Some b' \<Longrightarrow> no_nul s \<Longrightarrow> length s < length b"
  using buf_copy_fits [of 0 "s @ [NUL]" b b'] by (simp add: buf_strcpy_def)

lemma buf_put_at: "i < length b \<Longrightarrow> buf_put i c b = Some (take i b @ c # drop (Suc i) b)"
  by (simp add: buf_put_def upd_conv_take_nth_drop)

lemma cstr_prefix: "no_nul s \<Longrightarrow> cstr (s @ NUL # z) = s"
  by (simp add: cstr_append_no_nul) (simp add: cstr_def)

lemma buf_head: "0 < length b \<Longrightarrow> buf_put 0 NUL b = Some (NUL # tl b)"
  by (cases b) (simp_all add: buf_put_def)

lemma buf_strcpy_prefix:
  assumes "no_nul s" "length s < length b"
  shows "buf_strcpy b (s @ NUL # z) = Some (s @ NUL # drop (Suc (length s)) b)"
  using assms buf_copy_at [of 0 "s @ [NUL]" b] by (simp add: buf_strcpy_def cstr_prefix)

lemma buf_put_append: "length s = i \<Longrightarrow> buf_put i c (s @ x # z) = Some (s @ c # z)"
  by (auto simp: buf_put_def list_update_append)

lemma buf_copy_None: "length b < i + length s \<Longrightarrow> s \<noteq> [] \<Longrightarrow> buf_copy i s b = None"
  using buf_copy_fits [of i s b] by (cases "buf_copy i s b") force+

lemma buf_strcat_spec:
  assumes "no_nul s"
  shows "buf_strcat (s @ NUL # z) t =
    (if length t \<le> length z then Some (s @ t @ NUL # drop (length t) z) else None)"
proof (cases "length t \<le> length z")
  case True
  have "NUL # z = take (length t + 1) (NUL # z) @ drop (length t) z" by simp
  then have "s @ NUL # z = s @ take (length t + 1) (NUL # z) @ drop (length t) z" by simp
  moreover have "length (take (length t + 1) (NUL # z)) = length (t @ [NUL])" using True by simp
  ultimately have "buf_copy (length s) (t @ [NUL]) (s @ NUL # z) = Some (s @ (t @ [NUL]) @ drop (length t) z)"
    using buf_copy_append [OF refl, of "take (length t + 1) (NUL # z)" "t @ [NUL]" s "drop (length t) z"] by simp
  with True show ?thesis by (simp add: buf_strcat_def cstr_prefix [OF assms])
next
  case False
  then show ?thesis by (simp add: buf_strcat_def cstr_prefix [OF assms] buf_copy_None)
qed

end
