(* ===== verification/Regex_Map.thy ===== *)
theory Regex_Map
  imports Getserver Buffer
begin

text \<open>
  The lookup library for regular expressions (\<^verbatim>\<open>perdition/db/posix_regex/perditiondb_posix_regex.c\<close>):
  a list of patterns with substitutions, and the code that puts the parts of a user name into a
  substitution, with its buffers.

  Parameters are the words read from the file, \<open>regcomp\<close> and \<open>regexec\<close>, and what is in the memory
  \<open>malloc\<close> returns. A write outside a buffer is a fault (\<open>None\<close>). Lengths are unbounded integers: the
  code is followed for names and substitutions of less than 2 GB.
\<close>

subsection \<open>The list of patterns\<close>

text \<open>
  The status and the list, which is \<open>None\<close> for NULL. The array stores copies of what is added to it.
\<close>

fun regex_init_loop ::
    "(string \<Rightarrow> bool) \<Rightarrow> string option \<Rightarrow> string list \<Rightarrow> (string \<times> string) list \<Rightarrow> int \<times> (string \<times> string) list option" where
  "regex_init_loop regcomp pattern [] a = (0, Some a)"
| "regex_init_loop regcomp pattern (t # ts) a =
     (if t = [] then regex_init_loop regcomp None ts a
      else case pattern of
             None \<Rightarrow> regex_init_loop regcomp (Some t) ts a
           | Some p \<Rightarrow>
               let p' = (if p \<noteq> [] \<and> last p = CHR '':'' then butlast p else p)
               in if p' = [] then regex_init_loop regcomp None ts a
                  else if \<not> regcomp p' then (-3, None)
                  else regex_init_loop regcomp None ts (a @ [(p', t)]))"

definition regex_dbserver_init :: "(string \<Rightarrow> bool) \<Rightarrow> string list option \<Rightarrow> int \<times> (string \<times> string) list option" where
  "regex_dbserver_init regcomp file =
     (case file of None \<Rightarrow> (-1, None) | Some ts \<Rightarrow> regex_init_loop regcomp None ts [])"

subsection \<open>Growth\<close>

text \<open>A buffer of \<open>buf_len\<close> bytes that is too short for \<open>new_l\<close> is replaced by a longer one.\<close>

definition buf_grow :: "(nat \<Rightarrow> string) \<Rightarrow> int \<Rightarrow> nat \<Rightarrow> string \<Rightarrow> (nat \<times> string) option" where
  "buf_grow malloc new_l buf_len buf =
     (if new_l + 1 > int buf_len
      then let n = 1 + buf_len + 2 * nat new_l in map_option (Pair n) (buf_strcpy (malloc n) buf)
      else Some (buf_len, buf))"

subsection \<open>Substitution\<close>

type_synonym regmatch = "int \<times> int"

definition REXEX_NOSUBMATCH :: nat where "REXEX_NOSUBMATCH = 10"

text \<open>The reference at the head of a string, if there is one: a dollar, and the digit of a part that took part in the match.\<close>

definition backref :: "regmatch list \<Rightarrow> string \<Rightarrow> regmatch option" where
  "backref subs walk =
     (case walk of
        c # d # _ \<Rightarrow>
          if c = CHR ''$'' \<and> c_isdigit d
          then (let m = subs ! (ascii d - 48) in if fst m > -1 \<and> snd m > -1 then Some m else None)
          else None
      | _ \<Rightarrow> None)"

function subst_length :: "regmatch list \<Rightarrow> string \<Rightarrow> int \<Rightarrow> int" where
  "subst_length subs walk new_l =
     (if walk = [] then new_l
      else case backref subs walk of
             Some m \<Rightarrow> subst_length subs (drop 2 walk) (new_l + (snd m - fst m))
           | None \<Rightarrow> subst_length subs (tl walk) (new_l + 1))"
  by pat_completeness auto
termination by (relation "measure (\<lambda>(_, walk, _). length walk)") (auto simp: backref_def split: list.splits)

text \<open>\<open>memcpy\<close> with a negative length is a fault.\<close>

function subst_write :: "regmatch list \<Rightarrow> string \<Rightarrow> string \<Rightarrow> nat \<Rightarrow> string \<Rightarrow> (nat \<times> string) option" where
  "subst_write subs key_str walk walkbuf b =
     (if walk = [] then Some (walkbuf, b)
      else case backref subs walk of
             Some m \<Rightarrow>
               if snd m < fst m \<or> snd m > int (length key_str) then None
               else do { b1 \<leftarrow> buf_copy walkbuf (take (nat (snd m - fst m)) (drop (nat (fst m)) key_str)) b;
                         subst_write subs key_str (drop 2 walk) (walkbuf + nat (snd m - fst m)) b1 }
           | None \<Rightarrow>
               do { b1 \<leftarrow> buf_put walkbuf (hd walk) b;
                    subst_write subs key_str (tl walk) (walkbuf + 1) b1 })"
  by pat_completeness auto
termination by (relation "measure (\<lambda>(_, _, walk, _, _). length walk)") (auto simp: backref_def split: list.splits)

declare subst_length.simps [simp del] subst_write.simps [simp del]

subsection \<open>The lookup\<close>

text \<open>
  One pattern that matches: the buffer and its terminated contents, or \<open>None\<close> inside for the \<open>break\<close>
  out of the search. \<open>malloc n\<close> is what is in the new memory.
\<close>

definition regex_replace ::
    "(nat \<Rightarrow> string) \<Rightarrow> string \<Rightarrow> string \<Rightarrow> regmatch list \<Rightarrow> string option option" where
  "regex_replace malloc key_str replace subs =
     (let string_len = length key_str; so = fst (subs ! 0); eo = snd (subs ! 0) in
      do { buf \<leftarrow> buf_put 0 NUL (malloc (2 * string_len + 1));
           let new_l = subst_length subs replace (int (length (cstr buf)) + so);
           (buf_len, buf1) \<leftarrow> buf_grow malloc new_l (2 * string_len + 1) buf;
           let tmp = length (cstr buf1);
           buf2 \<leftarrow> buf_strncat buf1 key_str (nat so);
           (walkbuf, buf3) \<leftarrow> subst_write subs key_str replace (tmp + nat so) buf2;
           buf4 \<leftarrow> buf_put walkbuf NUL buf3;
           if so = eo
           then if so \<ge> int string_len then Some None
                else do { let new_l2 = length (cstr buf4) + 1;
                          (_, buf5) \<leftarrow> buf_grow malloc (int new_l2) buf_len buf4;
                          let pos = nat eo + 1;
                          buf6 \<leftarrow> buf_put (new_l2 - 1) ((key_str @ [NUL]) ! (pos - 1)) buf5;
                          buf7 \<leftarrow> buf_put new_l2 NUL buf6;
                          buf8 \<leftarrow> buf_put new_l2 NUL buf7;
                          Some (Some (cstr buf8)) }
           else do { buf5 \<leftarrow> buf_put (nat new_l) NUL buf4; Some (Some (cstr buf5)) } })"

fun regex_dbserver_get ::
    "(nat \<Rightarrow> string) \<Rightarrow> (string \<Rightarrow> string \<Rightarrow> regmatch list option) \<Rightarrow> (string \<times> string) list \<Rightarrow> string \<Rightarrow>
     (int \<times> string option) option" where
  "regex_dbserver_get malloc regexec [] key_str = Some (-2, None)"
| "regex_dbserver_get malloc regexec ((pattern, replace) # a) key_str =
     (case regexec pattern key_str of
        None \<Rightarrow> regex_dbserver_get malloc regexec a key_str
      | Some subs \<Rightarrow>
          (case regex_replace malloc key_str replace subs of
             None \<Rightarrow> None
           | Some None \<Rightarrow> Some (-2, None)
           | Some (Some s) \<Rightarrow> Some (0, Some s)))"

text \<open>Freeing the list.\<close>

definition regex_dbserver_fini :: "(string \<times> string) list option \<Rightarrow> int \<times> (string \<times> string) list option" where
  "regex_dbserver_fini a = (0, None)"



subsection \<open>Properties\<close>

text \<open>The substitution with the references replaced.\<close>

function expand_refs :: "regmatch list \<Rightarrow> string \<Rightarrow> string \<Rightarrow> string" where
  "expand_refs subs key_str walk =
     (if walk = [] then []
      else case backref subs walk of
             Some m \<Rightarrow> take (nat (snd m - fst m)) (drop (nat (fst m)) key_str) @ expand_refs subs key_str (drop 2 walk)
           | None \<Rightarrow> hd walk # expand_refs subs key_str (tl walk))"
  by pat_completeness auto
termination by (relation "measure (\<lambda>(_, _, walk). length walk)") (auto simp: backref_def split: list.splits)

declare expand_refs.simps [simp del]

lemma expand_refs_Nil [simp]: "expand_refs subs key_str [] = []"
  by (simp add: expand_refs.simps)

text \<open>What \<open>regexec\<close> answers for a match: every part that took part is a range in the name.\<close>

definition valid_match :: "string \<Rightarrow> regmatch list \<Rightarrow> bool" where
  "valid_match key_str subs \<longleftrightarrow> length subs = REXEX_NOSUBMATCH \<and> fst (subs ! 0) > -1 \<and> snd (subs ! 0) > -1 \<and>
     (\<forall>m\<in>set subs. fst m > -1 \<and> snd m > -1 \<longrightarrow> fst m \<le> snd m \<and> snd m \<le> int (length key_str))"

lemma backref_valid:
  assumes "valid_match key_str subs" "backref subs walk = Some m"
  shows "0 \<le> fst m" "fst m \<le> snd m" "snd m \<le> int (length key_str)"
proof -
  obtain d where d: "c_isdigit d" "m = subs ! (ascii d - 48)" "fst m > -1" "snd m > -1"
    using assms(2) by (auto simp: backref_def Let_def split: list.splits if_splits)
  then have "m \<in> set subs" using assms(1) by (auto simp: valid_match_def REXEX_NOSUBMATCH_def c_isdigit_def)
  then show "0 \<le> fst m" "fst m \<le> snd m" "snd m \<le> int (length key_str)" using assms(1) d by (auto simp: valid_match_def)
qed

lemma subst_length_expand:
  assumes "valid_match key_str subs"
  shows "subst_length subs walk n = n + int (length (expand_refs subs key_str walk))"
proof (induction "length walk" arbitrary: walk n rule: less_induct)
  case less
  show ?case
  proof (cases "walk = []")
    case False
    show ?thesis
    proof (cases "backref subs walk")
      case None
      then show ?thesis using less [of "tl walk" "n + 1"] False
        by (simp add: subst_length.simps [of _ walk] expand_refs.simps [of _ _ walk])
    next
      case (Some m)
      note v = backref_valid [OF assms Some]
      show ?thesis using less [of "drop 2 walk" "n + (snd m - fst m)"] False Some v
        by (simp add: subst_length.simps [of _ walk] expand_refs.simps [of _ _ walk])
    qed
  qed (simp add: subst_length.simps expand_refs.simps)
qed

lemma subst_write_expand:
  assumes "valid_match key_str subs"
  shows "i + length (expand_refs subs key_str walk) \<le> length b \<Longrightarrow>
    subst_write subs key_str walk i b =
      Some (i + length (expand_refs subs key_str walk),
        take i b @ expand_refs subs key_str walk @ drop (i + length (expand_refs subs key_str walk)) b)"
proof (induction "length walk" arbitrary: walk i b rule: less_induct)
  case less
  show ?case
  proof (cases "walk = []")
    case False
    show ?thesis
    proof (cases "backref subs walk")
      case None
      then have e: "expand_refs subs key_str walk = hd walk # expand_refs subs key_str (tl walk)"
        using False by (simp add: expand_refs.simps [of _ _ walk])
      show ?thesis using less.hyps [of "tl walk" "i + 1" "take i b @ hd walk # drop (Suc i) b"] less.prems False None
        by (simp add: subst_write.simps [of _ _ walk] e buf_put_at add.commute [of _ i])
    next
      case (Some m)
      note v = backref_valid [OF assms Some]
      define s where "s = take (nat (snd m - fst m)) (drop (nat (fst m)) key_str)"
      have l: "length s = nat (snd m - fst m)" using v by (simp add: s_def)
      have e: "expand_refs subs key_str walk = s @ expand_refs subs key_str (drop 2 walk)"
        using False Some by (simp add: expand_refs.simps [of _ _ walk] s_def)
      show ?thesis
        using less.hyps [of "drop 2 walk" "i + nat (snd m - fst m)" "take i b @ s @ drop (i + length s) b"] less.prems False Some v
        by (simp add: subst_write.simps [of _ _ walk] e buf_copy_at s_def [symmetric] l ac_simps)
    qed
  qed (simp add: subst_write.simps expand_refs.simps)
qed


text \<open>What a rule makes of a name it matches.\<close>

definition regex_server :: "string \<Rightarrow> string \<Rightarrow> regmatch list \<Rightarrow> string option" where
  "regex_server key_str replace subs =
     (let so = nat (fst (subs ! 0)); eo = nat (snd (subs ! 0));
          s = take so key_str @ expand_refs subs key_str replace
      in if so < eo then Some s
         else if so < length key_str then Some (s @ [key_str ! so])
         else None)"

lemma no_nul_take: "no_nul s \<Longrightarrow> no_nul (take n s)" "no_nul s \<Longrightarrow> no_nul (drop n s)"
  by (auto simp: no_nul_def dest: in_set_takeD in_set_dropD)

lemma no_nul_expand: "no_nul key_str \<Longrightarrow> no_nul walk \<Longrightarrow> no_nul (expand_refs subs key_str walk)"
proof (induction "length walk" arbitrary: walk rule: less_induct)
  case less
  have t: "walk \<noteq> [] \<Longrightarrow> hd walk \<noteq> NUL \<and> no_nul (tl walk)" using less.prems(2) by (cases walk) auto
  show ?case using less.hyps [of "drop 2 walk"] less.hyps [of "tl walk"] less.prems t
    by (cases "walk = []") (auto simp: expand_refs.simps [of subs key_str walk] no_nul_take split: option.split)
qed

lemma buf_grow_prefix:
  assumes "no_nul s" "length (s @ NUL # z) = n" "0 \<le> new_l" "\<And>n. length (malloc n) = n"
  shows "\<exists>n' z'. buf_grow malloc new_l n (s @ NUL # z) = Some (n', s @ NUL # z') \<and> length (s @ NUL # z') = n' \<and> new_l < int n'"
proof (cases "new_l + 1 > int n")
  case True
  define n' where "n' = 1 + n + 2 * nat new_l"
  have "buf_strcpy (malloc n') (s @ NUL # z) = Some (s @ NUL # drop (Suc (length s)) (malloc n'))"
    by (rule buf_strcpy_prefix [OF assms(1)]) (use assms(2,4) in \<open>simp add: n'_def\<close>)
  moreover have "length (s @ NUL # drop (Suc (length s)) (malloc n')) = n'" using assms(2,4) by (simp add: n'_def)
  ultimately show ?thesis using True by (auto simp: buf_grow_def n'_def)
qed (use assms(2) in \<open>auto simp: buf_grow_def\<close>)

lemma regex_replace_spec:
  assumes v: "valid_match key_str subs" and "no_nul key_str" "no_nul replace" and malloc: "\<And>n. length (malloc n) = n"
  shows "regex_replace malloc key_str replace subs = Some (regex_server key_str replace subs)"
proof -
  define e where "e = expand_refs subs key_str replace"
  define so where "so = nat (fst (subs ! 0))"
  define eo where "eo = nat (snd (subs ! 0))"
  have "subs ! 0 \<in> set subs" using v by (auto simp: valid_match_def REXEX_NOSUBMATCH_def)
  then have r: "fst (subs ! 0) = int so" "snd (subs ! 0) = int eo" "so \<le> eo" "eo \<le> length key_str"
    using v by (auto simp: valid_match_def so_def eo_def)
  define P where "P = take so key_str @ e"
  have P: "no_nul P" "length P = so + length e" using assms(2,3) r
    by (simp_all add: P_def e_def no_nul_take no_nul_expand)
  define n where "n = 2 * length key_str + 1"
  have put: "buf_put 0 NUL (malloc n) = Some (NUL # tl (malloc n))" using malloc by (intro buf_head) (simp add: n_def)
  have c0: "cstr (NUL # z) = []" for z using cstr_prefix [of "[]" z] by simp
  have len: "subst_length subs replace (int so) = int (so + length e)" using subst_length_expand [OF v] by (simp add: e_def)
  obtain n1 z where g1: "buf_grow malloc (int (so + length e)) n (NUL # tl (malloc n)) = Some (n1, NUL # z)"
    and n1: "length (NUL # z) = n1" "so + length e < n1"
    using buf_grow_prefix [of "[]" "tl (malloc n)" n "int (so + length e)" malloc] malloc by (auto simp: n_def)
  have cat: "buf_strncat (NUL # z) key_str so = Some (take so key_str @ NUL # drop so z)"
    using buf_copy_at [of 0 "take so key_str @ [NUL]" "NUL # z"] r n1 by (simp add: buf_strncat_def c0 min_absorb2)
  obtain z3 where wr: "subst_write subs key_str replace so (take so key_str @ NUL # drop so z) = Some (so + length e, P @ z3)"
    and z3: "length (P @ z3) = n1"
    using subst_write_expand [OF v, of so replace "take so key_str @ NUL # drop so z"] r n1 by (auto simp: P_def e_def)
  then obtain x z4 where z4: "z3 = x # z4" using P n1 by (cases z3) auto
  have fin: "buf_put (so + length e) NUL (P @ z3) = Some (P @ NUL # z4)" using buf_put_append [OF P(2)] z4 by simp
  have cP: "cstr (P @ NUL # z) = P" for z by (rule cstr_prefix [OF P(1)])
  obtain n2 z5 where g2: "buf_grow malloc (int (so + length e) + 1) n1 (P @ NUL # z4) = Some (n2, P @ NUL # z5)"
    and n2: "length (P @ NUL # z5) = n2" "so + length e + 1 < n2"
    using buf_grow_prefix [OF P(1), of z4 n1 "int (so + length e) + 1" malloc] malloc z3 z4 by auto
  then obtain y z6 where z6: "z5 = y # z6" using P n2 by (cases z5) auto
  have last: "cstr ((P @ [c]) @ NUL # z6) = P @ [c]" if "c \<noteq> NUL" for c using P(1) that by (intro cstr_prefix) simp
  have k: "key_str ! eo \<noteq> NUL \<and> (key_str @ [NUL]) ! eo = key_str ! eo" if "eo < length key_str"
    using assms(2) nth_mem [OF that] that by (auto simp: no_nul_def nth_append simp del: nth_mem)
  have put2: "buf_put (so + length e) c (P @ NUL # z5) = Some ((P @ [c]) @ y # z6)"
    "buf_put (Suc (so + length e)) NUL ((P @ [c]) @ y' # z6) = Some ((P @ [c]) @ NUL # z6)" for c y'
    using buf_put_append [OF P(2)] buf_put_append [of "P @ [c]" "Suc (so + length e)"] P(2) z6 by simp_all
  have server: "regex_server key_str replace subs =
      (if so < eo then Some P else if so < length key_str then Some (P @ [key_str ! so]) else None)"
    by (simp add: regex_server_def Let_def r e_def [symmetric] P_def)
  have start: "regex_replace malloc key_str replace subs =
      (if so = eo
       then if length key_str \<le> so then Some None
            else do { buf6 \<leftarrow> buf_put (so + length e) ((key_str @ [NUL]) ! eo) (P @ NUL # z5);
                      buf7 \<leftarrow> buf_put (Suc (so + length e)) NUL buf6;
                      buf8 \<leftarrow> buf_put (Suc (so + length e)) NUL buf7;
                      Some (Some (cstr buf8)) }
       else do { buf5 \<leftarrow> buf_put (so + length e) NUL (P @ NUL # z4); Some (Some (cstr buf5)) })"
  proof (cases "eo = so")
    case True
    show ?thesis using put g1 cat wr fin g2 unfolding n_def True
      by (simp add: regex_replace_def Let_def r True c0 cP len P(2) nat_int_add add.commute [of 1])
  next
    case False
    then show ?thesis using put g1 cat wr fin unfolding n_def
      by (simp add: regex_replace_def Let_def r c0 cP len P(2) nat_int_add add.commute [of 1])
  qed
  show ?thesis
  proof (cases "so = eo")
    case True
    show ?thesis
    proof (cases "eo < length key_str")
      case t: True
      show ?thesis unfolding start server using True t put2 last [of "key_str ! eo"] k [OF t] by simp
    qed (use True in \<open>simp add: start server\<close>)
  next
    case False
    then show ?thesis unfolding start server using r(3) buf_put_append [OF P(2)] cP by simp
  qed
qed


text \<open>
  C36. The lookup: the first rule whose expression matches decides, its references are replaced by the
  parts of the name, and no byte is written outside the buffers, for every name and rule. What comes
  before the match stays in front of the result; an empty match adds the character at the match, and at
  the end of the name it ends the search.
\<close>

theorem regex_dbserver_get_spec:
  assumes "\<And>n. length (malloc n) = n"
    and "\<And>pattern subs. regexec pattern key_str = Some subs \<Longrightarrow> valid_match key_str subs"
    and "no_nul key_str" and "\<forall>(pattern, replace)\<in>set rules. no_nul replace"
  shows "regex_dbserver_get malloc regexec rules key_str =
     Some (case find (\<lambda>(pattern, replace). regexec pattern key_str \<noteq> None) rules of
             None \<Rightarrow> (-2, None)
           | Some (pattern, replace) \<Rightarrow>
               (case regex_server key_str replace (the (regexec pattern key_str)) of None \<Rightarrow> (-2, None) | Some s \<Rightarrow> (0, Some s)))"
  using assms(4)
proof (induction rules)
  case (Cons rule rules)
  obtain pattern replace where r: "rule = (pattern, replace)" by (cases rule)
  then show ?case using Cons regex_replace_spec [OF assms(2) assms(3) _ assms(1), of pattern _ replace]
    by (auto split: option.split)
qed simp

text \<open>
  The file: every line of an expression, with or without a colon, and a substitution is a rule, in
  the order of the file.
\<close>

lemma regex_init_rules:
  assumes "\<forall>(p, colon, s)\<in>set lines. p \<noteq> [] \<and> s \<noteq> [] \<and> regcomp p \<and> (\<not> colon \<longrightarrow> last p \<noteq> CHR '':'')"
  shows "regex_dbserver_init regcomp (Some (concat (map (\<lambda>(p, colon, s). [p @ (if colon then '':'' else []), s, []]) lines))) =
     (0, Some (map (\<lambda>(p, colon, s). (p, s)) lines))"
proof -
  have "regex_init_loop regcomp None (concat (map (\<lambda>(p, colon, s). [p @ (if colon then '':'' else []), s, []]) lines)) a =
     (0, Some (a @ map (\<lambda>(p, colon, s). (p, s)) lines))" for a
    using assms by (induction lines arbitrary: a) (auto simp: butlast_append Let_def)
  then show ?thesis by (simp add: regex_dbserver_init_def)
qed

subsection \<open>Examples\<close>

text \<open>Expressions that are words: a match is the first occurrence.\<close>

definition word_regexec :: "string \<Rightarrow> string \<Rightarrow> regmatch list option" where
  "word_regexec pattern key_str =
     map_option (\<lambda>i. (int i, int (i + length pattern)) # replicate 9 (-1, -1)) (strstr key_str pattern)"

definition demo_malloc :: "nat \<Rightarrow> string" where "demo_malloc n = replicate n CHR ''x''"

lemma strstr_bound: "strstr h n = Some i \<Longrightarrow> i + length n \<le> length h"
proof (induction h arbitrary: i)
  case Nil
  then show ?case by (auto simp: strstr.simps [of "[]"] split: if_splits)
next
  case (Cons c h)
  then show ?case by (auto simp: strstr.simps [of "c # h"] dest: prefix_length_le split: if_splits)
qed

lemma word_regexec_valid: "word_regexec pattern key_str = Some subs \<Longrightarrow> valid_match key_str subs"
  using strstr_bound [of key_str pattern] by (auto simp: word_regexec_def valid_match_def REXEX_NOSUBMATCH_def)

theorem regex_dbserver_get_spec_witness:
  "regex_dbserver_get demo_malloc word_regexec [(''flam'', ''mail''), (''flim'', ''$0.org'')] ''itsflim'' =
     Some (0, Some ''itsflim.org'')"
proof -
  have "find (\<lambda>(pattern, replace). word_regexec pattern ''itsflim'' \<noteq> None) [(''flam'', ''mail''), (''flim'', ''$0.org'')] =
      Some (''flim'', ''$0.org'')"
    "regex_server ''itsflim'' ''$0.org'' (the (word_regexec ''flim'' ''itsflim'')) = Some ''itsflim.org''"
    by code_simp+
  with regex_dbserver_get_spec [of demo_malloc word_regexec "''itsflim''" "[(''flam'', ''mail''), (''flim'', ''$0.org'')]"]
  show ?thesis by (simp add: word_regexec_valid demo_malloc_def)
qed

theorem regex_init_rules_witness:
  "regex_dbserver_init (\<lambda>_. True) (Some [''flim:'', ''localhost'', [], ''flam'', ''mail'', []]) =
     (0, Some [(''flim'', ''localhost''), (''flam'', ''mail'')])"
  using regex_init_rules [of "[(''flim'', True, ''localhost''), (''flam'', False, ''mail'')]" "\<lambda>_. True"] by simp

text \<open>
  The rule \<open>flim: localhost\<close> of the manual sends the user \<open>itsflim\<close> to the server \<open>itslocalhost\<close>; a rule
  whose expression matches the empty string adds a character of the name; and at the end of the name
  such a match hides the rules behind it.
\<close>

lemma regex_prefix_kept:
  "regex_dbserver_get demo_malloc word_regexec [(''flim'', ''localhost'')] ''itsflim'' = Some (0, Some ''itslocalhost'')"
  by code_simp

lemma regex_empty_match:
  "regex_dbserver_get demo_malloc (\<lambda>_ _. Some (replicate 10 (0, 0))) [([], ''localhost'')] ''joe'' = Some (0, Some ''localhostj'')"
  by code_simp

lemma regex_empty_match_at_end:
  "regex_dbserver_get demo_malloc (\<lambda>p k. Some (replicate 10 (if p = ''$'' then (3, 3) else (0, 3))))
     [(''$'', ''localhost''), (''joe'', ''mail'')] ''joe'' = Some (-2, None)"
  by code_simp

end
