(* ===== verification/Ssl_Ctx.thy ===== *)
theory Ssl_Ctx
  imports Ssl
begin

text \<open>
  The TLS contexts (\<open>perdition_ssl_ctx\<close> of \<^verbatim>\<open>perdition/ssl.c\<close>) and the callback that reads a pass
  phrase. A context is the record of what has been set in it. The answers of OpenSSL and of the file
  system are parameters, fields of \<open>ctx_env\<close>.
\<close>

definition PERDITION_SSL_CLIENT :: flag_t where "PERDITION_SSL_CLIENT = 0x1"
definition PERDITION_SSL_SERVER :: flag_t where "PERDITION_SSL_SERVER = 0x2"

subsection \<open>Pass phrases\<close>

text \<open>What the descriptor is: not a descriptor, something that is no terminal, or a terminal whose modes can be read and set.\<close>

record pass_env =
  pe_tty :: bool
  pe_badf :: bool
  pe_getattr :: bool
  pe_noecho :: bool
  pe_restore :: bool
  pe_read :: "string option"

text \<open>The result with the contents of the buffer of \<open>bufsize\<close> bytes; \<open>buf\<close> is what it held before.\<close>

definition perdition_ssl_passwd_cb :: "pass_env \<Rightarrow> string \<Rightarrow> nat \<Rightarrow> (int \<times> string) option" where
  "perdition_ssl_passwd_cb e buf bufsize =
     (if \<not> pe_tty e \<and> pe_badf e then Some (-1, buf)
      else if pe_tty e \<and> \<not> (pe_getattr e \<and> pe_noecho e) then Some (-1, buf)
      else let nbytes = map_option (take (bufsize - 1)) (pe_read e) in
           case nbytes of
             None \<Rightarrow> Some (-1, buf)
           | Some s \<Rightarrow>
               let b1 = s @ drop (length s) buf in
               if pe_tty e \<and> \<not> pe_restore e then Some (-1, b1)
               else if length s \<ge> length b1 then None
               else let b2 = b1[length s := NUL];
                        b3 = (case strchr (cstr b2) LF of None \<Rightarrow> b2 | Some i \<Rightarrow> b2[i := NUL]);
                        b4 = (case strchr (cstr b3) CR of None \<Rightarrow> b3 | Some i \<Rightarrow> b3[i := NUL])
                    in Some (int (length (cstr b4)), b4))"

subsection \<open>Versions\<close>

datatype ssl_op = SSL_OP_NO_SSLv2 | SSL_OP_NO_SSLv3 | SSL_OP_NO_TLSv1 | SSL_OP_NO_TLSv1_1 | SSL_OP_NO_TLSv1_2
  | SSL_OP_NO_COMPRESSION | SSL_OP_CIPHER_SERVER_PREFERENCE | SSL_OP_SINGLE_DH_USE

text \<open>The functions that stand in for those of newer versions of OpenSSL: the options they set.\<close>

definition perdition_ssl_ctx_set_min_proto_version :: "int \<Rightarrow> ssl_op set option" where
  "perdition_ssl_ctx_set_min_proto_version min_version =
     (if min_version = TLS1_2_VERSION then Some {SSL_OP_NO_SSLv2, SSL_OP_NO_TLSv1_1, SSL_OP_NO_TLSv1, SSL_OP_NO_SSLv3}
      else if min_version = TLS1_1_VERSION then Some {SSL_OP_NO_SSLv2, SSL_OP_NO_TLSv1, SSL_OP_NO_SSLv3}
      else if min_version = TLS1_VERSION then Some {SSL_OP_NO_SSLv2, SSL_OP_NO_SSLv3}
      else if min_version = SSL3_VERSION then Some {SSL_OP_NO_SSLv2}
      else None)"

definition perdition_ssl_ctx_set_max_proto_version :: "int \<Rightarrow> ssl_op set option" where
  "perdition_ssl_ctx_set_max_proto_version max_version =
     (if max_version = SSL3_VERSION then Some {SSL_OP_NO_TLSv1, SSL_OP_NO_TLSv1_1, SSL_OP_NO_TLSv1_2}
      else if max_version = TLS1_VERSION then Some {SSL_OP_NO_TLSv1_1, SSL_OP_NO_TLSv1_2}
      else if max_version = TLS1_1_VERSION then Some {SSL_OP_NO_TLSv1_2}
      else if max_version = TLS1_2_VERSION then Some {}
      else None)"

subsection \<open>Contexts\<close>

datatype pass_source = Pass_file string | Pass_fd int

record ssl_ctx =
  cx_ops :: "ssl_op set"
  cx_min :: "int option"
  cx_max :: "int option"
  cx_dh :: "string option"
  cx_ecdh :: bool
  cx_ciphers :: "string option"
  cx_cert :: "string option"
  cx_key :: "string option"
  cx_ca :: "(string option \<times> string option) list"
  cx_depth :: "int option"
  cx_verify :: "bool option"   \<comment> \<open>whether the peer's certificate is asked for and verified\<close>

definition ssl_ctx_empty :: ssl_ctx where
  "ssl_ctx_empty = \<lparr>cx_ops = {}, cx_min = None, cx_max = None, cx_dh = None, cx_ecdh = False, cx_ciphers = None,
     cx_cert = None, cx_key = None, cx_ca = [], cx_depth = None, cx_verify = None\<rparr>"

text \<open>\<open>ce_ciphers\<close> is the result of \<open>SSL_CTX_set_cipher_list\<close>: 1, or 0 for a string without ciphers.\<close>

record ctx_env =
  ce_new :: bool
  ce_session_id :: bool
  ce_min :: "int \<Rightarrow> bool"
  ce_max :: "int \<Rightarrow> bool"
  ce_fopen :: "string \<Rightarrow> bool"
  ce_read_dh :: "string \<Rightarrow> bool"
  ce_set_dh :: "string \<Rightarrow> bool"
  ce_ecdh_new :: bool
  ce_ecdh_set :: bool
  ce_ciphers :: "string \<Rightarrow> int"
  ce_cert :: "string \<Rightarrow> int"
  ce_open :: "string \<Rightarrow> bool"
  ce_key :: "string option \<Rightarrow> pass_source \<Rightarrow> int"
  ce_load_ca :: "string option \<Rightarrow> string option \<Rightarrow> bool"

definition ctx_min :: "ctx_env \<Rightarrow> string option \<Rightarrow> ssl_ctx \<Rightarrow> ssl_ctx option" where
  "ctx_min E ver_str cx =
     (case ver_str of
        None \<Rightarrow> Some cx
      | Some v \<Rightarrow>
          let ver_no = perdition_parse_ssl_proto_version v in
          if ver_no < 0 \<or> \<not> ce_min E ver_no then None else Some (cx\<lparr>cx_min := Some ver_no\<rparr>))"

definition ctx_max :: "ctx_env \<Rightarrow> string option \<Rightarrow> ssl_ctx \<Rightarrow> ssl_ctx option" where
  "ctx_max E ver_str cx =
     (case ver_str of
        None \<Rightarrow> Some cx
      | Some v \<Rightarrow>
          let ver_no = perdition_parse_ssl_proto_version v in
          if ver_no < 0 \<or> \<not> ce_max E ver_no then None else Some (cx\<lparr>cx_max := Some ver_no\<rparr>))"

definition ctx_ops :: "options \<Rightarrow> flag_t \<Rightarrow> ssl_ctx \<Rightarrow> ssl_ctx" where
  "ctx_ops opt flag cx =
     (let cx1 = (if (flag = PERDITION_SSL_CLIENT \<and> opt_ssl_outgoing_compression opt = 0) \<and>
                    (flag \<noteq> PERDITION_SSL_CLIENT \<and> opt_ssl_listen_compression opt = 0)
                 then cx\<lparr>cx_ops := insert SSL_OP_NO_COMPRESSION (cx_ops cx)\<rparr> else cx)
      in if flag = PERDITION_SSL_SERVER \<and> opt_ssl_no_cipher_server_preference opt = 0
         then cx1\<lparr>cx_ops := insert SSL_OP_CIPHER_SERVER_PREFERENCE (cx_ops cx1)\<rparr> else cx1)"

definition ctx_dh :: "ctx_env \<Rightarrow> flag_t \<Rightarrow> string option \<Rightarrow> string option \<Rightarrow> ssl_ctx \<Rightarrow> ssl_ctx option" where
  "ctx_dh E flag dh_params_file cert cx =
     (case (if dh_params_file \<noteq> None then dh_params_file else cert) of
        None \<Rightarrow> Some cx
      | Some dhfile \<Rightarrow>
          if flag AND PERDITION_SSL_SERVER = 0 then Some cx
          else if \<not> ce_fopen E dhfile \<or> \<not> ce_read_dh E dhfile then (if dh_params_file \<noteq> None then None else Some cx)
          else Some (cx\<lparr>cx_dh := (if ce_set_dh E dhfile then Some dhfile else cx_dh cx),
                       cx_ops := insert SSL_OP_SINGLE_DH_USE (cx_ops cx)\<rparr>))"

definition ctx_ecdh :: "ctx_env \<Rightarrow> flag_t \<Rightarrow> ssl_ctx \<Rightarrow> ssl_ctx" where
  "ctx_ecdh E flag cx =
     (if flag AND PERDITION_SSL_SERVER \<noteq> 0 \<and> ce_ecdh_new E \<and> ce_ecdh_set E then cx\<lparr>cx_ecdh := True\<rparr> else cx)"

text \<open>A string without ciphers is noticed only if the result is negative.\<close>

definition ctx_ciphers :: "ctx_env \<Rightarrow> string option \<Rightarrow> ssl_ctx \<Rightarrow> ssl_ctx" where
  "ctx_ciphers E ciphers cx =
     (case ciphers of None \<Rightarrow> cx | Some c \<Rightarrow> if ce_ciphers E c > 0 then cx\<lparr>cx_ciphers := Some c\<rparr> else cx)"

definition ctx_cert :: "ctx_env \<Rightarrow> string option \<Rightarrow> ssl_ctx \<Rightarrow> ssl_ctx option" where
  "ctx_cert E cert cx =
     (case cert of None \<Rightarrow> Some cx | Some c \<Rightarrow> if ce_cert E c \<le> 0 then None else Some (cx\<lparr>cx_cert := Some c\<rparr>))"

definition ctx_key :: "ctx_env \<Rightarrow> options \<Rightarrow> string option \<Rightarrow> string option \<Rightarrow> ssl_ctx \<Rightarrow> ssl_ctx option" where
  "ctx_key E opt cert privkey cx =
     (case opt_ssl_passphrase_file opt of
        Some f \<Rightarrow>
          if \<not> ce_open E f then None
          else if cert \<noteq> None \<and> ce_key E privkey (Pass_file f) \<le> 0 then None
          else Some (if cert \<noteq> None then cx\<lparr>cx_key := privkey\<rparr> else cx)
      | None \<Rightarrow>
          if cert \<noteq> None \<and> ce_key E privkey (Pass_fd (opt_ssl_passphrase_fd opt)) \<le> 0 then None
          else Some (if cert \<noteq> None then cx\<lparr>cx_key := privkey\<rparr> else cx))"

definition non_empty :: "string option \<Rightarrow> string option" where
  "non_empty s = (if str_empty s then None else s)"

definition ctx_verify ::
    "ctx_env \<Rightarrow> options \<Rightarrow> string option \<Rightarrow> string option \<Rightarrow> string option \<Rightarrow> flag_t \<Rightarrow> ssl_ctx \<Rightarrow> ssl_ctx option" where
  "ctx_verify E opt ca_file ca_path ca_chain_file flag cx =
     (if flag AND PERDITION_SSL_CLIENT \<noteq> 0 \<and> opt_ssl_no_cert_verify opt \<noteq> 0 then Some cx
      else let use_ca_file = non_empty ca_file; use_ca_path = non_empty ca_path;
               ca = (use_ca_file \<noteq> None \<or> use_ca_path \<noteq> None)
           in if ca \<and> \<not> ce_load_ca E use_ca_file use_ca_path then None
              else let cx1 = cx\<lparr>cx_ca := (if ca then cx_ca cx @ [(use_ca_file, use_ca_path)] else cx_ca cx),
                           cx_depth := Some (opt_ssl_cert_verify_depth opt + 1),
                           cx_verify := Some (\<not> (flag AND PERDITION_SSL_SERVER \<noteq> 0 \<and>
                              (opt_ssl_no_cert_verify opt \<noteq> 0 \<or> opt_ssl_no_client_cert_verify opt \<noteq> 0)))\<rparr>
                   in case ca_chain_file of
                        None \<Rightarrow> Some cx1
                      | Some f \<Rightarrow> if ce_load_ca E (Some f) None then Some (cx1\<lparr>cx_ca := cx_ca cx1 @ [(Some f, None)]\<rparr>) else None)"

definition perdition_ssl_ctx ::
    "ctx_env \<Rightarrow> options \<Rightarrow> string option \<Rightarrow> string option \<Rightarrow> string option \<Rightarrow> string option \<Rightarrow> string option \<Rightarrow>
     string option \<Rightarrow> string option \<Rightarrow> flag_t \<Rightarrow> ssl_ctx option" where
  "perdition_ssl_ctx E opt ca_file ca_path cert privkey ca_chain_file dh_params_file ciphers flag =
     (if (cert = None) \<noteq> (privkey = None) then None
      else if \<not> ce_new E \<or> \<not> ce_session_id E then None
      else let client = (flag = PERDITION_SSL_CLIENT) in
           do { cx1 \<leftarrow> ctx_min E (if client then opt_ssl_outgoing_min_proto_version opt else opt_ssl_listen_min_proto_version opt) ssl_ctx_empty;
                cx2 \<leftarrow> ctx_max E (if client then opt_ssl_outgoing_max_proto_version opt else opt_ssl_listen_max_proto_version opt) cx1;
                cx3 \<leftarrow> ctx_dh E flag dh_params_file cert (ctx_ops opt flag cx2);
                cx4 \<leftarrow> ctx_cert E cert (ctx_ciphers E ciphers (ctx_ecdh E flag cx3));
                cx5 \<leftarrow> ctx_key E opt cert privkey cx4;
                ctx_verify E opt ca_file ca_path ca_chain_file flag cx5 })"



subsection \<open>Properties\<close>

lemma ssl_flags [simp]:
  "PERDITION_SSL_CLIENT \<noteq> PERDITION_SSL_SERVER" "PERDITION_SSL_SERVER \<noteq> PERDITION_SSL_CLIENT"
  "PERDITION_SSL_CLIENT AND PERDITION_SSL_CLIENT \<noteq> 0" "PERDITION_SSL_SERVER AND PERDITION_SSL_SERVER \<noteq> 0"
  "PERDITION_SSL_CLIENT AND PERDITION_SSL_SERVER = 0" "PERDITION_SSL_SERVER AND PERDITION_SSL_CLIENT = 0"
  by (simp_all add: PERDITION_SSL_CLIENT_def PERDITION_SSL_SERVER_def)

text \<open>What each step sets, and what it leaves alone.\<close>

definition checks :: "ssl_ctx \<Rightarrow> (string option \<times> string option) list \<times> int option \<times> bool option" where
  "checks cx = (cx_ca cx, cx_depth cx, cx_verify cx)"

definition versions :: "ssl_ctx \<Rightarrow> int option \<times> int option" where
  "versions cx = (cx_min cx, cx_max cx)"

lemma ctx_min_D:
  assumes "ctx_min E v cx = Some cx'" "cx_min cx = None"
  shows "cx_min cx' = map_option perdition_parse_ssl_proto_version v" "cx_max cx' = cx_max cx" "checks cx' = checks cx"
    "cx_ops cx' = cx_ops cx" "cx_cert cx' = cx_cert cx" "cx_key cx' = cx_key cx" "v \<noteq> None \<longrightarrow> 0 \<le> the (cx_min cx')"
  using assms by (auto simp: ctx_min_def checks_def Let_def split: option.splits if_splits)

lemma ctx_max_D:
  assumes "ctx_max E v cx = Some cx'" "cx_max cx = None"
  shows "cx_max cx' = map_option perdition_parse_ssl_proto_version v" "cx_min cx' = cx_min cx" "checks cx' = checks cx"
    "cx_ops cx' = cx_ops cx" "cx_cert cx' = cx_cert cx" "cx_key cx' = cx_key cx" "v \<noteq> None \<longrightarrow> 0 \<le> the (cx_max cx')"
  using assms by (auto simp: ctx_max_def checks_def Let_def split: option.splits if_splits)

lemma ctx_ops_D:
  "versions (ctx_ops opt flag cx) = versions cx" "checks (ctx_ops opt flag cx) = checks cx"
  "cx_cert (ctx_ops opt flag cx) = cx_cert cx" "cx_key (ctx_ops opt flag cx) = cx_key cx"
  "SSL_OP_NO_COMPRESSION \<in> cx_ops (ctx_ops opt flag cx) \<longleftrightarrow> SSL_OP_NO_COMPRESSION \<in> cx_ops cx"
  by (auto simp: ctx_ops_def versions_def checks_def Let_def)

lemma ctx_dh_D:
  assumes "ctx_dh E flag dh cert cx = Some cx'"
  shows "versions cx' = versions cx" "checks cx' = checks cx" "cx_cert cx' = cx_cert cx" "cx_key cx' = cx_key cx"
    "SSL_OP_NO_COMPRESSION \<in> cx_ops cx' \<longleftrightarrow> SSL_OP_NO_COMPRESSION \<in> cx_ops cx"
  using assms by (auto simp: ctx_dh_def versions_def checks_def split: option.splits if_splits)

lemma ctx_set_D:
  "versions (ctx_ciphers E c (ctx_ecdh E flag cx)) = versions cx" "checks (ctx_ciphers E c (ctx_ecdh E flag cx)) = checks cx"
  "cx_cert (ctx_ciphers E c (ctx_ecdh E flag cx)) = cx_cert cx" "cx_key (ctx_ciphers E c (ctx_ecdh E flag cx)) = cx_key cx"
  "cx_ops (ctx_ciphers E c (ctx_ecdh E flag cx)) = cx_ops cx"
  by (simp_all add: ctx_ciphers_def ctx_ecdh_def versions_def checks_def split: option.split)

lemma ctx_cert_D:
  assumes "ctx_cert E cert cx = Some cx'" "cx_cert cx = None"
  shows "versions cx' = versions cx" "checks cx' = checks cx" "cx_cert cx' = cert" "cx_key cx' = cx_key cx" "cx_ops cx' = cx_ops cx"
  using assms by (auto simp: ctx_cert_def versions_def checks_def split: option.splits if_splits)

lemma ctx_key_D:
  assumes "ctx_key E opt cert privkey cx = Some cx'" "cx_key cx = None"
  shows "versions cx' = versions cx" "checks cx' = checks cx" "cx_cert cx' = cx_cert cx"
    "cx_key cx' = (if cert = None then None else privkey)" "cx_ops cx' = cx_ops cx"
  using assms by (auto simp: ctx_key_def versions_def checks_def split: option.splits if_splits)

lemma ctx_verify_D:
  assumes "ctx_verify E opt ca_file ca_path chain flag cx = Some cx'"
  shows "versions cx' = versions cx" "cx_cert cx' = cx_cert cx" "cx_key cx' = cx_key cx" "cx_ops cx' = cx_ops cx"
    "cx_verify cx' = (if flag AND PERDITION_SSL_CLIENT \<noteq> 0 \<and> opt_ssl_no_cert_verify opt \<noteq> 0 then cx_verify cx
       else Some (\<not> (flag AND PERDITION_SSL_SERVER \<noteq> 0 \<and> (opt_ssl_no_cert_verify opt \<noteq> 0 \<or> opt_ssl_no_client_cert_verify opt \<noteq> 0))))"
    "flag AND PERDITION_SSL_CLIENT \<noteq> 0 \<and> opt_ssl_no_cert_verify opt \<noteq> 0 \<or> cx_depth cx' = Some (opt_ssl_cert_verify_depth opt + 1)"
  using assms by (auto simp: ctx_verify_def versions_def Let_def split: option.splits if_splits)

lemma perdition_ssl_ctx_steps:
  assumes "perdition_ssl_ctx E opt ca_file ca_path cert privkey chain dh ciphers flag = Some cx"
  shows "\<exists>cx5. ctx_verify E opt ca_file ca_path chain flag cx5 = Some cx \<and> (cert = None) = (privkey = None) \<and>
     cx_min cx5 = map_option perdition_parse_ssl_proto_version
       (if flag = PERDITION_SSL_CLIENT then opt_ssl_outgoing_min_proto_version opt else opt_ssl_listen_min_proto_version opt) \<and>
     cx_max cx5 = map_option perdition_parse_ssl_proto_version
       (if flag = PERDITION_SSL_CLIENT then opt_ssl_outgoing_max_proto_version opt else opt_ssl_listen_max_proto_version opt) \<and>
     (cx_min cx5 \<noteq> None \<longrightarrow> 0 \<le> the (cx_min cx5)) \<and> (cx_max cx5 \<noteq> None \<longrightarrow> 0 \<le> the (cx_max cx5)) \<and>
     cx_cert cx5 = cert \<and> cx_key cx5 = privkey \<and> SSL_OP_NO_COMPRESSION \<notin> cx_ops cx5 \<and> checks cx5 = ([], None, None)"
proof -
  from assms obtain cx1 cx2 cx3 cx4 cx5 where
    1: "ctx_min E (if flag = PERDITION_SSL_CLIENT then opt_ssl_outgoing_min_proto_version opt else opt_ssl_listen_min_proto_version opt) ssl_ctx_empty = Some cx1"
    and 2: "ctx_max E (if flag = PERDITION_SSL_CLIENT then opt_ssl_outgoing_max_proto_version opt else opt_ssl_listen_max_proto_version opt) cx1 = Some cx2"
    and 3: "ctx_dh E flag dh cert (ctx_ops opt flag cx2) = Some cx3"
    and 4: "ctx_cert E cert (ctx_ciphers E ciphers (ctx_ecdh E flag cx3)) = Some cx4"
    and 5: "ctx_key E opt cert privkey cx4 = Some cx5" "ctx_verify E opt ca_file ca_path chain flag cx5 = Some cx"
    and c: "(cert = None) = (privkey = None)"
    by (auto simp: perdition_ssl_ctx_def Let_def bind_eq_Some_conv split: if_splits)
  have e: "cx_min ssl_ctx_empty = None" "cx_max ssl_ctx_empty = None" "cx_cert ssl_ctx_empty = None" "cx_key ssl_ctx_empty = None"
    "checks ssl_ctx_empty = ([], None, None)" "cx_ops ssl_ctx_empty = {}"
    by (simp_all add: ssl_ctx_empty_def checks_def)
  note m = ctx_min_D [OF 1 e(1)]
  note x = ctx_max_D [OF 2, unfolded m(2), OF e(2)]
  have a3: "versions cx3 = versions cx2" "checks cx3 = ([], None, None)" "cx_cert cx3 = None" "cx_key cx3 = None"
    "SSL_OP_NO_COMPRESSION \<notin> cx_ops cx3"
    using ctx_dh_D [OF 3] ctx_ops_D [of opt flag cx2] m x e by simp_all
  then have a4: "cx_cert (ctx_ciphers E ciphers (ctx_ecdh E flag cx3)) = None" by (simp add: ctx_set_D)
  note b4 = ctx_cert_D [OF 4 a4]
  then have "cx_key cx4 = None" using a3 by (simp add: ctx_set_D)
  note b5 = ctx_key_D [OF 5(1) this]
  have "versions cx5 = versions cx2" using b5 b4 a3 by (simp add: ctx_set_D)
  then show ?thesis using b5 b4 a3 m x c 5(2)
    by (intro exI [of _ cx5]) (auto simp: versions_def ctx_set_D)
qed


text \<open>
  C28. A context has the versions asked for, its certificate and key, and verifies the peer: for
  connections to servers unless \<open>ssl_no_cert_verify\<close> is set, for clients unless that or
  \<open>ssl_no_client_cert_verify\<close> is. A version that is no version makes it fail.
\<close>

theorem perdition_ssl_ctx_spec:
  assumes "perdition_ssl_ctx E opt ca_file ca_path cert privkey chain dh ciphers flag = Some cx"
    and "flag = PERDITION_SSL_CLIENT \<or> flag = PERDITION_SSL_SERVER"
  shows "cx_cert cx = cert \<and> cx_key cx = privkey \<and> (cert = None) = (privkey = None) \<and>
     cx_min cx = map_option perdition_parse_ssl_proto_version
       (if flag = PERDITION_SSL_CLIENT then opt_ssl_outgoing_min_proto_version opt else opt_ssl_listen_min_proto_version opt) \<and>
     cx_max cx = map_option perdition_parse_ssl_proto_version
       (if flag = PERDITION_SSL_CLIENT then opt_ssl_outgoing_max_proto_version opt else opt_ssl_listen_max_proto_version opt) \<and>
     cx_min cx \<noteq> Some (-1) \<and> cx_max cx \<noteq> Some (-1) \<and>
     (opt_ssl_no_cert_verify opt = 0 \<and> (flag = PERDITION_SSL_SERVER \<longrightarrow> opt_ssl_no_client_cert_verify opt = 0) \<longrightarrow>
        cx_verify cx = Some True \<and> cx_depth cx = Some (opt_ssl_cert_verify_depth opt + 1))"
proof -
  from perdition_ssl_ctx_steps [OF assms(1)] obtain cx5 where
    s: "ctx_verify E opt ca_file ca_path chain flag cx5 = Some cx \<and> (cert = None) = (privkey = None) \<and>
     cx_min cx5 = map_option perdition_parse_ssl_proto_version
       (if flag = PERDITION_SSL_CLIENT then opt_ssl_outgoing_min_proto_version opt else opt_ssl_listen_min_proto_version opt) \<and>
     cx_max cx5 = map_option perdition_parse_ssl_proto_version
       (if flag = PERDITION_SSL_CLIENT then opt_ssl_outgoing_max_proto_version opt else opt_ssl_listen_max_proto_version opt) \<and>
     (cx_min cx5 \<noteq> None \<longrightarrow> 0 \<le> the (cx_min cx5)) \<and> (cx_max cx5 \<noteq> None \<longrightarrow> 0 \<le> the (cx_max cx5)) \<and>
     cx_cert cx5 = cert \<and> cx_key cx5 = privkey \<and> SSL_OP_NO_COMPRESSION \<notin> cx_ops cx5 \<and> checks cx5 = ([], None, None)" ..
  note D = ctx_verify_D [OF s [THEN conjunct1]]
  have v: "cx_min cx = cx_min cx5" "cx_max cx = cx_max cx5" using D(1) by (simp_all add: versions_def)
  have n: "opt_ssl_no_cert_verify opt = 0 \<and> (flag = PERDITION_SSL_SERVER \<longrightarrow> opt_ssl_no_client_cert_verify opt = 0) \<longrightarrow>
        cx_verify cx = Some True \<and> cx_depth cx = Some (opt_ssl_cert_verify_depth opt + 1)"
    using D(5,6) assms(2) by auto
  have "cx_min cx5 \<noteq> None \<longrightarrow> 0 \<le> the (cx_min cx5)"
    using s by (elim conjE) assumption
  then have p: "cx_min cx \<noteq> Some (-1)" unfolding v by (cases "cx_min cx5") simp_all
  have "cx_max cx5 \<noteq> None \<longrightarrow> 0 \<le> the (cx_max cx5)"
    using s by (elim conjE) assumption
  then have "cx_max cx \<noteq> Some (-1)" unfolding v by (cases "cx_max cx5") simp_all
  note p = p this
  show ?thesis using s D(2,3) v n p by simp
qed

text \<open>
  Compression is never switched off, whatever the options say: the condition asks for a context that
  is for connections to servers and is not.
\<close>

lemma perdition_ssl_ctx_compression:
  assumes "perdition_ssl_ctx E opt ca_file ca_path cert privkey chain dh ciphers flag = Some cx"
  shows "SSL_OP_NO_COMPRESSION \<notin> cx_ops cx"
  using perdition_ssl_ctx_steps [OF assms]
  by (elim exE conjE) (simp add: ctx_verify_D(4))

definition demo_ctx_env :: ctx_env where
  "demo_ctx_env = \<lparr>ce_new = True, ce_session_id = True, ce_min = \<lambda>_. True, ce_max = \<lambda>_. True, ce_fopen = \<lambda>_. True, ce_read_dh = \<lambda>_. False,
     ce_set_dh = \<lambda>_. True, ce_ecdh_new = True, ce_ecdh_set = True, ce_ciphers = \<lambda>c. if c = ''HIGH'' then 1 else 0,
     ce_cert = \<lambda>_. 1, ce_open = \<lambda>_. True, ce_key = \<lambda>_ _. 1, ce_load_ca = \<lambda>_ _. True\<rparr>"

definition demo_ctx :: "flag_t \<Rightarrow> ssl_ctx option" where
  "demo_ctx flag = perdition_ssl_ctx demo_ctx_env
     (options_zero\<lparr>opt_ssl_listen_min_proto_version := Some ''tlsv1.2'', opt_ssl_cert_verify_depth := 9\<rparr>)
     None (Some ''/etc/ca'') (Some ''crt'') (Some ''key'') None None (Some ''NONE'') flag"

lemma demo_ctx_some: "demo_ctx PERDITION_SSL_SERVER =
    Some (ssl_ctx_empty\<lparr>cx_ops := {SSL_OP_CIPHER_SERVER_PREFERENCE}, cx_min := Some TLS1_2_VERSION, cx_ecdh := True, cx_cert := Some ''crt'',
      cx_key := Some ''key'', cx_ca := [(None, Some ''/etc/ca'')], cx_depth := Some 10, cx_verify := Some True\<rparr>)"
  by code_simp

theorem perdition_ssl_ctx_spec_witness:
  "\<exists>cx. demo_ctx PERDITION_SSL_SERVER = Some cx \<and> cx_verify cx = Some True \<and> cx_min cx = Some TLS1_2_VERSION"
  using perdition_ssl_ctx_spec [OF demo_ctx_some [unfolded demo_ctx_def]] demo_ctx_some
  by (auto simp: options_zero_def)

theorem perdition_ssl_ctx_compression_witness:
  "SSL_OP_NO_COMPRESSION \<notin> cx_ops (the (demo_ctx PERDITION_SSL_SERVER))"
  using perdition_ssl_ctx_compression [OF demo_ctx_some [unfolded demo_ctx_def]] demo_ctx_some by simp

text \<open>A string without ciphers leaves those of OpenSSL in force.\<close>

lemma ctx_ciphers_none: "ce_ciphers E c = 0 \<Longrightarrow> ctx_ciphers E (Some c) cx = cx"
  by (simp add: ctx_ciphers_def)

text \<open>A lowest version for servers that is no version lets every connection to them fail, although the options were accepted.\<close>

lemma outgoing_min_fails:
  assumes "opt_ssl_outgoing_min_proto_version opt = Some v" "perdition_parse_ssl_proto_version v = -1"
  shows "perdition_ssl_ctx E opt ca_file ca_path cert privkey chain dh ciphers PERDITION_SSL_CLIENT = None"
  using assms by (simp add: perdition_ssl_ctx_def ctx_min_def Let_def)

text \<open>The functions for older versions of OpenSSL switch off exactly the versions outside the range.\<close>

definition version_op :: "int \<Rightarrow> ssl_op" where
  "version_op v = (if v = SSL3_VERSION then SSL_OP_NO_SSLv3 else if v = TLS1_VERSION then SSL_OP_NO_TLSv1
     else if v = TLS1_1_VERSION then SSL_OP_NO_TLSv1_1 else SSL_OP_NO_TLSv1_2)"

lemma version_range:
  assumes "perdition_ssl_ctx_set_min_proto_version lo = Some a" "perdition_ssl_ctx_set_max_proto_version hi = Some b"
    and "v \<in> {SSL3_VERSION, TLS1_VERSION, TLS1_1_VERSION, TLS1_2_VERSION}"
  shows "version_op v \<in> a \<union> b \<longleftrightarrow> v < lo \<or> hi < v"
  using assms
  by (auto simp: perdition_ssl_ctx_set_min_proto_version_def perdition_ssl_ctx_set_max_proto_version_def version_op_def
      SSL3_VERSION_def TLS1_VERSION_def TLS1_1_VERSION_def TLS1_2_VERSION_def split: if_splits)

end
