(* ===== verification/Sql_Map.thy ===== *)
theory Sql_Map
  imports Getserver Buffer
begin

text \<open>
  The lookup libraries for SQL databases (\<^verbatim>\<open>perdition/db/mysql/perditiondb_mysql.c\<close>,
  \<^verbatim>\<open>perdition/db/odbc/perditiondb_odbc.c\<close>, \<^verbatim>\<open>perdition/db/postgresql/perditiondb_postgresql.c\<close>):
  their settings, the query they make for a key, and the string they make of the answer.

  Parameters are the function that splits the settings at a delimiter, the client libraries of the
  databases with the answers of the servers, and what is in the memory \<open>malloc\<close> returns and on the stack.
\<close>

subsection \<open>Settings\<close>

text \<open>
  A setting is NULL, a constant, an element of the array \<open>a\<close>, or an element of an array that has been
  freed. Reading NULL or freed memory is not defined.
\<close>

datatype sptr = Null | Static string | Elem string | Freed

fun deref :: "sptr \<Rightarrow> string option" where
  "deref Null = None"
| "deref (Static s) = Some s"
| "deref (Elem s) = Some s"
| "deref Freed = None"

fun freed :: "sptr \<Rightarrow> sptr" where
  "freed (Elem s) = Freed"
| "freed p = p"

text \<open>The pointer \<open>a\<close>: NULL, an array, or freed memory.\<close>

datatype array_ptr = A_null | A_array | A_freed

record sql_conf =
  sq_a :: array_ptr
  sq_hosts :: "string list"
  sq_host :: sptr
  sq_portno :: "32 word"
  sq_port :: sptr
  sq_name :: sptr
  sq_table :: sptr
  sq_user :: sptr
  sq_pwd :: sptr
  sq_srv_col :: sptr
  sq_user_col :: sptr
  sq_port_col :: sptr

definition mysql_defaults :: sql_conf where
  "mysql_defaults = \<lparr>sq_a = A_null, sq_hosts = [], sq_host = Static ''localhost'', sq_portno = 0, sq_port = Null,
     sq_name = Static ''dbPerdition'', sq_table = Static ''tblPerdition'', sq_user = Static ''perdition'',
     sq_pwd = Static ''perdition'', sq_srv_col = Static ''servername'', sq_user_col = Static ''user'', sq_port_col = Static ''port''\<rparr>"

definition odbc_defaults :: sql_conf where
  "odbc_defaults = \<lparr>sq_a = A_null, sq_hosts = [], sq_host = Static ''localhost'', sq_portno = 0, sq_port = Null,
     sq_name = Static ''dbPerdition'', sq_table = Static ''tblPerdition'', sq_user = Static ''perdition'',
     sq_pwd = Static ''perdition'', sq_srv_col = Static ''servername'', sq_user_col = Static ''user'', sq_port_col = Static ''port''\<rparr>"

definition pgsql_defaults :: sql_conf where
  "pgsql_defaults = \<lparr>sq_a = A_null, sq_hosts = [], sq_host = Static ''localhost'', sq_portno = 0, sq_port = Null,
     sq_name = Static ''dbperdition'', sq_table = Static ''tblPerdition'', sq_user = Static ''perdition'',
     sq_pwd = Static ''perdition'', sq_srv_col = Static ''servername'', sq_user_col = Static ''user'', sq_port_col = Static ''port''\<rparr>"

text \<open>The element of the array at an index, if it has that many.\<close>

definition field :: "string list \<Rightarrow> nat \<Rightarrow> sptr \<Rightarrow> sptr" where
  "field xs i p = (if length xs > i then Elem (xs ! i) else p)"

definition sql_fields :: "string list \<Rightarrow> sql_conf \<Rightarrow> sql_conf" where
  "sql_fields xs cf = cf\<lparr>sq_name := field xs 2 (sq_name cf), sq_table := field xs 3 (sq_table cf),
     sq_user := field xs 4 (sq_user cf), sq_pwd := field xs 5 (sq_pwd cf), sq_srv_col := field xs 6 (sq_srv_col cf),
     sq_user_col := field xs 7 (sq_user_col cf), sq_port_col := field xs 8 (sq_port_col cf)\<rparr>"

definition sql_portno :: "string list \<Rightarrow> sql_conf \<Rightarrow> sql_conf option" where
  "sql_portno xs cf =
     (if length xs > 1 then do { n \<leftarrow> c_atoi (xs ! 1); Some (cf\<lparr>sq_portno := word_of_int n\<rparr>) } else Some cf)"

type_synonym split_str = "char \<Rightarrow> string \<Rightarrow> string list option"

definition mysql_dbserver_init :: "split_str \<Rightarrow> string option \<Rightarrow> sql_conf \<Rightarrow> (int \<times> sql_conf) option" where
  "mysql_dbserver_init split options_str cf =
     (if options_str = None \<or> sq_a cf \<noteq> A_null then Some (0, cf)
      else case split CHR '':'' (the options_str) of
             None \<Rightarrow> Some (-1, cf)
           | Some xs \<Rightarrow>
               (case (if length xs > 0 then split CHR '','' (xs ! 0) else Some (sq_hosts cf)) of
                  None \<Rightarrow> Some (-1, cf\<lparr>sq_host := Elem (xs ! 0)\<rparr>)
                | Some hs \<Rightarrow>
                    do { cf1 \<leftarrow> sql_portno xs (cf\<lparr>sq_a := A_array, sq_host := field xs 0 (sq_host cf), sq_hosts := hs\<rparr>);
                         Some (0, sql_fields xs cf1) }))"

definition odbc_dbserver_init :: "split_str \<Rightarrow> string option \<Rightarrow> sql_conf \<Rightarrow> (int \<times> sql_conf) option" where
  "odbc_dbserver_init split options_str cf =
     (if options_str = None \<or> sq_a cf \<noteq> A_null then Some (0, cf)
      else case split CHR '':'' (the options_str) of
             None \<Rightarrow> Some (-1, cf)
           | Some xs \<Rightarrow>
               do { cf1 \<leftarrow> sql_portno xs (cf\<lparr>sq_a := A_array, sq_host := field xs 0 (sq_host cf)\<rparr>);
                    Some (0, sql_fields xs cf1) })"

definition pgsql_dbserver_init :: "split_str \<Rightarrow> string option \<Rightarrow> sql_conf \<Rightarrow> int \<times> sql_conf" where
  "pgsql_dbserver_init split options_str cf =
     (if options_str = None \<or> sq_a cf \<noteq> A_null then (0, cf)
      else case split CHR '':'' (the options_str) of
             None \<Rightarrow> (-1, cf)
           | Some xs \<Rightarrow>
               (0, sql_fields xs (cf\<lparr>sq_a := A_array, sq_host := field xs 0 (sq_host cf), sq_port := field xs 1 (sq_port cf)\<rparr>)))"

text \<open>Freeing the array: the settings that point into it stay.\<close>

definition free_array :: "sql_conf \<Rightarrow> sql_conf" where
  "free_array cf = cf\<lparr>sq_host := freed (sq_host cf), sq_port := freed (sq_port cf), sq_name := freed (sq_name cf),
     sq_table := freed (sq_table cf), sq_user := freed (sq_user cf), sq_pwd := freed (sq_pwd cf),
     sq_srv_col := freed (sq_srv_col cf), sq_user_col := freed (sq_user_col cf), sq_port_col := freed (sq_port_col cf)\<rparr>"

definition array_destroy :: "sql_conf \<Rightarrow> sql_conf option" where
  "array_destroy cf =
     (case sq_a cf of A_null \<Rightarrow> Some cf | A_array \<Rightarrow> Some ((free_array cf)\<lparr>sq_a := A_freed\<rparr>) | A_freed \<Rightarrow> None)"

definition sql_dbserver_fini :: "sql_conf \<Rightarrow> (int \<times> sql_conf) option" where
  "sql_dbserver_fini cf =
     (if sq_a cf \<noteq> A_null then do { cf1 \<leftarrow> array_destroy cf; Some (0, cf1\<lparr>sq_a := A_null\<rparr>) } else Some (0, cf))"

subsection \<open>The result string\<close>

definition has_port_col :: "sql_conf \<Rightarrow> bool option" where
  "has_port_col cf =
     (if sq_port_col cf = Null then Some False else do { c \<leftarrow> deref (sq_port_col cf); Some (c \<noteq> []) })"

text \<open>The server, with the port if there is one, in memory of exactly the length that is returned.\<close>

definition sql_join :: "(nat \<Rightarrow> string) \<Rightarrow> string \<Rightarrow> string option \<Rightarrow> (string \<times> nat) option" where
  "sql_join malloc server port =
     (let servername_len = 1 + length server;
          len_return = servername_len + (case port of None \<Rightarrow> 0 | Some p \<Rightarrow> 1 + length p)
      in do { b \<leftarrow> buf_strcpy (malloc len_return) server;
              b1 \<leftarrow> (case port of
                       None \<Rightarrow> Some b
                     | Some p \<Rightarrow> do { b2 \<leftarrow> buf_put (servername_len - 1) CHR '':'' b;
                                     buf_copy servername_len (p @ [NUL]) b2 });
              Some (cstr b1, len_return) })"

text \<open>A column of a row as a C string; a column of NULL is \<open>Some None\<close>, one that is not there a fault.\<close>

definition col :: "string option list \<Rightarrow> nat \<Rightarrow> string option option" where
  "col row i = (if i < length row then Some (map_option cstr (row ! i)) else None)"


subsection \<open>MySQL\<close>

text \<open>
  The client library: \<open>mysql_init\<close>, \<open>mysql_real_connect\<close> for a host, user, password, database and port,
  \<open>mysql_real_escape_string\<close>, and the answer to a query: an error, no result, rows of which none can be
  fetched, or rows.
\<close>

datatype mysql_answer = Query_error | No_result | No_fetch | Rows "string option list list"

record mysql_env =
  my_init :: bool
  my_connect :: "string \<Rightarrow> string \<Rightarrow> string \<Rightarrow> string \<Rightarrow> 32 word \<Rightarrow> bool"
  my_escape :: "string \<Rightarrow> string"
  my_query :: "string \<Rightarrow> mysql_answer"

definition SQL_QUERY_LENGTH :: nat where "SQL_QUERY_LENGTH = 256"

text \<open>\<open>snprintf\<close> into \<open>n\<close> bytes.\<close>

definition snprintf_cut :: "nat \<Rightarrow> string \<Rightarrow> string" where
  "snprintf_cut n s = take (n - 1) s"

fun mysql_connect :: "mysql_env \<Rightarrow> sql_conf \<Rightarrow> string list \<Rightarrow> bool option" where
  "mysql_connect E cf [] = Some False"
| "mysql_connect E cf (h # hs) =
     do { user \<leftarrow> deref (sq_user cf); pwd \<leftarrow> deref (sq_pwd cf); name \<leftarrow> deref (sq_name cf);
          if my_connect E h user pwd name (sq_portno cf) then Some True else mysql_connect E cf hs }"

definition mysql_query_str :: "sql_conf \<Rightarrow> string \<Rightarrow> string option" where
  "mysql_query_str cf key =
     do { p \<leftarrow> has_port_col cf;
          user_col \<leftarrow> deref (sq_user_col cf); srv_col \<leftarrow> deref (sq_srv_col cf); dbtable \<leftarrow> deref (sq_table cf);
          port_col \<leftarrow> (if p then deref (sq_port_col cf) else Some []);
          Some (snprintf_cut SQL_QUERY_LENGTH
            (if p then ''select '' @ user_col @ '','' @ srv_col @ '','' @ port_col @ '' from '' @ dbtable @ '' where '' @ user_col @
                 [CHR ''='', CHR 0x27] @ key @ [CHR 0x27, CHR '';'']
             else ''select '' @ user_col @ '','' @ srv_col @ '' from '' @ dbtable @ '' where '' @ user_col @
                 [CHR ''='', CHR 0x27] @ key @ [CHR 0x27, CHR '';''])) }"

text \<open>What is made of a row: the server must be there, a port that is empty is left out.\<close>

definition mysql_row :: "(nat \<Rightarrow> string) \<Rightarrow> sql_conf \<Rightarrow> string option list \<Rightarrow> (int \<times> (string \<times> nat) option) option" where
  "mysql_row malloc cf row =
     do { srv \<leftarrow> col row 1;
          case srv of
            None \<Rightarrow> Some (-3, None)
          | Some s \<Rightarrow>
              if s = [] then Some (-3, None)
              else do { p \<leftarrow> has_port_col cf;
                        port \<leftarrow> (if p then col row 2 else Some None);
                        r \<leftarrow> sql_join malloc s (if port = Some [] then None else port);
                        Some (0, Some r) } }"

text \<open>The escaped key is written to an array of \<open>2 * 256 + 1\<close> bytes. The result comes with the settings.\<close>

definition mysql_dbserver_get ::
    "(nat \<Rightarrow> string) \<Rightarrow> mysql_env \<Rightarrow> sql_conf \<Rightarrow> string \<Rightarrow> ((int \<times> (string \<times> nat) option) \<times> sql_conf) option" where
  "mysql_dbserver_get malloc E cf key_str =
     (if \<not> my_init E then map_option (Pair (-1, None)) (array_destroy cf)
      else do { connected \<leftarrow> mysql_connect E cf (sq_hosts cf);
                if \<not> connected then Some ((-1, None), cf)
                else if length (my_escape E key_str) + 1 > 2 * SQL_QUERY_LENGTH + 1 then None
                else do { q \<leftarrow> mysql_query_str cf (my_escape E key_str);
                          case my_query E q of
                            Query_error \<Rightarrow> Some ((-1, None), cf)
                          | No_result \<Rightarrow> Some ((-3, None), cf)
                          | No_fetch \<Rightarrow> Some ((-3, None), cf)
                          | Rows rows \<Rightarrow>
                              (if rows = [] then Some ((-2, None), cf)
                               else do { r \<leftarrow> mysql_row malloc cf (hd rows); Some (r, cf) }) } })"

subsection \<open>ODBC\<close>

text \<open>
  The driver manager: which of the calls succeed, in their order, and the fetch of the first row: no data, or
  what is written into the buffers of the server and the port, if anything is. The return code of a
  fetch that fails is not looked at: it writes nothing.
\<close>

datatype odbc_fetch = No_data | Fetched "string option" "string option"

record odbc_env =
  od_env :: bool
  od_version :: bool
  od_dbc :: bool
  od_connect :: "string \<Rightarrow> string \<Rightarrow> string \<Rightarrow> bool"
  od_stmt :: bool
  od_bind :: bool
  od_exec :: "string \<Rightarrow> bool"
  od_fetch :: "string \<Rightarrow> odbc_fetch"

definition ODBC_RESULT_LENGTH :: nat where "ODBC_RESULT_LENGTH = 256"

definition odbc_query_str :: "sql_conf \<Rightarrow> string \<Rightarrow> string option" where
  "odbc_query_str cf key =
     do { p \<leftarrow> has_port_col cf;
          user_col \<leftarrow> deref (sq_user_col cf); srv_col \<leftarrow> deref (sq_srv_col cf); dbtable \<leftarrow> deref (sq_table cf);
          port_col \<leftarrow> (if p then deref (sq_port_col cf) else Some []);
          Some (snprintf_cut (SQL_QUERY_LENGTH - 1)
            (if p then ''select '' @ user_col @ '', '' @ srv_col @ '', '' @ port_col @ '' from '' @ dbtable @ '' where '' @ user_col @
                 '' = '' @ [CHR 0x27] @ key @ [CHR 0x27, CHR '';'']
             else '' select '' @ user_col @ '', '' @ srv_col @ '' from '' @ dbtable @ '' where '' @ user_col @
                 '' = '' @ [CHR 0x27] @ key @ [CHR 0x27, CHR '';'', CHR '' ''])) }"

text \<open>A buffer on the stack with the value a column had, cut to its size; reading it needs a NUL in it.\<close>

definition bound :: "string \<Rightarrow> string option \<Rightarrow> string option" where
  "bound buf v =
     (let b = (case v of None \<Rightarrow> buf
               | Some s \<Rightarrow> (let t = take (ODBC_RESULT_LENGTH - 1) s in t @ NUL # drop (Suc (length t)) buf))
      in if NUL \<in> set b then Some (cstr b) else None)"

definition odbc_dbserver_get ::
    "(nat \<Rightarrow> string) \<Rightarrow> string \<Rightarrow> string \<Rightarrow> odbc_env \<Rightarrow> sql_conf \<Rightarrow> string \<Rightarrow> (int \<times> (string \<times> nat) option) option" where
  "odbc_dbserver_get malloc server_buf port_buf E cf key_str =
     (if \<not> od_env E \<or> \<not> od_version E \<or> \<not> od_dbc E then Some (-1, None)
      else do { name \<leftarrow> deref (sq_name cf); user \<leftarrow> deref (sq_user cf); pwd \<leftarrow> deref (sq_pwd cf);
                if \<not> od_connect E name user pwd \<or> \<not> od_stmt E then Some (-1, None)
                else do { q \<leftarrow> odbc_query_str cf key_str;
                          if \<not> od_bind E \<or> \<not> od_exec E q then Some (-1, None)
                          else case od_fetch E q of
                                 No_data \<Rightarrow> Some (-2, None)
                               | Fetched server port \<Rightarrow>
                                   do { server_res \<leftarrow> bound server_buf server;
                                        if server_res = [] then Some (-3, None)
                                        else do { p \<leftarrow> has_port_col cf;
                                                  port_res \<leftarrow> (if p then bound port_buf port else Some []);
                                                  r \<leftarrow> sql_join malloc server_res (if port_res = [] then None else Some port_res);
                                                  Some (0, Some r) } } } })"

subsection \<open>PostgreSQL\<close>

text \<open>
  The client library: \<open>PQsetdbLogin\<close>, for which a setting of NULL is allowed, and the answer to a query:
  the number of columns with the rows, if it is a result.
\<close>

record pgsql_env =
  pg_connect :: "string option \<Rightarrow> string option \<Rightarrow> string option \<Rightarrow> string option \<Rightarrow> string option \<Rightarrow> bool"
  pg_exec :: "string \<Rightarrow> (nat \<times> string option list list) option"

definition nullable :: "sptr \<Rightarrow> string option option" where
  "nullable p = (if p = Null then Some None else map_option Some (deref p))"

text \<open>Cutting a string at a character; what the function returns beside that is not used.\<close>

definition truncate_str :: "string \<Rightarrow> char \<Rightarrow> string" where
  "truncate_str str c = takeWhile (\<lambda>x. x \<noteq> c) str"

definition pgsql_query_str :: "sql_conf \<Rightarrow> string \<Rightarrow> string option" where
  "pgsql_query_str cf key =
     do { p \<leftarrow> has_port_col cf;
          user_col \<leftarrow> deref (sq_user_col cf); srv_col \<leftarrow> deref (sq_srv_col cf); dbtable \<leftarrow> deref (sq_table cf);
          port_col \<leftarrow> (if p then deref (sq_port_col cf) else Some []);
          Some (snprintf_cut SQL_QUERY_LENGTH
            (if p then ''SELECT '' @ srv_col @ '','' @ port_col @ '' FROM '' @ dbtable @ '' WHERE \"'' @ user_col @
                 [CHR 0x22, CHR ''='', CHR 0x27] @ key @ [CHR 0x27]
             else ''SELECT '' @ srv_col @ '' FROM '' @ dbtable @ '' WHERE \"'' @ user_col @
                 [CHR 0x22, CHR ''='', CHR 0x27] @ key @ [CHR 0x27])) }"

text \<open>\<open>PQgetisnull\<close> and \<open>PQgetvalue\<close> for the first row; a column that is not there reads as NULL.\<close>

definition pg_value :: "string option list list \<Rightarrow> nat \<Rightarrow> string option" where
  "pg_value rows i = (if i < length (hd rows) then map_option cstr (hd rows ! i) else None)"

definition pgsql_dbserver_get :: "(nat \<Rightarrow> string) \<Rightarrow> pgsql_env \<Rightarrow> sql_conf \<Rightarrow> string \<Rightarrow> (int \<times> (string \<times> nat) option) option" where
  "pgsql_dbserver_get malloc E cf key_str =
     do { host \<leftarrow> nullable (sq_host cf); port \<leftarrow> nullable (sq_port cf); name \<leftarrow> nullable (sq_name cf);
          user \<leftarrow> nullable (sq_user cf); pwd \<leftarrow> nullable (sq_pwd cf);
          if \<not> pg_connect E host port name user pwd then Some (-1, None)
          else do { q \<leftarrow> pgsql_query_str cf key_str;
                    case pg_exec E q of
                      None \<Rightarrow> Some (-1, None)
                    | Some (nfields, rows) \<Rightarrow>
                        (if rows = [] then Some (-2, None)
                         else case pg_value rows 0 of
                                None \<Rightarrow> Some (-2, None)
                              | Some servername \<Rightarrow>
                                  do { r \<leftarrow> sql_join malloc (truncate_str servername CHR '' '')
                                               (if nfields = 2 then map_option (\<lambda>v. truncate_str v CHR '' '') (pg_value rows 1) else None);
                                       Some (0, Some r) }) } }"



subsection \<open>The contract of a lookup function\<close>

text \<open>
  What \<^verbatim>\<open>perdition/getserver.c\<close> asks of \<open>dbserver_get\<close>: one of four statuses, a string with
  success only, and its length with the NUL.
\<close>

locale map_library =
  fixes lookup :: "string \<Rightarrow> (int \<times> (string \<times> nat) option) option"
  assumes status: "lookup key = Some (st, r) \<Longrightarrow> st \<in> {0, -1, -2, -3} \<and> (st = 0 \<longleftrightarrow> r \<noteq> None)"
    and result: "lookup key = Some (st, Some (s, n)) \<Longrightarrow> no_nul s \<and> n = Suc (length s)"
begin

text \<open>One lookup through \<open>do_getserver\<close>: a failure is passed on, and the whole string is parsed.\<close>

lemma lookup_parsed:
  assumes "lookup key = Some (st, r)"
    and "get key (opt_map_library_opt opt) = (st, map_option fst r, case r of None \<Rightarrow> 0 | Some (s, n) \<Rightarrow> n)"
  shows "do_getserver opt key (Some get) get2 =
    (case r of
       None \<Rightarrow> Some (st, None)
     | Some (s, n) \<Rightarrow> if s = [] then Some (0, None)
         else map_option (\<lambda>usp. (0, Some usp)) (user_server_port_str_assign (opt_dd opt) None s))"
proof (cases r)
  case None
  then show ?thesis using status [OF assms(1)] assms(2) by (auto simp: do_getserver_def)
next
  case (Some sn)
  obtain s n where sn: "sn = (s, n)" by (cases sn)
  have "st = 0" "no_nul s" "n = Suc (length s)" using status [OF assms(1)] result assms(1) Some sn by auto
  then show ?thesis using assms(2) Some sn
    by (simp add: do_getserver_def user_server_port_str_assign_def user_server_port_strn_assign_def map_option_case
        split: option.splits)
qed

end

subsection \<open>Properties\<close>

lemma col_no_nul: "col row i = Some (Some s) \<Longrightarrow> no_nul s"
  by (auto simp: col_def split: if_splits)

lemma sql_join_spec:
  assumes "\<And>n. length (malloc n) = n" "no_nul server" "\<And>p. port = Some p \<Longrightarrow> no_nul p"
  defines "s \<equiv> server @ (case port of None \<Rightarrow> [] | Some p \<Rightarrow> CHR '':'' # p)"
  shows "sql_join malloc server port = Some (s, Suc (length s))"
proof -
  define n where "n = 1 + length server + (case port of None \<Rightarrow> 0 | Some p \<Rightarrow> 1 + length p)"
  have c: "buf_strcpy (malloc n) server = Some (server @ NUL # drop (Suc (length server)) (malloc n))"
    using buf_strcpy_prefix [of server "malloc n" "[]"] assms(1,2)
    by (simp add: n_def buf_strcpy_def cstr_prefix split: option.split)
  show ?thesis
  proof (cases port)
    case None
    then show ?thesis using c assms(2) by (simp add: sql_join_def n_def s_def cstr_prefix)
  next
    case (Some p)
    have l: "length (drop (Suc (length server)) (malloc n)) = 1 + length p" using assms(1) Some by (simp add: n_def)
    have "buf_copy (Suc (length server)) (p @ [NUL]) ((server @ [CHR '':'']) @ drop (Suc (length server)) (malloc n) @ []) =
        Some ((server @ [CHR '':'']) @ (p @ [NUL]) @ [])"
      by (rule buf_copy_append) (use l in simp_all)
    then show ?thesis using c Some assms(2) assms(3) [of p]
      cstr_prefix [of "server @ CHR '':'' # p" "[]"]
      by (simp add: sql_join_def n_def s_def buf_put_append)
  qed
qed

lemma sql_join_result:
  assumes "sql_join malloc server port = Some (s, n)" "no_nul server" "\<And>p. port = Some p \<Longrightarrow> no_nul p"
  shows "s = server @ (case port of None \<Rightarrow> [] | Some p \<Rightarrow> CHR '':'' # p) \<and> n = Suc (length s)"
proof -
  define k where "k = 1 + length server + (case port of None \<Rightarrow> 0 | Some p \<Rightarrow> 1 + length p)"
  obtain b where b: "buf_strcpy (malloc k) server = Some b"
    using assms(1) by (auto simp: sql_join_def Let_def bind_eq_Some_conv k_def split: option.splits)
  note fits = buf_strcpy_fits [OF b assms(2)]
  define z where "z = drop (Suc (length server)) (malloc k)"
  have b': "b = server @ NUL # z"
    using b buf_strcpy_prefix [OF assms(2) fits, of "[]"] assms(2) by (simp add: buf_strcpy_def z_def cstr_prefix)
  show ?thesis
  proof (cases port)
    case None
    then show ?thesis using assms(1,2) b unfolding b' by (auto simp: sql_join_def k_def cstr_prefix)
  next
    case (Some p)
    note np = assms(3) [OF Some]
    obtain b2 where b2: "buf_copy (Suc (length server)) (p @ [NUL]) (server @ CHR '':'' # z) = Some b2"
      "s = cstr b2" "n = Suc (length server) + Suc (length p)"
      using assms(1) b unfolding b'
      by (auto simp: sql_join_def Let_def k_def Some buf_put_append bind_eq_Some_conv)
    have "b2 = (server @ CHR '':'' # p) @ NUL # drop (Suc (length p)) z"
      using b2(1) buf_copy_at [of "Suc (length server)" "p @ [NUL]" "server @ CHR '':'' # z"] buf_copy_fits [OF b2(1)]
      by simp
    then show ?thesis using b2 np assms(2) Some cstr_prefix [of "server @ CHR '':'' # p" "drop (Suc (length p)) z"] by simp
  qed
qed



text \<open>All three libraries keep the contract.\<close>

definition keeps_contract :: "int \<times> (string \<times> nat) option \<Rightarrow> bool" where
  "keeps_contract r = (case r of (st, None) \<Rightarrow> st \<in> {-1, -2, -3} | (st, Some (s, n)) \<Rightarrow> st = 0 \<and> no_nul s \<and> n = Suc (length s))"

lemma map_libraryI:
  assumes "\<And>key. pred_option keeps_contract (lookup key)"
  shows "map_library lookup"
proof
  show "st \<in> {0, -1, -2, -3} \<and> (st = 0 \<longleftrightarrow> r \<noteq> None)" if "lookup key = Some (st, r)" for key st r
    using assms [of key] that by (auto simp: keeps_contract_def split: option.splits)
  show "no_nul s \<and> n = Suc (length s)" if "lookup key = Some (st, Some (s, n))" for key st s n
    using assms [of key] that by (simp add: keeps_contract_def)
qed

lemma keeps_failure [simp]: "keeps_contract (-1, None)" "keeps_contract (-2, None)" "keeps_contract (-3, None)"
  by (simp_all add: keeps_contract_def)

lemma sql_join_keeps:
  "sql_join malloc s p = Some r \<Longrightarrow> no_nul s \<and> pred_option no_nul p \<longrightarrow> keeps_contract (0, Some r)"
  using sql_join_result [of malloc s p] by (cases r; cases p) (auto simp: keeps_contract_def)

lemma col_pred: "col row i = Some x \<Longrightarrow> pred_option no_nul x"
  by (cases x) (auto simp: col_no_nul)

lemma mysql_row_keeps: "pred_option keeps_contract (mysql_row malloc cf row)"
  by (auto simp: mysql_row_def intro!: pred_bind split: option.split if_split_asm dest!: col_pred sql_join_keeps)

lemma mysql_get_keeps: "pred_option keeps_contract (map_option fst (mysql_dbserver_get malloc E cf key))"
proof -
  have "pred_option (\<lambda>r. keeps_contract (fst r)) (mysql_dbserver_get malloc E cf key)"
    using mysql_row_keeps [of malloc cf]
    by (auto simp: mysql_dbserver_get_def option.pred_map comp_def option.pred_True
        intro!: pred_bind split: mysql_answer.split) (metis option.pred_inject(2))
  then show ?thesis by (simp add: option.pred_map comp_def)
qed

lemma bound_no_nul: "bound buf v = Some s \<Longrightarrow> no_nul s"
  by (auto simp: bound_def Let_def split: if_splits)

lemma odbc_get_keeps: "pred_option keeps_contract (odbc_dbserver_get malloc b1 b2 E cf key)"
  by (auto simp: odbc_dbserver_get_def intro!: pred_bind split: odbc_fetch.split if_split_asm dest!: bound_no_nul sql_join_keeps)

lemma truncate_no_nul: "no_nul s \<Longrightarrow> no_nul (truncate_str s c)"
  by (auto simp: truncate_str_def no_nul_def dest: set_takeWhileD)

lemma pg_value_no_nul: "pg_value rows i = Some s \<Longrightarrow> no_nul s"
  by (auto simp: pg_value_def split: if_splits)

lemma pg_value_pred [simp]: "pred_option (\<lambda>v. no_nul (truncate_str v c)) (pg_value rows i)"
  by (cases "pg_value rows i") (simp_all add: truncate_no_nul pg_value_no_nul)

lemma pgsql_get_keeps: "pred_option keeps_contract (pgsql_dbserver_get malloc E cf key)"
  by (auto simp: pgsql_dbserver_get_def option.pred_map comp_def truncate_no_nul pg_value_no_nul
      intro!: pred_bind split: option.split dest!: sql_join_keeps)

interpretation mysql: map_library "\<lambda>key. map_option fst (mysql_dbserver_get malloc E cf key)" for malloc E cf
  by (rule map_libraryI [OF mysql_get_keeps])

interpretation odbc: map_library "odbc_dbserver_get malloc server_buf port_buf E cf" for malloc server_buf port_buf E cf
  by (rule map_libraryI [OF odbc_get_keeps])

interpretation pgsql: map_library "pgsql_dbserver_get malloc E cf" for malloc E cf
  by (rule map_libraryI [OF pgsql_get_keeps])



text \<open>Settings that can be read: none points into freed memory, and those for the query are not NULL.\<close>

definition sql_live :: "sql_conf \<Rightarrow> bool" where
  "sql_live cf \<longleftrightarrow> sq_host cf \<noteq> Freed \<and> sq_port cf \<noteq> Freed \<and>
     list_all (\<lambda>p. deref p \<noteq> None) [sq_name cf, sq_user cf, sq_pwd cf, sq_table cf, sq_srv_col cf, sq_user_col cf, sq_port_col cf]"

lemma nullable_deref: "deref p = Some v \<Longrightarrow> nullable p = Some (Some v)"
  by (cases p) (simp_all add: nullable_def)

lemma has_port_col_deref: "deref (sq_port_col cf) = Some c \<Longrightarrow> has_port_col cf = Some (c \<noteq> [])"
  by (cases "sq_port_col cf") (simp_all add: has_port_col_def)

lemma sql_live_D:
  assumes "sql_live cf"
  obtains host port name user pwd dbtable srv_col user_col port_col where
    "nullable (sq_host cf) = Some host" "nullable (sq_port cf) = Some port" "nullable (sq_name cf) = Some (Some name)"
    "nullable (sq_user cf) = Some (Some user)" "nullable (sq_pwd cf) = Some (Some pwd)"
    "deref (sq_name cf) = Some name" "deref (sq_user cf) = Some user" "deref (sq_pwd cf) = Some pwd"
    "deref (sq_table cf) = Some dbtable" "deref (sq_srv_col cf) = Some srv_col" "deref (sq_user_col cf) = Some user_col"
    "deref (sq_port_col cf) = Some port_col" "has_port_col cf = Some (port_col \<noteq> [])"
proof -
  have n: "p \<noteq> Freed \<Longrightarrow> \<exists>v. nullable p = Some v" for p by (cases p) (auto simp: nullable_def)
  obtain host port where "nullable (sq_host cf) = Some host" "nullable (sq_port cf) = Some port"
    using n [of "sq_host cf"] n [of "sq_port cf"] assms unfolding sql_live_def by blast
  moreover obtain name user pwd dbtable srv_col user_col port_col where
    "deref (sq_name cf) = Some name" "deref (sq_user cf) = Some user" "deref (sq_pwd cf) = Some pwd"
    "deref (sq_table cf) = Some dbtable" "deref (sq_srv_col cf) = Some srv_col" "deref (sq_user_col cf) = Some user_col"
    "deref (sq_port_col cf) = Some port_col"
    using assms by (auto simp: sql_live_def)
  ultimately show ?thesis by (intro that nullable_deref has_port_col_deref)
qed

text \<open>
  C38. With the same settings, of which one is the name of a port column, the three libraries make the same of
  the same row if its server and port are not empty, contain no blank and no NUL, and have fewer than 256 bytes:
  the server, a colon, the port, and the length with the NUL. MySQL looks the escaped key up, the others the key
  as it is. Other rows are treated differently: an empty server is a success for PostgreSQL and -3 for the others,
  only PostgreSQL cuts at a blank, and only ODBC cuts at 255 bytes.
\<close>

theorem sql_maps_agree:
  assumes "sql_live cf" "has_port_col cf = Some True" "\<And>n. length (malloc n) = n"
    and "no_nul (server @ port)" "server \<noteq> []" "port \<noteq> []" "CHR '' '' \<notin> set (server @ port)"
    and "length server < 256" "length port < 256"
    and "my_init E1" "mysql_connect E1 cf (sq_hosts cf) = Some True" "length (my_escape E1 key) \<le> 512"
    and "my_query E1 (the (mysql_query_str cf (my_escape E1 key))) = Rows ([user, Some server, Some port] # rows1)"
    and "od_env E2" "od_version E2" "od_dbc E2" "od_stmt E2" "od_bind E2" "\<And>n u p. od_connect E2 n u p" "\<And>q. od_exec E2 q"
    and "od_fetch E2 (the (odbc_query_str cf key)) = Fetched (Some server) (Some port)"
    and "\<And>h pt n u p. pg_connect E3 h pt n u p"
    and "pg_exec E3 (the (pgsql_query_str cf key)) = Some (2, [Some server, Some port] # rows3)"
  defines "r \<equiv> (0, Some (server @ CHR '':'' # port, Suc (length (server @ CHR '':'' # port))))"
  shows "mysql_dbserver_get malloc E1 cf key = Some (r, cf) \<and>
    odbc_dbserver_get malloc server_buf port_buf E2 cf key = Some r \<and>
    pgsql_dbserver_get malloc E3 cf key = Some r"
proof -
  have nn: "no_nul server" "no_nul port" using assms(4) by simp_all
  have j: "sql_join malloc server (Some port) = Some (server @ CHR '':'' # port, Suc (length (server @ CHR '':'' # port)))"
    using sql_join_spec [of malloc server "Some port"] assms(3) nn by simp
  obtain host portn name user pwd dbtable srv_col user_col port_col where L:
    "nullable (sq_host cf) = Some host" "nullable (sq_port cf) = Some portn" "nullable (sq_name cf) = Some (Some name)"
    "nullable (sq_user cf) = Some (Some user)" "nullable (sq_pwd cf) = Some (Some pwd)"
    "deref (sq_name cf) = Some name" "deref (sq_user cf) = Some user" "deref (sq_pwd cf) = Some pwd"
    "deref (sq_table cf) = Some dbtable" "deref (sq_srv_col cf) = Some srv_col" "deref (sq_user_col cf) = Some user_col"
    "deref (sq_port_col cf) = Some port_col" "has_port_col cf = Some (port_col \<noteq> [])"
    by (rule sql_live_D [OF assms(1)])
  obtain q1 q2 q3 where q: "mysql_query_str cf (my_escape E1 key) = Some q1" "odbc_query_str cf key = Some q2"
    "pgsql_query_str cf key = Some q3"
    using L assms(2) by (auto simp: mysql_query_str_def odbc_query_str_def pgsql_query_str_def)
  have row: "mysql_row malloc cf [user', Some server, Some port] = Some r" for user'
    using assms(2,5,6) nn j by (simp add: mysql_row_def col_def r_def)
  have 1: "mysql_dbserver_get malloc E1 cf key = Some (r, cf)"
    using assms(10-13) q(1) row by (simp add: mysql_dbserver_get_def SQL_QUERY_LENGTH_def)
  have b: "bound buf (Some s) = Some s" if "no_nul s" "length s < 256" for buf s
    using that cstr_prefix [of s] by (simp add: bound_def Let_def ODBC_RESULT_LENGTH_def)
  have 2: "odbc_dbserver_get malloc server_buf port_buf E2 cf key = Some r"
    using assms(2,5,6,8,9,14-21) q(2) L nn j b by (simp add: odbc_dbserver_get_def r_def)
  have t: "truncate_str server CHR '' '' = server" "truncate_str port CHR '' '' = port"
    using assms(7) by (auto simp: truncate_str_def takeWhile_eq_all_conv)
  have 3: "pgsql_dbserver_get malloc E3 cf key = Some r"
    using assms(22,23) q(3) L nn j t by (simp add: pgsql_dbserver_get_def pg_value_def r_def)
  from 1 2 3 show ?thesis by blast
qed



definition demo_malloc :: "nat \<Rightarrow> string" where
  "demo_malloc n = replicate n CHR ''x''"

definition demo_conf :: sql_conf where
  "demo_conf = mysql_defaults\<lparr>sq_hosts := [''db'']\<rparr>"

definition demo_mysql :: mysql_env where
  "demo_mysql = \<lparr>my_init = True, my_connect = \<lambda>h u p n pt. h = ''db'', my_escape = \<lambda>s. s,
     my_query = \<lambda>q. Rows [[Some ''joe'', Some ''mail'', Some ''143'']]\<rparr>"

definition demo_odbc :: odbc_env where
  "demo_odbc = \<lparr>od_env = True, od_version = True, od_dbc = True, od_connect = \<lambda>n u p. True, od_stmt = True, od_bind = True,
     od_exec = \<lambda>q. True, od_fetch = \<lambda>q. Fetched (Some ''mail'') (Some ''143'')\<rparr>"

definition demo_pgsql :: pgsql_env where
  "demo_pgsql = \<lparr>pg_connect = \<lambda>h pt n u p. True, pg_exec = \<lambda>q. Some (2, [[Some ''mail'', Some ''143'']])\<rparr>"

lemmas demo_sql = demo_conf_def demo_mysql_def demo_odbc_def demo_pgsql_def mysql_defaults_def demo_malloc_def

theorem sql_maps_agree_witness:
  "mysql_dbserver_get demo_malloc demo_mysql demo_conf ''joe'' = Some ((0, Some (''mail:143'', 9)), demo_conf) \<and>
   odbc_dbserver_get demo_malloc [] [] demo_odbc demo_conf ''joe'' = Some (0, Some (''mail:143'', 9)) \<and>
   pgsql_dbserver_get demo_malloc demo_pgsql demo_conf ''joe'' = Some (0, Some (''mail:143'', 9))"
  using sql_maps_agree [of demo_conf demo_malloc "''mail''" "''143''" demo_mysql "''joe''" "Some ''joe''" "[]" demo_odbc
      demo_pgsql "[]" "[]" "[]"]
  by (simp add: demo_sql sql_live_def has_port_col_def no_nul_def)

text \<open>
  C40. The escaped key has room for 512 bytes: a key of more than that writes past the end of the
  array as soon as there is a connection, and a key of at most 256 bytes never does.
\<close>

theorem mysql_key_overflow:
  assumes "my_init E" "mysql_connect E cf (sq_hosts cf) = Some True" "sql_live cf" "\<And>n. length (malloc n) = n"
    and "length key \<le> length (my_escape E key)" "length (my_escape E key) \<le> 2 * length key"
    and "\<And>q rows. my_query E q = Rows rows \<Longrightarrow> \<forall>row\<in>set rows. 3 \<le> length row"
  shows "(512 < length key \<longrightarrow> mysql_dbserver_get malloc E cf key = None) \<and>
    (length key \<le> 256 \<longrightarrow> mysql_dbserver_get malloc E cf key \<noteq> None)"
proof (intro conjI impI)
  assume "512 < length key"
  then show "mysql_dbserver_get malloc E cf key = None"
    using assms(1,2,5) by (simp add: mysql_dbserver_get_def SQL_QUERY_LENGTH_def)
next
  assume k: "length key \<le> 256"
  obtain host portn name user pwd dbtable srv_col user_col port_col where L:
    "nullable (sq_host cf) = Some host" "nullable (sq_port cf) = Some portn" "nullable (sq_name cf) = Some (Some name)"
    "nullable (sq_user cf) = Some (Some user)" "nullable (sq_pwd cf) = Some (Some pwd)"
    "deref (sq_name cf) = Some name" "deref (sq_user cf) = Some user" "deref (sq_pwd cf) = Some pwd"
    "deref (sq_table cf) = Some dbtable" "deref (sq_srv_col cf) = Some srv_col" "deref (sq_user_col cf) = Some user_col"
    "deref (sq_port_col cf) = Some port_col" "has_port_col cf = Some (port_col \<noteq> [])"
    by (rule sql_live_D [OF assms(3)])
  have q: "mysql_query_str cf (my_escape E key) \<noteq> None" using L by (auto simp: mysql_query_str_def)
  have row: "mysql_row malloc cf row \<noteq> None" if r3: "3 \<le> length row" for row
  proof -
    obtain a b c r where r: "row = a # b # c # r" using r3 by (cases row; cases "tl row"; cases "tl (tl row)") auto
    have "\<exists>a b. Option.bind (sql_join malloc s p) (\<lambda>r. Some (0::int, Some r)) = Some (a, b)"
      if "pred_option no_nul p" "no_nul s" for s p
      using sql_join_spec [of malloc s p] assms(4) that by (cases p) simp_all
    then show ?thesis using L(13) by (auto simp: mysql_row_def col_def r option.pred_map comp_def option.pred_True split: option.splits)
  qed
  obtain q1 where q1: "mysql_query_str cf (my_escape E key) = Some q1" using q by blast
  have "mysql_row malloc cf (hd rows) \<noteq> None" if "my_query E q1 = Rows rows" "rows \<noteq> []" for rows
    using assms(7) [OF that(1)] that(2) by (intro row) simp
  then show "mysql_dbserver_get malloc E cf key \<noteq> None"
    using assms(1,2,6) k q1 by (cases "my_query E q1") (auto simp: mysql_dbserver_get_def SQL_QUERY_LENGTH_def)
qed

theorem mysql_key_overflow_witness:
  "mysql_dbserver_get demo_malloc demo_mysql demo_conf (replicate 600 CHR ''a'') = None \<and>
   mysql_dbserver_get demo_malloc demo_mysql demo_conf (replicate 256 CHR ''a'') \<noteq> None"
  using mysql_key_overflow [of demo_mysql demo_conf demo_malloc "replicate 600 CHR ''a''"]
    mysql_key_overflow [of demo_mysql demo_conf demo_malloc "replicate 256 CHR ''a''"]
  by (simp add: demo_sql sql_live_def)

subsection \<open>Keys in queries\<close>

text \<open>A string literal of SQL, from behind its opening quote: its value, and what follows the closing quote.\<close>

fun sql_literal :: "string \<Rightarrow> (string \<times> string) option" where
  "sql_literal [] = None"
| "sql_literal (c # s) =
     (if c \<noteq> CHR 0x27 then map_option (\<lambda>(v, r). (c # v, r)) (sql_literal s)
      else if s \<noteq> [] \<and> hd s = CHR 0x27 then map_option (\<lambda>(v, r). (CHR 0x27 # v, r)) (sql_literal (tl s))
      else Some ([], s))"

lemma sql_literal_append:
  "CHR 0x27 \<notin> set v \<Longrightarrow> r = [] \<or> hd r \<noteq> CHR 0x27 \<Longrightarrow> sql_literal (v @ CHR 0x27 # r) = Some (v, r)"
  by (induction v) auto

lemma snprintf_cut_all: "length s < n \<Longrightarrow> snprintf_cut n s = s"
  by (simp add: snprintf_cut_def)

text \<open>The statements up to the value that the key is compared with.\<close>

definition pgsql_select :: "string \<Rightarrow> string \<Rightarrow> string \<Rightarrow> string \<Rightarrow> string" where
  "pgsql_select srv_col port_col dbtable user_col =
     ''SELECT '' @ srv_col @ (if port_col = [] then [] else CHR '','' # port_col) @ '' FROM '' @ dbtable @
     '' WHERE \"'' @ user_col @ [CHR 0x22, CHR ''='']"

definition odbc_select :: "string \<Rightarrow> string \<Rightarrow> string \<Rightarrow> string \<Rightarrow> string" where
  "odbc_select srv_col port_col dbtable user_col =
     (if port_col = [] then [CHR '' ''] else []) @ ''select '' @ user_col @ '', '' @ srv_col @
     (if port_col = [] then [] else '', '' @ port_col) @ '' from '' @ dbtable @ '' where '' @ user_col @ '' = ''"

lemma pgsql_query_text:
  assumes "sql_live cf" and "deref (sq_srv_col cf) = Some srv_col" and "deref (sq_port_col cf) = Some port_col"
    and "deref (sq_table cf) = Some dbtable" and "deref (sq_user_col cf) = Some user_col"
    and "length (pgsql_select srv_col port_col dbtable user_col) + length key < 254"
  shows "pgsql_query_str cf key = Some (pgsql_select srv_col port_col dbtable user_col @ CHR 0x27 # key @ [CHR 0x27])"
proof -
  have "has_port_col cf = Some (port_col \<noteq> [])" by (rule sql_live_D [OF assms(1)]) (use assms(3) in simp)
  then show ?thesis
    using assms by (cases "port_col = []") (simp_all add: pgsql_query_str_def snprintf_cut_all pgsql_select_def SQL_QUERY_LENGTH_def)
qed

lemma odbc_query_text:
  assumes "sql_live cf" and "deref (sq_srv_col cf) = Some srv_col" and "deref (sq_port_col cf) = Some port_col"
    and "deref (sq_table cf) = Some dbtable" and "deref (sq_user_col cf) = Some user_col"
    and "length (odbc_select srv_col port_col dbtable user_col) + length key < 251"
  shows "odbc_query_str cf key = Some (odbc_select srv_col port_col dbtable user_col @ CHR 0x27 # key @
     CHR 0x27 # CHR '';'' # (if port_col = [] then [CHR '' ''] else []))"
proof -
  have "has_port_col cf = Some (port_col \<noteq> [])" by (rule sql_live_D [OF assms(1)]) (use assms(3) in simp)
  then show ?thesis
    using assms by (cases "port_col = []") (simp_all add: odbc_query_str_def snprintf_cut_all odbc_select_def SQL_QUERY_LENGTH_def)
qed

text \<open>
  C39. PostgreSQL and ODBC lookups ask the database for exactly one statement, which is fixed by the settings up to
  the literal, and has the key unescaped in the literal. So what follows a single quote in a name is not in the
  literal: it is run as part of the statement.
\<close>

theorem sql_key_injection:
  assumes "sql_live cf" and "deref (sq_srv_col cf) = Some srv_col" and "deref (sq_port_col cf) = Some port_col"
    and "deref (sq_table cf) = Some dbtable" and "deref (sq_user_col cf) = Some user_col"
    and "key = a @ CHR 0x27 # b" and "CHR 0x27 \<notin> set a" and "b \<noteq> []" and "hd b \<noteq> CHR 0x27"
    and "length (pgsql_select srv_col port_col dbtable user_col) + length key < 254"
    and "length (odbc_select srv_col port_col dbtable user_col) + length key < 251"
  shows "\<exists>pq oq. pgsql_query_str cf key = Some pq \<and> odbc_query_str cf key = Some oq \<and>
     pgsql_dbserver_get malloc E1 cf key = pgsql_dbserver_get malloc (E1\<lparr>pg_exec := \<lambda>_. pg_exec E1 pq\<rparr>) cf key \<and>
     odbc_dbserver_get malloc server_buf port_buf E2 cf key =
       odbc_dbserver_get malloc server_buf port_buf (E2\<lparr>od_exec := \<lambda>_. od_exec E2 oq, od_fetch := \<lambda>_. od_fetch E2 oq\<rparr>) cf key \<and>
     pq = pgsql_select srv_col port_col dbtable user_col @ CHR 0x27 # a @ CHR 0x27 # b @ [CHR 0x27] \<and>
     oq = odbc_select srv_col port_col dbtable user_col @ CHR 0x27 # a @ CHR 0x27 # b @
       CHR 0x27 # CHR '';'' # (if port_col = [] then [CHR '' ''] else []) \<and>
     sql_literal (drop (Suc (length (pgsql_select srv_col port_col dbtable user_col))) pq) = Some (a, b @ [CHR 0x27]) \<and>
     sql_literal (drop (Suc (length (odbc_select srv_col port_col dbtable user_col))) oq) =
       Some (a, b @ CHR 0x27 # CHR '';'' # (if port_col = [] then [CHR '' ''] else []))"
proof -
  note P = pgsql_query_text [OF assms(1-5,10)] and O = odbc_query_text [OF assms(1-5,11)]
  have lit: "sql_literal (a @ CHR 0x27 # b @ t) = Some (a, b @ t)" for t
    using sql_literal_append [OF assms(7), of "b @ t"] assms(8,9) by simp
  have "pgsql_dbserver_get malloc E1 cf key = pgsql_dbserver_get malloc (E1\<lparr>pg_exec := \<lambda>_. pg_exec E1 (the (pgsql_query_str cf key))\<rparr>) cf key"
    using P by (simp add: pgsql_dbserver_get_def cong del: if_weak_cong)
  moreover have "odbc_dbserver_get malloc server_buf port_buf E2 cf key =
       odbc_dbserver_get malloc server_buf port_buf (E2\<lparr>od_exec := \<lambda>_. od_exec E2 (the (odbc_query_str cf key)),
         od_fetch := \<lambda>_. od_fetch E2 (the (odbc_query_str cf key))\<rparr>) cf key"
    using O by (simp add: odbc_dbserver_get_def cong del: if_weak_cong)
  ultimately show ?thesis using P O lit assms(6) by simp
qed

text \<open>With the default settings, the name \<open>x' OR 'a'='a\<close> makes the PostgreSQL lookup ask for the server of every user.\<close>

lemma demo_injected:
  "sql_live pgsql_defaults" "deref (sq_srv_col pgsql_defaults) = Some ''servername''"
  "deref (sq_port_col pgsql_defaults) = Some ''port''" "deref (sq_table pgsql_defaults) = Some ''tblPerdition''"
  "deref (sq_user_col pgsql_defaults) = Some ''user''"
  "pgsql_select ''servername'' ''port'' ''tblPerdition'' ''user'' = ''SELECT servername,port FROM tblPerdition WHERE \"user\"=''"
  "odbc_select ''servername'' ''port'' ''tblPerdition'' ''user'' = ''select user, servername, port from tblPerdition where user = ''"
  by (simp_all add: pgsql_defaults_def sql_live_def pgsql_select_def odbc_select_def)

theorem sql_key_injection_witness:
  "\<exists>pq. pgsql_query_str pgsql_defaults (''x'' @ CHR 0x27 # '' OR '' @ CHR 0x27 # ''a'' @ CHR 0x27 # ''='' @ CHR 0x27 # ''a'') = Some pq \<and>
     pq = ''SELECT servername,port FROM tblPerdition WHERE \"user\"='' @ CHR 0x27 # ''x'' @
       CHR 0x27 # '' OR '' @ CHR 0x27 # ''a'' @ CHR 0x27 # ''='' @ CHR 0x27 # ''a'' @ [CHR 0x27] \<and>
     sql_literal (drop 55 pq) = Some (''x'', '' OR '' @ CHR 0x27 # ''a'' @ CHR 0x27 # ''='' @ CHR 0x27 # ''a'' @ [CHR 0x27])"
proof -
  let ?b = "'' OR '' @ CHR 0x27 # ''a'' @ CHR 0x27 # ''='' @ CHR 0x27 # ''a''"
  have f: "CHR 0x27 \<notin> set ''x''" "?b \<noteq> []" "hd ?b \<noteq> CHR 0x27"
    "length (pgsql_select ''servername'' ''port'' ''tblPerdition'' ''user'') + length (''x'' @ CHR 0x27 # ?b) < 254"
    "length (odbc_select ''servername'' ''port'' ''tblPerdition'' ''user'') + length (''x'' @ CHR 0x27 # ?b) < 251"
    by (simp_all add: demo_injected(6,7))
  obtain pq where "pgsql_query_str pgsql_defaults (''x'' @ CHR 0x27 # ?b) = Some pq"
    and pq: "pq = pgsql_select ''servername'' ''port'' ''tblPerdition'' ''user'' @ CHR 0x27 # ''x'' @ CHR 0x27 # ?b @ [CHR 0x27]"
    and "sql_literal (drop (Suc (length (pgsql_select ''servername'' ''port'' ''tblPerdition'' ''user''))) pq) = Some (''x'', ?b @ [CHR 0x27])"
    using sql_key_injection [OF demo_injected(1-5) refl f] by blast
  then show ?thesis unfolding demo_injected(6) by (intro exI [of _ pq]) simp
qed

text \<open>Without settings in the configuration there is no host to connect to: the defaults of the MySQL library never connect.\<close>

lemma mysql_defaults_unconnected:
  assumes "my_init E"
  shows "mysql_dbserver_init split None mysql_defaults = Some (0, mysql_defaults) \<and>
    mysql_dbserver_get malloc E mysql_defaults key = Some ((-1, None), mysql_defaults)"
  using assms by (simp add: mysql_dbserver_init_def mysql_dbserver_get_def mysql_defaults_def)

text \<open>A \<open>mysql_init\<close> that fails frees the array that the settings point into, but leaves the pointer to it: the next failure frees it again.\<close>

lemma mysql_init_failure:
  assumes "\<not> my_init E" "sq_a cf = A_array"
  obtains cf' where "mysql_dbserver_get malloc E cf key = Some ((-1, None), cf')" "mysql_dbserver_get malloc E cf' key' = None"
    "sql_dbserver_fini cf' = None"
  using assms by (simp add: mysql_dbserver_get_def array_destroy_def sql_dbserver_fini_def)

text \<open>Closing the library and reading the same settings again restores them.\<close>

lemma pgsql_reload:
  assumes "split CHR '':'' s = Some xs"
  shows "(\<exists>cf. sql_dbserver_fini (snd (pgsql_dbserver_init split (Some s) pgsql_defaults)) = Some (0, cf) \<and>
    pgsql_dbserver_init split (Some s) cf = pgsql_dbserver_init split (Some s) pgsql_defaults)"
  using assms
  by (simp add: pgsql_dbserver_init_def sql_dbserver_fini_def array_destroy_def free_array_def sql_fields_def pgsql_defaults_def field_def)

text \<open>What \<open>getserver\<close> makes of the answer of PostgreSQL: an empty server is no server, although the lookup succeeded.\<close>

lemma pgsql_do_getserver:
  assumes "pgsql_dbserver_get malloc E cf key = Some (st, r)"
    and "get key (opt_map_library_opt opt) = (st, map_option fst r, case r of None \<Rightarrow> 0 | Some (s, n) \<Rightarrow> n)"
  shows "do_getserver opt key (Some get) None =
    (case r of
       None \<Rightarrow> Some (st, None)
     | Some (s, n) \<Rightarrow> if s = [] then Some (0, None)
         else map_option (\<lambda>usp. (0, Some usp)) (user_server_port_str_assign (opt_dd opt) None s))"
  by (rule pgsql.lookup_parsed [of malloc E cf key st r get opt, OF assms])

end
