(* ===== verification/Ldap_Map.thy ===== *)
theory Ldap_Map
  imports Getserver Auth Buffer
begin

text \<open>
  The lookup library for LDAP directories (\<^verbatim>\<open>perdition/db/ldap/perditiondb_ldap.c\<close>), for a build with
  OpenLDAP: the substitution of a key into the search URL, in place, in memory of exactly its size; the list of
  servers to connect to; the extensions of the URL; and the choice of the attributes of the first entry.

  The LDAP library and the answers of the server are parameters, as is what \<open>realloc\<close> leaves in
  the memory it adds.
\<close>

subsection \<open>Settings\<close>

record ldap_conf =
  pldap_filter :: "string option"
  pldap_version :: int

definition PERDITIONDB_LDAP_DEFAULT_URL :: string where
  "PERDITIONDB_LDAP_DEFAULT_URL = ''ldap://localhost/ou=mailbox,dc=nodomain?username,mailhost,port?one?(uid=%s)''"

text \<open>
  A version in front of the URL, one character alone or before a colon; \<open>c_int\<close> is what a character is
  as a number. The range of versions and \<open>ldap_is_ldap_url\<close> are those of the library.
\<close>

definition c_int :: "char \<Rightarrow> int" where
  "c_int c = (if ascii c < 128 then int (ascii c) else int (ascii c) - 256)"

definition ldap_version_str :: "string \<Rightarrow> int \<Rightarrow> int \<times> string" where
  "ldap_version_str s version =
     (case s of
        [c] \<Rightarrow> (c_int c - 48, [])
      | c # d # t \<Rightarrow> if d = CHR '':'' then (c_int c - 48, t) else (version, s)
      | [] \<Rightarrow> (version, s))"

definition ldap_dbserver_init ::
    "int \<Rightarrow> int \<Rightarrow> (string \<Rightarrow> bool) \<Rightarrow> string option \<Rightarrow> ldap_conf \<Rightarrow> int \<times> ldap_conf" where
  "ldap_dbserver_init version_min version_max is_ldap_url options_str cf =
     (let (version, str) = ldap_version_str (case options_str of None \<Rightarrow> [] | Some s \<Rightarrow> s) (pldap_version cf);
          cf1 = cf\<lparr>pldap_version := version\<rparr>
      in if version < version_min \<or> version > version_max then (-1, cf1)
         else let url = (if str = [] then PERDITIONDB_LDAP_DEFAULT_URL else str)
              in if \<not> is_ldap_url url then (-1, cf1) else (0, cf1\<lparr>pldap_filter := Some url\<rparr>))"

definition ldap_dbserver_fini :: "ldap_conf \<Rightarrow> int \<times> ldap_conf" where
  "ldap_dbserver_fini cf = (0, cf\<lparr>pldap_filter := None\<rparr>)"

subsection \<open>Substitution of the key\<close>

definition realloc_buf :: "(nat \<Rightarrow> string) \<Rightarrow> string \<Rightarrow> nat \<Rightarrow> string" where
  "realloc_buf junk b n = take n b @ junk (n - length b)"

definition buf_move :: "nat \<Rightarrow> nat \<Rightarrow> nat \<Rightarrow> string \<Rightarrow> string option" where
  "buf_move dst src n b =
     (if n = 0 then Some b
      else if src + n > length b then None else buf_copy dst (take n (drop src b)) b)"

text \<open>
  One directive that ends at \<open>i\<close>: the new length, the new memory, and where to go on. The width is in
  the string from \<open>format_int\<close> on, if that is not 0. A key longer than the width is not cut.
\<close>

definition filter_subst ::
    "(nat \<Rightarrow> string) \<Rightarrow> string \<Rightarrow> string \<Rightarrow> nat \<Rightarrow> nat \<Rightarrow> nat \<Rightarrow> (string \<times> nat \<times> nat) option" where
  "filter_subst junk key b filter_len i format_int =
     do { width \<leftarrow> (if format_int \<noteq> 0 then map_option nat (c_atoi (cstr (drop format_int b))) else Some 0);
          let dead_width = (if format_int \<noteq> 0 then i - format_int + 2 else 2);
          let j = (if format_int \<noteq> 0 then format_int - 1 else i - 1);
          let format_width = max width (length key);
          let new_len = filter_len + format_width - dead_width;
          b2 \<leftarrow> buf_move (j + format_width) (j + dead_width) (filter_len - j - dead_width) (realloc_buf junk b (new_len + 1));
          b3 \<leftarrow> buf_copy j (replicate format_width CHR '' '') b2;
          b4 \<leftarrow> buf_copy (j + format_width - length key) key b3;
          b5 \<leftarrow> buf_put new_len NUL b4;
          Some (b5, new_len, j + format_width) }"

text \<open>The scan goes on behind the key, so that it is not scanned itself.\<close>

lemma less_scan: "i < n \<Longrightarrow> n - Suc (i - f + f) < n - (i::nat)"
  by (cases "f \<le> i") simp_all

function pldap_filter_loop ::
    "(nat \<Rightarrow> string) \<Rightarrow> string \<Rightarrow> string \<Rightarrow> nat \<Rightarrow> nat \<Rightarrow> bool \<Rightarrow> nat \<Rightarrow> string option" where
  "pldap_filter_loop junk key b filter_len i format_percent format_int =
     (if \<not> i < filter_len then Some (cstr b)
      else if \<not> i < length b then None
      else let c = b ! i
           in if c = CHR ''%'' then pldap_filter_loop junk key b filter_len (i + 1) (\<not> format_percent) format_int
              else if format_percent \<and> c_isdigit c
              then pldap_filter_loop junk key b filter_len (i + 1) format_percent (if format_int = 0 then i else format_int)
              else if format_percent \<and> c = CHR ''s''
              then (case filter_subst junk key b filter_len i format_int of
                      None \<Rightarrow> None
                    | Some (b', filter_len', i') \<Rightarrow> pldap_filter_loop junk key b' filter_len' i' False 0)
              else pldap_filter_loop junk key b filter_len (i + 1) False 0)"
  by pat_completeness auto
termination
proof (relation "measure (\<lambda>(junk, key, b, n, i, p, f). n - i)", goal_cases)
  case (4 junk key b n i p f c t b' u n' i')
  then have "i < n" "filter_subst junk key b n i f = Some (b', n', i')" by auto
  then have "n' - i' < n - i" by (auto simp: filter_subst_def Let_def bind_eq_Some_conv less_scan split: if_split_asm)
  then show ?case using 4 by simp
qed auto

declare pldap_filter_loop.simps [simp del]

definition pldap_get_filter_str :: "(nat \<Rightarrow> string) \<Rightarrow> string \<Rightarrow> string \<Rightarrow> string option" where
  "pldap_get_filter_str junk key_str filter_str =
     pldap_filter_loop junk key_str (filter_str @ [NUL]) (length filter_str) 0 False 0"

subsection \<open>The servers to connect to\<close>

record lud =
  lud_scheme :: string
  lud_host :: string
  lud_port :: int
  lud_dn :: string
  lud_attrs :: "string list option"
  lud_scope :: int
  lud_filter :: string
  lud_exts :: "string list option"

definition LDAP_PORT :: int where "LDAP_PORT = 389"

text \<open>The number of hosts the memory is made for, from the first blank on.\<close>

function count_hosts :: "string \<Rightarrow> nat \<Rightarrow> nat" where
  "count_hosts start nhost =
     (let t = dropWhile (\<lambda>c. c \<noteq> CHR '' '') start
      in if t = [] then nhost else count_hosts (dropWhile (\<lambda>c. c = CHR '' '') t) (nhost + 1))"
  by pat_completeness auto
termination
proof (relation "measure (\<lambda>(start, _). length start)", goal_cases)
  case (2 start n t)
  then have "t \<noteq> []" "hd t = CHR '' ''" using hd_dropWhile [of "\<lambda>c. c \<noteq> CHR '' ''" start] by simp_all
  then obtain u where u: "t = CHR '' '' # u" by (cases t) simp_all
  have "length (dropWhile (\<lambda>c. c = CHR '' '') t) \<le> length u" using u by (simp add: length_dropWhile_le)
  moreover have "length t \<le> length start" using 2 by (simp add: length_dropWhile_le)
  ultimately show ?case using u by simp
qed simp

declare count_hosts.simps [simp del]

text \<open>One host, of which \<open>end - start\<close> is the length.\<close>

definition uri_add :: "lud \<Rightarrow> string \<Rightarrow> string \<Rightarrow> nat \<Rightarrow> string option" where
  "uri_add lud uri start n =
     do { u1 \<leftarrow> (if cstr uri \<noteq> [] then buf_strcat uri '' '' else Some uri);
          u2 \<leftarrow> buf_strcat u1 (lud_scheme lud);
          u3 \<leftarrow> buf_strcat u2 ''://'';
          u4 \<leftarrow> buf_strncat u3 start n;
          if lud_port lud \<noteq> LDAP_PORT
          then do { u5 \<leftarrow> buf_strcat u4 '':''; buf_strcat u5 (int_str (lud_port lud)) }
          else Some u4 }"

function uri_loop :: "lud \<Rightarrow> string \<Rightarrow> string \<Rightarrow> string option" where
  "uri_loop lud uri start =
     (let s = dropWhile (\<lambda>c. c = CHR '' '') start;
          n = length (takeWhile (\<lambda>c. c \<noteq> CHR '' '') s)
      in if n = 0 then Some uri
         else case uri_add lud uri s n of
                None \<Rightarrow> None
              | Some uri' \<Rightarrow> if drop n s = [] then Some uri' else uri_loop lud uri' (drop n s))"
  by pat_completeness auto
termination
proof (relation "measure (\<lambda>(_, _, start). length start)", goal_cases)
  case (2 lud uri start s n u)
  have "length s \<le> length start" using 2(1) by (simp add: length_dropWhile_le)
  moreover have "0 < n" "0 < length (drop n s)" using 2 by simp_all
  ultimately show ?case by simp
qed simp

declare uri_loop.simps [simp del]

definition perdition_ldap_uri :: "lud \<Rightarrow> string option" where
  "perdition_ldap_uri lud =
     (let nhost = count_hosts (dropWhile (\<lambda>c. c = CHR '' '') (lud_host lud)) 1;
          uri = replicate ((length (lud_scheme lud) + 9) * nhost + length (lud_host lud) + 1) NUL
      in map_option cstr (uri_loop lud uri (lud_host lud)))"

subsection \<open>Extensions\<close>

text \<open>The value of a binding extension begins one byte behind its name, whatever is there.\<close>

definition ext_value :: "string \<Rightarrow> string option" where
  "ext_value pstr = (if 9 \<le> length pstr then Some (drop 9 pstr) else None)"

fun pldap_scan_exts_loop :: "string list \<Rightarrow> string option \<Rightarrow> string option \<Rightarrow> (bool \<times> string option \<times> string option) option" where
  "pldap_scan_exts_loop [] bindname xbindpw = Some (False, bindname, xbindpw)"
| "pldap_scan_exts_loop (e # exts) bindname xbindpw =
     (let (critical, pstr) = (case e of [] \<Rightarrow> (False, []) | c # t \<Rightarrow> if c = CHR ''!'' then (True, t) else (False, e))
      in if strncaseeq pstr ''BINDNAME'' 8
         then (case ext_value pstr of None \<Rightarrow> None | Some v \<Rightarrow> pldap_scan_exts_loop exts (Some v) xbindpw)
         else if strncaseeq pstr ''X-BINDPW'' 8
         then (case ext_value pstr of None \<Rightarrow> None | Some v \<Rightarrow> pldap_scan_exts_loop exts bindname (Some v))
         else if critical then Some (True, bindname, xbindpw)
         else pldap_scan_exts_loop exts bindname xbindpw)"

definition pldap_scan_exts :: "string list option \<Rightarrow> (bool \<times> string option \<times> string option) option" where
  "pldap_scan_exts exts = (case exts of None \<Rightarrow> Some (False, None, None) | Some es \<Rightarrow> pldap_scan_exts_loop es None None)"

subsection \<open>The lookup\<close>

text \<open>
  An entry is its attributes with their values, in the order of the server. The library: parsing of the
  URL, the connection, the two options, the bind, the search with its code and the entries it found
  (\<open>None\<close> if they cannot be counted).
\<close>

type_synonym ldap_entry = "(string \<times> string list option) list"

record ldap_env =
  ld_url_parse :: "string \<Rightarrow> lud option"
  ld_initialize :: "string \<Rightarrow> bool"
  ld_set_timeout :: bool
  ld_set_version :: "int \<Rightarrow> bool"
  ld_bind :: "string option \<Rightarrow> string option \<Rightarrow> bool"
  ld_search :: "lud \<Rightarrow> bool \<times> ldap_entry list option"

text \<open>The attribute is stored at the first place of the URL that names it; only its first value counts.\<close>

fun attr_index :: "string list \<Rightarrow> string \<Rightarrow> nat option" where
  "attr_index [] pstr = None"
| "attr_index (a # as) pstr =
     (if strcaseeq a pstr then Some 0 else map_option Suc (attr_index as pstr))"

fun collect_attrs :: "string list \<Rightarrow> ldap_entry \<Rightarrow> string option list \<Rightarrow> string option list option" where
  "collect_attrs attrs [] returns = Some returns"
| "collect_attrs attrs ((pstr, bv_val) # es) returns =
     (case attr_index attrs pstr of
        None \<Rightarrow> collect_attrs attrs es returns
      | Some i \<Rightarrow> (case bv_val of
                     Some (v # _) \<Rightarrow> collect_attrs attrs es (returns[i := Some v])
                   | _ \<Rightarrow> None))"

text \<open>A single attribute is read as a user, server and port in one string.\<close>

definition ldap_returns :: "string \<Rightarrow> string option list \<Rightarrow> (string option \<times> string option \<times> string option) option" where
  "ldap_returns dd returns =
     (let get = (\<lambda>i. if i < length returns then returns ! i else None)
      in if returns = [] then None
         else case get 0 of
                Some s \<Rightarrow>
                  if get 1 = None \<and> get 2 = None
                  then do { usp \<leftarrow> user_server_port_str_assign dd None s;
                            Some (user_server_port_get_user usp, user_server_port_get_server usp, user_server_port_get_port usp) }
                  else Some (get 0, get 1, get 2)
              | None \<Rightarrow> Some (None, get 1, get 2))"

definition ldap_dbserver_get2 ::
    "(nat \<Rightarrow> string) \<Rightarrow> string \<Rightarrow> ldap_env \<Rightarrow> ldap_conf \<Rightarrow> string
      \<Rightarrow> (int \<times> string option \<times> string option \<times> string option) option" where
  "ldap_dbserver_get2 junk dd E cf key_str =
     do { filter_str \<leftarrow> pldap_filter cf;
          url \<leftarrow> pldap_get_filter_str junk key_str filter_str;
          case ld_url_parse E url of
            None \<Rightarrow> Some (-3, None, None, None)
          | Some lud \<Rightarrow>
              do { uri \<leftarrow> perdition_ldap_uri lud;
                   if \<not> ld_initialize E uri then Some (-1, None, None, None)
                   else do { (unsupported, binddn, bindpw) \<leftarrow> pldap_scan_exts (lud_exts lud);
                             if unsupported \<or> \<not> ld_set_timeout E \<or> \<not> ld_set_version E (pldap_version cf) \<or> \<not> ld_bind E binddn bindpw
                             then Some (-1, None, None, None)
                             else case ld_search E lud of
                                    (False, _) \<Rightarrow> Some (-1, None, None, None)
                                  | (True, None) \<Rightarrow> Some (-1, None, None, None)
                                  | (True, Some []) \<Rightarrow> Some (-2, None, None, None)
                                  | (True, Some (e # _)) \<Rightarrow>
                                      do { attrs \<leftarrow> map_option (take 3) (lud_attrs lud);
                                           returns \<leftarrow> collect_attrs attrs e (replicate (length attrs) None);
                                           (u, s, p) \<leftarrow> ldap_returns dd returns;
                                           Some (0, u, s, p) } } } }"



subsection \<open>Properties of the substitution\<close>

text \<open>A search URL as the code reads it: characters, and directives with their digits.\<close>

datatype filter_item = Item char | Sub string

fun render_item :: "filter_item \<Rightarrow> string" where
  "render_item (Item c) = [c]"
| "render_item (Sub ds) = CHR ''%'' # ds @ ''s''"

definition sub_width :: "string \<Rightarrow> nat" where
  "sub_width ds = nat (digits_value 0 ds)"

fun expand_item_key :: "string \<Rightarrow> filter_item \<Rightarrow> string" where
  "expand_item_key key (Item c) = [c]"
| "expand_item_key key (Sub ds) = replicate (sub_width ds - length key) CHR '' '' @ key"

text \<open>The digits take less room than what replaces them: otherwise the memory is made too short first.\<close>

fun good_item :: "string \<Rightarrow> filter_item \<Rightarrow> bool" where
  "good_item key (Item c) \<longleftrightarrow> c \<noteq> CHR ''%'' \<and> c \<noteq> NUL"
| "good_item key (Sub ds) \<longleftrightarrow> list_all c_isdigit ds \<and> digits_value 0 ds < 2 ^ 31 \<and> length ds < max (sub_width ds) (length key)"

lemma digits_value_mono: "list_all c_isdigit ds \<Longrightarrow> n \<ge> 0 \<Longrightarrow> digits_value n ds \<ge> 0"
  by (induction ds arbitrary: n) (auto simp: c_isdigit_def)

lemma digits_value_stop: "list_all c_isdigit ds \<Longrightarrow> \<not> c_isdigit c \<Longrightarrow> digits_value n (ds @ c # r) = digits_value n ds"
  by (induction ds arbitrary: n) auto

lemma c_atoi_digits:
  assumes "list_all c_isdigit (d # ds)" "\<not> c_isdigit c" "digits_value 0 (d # ds) < 2 ^ 31"
  shows "c_atoi (d # ds @ c # r) = Some (digits_value 0 (d # ds))"
proof -
  have "\<not> c_isspace d" "d \<noteq> CHR ''-''" "d \<noteq> CHR ''+''"
    using assms(1) by (auto simp: c_isdigit_def c_isspace_def ascii_def)
  then show ?thesis
    using assms digits_value_stop [OF assms(1,2), of 0 r] digits_value_mono [OF assms(1), of 0]
    by (simp add: c_atoi_def char_at_def Let_def)
qed

text \<open>One directive.\<close>

lemma filter_subst_step:
  assumes "list_all c_isdigit ds" "digits_value 0 ds < 2 ^ 31" "length ds < max (sub_width ds) (length key)" "no_nul (P @ R)"
    and "b = P @ CHR ''%'' # ds @ CHR ''s'' # R @ [NUL]" "n = length b - 1" "i = length P + length ds + 1"
    and "f = (if ds = [] then 0 else length P + 1)" "\<And>n. length (junk n) = n"
  defines "e \<equiv> replicate (sub_width ds - length key) CHR '' '' @ key"
  shows "filter_subst junk key b n i f = Some (P @ e @ R @ [NUL], length (P @ e @ R), length (P @ e))"
proof -
  define w where "w = max (sub_width ds) (length key)"
  have le: "length e = w" by (simp add: e_def w_def)
  have width: "(if f \<noteq> 0 then map_option nat (c_atoi (cstr (drop f b))) else Some 0) = Some (sub_width ds)"
  proof (cases ds)
    case (Cons d ds')
    have nd: "no_nul ds" using assms(1) by (auto simp: no_nul_def list_all_iff c_isdigit_def ascii_def)
    have "drop f b = ds @ CHR ''s'' # R @ [NUL]" using assms(5,8) Cons by simp
    then have "cstr (drop f b) = ds @ CHR ''s'' # R"
      using cstr_prefix [of "ds @ CHR ''s'' # R" "[]"] nd assms(4) by simp
    then show ?thesis using c_atoi_digits [of d ds' "CHR ''s''" R] assms(1,2,8) Cons
      by (simp add: sub_width_def c_isdigit_def ascii_def)
  qed (use assms(8) in \<open>simp add: sub_width_def\<close>)
  have dj: "(if f \<noteq> 0 then i - f + 2 else 2) = length ds + 2" "(if f \<noteq> 0 then f - 1 else i - 1) = length P"
    using assms(7,8) by (auto split: if_splits)
  have n: "n = length P + length ds + 2 + length R" using assms(5,6) by simp
  define new where "new = n + w - (length ds + 2)"
  have new: "new = length P + w + length R" by (simp add: new_def n)
  have dw: "length ds < w" using assms(3) by (simp add: w_def)
  obtain z where z: "realloc_buf junk b (new + 1) = P @ CHR ''%'' # ds @ CHR ''s'' # R @ z" "length z = w - length ds - 1"
  proof (cases "w = length ds + 1")
    case True
    then have "new + 1 = length (P @ CHR ''%'' # ds @ CHR ''s'' # R)" by (simp add: new)
    then show ?thesis using that [of "[]"] True assms(9) [of 0] unfolding assms(5) by (simp add: realloc_buf_def)
  next
    case False
    then have "length b \<le> new + 1" using dw assms(5) by (simp add: new)
    then show ?thesis using that [of "NUL # junk (new + 1 - length b)"] dw False assms(9)
      by (simp add: realloc_buf_def assms(5) new)
  qed
  define b1 where "b1 = realloc_buf junk b (new + 1)"
  have b1: "length b1 = new + 1" using z dw by (simp add: b1_def new)
  have src: "take (length R) (drop (length P + (length ds + 2)) b1) = R" unfolding b1_def z(1) by simp
  have mv: "buf_move (length P + w) (length P + (length ds + 2)) (length R) b1 =
      Some (take (length P + w) b1 @ R @ drop (new) b1)"
    using buf_copy_at [of "length P + w" R b1] b1 src dw new by (auto simp: buf_move_def)

  have tP: "take (length P) b1 = P" unfolding b1_def z(1) by simp
  define b2 where "b2 = take (length P + w) b1 @ R @ drop new b1"
  have b2: "buf_copy (length P) (replicate w CHR '' '') b2 = Some (P @ replicate w CHR '' '' @ R @ drop new b1)"
    using buf_copy_at [of "length P" "replicate w CHR '' ''" b2] b1 new tP unfolding b2_def
    by (simp add: min_absorb1)
  have b3: "buf_copy (length P + w - length key) key (P @ replicate w CHR '' '' @ R @ drop new b1) = Some (P @ e @ R @ drop new b1)"
  proof -
    have r: "replicate w CHR '' '' = replicate (w - length key) CHR '' '' @ replicate (length key) CHR '' ''"
      unfolding replicate_add [symmetric] w_def by simp
    have "buf_copy (length P + (w - length key)) key
        ((P @ replicate (w - length key) CHR '' '') @ replicate (length key) CHR '' '' @ R @ drop new b1) =
      Some ((P @ replicate (w - length key) CHR '' '') @ key @ R @ drop new b1)"
      by (rule buf_copy_append) simp_all
    moreover have "w - length key = sub_width ds - length key" by (simp add: w_def)
    moreover have "length P + w - length key = length P + (w - length key)" by (simp add: w_def)
    ultimately show ?thesis unfolding r e_def by simp
  qed
  obtain x where x: "drop new b1 = [x]" using b1 by (cases "drop new b1") (auto simp: drop_eq_Nil dest: arg_cong [of _ _ length])
  have b5: "buf_put new NUL (P @ e @ R @ [x]) = Some (P @ e @ R @ [NUL])"
    using buf_put_append [of "P @ e @ R" new NUL x "[]"] by (simp add: new le)
  have eqs: "n - Suc (Suc (length P + length ds)) = length R" "n + w - Suc (Suc (length ds)) = length P + (w + length R)"
    "realloc_buf junk b (Suc (length P + (w + length R))) = b1" "drop (length P + (w + length R)) b1 = [x]"
    using x by (simp_all add: n b1_def new add.assoc)
  show ?thesis
    unfolding filter_subst_def width Let_def dj w_def [symmetric] bind.bind_lunit
    using mv b2 b3 b5 by (simp add: eqs b2_def le new add.assoc)
qed

text \<open>The scanner: characters are passed over, and the digits of a directive.\<close>

lemma filter_loop_digits:
  assumes "list_all c_isdigit ds" "b = P @ Q @ ds @ CHR ''s'' # R" "n < length b" "length P + length Q + length ds < n" "Q \<noteq> []"
    and "f = (if length Q = 1 then 0 else length P + 1)" "Q' = Q @ ds"
    and "f' = (if length Q' = 1 then 0 else length P + 1)"
  shows "pldap_filter_loop junk key b n (length P + length Q) True f =
    (case filter_subst junk key b n (length P + length Q') f' of
       None \<Rightarrow> None | Some (b', n', i') \<Rightarrow> pldap_filter_loop junk key b' n' i' False 0)"
  using assms
proof (induction ds arbitrary: Q f)
  case Nil
  then show ?case by (simp add: pldap_filter_loop.simps [of _ _ _ _ "length P + length Q"] nth_append c_isdigit_def ascii_def)
next
  case (Cons d ds)
  have f: "(if f = 0 then length P + length Q else f) = (if length (Q @ [d]) = 1 then 0 else length P + 1)"
    using Cons.prems by (auto split: if_splits)
  have "pldap_filter_loop junk key b n (length P + length (Q @ [d])) True (if f = 0 then length P + length Q else f) =
    (case filter_subst junk key b n (length P + length Q') f' of
       None \<Rightarrow> None | Some (b', n', i') \<Rightarrow> pldap_filter_loop junk key b' n' i' False 0)"
    by (rule Cons.IH) (use Cons.prems f in simp_all)
  moreover have "d \<noteq> CHR ''%''" "c_isdigit d" using Cons.prems(1) by (auto simp: c_isdigit_def ascii_def)
  moreover have "b ! (length P + length Q) = d" using Cons.prems(2) by (simp add: nth_append)
  ultimately show ?case using Cons.prems(3,4)
    by (simp add: pldap_filter_loop.simps [of _ _ _ _ "length P + length Q"])
qed

lemma render_no_nul: "list_all (good_item key) items \<Longrightarrow> no_nul (concat (map render_item items))"
proof (induction items)
  case (Cons x items)
  then show ?case by (cases x) (auto simp: no_nul_def list_all_iff c_isdigit_def ascii_def)
qed simp

lemma filter_loop_render:
  assumes "list_all (good_item key) items" "no_nul P" "no_nul key" "\<And>n. length (junk n) = n"
  shows "pldap_filter_loop junk key (P @ concat (map render_item items) @ [NUL]) (length (P @ concat (map render_item items))) (length P) False 0 =
    Some (P @ concat (map (expand_item_key key) items))"
  using assms(1,2)
proof (induction items arbitrary: P)
  case Nil
  then show ?case using cstr_prefix [of P "[]"] by (simp add: pldap_filter_loop.simps)
next
  case (Cons x items)
  define R where "R = concat (map render_item items)"
  have nR: "no_nul R" using Cons.prems(1) render_no_nul [of key items] by (simp add: R_def)
  show ?case
  proof (cases x)
    case (Item c)
    then have c: "c \<noteq> CHR ''%''" "c \<noteq> NUL" using Cons.prems(1) by simp_all
    have "pldap_filter_loop junk key ((P @ [c]) @ R @ [NUL]) (length ((P @ [c]) @ R)) (length (P @ [c])) False 0 =
        Some ((P @ [c]) @ concat (map (expand_item_key key) items))"
      unfolding R_def by (rule Cons.IH) (use Cons.prems c in simp_all)
    then show ?thesis using c Item
      by (simp add: pldap_filter_loop.simps [of _ _ _ _ "length P"] R_def [symmetric] nth_append)
  next
    case (Sub ds)
    define b where "b = P @ CHR ''%'' # ds @ CHR ''s'' # R @ [NUL]"
    define n where "n = length b - 1"
    define e where "e = replicate (sub_width ds - length key) CHR '' '' @ key"
    define f where "f = (if ds = [] then 0 else length P + 1)"
    have g: "list_all c_isdigit ds" "digits_value 0 ds < 2 ^ 31" "length ds < max (sub_width ds) (length key)"
      using Cons.prems(1) Sub by simp_all
    have n: "n = length P + length ds + 2 + length R" by (simp add: n_def b_def)
    have st: "filter_subst junk key b n (length P + length ds + 1) f = Some (P @ e @ R @ [NUL], length (P @ e @ R), length (P @ e))"
      unfolding e_def by (rule filter_subst_step [OF g]) (use Cons.prems(2) nR assms(4) in \<open>simp_all add: b_def n_def f_def\<close>)
    have "pldap_filter_loop junk key b n (length P) False 0 = pldap_filter_loop junk key b n (length P + 1) True 0"
      by (simp add: pldap_filter_loop.simps [of _ _ _ _ "length P"] n) (simp add: b_def nth_append)
    also have "\<dots> = pldap_filter_loop junk key (P @ e @ R @ [NUL]) (length (P @ e @ R)) (length (P @ e)) False 0"
      using filter_loop_digits [of ds b P "''%''" "R @ [NUL]" n 0 "''%'' @ ds" f junk key] g(1) st
      by (simp add: n b_def f_def)
    also have "\<dots> = Some ((P @ e) @ concat (map (expand_item_key key) items))"
      using Cons.IH [of "P @ e"] Cons.prems assms(3) by (simp add: R_def e_def no_nul_def)
    finally show ?thesis using Sub by (simp add: b_def n R_def [symmetric] e_def add.assoc)
  qed
qed

text \<open>
  C17. The substitution into the search URL is the replacement of every directive by the key, padded to the
  width of the directive on the left. The key stands there as it is: nothing in it is escaped, and a
  directive in the key is not expanded.
\<close>

theorem pldap_filter_expand:
  assumes "list_all (good_item key) items" "no_nul key" "\<And>n. length (junk n) = n"
  shows "pldap_get_filter_str junk key (concat (map render_item items)) = Some (concat (map (expand_item_key key) items))"
  using filter_loop_render [of key items "[]" junk] assms by (simp add: pldap_get_filter_str_def)

text \<open>With the default URL: what a user types as a name is a part of the filter, and of the URL.\<close>

theorem pldap_filter_expand_witness:
  "pldap_get_filter_str (\<lambda>n. replicate n NUL) ''*'' PERDITIONDB_LDAP_DEFAULT_URL =
     Some ''ldap://localhost/ou=mailbox,dc=nodomain?username,mailhost,port?one?(uid=*)'' \<and>
   pldap_get_filter_str (\<lambda>n. replicate n NUL) ''x%s'' ''uid=%06s;'' = Some ''uid=   x%s;''"
proof -
  define U :: string where "U = ''ldap://localhost/ou=mailbox,dc=nodomain?username,mailhost,port?one?(uid=''"
  have u: "PERDITIONDB_LDAP_DEFAULT_URL = concat (map render_item (map Item U @ [Sub [], Item CHR '')'']))"
    by (simp add: PERDITIONDB_LDAP_DEFAULT_URL_def U_def)
  have g: "list_all (good_item ''*'') (map Item U @ [Sub [], Item CHR '')''])" by (simp add: U_def)
  have "pldap_get_filter_str (\<lambda>n. replicate n NUL) ''*'' PERDITIONDB_LDAP_DEFAULT_URL =
      Some (concat (map (expand_item_key ''*'') (map Item U @ [Sub [], Item CHR '')''])))"
    unfolding u by (rule pldap_filter_expand [OF g]) simp_all
  moreover have "pldap_get_filter_str (\<lambda>n. replicate n NUL) ''x%s'' (concat (map render_item (map Item ''uid='' @ [Sub ''06'', Item CHR '';'']))) =
      Some (concat (map (expand_item_key ''x%s'') (map Item ''uid='' @ [Sub ''06'', Item CHR '';''])))"
    by (rule pldap_filter_expand) (simp_all add: sub_width_def c_isdigit_def ascii_def)
  ultimately show ?thesis by (simp add: U_def sub_width_def c_isdigit_def ascii_def numeral_eq_Suc)
qed

text \<open>An empty key, or a width with more digits than bytes to put there, makes the memory too short before the rest is moved.\<close>

lemma pldap_filter_empty_key: "pldap_get_filter_str (\<lambda>n. replicate n NUL) [] PERDITIONDB_LDAP_DEFAULT_URL = None"
  by code_simp



subsection \<open>Properties of the list of servers\<close>

text \<open>The words of a string.\<close>

function blank_words :: "string \<Rightarrow> string list" where
  "blank_words s =
     (let t = dropWhile (\<lambda>c. c = CHR '' '') s
      in if t = [] then []
         else takeWhile (\<lambda>c. c \<noteq> CHR '' '') t # blank_words (dropWhile (\<lambda>c. c \<noteq> CHR '' '') t))"
  by pat_completeness auto
termination
proof (relation "measure length", goal_cases)
  case (2 s t)
  then have "t \<noteq> []" "hd t \<noteq> CHR '' ''" using hd_dropWhile [of "\<lambda>c. c = CHR '' ''" s] by simp_all
  then obtain c u where u: "t = c # u" "c \<noteq> CHR '' ''" by (cases t) simp_all
  have "length (dropWhile (\<lambda>c. c \<noteq> CHR '' '') t) \<le> length u" using u by (simp add: length_dropWhile_le)
  moreover have "length t \<le> length s" using 2(1) by (simp add: length_dropWhile_le)
  ultimately show ?case using u by simp
qed simp

declare blank_words.simps [simp del]

lemma blank_words_skip: "blank_words (dropWhile (\<lambda>c. c = CHR '' '') s) = blank_words s"
  by (simp add: blank_words.simps [of s] blank_words.simps [of "dropWhile (\<lambda>c. c = CHR '' '') s"])

lemma blank_words_Nil [simp]: "blank_words [] = []"
  by (simp add: blank_words.simps)

lemma count_hosts_Nil [simp]: "count_hosts [] n = n"
  by (simp add: count_hosts.simps)

lemma blank_words_no_nul: "no_nul s \<Longrightarrow> list_all no_nul (blank_words s)"
proof (induction s rule: blank_words.induct)
  case (1 s)
  define t where "t = dropWhile (\<lambda>c. c = CHR '' '') s"
  have nt: "no_nul t" using 1(2) by (auto simp: t_def no_nul_def dest: set_dropWhileD)
  then have "no_nul (takeWhile (\<lambda>c. c \<noteq> CHR '' '') t)" "no_nul (dropWhile (\<lambda>c. c \<noteq> CHR '' '') t)"
    by (auto simp: no_nul_def dest: set_dropWhileD set_takeWhileD)
  then show ?case using 1(1) [OF t_def] by (simp add: blank_words.simps [of s] t_def [symmetric])
qed

text \<open>The memory is made for at least as many hosts as there are words.\<close>

lemma count_hosts_words: "length (blank_words s) + n \<le> count_hosts (dropWhile (\<lambda>c. c = CHR '' '') s) n + 1"
proof (induction s arbitrary: n rule: blank_words.induct)
  case (1 s)
  define t where "t = dropWhile (\<lambda>c. c = CHR '' '') s"
  define u where "u = dropWhile (\<lambda>c. c \<noteq> CHR '' '') t"
  show ?case
  proof (cases "t = []")
    case False
    have "length (blank_words u) + (n + 1) \<le> count_hosts (dropWhile (\<lambda>c. c = CHR '' '') u) (n + 1) + 1"
      using 1 [OF t_def False, of "n + 1"] by (simp add: u_def)
    moreover have "length (blank_words s) = Suc (length (blank_words u))"
      using False by (simp add: blank_words.simps [of s] t_def [symmetric] u_def)
    moreover have "count_hosts t n = (if u = [] then n else count_hosts (dropWhile (\<lambda>c. c = CHR '' '') u) (n + 1))"
      by (auto simp: count_hosts.simps [of t] u_def)
    ultimately show ?thesis by (auto simp: t_def [symmetric] split: if_splits)
  qed (simp add: blank_words.simps [of s] t_def [symmetric])
qed

lemma blank_words_length: "sum_list (map length (blank_words s)) + length (blank_words s) \<le> length s + 1"
proof (induction "length s" arbitrary: s rule: less_induct)
  case less
  define t where "t = dropWhile (\<lambda>c. c = CHR '' '') s"
  define u where "u = dropWhile (\<lambda>c. c \<noteq> CHR '' '') t"
  have l: "length (takeWhile (\<lambda>c. c \<noteq> CHR '' '') t) + length u = length t"
    by (metis length_append takeWhile_dropWhile_id u_def)
  have t: "length t \<le> length s" by (simp add: t_def length_dropWhile_le)
  show ?case
  proof (cases "t = [] \<or> u = []")
    case True
    then show ?thesis using l t by (auto simp: blank_words.simps [of s] t_def [symmetric] u_def [symmetric])
  next
    case False
    then obtain u' where u': "u = CHR '' '' # u'" using hd_dropWhile [of "\<lambda>c. c \<noteq> CHR '' ''" t] by (cases u) (auto simp: u_def)
    have "blank_words u = blank_words u'" using blank_words_skip [of u] blank_words_skip [of u'] by (simp add: u')
    moreover have "sum_list (map length (blank_words u')) + length (blank_words u') \<le> length u"
      using less [of u'] l t u' by simp
    ultimately show ?thesis using l t False
      by (simp add: blank_words.simps [of s] t_def [symmetric] u_def [symmetric])
  qed
qed

text \<open>The text for one host.\<close>

definition host_uri :: "lud \<Rightarrow> string \<Rightarrow> string" where
  "host_uri lud h = lud_scheme lud @ ''://'' @ h @ (if lud_port lud \<noteq> LDAP_PORT then CHR '':'' # int_str (lud_port lud) else [])"

text \<open>A buffer with a string in it and room for \<open>m\<close> more bytes.\<close>

definition zbuf :: "string \<Rightarrow> nat \<Rightarrow> string" where
  "zbuf u m = u @ replicate (Suc m) NUL"

lemma cstr_zbuf: "no_nul u \<Longrightarrow> cstr (zbuf u m) = u"
  using cstr_prefix [of u "replicate m NUL"] by (simp add: zbuf_def)

lemma zbuf_copy:
  assumes "n \<le> m" "length t = n"
  shows "buf_copy (length u) (t @ [NUL]) (zbuf u m) = Some (zbuf (u @ t) (m - n))"
proof -
  have r: "replicate (Suc m) NUL = replicate (n + 1) NUL @ replicate (m - n) NUL"
    using assms(1) by (simp flip: replicate_add)
  have "buf_copy (length u) (t @ [NUL]) (u @ replicate (n + 1) NUL @ replicate (m - n) NUL) =
      Some (u @ (t @ [NUL]) @ replicate (m - n) NUL)"
    by (rule buf_copy_append) (use assms(2) in simp_all)
  then show ?thesis unfolding zbuf_def r by simp
qed

lemma zbuf_strcat: "no_nul u \<Longrightarrow> length s \<le> m \<Longrightarrow> buf_strcat (zbuf u m) s = Some (zbuf (u @ s) (m - length s))"
  by (simp add: buf_strcat_def cstr_zbuf zbuf_copy)

lemma zbuf_strncat:
  "no_nul u \<Longrightarrow> n \<le> m \<Longrightarrow> n \<le> length s \<Longrightarrow> buf_strncat (zbuf u m) s n = Some (zbuf (u @ take n s) (m - n))"
  by (simp add: buf_strncat_def cstr_zbuf zbuf_copy)

lemma dec_string_no_nul: "no_nul (dec_string n)"
  using dec_string_digits [of n] by (auto simp: all_digits_def no_nul_def list_all_iff c_isdigit_def ascii_def)

lemma int_str_port:
  assumes "0 \<le> p" "p < 65536"
  shows "no_nul (int_str p)" "length (int_str p) \<le> 5"
proof -
  show "no_nul (int_str p)" using assms(1) dec_string_no_nul by (simp add: int_str_def)
  have "nat p < 65536" using assms by simp
  then show "length (int_str p) \<le> 5" using assms(1) by (simp add: int_str_def dec_string.simps)
qed

text \<open>Adding one host, with room for it.\<close>

definition uri_step :: "lud \<Rightarrow> string \<Rightarrow> string \<Rightarrow> string" where
  "uri_step lud u h = (if u = [] then host_uri lud h else u @ '' '' @ host_uri lud h)"

lemma uri_add_zbuf:
  assumes "no_nul u" "no_nul (lud_scheme lud)" "no_nul h" "0 \<le> lud_port lud" "lud_port lud < 65536"
    and "length (uri_step lud u h) - length u \<le> m"
  shows "uri_add lud (zbuf u m) (h @ r) (length h) =
    Some (zbuf (uri_step lud u h) (m - (length (uri_step lud u h) - length u)))"
    and "no_nul (uri_step lud u h)"
proof -
  note p = int_str_port [OF assms(4,5)]
  have n: "no_nul ''://''" "no_nul '' ''" "no_nul '':''" by (simp_all add: no_nul_def)
  show "no_nul (uri_step lud u h)" using assms(1-3) p(1) by (simp add: uri_step_def host_uri_def)
  show "uri_add lud (zbuf u m) (h @ r) (length h) =
    Some (zbuf (uri_step lud u h) (m - (length (uri_step lud u h) - length u)))"
    by (insert assms(1-3,6) p(1) n,
        (cases "u = []"; cases "lud_port lud = LDAP_PORT";
         simp add: uri_add_def cstr_zbuf zbuf_strcat zbuf_strncat uri_step_def host_uri_def;
         rule arg_cong2 [where f = zbuf]; simp))
qed

lemma uri_step_length:
  assumes "0 \<le> lud_port lud" "lud_port lud < 65536"
  shows "length (uri_step lud u h) \<le> length u + length (lud_scheme lud) + length h + 9 + (if u = [] then 0 else 1)"
  using int_str_port(2) [OF assms] by (simp add: uri_step_def host_uri_def)

lemma uri_step_not_Nil: "uri_step lud u h \<noteq> []"
  by (simp add: uri_step_def host_uri_def)

text \<open>The loop adds one host for every word, if there is room for all of them.\<close>

lemma uri_loop_zbuf:
  assumes "no_nul u" "no_nul (lud_scheme lud)" "no_nul start" "0 \<le> lud_port lud" "lud_port lud < 65536"
    and "(length (lud_scheme lud) + 10) * length (blank_words start) + sum_list (map length (blank_words start)) \<le>
      m + (if u = [] then 1 else 0)"
  shows "\<exists>m'. uri_loop lud (zbuf u m) start = Some (zbuf (foldl (uri_step lud) u (blank_words start)) m')"
  using assms(1,3,6)
proof (induction start arbitrary: u m rule: blank_words.induct)
  case (1 start)
  define t where "t = dropWhile (\<lambda>c. c = CHR '' '') start"
  define h where "h = takeWhile (\<lambda>c. c \<noteq> CHR '' '') t"
  define r where "r = dropWhile (\<lambda>c. c \<noteq> CHR '' '') t"
  have t: "t = h @ r" by (simp add: h_def r_def)
  have nt: "no_nul t" using 1(3) by (auto simp: t_def no_nul_def dest: set_dropWhileD)
  have dr: "drop (length h) t = r" by (simp add: t)
  show ?case
  proof (cases "t = []")
    case True
    then show ?thesis by (simp add: uri_loop.simps [of _ _ start] blank_words.simps [of start] t_def [symmetric]) blast
  next
    case False
    then have h: "h \<noteq> []" using hd_dropWhile [of "\<lambda>c. c = CHR '' ''" start]
      by (cases t) (auto simp: h_def t_def [symmetric])
    have w: "blank_words start = h # blank_words r"
      using False by (simp add: blank_words.simps [of start] t_def [symmetric] h_def r_def)
    define u' where "u' = uri_step lud u h"
    note len = uri_step_length [OF assms(4,5), of u h, folded u'_def]
    have room: "length u' - length u \<le> m" using 1(4) len by (auto simp: w split: if_splits)
    have nh: "no_nul h" using nt by (simp add: t)
    have add: "uri_add lud (zbuf u m) t (length h) = Some (zbuf u' (m - (length u' - length u)))" "no_nul u'"
      using uri_add_zbuf(1) [OF 1(2) assms(2) nh assms(4,5), of m r] uri_add_zbuf(2) [OF 1(2) assms(2) nh assms(4,5), of m] room
      by (simp_all add: t u'_def)
    have ne: "u' \<noteq> []" using uri_step_not_Nil by (simp add: u'_def)
    have rest: "(length (lud_scheme lud) + 10) * length (blank_words r) + sum_list (map length (blank_words r)) \<le>
        m - (length u' - length u) + (if u' = [] then 1 else 0)"
      using 1(4) len room ne by (auto simp: w split: if_splits)
    have IH: "\<exists>m'. uri_loop lud (zbuf u' (m - (length u' - length u))) r = Some (zbuf (foldl (uri_step lud) u' (blank_words r)) m')"
      using 1(1) [OF t_def False, folded r_def, OF add(2) _ rest] nt by (simp add: t)
    have "uri_loop lud (zbuf u m) start =
        (if r = [] then Some (zbuf u' (m - (length u' - length u))) else uri_loop lud (zbuf u' (m - (length u' - length u))) r)"
      using add(1) h by (simp add: uri_loop.simps [of _ _ start] Let_def t_def [symmetric] h_def [symmetric] dr)
    then show ?thesis using IH by (auto simp: w u'_def [symmetric])
  qed
qed

text \<open>
  C19. The memory for the list of servers is enough, for any number of hosts and blanks and any port: the list is
  one URI for each host, separated by one blank.
\<close>

theorem perdition_ldap_uri_spec:
  assumes "no_nul (lud_scheme lud)" "no_nul (lud_host lud)" "0 \<le> lud_port lud" "lud_port lud < 65536"
  shows "perdition_ldap_uri lud = Some (foldl (uri_step lud) [] (blank_words (lud_host lud)))"
proof -
  define k where "k = count_hosts (dropWhile (\<lambda>c. c = CHR '' '') (lud_host lud)) 1"
  define ws where "ws = blank_words (lud_host lud)"
  define s where "s = length (lud_scheme lud) + 9"
  have k: "length ws \<le> k" using count_hosts_words [of "lud_host lud" 1] by (simp add: k_def ws_def)
  have "s * length ws \<le> s * k" using k by simp
  moreover have "sum_list (map length ws) + length ws \<le> length (lud_host lud) + 1"
    using blank_words_length [of "lud_host lud"] by (simp add: ws_def)
  ultimately have room: "(length (lud_scheme lud) + 10) * length ws + sum_list (map length ws) \<le>
      (s * k + length (lud_host lud)) + (if [] = ([] :: string) then 1 else 0)"
    by (simp add: s_def algebra_simps)
  obtain m' where l: "uri_loop lud (zbuf [] (s * k + length (lud_host lud))) (lud_host lud) = Some (zbuf (foldl (uri_step lud) [] ws) m')"
    using uri_loop_zbuf [of "[]" lud "lud_host lud" "s * k + length (lud_host lud)"] assms room by (auto simp: ws_def)
  have n: "no_nul (foldl (uri_step lud) u hs)" if "no_nul u" "list_all no_nul hs" for u hs
    using that
  proof (induction hs arbitrary: u)
    case (Cons h hs)
    then show ?case using assms(1) int_str_port(1) [OF assms(3,4)] by (simp add: uri_step_def host_uri_def no_nul_def)
  qed simp
  show ?thesis using l n [of "[]" ws] blank_words_no_nul [OF assms(2)]
    unfolding perdition_ldap_uri_def Let_def k_def [symmetric] s_def [symmetric]
    by (simp add: zbuf_def [of "[]"] cstr_zbuf ws_def)
qed



definition demo_lud :: lud where
  "demo_lud = \<lparr>lud_scheme = ''ldap'', lud_host = '' a  bc '', lud_port = 1389, lud_dn = ''dc=x'',
     lud_attrs = Some [''uid'', ''mailhost'', ''port''], lud_scope = 1, lud_filter = ''(uid=joe)'', lud_exts = None\<rparr>"

theorem perdition_ldap_uri_spec_witness:
  "perdition_ldap_uri demo_lud = Some ''ldap://a:1389 ldap://bc:1389''"
proof -
  have w: "blank_words '' a  bc '' = [''a'', ''bc'']" by code_simp
  have d: "int_str 1389 = ''1389''" by code_simp
  show ?thesis using perdition_ldap_uri_spec [of demo_lud] w d
    by (simp add: demo_lud_def no_nul_def uri_step_def host_uri_def LDAP_PORT_def)
qed

subsection \<open>Other behaviour\<close>

text \<open>
  An entry that has the user attribute but not the others: the value of the user attribute is read as the server.
\<close>

lemma ldap_user_read_as_server:
  assumes "user_server_port_str_assign dd None u = Some usp"
  shows "ldap_returns dd [Some u, None, None] = Some (usp_user usp, usp_server usp, usp_port usp)"
  using assms
  by (simp add: ldap_returns_def user_server_port_get_user_def user_server_port_get_server_def user_server_port_get_port_def)

text \<open>An extension that is a name and no more is read past its end.\<close>

lemma pldap_scan_exts_name_only: "pldap_scan_exts (Some [''!BINDNAME'']) = None"
  by code_simp

text \<open>A version that is not in range is kept: every later initialisation without one fails as well.\<close>

lemma ldap_version_kept:
  assumes "c_int c - 48 < lo \<or> c_int c - 48 > hi"
  shows "\<exists>cf'. ldap_dbserver_init lo hi ok (Some [c]) cf = (-1, cf') \<and> fst (ldap_dbserver_init lo hi ok None cf') = -1"
  using assms by (simp add: ldap_dbserver_init_def ldap_version_str_def)

definition demo_ldap :: ldap_env where
  "demo_ldap = \<lparr>ld_url_parse = \<lambda>u. Some demo_lud, ld_initialize = \<lambda>u. True, ld_set_timeout = True, ld_set_version = \<lambda>v. True,
     ld_bind = \<lambda>d p. d = None, ld_search = \<lambda>l. (True, Some [[(''UID'', Some [''joe'']), (''mailHost'', Some [''mail'', ''old''])]])\<rparr>"

text \<open>A whole lookup: attributes are compared without regard to case, and the first value counts.\<close>

lemma ldap_lookup_example:
  "ldap_dbserver_get2 (\<lambda>n. replicate n NUL) ''@'' demo_ldap \<lparr>pldap_filter = Some ''ldap:///?uid?one?(uid=%s)'', pldap_version = 3\<rparr> ''joe'' =
    Some (0, Some ''joe'', Some ''mail'', None)"
  by code_simp

end
