(* ===== verification/Pid_File.thy ===== *)
theory Pid_File
  imports Auth
begin

text \<open>
  The pid file (\<open>write_pid_file\<close>, \<open>create_pid_directory\<close> and \<open>perdition_chown\<close> of
  \<^verbatim>\<open>perdition/perdition.c\<close>): the calls of the operating system in their order, with the answers given by a
  script, and the decisions the code makes on them.

  The state is the rest of the script and the calls made so far with their answers. No result
  (\<open>None\<close>) means that the script has ended, or that an answer is not one of the call made.
\<close>

subsection \<open>Calls\<close>

datatype errno = EEXIST | EINTR | ESRCH | ENOENT | ENOTDIR | EOTHER

datatype answer = Done | Data string | Written nat | Is_dir bool | Err errno

datatype pid_call =
    Stat_dir string | Mkdir string | Setgid int | Chown string int int
  | Open_new string | Open_old string | Read_pid | Close | Kill int | Unlink string | Chmod string | Write string

type_synonym pid_state = "answer list \<times> (pid_call \<times> answer) list"

fun sys :: "pid_call \<Rightarrow> pid_state \<Rightarrow> (answer \<times> pid_state) option" where
  "sys c ([], tr) = None"
| "sys c (a # as, tr) = Some (a, as, tr @ [(c, a)])"

text \<open>A call that succeeds or fails; \<open>close\<close> is not checked.\<close>

definition sys_ok :: "pid_call \<Rightarrow> pid_state \<Rightarrow> (bool \<times> pid_state) option" where
  "sys_ok c s = do { (a, s1) \<leftarrow> sys c s; case a of Done \<Rightarrow> Some (True, s1) | Err e \<Rightarrow> Some (False, s1) | _ \<Rightarrow> None }"

definition sys_close :: "pid_state \<Rightarrow> pid_state option" where
  "sys_close s = map_option snd (sys_ok Close s)"

subsection \<open>Owner and directory\<close>

text \<open>The user data base, \<open>vanessa_socket_str_is_digit\<close>, \<open>dirname\<close>, and the identity of the process.\<close>

record pid_env =
  pi_is_digit :: "string \<Rightarrow> bool"
  pi_getgrnam :: "string \<Rightarrow> int option"
  pi_getpwnam :: "string \<Rightarrow> int option"
  pi_dirname :: "string \<Rightarrow> string"
  pi_root :: bool
  pi_pid :: nat

definition perdition_chown :: "pid_env \<Rightarrow> string \<Rightarrow> string \<Rightarrow> string \<Rightarrow> pid_state \<Rightarrow> (bool \<times> pid_state) option" where
  "perdition_chown E path username grp s =
     do { gid \<leftarrow> (if pi_is_digit E grp then map_option Some (c_atoi grp) else Some (pi_getgrnam E grp));
          case gid of
            None \<Rightarrow> Some (False, s)
          | Some g \<Rightarrow>
              do { (ok, s1) \<leftarrow> sys_ok (Setgid g) s;
                   if \<not> ok then Some (False, s1)
                   else do { uid \<leftarrow> (if pi_is_digit E username then map_option Some (c_atoi username)
                                    else Some (pi_getpwnam E username));
                             case uid of
                               None \<Rightarrow> Some (False, s1)
                             | Some u \<Rightarrow> sys_ok (Chown path u g) s1 } } }"

definition create_pid_directory :: "pid_env \<Rightarrow> string \<Rightarrow> string \<Rightarrow> string \<Rightarrow> pid_state \<Rightarrow> (bool \<times> pid_state) option" where
  "create_pid_directory E pidfilename username grp s =
     (let dir = pi_dirname E pidfilename
      in do { (a, s1) \<leftarrow> sys (Stat_dir dir) s;
              case a of
                Is_dir d \<Rightarrow> Some (d, s1)
              | Err e \<Rightarrow>
                  (if e \<noteq> ENOENT \<and> e \<noteq> ENOTDIR then Some (False, s1)
                   else do { (ok, s2) \<leftarrow> sys_ok (Mkdir dir) s1;
                             if \<not> ok then Some (False, s2)
                             else if pi_root E then perdition_chown E dir username grp s2
                             else Some (True, s2) })
              | _ \<Rightarrow> None })"

subsection \<open>An old pid file\<close>

text \<open>
  Reading, again after an interruption; \<open>None\<close> inside is a failure. At most ten bytes are read, and
  the string ends at a NUL among them.
\<close>

fun read_pid_loop :: "answer list \<Rightarrow> (pid_call \<times> answer) list \<Rightarrow> (string option \<times> pid_state) option" where
  "read_pid_loop [] tr = None"
| "read_pid_loop (a # as) tr =
     (case a of
        Data d \<Rightarrow> Some (Some (take 10 d), as, tr @ [(Read_pid, a)])
      | Err e \<Rightarrow> if e = EINTR then read_pid_loop as (tr @ [(Read_pid, a)]) else Some (None, as, tr @ [(Read_pid, a)])
      | _ \<Rightarrow> None)"

text \<open>
  The number in the text as an \<open>unsigned long\<close> of 64 bits: a minus sign negates it there. Ten characters
  cannot overflow it. A \<open>pid_t\<close> has 32 bits.
\<close>

definition strtoul_pid :: "string \<Rightarrow> 64 word" where
  "strtoul_pid str =
     (let t = dropWhile c_isspace str
      in if char_at t 0 = CHR ''-'' then - word_of_int (digits_value 0 (drop 1 t))
         else if char_at t 0 = CHR ''+'' then word_of_int (digits_value 0 (drop 1 t))
         else word_of_int (digits_value 0 t))"

definition pid_t :: "64 word \<Rightarrow> int" where
  "pid_t w = sint (ucast w :: 32 word)"

text \<open>
  What is done with the text of an old file. True if the file has been removed, false if the code gives up: the number
  is none of a process, the process is there, or asking for it failed otherwise.
\<close>

definition remove_if_dead :: "string \<Rightarrow> string \<Rightarrow> pid_state \<Rightarrow> (bool \<times> pid_state) option" where
  "remove_if_dead pidfilename bytes s =
     (let pid = strtoul_pid (cstr bytes)
      in if bytes = [] \<or> sint pid \<noteq> pid_t pid then Some (False, s)
         else do { (a, s1) \<leftarrow> sys (Kill (pid_t pid)) s;
                   case a of
                     Done \<Rightarrow> Some (False, s1)
                   | Err e \<Rightarrow> (if e \<noteq> ESRCH then Some (False, s1) else sys_ok (Unlink pidfilename) s1)
                   | _ \<Rightarrow> None })"

definition remove_stale :: "string \<Rightarrow> pid_state \<Rightarrow> (bool \<times> pid_state) option" where
  "remove_stale pidfilename s =
     do { (ok, s1) \<leftarrow> sys_ok (Open_old pidfilename) s;
          if \<not> ok then Some (False, s1)
          else do { (d, s2) \<leftarrow> read_pid_loop (fst s1) (snd s1);
                    s3 \<leftarrow> sys_close s2;
                    case d of None \<Rightarrow> Some (False, s3) | Some bytes \<Rightarrow> remove_if_dead pidfilename bytes s3 } }"

subsection \<open>Writing the file\<close>

text \<open>The calls \<open>cs\<close> lead from one state to another.\<close>

definition ext :: "pid_state \<Rightarrow> (pid_call \<times> answer) list \<Rightarrow> pid_state \<Rightarrow> bool" where
  "ext s cs s' \<longleftrightarrow> fst s = map snd cs @ fst s' \<and> snd s' = snd s @ cs"

lemma ext_Nil [simp]: "ext s [] s"
  by (simp add: ext_def)

lemma ext_trans: "ext s cs s1 \<Longrightarrow> ext s1 cs' s2 \<Longrightarrow> ext s (cs @ cs') s2"
  by (simp add: ext_def)

lemma sys_ext: "pred_option (\<lambda>(a, s'). ext s [(c, a)] s') (sys c s)"
  by (cases "(c, s)" rule: sys.cases) (auto simp: ext_def)

lemma sys_ok_ext: "pred_option (\<lambda>(b, s'). \<exists>a. ext s [(c, a)] s' \<and> b = (a = Done)) (sys_ok c s)"
  unfolding sys_ok_def by (rule pred_bind_pair [OF sys_ext]) (auto split: answer.split)

lemma sys_close_ext: "pred_option (\<lambda>s'. \<exists>a. ext s [(Close, a)] s') (sys_close s)"
  using sys_ok_ext [of s Close] by (auto simp: sys_close_def option.pred_map comp_def pred_option_def)

lemma read_pid_calls:
  "read_pid_loop as tr = Some (d, s') \<Longrightarrow>
    \<exists>cs a. ext (as, tr) (cs @ [(Read_pid, a)]) s' \<and> fst ` set cs \<subseteq> {Read_pid} \<and>
      (\<forall>x. d = Some x \<longrightarrow> (\<exists>y. a = Data y \<and> x = take 10 y))"
proof (induction as arbitrary: tr)
  case (Cons a as)
  show ?case
  proof (cases "a = Err EINTR")
    case True
    with Cons.prems Cons.IH [of "tr @ [(Read_pid, a)]"] obtain cs x where
      "ext (as, tr @ [(Read_pid, a)]) (cs @ [(Read_pid, x)]) s'" "fst ` set cs \<subseteq> {Read_pid}"
      "\<forall>z. d = Some z \<longrightarrow> (\<exists>y. x = Data y \<and> z = take 10 y)" by auto
    then show ?thesis by (intro exI [of _ "(Read_pid, a) # cs"] exI [of _ x]) (simp add: ext_def)
  next
    case False
    then show ?thesis using Cons.prems by (intro exI [of _ "[]"] exI [of _ a]) (auto simp: ext_def split: answer.splits if_splits)
  qed
qed simp

text \<open>
  The calls that remove an old file: it was opened and read, and there is no process of the number in it. They are the
  only ones to remove a file that the code has not made.
\<close>

definition stale_calls :: "(pid_call \<times> answer) list \<Rightarrow> bool" where
  "stale_calls cs \<longleftrightarrow> (\<exists>pre d c. cs = pre @ [(Read_pid, Data d), (Close, c), (Kill (pid_t (strtoul_pid (cstr (take 10 d)))), Err ESRCH)])"

definition safe_trace :: "(pid_call \<times> answer) list \<Rightarrow> bool" where
  "safe_trace tr \<longleftrightarrow> (\<forall>pre f a post. tr = pre @ (Unlink f, a) # post \<longrightarrow> stale_calls pre \<or> (Open_new f, Done) \<in> set pre)"

definition no_unlink :: "(pid_call \<times> answer) list \<Rightarrow> bool" where
  "no_unlink cs \<longleftrightarrow> (\<forall>f a. (Unlink f, a) \<notin> set cs)"

lemma safe_trace_Nil: "safe_trace []"
  by (simp add: safe_trace_def)

lemma snoc_eq:
  "tr @ [c] = pre @ x # post \<longleftrightarrow> (post = [] \<and> tr = pre \<and> c = x) \<or> (\<exists>post'. post = post' @ [c] \<and> tr = pre @ x # post')"
  by (cases post rule: rev_cases) auto

lemma safe_trace_snoc:
  "safe_trace (tr @ [c]) \<longleftrightarrow> safe_trace tr \<and> (\<forall>f a. c = (Unlink f, a) \<longrightarrow> stale_calls tr \<or> (Open_new f, Done) \<in> set tr)"
  unfolding safe_trace_def snoc_eq by blast

lemma safe_trace_no_unlink: "safe_trace tr \<Longrightarrow> no_unlink cs \<Longrightarrow> safe_trace (tr @ cs)"
proof (induction cs rule: rev_induct)
  case (snoc c cs)
  have n: "no_unlink cs" "\<And>f a. c \<noteq> (Unlink f, a)" using snoc.prems(2) by (auto simp: no_unlink_def)
  then show ?case using snoc.IH [OF snoc.prems(1) n(1)] by (simp add: safe_trace_snoc flip: append_assoc)
qed simp

text \<open>Removing an old file: what is called, and that the file is gone exactly after a success.\<close>

definition stale_result :: "string \<Rightarrow> pid_state \<Rightarrow> bool \<times> pid_state \<Rightarrow> bool" where
  "stale_result f s r \<longleftrightarrow> (\<exists>cs. ext s cs (snd r) \<and> (\<forall>f a. (Open_new f, a) \<notin> set cs) \<and>
      (no_unlink cs \<and> \<not> fst r \<or> (\<exists>pre a. cs = pre @ [(Unlink f, a)] \<and> no_unlink pre \<and> stale_calls pre \<and> fst r = (a = Done))))"

lemma stale_result_False: "ext s cs s' \<Longrightarrow> no_unlink cs \<Longrightarrow> \<forall>f a. (Open_new f, a) \<notin> set cs \<Longrightarrow> stale_result f s (False, s')"
  by (auto simp: stale_result_def)

lemma no_unlink_simps [simp]:
  "no_unlink []" "no_unlink (c # cs) \<longleftrightarrow> (\<forall>f a. c \<noteq> (Unlink f, a)) \<and> no_unlink cs"
  "no_unlink (cs @ cs') \<longleftrightarrow> no_unlink cs \<and> no_unlink cs'"
  by (auto simp: no_unlink_def)

lemma calls_in: "fst ` set cs \<subseteq> A \<Longrightarrow> c \<notin> A \<Longrightarrow> (c, a) \<notin> set cs"
  by (metis fst_conv image_eqI subsetD)

lemma remove_if_dead_calls:
  assumes "ext s (cs @ [(Read_pid, Data y), (Close, c)]) s'" "no_unlink cs" "\<forall>f a. (Open_new f, a) \<notin> set cs"
  shows "pred_option (stale_result f s) (remove_if_dead f (take 10 y) s')"
proof -
  let ?cs = "cs @ [(Read_pid, Data y), (Close, c)]" and ?k = "Kill (pid_t (strtoul_pid (cstr (take 10 y))))"
  have stop: "stale_result f s (False, s1)" if "ext s' cs' s1" "set cs' \<subseteq> {(?k, a)}" for cs' s1 a
    by (rule stale_result_False [OF ext_trans [OF assms(1) that(1)]]) (use that(2) assms(2,3) in \<open>auto simp: no_unlink_def\<close>)
  have unlink: "pred_option (stale_result f s) (sys_ok (Unlink f) s1)" if "ext s' [(?k, Err ESRCH)] s1" for s1
  proof -
    have "stale_result f s (a = Done, s2)" if e: "ext s1 [(Unlink f, a)] s2" for a s2
    proof -
      have "ext s ((?cs @ [(?k, Err ESRCH)]) @ [(Unlink f, a)]) s2"
        using ext_trans [OF ext_trans [OF assms(1) \<open>ext s' [(?k, Err ESRCH)] s1\<close>] e] by simp
      moreover have "stale_calls (?cs @ [(?k, Err ESRCH)])" by (auto simp: stale_calls_def)
      ultimately show ?thesis unfolding stale_result_def
        by (intro exI [of _ "(?cs @ [(?k, Err ESRCH)]) @ [(Unlink f, a)]"]) (use assms(2,3) in auto)
    qed
    then show ?thesis using sys_ok_ext [of s1 "Unlink f"] by (auto simp: pred_option_def)
  qed
  have answer: "pred_option (stale_result f s)
      (Option.bind (sys ?k s') (\<lambda>(a, s1). case a of
         Done \<Rightarrow> Some (False, s1)
       | Err e \<Rightarrow> (if e \<noteq> ESRCH then Some (False, s1) else sys_ok (Unlink f) s1)
       | _ \<Rightarrow> None))"
  proof (rule pred_bind_pair [OF sys_ext])
    fix a s1 assume e: "case (a, s1) of (a, s1) \<Rightarrow> ext s' [(?k, a)] s1"
    show "pred_option (stale_result f s) (case (a, s1) of (a, s1) \<Rightarrow> case a of
         Done \<Rightarrow> Some (False, s1)
       | Err e \<Rightarrow> (if e \<noteq> ESRCH then Some (False, s1) else sys_ok (Unlink f) s1)
       | _ \<Rightarrow> None)"
      using e stop [of "[(?k, a)]" s1 a] unlink [of s1] by (cases a) auto
  qed
  show ?thesis
    unfolding remove_if_dead_def Let_def using stop [of "[]" s'] answer by simp
qed

lemma remove_stale_calls: "pred_option (stale_result f s) (remove_stale f s)"
  unfolding remove_stale_def
proof (rule pred_bind_pair [OF sys_ok_ext], clarify)
  fix ok as tr a1
  assume e1: "ext s [(Open_old f, a1)] (as, tr)"
  have gives_up: "stale_result f s (False, s')" if "ext s cs s'" "fst ` set cs \<subseteq> {Open_old f, Read_pid, Close}" for cs s'
    by (rule stale_result_False [OF that(1)]) (simp_all add: no_unlink_def calls_in [OF that(2)])
  show "pred_option (stale_result f s) (if \<not> (a1 = Done) then Some (False, as, tr) else
      Option.bind (read_pid_loop (fst (as, tr)) (snd (as, tr))) (\<lambda>(d, s2). Option.bind (sys_close s2) (\<lambda>s3.
        case d of None \<Rightarrow> Some (False, s3) | Some bytes \<Rightarrow> remove_if_dead f bytes s3)))"
  proof (cases "a1 = Done")
    case True
    have "pred_option (stale_result f s) (Option.bind (sys_close s2) (\<lambda>s3.
        case d of None \<Rightarrow> Some (False, s3) | Some bytes \<Rightarrow> remove_if_dead f bytes s3))"
      if r: "read_pid_loop as tr = Some (d, s2)" for d s2
    proof (rule pred_bind)
      fix s3 assume "sys_close s2 = Some s3"
      then obtain c where c: "ext s2 [(Close, c)] s3" using sys_close_ext [of s2] by (auto simp: pred_option_def)
      obtain cs a where "ext (as, tr) (cs @ [(Read_pid, a)]) s2 \<and> fst ` set cs \<subseteq> {Read_pid} \<and>
          (\<forall>x. d = Some x \<longrightarrow> (\<exists>y. a = Data y \<and> x = take 10 y))"
        using read_pid_calls [OF r] by (elim exE)
      note r' = this [THEN conjunct1] this [THEN conjunct2, THEN conjunct1] this [THEN conjunct2, THEN conjunct2]
      have e: "ext s (((Open_old f, a1) # cs) @ [(Read_pid, a), (Close, c)]) s3"
        using ext_trans [OF ext_trans [OF e1 r'(1)] c] by simp
      show "pred_option (stale_result f s) (case d of None \<Rightarrow> Some (False, s3) | Some bytes \<Rightarrow> remove_if_dead f bytes s3)"
      proof (cases d)
        case None
        moreover have "fst ` set cs \<subseteq> {Open_old f, Read_pid, Close}" using r'(2) by (rule subset_trans) simp
        ultimately show ?thesis using gives_up [OF e] by simp
      next
        case (Some x)
        then obtain y where y: "a = Data y" "x = take 10 y" using r'(3) by blast
        have "pred_option (stale_result f s) (remove_if_dead f (take 10 y) s3)"
          by (rule remove_if_dead_calls [OF e [unfolded y(1)]]) (simp_all add: no_unlink_def calls_in [OF r'(2)])
        then show ?thesis using Some y by simp
      qed
    qed
    then show ?thesis using True by (auto intro: pred_bind)
  qed (use gives_up [OF e1] in simp)
qed

lemma remove_stale_length: "remove_stale f s = Some (b, s') \<Longrightarrow> length (fst s') \<le> length (fst s)"
  using remove_stale_calls [of f s] by (auto simp: stale_result_def ext_def)

lemma sys_length: "sys c s = Some (a, s') \<Longrightarrow> length (fst s') < length (fst s)"
  using sys_ext [of s c] by (auto simp: ext_def)

function open_pid_file :: "string \<Rightarrow> pid_state \<Rightarrow> (bool \<times> pid_state) option" where
  "open_pid_file pidfilename s =
     (case sys (Open_new pidfilename) s of
        Some (Done, s1) \<Rightarrow> Some (True, s1)
      | Some (Err e, s1) \<Rightarrow>
          if e \<noteq> EEXIST then Some (False, s1)
          else (case remove_stale pidfilename s1 of
                  Some (removed, s2) \<Rightarrow> if removed then open_pid_file pidfilename s2 else Some (False, s2)
                | None \<Rightarrow> None)
      | _ \<Rightarrow> None)"
  by pat_completeness auto
termination
  by (relation "measure (\<lambda>(_, s). length (fst s))") (auto dest!: sys_length remove_stale_length)

declare open_pid_file.simps [simp del]

fun write_pid_loop :: "string \<Rightarrow> answer list \<Rightarrow> (pid_call \<times> answer) list \<Rightarrow> (bool \<times> pid_state) option" where
  "write_pid_loop buf [] tr = None"
| "write_pid_loop buf (a # as) tr =
     (case a of
        Written n \<Rightarrow> Some (n = length buf, as, tr @ [(Write buf, a)])
      | Err e \<Rightarrow> if e = EINTR then write_pid_loop buf as (tr @ [(Write buf, a)]) else Some (False, as, tr @ [(Write buf, a)])
      | _ \<Rightarrow> None)"

text \<open>After a failure the new file is closed and removed.\<close>

definition drop_pid_file :: "string \<Rightarrow> pid_state \<Rightarrow> (bool \<times> pid_state) option" where
  "drop_pid_file pidfilename s =
     do { s1 \<leftarrow> sys_close s; (_, s2) \<leftarrow> sys_ok (Unlink pidfilename) s1; Some (False, s2) }"

definition fill_pid_file :: "pid_env \<Rightarrow> string \<Rightarrow> string \<Rightarrow> string \<Rightarrow> pid_state \<Rightarrow> (bool \<times> pid_state) option" where
  "fill_pid_file E pidfilename username grp s =
     do { (own, s3) \<leftarrow> (if pi_root E then perdition_chown E pidfilename username grp s else Some (True, s));
          if \<not> own then drop_pid_file pidfilename s3
          else do { (md, s4) \<leftarrow> sys_ok (Chmod pidfilename) s3;
                    let buf = dec_string (pi_pid E);
                    if \<not> md \<or> length buf \<ge> 11 then drop_pid_file pidfilename s4
                    else do { (w, s5) \<leftarrow> write_pid_loop buf (fst s4) (snd s4);
                              if \<not> w then drop_pid_file pidfilename s5
                              else do { s6 \<leftarrow> sys_close s5; Some (True, s6) } } } }"

definition write_pid_file :: "pid_env \<Rightarrow> string \<Rightarrow> string \<Rightarrow> string \<Rightarrow> pid_state \<Rightarrow> (bool \<times> pid_state) option" where
  "write_pid_file E pidfilename username grp s =
     do { (d, s1) \<leftarrow> create_pid_directory E pidfilename username grp s;
          if \<not> d then Some (False, s1)
          else do { (ok, s2) \<leftarrow> open_pid_file pidfilename s1;
                    if \<not> ok then Some (False, s2) else fill_pid_file E pidfilename username grp s2 } }"



subsection \<open>Properties\<close>

text \<open>Calls that neither create nor remove a file.\<close>

definition harmless :: "pid_call \<Rightarrow> bool" where
  "harmless c \<longleftrightarrow> (\<forall>f. c \<noteq> Unlink f \<and> c \<noteq> Open_new f)"

lemma harmless_simps [simp]:
  "harmless (Stat_dir d)" "harmless (Mkdir d)" "harmless (Setgid g)" "harmless (Chown p u g)" "harmless (Open_old f)"
  "harmless Read_pid" "harmless Close" "harmless (Kill q)" "harmless (Chmod f)" "harmless (Write b)"
  by (simp_all add: harmless_def)

definition quiet :: "pid_state \<Rightarrow> pid_state \<Rightarrow> bool" where
  "quiet s s' \<longleftrightarrow> (\<exists>cs. ext s cs s' \<and> list_all (\<lambda>c. harmless (fst c)) cs)"

lemma quiet_refl [simp]: "quiet s s"
  by (auto simp: quiet_def intro: exI [of _ "[]"])

lemma quiet_trans: "quiet s s1 \<Longrightarrow> quiet s1 s2 \<Longrightarrow> quiet s s2"
  unfolding quiet_def using ext_trans by fastforce

lemma quiet_ext: "ext s [(c, a)] s' \<Longrightarrow> harmless c \<Longrightarrow> quiet s s'"
  by (auto simp: quiet_def intro: exI [of _ "[(c, a)]"])

lemma quiet_step: "quiet s s1 \<Longrightarrow> pred_option (\<lambda>(b, s'). quiet s1 s') x \<Longrightarrow> pred_option (\<lambda>(b, s'). quiet s s') x"
  by (cases x) (auto intro: quiet_trans)

lemma sys_quiet: "harmless c \<Longrightarrow> pred_option (\<lambda>(a, s'). quiet s s') (sys c s)"
  using sys_ext [of s c] by (auto simp: pred_option_def intro: quiet_ext)

lemma sys_ok_quiet: "harmless c \<Longrightarrow> pred_option (\<lambda>(b, s'). quiet s s') (sys_ok c s)"
  using sys_ok_ext [of s c] by (auto simp: pred_option_def intro: quiet_ext)

lemma perdition_chown_quiet: "pred_option (\<lambda>(b, s'). quiet s s') (perdition_chown E path username grp s)"
  unfolding perdition_chown_def
proof (rule pred_bind)
  fix gid :: "int option"
  have owner: "pred_option (\<lambda>(b, s'). quiet s s') (Option.bind v (\<lambda>uid. case uid of
      None \<Rightarrow> Some (False, s1) | Some u \<Rightarrow> sys_ok (Chown path u g) s1))" if "quiet s s1" for s1 g v
    using that by (intro pred_bind) (auto intro!: quiet_step [OF _ sys_ok_quiet] split: option.split)
  have owner': "pred_option (\<lambda>(b, s'). quiet s s') (case v of
      None \<Rightarrow> Some (False, s1) | Some u \<Rightarrow> sys_ok (Chown path u g) s1)" if "quiet s s1" for s1 g v
    using owner [OF that, of "Some v" g] by simp
  show "pred_option (\<lambda>(b, s'). quiet s s') (case gid of
      None \<Rightarrow> Some (False, s)
    | Some g \<Rightarrow> Option.bind (sys_ok (Setgid g) s) (\<lambda>(ok, s1). if \<not> ok then Some (False, s1)
        else Option.bind (if pi_is_digit E username then map_option Some (c_atoi username) else Some (pi_getpwnam E username))
          (\<lambda>uid. case uid of None \<Rightarrow> Some (False, s1) | Some u \<Rightarrow> sys_ok (Chown path u g) s1)))"
    by (cases gid) (auto intro!: pred_bind_pair [OF sys_ok_quiet] owner owner')
qed

lemma create_pid_directory_quiet: "pred_option (\<lambda>(b, s'). quiet s s') (create_pid_directory E f username grp s)"
  unfolding create_pid_directory_def Let_def
  by (auto intro!: pred_bind_pair [OF sys_quiet] pred_bind_pair [OF sys_ok_quiet] quiet_step [OF _ sys_ok_quiet]
      quiet_step [OF _ perdition_chown_quiet] split: answer.split) (blast dest: quiet_trans)+

lemma write_pid_calls:
  "write_pid_loop buf as tr = Some (b, s') \<Longrightarrow>
    \<exists>cs a. ext (as, tr) (cs @ [(Write buf, a)]) s' \<and> fst ` set cs \<subseteq> {Write buf} \<and> (b \<longleftrightarrow> a = Written (length buf))"
proof (induction as arbitrary: tr)
  case (Cons a as)
  show ?case
  proof (cases "a = Err EINTR")
    case True
    with Cons.prems Cons.IH [of "tr @ [(Write buf, a)]"] obtain cs x where
      "ext (as, tr @ [(Write buf, a)]) (cs @ [(Write buf, x)]) s'" "fst ` set cs \<subseteq> {Write buf}"
      "b \<longleftrightarrow> x = Written (length buf)" by auto
    then show ?thesis by (intro exI [of _ "(Write buf, a) # cs"] exI [of _ x]) (simp add: ext_def)
  next
    case False
    then show ?thesis using Cons.prems by (intro exI [of _ "[]"] exI [of _ a]) (auto simp: ext_def split: answer.splits if_splits)
  qed
qed simp

lemma stale_calls_append: "stale_calls cs \<Longrightarrow> stale_calls (tr @ cs)"
  by (auto simp: stale_calls_def intro: append_assoc [symmetric])

lemma safe_stale:
  assumes "safe_trace (snd s)" "ext s cs s'"
    and "no_unlink cs \<or> (\<exists>pre a. cs = pre @ [(Unlink f, a)] \<and> no_unlink pre \<and> stale_calls pre)"
  shows "safe_trace (snd s')"
  using assms(3)
proof (elim disjE exE conjE)
  assume "no_unlink cs"
  then show ?thesis using safe_trace_no_unlink [OF assms(1)] assms(2) by (simp add: ext_def)
next
  fix pre a assume "cs = pre @ [(Unlink f, a)]" "no_unlink pre" "stale_calls pre"
  then show ?thesis
    using safe_trace_no_unlink [OF assms(1), of pre] assms(2) stale_calls_append [of pre "snd s"]
    by (simp add: ext_def safe_trace_snoc flip: append_assoc)
qed

text \<open>Opening: the file is new, or it has not been created.\<close>

lemma open_pid_file_calls:
  "open_pid_file f s = Some (b, s') \<Longrightarrow> safe_trace (snd s) \<Longrightarrow>
    safe_trace (snd s') \<and> (\<exists>cs. ext s cs s' \<and>
      (if b then cs \<noteq> [] \<and> last cs = (Open_new f, Done) else (Open_new f, Done) \<notin> set cs))"
proof (induction f s rule: open_pid_file.induct)
  case (1 f s)
  obtain a s1 where o: "sys (Open_new f) s = Some (a, s1)"
    using 1(2) by (auto simp: open_pid_file.simps [of f s] split: option.splits)
  have e: "ext s [(Open_new f, a)] s1" using sys_ext [of s "Open_new f"] o by simp
  have safe1: "safe_trace (snd s1)" using e 1(3) by (simp add: ext_def safe_trace_snoc)
  consider (new) "a = Done" "b" "s' = s1" | (fail) x where "a = Err x" "\<not> b" "s' = s1"
    | (gives_up) s2 where "a = Err EEXIST" "remove_stale f s1 = Some (False, s2)" "\<not> b" "s' = s2"
    | (again) s2 where "a = Err EEXIST" "remove_stale f s1 = Some (True, s2)" "open_pid_file f s2 = Some (b, s')"
    using 1(2) o by (auto simp: open_pid_file.simps [of f s] split: answer.split_asm option.split_asm if_split_asm)
  then show ?case
  proof cases
    case new
    then show ?thesis using e safe1 by (intro conjI exI [of _ "[(Open_new f, a)]"]) auto
  next
    case fail
    then show ?thesis using e safe1 by (auto intro!: exI [of _ "[(Open_new f, Err x)]"])
  next
    case gives_up
    obtain cs where cs: "ext s1 cs s2" "\<forall>f a. (Open_new f, a) \<notin> set cs"
        "no_unlink cs \<or> (\<exists>pre a. cs = pre @ [(Unlink f, a)] \<and> no_unlink pre \<and> stale_calls pre)"
      using remove_stale_calls [of f s1] gives_up(2) by (auto simp: stale_result_def)
    then show ?thesis using safe_stale [OF safe1] ext_trans [OF e cs(1)] gives_up by auto
  next
    case again
    obtain cs where cs: "ext s1 cs s2" "\<forall>f a. (Open_new f, a) \<notin> set cs"
        "no_unlink cs \<or> (\<exists>pre a. cs = pre @ [(Unlink f, a)] \<and> no_unlink pre \<and> stale_calls pre)"
      using remove_stale_calls [of f s1] again(2) by (auto simp: stale_result_def)
    have "safe_trace (snd s2)" using safe_stale [OF safe1 cs(1,3)] .
    then obtain cs' where c': "safe_trace (snd s')" "ext s2 cs' s'"
        "if b then cs' \<noteq> [] \<and> last cs' = (Open_new f, Done) else (Open_new f, Done) \<notin> set cs'"
      using 1(1) [of "(Err EEXIST, s1)" "Err EEXIST" s1 EEXIST "(True, s2)" True s2] again o by auto
    have "ext s ([(Open_new f, a)] @ cs @ cs') s'" using ext_trans [OF ext_trans [OF e cs(1)] c'(2)] by simp
    then show ?thesis using c' cs(2) again(1) by (cases b) (auto intro!: exI [of _ "[(Open_new f, a)] @ cs @ cs'"])
  qed
qed

lemma quiet_trace:
  assumes "quiet s s'" "safe_trace (snd s)" "(Open_new f, Done) \<notin> set (snd s)"
  shows "safe_trace (snd s')" "(Open_new f, Done) \<notin> set (snd s')"
proof -
  obtain cs where cs: "snd s' = snd s @ cs" "list_all (\<lambda>c. harmless (fst c)) cs"
    using assms(1) by (auto simp: quiet_def ext_def)
  have "no_unlink cs" "(Open_new f, Done) \<notin> set cs"
    using cs(2) by (auto simp: no_unlink_def list_all_iff harmless_def)
  then show "safe_trace (snd s')" "(Open_new f, Done) \<notin> set (snd s')"
    using assms(2,3) safe_trace_no_unlink [of "snd s" cs] cs(1) by simp_all
qed

text \<open>While the file is the one the code has created.\<close>

definition created :: "string \<Rightarrow> (pid_call \<times> answer) list \<Rightarrow> bool" where
  "created f tr \<longleftrightarrow> safe_trace tr \<and> (\<exists>pre mid. tr = pre @ (Open_new f, Done) # mid \<and> no_unlink mid)"

lemma created_append: "created f tr \<Longrightarrow> no_unlink cs \<Longrightarrow> created f (tr @ cs)"
  unfolding created_def using safe_trace_no_unlink by fastforce

lemma harmless_no_unlink: "list_all (\<lambda>c. harmless (fst c)) cs \<Longrightarrow> no_unlink cs"
  by (induction cs) (auto simp: harmless_def)

lemma created_quiet: "created f (snd s) \<Longrightarrow> quiet s s' \<Longrightarrow> created f (snd s')"
  by (auto simp: quiet_def ext_def intro!: created_append harmless_no_unlink)

text \<open>The outcome of \<open>write_pid_file\<close> in its calls.\<close>

definition pid_outcome :: "nat \<Rightarrow> string \<Rightarrow> bool \<Rightarrow> (pid_call \<times> answer) list \<Rightarrow> bool" where
  "pid_outcome pid f b tr \<longleftrightarrow>
     (if b then \<exists>pre mid c. tr = pre @ (Open_new f, Done) # mid @ [(Write (dec_string pid), Written (length (dec_string pid))), (Close, c)] \<and>
         no_unlink mid
      else (Open_new f, Done) \<in> set tr \<longrightarrow> (\<exists>a. last tr = (Unlink f, a)))"

lemma drop_pid_file_outcome:
  assumes "created f (snd s)"
  shows "pred_option (\<lambda>(b, s'). safe_trace (snd s') \<and> pid_outcome pid f b (snd s')) (drop_pid_file f s)"
  unfolding drop_pid_file_def
proof (rule pred_bind)
  fix s1 assume "sys_close s = Some s1"
  then have "created f (snd s1)"
    using sys_close_ext [of s] created_append [OF assms, of "[(Close, a)]" for a] by (auto simp: pred_option_def ext_def)
  then have s1: "safe_trace (snd s1)" "(Open_new f, Done) \<in> set (snd s1)" by (auto simp: created_def)
  show "pred_option (\<lambda>(b, s'). safe_trace (snd s') \<and> pid_outcome pid f b (snd s'))
      (Option.bind (sys_ok (Unlink f) s1) (\<lambda>(_, s2). Some (False, s2)))"
    by (rule pred_bind_pair [OF sys_ok_ext]) (use s1 in \<open>auto simp: pid_outcome_def ext_def safe_trace_snoc\<close>)
qed

lemma write_pid_finish:
  assumes "created f (snd s)"
  shows "pred_option (\<lambda>(b, s'). safe_trace (snd s') \<and> pid_outcome pid f b (snd s'))
    (do { (w, s5) \<leftarrow> write_pid_loop (dec_string pid) (fst s) (snd s);
          if \<not> w then drop_pid_file f s5 else do { s6 \<leftarrow> sys_close s5; Some (True, s6) } })"
proof (rule pred_bind, clarify)
  fix w as tr
  assume "write_pid_loop (dec_string pid) (fst s) (snd s) = Some (w, as, tr)"
  from write_pid_calls [OF this] obtain cs a where "ext (fst s, snd s) (cs @ [(Write (dec_string pid), a)]) (as, tr) \<and>
     fst ` set cs \<subseteq> {Write (dec_string pid)} \<and> (w \<longleftrightarrow> a = Written (length (dec_string pid)))" by (elim exE)
  then have w: "tr = snd s @ cs @ [(Write (dec_string pid), a)]" "no_unlink cs" "w \<longleftrightarrow> a = Written (length (dec_string pid))"
    by (auto simp: ext_def no_unlink_def calls_in)
  obtain pre mid where c: "safe_trace (snd s)" "snd s = pre @ (Open_new f, Done) # mid" "no_unlink mid"
    using assms by (auto simp: created_def)
  have cr: "created f tr" unfolding w(1) by (rule created_append [OF assms]) (use w(2) in simp)
  show "pred_option (\<lambda>(b, s'). safe_trace (snd s') \<and> pid_outcome pid f b (snd s'))
      (if \<not> w then drop_pid_file f (as, tr) else do { s6 \<leftarrow> sys_close (as, tr); Some (True, s6) })"
  proof (cases w)
    case True
    have "safe_trace (snd s6) \<and> pid_outcome pid f True (snd s6)" if s6: "sys_close (as, tr) = Some s6" for s6
    proof -
      obtain x where x: "snd s6 = tr @ [(Close, x)]" using sys_close_ext [of "(as, tr)"] s6 by (auto simp: ext_def)
      have "safe_trace (snd s6)" using created_append [OF cr, of "[(Close, x)]"] x by (simp add: created_def)
      moreover have "snd s6 = pre @ (Open_new f, Done) # (mid @ cs) @ [(Write (dec_string pid), Written (length (dec_string pid))), (Close, x)] \<and>
          no_unlink (mid @ cs)"
        using x w c(2,3) True by simp
      then have "pid_outcome pid f True (snd s6)" unfolding pid_outcome_def if_True by (intro exI)
      ultimately show ?thesis by blast
    qed
    then show ?thesis using True by (auto intro!: pred_bind)
  qed (use drop_pid_file_outcome [of f "(as, tr)"] cr in simp)
qed

lemma fill_pid_file_outcome:
  assumes "created f (snd s)"
  shows "pred_option (\<lambda>(b, s'). safe_trace (snd s') \<and> pid_outcome (pi_pid E) f b (snd s')) (fill_pid_file E f username grp s)"
  unfolding fill_pid_file_def
proof (rule pred_bind_pair [where Q = "\<lambda>(b, s'). quiet s s'"])
  show "pred_option (\<lambda>(b, s'). quiet s s') (if pi_root E then perdition_chown E f username grp s else Some (True, s))"
    using perdition_chown_quiet by simp
next
  fix own :: bool and s3 assume "case (own, s3) of (b, s') \<Rightarrow> quiet s s'"
  then have c3: "created f (snd s3)" using created_quiet [OF assms] by simp
  have "pred_option (\<lambda>(b, s'). safe_trace (snd s') \<and> pid_outcome (pi_pid E) f b (snd s'))
      (Option.bind (sys_ok (Chmod f) s3) (\<lambda>(md, s4). let buf = dec_string (pi_pid E) in
         if \<not> md \<or> length buf \<ge> 11 then drop_pid_file f s4
         else Option.bind (write_pid_loop buf (fst s4) (snd s4)) (\<lambda>(w, s5).
           if \<not> w then drop_pid_file f s5 else Option.bind (sys_close s5) (\<lambda>s6. Some (True, s6)))))"
    by (rule pred_bind_pair [OF sys_ok_quiet])
      (use created_quiet [OF c3] drop_pid_file_outcome write_pid_finish in \<open>auto simp: Let_def\<close>)
  then show "pred_option (\<lambda>(b, s'). safe_trace (snd s') \<and> pid_outcome (pi_pid E) f b (snd s'))
      (case (own, s3) of (own, s3) \<Rightarrow> if \<not> own then drop_pid_file f s3
       else Option.bind (sys_ok (Chmod f) s3) (\<lambda>(md, s4). let buf = dec_string (pi_pid E) in
         if \<not> md \<or> length buf \<ge> 11 then drop_pid_file f s4
         else Option.bind (write_pid_loop buf (fst s4) (snd s4)) (\<lambda>(w, s5).
           if \<not> w then drop_pid_file f s5 else Option.bind (sys_close s5) (\<lambda>s6. Some (True, s6)))))"
    using drop_pid_file_outcome [OF c3] by simp
qed

text \<open>
  C21. A file is removed only if it has been read and there is no process of the number in it, or if it has been created by
  the same run. After a success the file is the one created, with the process number in it; after a failure a
  file that has been created is removed again.
\<close>

theorem write_pid_file_safe:
  assumes "write_pid_file E f username grp (script, []) = Some (b, rest, tr)"
  shows "safe_trace tr \<and> pid_outcome (pi_pid E) f b tr"
proof -
  obtain d s1 where d: "create_pid_directory E f username grp (script, []) = Some (d, s1)"
    using assms by (auto simp: write_pid_file_def bind_eq_Some_conv)
  have "quiet (script, []) s1" using create_pid_directory_quiet [of "(script, [])" E f username grp] d by simp
  note t1 = quiet_trace [OF this, of f, simplified, OF safe_trace_Nil]
  show ?thesis
  proof (cases d)
    case False
    then show ?thesis using assms d t1 by (auto simp: write_pid_file_def pid_outcome_def)
  next
    case True
    then obtain ok s2 where o: "open_pid_file f s1 = Some (ok, s2)"
      using assms d by (auto simp: write_pid_file_def bind_eq_Some_conv)
    obtain cs where cs: "safe_trace (snd s2)" "ext s1 cs s2"
      "if ok then cs \<noteq> [] \<and> last cs = (Open_new f, Done) else (Open_new f, Done) \<notin> set cs"
      using open_pid_file_calls [OF o t1(1)] by blast
    show ?thesis
    proof (cases ok)
      case False
      then show ?thesis using assms d o True cs t1(2) by (auto simp: write_pid_file_def pid_outcome_def ext_def)
    next
      case True
      then have "snd s2 = (snd s1 @ butlast cs) @ (Open_new f, Done) # []"
        using cs(2,3) append_butlast_last_id [of cs] by (simp add: ext_def)
      then have "created f (snd s2)" using cs(1) unfolding created_def by fastforce
      then show ?thesis using fill_pid_file_outcome [of f s2 E username grp] assms d o \<open>d\<close> True
        by (simp add: write_pid_file_def)
    qed
  qed
qed



definition demo_pid_env :: pid_env where
  "demo_pid_env = \<lparr>pi_is_digit = \<lambda>s. s \<noteq> [] \<and> list_all c_isdigit s, pi_getgrnam = \<lambda>_. None, pi_getpwnam = \<lambda>_. Some 65534,
     pi_dirname = \<lambda>_. ''/run'', pi_root = True, pi_pid = 42\<rparr>"

definition demo_script :: "answer list" where
  "demo_script = [Is_dir True, Err EEXIST, Done, Err EINTR, Data ''123'', Done, Err ESRCH, Done, Done, Done, Done, Done, Written 2, Done]"

lemma demo_pid_run:
  "write_pid_file demo_pid_env ''/run/p'' ''nobody'' ''99'' (demo_script, []) = Some (True, [],
    [(Stat_dir ''/run'', Is_dir True), (Open_new ''/run/p'', Err EEXIST), (Open_old ''/run/p'', Done), (Read_pid, Err EINTR),
     (Read_pid, Data ''123''), (Close, Done), (Kill 123, Err ESRCH), (Unlink ''/run/p'', Done), (Open_new ''/run/p'', Done),
     (Setgid 99, Done), (Chown ''/run/p'' 65534 99, Done), (Chmod ''/run/p'', Done), (Write ''42'', Written 2), (Close, Done)])"
  by code_simp

theorem write_pid_file_safe_witness:
  "\<exists>tr. write_pid_file demo_pid_env ''/run/p'' ''nobody'' ''99'' (demo_script, []) = Some (True, [], tr) \<and>
     safe_trace tr \<and> pid_outcome 42 ''/run/p'' True tr"
  using write_pid_file_safe [OF demo_pid_run] demo_pid_run by (auto simp: demo_pid_env_def)

subsection \<open>Other texts in the file\<close>

text \<open>A text without a number counts as 0, and asks for the process group of perdition itself, which is there.\<close>

lemma garbage_pid:
  "remove_if_dead f ''abc'' (Done # as, tr) = Some (False, as, tr @ [(Kill 0, Done)])"
  by (simp add: remove_if_dead_def strtoul_pid_def pid_t_def cstr_def char_at_def c_isspace_def ascii_def c_isdigit_def)

text \<open>A negative number is accepted as well: \<open>-1\<close> asks for every process that may be signalled.\<close>

lemma negative_pid:
  "remove_if_dead f ''-1'' (Done # as, tr) = Some (False, as, tr @ [(Kill (-1), Done)])"
proof -
  have "pid_t (strtoul_pid (cstr ''-1'')) = -1" "sint (strtoul_pid (cstr ''-1'')) = -1" by code_simp+
  then show ?thesis by (simp add: remove_if_dead_def Let_def)
qed

text \<open>A number that is too large for a \<open>pid_t\<close> is refused without asking.\<close>

lemma large_pid: "remove_if_dead f ''4294967297'' s = Some (False, s)"
  by (simp add: remove_if_dead_def strtoul_pid_def pid_t_def cstr_def char_at_def c_isspace_def ascii_def c_isdigit_def)

end
