(* ===== verification/Log_Options.thy ===== *)
theory Log_Options
  imports Options_Parse Buffer
begin

text \<open>
  The listing of the options for the log (\<open>log_options\<close> and what it calls, from
  \<^verbatim>\<open>perdition/options.c\<close>): the lines, the 40-byte arrays that are filled with \<open>strcpy\<close>, and the cut at
  \<open>MAX_LINE_LENGTH\<close>. Writing outside of an array has no defined result (\<open>None\<close>). The display of an
  array of libvanessa and the host name are parameters.
\<close>

record log_env =
  lo_display :: "string list \<Rightarrow> string option"
  lo_package :: string
  lo_version :: string
  lo_nodename :: string
  lo_memory :: "nat \<Rightarrow> string"

definition BIN_OPT_STR :: "int \<Rightarrow> string" where "BIN_OPT_STR x = (if x \<noteq> 0 then ''on'' else ''off'')"

definition opt_str :: "string option \<Rightarrow> string" where "opt_str x = (case x of None \<Rightarrow> [] | Some s \<Rightarrow> s)"

definition log_passwd_to_str :: "int \<Rightarrow> string option" where
  "log_passwd_to_str x =
     (if x = LOG_PASSWD_NEVER then Some ''never'' else if x = LOG_PASSWD_OK then Some ''ok''
      else if x = LOG_PASSWD_FAIL then Some ''fail'' else if x = LOG_PASSWD_ALWAYS then Some ''always'' else None)"

text \<open>\<open>snprintf\<close> of the parts of a line into \<open>MAX_LINE_LENGTH - 1\<close> bytes; the byte behind is set to 0.\<close>

definition log_line :: "string list \<Rightarrow> string" where
  "log_line parts = take (MAX_LINE_LENGTH - 2) (concat parts)"

text \<open>Members of the lines: \<open>name="value"\<close> and \<open>name=value\<close>, with what follows.\<close>

definition quoted_field :: "string \<Rightarrow> string \<Rightarrow> string" where
  "quoted_field name v = name @ CHR ''='' # DQ # v @ DQ # '', ''"

definition bare_field :: "string \<Rightarrow> string \<Rightarrow> string" where
  "bare_field name v = name @ CHR ''='' # v @ '', ''"

subsection \<open>Lists of words in arrays\<close>

text \<open>
  The macro \<open>LOG_OPTIONS_ADD_STR\<close>: a comma unless \<open>dest\<close> is the start, and the string with its
  terminating byte; the state is the array and the position of \<open>dest\<close> in it.
\<close>

definition LOG_OPTIONS_ADD_STR :: "string \<Rightarrow> string \<times> nat \<Rightarrow> (string \<times> nat) option" where
  "LOG_OPTIONS_ADD_STR str st =
     (case st of (b, dest) \<Rightarrow>
        do { (b1, d1) \<leftarrow> (if dest \<noteq> 0 then map_option (\<lambda>b1. (b1, dest + 1)) (buf_put dest CHR '','' b) else Some (b, dest));
             b2 \<leftarrow> buf_copy d1 (str @ [NUL]) b1;
             Some (b2, d1 + length str) })"

definition add_str_if :: "bool \<Rightarrow> string \<Rightarrow> string \<times> nat \<Rightarrow> (string \<times> nat) option" where
  "add_str_if c str st = (if c then LOG_OPTIONS_ADD_STR str st else Some st)"

definition LOG_OPTIONS_BUILD_USERNAME_MODIFIER :: "int \<Rightarrow> string \<Rightarrow> string option" where
  "LOG_OPTIONS_BUILD_USERNAME_MODIFIER v str =
     (let g = v AND STATE_GET_SERVER \<noteq> 0; l = v AND STATE_LOCAL_AUTH \<noteq> 0; r = v AND STATE_REMOTE_LOGIN \<noteq> 0 in
      if g \<and> l \<and> r then map_option fst (LOG_OPTIONS_ADD_STR ''all'' (str, 0))
      else do { st1 \<leftarrow> add_str_if g ''servername_lookup'' (str, 0);
                st2 \<leftarrow> add_str_if l ''local_authentication'' st1;
                (b, d) \<leftarrow> add_str_if r ''remote_login'' st2;
                if d = 0 then buf_put 0 NUL b else Some b })"

text \<open>The depth behind the states in which a domain is added, cut to fit.\<close>

definition add_domain_depth :: "nat \<Rightarrow> string \<Rightarrow> string option" where
  "add_domain_depth depth b =
     (let s = cstr b in
      if s = [] then Some b
      else do { b1 \<leftarrow> buf_copy (length s) (take (39 - length s - 1) (CHR '','' # dec_string depth) @ [NUL]) b;
                buf_put 39 NUL b1 })"

text \<open>The array of 40 bytes for the TLS modes. \<open>ssl_mode_p\<close> is NULL (\<open>None\<close>) until it is set.\<close>

definition log_ssl_words :: "int \<Rightarrow> string \<Rightarrow> (string \<times> nat) option" where
  "log_ssl_words mode b =
     (let sl = mode AND SSL_MODE_SSL_LISTEN \<noteq> 0; so = mode AND SSL_MODE_SSL_OUTGOING \<noteq> 0;
          tl = mode AND SSL_MODE_TLS_LISTEN \<noteq> 0; to = mode AND SSL_MODE_TLS_OUTGOING \<noteq> 0 in
      if sl \<and> so then LOG_OPTIONS_ADD_STR ''ssl_all'' (b, 0)
      else if tl \<and> to then LOG_OPTIONS_ADD_STR ''tls_all'' (b, 0)
      else do { s1 \<leftarrow> add_str_if sl ''ssl_listen'' (b, 0);
                s2 \<leftarrow> add_str_if so ''ssl_outgoing'' s1;
                s3 \<leftarrow> add_str_if tl ''tls_listen'' s2;
                (b4, p4) \<leftarrow> add_str_if to ''tls_outgoing'' s3;
                if p4 = 0 then map_option (\<lambda>b5. (b5, p4)) (buf_put 0 NUL b4) else Some (b4, p4) })"

definition log_ssl_force :: "int \<Rightarrow> string \<times> nat \<Rightarrow> (string \<times> nat) option" where
  "log_ssl_force mode st =
     (let fo = mode AND SSL_MODE_TLS_OUTGOING_FORCE \<noteq> 0; fl = mode AND SSL_MODE_TLS_LISTEN_FORCE \<noteq> 0 in
      if fo \<and> fl then LOG_OPTIONS_ADD_STR ''tls_all_force'' st
      else do { s1 \<leftarrow> add_str_if fo ''tls_outgoing_force'' st; add_str_if fl ''tls_listen_force'' s1 })"

definition log_ssl_mode :: "int \<Rightarrow> string \<Rightarrow> string option" where
  "log_ssl_mode mode b =
     (if mode = SSL_MODE_EMPTY then buf_put 0 NUL b
      else if mode = SSL_MODE_NONE then buf_strcpy b ''none''
      else do { st \<leftarrow> log_ssl_words mode b; map_option fst (log_ssl_force mode st) })"

subsection \<open>The lines\<close>

text \<open>\<open>protocol_list\<close> gives NULL for a number that is no protocol; printing NULL has no defined result.\<close>

definition log_options_head_str :: "log_env \<Rightarrow> options \<Rightarrow> string option" where
  "log_options_head_str E opt =
     do { r \<leftarrow> protocol_list [] (opt_protocol opt); name \<leftarrow> r;
          Some (log_line [''Starting '', lo_package E, '' version='', lo_version E, '' protocol='', name]) }"

text \<open>
  The display of an array, NULL for no array; the outer option is for no defined result, the inner
  one for a failure of the library.
\<close>

definition display_array :: "log_env \<Rightarrow> string list option \<Rightarrow> string option option" where
  "display_array E a = (case a of None \<Rightarrow> Some None | Some xs \<Rightarrow> map_option Some (lo_display E xs))"

definition display_servers :: "log_env \<Rightarrow> options \<Rightarrow> user_server_port list option \<Rightarrow> string option option option" where
  "display_servers E opt a =
     (case a of None \<Rightarrow> Some (Some None)
              | Some us \<Rightarrow> map_option (\<lambda>xs. display_array E (Some xs)) (those (map (user_server_port_display (opt_dd opt)) us)))"

definition non_ssl_fields ::
    "log_env \<Rightarrow> options \<Rightarrow> string \<Rightarrow> string option \<Rightarrow> string option \<Rightarrow> string option \<Rightarrow> string \<Rightarrow> string \<Rightarrow> string \<Rightarrow> string list" where
  "non_ssl_fields E opt protocol outgoing_server bind_address query_key add_domain lower_case strip_domain =
     [quoted_field ''add_domain'' add_domain,
      bare_field ''authenticate_in'' (BIN_OPT_STR (opt_authenticate_in opt)),
      bare_field ''authenticate_timeout'' (int_str (opt_authenticate_timeout opt)),
      quoted_field ''bind_address'' (opt_str bind_address),
      bare_field ''client_server_specification'' (BIN_OPT_STR (opt_client_server_specification opt)),
      quoted_field ''config_file'' (opt_str (opt_config_file opt)),
      bare_field ''connection_limit'' (int_str (opt_connection_limit opt)),
      bare_field ''connection_logging'' (BIN_OPT_STR (opt_connection_logging opt)),
      bare_field ''connect_relog'' (int_str (opt_connect_relog opt)),
      bare_field ''debug'' (BIN_OPT_STR (opt_debug opt)),
      quoted_field ''domain_delimiter'' (opt_str (opt_domain_delimiter opt)),
      quoted_field ''explicit_domain'' (opt_str (opt_explicit_domain opt)),
      quoted_field ''group'' (opt_str (opt_group opt)),
      quoted_field ''imap_capability'' (opt_str (opt_imap_capability opt)),
      bare_field ''inetd_mode'' (BIN_OPT_STR (opt_inetd_mode opt)),
      quoted_field ''listen_port'' (opt_str (opt_listen_port opt)),
      quoted_field ''log_facility'' (opt_str (opt_log_facility opt)),
      quoted_field ''log_passwd'' (opt_str (log_passwd_to_str (opt_log_passwd opt))),
      bare_field ''login_disabled'' (BIN_OPT_STR (opt_login_disabled opt)),
      quoted_field ''lower_case'' lower_case,
      quoted_field ''managesieve_capability'' (opt_str (opt_managesieve_capability opt)),
      quoted_field ''map_library'' (opt_str (opt_map_library opt)),
      quoted_field ''map_library_opt'' (opt_str (opt_map_library_opt opt)),
      bare_field ''no_bind_banner'' (BIN_OPT_STR (opt_no_bind_banner opt)),
      bare_field ''no_daemon'' (BIN_OPT_STR (opt_no_daemon opt)),
      bare_field ''no_lookup'' (BIN_OPT_STR (opt_no_lookup opt)),
      bare_field ''tcp_keepalive'' (BIN_OPT_STR (opt_tcp_keepalive opt)),
      quoted_field ''nodename'' (lo_nodename E),
      quoted_field ''ok_line'' (opt_str (opt_ok_line opt)),
      quoted_field ''outgoing_port'' (opt_str (opt_outgoing_port opt)),
      quoted_field ''outgoing_server'' (opt_str outgoing_server),
      quoted_field ''pid_file'' (opt_str (opt_pid_file opt)),
      quoted_field ''pop_capability'' (opt_str (opt_pop_capability opt)),
      quoted_field ''protocol'' protocol,
      bare_field ''server_resp_line'' (BIN_OPT_STR (opt_server_resp_line opt)),
      quoted_field ''strip_domain'' strip_domain,
      bare_field ''timeout'' (int_str (opt_timeout opt)),
      quoted_field ''username'' (opt_str (opt_username opt)),
      bare_field ''username_from_database'' (BIN_OPT_STR (opt_username_from_database opt)),
      quoted_field ''query_key'' (opt_str query_key),
      ''quiet='', BIN_OPT_STR (opt_quiet opt),
      '' (mask=0x'', hex8 (opt_mask opt), '' '', hex8 (opt_mask2 opt), '')'']"

text \<open>The inner \<open>None\<close> is NULL, the result when the library fails.\<close>

definition log_options_non_ssl_str :: "log_env \<Rightarrow> options \<Rightarrow> string option option" where
  "log_options_non_ssl_str E opt =
     do { protocol \<leftarrow> protocol_list [] (opt_protocol opt);
          outgoing \<leftarrow> display_servers E opt (opt_outgoing_server opt);
          bind \<leftarrow> display_servers E opt (opt_bind_address opt);
          (case (protocol, outgoing, bind, display_array E (opt_query_key opt)) of
             (Some name, Some os, Some ba, Some qk) \<Rightarrow>
               do { ad \<leftarrow> LOG_OPTIONS_BUILD_USERNAME_MODIFIER (opt_add_domain opt) (lo_memory E 40);
                    ad1 \<leftarrow> add_domain_depth (opt_add_domain_strip_depth opt) ad;
                    lc \<leftarrow> LOG_OPTIONS_BUILD_USERNAME_MODIFIER (opt_lower_case opt) (lo_memory E 40);
                    sd \<leftarrow> LOG_OPTIONS_BUILD_USERNAME_MODIFIER (opt_strip_domain opt) (lo_memory E 40);
                    Some (Some (log_line (non_ssl_fields E opt name os ba qk (cstr ad1) (cstr lc) (cstr sd)))) }
           | _ \<Rightarrow> Some None) }"

definition ssl_fields :: "options \<Rightarrow> string \<Rightarrow> string list" where
  "ssl_fields opt ssl_mode =
     [quoted_field ''ssl_mode'' ssl_mode,
      quoted_field ''ssl_ca_file'' (opt_str (opt_ssl_ca_file opt)),
      quoted_field ''ssl_ca_path'' (opt_str (opt_ssl_ca_path opt)),
      quoted_field ''ssl_ca_accept_self_signed'' (BIN_OPT_STR (opt_ssl_ca_accept_self_signed opt)),
      quoted_field ''ssl_cert_file'' (opt_str (opt_ssl_cert_file opt)),
      quoted_field ''ssl_cert_accept_expired'' (BIN_OPT_STR (opt_ssl_cert_accept_expired opt)),
      quoted_field ''ssl_cert_not_yet_valid'' (BIN_OPT_STR (opt_ssl_cert_accept_not_yet_valid opt)),
      quoted_field ''ssl_cert_self_signed'' (BIN_OPT_STR (opt_ssl_cert_accept_self_signed opt)),
      bare_field ''ssl_cert_verify_depth'' (int_str (opt_ssl_cert_verify_depth opt)),
      quoted_field ''ssl_key_file'' (opt_str (opt_ssl_key_file opt)),
      quoted_field ''ssl_listen_ciphers'' (opt_str (opt_ssl_listen_ciphers opt)),
      quoted_field ''ssl_outgoing_ciphers'' (opt_str (opt_ssl_outgoing_ciphers opt)),
      quoted_field ''ssl_no_cert_verify'' (BIN_OPT_STR (opt_ssl_no_cert_verify opt)),
      quoted_field ''ssl_no_client_cert_verify'' (BIN_OPT_STR (opt_ssl_no_client_cert_verify opt)),
      ''ssl_no_cn_verify='', [DQ], BIN_OPT_STR (opt_ssl_no_cn_verify opt), [DQ], '' '',
      bare_field ''ssl_passphrase_fd'' (int_str (opt_ssl_passphrase_fd opt)),
      quoted_field ''ssl_passphrase_file'' (opt_str (opt_ssl_passphrase_file opt)),
      quoted_field ''ssl_listen_min_proto_version'' (opt_str (opt_ssl_listen_min_proto_version opt)),
      quoted_field ''ssl_outgoing_min_proto_version'' (opt_str (opt_ssl_outgoing_min_proto_version opt)),
      quoted_field ''ssl_listen_max_proto_version'' (opt_str (opt_ssl_listen_max_proto_version opt)),
      quoted_field ''ssl_outgoing_max_proto_version'' (opt_str (opt_ssl_outgoing_max_proto_version opt)),
      quoted_field ''ssl_listen_compression'' (BIN_OPT_STR (opt_ssl_listen_compression opt)),
      quoted_field ''ssl_outgoing_compression'' (BIN_OPT_STR (opt_ssl_outgoing_compression opt)),
      quoted_field ''ssl_no_cipher_server_preference'' (BIN_OPT_STR (opt_ssl_no_cipher_server_preference opt)),
      ''(ssl_mask=0x'', hex8 (opt_ssl_mask opt), '') '']"

definition log_options_ssl_str :: "log_env \<Rightarrow> options \<Rightarrow> string option" where
  "log_options_ssl_str E opt =
     do { b \<leftarrow> log_ssl_mode (opt_ssl_mode opt) (lo_memory E 40); Some (log_line (ssl_fields opt (cstr b))) }"

definition log_options_str :: "log_env \<Rightarrow> options \<Rightarrow> string list option option" where
  "log_options_str E opt =
     do { h \<leftarrow> log_options_head_str E opt;
          n \<leftarrow> log_options_non_ssl_str E opt;
          case n of
            None \<Rightarrow> Some None
          | Some a1 \<Rightarrow> do { a2 \<leftarrow> log_options_ssl_str E opt; Some (Some [h, a1, a2]) } }"

text \<open>The return code and the lines that go to the log.\<close>

definition log_options :: "log_env \<Rightarrow> options \<Rightarrow> (int \<times> string list) option" where
  "log_options E opt =
     do { a \<leftarrow> log_options_str E opt;
          Some (case a of None \<Rightarrow> (-1, [])
                        | Some ls \<Rightarrow> (0, if opt_debug opt \<noteq> 0 then filter (\<lambda>l. l \<noteq> []) ls else [hd ls])) }"

subsection \<open>What the arrays hold\<close>

definition mode_words :: "int \<Rightarrow> string list" where
  "mode_words m =
     (let on = (\<lambda>k. m AND k \<noteq> 0) in
      if on SSL_MODE_SSL_LISTEN \<and> on SSL_MODE_SSL_OUTGOING then [''ssl_all'']
      else if on SSL_MODE_TLS_LISTEN \<and> on SSL_MODE_TLS_OUTGOING then [''tls_all'']
      else map snd (filter (on \<circ> fst)
             [(SSL_MODE_SSL_LISTEN, ''ssl_listen''), (SSL_MODE_SSL_OUTGOING, ''ssl_outgoing''),
              (SSL_MODE_TLS_LISTEN, ''tls_listen''), (SSL_MODE_TLS_OUTGOING, ''tls_outgoing'')]))"

definition force_words :: "int \<Rightarrow> string list" where
  "force_words m =
     (let on = (\<lambda>k. m AND k \<noteq> 0) in
      if on SSL_MODE_TLS_OUTGOING_FORCE \<and> on SSL_MODE_TLS_LISTEN_FORCE then [''tls_all_force'']
      else map snd (filter (on \<circ> fst)
             [(SSL_MODE_TLS_OUTGOING_FORCE, ''tls_outgoing_force''), (SSL_MODE_TLS_LISTEN_FORCE, ''tls_listen_force'')]))"

definition mode_text :: "int \<Rightarrow> string" where
  "mode_text m = (if m = SSL_MODE_NONE then ''none'' else join CHR '','' (mode_words m @ force_words m))"

definition modifier_text :: "int \<Rightarrow> string" where
  "modifier_text v =
     (let on = (\<lambda>k. v AND k \<noteq> 0) in
      if on STATE_GET_SERVER \<and> on STATE_LOCAL_AUTH \<and> on STATE_REMOTE_LOGIN then ''all''
      else join CHR '','' (map snd (filter (on \<circ> fst)
             [(STATE_GET_SERVER, ''servername_lookup''), (STATE_LOCAL_AUTH, ''local_authentication''),
              (STATE_REMOTE_LOGIN, ''remote_login'')])))"

text \<open>The state of an array after some words.\<close>

definition listed :: "string \<Rightarrow> string list \<Rightarrow> string \<times> nat \<Rightarrow> bool" where
  "listed b ws st \<longleftrightarrow> snd st = length (join CHR '','' ws) \<and> length (fst st) = length b \<and>
     drop (Suc (snd st)) (fst st) = drop (Suc (snd st)) b \<and>
     (ws \<noteq> [] \<longrightarrow> take (Suc (snd st)) (fst st) = join CHR '','' ws @ [NUL])"

lemma listedD:
  assumes "listed b ws (b', d)"
  shows "d = length (join CHR '','' ws)" "length b' = length b" "drop (Suc d) b' = drop (Suc d) b"
    "ws \<noteq> [] \<Longrightarrow> take (Suc d) b' = join CHR '','' ws @ [NUL]"
    "ws \<noteq> [] \<Longrightarrow> b' = join CHR '','' ws @ NUL # drop (Suc (length (join CHR '','' ws))) b"
proof -
  note l = assms [unfolded listed_def fst_conv snd_conv]
  show d: "d = length (join CHR '','' ws)" and "length b' = length b" and r: "drop (Suc d) b' = drop (Suc d) b"
    and t: "ws \<noteq> [] \<Longrightarrow> take (Suc d) b' = join CHR '','' ws @ [NUL]"
    using l by blast+
  assume ws: "ws \<noteq> []"
  have "b' = take (Suc d) b' @ drop (Suc d) b" using r by (metis append_take_drop_id)
  then show "b' = join CHR '','' ws @ NUL # drop (Suc (length (join CHR '','' ws))) b"
    using t [OF ws] d by simp
qed

fun add_words :: "string list \<Rightarrow> string \<times> nat \<Rightarrow> (string \<times> nat) option" where
  "add_words [] st = Some st"
| "add_words (w # ws) st = do { st1 \<leftarrow> LOG_OPTIONS_ADD_STR w st; add_words ws st1 }"

lemma add_words_append: "add_words (ws @ vs) st = do { st1 \<leftarrow> add_words ws st; add_words vs st1 }"
proof (induction ws arbitrary: st)
  case (Cons w ws)
  then show ?case by (cases "LOG_OPTIONS_ADD_STR w st") simp_all
qed simp

lemma add_words_one: "add_words [w] st = LOG_OPTIONS_ADD_STR w st"
  by (cases "LOG_OPTIONS_ADD_STR w st") simp_all

lemma add_str_if_words: "add_str_if c w st = add_words (if c then [w] else []) st"
  by (simp add: add_str_if_def add_words_one del: add_words.simps(2))

lemma join_Cons_snoc: "join c (ws @ [w]) = (if ws = [] then w else join c ws @ c # w)"
  by (cases ws) simp_all

lemma join_nonempty: "[] \<notin> set ws \<Longrightarrow> (length (join c ws) = 0) = (ws = [])"
  by (cases ws) auto

lemma add_listed:
  assumes "listed b ws st" and "[] \<notin> set ws"
  shows "case LOG_OPTIONS_ADD_STR w st of
      None \<Rightarrow> length b \<le> length (join CHR '','' (ws @ [w]))
    | Some st1 \<Rightarrow> length (join CHR '','' (ws @ [w])) < length b \<and> listed b (ws @ [w]) st1"
proof -
  obtain b' d where st: "st = (b', d)" by (cases st)
  note l = listedD [OF assms(1) [unfolded st]]
  show ?thesis
  proof (cases "ws = []")
    case True
    then have d: "d = 0" using l(1) by simp
    show ?thesis
    proof (cases "length w < length b")
      case True
      then have c: "buf_copy 0 (w @ [NUL]) b' = Some ((w @ [NUL]) @ drop (Suc (length w)) b')"
        using buf_copy_at [of 0 "w @ [NUL]" b'] l by simp
      have "drop (Suc (length w)) b' = drop (Suc (length w)) b"
        using arg_cong [OF l(3), of "drop (length w)"] d by simp
      with c True show ?thesis using l d \<open>ws = []\<close> by (simp add: st LOG_OPTIONS_ADD_STR_def listed_def)
    next
      case False
      then have "buf_copy 0 (w @ [NUL]) b' = None" using l by (intro buf_copy_None) auto
      with False show ?thesis using d \<open>ws = []\<close> by (simp add: st LOG_OPTIONS_ADD_STR_def)
    qed
  next
    case False
    let ?j = "join CHR '','' ws"
    have d: "d = length ?j" "0 < d" using l join_nonempty [OF assms(2), of "CHR '',''"] False by auto
    have t: "take (Suc d) b' = ?j @ [NUL]" using l(4) False by simp
    then have dl: "d < length b'" by (metis length_append_singleton length_take min.absorb_iff2 d(1) not_less_eq_eq linorder_not_less min_def)
    have b': "b' = ?j @ NUL # drop (Suc d) b" using l(5) False d(1) by simp
    have p: "buf_put d CHR '','' b' = Some (?j @ CHR '','' # drop (Suc d) b)"
      using buf_put_append [of ?j d "CHR '',''" NUL "drop (Suc d) b"] b' d(1) by simp
    let ?b1 = "?j @ CHR '','' # drop (Suc d) b"
    have l1: "length ?b1 = length b" using dl l d(1) by simp
    have j: "join CHR '','' (ws @ [w]) = ?j @ CHR '','' # w" using join_Cons_snoc False by simp
    show ?thesis
    proof (cases "d + 1 + length w < length b")
      case True
      have c: "buf_copy (d + 1) (w @ [NUL]) ?b1 = Some ((?j @ [CHR '','']) @ (w @ [NUL]) @ drop (length w + 1) (drop (Suc d) b))"
        using buf_copy_at [of "d + 1" "w @ [NUL]" ?b1] True l1 d(1) by simp
      show ?thesis using True d p c l1 j by (simp add: st LOG_OPTIONS_ADD_STR_def listed_def add.commute add.left_commute)
    next
      case False
      then have "buf_copy (d + 1) (w @ [NUL]) ?b1 = None" using l1 by (intro buf_copy_None) auto
      with False show ?thesis using d p j by (simp add: st LOG_OPTIONS_ADD_STR_def)
    qed
  qed
qed

lemma add_words_listed:
  assumes "listed b vs st" and "[] \<notin> set vs" and "[] \<notin> set ws"
  shows "case add_words ws st of
      None \<Rightarrow> length b \<le> length (join CHR '','' (vs @ ws))
    | Some st1 \<Rightarrow> (ws \<noteq> [] \<longrightarrow> length (join CHR '','' (vs @ ws)) < length b) \<and> listed b (vs @ ws) st1"
  using assms
proof (induction ws arbitrary: vs st)
  case (Cons w ws)
  note a = add_listed [OF Cons.prems(1,2), of w]
  have m: "length (join CHR '','' (vs @ [w])) \<le> length (join CHR '','' (vs @ w # ws))" by (cases vs) simp_all
  show ?case
  proof (cases "LOG_OPTIONS_ADD_STR w st")
    case None
    then show ?thesis using a m by simp
  next
    case (Some st1)
    then have "listed b (vs @ [w]) st1" "length (join CHR '','' (vs @ [w])) < length b" using a by simp_all
    with Cons.IH [of "vs @ [w]" st1] Cons.prems Some show ?thesis
      by (cases "ws = []") (auto split: option.splits)
  qed
qed simp

lemma listed_start: "listed b [] (b, 0)"
  by (simp add: listed_def)

text \<open>The array with the words in it, if they fit.\<close>

definition word_array :: "string \<Rightarrow> string \<Rightarrow> string option" where
  "word_array t b = (if length t < length b then Some (t @ NUL # drop (Suc (length t)) b) else None)"

lemma add_words_array:
  assumes "[] \<notin> set ws" and "ws \<noteq> []"
  shows "map_option fst (add_words ws (b, 0)) = word_array (join CHR '','' ws) b"
  using add_words_listed [OF listed_start _ assms(1), of b] listedD(5) [of b ws] assms(2)
  by (auto simp: word_array_def split: option.splits)

lemma empty_array: "buf_put 0 NUL b = word_array [] b"
  by (cases b) (simp_all add: buf_put_def word_array_def)

lemma add_words_zero:
  assumes "add_words ws (b, 0) = Some (b1, d)" and "[] \<notin> set ws"
  shows "d = 0 \<longleftrightarrow> ws = []"
  using add_words_listed [OF listed_start _ assms(2), of b] assms(1) join_nonempty [OF assms(2)] by (simp add: listed_def)

lemma mode_words_ok: "[] \<notin> set (mode_words m)" "[] \<notin> set (force_words m)"
  by (auto simp: mode_words_def force_words_def Let_def)

lemma log_ssl_words_add:
  "log_ssl_words m b =
     (if mode_words m = [] then map_option (\<lambda>b1. (b1, 0)) (buf_put 0 NUL b) else add_words (mode_words m) (b, 0))"
proof -
  let ?sl = "m AND SSL_MODE_SSL_LISTEN \<noteq> 0" and ?so = "m AND SSL_MODE_SSL_OUTGOING \<noteq> 0"
  let ?tl = "m AND SSL_MODE_TLS_LISTEN \<noteq> 0" and ?to = "m AND SSL_MODE_TLS_OUTGOING \<noteq> 0"
  have z: "(case add_words (mode_words m) (b, 0) of None \<Rightarrow> None
      | Some (b4, p4) \<Rightarrow> if p4 = 0 then map_option (\<lambda>b5. (b5, p4)) (buf_put 0 NUL b4) else Some (b4, p4)) =
     (if mode_words m = [] then map_option (\<lambda>b1. (b1, 0)) (buf_put 0 NUL b) else add_words (mode_words m) (b, 0))"
    using add_words_zero [OF _ mode_words_ok(1), of m b] by (auto split: option.splits)
  show ?thesis
  proof (cases "?sl \<and> ?so \<or> ?tl \<and> ?to")
    case True
    then show ?thesis by (auto simp: log_ssl_words_def mode_words_def Let_def add_words_one simp del: add_words.simps(2))
  next
    case False
    then have "log_ssl_words m b = (case add_words (mode_words m) (b, 0) of None \<Rightarrow> None
      | Some (b4, p4) \<Rightarrow> if p4 = 0 then map_option (\<lambda>b5. (b5, p4)) (buf_put 0 NUL b4) else Some (b4, p4))"
      by (cases ?sl; cases ?so; cases ?tl; cases ?to)
        (simp_all add: log_ssl_words_def mode_words_def add_str_if_words bind_eq_Some_conv Option.bind_eq_None_conv
          split: Option.bind_split)
    then show ?thesis using z by simp
  qed
qed

lemma log_ssl_force_add: "log_ssl_force m st = add_words (force_words m) st"
  by (auto simp: log_ssl_force_def force_words_def Let_def add_str_if_words add_words_one split: Option.bind_split)

lemma listed_nul: "0 < length b \<Longrightarrow> listed b [] (NUL # tl b, 0)"
  by (cases b) (simp_all add: listed_def)

lemma log_ssl_mode_spec: "log_ssl_mode m b = word_array (mode_text m) b"
proof -
  have none: "buf_strcpy b ''none'' = word_array ''none'' b"
    using buf_strcpy_prefix [of "''none''" b "[]"] buf_strcpy_fits [of b "''none''"]
    by (cases "buf_strcpy b ''none''") (auto simp: word_array_def buf_strcpy_def cstr_def no_nul_def)
  have empty: "mode_text SSL_MODE_EMPTY = []" by code_simp
  note ok = mode_words_ok [of m]
  let ?w = "mode_words m" and ?f = "force_words m"
  have gen: "(case log_ssl_words m b of None \<Rightarrow> None | Some st \<Rightarrow> map_option fst (add_words ?f st)) =
      word_array (join CHR '','' (?w @ ?f)) b"
  proof (cases "?w = []")
    case True
    show ?thesis
    proof (cases "b = []")
      case True
      then show ?thesis using \<open>?w = []\<close> by (simp add: log_ssl_words_add buf_put_def word_array_def)
    next
      case False
      then have p: "buf_put 0 NUL b = Some (NUL # tl b)" using buf_head by simp
      have l: "listed b [] (NUL # tl b, 0)" using False listed_nul by simp
      show ?thesis
        using add_words_listed [OF l _ ok(2)] listedD(5) [of b ?f] p \<open>?w = []\<close> False
        by (cases "?f = []") (auto simp: log_ssl_words_add word_array_def drop_Suc split: option.splits)
    qed
  next
    case False
    then have "log_ssl_words m b = add_words ?w (b, 0)" by (simp add: log_ssl_words_add)
    then have "(case log_ssl_words m b of None \<Rightarrow> None | Some st \<Rightarrow> map_option fst (add_words ?f st)) =
        map_option fst (add_words (?w @ ?f) (b, 0))"
      by (auto simp: add_words_append split: option.splits)
    also have "\<dots> = word_array (join CHR '','' (?w @ ?f)) b"
      using add_words_array [of "?w @ ?f" b] ok False by simp
    finally show ?thesis .
  qed
  show ?thesis
    using none empty gen empty_array [of b]
    by (auto simp: log_ssl_mode_def log_ssl_force_add mode_text_def SSL_MODE_EMPTY_def SSL_MODE_NONE_def
      split: option.splits Option.bind_split)
qed

lemma words_or_empty:
  assumes "[] \<notin> set ws"
  shows "(case add_words ws (b, 0) of None \<Rightarrow> None | Some (b1, d) \<Rightarrow> if d = 0 then buf_put 0 NUL b1 else Some b1) =
    word_array (join CHR '','' ws) b"
proof (cases "ws = []")
  case True
  then show ?thesis using empty_array [of b] by simp
next
  case False
  show ?thesis
  proof (cases "add_words ws (b, 0)")
    case None
    then show ?thesis using add_words_array [OF assms False, of b] by simp
  next
    case (Some st)
    then obtain b1 d where st: "add_words ws (b, 0) = Some (b1, d)" by (cases st) auto
    then show ?thesis using add_words_array [OF assms False, of b] add_words_zero [OF st assms] False by simp
  qed
qed

lemma modifier_spec: "LOG_OPTIONS_BUILD_USERNAME_MODIFIER v b = word_array (modifier_text v) b"
proof -
  let ?g = "v AND STATE_GET_SERVER \<noteq> 0" and ?l = "v AND STATE_LOCAL_AUTH \<noteq> 0" and ?r = "v AND STATE_REMOTE_LOGIN \<noteq> 0"
  let ?ws = "map snd (filter ((\<lambda>k. v AND k \<noteq> 0) \<circ> fst)
     [(STATE_GET_SERVER, ''servername_lookup''), (STATE_LOCAL_AUTH, ''local_authentication''), (STATE_REMOTE_LOGIN, ''remote_login'')])"
  have ok: "[] \<notin> set ?ws" by auto
  show ?thesis
  proof (cases "?g \<and> ?l \<and> ?r")
    case True
    then show ?thesis using add_words_array [of "[''all'']" b]
      by (simp add: LOG_OPTIONS_BUILD_USERNAME_MODIFIER_def modifier_text_def add_words_one del: add_words.simps(2))
  next
    case False
    then have "LOG_OPTIONS_BUILD_USERNAME_MODIFIER v b =
        (case add_words ?ws (b, 0) of None \<Rightarrow> None | Some (b1, d) \<Rightarrow> if d = 0 then buf_put 0 NUL b1 else Some b1)"
      by (cases ?g; cases ?l; cases ?r)
        (simp_all add: LOG_OPTIONS_BUILD_USERNAME_MODIFIER_def add_str_if_words split: Option.bind_split)
    also have "\<dots> = word_array (join CHR '','' ?ws) b" by (rule words_or_empty [OF ok])
    finally show ?thesis using False by (auto simp: modifier_text_def Let_def)
  qed
qed

text \<open>The modes that the words of the option can make: forcing TLS comes with TLS.\<close>

definition mode_given :: "int \<Rightarrow> bool" where
  "mode_given m \<longleftrightarrow> ssl_mode_ok m \<and>
     (m AND SSL_MODE_TLS_LISTEN_FORCE \<noteq> 0 \<longrightarrow> m AND SSL_MODE_TLS_LISTEN \<noteq> 0) \<and>
     (m AND SSL_MODE_TLS_OUTGOING_FORCE \<noteq> 0 \<longrightarrow> m AND SSL_MODE_TLS_OUTGOING \<noteq> 0)"

lemma mode_text_lengths:
  "list_all (\<lambda>m. mode_given m \<longrightarrow> (40 \<le> length (mode_text m)) =
     (m AND 0x3f \<in> {0x16, 0x29})) (map int [0..<128])"
  by code_simp

lemma modifier_text_lengths: "list_all (\<lambda>m. length (modifier_text m) < 39) (map int [0..<8])"
  by code_simp

definition mode_logged :: "int \<Rightarrow> bool" where
  "mode_logged m \<longleftrightarrow> mode_given m \<and> 0 \<le> m \<and> m < 128"

lemma mode_word_bits:
  assumes "ssl_mode_word w = Some n"
  shows "0 \<le> n \<and> n < 128 \<and> (n AND SSL_MODE_TLS_LISTEN_FORCE \<noteq> 0 \<longrightarrow> n AND SSL_MODE_TLS_LISTEN \<noteq> 0) \<and>
    (n AND SSL_MODE_TLS_OUTGOING_FORCE \<noteq> 0 \<longrightarrow> n AND SSL_MODE_TLS_OUTGOING \<noteq> 0)"
  using assms by (auto simp: ssl_mode_word_def ssl_mode_defs split: if_splits)

lemma mode_word_logged:
  assumes "mode_logged (opt_ssl_mode opt)"
  shows "steps (\<lambda>o1. mode_logged (opt_ssl_mode o1)) (OPT_SSL_MODE OPT_FIRST_CALL w opt)"
  unfolding steps_def
proof (intro allI impI)
  fix o1 assume o1: "OPT_SSL_MODE OPT_FIRST_CALL w opt = Some (Opt_next o1)"
  let ?m = "opt_ssl_mode opt"
  obtain n where n: "ssl_mode_word w = Some n" and m: "opt_ssl_mode o1 = n OR ?m \<or> opt_ssl_mode o1 = ?m"
    using o1 first_call_flags(3) mode.mask [of Ssl_mask MASK_SSL_MODE OPT_FIRST_CALL opt]
    by (auto simp: OPT_SSL_MODE_def Let_def opt_i_or_def opt_i_def or.commute split: prod.splits option.splits if_splits)
  have "ssl_mode_ok (opt_ssl_mode o1)"
    using mode_word_ok [OF _ first_call_flags(3), of opt w] assms o1 by (simp add: mode_logged_def mode_given_def steps_def)
  moreover have "0 \<le> n OR ?m \<and> n OR ?m < 128"
    using OR_upper [of n 7 ?m] mode_word_bits [OF n] assms by (simp add: mode_logged_def)
  ultimately show "mode_logged (opt_ssl_mode o1)"
    using m assms mode_word_bits [OF n]
    by (auto simp: mode_logged_def mode_given_def bit.conj_disj_distrib2 or_eq_0_iff)
qed

lemma modifier_text_length: "length (modifier_text v) < 39"
  by (auto simp: modifier_text_def Let_def)

text \<open>
  C18. The arrays of 40 bytes that the listing of the options is built in: the states of a user name
  always fit, with the depth behind them. The modes of TLS that an accepted command line has made fit
  unless TLS is forced on one side, and the other side has SSL: then the array is overrun.
\<close>

theorem log_options_arrays:
  assumes "length b = 40" and "opt_events E OPT_FIRST_CALL evs options_zero = Some (Opt_next opt)"
  shows "(\<exists>b1 b2. LOG_OPTIONS_BUILD_USERNAME_MODIFIER v b = Some b1 \<and> add_domain_depth depth b1 = Some b2) \<and>
    (log_ssl_mode (opt_ssl_mode opt) b = None \<longleftrightarrow>
     opt_ssl_mode opt AND 0x3f \<in>
       {SSL_MODE_SSL_OUTGOING OR SSL_MODE_TLS_LISTEN OR SSL_MODE_TLS_LISTEN_FORCE,
        SSL_MODE_SSL_LISTEN OR SSL_MODE_TLS_OUTGOING OR SSL_MODE_TLS_OUTGOING_FORCE})"
proof -
  have "mode_logged SSL_MODE_EMPTY" by code_simp
  then have "mode_logged (opt_ssl_mode options_zero)" by (simp add: options_zero_def SSL_MODE_EMPTY_def)
  then have "steps (\<lambda>o1. mode_logged (opt_ssl_mode o1)) (opt_events E OPT_FIRST_CALL evs options_zero)"
    by (intro events_mode_inv mode_word_logged)
  then have l: "mode_logged (opt_ssl_mode opt)" using assms(2) by (simp add: steps_def)
  have "opt_ssl_mode opt \<in> set (map int [0..<128])"
    using l by (auto simp: mode_logged_def image_iff intro!: bexI [of _ "nat (opt_ssl_mode opt)"])
  then have m: "(40 \<le> length (mode_text (opt_ssl_mode opt))) = (opt_ssl_mode opt AND 0x3f \<in> {0x16, 0x29})"
    using mode_text_lengths l by (simp only: list_all_iff mode_logged_def)
  let ?t = "modifier_text v"
  let ?b1 = "?t @ NUL # drop (Suc (length ?t)) b"
  let ?d = "take (39 - length ?t - 1) (CHR '','' # dec_string depth) @ [NUL]"
  have b1: "LOG_OPTIONS_BUILD_USERNAME_MODIFIER v b = Some ?b1"
    using modifier_text_length [of v] assms(1) by (simp add: modifier_spec word_array_def)
  have "no_nul ?t" by (auto simp: modifier_text_def Let_def no_nul_def)
  then have c: "cstr ?b1 = ?t" by (rule cstr_prefix)
  have l1: "length ?b1 = 40" using modifier_text_length [of v] assms(1) by simp
  obtain b2 where b2: "buf_copy (length ?t) ?d ?b1 = Some b2" "length b2 = 40"
    using buf_copy_at [of "length ?t" ?d ?b1] l1 modifier_text_length [of v] by (auto simp del: append_assoc)
  have "\<exists>b3. add_domain_depth depth ?b1 = Some b3"
    using b2 by (auto simp: add_domain_depth_def c Let_def buf_put_def simp del: take_Suc_Cons)
  with b1 m assms(1) show ?thesis
    by (auto simp: log_ssl_mode_spec word_array_def ssl_mode_defs)
qed


theorem log_options_arrays_witness:
  "log_ssl_mode (SSL_MODE_SSL_LISTEN OR SSL_MODE_TLS_OUTGOING OR SSL_MODE_TLS_OUTGOING_FORCE) (replicate 40 NUL) = None"
proof -
  have e: "opt_events opt_demo_env OPT_FIRST_CALL [(TAG_SSL_MODE, Some ''ssl_listen,tls_outgoing_force'')] options_zero =
    Some (Opt_next (options_zero\<lparr>opt_ssl_mode := 0x29, opt_ssl_mask := MASK_SSL_MODE\<rparr>))"
    by code_simp
  show ?thesis
    using log_options_arrays [OF _ e, of "replicate 40 NUL"] by (simp add: ssl_mode_defs)
qed

end
