(* ===== verification/Start_Up.thy ===== *)
theory Start_Up
  imports Main_Loop Pipe Pid_File Ssl_Ctx Log_Options
begin

text \<open>
  \<open>main\<close> of \<^verbatim>\<open>perdition/perdition.c\<close> from its first line to the session with one client, the
  signal handlers and \<open>perdition_exit_cleanly\<close>. \<open>start_env\<close> holds the answers of the system and of the
  libraries, each of which is asked once; \<open>process\<close> the variables that are set on the way, with a
  list of what has been done. A step ends the process or hands on its variables. The process title
  and the lines of the log are left out; allocation succeeds.
\<close>

subsection \<open>The process\<close>

datatype log_target = Log_stdout | Log_stderr | Log_file string | Log_syslog "string option"

datatype handler = Reread_handler | Exit_cleanly | Handler_noop | Reaper | Ignore

datatype start_event =
    Logger_opened log_target | Options_logged "string list" | Keys_read | Detached bool
  | Pid_written "(pid_call \<times> answer) list" | Bound "string option list" | Ids_set | Accepted int | Unlinked "string option"

record process =
  proc_opt :: options
  proc_lib :: "dlib option \<times> dbserver_get option \<times> dbserver_get2 option"
  proc_handlers :: "(string \<times> handler) list"
  proc_fh :: "log_target option"
  proc_tag :: "token option"
  proc_pid_file :: bool
  proc_listen :: "int list"
  proc_io :: io
  proc_peer :: "(string \<times> string) option"
  proc_sock :: "(string \<times> string) option"
  proc_host :: string
  proc_trace :: "start_event list"

datatype start = Exited int "start_event list" | Running process

record 'q start_env =
  st_opts :: opt_env
  st_proto :: "'q proto_env"
  st_dlopen :: "string \<Rightarrow> dlib option"
  st_openlog :: "log_target \<Rightarrow> bool"
  st_reopen :: bool
  st_uname :: bool
  st_log :: log_env
  st_ctx :: ctx_env
  st_pid :: pid_env
  st_pid_answers :: "answer list"
  st_bindv :: "string option list \<Rightarrow> bool \<Rightarrow> bool \<Rightarrow> int list option"
  st_root :: bool
  st_setid :: "string option \<Rightarrow> string option \<Rightarrow> bool"
  st_accept :: "int list \<Rightarrow> int \<Rightarrow> bool \<Rightarrow> int"
  st_named :: "bool \<times> bool"
  st_peer :: "(string \<times> string) option"
  st_sock :: "(string \<times> string) option"
  st_rd :: "rd_event list"
  st_wr :: "nat option list"
  st_memory :: "nat \<Rightarrow> string"
  st_sockname :: "string option"
  st_idna :: "string \<Rightarrow> string option"
  st_tls :: "nat \<Rightarrow> ssl_peer"
  st_dial :: "nat \<Rightarrow> string option \<Rightarrow> string option \<Rightarrow> bool \<Rightarrow> bool \<Rightarrow> int \<times> rd_event list \<times> nat option list"
  st_rand :: int
  st_time :: int
  st_pipe :: pipe_lib
  st_calls :: "sel_call list"

fun then_start :: "start option \<Rightarrow> (process \<Rightarrow> start option) \<Rightarrow> start option" where
  "then_start (Some (Running p)) g = g p"
| "then_start r g = r"

fun run_steps :: "('q start_env \<Rightarrow> process \<Rightarrow> start option) list \<Rightarrow> 'q start_env \<Rightarrow> process \<Rightarrow> start option" where
  "run_steps [] E p = Some (Running p)"
| "run_steps (s # ss) E p = then_start (s E p) (run_steps ss E)"

definition did :: "start_event \<Rightarrow> process \<Rightarrow> process" where
  "did ev p = p\<lparr>proc_trace := proc_trace p @ [ev]\<rparr>"

text \<open>\<open>pid_file\<close> is not NULL in the process that has written the file.\<close>

definition perdition_exit_cleanly :: "int \<Rightarrow> process \<Rightarrow> start option" where
  "perdition_exit_cleanly i p =
     Some (Exited i (proc_trace p @ (if proc_pid_file p then [Unlinked (opt_pid_file (proc_opt p))] else [])))"

definition go_if :: "bool \<Rightarrow> process \<Rightarrow> start option" where
  "go_if ok p = (if ok then Some (Running p) else perdition_exit_cleanly (-1) p)"

subsection \<open>Options, logger and lookup library\<close>

definition start_process :: process where
  "start_process =
     \<lparr>proc_opt = options_zero, proc_lib = (None, None, None), proc_handlers = [], proc_fh = None, proc_tag = None,
      proc_pid_file = False, proc_listen = [], proc_io = io_create Io_type_none (-1) (-1) None [] [],
      proc_peer = None, proc_sock = None, proc_host = [], proc_trace = []\<rparr>"

definition step_options :: "string list \<Rightarrow> 'q start_env \<Rightarrow> process \<Rightarrow> start option" where
  "step_options argv E p =
     (case main_options (st_opts E) argv of
        Some (Opt_next opt) \<Rightarrow> Some (Running (p\<lparr>proc_opt := opt\<rparr>))
      | Some (Opt_exit n) \<Rightarrow> Some (Exited n (proc_trace p))
      | _ \<Rightarrow> None)"

text \<open>On failure the usage text is printed, which ends the process.\<close>

definition step_library :: "'q start_env \<Rightarrow> process \<Rightarrow> start option" where
  "step_library E p =
     (let opt = proc_opt p in
      case getserver_openlib (st_dlopen E) (opt_map_library opt) (opt_map_library_opt opt) of
        (rc, lib) \<Rightarrow> (if rc < 0 then Some (Exited (-1) (proc_trace p)) else Some (Running (p\<lparr>proc_lib := lib\<rparr>))))"

definition main_signals :: "(string \<times> handler) list" where
  "main_signals =
     [(''SIGHUP'', Reread_handler), (''SIGINT'', Exit_cleanly), (''SIGQUIT'', Exit_cleanly), (''SIGILL'', Exit_cleanly),
      (''SIGTRAP'', Exit_cleanly), (''SIGIOT'', Exit_cleanly), (''SIGBUS'', Exit_cleanly), (''SIGFPE'', Exit_cleanly),
      (''SIGUSR1'', Handler_noop), (''SIGSEGV'', Exit_cleanly), (''SIGUSR2'', Handler_noop), (''SIGPIPE'', Ignore),
      (''SIGALRM'', Exit_cleanly), (''SIGTERM'', Exit_cleanly), (''SIGCHLD'', Reaper), (''SIGURG'', Exit_cleanly),
      (''SIGXCPU'', Exit_cleanly), (''SIGXFSZ'', Exit_cleanly), (''SIGVTALRM'', Exit_cleanly), (''SIGPROF'', Exit_cleanly),
      (''SIGWINCH'', Exit_cleanly), (''SIGIO'', Exit_cleanly)]"

definition step_signals :: "'q start_env \<Rightarrow> process \<Rightarrow> start option" where
  "step_signals E p = Some (Running (p\<lparr>proc_handlers := main_signals\<rparr>))"

text \<open>The stream to log to, and the logger that replaces the first one.\<close>

definition log_stream :: "options \<Rightarrow> log_target option" where
  "log_stream opt =
     (case opt_log_facility opt of
        Some (c # _) \<Rightarrow> if c = CHR ''-'' then Some Log_stdout else if c = CHR ''+'' then Some Log_stderr else None
      | _ \<Rightarrow> None)"

definition logger_reopen :: "options \<Rightarrow> log_target option \<Rightarrow> log_target" where
  "logger_reopen opt fh =
     (case fh of
        Some t \<Rightarrow> t
      | None \<Rightarrow>
          (case opt_log_facility opt of
             Some (c # s) \<Rightarrow> if c = CHR ''/'' then Log_file (c # s) else Log_syslog (Some (c # s))
           | f \<Rightarrow> Log_syslog f))"

definition step_logger :: "'q start_env \<Rightarrow> process \<Rightarrow> start option" where
  "step_logger E p =
     (let opt = proc_opt p; fh = log_stream opt; t = logger_reopen opt fh in
      if st_openlog E t then Some (Running (did (Logger_opened t) (p\<lparr>proc_fh := fh\<rparr>))) else perdition_exit_cleanly (-1) p)"

definition step_uname :: "'q start_env \<Rightarrow> process \<Rightarrow> start option" where
  "step_uname E p = go_if (st_uname E) p"

subsection \<open>Protocol\<close>

text \<open>The protocol reads the options in force when it is used: it is looked up again after they change.\<close>

definition proc_protocol :: "'q start_env \<Rightarrow> process \<Rightarrow> 'q protocol_t option" where
  "proc_protocol E p = protocol_initialise (proc_opt p) (st_proto E) (opt_protocol (proc_opt p))"

definition step_protocol :: "'q start_env \<Rightarrow> process \<Rightarrow> start option" where
  "step_protocol E p =
     (case proc_protocol E p of
        None \<Rightarrow> perdition_exit_cleanly (-1) p
      | Some P \<Rightarrow>
          do { listen \<leftarrow> opt_listen_port (proc_opt p);
               outgoing \<leftarrow> opt_outgoing_port (proc_opt p);
               Some (Running (p\<lparr>proc_opt := (proc_opt p)\<lparr>opt_listen_port := Some (pr_port P listen),
                 opt_outgoing_port := Some (pr_port P outgoing)\<rparr>\<rparr>)) })"

definition step_tag :: "'q start_env \<Rightarrow> process \<Rightarrow> start option" where
  "step_tag E p =
     (let n = opt_protocol (proc_opt p) in
      Some (Running (p\<lparr>proc_tag := (if n = PROTOCOL_IMAP4 \<or> n = PROTOCOL_IMAP4S then Some imap4_tag_create else None)\<rparr>)))"

definition step_log_options :: "'q start_env \<Rightarrow> process \<Rightarrow> start option" where
  "step_log_options E p =
     (let opt = proc_opt p in
      if opt_quiet opt = 0 \<and> opt_inetd_mode opt = 0 \<and> opt_no_daemon opt = 0 \<and> proc_fh p = None \<or> opt_debug opt \<noteq> 0
      then do { (rc, lines) \<leftarrow> log_options (st_log E) opt;
                if rc \<noteq> 0 then perdition_exit_cleanly (-1) p else Some (Running (did (Options_logged lines) p)) }
      else Some (Running p))"

definition step_ssl :: "'q start_env \<Rightarrow> process \<Rightarrow> start option" where
  "step_ssl E p =
     (case proc_protocol E p of
        None \<Rightarrow> None
      | Some P \<Rightarrow>
          let opt = (proc_opt p)\<lparr>opt_ssl_mode := pr_encryption P (opt_ssl_mode (proc_opt p))\<rparr>; p1 = p\<lparr>proc_opt := opt\<rparr> in
          if opt_ssl_mode opt AND SSL_LISTEN_MASK = 0 then Some (Running p1)
          else case perdition_ssl_ctx (st_ctx E) opt (opt_ssl_ca_file opt) (opt_ssl_ca_path opt) (opt_ssl_cert_file opt)
                      (opt_ssl_key_file opt) (opt_ssl_ca_chain_file opt) (opt_ssl_dh_params_file opt)
                      (opt_ssl_listen_ciphers opt) PERDITION_SSL_SERVER of
                 None \<Rightarrow> perdition_exit_cleanly (-1) p1
               | Some cx \<Rightarrow> Some (Running (did Keys_read p1)))"

subsection \<open>Daemon, pid file, sockets and identity\<close>

definition step_detach :: "'q start_env \<Rightarrow> process \<Rightarrow> start option" where
  "step_detach E p =
     (let opt = proc_opt p in
      if opt_inetd_mode opt \<noteq> 0 \<or> opt_no_daemon opt \<noteq> 0 \<or> proc_fh p \<noteq> None
      then Some (Running (did (Detached False) p)) else go_if (st_reopen E) (did (Detached True) p))"

definition step_pid_file :: "'q start_env \<Rightarrow> process \<Rightarrow> start option" where
  "step_pid_file E p =
     (let opt = proc_opt p in
      case opt_pid_file opt of
        Some (c # f) \<Rightarrow>
          if opt_inetd_mode opt \<noteq> 0 then Some (Running p)
          else do { user \<leftarrow> opt_username opt;
                    grp \<leftarrow> opt_group opt;
                    (ok, _, calls) \<leftarrow> write_pid_file (st_pid E) (c # f) user grp (st_pid_answers E, []);
                    if ok then Some (Running ((did (Pid_written calls) p)\<lparr>proc_pid_file := True\<rparr>))
                    else perdition_exit_cleanly 1 p }
      | _ \<Rightarrow> Some (Running p))"

text \<open>The addresses to listen at: pairs of host and port, ended by NULL.\<close>

definition bind_vector :: "options \<Rightarrow> string option list" where
  "bind_vector opt =
     (case opt_bind_address opt of
        None \<Rightarrow> [Some ''0.0.0.0'', opt_listen_port opt]
      | Some us \<Rightarrow> concat (map (\<lambda>u. [usp_server u, if usp_port u = None then opt_listen_port opt else usp_port u]) us)) @ [None]"

definition step_bind :: "'q start_env \<Rightarrow> process \<Rightarrow> start option" where
  "step_bind E p =
     (let opt = proc_opt p; v = bind_vector opt in
      if opt_inetd_mode opt \<noteq> 0 then Some (Running p)
      else case st_bindv E v (opt_no_lookup opt \<noteq> 0) (opt_tcp_keepalive opt \<noteq> 0) of
             None \<Rightarrow> perdition_exit_cleanly (-1) p
           | Some g \<Rightarrow> Some (Running ((did (Bound v) p)\<lparr>proc_listen := g\<rparr>)))"

definition step_identity :: "'q start_env \<Rightarrow> process \<Rightarrow> start option" where
  "step_identity E p =
     (let opt = proc_opt p in
      if opt_authenticate_in opt \<noteq> 0 then Some (Running p)
      else if \<not> st_root E then Some (Running p)
      else if st_setid E (opt_username opt) (opt_group opt) then Some (Running (did Ids_set p))
      else perdition_exit_cleanly (-1) p)"

subsection \<open>The connection\<close>

text \<open>
  \<open>st_named\<close> says whether the two ends of an inherited connection have addresses. Behind \<open>accept\<close>, the
  process is a child, which does not own the pid file.
\<close>

definition client_io :: "'q start_env \<Rightarrow> int \<Rightarrow> int \<Rightarrow> options \<Rightarrow> io" where
  "client_io E rfd wfd opt =
     io_set_timeout (io_create_fd rfd wfd (Some PERDITION_LOG_STR_CLIENT) (st_rd E) (st_wr E)) (opt_authenticate_timeout opt)"

definition step_accept :: "'q start_env \<Rightarrow> process \<Rightarrow> start option" where
  "step_accept E p =
     (let opt = proc_opt p in
      if opt_inetd_mode opt \<noteq> 0
      then Some (Running ((did (Accepted 0) p)\<lparr>proc_io := client_io E 0 1 opt\<rparr>))
      else let s = st_accept E (proc_listen p) (opt_connection_limit opt) (opt_tcp_keepalive opt \<noteq> 0) in
           if s < 0 then perdition_exit_cleanly (-1) p
           else Some (Running ((did (Accepted s) p)\<lparr>proc_pid_file := False, proc_io := client_io E s s opt\<rparr>)))"

text \<open>A handler is replaced where it stands.\<close>

definition set_handler :: "string \<Rightarrow> handler \<Rightarrow> (string \<times> handler) list \<Rightarrow> (string \<times> handler) list" where
  "set_handler s h hs = map (\<lambda>(t, k). (t, if t = s then h else k)) hs"

definition step_sigpipe :: "'q start_env \<Rightarrow> process \<Rightarrow> start option" where
  "step_sigpipe E p = Some (Running (p\<lparr>proc_handlers := set_handler ''SIGPIPE'' Exit_cleanly (proc_handlers p)\<rparr>))"

definition NI_MAXHOST :: nat where "NI_MAXHOST = 1025"
definition NI_MAXSERV :: nat where "NI_MAXSERV = 32"

fun buf_strcats :: "string \<Rightarrow> string list \<Rightarrow> string option" where
  "buf_strcats b [] = Some b"
| "buf_strcats b (s # ss) = do { b1 \<leftarrow> buf_strcat b s; buf_strcats b1 ss }"

definition from_to_host :: "string \<Rightarrow> (string \<times> string) option \<Rightarrow> (string \<times> string) option \<Rightarrow> string option" where
  "from_to_host mem peer sock =
     do { b \<leftarrow> buf_put 0 NUL mem;
          case (peer, sock) of
            (Some (fh, fs), Some (th, ts)) \<Rightarrow> buf_strcats b ['' '', fh, '':'', fs, ''->'', th, '':'', ts]
          | _ \<Rightarrow> Some b }"

definition step_names :: "'q start_env \<Rightarrow> process \<Rightarrow> start option" where
  "step_names E p =
     (let inetd = (opt_inetd_mode (proc_opt p) \<noteq> 0);
          peer = (\<not> inetd \<or> fst (st_named E)); sock = (\<not> inetd \<or> snd (st_named E)) in
      if peer \<and> st_peer E = None \<or> sock \<and> st_sock E = None then perdition_exit_cleanly (-1) p
      else let from_name = (if peer then st_peer E else None); to_name = (if sock then st_sock E else None) in
           do { b \<leftarrow> from_to_host (st_memory E ((NI_MAXHOST + NI_MAXSERV) * 2 + 2)) from_name to_name;
                Some (Running (p\<lparr>proc_peer := from_name, proc_sock := to_name, proc_host := cstr b\<rparr>)) })"

subsection \<open>From the command line to the end of the session\<close>

definition main_steps :: "string list \<Rightarrow> ('q start_env \<Rightarrow> process \<Rightarrow> start option) list" where
  "main_steps argv =
     [step_options argv, step_library, step_signals, step_logger, step_uname, step_protocol, step_tag, step_log_options,
      step_ssl, step_detach, step_pid_file, step_bind, step_identity, step_accept, step_sigpipe, step_names]"

definition main_start :: "'q start_env \<Rightarrow> string list \<Rightarrow> start option" where
  "main_start E argv = run_steps (main_steps argv) E start_process"

text \<open>What the session is given by the start.\<close>

definition session_of :: "'q start_env \<Rightarrow> process \<Rightarrow> 'q protocol_t \<Rightarrow> 'q env" where
  "session_of E p P =
     (let (fh, fs) = (case proc_peer p of None \<Rightarrow> ([], []) | Some a \<Rightarrow> a);
          (th, ts) = (case proc_sock p of None \<Rightarrow> ([], []) | Some a \<Rightarrow> a) in
      \<lparr>e_opt = proc_opt p, e_proto = P,
       e_key = \<lparr>k_user = [], k_from = fh, k_to = th, k_from_port = fs, k_to_port = ts\<rparr>,
       e_sock = (if proc_sock p = None then None else Some (st_sockname E)),
       e_get = fst (snd (proc_lib p)), e_get2 = snd (snd (proc_lib p)), e_idna = st_idna E,
       e_setid = (\<not> st_root E \<or> st_setid E (opt_username (proc_opt p)) (opt_group (proc_opt p))),
       e_peer = st_tls E, e_dial = st_dial E\<rparr>)"

definition main_world :: "process \<Rightarrow> world" where
  "main_world p =
     \<lparr>tbuf = [], toff = 0, tbytes = 0,
      ios = (\<lambda>j. case j of EU \<Rightarrow> proc_io p | RS \<Rightarrow> io_create Io_type_none (-1) (-1) None [] [])\<rparr>"

text \<open>The exit status, what has been done, and the lines of the log behind the login.\<close>

definition perdition_main :: "'q start_env \<Rightarrow> string list \<Rightarrow> (int \<times> start_event list \<times> string list) option" where
  "perdition_main E argv =
     do { r \<leftarrow> main_start E argv;
          case r of
            Exited n tr \<Rightarrow> Some (n, tr, [])
          | Running p \<Rightarrow>
              do { P \<leftarrow> proc_protocol E p;
                   (n, logged, w) \<leftarrow> main_run (st_pipe E) (session_of E p P) (st_time E) (proc_host p) (st_calls E) (proc_tag p)
                     (st_rand E) (main_world p);
                   e \<leftarrow> perdition_exit_cleanly n p;
                   case e of Exited m tr \<Rightarrow> Some (m, tr, logged) | Running _ \<Rightarrow> None } }"

subsection \<open>Signals\<close>

text \<open>\<open>ok\<close>: the logger opens again; \<open>dlopen\<close>: the lookup libraries as they are now.\<close>

definition perdition_reread_handler :: "bool \<Rightarrow> (string \<Rightarrow> dlib option) \<Rightarrow> process \<Rightarrow> start option" where
  "perdition_reread_handler ok dlopen p =
     (if \<not> ok then perdition_exit_cleanly (-1) p
      else case opt_map_library (proc_opt p) of
             None \<Rightarrow> Some (Running p)
           | Some lib \<Rightarrow>
               (case getserver_openlib dlopen (Some lib) (opt_map_library_opt (proc_opt p)) of
                  (rc, l) \<Rightarrow> if rc < 0 then perdition_exit_cleanly (-1) p else Some (Running (p\<lparr>proc_lib := l\<rparr>))))"

definition deliver :: "string \<Rightarrow> int \<Rightarrow> bool \<Rightarrow> (string \<Rightarrow> dlib option) \<Rightarrow> process \<Rightarrow> start option" where
  "deliver s n ok dlopen p =
     (case map_of (proc_handlers p) s of
        Some Exit_cleanly \<Rightarrow> perdition_exit_cleanly n p
      | Some Reread_handler \<Rightarrow> perdition_reread_handler ok dlopen p
      | _ \<Rightarrow> Some (Running p))"

subsection \<open>The order of the start\<close>

text \<open>Which step does it; removing the pid file is the last thing.\<close>

fun start_rank :: "start_event \<Rightarrow> nat" where
  "start_rank (Logger_opened t) = 3"
| "start_rank (Options_logged ls) = 7"
| "start_rank Keys_read = 8"
| "start_rank (Detached d) = 9"
| "start_rank (Pid_written cs) = 10"
| "start_rank (Bound v) = 11"
| "start_rank Ids_set = 12"
| "start_rank (Accepted s) = 13"
| "start_rank (Unlinked f) = 99"

definition ordered :: "start_event list \<Rightarrow> bool" where
  "ordered tr \<longleftrightarrow> sorted_wrt (<) (map start_rank tr)"

definition pid_owner :: "start_event list \<Rightarrow> bool" where
  "pid_owner tr \<longleftrightarrow> (\<exists>cs. Pid_written cs \<in> set tr) \<and> (\<forall>s. Accepted s \<notin> set tr)"

definition protocols :: "int set" where
  "protocols = {PROTOCOL_POP3, PROTOCOL_POP3S, PROTOCOL_IMAP4, PROTOCOL_IMAP4S, PROTOCOL_MANAGESIEVE}"

lemma protocol_initialise_None: "protocol_initialise opt e n = None \<longleftrightarrow> n \<notin> protocols"
  by (simp add: protocol_initialise_def protocols_def)

definition start_inv :: "'q start_env \<Rightarrow> nat \<Rightarrow> process \<Rightarrow> bool" where
  "start_inv E n p \<longleftrightarrow> ordered (proc_trace p) \<and> (\<forall>ev \<in> set (proc_trace p). start_rank ev < n) \<and>
     (proc_pid_file p \<longleftrightarrow> pid_owner (proc_trace p)) \<and>
     (opt_inetd_mode (proc_opt p) \<noteq> 0 \<longrightarrow> \<not> proc_pid_file p) \<and>
     (13 < n \<longrightarrow> (\<exists>tr s. proc_trace p = tr @ [Accepted s])) \<and>
     (5 < n \<longrightarrow> opt_protocol (proc_opt p) \<in> protocols) \<and>
     (12 < n \<and> st_root E \<and> opt_authenticate_in (proc_opt p) = 0 \<longrightarrow> Ids_set \<in> set (proc_trace p))"

definition start_end :: "start_event list \<Rightarrow> bool" where
  "start_end tr \<longleftrightarrow> ordered tr \<and> ((\<exists>f. Unlinked f \<in> set tr) \<longleftrightarrow> pid_owner tr)"

fun start_good :: "'q start_env \<Rightarrow> nat \<Rightarrow> start \<Rightarrow> bool" where
  "start_good E n (Exited i tr) = start_end tr"
| "start_good E n (Running p) = start_inv E n p"

lemma ordered_snoc: "ordered tr \<Longrightarrow> \<forall>ev' \<in> set tr. start_rank ev' < start_rank ev \<Longrightarrow> ordered (tr @ [ev])"
  by (simp add: ordered_def sorted_wrt_append)

lemma exit_good:
  assumes "start_inv E n p" and "n \<le> 99" shows "pred_option (start_good E m) (perdition_exit_cleanly i p)"
proof -
  have o: "ordered (proc_trace p)" and r: "\<forall>ev \<in> set (proc_trace p). start_rank ev < n"
    and own: "proc_pid_file p \<longleftrightarrow> pid_owner (proc_trace p)"
    using assms(1) by (simp_all add: start_inv_def)
  have no: "Unlinked f \<notin> set (proc_trace p)" for f using r assms(2) by force
  have "ordered (proc_trace p @ [Unlinked f])" for f using o r assms(2) by (fastforce intro!: ordered_snoc)
  moreover have "pid_owner (proc_trace p @ [Unlinked f]) = pid_owner (proc_trace p)" for f by (simp add: pid_owner_def)
  ultimately show ?thesis using o no own by (simp add: perdition_exit_cleanly_def start_end_def)
qed

lemma inv_Suc: "start_inv E n p \<Longrightarrow> n \<noteq> 12 \<Longrightarrow> n \<noteq> 13 \<Longrightarrow> n \<noteq> 5 \<Longrightarrow> start_inv E (Suc n) p"
  by (auto simp: start_inv_def less_Suc_eq)

lemma inv_did:
  assumes "start_inv E n p" and "start_rank ev = n" and "n < 12" and "n \<noteq> 10" and "n \<noteq> 5"
  shows "start_inv E (Suc n) (did ev p)"
proof -
  have "pid_owner (proc_trace p @ [ev]) = pid_owner (proc_trace p)"
    using assms(2-4) by (cases ev) (auto simp: pid_owner_def)
  then show ?thesis using assms by (auto simp: start_inv_def did_def less_Suc_eq intro!: ordered_snoc)
qed

text \<open>What does not touch the trace and the identity keeps the invariant.\<close>

lemma inv_update [simp]:
  "start_inv E n (p\<lparr>proc_lib := l\<rparr>) = start_inv E n p" "start_inv E n (p\<lparr>proc_handlers := hs\<rparr>) = start_inv E n p"
  "start_inv E n (p\<lparr>proc_fh := t\<rparr>) = start_inv E n p" "start_inv E n (p\<lparr>proc_tag := g\<rparr>) = start_inv E n p"
  "start_inv E n (p\<lparr>proc_listen := ls\<rparr>) = start_inv E n p" "start_inv E n (p\<lparr>proc_io := i\<rparr>) = start_inv E n p"
  "start_inv E n (p\<lparr>proc_peer := a, proc_sock := b, proc_host := h\<rparr>) = start_inv E n p"
  "start_inv E n (p\<lparr>proc_opt := (proc_opt p)\<lparr>opt_listen_port := x, opt_outgoing_port := y\<rparr>\<rparr>) = start_inv E n p"
  "start_inv E n (p\<lparr>proc_opt := (proc_opt p)\<lparr>opt_ssl_mode := k\<rparr>\<rparr>) = start_inv E n p"
  by (auto simp: start_inv_def)

lemma exit_gone: "start_inv E n p \<Longrightarrow> \<not> proc_pid_file p \<Longrightarrow> n \<le> 99 \<Longrightarrow> start_good E m (Exited i (proc_trace p))"
  by (force simp: start_inv_def start_end_def)

lemma step_good:
  "start_inv E 0 start_process"
  "proc_trace p = [] \<Longrightarrow> start_inv E 0 p \<Longrightarrow> pred_option (start_good E 1) (step_options argv E p)"
  "start_inv E 2 p \<Longrightarrow> pred_option (start_good E 3) (step_signals E p)"
  "start_inv E 3 p \<Longrightarrow> pred_option (start_good E 4) (step_logger E p)"
  "start_inv E 4 p \<Longrightarrow> pred_option (start_good E 5) (step_uname E p)"
  "start_inv E 5 p \<Longrightarrow> pred_option (start_good E 6) (step_protocol E p)"
  "start_inv E 6 p \<Longrightarrow> pred_option (start_good E 7) (step_tag E p)"
  "start_inv E 7 p \<Longrightarrow> pred_option (start_good E 8) (step_log_options E p)"
  "start_inv E 8 p \<Longrightarrow> pred_option (start_good E 9) (step_ssl E p)"
  "start_inv E 9 p \<Longrightarrow> pred_option (start_good E 10) (step_detach E p)"
  "start_inv E 11 p \<Longrightarrow> pred_option (start_good E 12) (step_bind E p)"
  "start_inv E 14 p \<Longrightarrow> pred_option (start_good E 15) (step_sigpipe E p)"
  "start_inv E 15 p \<Longrightarrow> pred_option (start_good E 16) (step_names E p)"
proof -
  show "start_inv E 0 start_process" by (simp add: start_inv_def start_process_def ordered_def pid_owner_def)
  show "pred_option (start_good E 1) (step_options argv E p)" if "proc_trace p = []" "start_inv E 0 p"
    using that by (auto simp: step_options_def start_inv_def start_end_def ordered_def pid_owner_def split: option.splits opt_step.splits)
  show "start_inv E 2 p \<Longrightarrow> pred_option (start_good E 3) (step_signals E p)"
    using inv_Suc [of E 2] by (simp add: step_signals_def)
  show "start_inv E 3 p \<Longrightarrow> pred_option (start_good E 4) (step_logger E p)"
    using inv_did [of E 3 "p\<lparr>proc_fh := log_stream (proc_opt p)\<rparr>"] exit_good [of E 3]
    by (auto simp: step_logger_def Let_def)
  show "start_inv E 4 p \<Longrightarrow> pred_option (start_good E 5) (step_uname E p)"
    using inv_Suc [of E 4] exit_good [of E 4] by (auto simp: step_uname_def go_if_def)
  show "pred_option (start_good E 6) (step_protocol E p)" if i: "start_inv E 5 p"
  proof (cases "opt_protocol (proc_opt p) \<in> protocols")
    case True
    then have "start_inv E 6 p" using i by (auto simp: start_inv_def)
    then show ?thesis using exit_good [OF i]
      by (auto simp: step_protocol_def split: option.splits Option.bind_splits)
  next
    case False
    then have "proc_protocol E p = None" by (simp only: proc_protocol_def protocol_initialise_None) blast
    then show ?thesis using exit_good [OF i] by (simp add: step_protocol_def)
  qed
  show "start_inv E 6 p \<Longrightarrow> pred_option (start_good E 7) (step_tag E p)"
    using inv_Suc [of E 6] by (simp add: step_tag_def Let_def)
  show "start_inv E 7 p \<Longrightarrow> pred_option (start_good E 8) (step_log_options E p)"
    using inv_Suc [of E 7] inv_did [of E 7] exit_good [of E 7] by (auto simp: step_log_options_def Let_def split: Option.bind_splits)
  show "start_inv E 8 p \<Longrightarrow> pred_option (start_good E 9) (step_ssl E p)"
    using inv_Suc [of E 8] inv_did [of E 8] exit_good [of E 8] by (auto simp: step_ssl_def Let_def split: option.splits)
  show "start_inv E 9 p \<Longrightarrow> pred_option (start_good E 10) (step_detach E p)"
    using inv_did [of E 9] exit_good [of E 10 "did (Detached True) p" 10 "-1"] by (auto simp: step_detach_def Let_def go_if_def)
  show "start_inv E 11 p \<Longrightarrow> pred_option (start_good E 12) (step_bind E p)"
    using inv_Suc [of E 11] inv_did [of E 11] exit_good [of E 11] by (auto simp: step_bind_def Let_def split: option.splits)
  show "start_inv E 14 p \<Longrightarrow> pred_option (start_good E 15) (step_sigpipe E p)"
    using inv_Suc [of E 14] by (simp add: step_sigpipe_def)
  show "start_inv E 15 p \<Longrightarrow> pred_option (start_good E 16) (step_names E p)"
    using inv_Suc [of E 15] exit_good [of E 15] by (auto simp: step_names_def Let_def split: Option.bind_splits)
qed

lemma step_library_good: "start_inv E 1 p \<Longrightarrow> pred_option (start_good E 2) (step_library E p)"
proof -
  assume i: "start_inv E 1 p"
  then have "\<not> proc_pid_file p" by (force simp: start_inv_def pid_owner_def)
  then show ?thesis using inv_Suc [OF i] exit_gone [OF i] by (auto simp: step_library_def Let_def numeral_2_eq_2 split: prod.split)
qed

lemma step_pid_file_good: "start_inv E 10 p \<Longrightarrow> pred_option (start_good E 11) (step_pid_file E p)"
proof -
  assume i: "start_inv E 10 p"
  have "start_inv E 11 ((did (Pid_written cs) p)\<lparr>proc_pid_file := True\<rparr>)" if "opt_inetd_mode (proc_opt p) = 0" for cs
    using i that by (force simp: start_inv_def did_def pid_owner_def intro!: ordered_snoc)
  then show ?thesis using inv_Suc [OF i] exit_good [OF i]
    by (auto simp: step_pid_file_def Let_def split: option.split list.split Option.bind_splits)
qed

lemma step_identity_good: "start_inv E 12 p \<Longrightarrow> pred_option (start_good E 13) (step_identity E p)"
proof -
  assume i: "start_inv E 12 p"
  have "start_inv E 13 (did Ids_set p)"
    using i by (force simp: start_inv_def did_def pid_owner_def intro!: ordered_snoc)
  moreover have "start_inv E 13 p" if "opt_authenticate_in (proc_opt p) \<noteq> 0 \<or> \<not> st_root E"
    using i that by (auto simp: start_inv_def)
  ultimately show ?thesis using exit_good [OF i] by (auto simp: step_identity_def Let_def)
qed

lemma step_accept_good: "start_inv E 13 p \<Longrightarrow> pred_option (start_good E 14) (step_accept E p)"
proof -
  assume i: "start_inv E 13 p"
  have a: "start_inv E 14 ((did (Accepted s) p)\<lparr>proc_pid_file := False, proc_io := x\<rparr>)" for s x
    using i by (force simp: start_inv_def did_def pid_owner_def intro!: ordered_snoc)
  have "start_inv E 14 (did (Accepted s) p)" if "opt_inetd_mode (proc_opt p) \<noteq> 0" for s
    using i that by (force simp: start_inv_def did_def pid_owner_def intro!: ordered_snoc)
  then show ?thesis using a exit_good [OF i] by (auto simp: step_accept_def Let_def)
qed

lemmas steps_good = step_good step_library_good step_pid_file_good step_identity_good step_accept_good

text \<open>Every step of a list takes the invariant to the one for the next step.\<close>

fun all_good :: "'q start_env \<Rightarrow> nat \<Rightarrow> ('q start_env \<Rightarrow> process \<Rightarrow> start option) list \<Rightarrow> bool" where
  "all_good E n [] = True"
| "all_good E n (s # ss) \<longleftrightarrow>
     (\<forall>p. start_inv E n p \<longrightarrow> pred_option (start_good E (n + 1)) (s E p)) \<and> all_good E (n + 1) ss"

lemma then_start_good:
  assumes "pred_option (start_good E n) r" and "\<And>p. start_inv E n p \<Longrightarrow> pred_option (start_good E m) (g p)"
  shows "pred_option (start_good E m) (then_start r g)"
  using assms by (cases "(r, g)" rule: then_start.cases) auto

lemma run_steps_good:
  "all_good E n ss \<Longrightarrow> start_inv E n p \<Longrightarrow> pred_option (start_good E (n + length ss)) (run_steps ss E p)"
proof (induction ss arbitrary: n p)
  case (Cons s ss)
  then have "pred_option (start_good E (n + 1)) (s E p)" by simp
  then show ?case
    using then_start_good [of E "n + 1" "s E p" "n + length (s # ss)" "run_steps ss E"] Cons.IH [of "n + 1"] Cons.prems(1) by simp
qed simp

lemma main_start_good: "pred_option (start_good E 16) (main_start E argv)"
proof -
  have "all_good E 1 (tl (main_steps argv))" by (simp add: main_steps_def steps_good del: One_nat_def)
  moreover have l: "1 + length (tl (main_steps argv)) = 16" by (simp add: main_steps_def)
  ultimately have r: "pred_option (start_good E 16) (run_steps (tl (main_steps argv)) E p)" if "start_inv E 1 p" for p
    using run_steps_good [of E 1 "tl (main_steps argv)" p, unfolded l] that by blast
  have "proc_trace start_process = []" by (simp add: start_process_def)
  moreover have "main_start E argv = then_start (step_options argv E start_process) (run_steps (tl (main_steps argv)) E)"
    by (simp add: main_start_def main_steps_def)
  ultimately show ?thesis
    by (simp only:) (rule then_start_good [OF steps_good(2) [OF _ steps_good(1)]], assumption, erule r)
qed

text \<open>
  C20. The start of the program, whatever the answers of the system: things are done in one order, so
  that the TLS keys are read, the pid file is written and the sockets are bound before the identity is
  changed; started as root without local authentication, the identity has been changed before a
  connection is accepted. A process that ends removes the pid file if and only if it is the one that
  has written it, and the process of a session does not own it.
\<close>

theorem main_start_safe:
  assumes "main_start E argv = Some r"
  shows "case r of
      Exited i tr \<Rightarrow> ordered tr \<and> ((\<exists>f. Unlinked f \<in> set tr) \<longleftrightarrow> pid_owner tr)
    | Running p \<Rightarrow> \<exists>tr s. proc_trace p = tr @ [Accepted s] \<and> ordered (proc_trace p) \<and> \<not> proc_pid_file p \<and>
        (st_root E \<and> opt_authenticate_in (proc_opt p) = 0 \<longrightarrow> Ids_set \<in> set tr)"
proof (cases r)
  case (Exited i tr)
  then show ?thesis using main_start_good [of E argv] assms by (simp add: start_end_def)
next
  case (Running p)
  then have i: "start_inv E 16 p" using main_start_good [of E argv] assms by simp
  then obtain tr s where t: "proc_trace p = tr @ [Accepted s]" by (auto simp: start_inv_def)
  then have "\<not> proc_pid_file p" "st_root E \<and> opt_authenticate_in (proc_opt p) = 0 \<longrightarrow> Ids_set \<in> set tr"
    using i by (auto simp: start_inv_def pid_owner_def)
  with i t Running show ?thesis by (auto simp: start_inv_def)
qed

subsection \<open>The addresses of the connection\<close>

lemma buf_strcats_spec:
  assumes "no_nul s" and "\<forall>t \<in> set ts. no_nul t" and "ts \<noteq> []"
  shows "buf_strcats (s @ NUL # z) ts =
    (if length (concat ts) \<le> length z then Some (s @ concat ts @ NUL # drop (length (concat ts)) z) else None)"
  using assms
proof (induction ts arbitrary: s z)
  case (Cons t ts)
  show ?case
  proof (cases "length t \<le> length z")
    case True
    then have "buf_strcats (s @ NUL # z) (t # ts) = buf_strcats ((s @ t) @ NUL # drop (length t) z) ts"
      using Cons.prems by (simp add: buf_strcat_spec)
    moreover have "no_nul (s @ t)" using Cons.prems by simp
    ultimately show ?thesis using Cons.IH [of "s @ t" "drop (length t) z"] Cons.prems True
      by (cases "ts = []") (auto simp: add.commute)
  next
    case False
    then show ?thesis using Cons.prems by (simp add: buf_strcat_spec)
  qed
qed simp

text \<open>
  The addresses of both ends of a connection fit the array that the code reserves for them, as long
  as the names and services are those of \<open>getnameinfo\<close>, shorter than \<open>NI_MAXHOST\<close> and \<open>NI_MAXSERV\<close>;
  with names of full length, an array with a byte less would be overrun.
\<close>

lemma from_to_host_fits:
  assumes "\<forall>n \<in> {fh, fs, th, ts}. no_nul n"
    and "length fh < NI_MAXHOST \<and> length th < NI_MAXHOST" and "length fs < NI_MAXSERV \<and> length ts < NI_MAXSERV"
    and "length mem = (NI_MAXHOST + NI_MAXSERV) * 2 + 2"
  shows "map_option cstr (from_to_host mem (Some (fh, fs)) (Some (th, ts))) =
      Some ('' '' @ fh @ '':'' @ fs @ ''->'' @ th @ '':'' @ ts) \<and>
    (length fh + length th = 2 * (NI_MAXHOST - 1) \<and> length fs + length ts = 2 * (NI_MAXSERV - 1) \<longrightarrow>
      from_to_host (tl mem) (Some (fh, fs)) (Some (th, ts)) = None)"
proof -
  let ?ts = "['' '', fh, '':'', fs, ''->'', th, '':'', ts]"
  have n: "\<forall>t \<in> set ?ts. no_nul t" using assms(1) by (simp add: no_nul_def)
  have b: "from_to_host m (Some (fh, fs)) (Some (th, ts)) =
      (if length (concat ?ts) \<le> length (tl m) then Some (concat ?ts @ NUL # drop (length (concat ?ts)) (tl m)) else None)"
    if "m \<noteq> []" for m
    using buf_strcats_spec [of "[]" ?ts "tl m"] n buf_head [of m] that by (simp add: from_to_host_def del: buf_strcats.simps)
  have c: "no_nul (concat ?ts)" using n by simp
  have m: "mem \<noteq> []" "tl mem \<noteq> []" using assms(4) by (auto simp: NI_MAXHOST_def NI_MAXSERV_def dest: arg_cong [of _ _ length])
  have "from_to_host mem (Some (fh, fs)) (Some (th, ts)) = Some (concat ?ts @ NUL # drop (length (concat ?ts)) (tl mem))"
    using b [OF m(1)] assms(2-4) by (simp add: NI_MAXHOST_def NI_MAXSERV_def)
  then have "map_option cstr (from_to_host mem (Some (fh, fs)) (Some (th, ts))) = Some (concat ?ts)"
    by (simp only: option.map cstr_prefix [OF c])
  moreover have "from_to_host (tl mem) (Some (fh, fs)) (Some (th, ts)) = None"
    if "length fh + length th = 2 * (NI_MAXHOST - 1) \<and> length fs + length ts = 2 * (NI_MAXSERV - 1)"
    using b [OF m(2)] that assms(4) by (simp add: NI_MAXHOST_def NI_MAXSERV_def)
  ultimately show ?thesis by simp
qed

text \<open>What is handed to the session keeps the contract of the protocols, which the properties of the login loop rest on.\<close>

lemma main_start_session:
  assumes "main_start E argv = Some (Running p)"
  obtains P where "proc_protocol E p = Some P" "session_env (session_of E p P)"
proof -
  have "opt_protocol (proc_opt p) \<in> protocols" using main_start_good [of E argv] assms by (simp add: start_inv_def)
  then obtain P where P: "proc_protocol E p = Some P"
    by (cases "proc_protocol E p") (auto simp: proc_protocol_def protocol_initialise_None)
  then have "session_env (session_of E p P)"
    using protocol_initialise_contract [of "proc_opt p" "st_proto E"]
    by (simp add: session_env_def session_of_def proc_protocol_def split: prod.split)
  with P show ?thesis by (rule that)
qed

text \<open>
  Unless something ends the process before, the modes of TLS that do not fit their array make the start
  write behind it.
\<close>

lemma start_overrun:
  assumes "log_ssl_mode (opt_ssl_mode (proc_opt p)) (lo_memory (st_log E) 40) = None"
    and "log_options_non_ssl_str (st_log E) (proc_opt p) \<noteq> Some None"
    and "opt_quiet (proc_opt p) = 0" "opt_inetd_mode (proc_opt p) = 0" "opt_no_daemon (proc_opt p) = 0" "proc_fh p = None"
  shows "step_log_options E p = None"
proof -
  have "log_options_str (st_log E) (proc_opt p) = None"
    using assms(1,2) by (auto simp: log_options_str_def log_options_ssl_str_def split: Option.bind_splits option.splits)
  then show ?thesis using assms(3-6) by (simp add: step_log_options_def log_options_def Let_def)
qed

text \<open>SIGHUP without a lookup library leaves everything as it is; SIGTERM ends the process with its number.\<close>

lemma deliver_examples:
  assumes "proc_handlers p = main_signals"
  shows "opt_map_library (proc_opt p) = None \<Longrightarrow> deliver ''SIGHUP'' 1 True dlopen p = Some (Running p)"
    and "deliver ''SIGTERM'' 15 ok dlopen p = perdition_exit_cleanly 15 p"
    and "deliver ''SIGPIPE'' 13 ok dlopen p = Some (Running p)"
    and "step_sigpipe E p = Some (Running p') \<Longrightarrow> deliver ''SIGPIPE'' 13 ok dlopen p' = perdition_exit_cleanly 13 p'"
  using assms by (auto simp: deliver_def main_signals_def perdition_reread_handler_def step_sigpipe_def set_handler_def)

subsection \<open>An example\<close>

text \<open>A POP3 daemon with an old pid file, whose call of \<open>accept\<close> fails.\<close>

definition demo_start :: "(int \<times> string option) list \<Rightarrow> token list start_env" where
  "demo_start evs =
     \<lparr>st_opts = opt_demo_env\<lparr>oe_popt := \<lambda>_ _. (evs, -1, [])\<rparr>, st_proto = demo_pe, st_dlopen = \<lambda>_. None,
      st_openlog = \<lambda>_. True, st_reopen = True, st_uname = True,
      st_log = \<lparr>lo_display = \<lambda>_. Some [], lo_package = ''perdition'', lo_version = ''2.2'', lo_nodename = ''mail'',
        lo_memory = \<lambda>n. replicate n CHR ''x''\<rparr>,
      st_ctx = demo_ctx_env, st_pid = demo_pid_env, st_pid_answers = demo_script,
      st_bindv = \<lambda>_ _ _. Some [3], st_root = True, st_setid = \<lambda>_ _. True, st_accept = \<lambda>_ _ _. 5,
      st_named = (True, True), st_peer = Some (''192.0.2.7'', ''4242''), st_sock = Some (''192.0.2.1'', ''110''),
      st_rd = [Rd_data (''USER bob'' @ CRLF @ ''PASS x'' @ CRLF)], st_wr = [], st_memory = \<lambda>n. replicate n CHR ''x'',
      st_sockname = None, st_idna = Some, st_tls = \<lambda>_. demo_peer,
      st_dial = \<lambda>_ _ _ _ _. (7, map Rd_data [''+OK hi'' @ CRLF, ''+OK'' @ CRLF, ''+OK'' @ CRLF], []),
      st_rand = 0, st_time = 0, st_pipe = relay_lib, st_calls = []\<rparr>"

definition demo_daemon :: "token list start_env" where
  "demo_daemon = (demo_start [(ord_of CHR ''M'', Some []), (ord_of CHR ''P'', Some ''POP3''), (ord_of CHR ''g'', Some ''99''),
     (ord_of CHR ''q'', None)])\<lparr>st_accept := \<lambda>_ _ _. -1\<rparr>"

definition demo_pid_calls :: "(pid_call \<times> answer) list" where
  "demo_pid_calls =
     (let f = ''/var/run/perdition/perdition.pid'' in
      [(Stat_dir ''/run'', Is_dir True), (Open_new f, Err EEXIST), (Open_old f, Done), (Read_pid, Err EINTR),
       (Read_pid, Data ''123''), (Close, Done), (Kill 123, Err ESRCH), (Unlink f, Done), (Open_new f, Done),
       (Setgid 99, Done), (Chown f 65534 99, Done), (Chmod f, Done), (Write ''42'', Written 2), (Close, Done)])"

fun exit_of :: "start \<Rightarrow> (int \<times> start_event list) option" where
  "exit_of (Exited i tr) = Some (i, tr)"
| "exit_of (Running p) = None"

lemma demo_daemon_exit:
  "Option.bind (main_start demo_daemon [''perdition'']) exit_of = Some (-1,
     [Logger_opened (Log_syslog (Some ''mail'')), Detached True, Pid_written demo_pid_calls,
      Bound [Some ''0.0.0.0'', Some ''pop3'', None], Ids_set, Unlinked (Some ''/var/run/perdition/perdition.pid'')])"
  by code_simp

lemma demo_daemon_run:
  "main_start demo_daemon [''perdition''] = Some (Exited (-1)
     [Logger_opened (Log_syslog (Some ''mail'')), Detached True, Pid_written demo_pid_calls,
      Bound [Some ''0.0.0.0'', Some ''pop3'', None], Ids_set, Unlinked (Some ''/var/run/perdition/perdition.pid'')])"
  using demo_daemon_exit by (auto simp: bind_eq_Some_conv elim!: exit_of.elims)

theorem main_start_safe_witness:
  "\<exists>tr. main_start demo_daemon [''perdition''] = Some (Exited (-1) tr) \<and> Ids_set \<in> set tr \<and> ordered tr \<and> pid_owner tr"
  using main_start_safe [OF demo_daemon_run] demo_daemon_run by auto

lemma from_to_host_example:
  "map_option cstr (from_to_host (replicate 2116 CHR ''x'') (Some (''192.0.2.7'', ''4242'')) (Some (''192.0.2.1'', ''110''))) =
     Some '' 192.0.2.7:4242->192.0.2.1:110''"
  using from_to_host_fits [of "''192.0.2.7''" "''4242''" "''192.0.2.1''" "''110''" "replicate 2116 CHR ''x''"]
  by (simp add: NI_MAXHOST_def NI_MAXSERV_def no_nul_def)

end
