(* ===== verification/Map_File.thy ===== *)
theory Map_File
  imports Getserver Buffer Cmd_Write
begin

text \<open>
  The lookup libraries for files of gdbm, Berkeley DB and cdb and for NIS
  (\<^verbatim>\<open>perdition/db/gdbm\<close>, \<^verbatim>\<open>bdb\<close>, \<^verbatim>\<open>cdb\<close>, \<^verbatim>\<open>nis\<close>), and the programs that make such files from lines of
  text and print them (\<^verbatim>\<open>makegdbm/makegdbm.c\<close>, \<^verbatim>\<open>makebdb/makebdb.c\<close> and their \<^verbatim>\<open>options.c\<close>). The data base
  libraries are parameters: \<open>map_ops\<close> is one that inserts and never replaces.
\<close>

subsection \<open>Lookups\<close>

record 'd map_ops =
  mp_new :: 'd
  mp_store :: "string \<Rightarrow> string \<Rightarrow> 'd \<Rightarrow> int \<times> 'd"
  mp_fetch :: "string \<Rightarrow> 'd \<Rightarrow> string option"
  mp_keys :: "'d \<Rightarrow> string list"

definition PERDITIONDB_GDBM_DEFAULT_MAPNAME :: "string \<Rightarrow> string" where
  "PERDITIONDB_GDBM_DEFAULT_MAPNAME sysconfdir = sysconfdir @ ''/popmap.gdbm.db''"
definition PERDITIONDB_BDB_DEFAULT_MAPNAME :: "string \<Rightarrow> string" where
  "PERDITIONDB_BDB_DEFAULT_MAPNAME sysconfdir = sysconfdir @ ''/popmap.bdb.db''"

definition map_name :: "string \<Rightarrow> string option \<Rightarrow> string" where
  "map_name dflt options_str = (case options_str of None \<Rightarrow> dflt | Some n \<Rightarrow> n)"

text \<open>The length that is handed back is the one before if nothing is found; the caller sets it to 0.\<close>

definition gdbm_dbserver_get :: "'d map_ops \<Rightarrow> string \<Rightarrow> (string \<Rightarrow> 'd option) \<Rightarrow> dbserver_get" where
  "gdbm_dbserver_get M dflt gdbm_open key_str options_str =
     (case gdbm_open (map_name dflt options_str) of
        None \<Rightarrow> (-1, None, 0)
      | Some dbf \<Rightarrow>
          (case mp_fetch M key_str dbf of
             None \<Rightarrow> (-2, None, 0)
           | Some content \<Rightarrow> (0, Some content, length content)))"

text \<open>\<open>created\<close>: \<open>db_create\<close> succeeds.\<close>

definition bdb_dbserver_get :: "'d map_ops \<Rightarrow> bool \<Rightarrow> string \<Rightarrow> (string \<Rightarrow> 'd option) \<Rightarrow> dbserver_get" where
  "bdb_dbserver_get M created dflt db_open key_str options_str =
     (if \<not> created then (-3, None, 0)
      else case db_open (map_name dflt options_str) of
             None \<Rightarrow> (-1, None, 0)
           | Some dbp \<Rightarrow>
               (case mp_fetch M key_str dbp of
                  None \<Rightarrow> (-2, None, 0)
                | Some v \<Rightarrow> (0, Some v, length v)))"

text \<open>The results of \<open>yp_get_default_domain\<close> and of \<open>yp_match\<close>: 0 or an error code, and the value.\<close>

definition PERDITIONDB_NIS_DEFAULT_MAPNAME :: string where
  "PERDITIONDB_NIS_DEFAULT_MAPNAME = ''user_mail_server''"

definition YPERR_KEY :: int where "YPERR_KEY = 5"

definition nis_dbserver_get ::
    "int \<times> string \<Rightarrow> (string \<Rightarrow> string \<Rightarrow> string \<Rightarrow> int \<times> string) \<Rightarrow> dbserver_get" where
  "nis_dbserver_get yp_domain yp_match key_str options_str =
     (case yp_domain of
        (res, domain) \<Rightarrow>
          if res \<noteq> 0 then (-1, None, 0)
          else case yp_match domain (map_name PERDITIONDB_NIS_DEFAULT_MAPNAME options_str) key_str of
                 (res, v) \<Rightarrow>
                   if res = YPERR_KEY then (-2, None, 0)
                   else if res \<noteq> 0 then (-2, None, 0)
                   else (0, Some v, length v))"

text \<open>
  The length of a cdb value is taken from where the length is to be put, before it is put there.
  \<open>cdb_open\<close> gives the records of a file, or nothing if it cannot be opened.
\<close>

definition cdb_dbserver_get :: "nat \<Rightarrow> string \<Rightarrow> (string \<Rightarrow> (string \<Rightarrow> string option) option) \<Rightarrow> dbserver_get" where
  "cdb_dbserver_get len_return dflt cdb_open key_str options_str =
     (case cdb_open (map_name dflt options_str) of
        None \<Rightarrow> (-1, None, len_return)
      | Some seek \<Rightarrow>
          (case seek key_str of
             None \<Rightarrow> (-2, None, len_return)
           | Some v \<Rightarrow> (0, Some (cstr (take len_return v)), length v)))"

subsection \<open>Lines of a file\<close>

definition MAP_LINE_LENGTH :: nat where "MAP_LINE_LENGTH = 4096"
definition FIELD_DELIMITER :: char where "FIELD_DELIMITER = CHR '':''"
definition TAB :: char where "TAB = CHR 0x09"

text \<open>\<open>fgets\<close>: the bytes up to and with the end of the line, at most \<open>n\<close>, and a terminating byte.\<close>

fun fgets_chunk :: "nat \<Rightarrow> string \<Rightarrow> string \<times> string" where
  "fgets_chunk 0 s = ([], s)"
| "fgets_chunk (Suc n) [] = ([], [])"
| "fgets_chunk (Suc n) (c # s) =
     (if c = LF then ([c], s) else case fgets_chunk n s of (a, r) \<Rightarrow> (c # a, r))"

definition fgets :: "string \<Rightarrow> string \<Rightarrow> (string \<times> string) option" where
  "fgets line stdin =
     (if stdin = [] then None
      else case fgets_chunk (MAP_LINE_LENGTH - 1) stdin of
             (a, rest) \<Rightarrow> Some (a @ NUL # drop (Suc (length a)) line, rest))"

lemma fgets_chunk_rest: "fgets_chunk n s = (a, r) \<Longrightarrow> s = a @ r \<and> (0 < n \<longrightarrow> s \<noteq> [] \<longrightarrow> a \<noteq> [])"
  by (induction n s arbitrary: a r rule: fgets_chunk.induct) (auto split: if_splits prod.splits)

definition blank_char :: "char \<Rightarrow> bool" where
  "blank_char c \<longleftrightarrow> c = CHR '' '' \<or> c = TAB \<or> c = LF"

text \<open>
  The inner loop of \<^verbatim>\<open>makegdbm\<close>: whether the line is blank, the lengths of key and content (-1 for unset),
  and the index at which the loop has ended, \<open>MAP_LINE_LENGTH\<close> if there is no end of line in the array.
\<close>

fun gdbm_scan :: "string \<Rightarrow> nat \<Rightarrow> bool \<Rightarrow> int \<Rightarrow> int \<Rightarrow> bool \<times> int \<times> int \<times> nat" where
  "gdbm_scan [] i blank k c = (blank, k, c, i)"
| "gdbm_scan (x # xs) i blank k c =
     (let blank' = (blank \<and> blank_char x) in
      if k = -1 \<and> x = FIELD_DELIMITER then gdbm_scan xs (Suc i) blank' (int i) c
      else if c = -1 \<and> x = LF then (blank', k, int i - k - 1, i)
      else gdbm_scan xs (Suc i) blank' k c)"

text \<open>The one of \<^verbatim>\<open>makebdb\<close> has unsigned lengths, for which \<open>MAP_LINE_LENGTH\<close> means unset.\<close>

definition BDB_UNSET :: "32 word" where "BDB_UNSET = 4096"

fun bdb_scan :: "string \<Rightarrow> nat \<Rightarrow> bool \<Rightarrow> 32 word \<Rightarrow> 32 word \<Rightarrow> bool \<times> 32 word \<times> 32 word \<times> nat" where
  "bdb_scan [] i blank k c = (blank, k, c, i)"
| "bdb_scan (x # xs) i blank k c =
     (let blank' = (blank \<and> blank_char x) in
      if k = BDB_UNSET \<and> x = FIELD_DELIMITER then bdb_scan xs (Suc i) blank' (of_nat i) c
      else if c = BDB_UNSET \<and> x = LF then (blank', k, of_nat i - k - 1, i)
      else bdb_scan xs (Suc i) blank' k c)"

subsection \<open>Making a file\<close>

text \<open>The variables of the outer loop, with the data base and the messages.\<close>

record 'd make_state =
  mk_line :: string
  mk_status :: bool
  mk_lineno :: nat
  mk_db :: 'd
  mk_errors :: "string list"

text \<open>
  What follows the inner loop, the same in both programs: \<open>bad\<close> is the test of the lengths, \<open>k\<close> and \<open>c\<close>
  are the lengths, \<open>i\<close> the index, and \<open>message\<close> what is reported for a result of the insertion, if anything.
  A byte behind the array has no defined value.
\<close>

definition make_entry ::
    "'d map_ops \<Rightarrow> string \<Rightarrow> (int \<Rightarrow> string \<Rightarrow> string option) \<Rightarrow> bool \<Rightarrow> bool \<Rightarrow> nat \<Rightarrow> nat \<Rightarrow> nat
      \<Rightarrow> 'd make_state \<Rightarrow> 'd make_state option" where
  "make_entry M name message blank bad k c i s =
     (let line = mk_line s;
          s1 = (if i < MAP_LINE_LENGTH then s\<lparr>mk_lineno := mk_lineno s + 1\<rparr> else s);
          status = (mk_status s \<or> \<not> blank \<and> bad) in
      if status
      then if i \<ge> length line then None
           else if line ! i = LF
           then Some (s1\<lparr>mk_status := False,
                  mk_errors := mk_errors s @ [name @ '': invalid input on line: '' @ dec_string (mk_lineno s1) @ '' '']\<rparr>)
           else Some (s1\<lparr>mk_status := True\<rparr>)
      else if blank then Some s1
      else case mp_store M (take k line) (take c (drop (Suc k) line)) (mk_db s) of
             (rc, db) \<Rightarrow>
               Some (case message rc (cstr (take k line)) of
                       Some m \<Rightarrow> s1\<lparr>mk_db := db, mk_line := line[k := NUL], mk_errors := mk_errors s @ [m]\<rparr>
                     | None \<Rightarrow> s1\<lparr>mk_db := db\<rparr>))"

definition gdbm_message :: "int \<Rightarrow> string \<Rightarrow> string option" where
  "gdbm_message rc key = (if rc > 0 then Some (''makegdbm: dupicate key: '' @ key) else None)"

definition bdb_message :: "(int \<Rightarrow> string) \<Rightarrow> int \<Rightarrow> string \<Rightarrow> string option" where
  "bdb_message db_strerror rc key =
     (if rc \<noteq> 0 then Some (''makebdb: '' @ db_strerror rc @ '' (key: '' @ key @ '')'') else None)"

definition makegdbm_line :: "'d map_ops \<Rightarrow> 'd make_state \<Rightarrow> 'd make_state option" where
  "makegdbm_line M s =
     (case gdbm_scan (mk_line s) 0 True (-1) (-1) of
        (blank, k, c, i) \<Rightarrow>
          make_entry M ''makegdbm'' gdbm_message blank (k < 1 \<or> c < 1) (nat k) (nat c) i s)"

definition makebdb_line :: "'d map_ops \<Rightarrow> (int \<Rightarrow> string) \<Rightarrow> 'd make_state \<Rightarrow> 'd make_state option" where
  "makebdb_line M db_strerror s =
     (case bdb_scan (mk_line s) 0 True BDB_UNSET BDB_UNSET of
        (blank, k, c, i) \<Rightarrow>
          make_entry M ''makebdb'' (bdb_message db_strerror) blank (k = BDB_UNSET \<or> c = BDB_UNSET) (unat k) (unat c) i s)"

text \<open>The outer loop, for the step of either program.\<close>

function make_lines :: "('d make_state \<Rightarrow> 'd make_state option) \<Rightarrow> string \<Rightarrow> 'd make_state \<Rightarrow> 'd make_state option" where
  "make_lines step stdin s =
     (case fgets (mk_line s) stdin of
        None \<Rightarrow> Some s
      | Some (line, rest) \<Rightarrow>
          (case step (s\<lparr>mk_line := line\<rparr>) of None \<Rightarrow> None | Some s1 \<Rightarrow> make_lines step rest s1))"
  by pat_completeness auto
termination
proof (relation "measure (\<lambda>(step, stdin, s). length stdin)", simp)
  fix step :: "'d make_state \<Rightarrow> 'd make_state option" and stdin s x line rest s1
  assume x: "fgets (mk_line s) stdin = Some x" "(line, rest) = x"
  then obtain a where "fgets_chunk (MAP_LINE_LENGTH - 1) stdin = (a, rest)" "stdin \<noteq> []"
    by (auto simp: fgets_def split: if_splits prod.splits)
  with fgets_chunk_rest [OF this(1)] have "stdin = a @ rest" "a \<noteq> []" by (auto simp: MAP_LINE_LENGTH_def)
  then show "((step, rest, s1), step, stdin, s) \<in> measure (\<lambda>(step, stdin, s). length stdin)" by simp
qed

declare make_lines.simps [simp del]

text \<open>\<open>mem\<close> is what the array holds at first; the result is the data base and the messages.\<close>

definition make_map :: "('d make_state \<Rightarrow> 'd make_state option) \<Rightarrow> 'd map_ops \<Rightarrow> string \<Rightarrow> string \<Rightarrow> ('d \<times> string list) option" where
  "make_map step M mem stdin =
     map_option (\<lambda>s. (mk_db s, mk_errors s))
       (make_lines step stdin \<lparr>mk_line = mem, mk_status = False, mk_lineno = 0, mk_db = mp_new M, mk_errors = []\<rparr>)"

definition makegdbm_new :: "'d map_ops \<Rightarrow> string \<Rightarrow> string \<Rightarrow> ('d \<times> string list) option" where
  "makegdbm_new M = make_map (makegdbm_line M) M"

definition makebdb_new :: "'d map_ops \<Rightarrow> (int \<Rightarrow> string) \<Rightarrow> string \<Rightarrow> string \<Rightarrow> ('d \<times> string list) option" where
  "makebdb_new M db_strerror = make_map (makebdb_line M db_strerror) M"

subsection \<open>Printing a file\<close>

text \<open>\<^verbatim>\<open>makegdbm\<close> writes two bytes of each one-byte string: the terminating byte as well.\<close>

definition makegdbm_undo :: "'d map_ops \<Rightarrow> 'd \<Rightarrow> string" where
  "makegdbm_undo M d =
     concat (map (\<lambda>k. k @ [FIELD_DELIMITER, NUL] @ (case mp_fetch M k d of None \<Rightarrow> [] | Some v \<Rightarrow> v) @ [LF, NUL]) (mp_keys M d))"

definition makebdb_undo :: "'d map_ops \<Rightarrow> 'd \<Rightarrow> string" where
  "makebdb_undo M d =
     concat (map (\<lambda>k. k @ [FIELD_DELIMITER] @ (case mp_fetch M k d of None \<Rightarrow> [] | Some v \<Rightarrow> v) @ [LF]) (mp_keys M d))"

subsection \<open>The command line\<close>

text \<open>
  The options that \<open>popt\<close> finds, its last result and the arguments that are left. A bad option is only
  reported. The result is the exit status of the usage text, or whether to print, and the name.
\<close>

fun makemap_options :: "char list \<Rightarrow> bool \<Rightarrow> string list \<Rightarrow> int + bool \<times> string" where
  "makemap_options [] undo args = (case args of [m] \<Rightarrow> Inr (undo, m) | _ \<Rightarrow> Inl (-1))"
| "makemap_options (c # cs) undo args =
     (if c = CHR ''h'' then Inl 0 else makemap_options cs (undo \<or> c = CHR ''u'') args)"

subsection \<open>The contract of a data base\<close>

text \<open>Insertion without replacement, as documented for \<open>GDBM_INSERT\<close> and \<open>DB_NOOVERWRITE\<close>.\<close>

locale insert_map =
  fixes M :: "'d map_ops"
  assumes fetch_new: "mp_fetch M k (mp_new M) = None"
    and fetch_store: "mp_fetch M k (snd (mp_store M k' v d)) =
      (if k = k' \<and> mp_fetch M k d = None then Some v else mp_fetch M k d)"
    and keys: "set (mp_keys M d) = {k. mp_fetch M k d \<noteq> None}"
    and keys_distinct: "distinct (mp_keys M d)"

text \<open>A file of entries: a key without colon, and a value, neither of them empty.\<close>

definition map_entry :: "string \<times> string \<Rightarrow> bool" where
  "map_entry e \<longleftrightarrow> fst e \<noteq> [] \<and> snd e \<noteq> [] \<and> FIELD_DELIMITER \<notin> set (fst e) \<and> LF \<notin> set (fst e @ snd e) \<and>
     length (fst e) + length (snd e) < MAP_LINE_LENGTH - 2"

definition entry_line :: "string \<times> string \<Rightarrow> string" where
  "entry_line e = fst e @ FIELD_DELIMITER # snd e @ [LF]"

lemma fgets_chunk_line: "LF \<notin> set a \<Longrightarrow> length a < n \<Longrightarrow> fgets_chunk n (a @ LF # r) = (a @ [LF], r)"
proof (induction a arbitrary: n)
  case Nil
  then show ?case by (cases n) auto
next
  case (Cons c a)
  then show ?case by (cases n) auto
qed

lemma fgets_entry:
  assumes "map_entry e"
  obtains z where "fgets mem (entry_line e @ rest) = Some (entry_line e @ z, rest)"
proof -
  have "fgets_chunk (MAP_LINE_LENGTH - 1) ((fst e @ FIELD_DELIMITER # snd e) @ LF # rest) = ((fst e @ FIELD_DELIMITER # snd e) @ [LF], rest)"
    using assms by (intro fgets_chunk_line) (auto simp: map_entry_def FIELD_DELIMITER_def)
  then show thesis using that by (simp add: fgets_def entry_line_def)
qed

text \<open>What a step does with the line of an entry.\<close>

definition takes_entries :: "'d map_ops \<Rightarrow> ('d make_state \<Rightarrow> 'd make_state option) \<Rightarrow> bool" where
  "takes_entries M step \<longleftrightarrow>
     (\<forall>e z s. map_entry e \<longrightarrow> \<not> mk_status s \<longrightarrow> mk_line s = entry_line e @ z \<longrightarrow>
        (\<exists>s1. step s = Some s1 \<and> \<not> mk_status s1 \<and> mk_db s1 = snd (mp_store M (fst e) (snd e) (mk_db s))))"

lemma make_entry_stores:
  assumes "map_entry e" and "\<not> mk_status s" and "mk_line s = entry_line e @ z"
  shows "\<exists>s1. make_entry M name message False False (length (fst e)) (length (snd e)) i s = Some s1 \<and> \<not> mk_status s1 \<and>
     mk_db s1 = snd (mp_store M (fst e) (snd e) (mk_db s))"
  using assms by (auto simp: make_entry_def Let_def entry_line_def split: prod.split option.split)

lemma gdbm_scan_key:
  "FIELD_DELIMITER \<notin> set u \<Longrightarrow> LF \<notin> set u \<Longrightarrow>
     gdbm_scan (u @ FIELD_DELIMITER # xs) i b (-1) (-1) = gdbm_scan xs (Suc (i + length u)) False (int (i + length u)) (-1)"
  by (induction u arbitrary: i b) (auto simp: Let_def FIELD_DELIMITER_def blank_char_def TAB_def add.assoc)

lemma gdbm_scan_value:
  "LF \<notin> set v \<Longrightarrow> 0 \<le> k \<Longrightarrow>
     gdbm_scan (v @ LF # xs) i False k (-1) = (False, k, int (i + length v) - k - 1, i + length v)"
  by (induction v arbitrary: i) (auto simp: Let_def)

lemma makegdbm_takes: "takes_entries M (makegdbm_line M)"
  unfolding takes_entries_def
proof (intro allI impI)
  fix e z and s :: "'a make_state"
  assume e: "map_entry e" and s: "\<not> mk_status s" "mk_line s = entry_line e @ z"
  have "gdbm_scan (mk_line s) 0 True (-1) (-1) =
      (False, int (length (fst e)), int (length (snd e)), Suc (length (fst e) + length (snd e)))"
    using e s(2) by (simp add: entry_line_def gdbm_scan_key gdbm_scan_value map_entry_def)
  then have "makegdbm_line M s =
      make_entry M ''makegdbm'' gdbm_message False False (length (fst e)) (length (snd e)) (Suc (length (fst e) + length (snd e))) s"
    using e by (simp add: makegdbm_line_def map_entry_def not_less Suc_leI)
  then show "\<exists>s1. makegdbm_line M s = Some s1 \<and> \<not> mk_status s1 \<and> mk_db s1 = snd (mp_store M (fst e) (snd e) (mk_db s))"
    using make_entry_stores [OF e s] by simp
qed

lemma bdb_scan_key:
  "FIELD_DELIMITER \<notin> set u \<Longrightarrow> LF \<notin> set u \<Longrightarrow>
     bdb_scan (u @ FIELD_DELIMITER # xs) i b BDB_UNSET BDB_UNSET =
     bdb_scan xs (Suc (i + length u)) False (of_nat (i + length u)) BDB_UNSET"
  by (induction u arbitrary: i b) (auto simp: Let_def FIELD_DELIMITER_def blank_char_def TAB_def add.assoc)

lemma bdb_scan_value:
  "LF \<notin> set v \<Longrightarrow> k \<noteq> BDB_UNSET \<Longrightarrow>
     bdb_scan (v @ LF # xs) i False k BDB_UNSET = (False, k, of_nat (i + length v) - k - 1, i + length v)"
  by (induction v arbitrary: i) (auto simp: Let_def)

lemma bdb_set: "n < 4096 \<Longrightarrow> (of_nat n :: 32 word) \<noteq> BDB_UNSET" "n < 4096 \<Longrightarrow> unat (of_nat n :: 32 word) = n"
proof -
  assume n: "n < 4096"
  show u: "unat (of_nat n :: 32 word) = n" using n by (simp add: unat_of_nat take_bit_nat_eq_self)
  have "unat BDB_UNSET = 4096" by (simp add: BDB_UNSET_def)
  then show "(of_nat n :: 32 word) \<noteq> BDB_UNSET" using u n by auto
qed

lemma makebdb_takes: "takes_entries M (makebdb_line M db_strerror)"
  unfolding takes_entries_def
proof (intro allI impI)
  fix e z and s :: "'a make_state"
  assume e: "map_entry e" and s: "\<not> mk_status s" "mk_line s = entry_line e @ z"
  have len: "length (fst e) < 4096" "length (snd e) < 4096" using e by (auto simp: map_entry_def MAP_LINE_LENGTH_def)
  have "bdb_scan (mk_line s) 0 True BDB_UNSET BDB_UNSET =
      (False, of_nat (length (fst e)), of_nat (length (snd e)), Suc (length (fst e) + length (snd e)))"
    using e s(2) bdb_set(1) [OF len(1)] by (simp add: entry_line_def bdb_scan_key bdb_scan_value map_entry_def)
  then have "makebdb_line M db_strerror s =
      make_entry M ''makebdb'' (bdb_message db_strerror) False False (length (fst e)) (length (snd e)) (Suc (length (fst e) + length (snd e))) s"
    using bdb_set [OF len(1)] bdb_set [OF len(2)] by (simp add: makebdb_line_def)
  then show "\<exists>s1. makebdb_line M db_strerror s = Some s1 \<and> \<not> mk_status s1 \<and> mk_db s1 = snd (mp_store M (fst e) (snd e) (mk_db s))"
    using make_entry_stores [OF e s] by simp
qed

context insert_map
begin

text \<open>The first entry for a key counts.\<close>

lemma make_lines_entries:
  assumes "takes_entries M step" and "\<forall>e \<in> set es. map_entry e" and "\<not> mk_status s"
  shows "\<exists>s'. make_lines step (concat (map entry_line es)) s = Some s' \<and>
     (\<forall>k. mp_fetch M k (mk_db s') = (case mp_fetch M k (mk_db s) of Some v \<Rightarrow> Some v | None \<Rightarrow> map_of es k))"
  using assms(2,3)
proof (induction es arbitrary: s)
  case Nil
  then show ?case by (subst make_lines.simps) (simp add: fgets_def option.case_eq_if)
next
  case (Cons e es)
  have e: "map_entry e" using Cons.prems(1) by simp
  obtain z where f: "fgets (mk_line s) (entry_line e @ concat (map entry_line es)) = Some (entry_line e @ z, concat (map entry_line es))"
    by (rule fgets_entry [OF e])
  obtain s1 where s1: "step (s\<lparr>mk_line := entry_line e @ z\<rparr>) = Some s1" "\<not> mk_status s1"
    "mk_db s1 = snd (mp_store M (fst e) (snd e) (mk_db s))"
    using assms(1) [unfolded takes_entries_def, rule_format, OF e, of "s\<lparr>mk_line := entry_line e @ z\<rparr>" z] Cons.prems(2) by auto
  obtain s' where s': "make_lines step (concat (map entry_line es)) s1 = Some s'"
    "\<And>k. mp_fetch M k (mk_db s') = (case mp_fetch M k (mk_db s1) of Some v \<Rightarrow> Some v | None \<Rightarrow> map_of es k)"
    using Cons.IH [OF _ s1(2)] Cons.prems(1) by auto
  have "make_lines step (concat (map entry_line (e # es))) s = Some s'"
    using f s1(1) s'(1) by (subst make_lines.simps) simp
  moreover have "mp_fetch M k (mk_db s') = (case mp_fetch M k (mk_db s) of Some v \<Rightarrow> Some v | None \<Rightarrow> map_of (e # es) k)" for k
    unfolding s'(2) s1(3) fetch_store by (auto split: option.split)
  ultimately show ?case by blast
qed

lemma make_map_lookup:
  assumes "takes_entries M step" and "\<forall>e \<in> set es. map_entry e"
  shows "\<exists>d errs. make_map step M mem (concat (map entry_line es)) = Some (d, errs) \<and> (\<forall>k. mp_fetch M k d = map_of es k)"
  using make_lines_entries [OF assms, of "\<lparr>mk_line = mem, mk_status = False, mk_lineno = 0, mk_db = mp_new M, mk_errors = []\<rparr>"]
  by (auto simp: make_map_def fetch_new)

lemma keys_map_of: "map_of (map (\<lambda>k. (k, the (mp_fetch M k d))) (mp_keys M d)) k = mp_fetch M k d"
proof -
  have "map_of (map (\<lambda>k. (k, the (mp_fetch M k d))) ks) k = (if k \<in> set ks then Some (the (mp_fetch M k d)) else None)" for ks
    by (induction ks) auto
  then show ?thesis by (auto simp: keys)
qed

end

text \<open>
  A file made by \<open>makegdbm\<close> answers a lookup with the first entry of the key in the text, and so does one made by
  \<open>makebdb\<close>; keys that are not in the text are not found.
\<close>

theorem makegdbm_lookup:
  assumes "insert_map M" and "\<forall>e \<in> set es. map_entry e"
  shows "\<exists>d errs. makegdbm_new M mem (concat (map entry_line es)) = Some (d, errs) \<and>
    (\<forall>key opts. gdbm_dbserver_get M dflt (\<lambda>_. Some d) key opts =
       (case map_of es key of None \<Rightarrow> (-2, None, 0) | Some v \<Rightarrow> (0, Some v, length v)))"
  using insert_map.make_map_lookup [OF assms(1) makegdbm_takes assms(2), of mem]
  by (auto simp: makegdbm_new_def gdbm_dbserver_get_def)

theorem makebdb_lookup:
  assumes "insert_map M" and "\<forall>e \<in> set es. map_entry e"
  shows "\<exists>d errs. makebdb_new M db_strerror mem (concat (map entry_line es)) = Some (d, errs) \<and>
    (\<forall>key opts. bdb_dbserver_get M True dflt (\<lambda>_. Some d) key opts =
       (case map_of es key of None \<Rightarrow> (-2, None, 0) | Some v \<Rightarrow> (0, Some v, length v)))"
  using insert_map.make_map_lookup [OF assms(1) makebdb_takes assms(2), of db_strerror mem]
  by (auto simp: makebdb_new_def bdb_dbserver_get_def)

text \<open>Printing a Berkeley DB file and reading the text again gives the same entries.\<close>

theorem makebdb_undo_new:
  assumes "insert_map M" and "\<forall>k v. mp_fetch M k d = Some v \<longrightarrow> map_entry (k, v)"
  shows "\<exists>d' errs. makebdb_new M db_strerror mem (makebdb_undo M d) = Some (d', errs) \<and> mp_fetch M k d' = mp_fetch M k d"
proof -
  let ?es = "map (\<lambda>k. (k, the (mp_fetch M k d))) (mp_keys M d)"
  have es: "\<forall>e \<in> set ?es. map_entry e" using assms(2) insert_map.keys [OF assms(1), of d] by auto
  have "concat (map (\<lambda>k. k @ [FIELD_DELIMITER] @ (case mp_fetch M k d of None \<Rightarrow> [] | Some v \<Rightarrow> v) @ [LF]) ks) =
      concat (map entry_line (map (\<lambda>k. (k, the (mp_fetch M k d))) ks))" if "set ks \<subseteq> set (mp_keys M d)" for ks
    using that insert_map.keys [OF assms(1), of d] by (induction ks) (auto simp: entry_line_def)
  then have "makebdb_undo M d = concat (map entry_line ?es)" by (simp add: makebdb_undo_def)
  then show ?thesis
    using insert_map.make_map_lookup [OF assms(1) makebdb_takes es, of db_strerror mem] insert_map.keys_map_of [OF assms(1)]
    by (auto simp: makebdb_new_def)
qed

subsection \<open>Behaviour at the edges\<close>

text \<open>The caller's length is 0: whatever the entry of a cdb file is, the lookup succeeds with an empty string, so that no server is found.\<close>

lemma cdb_never_finds:
  assumes "cdb_open (map_name dflt options_str) = Some seek" and "seek key = Some v"
  shows "cdb_dbserver_get 0 dflt cdb_open key options_str = (0, Some [], length v)"
    and "opt_map_library_opt opt = options_str \<Longrightarrow>
      do_getserver opt key (Some (cdb_dbserver_get 0 dflt cdb_open)) get2 = Some (0, None)"
  using assms by (simp_all add: cdb_dbserver_get_def do_getserver_def)

text \<open>NIS: every error but that of the domain is reported as a missing key.\<close>

lemma nis_errors:
  assumes "yp_domain = (0, domain)" and "fst (yp_match domain (map_name PERDITIONDB_NIS_DEFAULT_MAPNAME options_str) key) \<noteq> 0"
  shows "nis_dbserver_get yp_domain yp_match key options_str = (-2, None, 0)"
  using assms by (auto simp: nis_dbserver_get_def split: prod.split)

text \<open>Association lists as a data base.\<close>

definition alist_map :: "(string \<times> string) list map_ops" where
  "alist_map = \<lparr>mp_new = [], mp_store = (\<lambda>k v d. if map_of d k = None then (0, (k, v) # d) else (1, d)),
     mp_fetch = (\<lambda>k d. map_of d k), mp_keys = (\<lambda>d. remdups (map fst d))\<rparr>"

interpretation alist_map: insert_map alist_map
  by unfold_locales (auto simp: alist_map_def map_of_eq_None_iff)

text \<open>What \<open>makegdbm\<close> prints has NUL bytes in it.\<close>

lemma makegdbm_undo_nul: "makegdbm_undo alist_map [(''joe'', ''mail'')] = ''joe:'' @ NUL # ''mail'' @ [LF, NUL]"
  by code_simp

text \<open>A line that does not fit into the array makes both programs read the byte behind it.\<close>

lemma make_line_too_long:
  assumes "LF \<notin> set line" and "length line = MAP_LINE_LENGTH" and "mk_line s = line" and "FIELD_DELIMITER \<notin> set line"
    and "\<exists>c \<in> set line. \<not> blank_char c"
  shows "makegdbm_line M s = None" and "makebdb_line M db_strerror s = None"
proof -
  have "gdbm_scan xs i b (-1) (-1) = (b \<and> (\<forall>c \<in> set xs. blank_char c), -1, -1, i + length xs)"
    if "LF \<notin> set xs" "FIELD_DELIMITER \<notin> set xs" for xs i b
    using that by (induction xs arbitrary: i b) (auto simp: Let_def)
  from this [OF assms(1,4), of 0 True] show "makegdbm_line M s = None"
    using assms(2,3,5) by (auto simp: makegdbm_line_def make_entry_def Let_def)
  have "bdb_scan xs i b BDB_UNSET BDB_UNSET = (b \<and> (\<forall>c \<in> set xs. blank_char c), BDB_UNSET, BDB_UNSET, i + length xs)"
    if "LF \<notin> set xs" "FIELD_DELIMITER \<notin> set xs" for xs i b
    using that by (induction xs arbitrary: i b) (auto simp: Let_def)
  from this [OF assms(1,4), of 0 True] show "makebdb_line M db_strerror s = None"
    using assms(2,3,5) by (auto simp: makebdb_line_def make_entry_def Let_def)
qed

end
